(* ===== verification/Prelude.thy ===== *)
theory Prelude
  imports Main "HOL-Library.Word" "HOL-Library.List_Lexorder" "HOL-Library.Char_ord"
    "HOL-Library.Product_Lexorder"
begin

text \<open>
  What the component theories share: results of fallible code as sums, tables of rows as
  lists with a key column, the ordering clauses of SQL queries, and the two generic
  interfaces (a fallible store whose operations keep an invariant, and a comparator used
  for sorting) that the components interpret on their own operations.
\<close>

named_theorems result_simps \<open>rewriting of results of fallible operations\<close>
named_theorems table_simps \<open>rewriting of table operations\<close>

section \<open>Results of fallible code\<close>

fun bindE :: "'e + 'a \<Rightarrow> ('a \<Rightarrow> 'e + 'b) \<Rightarrow> 'e + 'b" where
  "bindE (Inl e) f = Inl e"
| "bindE (Inr a) f = f a"

definition require :: "bool \<Rightarrow> 'e \<Rightarrow> 'e + unit" where
  "require b e = (if b then Inr () else Inl e)"

fun traverseE :: "('a \<Rightarrow> 'e + 'b) \<Rightarrow> 'a list \<Rightarrow> 'e + 'b list" where
  "traverseE f [] = Inr []"
| "traverseE f (x # xs) = bindE (f x) (\<lambda>y. bindE (traverseE f xs) (\<lambda>ys. Inr (y # ys)))"

lemma bindE_Inr_iff [result_simps]:
  "bindE m f = Inr y \<longleftrightarrow> (\<exists>x. m = Inr x \<and> f x = Inr y)"
  by (cases m) auto

lemma bindE_Inl_iff:
  "bindE m f = Inl e \<longleftrightarrow> m = Inl e \<or> (\<exists>x. m = Inr x \<and> f x = Inl e)"
  by (cases m) auto

lemma require_Inr_iff [result_simps]: "require b e = Inr u \<longleftrightarrow> b"
  by (simp add: require_def)

lemma require_Inl_iff: "require b e = Inl e' \<longleftrightarrow> \<not> b \<and> e = e'"
  by (auto simp: require_def)

lemma bindE_require: "bindE (require b e) f = (if b then f () else Inl e)"
  by (simp add: require_def)

lemma bindE_assoc: "bindE (bindE m f) g = bindE m (\<lambda>x. bindE (f x) g)"
  by (cases m) auto

lemma traverseE_Inr_iff: "traverseE f xs = Inr ys \<longleftrightarrow> map f xs = map Inr ys"
proof (induction xs arbitrary: ys)
  case (Cons x xs)
  show ?case by (cases ys) (auto simp: bindE_Inr_iff Cons.IH)
qed auto

lemma bindE_cong [fundef_cong]:
  "m = m' \<Longrightarrow> (\<And>x. m' = Inr x \<Longrightarrow> f x = g x) \<Longrightarrow> bindE m f = bindE m' g"
  by (cases m') auto

section \<open>Tables of rows\<close>

text \<open>
  A table is the list of its rows.  \<open>update_where\<close> and \<open>delete_where\<close> are the SQL
  statements of the same names; \<open>row_by\<close> is a select on a key column with a limit of one.
\<close>

definition update_where :: "('r \<Rightarrow> bool) \<Rightarrow> ('r \<Rightarrow> 'r) \<Rightarrow> 'r list \<Rightarrow> 'r list" where
  "update_where P f rows = map (\<lambda>r. if P r then f r else r) rows"

definition delete_where :: "('r \<Rightarrow> bool) \<Rightarrow> 'r list \<Rightarrow> 'r list" where
  "delete_where P rows = filter (\<lambda>r. \<not> P r) rows"

definition count_where :: "('r \<Rightarrow> bool) \<Rightarrow> 'r list \<Rightarrow> nat" where
  "count_where P rows = length (filter P rows)"

definition row_by :: "('r \<Rightarrow> 'k) \<Rightarrow> 'k \<Rightarrow> 'r list \<Rightarrow> 'r option" where
  "row_by key k rows = find (\<lambda>r. key r = k) rows"

definition exists_row :: "('r \<Rightarrow> bool) \<Rightarrow> 'r list \<Rightarrow> bool" where
  "exists_row P rows = list_ex P rows"

lemma exists_row_iff [table_simps]: "exists_row P rows \<longleftrightarrow> (\<exists>r \<in> set rows. P r)"
  by (simp add: exists_row_def list_ex_iff)

lemma row_by_None [table_simps]: "row_by key k rows = None \<longleftrightarrow> k \<notin> key ` set rows"
  by (auto simp: row_by_def find_None_iff)

lemma row_by_SomeD:
  assumes "row_by key k rows = Some r"
  shows "r \<in> set rows" "key r = k"
  using assms by (auto simp: row_by_def find_Some_iff)

lemma row_by_eq:
  assumes "distinct (map key rows)" "r \<in> set rows"
  shows "row_by key (key r) rows = Some r"
  using assms by (induction rows) (auto simp: row_by_def rev_image_eqI)

lemma row_by_Some_iff:
  assumes "distinct (map key rows)"
  shows "row_by key k rows = Some r \<longleftrightarrow> r \<in> set rows \<and> key r = k"
  using row_by_SomeD row_by_eq [OF assms] by metis

lemma keys_inj:
  assumes "distinct (map key rows)" "r \<in> set rows" "s \<in> set rows" "key r = key s"
  shows "r = s"
  using assms by (metis (mono_tags, lifting) distinct_map inj_onD)

lemma update_where_Nil [table_simps]: "update_where P f [] = []"
  by (simp add: update_where_def)

lemma set_update_where [table_simps]:
  "set (update_where P f rows) = {r. (\<exists>s \<in> set rows. P s \<and> r = f s) \<or> (r \<in> set rows \<and> \<not> P r)}"
  by (auto simp: update_where_def)

lemma set_delete_where [table_simps]: "set (delete_where P rows) = {r \<in> set rows. \<not> P r}"
  by (auto simp: delete_where_def)

lemma map_update_where:
  assumes "\<And>r. r \<in> set rows \<Longrightarrow> P r \<Longrightarrow> key (f r) = key r"
  shows "map key (update_where P f rows) = map key rows"
  using assms by (auto simp: update_where_def)

lemma distinct_map_delete_where:
  "distinct (map key rows) \<Longrightarrow> distinct (map key (delete_where P rows))"
  by (simp add: delete_where_def distinct_map_filter)

lemma count_where_append [table_simps]: "count_where P (xs @ ys) = count_where P xs + count_where P ys"
  by (simp add: count_where_def)

lemma count_where_Cons [table_simps]:
  "count_where P (x # xs) = (if P x then Suc (count_where P xs) else count_where P xs)"
  by (simp add: count_where_def)

lemma count_where_Nil [table_simps]: "count_where P [] = 0"
  by (simp add: count_where_def)

lemma count_where_cong:
  "(\<And>r. r \<in> set rows \<Longrightarrow> P r = Q r) \<Longrightarrow> count_where P rows = count_where Q rows"
  unfolding count_where_def by (metis filter_cong)

lemma count_where_update:
  "count_where P (update_where Q f rows) = count_where (\<lambda>r. P (if Q r then f r else r)) rows"
  by (induction rows) (auto simp: count_where_def update_where_def)

lemma count_where_delete:
  "count_where P (delete_where Q rows) = count_where (\<lambda>r. P r \<and> \<not> Q r) rows"
  by (induction rows) (auto simp: count_where_def delete_where_def)

lemma count_where_0: "count_where P rows = 0 \<longleftrightarrow> (\<forall>r \<in> set rows. \<not> P r)"
  by (auto simp: count_where_def filter_empty_conv)

text \<open>
  The lemma behind every counter: two predicates that agree on all rows but the one with
  key \<open>k\<close>, which only the second accepts, count one apart.
\<close>

lemma count_where_flip:
  assumes "distinct (map key rows)" and "r \<in> set rows" and "\<not> P r" and "Q r"
    and "\<And>s. s \<in> set rows \<Longrightarrow> key s \<noteq> key r \<Longrightarrow> P s = Q s"
  shows "count_where Q rows = Suc (count_where P rows)"
  using assms
proof (induction rows)
  case (Cons x xs)
  show ?case
  proof (cases "x = r")
    case True
    with Cons.prems(1) have "\<And>s. s \<in> set xs \<Longrightarrow> key s \<noteq> key r"
      by (metis distinct.simps(2) image_eqI list.set_map list.simps(9))
    with Cons.prems(5) have "\<And>s. s \<in> set xs \<Longrightarrow> P s = Q s" by simp
    with count_where_cong [of xs P Q] True Cons.prems(3,4) show ?thesis
      by (simp add: table_simps)
  next
    case False
    with Cons.prems(1,2) have "r \<in> set xs" "key x \<noteq> key r" by (auto simp: image_iff)
    with Cons show ?thesis by (simp add: table_simps)
  qed
qed simp

lemma count_where_flip_down:
  assumes "distinct (map key rows)" and "r \<in> set rows" and "P r" and "\<not> Q r"
    and "\<And>s. s \<in> set rows \<Longrightarrow> key s \<noteq> key r \<Longrightarrow> P s = Q s"
  shows "count_where P rows = Suc (count_where Q rows)"
  using count_where_flip [of key rows r Q P] assms by simp

lemma row_by_update_where:
  assumes "\<And>r. P r \<Longrightarrow> key (f r) = key r"
  shows "row_by key k (update_where P f rows) = map_option (\<lambda>r. if P r then f r else r) (row_by key k rows)"
  using assms by (induction rows) (auto simp: row_by_def update_where_def)

lemma row_by_delete_where:
  assumes "distinct (map key rows)"
  shows "row_by key k (delete_where P rows) =
    (case row_by key k rows of None \<Rightarrow> None | Some r \<Rightarrow> if P r then None else Some r)"
proof (cases "row_by key k rows")
  case None
  then have "row_by key k (delete_where P rows) = None"
    by (auto simp: row_by_None set_delete_where)
  with None show ?thesis by simp
next
  case (Some r)
  note r = row_by_SomeD [OF Some]
  have only: "s = r" if "s \<in> set rows" "key s = k" for s
    using keys_inj [OF assms that(1) r(1)] that(2) r(2) by simp
  show ?thesis
  proof (cases "P r")
    case True
    with only have "row_by key k (delete_where P rows) = None"
      by (auto simp: row_by_None set_delete_where)
    with Some True show ?thesis by simp
  next
    case False
    have "distinct (map key (delete_where P rows))"
      using assms by (rule distinct_map_delete_where)
    with False r Some show ?thesis by (auto simp: row_by_Some_iff set_delete_where)
  qed
qed

lemma row_by_append:
  "row_by key k (rows @ [r]) =
    (case row_by key k rows of None \<Rightarrow> if key r = k then Some r else None | Some x \<Rightarrow> Some x)"
  by (induction rows) (auto simp: row_by_def)

section \<open>Decimal rendering\<close>

definition digitChar :: "nat \<Rightarrow> char" where
  "digitChar d = char_of (48 + d)"

fun showNat :: "nat \<Rightarrow> string" where
  "showNat n = (if n < 10 then [digitChar n] else showNat (n div 10) @ [digitChar (n mod 10)])"

declare showNat.simps [simp del]

definition showInt :: "int \<Rightarrow> string" where
  "showInt i = (if i < 0 then CHR ''-'' # showNat (nat (- i)) else showNat (nat i))"

section \<open>Stores with fallible operations\<close>

text \<open>
  An operation that fails leaves the state as it was; a sequence of operations runs each on
  the state its predecessors left.  The locale is the contract every store below provides:
  an operation its callers may make keeps the invariant.
\<close>

definition settle :: "('op \<Rightarrow> 's \<Rightarrow> 'e + 's) \<Rightarrow> 'op \<Rightarrow> 's \<Rightarrow> 's" where
  "settle step opn s = (case step opn s of Inl _ \<Rightarrow> s | Inr s' \<Rightarrow> s')"

fun runOps :: "('op \<Rightarrow> 's \<Rightarrow> 'e + 's) \<Rightarrow> 'op list \<Rightarrow> 's \<Rightarrow> 's" where
  "runOps step [] s = s"
| "runOps step (opn # ops) s = runOps step ops (settle step opn s)"

fun allAllowed :: "('op \<Rightarrow> 's \<Rightarrow> bool) \<Rightarrow> ('op \<Rightarrow> 's \<Rightarrow> 'e + 's) \<Rightarrow> 'op list \<Rightarrow> 's \<Rightarrow> bool" where
  "allAllowed allowed step [] s \<longleftrightarrow> True"
| "allAllowed allowed step (opn # ops) s \<longleftrightarrow> allowed opn s \<and> allAllowed allowed step ops (settle step opn s)"

lemma runOps_append: "runOps step (xs @ ys) s = runOps step ys (runOps step xs s)"
  by (induction xs arbitrary: s) auto

locale fallible_store =
  fixes step :: "'op \<Rightarrow> 's \<Rightarrow> 'e + 's"
    and allowed :: "'op \<Rightarrow> 's \<Rightarrow> bool"
    and inv :: "'s \<Rightarrow> bool"
  assumes step_keeps: "inv s \<Longrightarrow> allowed opn s \<Longrightarrow> step opn s = Inr s' \<Longrightarrow> inv s'"
begin

lemma settle_keeps: "inv s \<Longrightarrow> allowed opn s \<Longrightarrow> inv (settle step opn s)"
  using step_keeps by (auto simp: settle_def split: sum.splits)

lemma settle_error: "step opn s = Inl e \<Longrightarrow> settle step opn s = s"
  by (simp add: settle_def)

lemma run_keeps: "inv s \<Longrightarrow> allAllowed allowed step ops s \<Longrightarrow> inv (runOps step ops s)"
  by (induction ops arbitrary: s) (auto intro: settle_keeps)

lemma prefix_keeps:
  assumes "inv s" "allAllowed allowed step (xs @ ys) s"
  shows "inv (runOps step xs s)" "allAllowed allowed step ys (runOps step xs s)"
  using assms by (induction xs arbitrary: s) (auto intro: settle_keeps)

end

text \<open>
  A store whose steps also stand in a relation of states that composes: what the relation
  says of one step holds between the ends of a run.
\<close>

locale evolving_store = fallible_store step allowed inv
  for step :: "'op \<Rightarrow> 's \<Rightarrow> 'e + 's" and allowed :: "'op \<Rightarrow> 's \<Rightarrow> bool" and inv :: "'s \<Rightarrow> bool" +
  fixes rel :: "'s \<Rightarrow> 's \<Rightarrow> bool"
  assumes rel_refl: "rel s s"
    and rel_trans: "rel s t \<Longrightarrow> rel t u \<Longrightarrow> rel s u"
    and step_rel: "inv s \<Longrightarrow> allowed opn s \<Longrightarrow> step opn s = Inr s' \<Longrightarrow> rel s s'"
begin

lemma settle_rel: "inv s \<Longrightarrow> allowed opn s \<Longrightarrow> rel s (settle step opn s)"
  using step_rel rel_refl by (auto simp: settle_def split: sum.splits)

lemma run_rel: "inv s \<Longrightarrow> allAllowed allowed step ops s \<Longrightarrow> rel s (runOps step ops s)"
  by (induction ops arbitrary: s) (auto intro: rel_refl rel_trans settle_keeps settle_rel)

end

text \<open>Stores whose operations may be called at any time with any input.\<close>

definition always :: "'op \<Rightarrow> 's \<Rightarrow> bool" where
  "always opn s \<longleftrightarrow> True"

lemma always_allowed [simp]: "always opn s" "allAllowed always step ops s"
  by (simp_all add: always_def, induction ops arbitrary: s) (simp_all add: always_def)


text \<open>The operator ?? of JavaScript.\<close>

fun orElse :: "'a option \<Rightarrow> 'a option \<Rightarrow> 'a option" where
  "orElse (Some x) y = Some x"
| "orElse None y = y"

section \<open>Splitting and joining text\<close>

text \<open>\<open>split\<close> and \<open>join\<close> of JavaScript with a separator of one character.\<close>

fun splitOn :: "'a \<Rightarrow> 'a list \<Rightarrow> 'a list list" where
  "splitOn sep [] = [[]]"
| "splitOn sep (c # t) =
     (if c = sep then [] # splitOn sep t
      else case splitOn sep t of [] \<Rightarrow> [[c]] | w # ws \<Rightarrow> (c # w) # ws)"

fun joinWith :: "'a \<Rightarrow> 'a list list \<Rightarrow> 'a list" where
  "joinWith sep [] = []"
| "joinWith sep [w] = w"
| "joinWith sep (w # ws) = w @ sep # joinWith sep ws"

lemma splitOn_nonempty [simp]: "splitOn sep t \<noteq> []"
  by (induction t) (auto split: list.splits)

lemma splitOn_no_sep: "w \<in> set (splitOn sep t) \<Longrightarrow> sep \<notin> set w"
  by (induction t arbitrary: w) (auto split: list.splits if_splits)

lemma splitOn_append: "sep \<notin> set w \<Longrightarrow> splitOn sep (w @ sep # t) = w # splitOn sep t"
  by (induction w) auto

lemma splitOn_plain: "sep \<notin> set w \<Longrightarrow> splitOn sep w = [w]"
  by (induction w) auto

lemma splitOn_joinWith:
  assumes "ws \<noteq> []" "\<forall>w \<in> set ws. sep \<notin> set w"
  shows "splitOn sep (joinWith sep ws) = ws"
  using assms
proof (induction sep ws rule: joinWith.induct)
  case (3 sep w v ws)
  then show ?case by (simp add: splitOn_append)
qed (simp_all add: splitOn_plain)

lemma joinWith_splitOn: "joinWith sep (splitOn sep t) = t"
proof (induction t)
  case (Cons c t)
  then show ?case by (cases "splitOn sep t" rule: list.exhaust; cases "tl (splitOn sep t)") auto
qed simp

end
