(* ===== verification/Turn_Model.thy ===== *)
theory Turn_Model
  imports Prelude
begin

text \<open>
  The data of the turn repository: execution statuses, turns as the product sees them, the
  rows of the Postgres tables, the errors of the repository and the row codec
  (packages/product/src/execution/session/status.ts, thread/turn/record.ts,
  thread/model/state.ts, thread/queue/pending-policy.ts and
  packages/product-store/src/turn/postgres/row-codec.ts).  Text columns are strings;
  timestamps are the integral milliseconds of the clock.  A column that stores a JSON
  document holds the document's value: the schema library encodes and decodes it, and
  decoding what was encoded gives the value back.  Documents nothing looks into
  (execution routes, prompt parts) are the strings of their texts.
\<close>

type_synonym turn_id = string
type_synonym thread_id = string
type_synonym json = string
type_synonym time = int

section \<open>Statuses\<close>

datatype status = StAccepted | StQueued | StRunning | StWaiting | StCancelling
  | StCompleted | StFailed | StCancelled

definition statuses :: "status list" where
  "statuses = [StAccepted, StQueued, StRunning, StWaiting, StCancelling, StCompleted, StFailed, StCancelled]"

fun isTerminalStatus :: "status \<Rightarrow> bool" where
  "isTerminalStatus StCompleted = True"
| "isTerminalStatus StFailed = True"
| "isTerminalStatus StCancelled = True"
| "isTerminalStatus StAccepted = False"
| "isTerminalStatus StQueued = False"
| "isTerminalStatus StRunning = False"
| "isTerminalStatus StWaiting = False"
| "isTerminalStatus StCancelling = False"

definition isActiveStatus :: "status \<Rightarrow> bool" where
  "isActiveStatus s \<longleftrightarrow> \<not> isTerminalStatus s \<and> s \<noteq> StQueued"

definition occupiesQueue :: "status \<Rightarrow> bool" where
  "occupiesQueue s \<longleftrightarrow> \<not> isTerminalStatus s"

text \<open>
  The status lists that the SQL statements spell out, and what they mean.
\<close>

abbreviation active_statuses :: "status list" where
  "active_statuses \<equiv> [StAccepted, StRunning, StWaiting, StCancelling]"

abbreviation nonterminal_statuses :: "status list" where
  "nonterminal_statuses \<equiv> [StQueued, StAccepted, StRunning, StWaiting, StCancelling]"

abbreviation terminal_statuses :: "status list" where
  "terminal_statuses \<equiv> [StCompleted, StFailed, StCancelled]"

lemma active_statuses_iff: "s \<in> set active_statuses \<longleftrightarrow> isActiveStatus s"
  by (cases s) (auto simp: isActiveStatus_def)

lemma nonterminal_statuses_iff: "s \<in> set nonterminal_statuses \<longleftrightarrow> occupiesQueue s"
  by (cases s) (auto simp: occupiesQueue_def)

lemma terminal_statuses_iff: "s \<in> set terminal_statuses \<longleftrightarrow> isTerminalStatus s"
  by (cases s) auto

lemma active_not_queued [simp]: "\<not> isActiveStatus StQueued"
  by (simp add: isActiveStatus_def)

lemma active_simps [simp]: "isActiveStatus StAccepted" "isActiveStatus StRunning"
    "isActiveStatus StWaiting" "isActiveStatus StCancelling" "\<not> isActiveStatus StCompleted"
    "\<not> isActiveStatus StFailed" "\<not> isActiveStatus StCancelled"
  by (simp_all add: isActiveStatus_def)

section \<open>The state of a thread\<close>

datatype threadstate = TsIdle | TsError | TsQueued | TsRunning

definition ranked :: "(nat \<times> threadstate \<times> status list) list" where
  "ranked = [(2, TsRunning, [StAccepted, StRunning, StWaiting, StCancelling]), (1, TsQueued, [StQueued])]"

definition statusRank :: "status \<Rightarrow> nat" where
  "statusRank s = (case find (\<lambda>(_, _, ss). s \<in> set ss) ranked of None \<Rightarrow> 0 | Some (r, _, _) \<Rightarrow> r)"

definition threadStateFromRank :: "nat \<Rightarrow> status option \<Rightarrow> threadstate" where
  "threadStateFromRank rank lastStatus =
     (case find (\<lambda>(r, _, _). r = rank) ranked of
        Some (_, st, _) \<Rightarrow> st
      | None \<Rightarrow> if lastStatus = Some StFailed then TsError else TsIdle)"

definition threadState :: "status list \<Rightarrow> threadstate" where
  "threadState ss =
     threadStateFromRank (foldl (\<lambda>highest s. max highest (statusRank s)) 0 ss)
       (if ss = [] then None else Some (last ss))"

lemma statusRank_simps [simp]:
  "statusRank StAccepted = 2" "statusRank StRunning = 2" "statusRank StWaiting = 2"
  "statusRank StCancelling = 2" "statusRank StQueued = 1" "statusRank StCompleted = 0"
  "statusRank StFailed = 0" "statusRank StCancelled = 0"
  by (simp_all add: statusRank_def ranked_def)

section \<open>Turns and execution links\<close>

datatype turn_author = Human | AgentAuthor thread_id string int

datatype turn_lineage = Original | ForkCopy thread_id string | Retried string

record execution_link =
  runId :: string
  titleRunId :: "string option"
  titleExpected :: "string option"
  linkTurnId :: string
  linkThreadId :: string

record start_turn =
  stThreadId :: string
  stTurnId :: string
  stWorkspaceId :: string
  stPrompt :: string
  stRest :: json

record agent_turn =
  aId :: turn_id
  aThreadId :: thread_id
  aPrompt :: string
  aPromptParts :: "json option"
  aStatus :: status
  aExecutionRoute :: json
  aExecutionLink :: "execution_link option"
  aAuthor :: turn_author
  aLineage :: turn_lineage
  aCreatedAt :: time
  aUpdatedAt :: time

record shell_result =
  resText :: string
  resTruncated :: bool
  resExitCode :: "int option"

record shell_turn =
  sId :: turn_id
  sThreadId :: thread_id
  sPrompt :: string
  sCommand :: string
  sStatus :: status
  sResult :: "shell_result option"
  sCreatedAt :: time
  sUpdatedAt :: time

datatype turn = AgentExecution agent_turn | RecordedShell shell_turn

section \<open>Queue changes and steering admissions\<close>

datatype queue_change = Added agent_turn "nat option" | Updated agent_turn | Removed turn_id

record queue_item_change =
  qcThreadId :: thread_id
  qcRevision :: int
  qcQueuedCount :: int
  qcBecameNonempty :: bool
  qcChange :: queue_change

record steering_input =
  steerText :: string
  idempotencyKey :: string

record steering_receipt =
  entryId :: string
  sequence :: int

datatype failure_kind = FailRejected | FailUnknown

record steering_failure =
  failureKind :: failure_kind
  failureMessage :: string

datatype steering_outcome =
    OutPending
  | OutAccepted steering_receipt
  | OutRejected steering_failure "queue_item_change option"

record steering_admission =
  target :: execution_link
  input :: steering_input
  source :: "agent_turn option"
  sourceWithdrawn :: "bool option"
  preparedAt :: time
  outcome :: steering_outcome

definition PendingSteeringMaxEntries :: nat where
  "PendingSteeringMaxEntries = 64"

section \<open>Rows\<close>

datatype turn_kind = KindAgent | KindShell

record turn_row =
  rowId :: turn_id
  threadId :: thread_id
  turnKind :: turn_kind
  prompt :: string
  status :: status
  createdAt :: time
  updatedAt :: time
  promptParts :: "json option"
  executionRoute :: "json option"
  executionLink :: "execution_link option"
  queueClaimToken :: "string option"
  author :: turn_author
  lineage :: turn_lineage
  shellCommand :: "string option"
  shellResultText :: "string option"
  shellResultTruncated :: "int option"
  shellResultExitCode :: "int option"

record queue_row =
  qThread :: thread_id
  revision :: int
  queuedCount :: int

record admission_row =
  admTurnId :: turn_id
  admStartInput :: start_turn
  admPreparedAt :: time

datatype outbox_status = ObPending | ObAccepted | ObRejected

record steering_row =
  requestId :: string
  targetTurnId :: turn_id
  sourceTurnId :: "turn_id option"
  obThreadId :: thread_id
  admission :: steering_admission
  withdrawnColumn :: int
  obStatus :: outbox_status
  obPreparedAt :: time

text \<open>
  The errors of the repository.  \<open>LibraryError\<close> is a RepositoryError whose message is the
  text of the database driver (a violated constraint) or of the schema library.
\<close>

datatype store_error =
    RepositoryError string
  | LibraryError
  | QueueFull thread_id int int
  | QueuedTurnUnavailable turn_id string

section \<open>The row codec\<close>

definition printableId :: "string \<Rightarrow> bool" where
  "printableId s \<longleftrightarrow> s \<noteq> [] \<and> list_all (\<lambda>c. 33 \<le> (of_char c :: nat) \<and> (of_char c :: nat) \<le> 126) s"

definition shellResultIsMissing :: "turn_row \<Rightarrow> bool" where
  "shellResultIsMissing r \<longleftrightarrow> shellResultText r = None \<or>
     (shellResultTruncated r \<noteq> Some 0 \<and> shellResultTruncated r \<noteq> Some 1)"

definition decodeShell :: "turn_row \<Rightarrow> store_error + turn" where
  "decodeShell r =
     (case shellCommand r of
        None \<Rightarrow> Inl (RepositoryError (''Recorded shell turn '' @ rowId r @ '' has no command''))
      | Some command \<Rightarrow>
          let terminal = (status r \<noteq> StRunning) in
          if terminal \<and> shellResultIsMissing r
          then Inl (RepositoryError (''Recorded shell turn '' @ rowId r @ '' has no terminal result''))
          else if command = [] \<or> author r \<noteq> Human \<or> lineage r \<noteq> Original \<or>
            (terminal \<and> \<not> isTerminalStatus (status r))
          then Inl LibraryError
          else Inr (RecordedShell
            \<lparr> sId = rowId r, sThreadId = threadId r, sPrompt = prompt r, sCommand = command,
              sStatus = status r,
              sResult = (if terminal
                then Some \<lparr> resText = the (shellResultText r),
                  resTruncated = (shellResultTruncated r = Some 1), resExitCode = shellResultExitCode r \<rparr>
                else None),
              sCreatedAt = createdAt r, sUpdatedAt = updatedAt r \<rparr>))"

definition decode :: "turn_row \<Rightarrow> store_error + turn" where
  "decode r =
     (if \<not> printableId (rowId r) \<or> \<not> printableId (threadId r) then Inl LibraryError
      else case turnKind r of
        KindShell \<Rightarrow> decodeShell r
      | KindAgent \<Rightarrow>
          (case executionRoute r of
             None \<Rightarrow> Inl (RepositoryError (''Agent execution turn '' @ rowId r @ '' has no execution route''))
           | Some route \<Rightarrow> Inr (AgentExecution
              \<lparr> aId = rowId r, aThreadId = threadId r, aPrompt = prompt r, aPromptParts = promptParts r,
                aStatus = status r, aExecutionRoute = route, aExecutionLink = executionLink r,
                aAuthor = author r, aLineage = lineage r, aCreatedAt = createdAt r,
                aUpdatedAt = updatedAt r \<rparr>)))"

definition decodeAgent :: "turn_row \<Rightarrow> store_error + agent_turn" where
  "decodeAgent r =
     bindE (decode r) (\<lambda>t. case t of
        AgentExecution a \<Rightarrow> Inr a
      | RecordedShell _ \<Rightarrow> Inl (RepositoryError ''Expected an AgentExecution turn''))"

lemma decodeAgent_Inr:
  assumes "decodeAgent r = Inr a"
  shows "turnKind r = KindAgent" "aId a = rowId r" "aThreadId a = threadId r" "aStatus a = status r"
    "aExecutionLink a = executionLink r" "aCreatedAt a = createdAt r" "aUpdatedAt a = updatedAt r"
    "aPrompt a = prompt r" "executionRoute r = Some (aExecutionRoute a)"
    "aPromptParts a = promptParts r" "aAuthor a = author r" "aLineage a = lineage r"
  using assms
  by (auto simp: decodeAgent_def decode_def decodeShell_def Let_def bindE_Inr_iff
      split: if_splits turn_kind.splits option.splits turn.splits)

section \<open>Stale queued turns\<close>

definition queuedTurnPromoteMaxAgeMs :: int where
  "queuedTurnPromoteMaxAgeMs = 86400000"

definition staleQueuedTurns :: "agent_turn list \<Rightarrow> time \<Rightarrow> time \<Rightarrow> agent_turn list" where
  "staleQueuedTurns turns now maxAgeMs = filter (\<lambda>t. now - aCreatedAt t > maxAgeMs) turns"

record stale_error =
  staleThreadId :: thread_id
  staleTurnIds :: "turn_id list"
  staleMaxAgeMs :: time
  staleMessage :: string

definition staleQueuedTurnsError ::
  "thread_id \<Rightarrow> agent_turn list \<Rightarrow> time \<Rightarrow> time \<Rightarrow> stale_error option" where
  "staleQueuedTurnsError tid turns now maxAgeMs =
     (let stale = staleQueuedTurns turns now maxAgeMs in
      if stale = [] then None
      else Some \<lparr> staleThreadId = tid, staleTurnIds = map aId stale, staleMaxAgeMs = maxAgeMs,
        staleMessage = ''Refusing to auto-run '' @ showNat (length stale) @
          '' queued turn(s) older than '' @ showInt ((2 * maxAgeMs + 60000) div 120000) @
          '' minutes; dequeue or edit them explicitly'' \<rparr>)"

end
