(* ===== verification/Turn_Database.thy ===== *)
theory Turn_Database
  imports Turn_Model
begin

text \<open>
  The tables behind the turn repository
  (packages/product-store/src/database/schema/product-execution.ts, product-thread.ts and
  migrations/postgres/0006-product-state.sql).  A transaction is a function from the
  database to an error or a result with the new database; an error leaves the database the
  caller holds, which is what a rollback does.  Every statement that writes is followed by
  the table constraints (\<open>enforce\<close>): keys, partial unique indexes, foreign keys and
  checks, with the 32-bit range of integer columns.  Text columns compare in the "C"
  collation, that is by bytes.
\<close>

record db =
  threads :: "thread_id list"
  deletionOutbox :: "thread_id list"
  turns :: "turn_row list"
  queues :: "queue_row list"
  admissions :: "admission_row list"
  steering :: "steering_row list"

section \<open>Constraints\<close>

definition isActiveRow :: "turn_row \<Rightarrow> bool" where
  "isActiveRow r \<longleftrightarrow> turnKind r = KindAgent \<and> status r \<in> set active_statuses"

definition turnsCheck :: "turn_row \<Rightarrow> bool" where
  "turnsCheck r \<longleftrightarrow>
     (case turnKind r of
        KindAgent \<Rightarrow> executionRoute r \<noteq> None \<and> shellCommand r = None \<and> shellResultText r = None \<and>
          shellResultTruncated r = None \<and> shellResultExitCode r = None
      | KindShell \<Rightarrow>
          (case shellCommand r of None \<Rightarrow> False | Some command \<Rightarrow> command \<noteq> [] \<and> prompt r = ''$ '' @ command) \<and>
          promptParts r = None \<and> executionRoute r = None \<and> executionLink r = None \<and>
          queueClaimToken r = None \<and> author r = Human \<and> lineage r = Original \<and>
          ((status r = StRunning \<and> shellResultText r = None \<and> shellResultTruncated r = None \<and>
            shellResultExitCode r = None) \<or>
           (status r \<in> set terminal_statuses \<and> shellResultText r \<noteq> None \<and>
            shellResultTruncated r \<in> {Some 0, Some 1})))"

definition int4 :: "int \<Rightarrow> bool" where
  "int4 n \<longleftrightarrow> - 2147483648 \<le> n \<and> n < 2147483648"

definition queueCheck :: "queue_row \<Rightarrow> bool" where
  "queueCheck q \<longleftrightarrow> 0 \<le> revision q \<and> int4 (revision q) \<and> 0 \<le> queuedCount q \<and> int4 (queuedCount q)"

definition turnsConsistent :: "db \<Rightarrow> bool" where
  "turnsConsistent d \<longleftrightarrow>
     distinct (map rowId (turns d)) \<and>
     distinct (map threadId (filter isActiveRow (turns d))) \<and>
     distinct (map threadId (filter (\<lambda>r. queueClaimToken r \<noteq> None) (turns d))) \<and>
     list_all turnsCheck (turns d) \<and>
     list_all (\<lambda>r. threadId r \<in> set (threads d)) (turns d)"

definition queuesConsistent :: "db \<Rightarrow> bool" where
  "queuesConsistent d \<longleftrightarrow> distinct (map qThread (queues d)) \<and> list_all queueCheck (queues d) \<and>
     list_all (\<lambda>q. qThread q \<in> set (threads d)) (queues d)"

definition admissionsConsistent :: "db \<Rightarrow> bool" where
  "admissionsConsistent d \<longleftrightarrow> distinct (map admTurnId (admissions d)) \<and>
     list_all (\<lambda>a. admTurnId a \<in> rowId ` set (turns d)) (admissions d)"

definition steeringConsistent :: "db \<Rightarrow> bool" where
  "steeringConsistent d \<longleftrightarrow>
     distinct (map requestId (steering d)) \<and>
     distinct (map sourceTurnId (filter (\<lambda>s. sourceTurnId s \<noteq> None) (steering d))) \<and>
     list_all (\<lambda>s. targetTurnId s \<in> rowId ` set (turns d)) (steering d) \<and>
     list_all (\<lambda>s. case sourceTurnId s of None \<Rightarrow> True | Some i \<Rightarrow> i \<in> rowId ` set (turns d)) (steering d) \<and>
     list_all (\<lambda>s. obThreadId s \<in> set (threads d)) (steering d) \<and>
     list_all (\<lambda>s. withdrawnColumn s \<in> {0, 1}) (steering d)"

definition consistent :: "db \<Rightarrow> bool" where
  "consistent d \<longleftrightarrow> turnsConsistent d \<and> queuesConsistent d \<and> admissionsConsistent d \<and> steeringConsistent d"

definition enforce :: "db \<Rightarrow> store_error + db" where
  "enforce d = (if consistent d then Inr d else Inl LibraryError)"

lemma enforce_Inr [result_simps]: "enforce d = Inr d' \<longleftrightarrow> consistent d \<and> d' = d"
  by (auto simp: enforce_def)

lemma consistentD:
  assumes "consistent d"
  shows "distinct (map rowId (turns d))"
    and "distinct (map threadId (filter isActiveRow (turns d)))"
    and "distinct (map threadId (filter (\<lambda>r. queueClaimToken r \<noteq> None) (turns d)))"
    and "distinct (map qThread (queues d))"
    and "distinct (map requestId (steering d))"
    and "distinct (map admTurnId (admissions d))"
    and "distinct (map sourceTurnId (filter (\<lambda>s. sourceTurnId s \<noteq> None) (steering d)))"
    and "\<And>r. r \<in> set (turns d) \<Longrightarrow> turnsCheck r"
    and "\<And>q. q \<in> set (queues d) \<Longrightarrow> queueCheck q"
    and "\<And>s. s \<in> set (steering d) \<Longrightarrow> targetTurnId s \<in> rowId ` set (turns d)"
    and "\<And>s i. s \<in> set (steering d) \<Longrightarrow> sourceTurnId s = Some i \<Longrightarrow> i \<in> rowId ` set (turns d)"
    and "\<And>a. a \<in> set (admissions d) \<Longrightarrow> admTurnId a \<in> rowId ` set (turns d)"
  using assms
  by (auto simp: consistent_def turnsConsistent_def queuesConsistent_def admissionsConsistent_def
      steeringConsistent_def list_all_iff split: option.splits)

section \<open>Statements\<close>

text \<open>
  The insert trigger \<open>rika_product_reject_tombstoned_turn\<close>: no turn enters a thread whose
  deletion is pending, and an accepted agent turn that meets a nonterminal one is queued.
\<close>

definition insertTurn :: "turn_row \<Rightarrow> db \<Rightarrow> store_error + (turn_row \<times> db)" where
  "insertTurn r d =
     (if threadId r \<in> set (deletionOutbox d) then Inl LibraryError
      else
        let r' = (if turnKind r = KindAgent \<and> status r = StAccepted \<and>
                    exists_row (\<lambda>x. threadId x = threadId r \<and> turnKind x = KindAgent \<and>
                      status x \<in> set nonterminal_statuses) (turns d)
                  then r\<lparr>status := StQueued\<rparr> else r)
        in bindE (enforce (d\<lparr>turns := turns d @ [r']\<rparr>)) (\<lambda>d'. Inr (r', d')))"

definition updateTurns :: "(turn_row \<Rightarrow> bool) \<Rightarrow> (turn_row \<Rightarrow> turn_row) \<Rightarrow> db \<Rightarrow> store_error + db" where
  "updateTurns P f d = enforce (d\<lparr>turns := update_where P f (turns d)\<rparr>)"

text \<open>
  Deleting turns deletes the outbox rows that reference them.
\<close>

definition deleteTurns :: "(turn_row \<Rightarrow> bool) \<Rightarrow> db \<Rightarrow> store_error + db" where
  "deleteTurns P d =
     (let gone = (\<lambda>i. exists_row (\<lambda>r. rowId r = i \<and> P r) (turns d)) in
      enforce (d\<lparr>turns := delete_where P (turns d),
                 admissions := delete_where (\<lambda>a. gone (admTurnId a)) (admissions d),
                 steering := delete_where (\<lambda>s. gone (targetTurnId s) \<or>
                   (case sourceTurnId s of None \<Rightarrow> False | Some i \<Rightarrow> gone i)) (steering d)\<rparr>))"

definition updateQueue ::
  "(queue_row \<Rightarrow> bool) \<Rightarrow> thread_id \<Rightarrow> (queue_row \<Rightarrow> queue_row) \<Rightarrow> db \<Rightarrow> store_error + (queue_row option \<times> db)" where
  "updateQueue P t f d =
     (let hit = (case row_by qThread t (queues d) of None \<Rightarrow> False | Some q \<Rightarrow> P q) in
      if hit
      then bindE (enforce (d\<lparr>queues := update_where (\<lambda>q. qThread q = t) f (queues d)\<rparr>))
             (\<lambda>d'. Inr (row_by qThread t (queues d'), d'))
      else Inr (None, d))"

definition insertQueueIfMissing :: "thread_id \<Rightarrow> db \<Rightarrow> store_error + db" where
  "insertQueueIfMissing t d =
     (if exists_row (\<lambda>q. qThread q = t) (queues d) then Inr d
      else enforce (d\<lparr>queues := queues d @ [\<lparr>qThread = t, revision = 0, queuedCount = 0\<rparr>]\<rparr>))"

definition bumpRevision :: "queue_row \<Rightarrow> queue_row" where
  "bumpRevision q = q\<lparr>revision := revision q + 1\<rparr>"

definition addQueued :: "int \<Rightarrow> queue_row \<Rightarrow> queue_row" where
  "addQueued n q = q\<lparr>revision := revision q + 1, queuedCount := queuedCount q + n\<rparr>"

definition dropQueued :: "queue_row \<Rightarrow> queue_row" where
  "dropQueued q = q\<lparr>revision := revision q + 1,
     queuedCount := (if queuedCount q > 0 then queuedCount q - 1 else 0)\<rparr>"

text \<open>
  \<open>ORDER BY created_at, id\<close>: the order of queued turns, and its least row.
\<close>

definition orderKey :: "turn_row \<Rightarrow> time \<times> string" where
  "orderKey r = (createdAt r, rowId r)"

definition orderRows :: "turn_row list \<Rightarrow> turn_row list" where
  "orderRows rows = sort_key orderKey rows"

definition selectOrdered :: "(turn_row \<Rightarrow> bool) \<Rightarrow> db \<Rightarrow> turn_row list" where
  "selectOrdered P d = orderRows (filter P (turns d))"

definition turnById :: "turn_id \<Rightarrow> db \<Rightarrow> turn_row option" where
  "turnById i d = row_by rowId i (turns d)"

definition queueOf :: "thread_id \<Rightarrow> db \<Rightarrow> queue_row option" where
  "queueOf t d = row_by qThread t (queues d)"

end
