(* ===== verification/Turn_Queue.thy ===== *)
theory Turn_Queue
  imports Turn_Database
begin

text \<open>
  The queue operations of the turn repository
  (packages/product-store/src/turn/postgres/queue.ts): reading the queue of a thread,
  claiming its next turn, finishing and releasing a claim, editing, dequeuing and
  requeuing turns.
\<close>

section \<open>Eligibility\<close>

text \<open>
  A queued turn with a steering request that is not rejected is hidden from the queue.
\<close>

definition hiddenBySteering :: "db \<Rightarrow> turn_id \<Rightarrow> bool" where
  "hiddenBySteering d i \<longleftrightarrow> exists_row (\<lambda>s. sourceTurnId s = Some i \<and> obStatus s \<noteq> ObRejected) (steering d)"

definition eligibleQueued :: "db \<Rightarrow> turn_row \<Rightarrow> bool" where
  "eligibleQueued d r \<longleftrightarrow> turnKind r = KindAgent \<and> status r = StQueued \<and> \<not> hiddenBySteering d (rowId r)"

definition activeIn :: "thread_id \<Rightarrow> turn_row \<Rightarrow> bool" where
  "activeIn t r \<longleftrightarrow> threadId r = t \<and> turnKind r = KindAgent \<and> status r \<in> set active_statuses"

definition claimedIn :: "thread_id \<Rightarrow> turn_row \<Rightarrow> bool" where
  "claimedIn t r \<longleftrightarrow> threadId r = t \<and> turnKind r = KindAgent \<and> queueClaimToken r \<noteq> None"

section \<open>Reading\<close>

record queue_snapshot =
  snapThreadId :: thread_id
  snapRevision :: int
  snapQueuedCount :: int
  snapTurns :: "agent_turn list"

definition readQueue :: "thread_id \<Rightarrow> db \<Rightarrow> store_error + (queue_snapshot \<times> db)" where
  "readQueue t d =
     bindE (traverseE decodeAgent (selectOrdered (\<lambda>r. threadId r = t \<and> eligibleQueued d r) d)) (\<lambda>ts.
       Inr (\<lparr> snapThreadId = t,
              snapRevision = (case queueOf t d of None \<Rightarrow> 0 | Some q \<Rightarrow> revision q),
              snapQueuedCount = (case queueOf t d of None \<Rightarrow> 0 | Some q \<Rightarrow> queuedCount q),
              snapTurns = ts \<rparr>, d))"

section \<open>Claims\<close>

record queue_claim =
  claimTurn :: agent_turn
  claimToken :: string

datatype claim_finish = Transitioned agent_turn queue_item_change | Unavailable

definition mkClaimToken :: "thread_id \<Rightarrow> time \<Rightarrow> int \<Rightarrow> int \<Rightarrow> string" where
  "mkClaimToken t now r1 r2 = t @ '':'' @ showInt now @ '':'' @ showInt r1 @ '':'' @ showInt r2"

definition nextEligible :: "thread_id \<Rightarrow> db \<Rightarrow> turn_row option" where
  "nextEligible t d =
     (case selectOrdered (\<lambda>r. threadId r = t \<and> eligibleQueued d r \<and> queueClaimToken r = None) d of
        [] \<Rightarrow> None | r # _ \<Rightarrow> Some r)"

definition claimNextQueued ::
  "thread_id \<Rightarrow> time \<Rightarrow> int \<Rightarrow> int \<Rightarrow> db \<Rightarrow> store_error + (queue_claim option \<times> db)" where
  "claimNextQueued t now r1 r2 d =
     (let token = mkClaimToken t now r1 r2 in
      case queueOf t d of
        None \<Rightarrow> Inr (None, d)
      | Some _ \<Rightarrow>
          (case nextEligible t d of
             None \<Rightarrow> Inr (None, d)
           | Some next \<Rightarrow>
               if exists_row (activeIn t) (turns d) \<or> exists_row (claimedIn t) (turns d)
               then Inr (None, d)
               else
                 bindE (updateTurns (\<lambda>r. rowId r = rowId next \<and> turnKind r = KindAgent)
                          (\<lambda>r. r\<lparr>queueClaimToken := Some token\<rparr>) d) (\<lambda>d'.
                 (case turnById (rowId next) d' of
                    None \<Rightarrow> Inr (None, d')
                  | Some row \<Rightarrow> bindE (decodeAgent row) (\<lambda>turn.
                      Inr (Some \<lparr>claimTurn = turn, claimToken = token\<rparr>, d'))))))"

definition claimMatches :: "queue_claim \<Rightarrow> turn_row \<Rightarrow> bool" where
  "claimMatches c r \<longleftrightarrow> rowId r = aId (claimTurn c) \<and> turnKind r = KindAgent \<and> status r = StQueued \<and>
     queueClaimToken r = Some (claimToken c)"

definition queueChange :: "queue_row \<Rightarrow> bool \<Rightarrow> queue_change \<Rightarrow> queue_item_change" where
  "queueChange q nonempty change =
     \<lparr> qcThreadId = qThread q, qcRevision = revision q, qcQueuedCount = queuedCount q,
       qcBecameNonempty = nonempty, qcChange = change \<rparr>"

definition queueMissing :: "thread_id \<Rightarrow> store_error" where
  "queueMissing t = RepositoryError (''Queue state '' @ t @ '' does not exist'')"

definition finishQueuedClaim ::
  "queue_claim \<Rightarrow> status \<Rightarrow> time \<Rightarrow> db \<Rightarrow> store_error + (claim_finish \<times> db)" where
  "finishQueuedClaim c st now d =
     (if \<not> exists_row (claimMatches c) (turns d) then Inr (Unavailable, d)
      else
        bindE (updateTurns (claimMatches c)
                 (\<lambda>r. r\<lparr>status := st, updatedAt := now, queueClaimToken := None\<rparr>) d) (\<lambda>d1.
        (case turnById (aId (claimTurn c)) d1 of
           None \<Rightarrow> Inr (Unavailable, d1)
         | Some row \<Rightarrow> bindE (decodeAgent row) (\<lambda>turn.
             bindE (updateQueue (\<lambda>_. True) (aThreadId turn) dropQueued d1) (\<lambda>(q, d2).
             (case q of
                None \<Rightarrow> Inl (queueMissing (aThreadId turn))
              | Some q \<Rightarrow> Inr (Transitioned turn (queueChange q False (Removed (aId turn))), d2)))))))"

definition releaseQueuedClaim :: "queue_claim \<Rightarrow> db \<Rightarrow> store_error + (unit \<times> db)" where
  "releaseQueuedClaim c d =
     bindE (updateTurns (claimMatches c) (\<lambda>r. r\<lparr>queueClaimToken := None\<rparr>) d) (\<lambda>d'. Inr ((), d'))"

definition resetQueueClaims :: "db \<Rightarrow> store_error + (unit \<times> db)" where
  "resetQueueClaims d =
     bindE (updateTurns (\<lambda>r. turnKind r = KindAgent \<and> queueClaimToken r \<noteq> None)
              (\<lambda>r. r\<lparr>queueClaimToken := None\<rparr>) d) (\<lambda>d'. Inr ((), d'))"

section \<open>Changes to queued turns\<close>

definition notQueuedError :: "turn_id \<Rightarrow> store_error" where
  "notQueuedError i = RepositoryError (''Turn '' @ i @ '' is not queued'')"

definition editQueued ::
  "turn_id \<Rightarrow> string \<Rightarrow> time \<Rightarrow> db \<Rightarrow> store_error + ((agent_turn \<times> queue_item_change) \<times> db)" where
  "editQueued i text now d =
     (let hit = (\<lambda>r. rowId r = i \<and> eligibleQueued d r) in
      if \<not> exists_row hit (turns d) then Inl (notQueuedError i)
      else
        bindE (updateTurns hit (\<lambda>r. r\<lparr>prompt := text, promptParts := None, updatedAt := now,
                 queueClaimToken := None\<rparr>) d) (\<lambda>d1.
        (case turnById i d1 of
           None \<Rightarrow> Inl (notQueuedError i)
         | Some row \<Rightarrow> bindE (decodeAgent row) (\<lambda>turn.
             bindE (updateQueue (\<lambda>_. True) (aThreadId turn) bumpRevision d1) (\<lambda>(q, d2).
             (case q of
                None \<Rightarrow> Inl (queueMissing (aThreadId turn))
              | Some q \<Rightarrow> Inr ((turn, queueChange q False (Updated turn)), d2)))))))"

definition dequeue :: "turn_id \<Rightarrow> db \<Rightarrow> store_error + (queue_item_change \<times> db)" where
  "dequeue i d =
     (let hit = (\<lambda>r. rowId r = i \<and> eligibleQueued d r) in
      case find hit (turns d) of
        None \<Rightarrow> Inl (notQueuedError i)
      | Some row \<Rightarrow>
          bindE (deleteTurns hit d) (\<lambda>d1.
          bindE (decodeAgent row) (\<lambda>turn.
          bindE (updateQueue (\<lambda>_. True) (aThreadId turn) dropQueued d1) (\<lambda>(q, d2).
          (case q of
             None \<Rightarrow> Inl (queueMissing (aThreadId turn))
           | Some q \<Rightarrow> Inr (queueChange q False (Removed (aId turn)), d2))))))"

definition notAcceptedError :: "turn_id \<Rightarrow> store_error" where
  "notAcceptedError i = RepositoryError (''Turn '' @ i @ '' is not an unowned accepted turn'')"

text \<open>
  Withdrawn sources of live steering requests keep a place in the queue.
\<close>

definition reservedCount :: "thread_id \<Rightarrow> db \<Rightarrow> nat" where
  "reservedCount t d = count_where (\<lambda>s. obThreadId s = t \<and> sourceTurnId s \<noteq> None \<and>
     obStatus s \<noteq> ObRejected \<and> withdrawnColumn s = 1) (steering d)"

definition reserveUpdate :: "thread_id \<Rightarrow> int \<Rightarrow> db \<Rightarrow> store_error + (queue_row \<times> db)" where
  "reserveUpdate t capacity d =
     bindE (updateQueue (\<lambda>q. queuedCount q + int (reservedCount t d) < capacity) t (addQueued 1) d) (\<lambda>(q, d').
     (case q of
        Some q \<Rightarrow> Inr (q, d')
      | None \<Rightarrow>
          (case queueOf t d' of
             None \<Rightarrow> Inl (queueMissing t)
           | Some s \<Rightarrow> Inl (QueueFull t capacity (queuedCount s + int (reservedCount t d'))))))"

definition requeueAccepted ::
  "turn_id \<Rightarrow> int \<Rightarrow> time \<Rightarrow> db \<Rightarrow> store_error + ((agent_turn \<times> queue_item_change) \<times> db)" where
  "requeueAccepted i capacity now d =
     (let hit = (\<lambda>r. rowId r = i \<and> turnKind r = KindAgent \<and> status r = StAccepted) in
      case find hit (turns d) of
        None \<Rightarrow> Inl (notAcceptedError i)
      | Some row \<Rightarrow>
          bindE (decodeAgent row) (\<lambda>current.
          if exists_row (\<lambda>r. activeIn (aThreadId current) r \<and> rowId r \<noteq> i) (turns d)
          then Inl (notAcceptedError i)
          else
            bindE (insertQueueIfMissing (aThreadId current) d) (\<lambda>d1.
            bindE (reserveUpdate (aThreadId current) capacity d1) (\<lambda>(q, d2).
            bindE (updateTurns hit (\<lambda>r. r\<lparr>status := StQueued, updatedAt := now\<rparr>) d2) (\<lambda>d3.
            (case turnById i d3 of
               None \<Rightarrow> Inl (notAcceptedError i)
             | Some row' \<Rightarrow> bindE (decodeAgent row') (\<lambda>turn.
                 Inr ((turn, queueChange q (queuedCount q = 1) (Added turn None)), d3))))))))"

end
