(* ===== verification/Turn_Lifecycle.thy ===== *)
theory Turn_Lifecycle
  imports Turn_Queue
begin

text \<open>
  How a turn enters the store, changes its status and is handed to the execution backend:
  packages/product-store/src/turn/postgres/submission.ts, state.ts, admission.ts and
  recorded-shell.ts, with the reads of repository.ts, reader.ts and queries.ts.
\<close>

section \<open>Submission\<close>

record create_input =
  inId :: turn_id
  inThreadId :: thread_id
  inPrompt :: string
  inPromptParts :: "json option"
  inExecutionRoute :: json
  inAuthor :: "turn_author option"
  inLineage :: "turn_lineage option"
  inQueueCapacity :: int
  inNow :: time

definition agentRow :: "agent_turn \<Rightarrow> turn_row" where
  "agentRow a =
     \<lparr> rowId = aId a, threadId = aThreadId a, turnKind = KindAgent, prompt = aPrompt a,
       status = aStatus a, createdAt = aCreatedAt a, updatedAt = aUpdatedAt a,
       promptParts = aPromptParts a, executionRoute = Some (aExecutionRoute a),
       executionLink = aExecutionLink a, queueClaimToken = None, author = aAuthor a,
       lineage = aLineage a, shellCommand = None, shellResultText = None,
       shellResultTruncated = None, shellResultExitCode = None \<rparr>"

definition reserveQueueEntry :: "thread_id \<Rightarrow> int \<Rightarrow> db \<Rightarrow> store_error + (queue_row \<times> db)" where
  "reserveQueueEntry t capacity d =
     bindE (insertQueueIfMissing t d) (\<lambda>d'. reserveUpdate t capacity d')"

definition createForSubmission ::
  "create_input \<Rightarrow> db \<Rightarrow> store_error + ((agent_turn \<times> queue_item_change option) \<times> db)" where
  "createForSubmission inp d =
     (let busy = exists_row (\<lambda>r. threadId r = inThreadId inp \<and> turnKind r = KindAgent \<and>
                   status r \<in> set nonterminal_statuses) (turns d);
          row = agentRow \<lparr> aId = inId inp, aThreadId = inThreadId inp, aPrompt = inPrompt inp,
                   aPromptParts = inPromptParts inp,
                   aStatus = (if busy then StQueued else StAccepted),
                   aExecutionRoute = inExecutionRoute inp, aExecutionLink = None,
                   aAuthor = (case inAuthor inp of None \<Rightarrow> Human | Some a \<Rightarrow> a),
                   aLineage = (case inLineage inp of None \<Rightarrow> Original | Some l \<Rightarrow> l),
                   aCreatedAt = inNow inp, aUpdatedAt = inNow inp \<rparr>
      in bindE (insertTurn row d) (\<lambda>(row', d1).
         bindE (decodeAgent row') (\<lambda>turn.
         if aStatus turn \<noteq> StQueued then Inr ((turn, None), d1)
         else bindE (reserveQueueEntry (inThreadId inp) (inQueueCapacity inp) d1) (\<lambda>(q, d2).
           Inr ((turn, Some (queueChange q (queuedCount q = 1) (Added turn None))), d2)))))"

definition copy ::
  "agent_turn \<Rightarrow> int \<Rightarrow> db \<Rightarrow> store_error + ((agent_turn \<times> queue_item_change option) \<times> db)" where
  "copy turn capacity d =
     bindE (insertTurn (agentRow turn) d) (\<lambda>(_, d1).
     if aStatus turn \<noteq> StQueued then Inr ((turn, None), d1)
     else bindE (reserveQueueEntry (aThreadId turn) capacity d1) (\<lambda>(q, d2).
       Inr ((turn, Some (queueChange q (queuedCount q = 1) (Added turn None))), d2)))"

section \<open>Status changes\<close>

definition missing :: "turn_id \<Rightarrow> store_error" where
  "missing i = RepositoryError (''Turn '' @ i @ '' does not exist'')"

definition agentById :: "turn_id \<Rightarrow> db \<Rightarrow> turn_row option" where
  "agentById i d = find (\<lambda>r. rowId r = i \<and> turnKind r = KindAgent) (turns d)"

definition setStatus :: "turn_id \<Rightarrow> status \<Rightarrow> time \<Rightarrow> db \<Rightarrow> store_error + (agent_turn \<times> db)" where
  "setStatus i st now d =
     (if st = StQueued
      then Inl (RepositoryError (''Turn '' @ i @ '' cannot transition into 'queued' via setStatus''))
      else case agentById i d of
        None \<Rightarrow> Inl (missing i)
      | Some before \<Rightarrow>
          bindE (decodeAgent before) (\<lambda>existing.
          if aStatus existing = StQueued
          then Inl (RepositoryError (''Turn '' @ i @ '' cannot transition into or out of 'queued' via setStatus''))
          else
            let hit = (\<lambda>r. rowId r = i \<and> turnKind r = KindAgent \<and> status r \<notin> set terminal_statuses) in
            bindE (updateTurns hit (\<lambda>r. r\<lparr>status := st, updatedAt := now\<rparr>) d) (\<lambda>d'.
            if \<not> exists_row hit (turns d) then Inr (existing, d')
            else case turnById i d' of
                None \<Rightarrow> Inr (existing, d')
              | Some row \<Rightarrow> bindE (decodeAgent row) (\<lambda>t. Inr (t, d')))))"

definition startAccepted :: "turn_id \<Rightarrow> time \<Rightarrow> db \<Rightarrow> store_error + (bool \<times> db)" where
  "startAccepted i now d =
     (let hit = (\<lambda>r. rowId r = i \<and> turnKind r = KindAgent \<and> status r = StAccepted) in
      bindE (updateTurns hit (\<lambda>r. r\<lparr>status := StRunning, updatedAt := now\<rparr>) d) (\<lambda>d'.
        Inr (exists_row hit (turns d), d')))"

definition cancelUnlinked :: "turn_id \<Rightarrow> time \<Rightarrow> db \<Rightarrow> store_error + (bool \<times> db)" where
  "cancelUnlinked i now d =
     (let hit = (\<lambda>r. rowId r = i \<and> turnKind r = KindAgent \<and> status r \<in> {StAccepted, StRunning} \<and>
                  executionLink r = None) in
      bindE (updateTurns hit (\<lambda>r. r\<lparr>status := StCancelled, updatedAt := now\<rparr>) d) (\<lambda>d'.
        Inr (exists_row hit (turns d), d')))"

section \<open>Execution admission\<close>

definition admissionOf :: "turn_id \<Rightarrow> db \<Rightarrow> admission_row option" where
  "admissionOf i d = row_by admTurnId i (admissions d)"

definition prepareExecutionAdmission ::
  "start_turn \<Rightarrow> time \<Rightarrow> db \<Rightarrow> store_error + (start_turn \<times> db)" where
  "prepareExecutionAdmission prepared now d =
     (let tid = stTurnId prepared;
          sourceExists = exists_row (\<lambda>r. rowId r = tid \<and> threadId r = stThreadId prepared \<and>
                           turnKind r = KindAgent) (turns d) in
      if \<not> printableId tid \<or> stWorkspaceId prepared = [] then Inl LibraryError
      else
        bindE (if sourceExists \<and> admissionOf tid d = None
               then enforce (d\<lparr>admissions := admissions d @
                      [\<lparr>admTurnId = tid, admStartInput = prepared, admPreparedAt = now\<rparr>]\<rparr>)
               else Inr d) (\<lambda>d'.
        (case admissionOf tid d' of
           None \<Rightarrow> Inl (missing tid)
         | Some row \<Rightarrow>
             if admStartInput row \<noteq> prepared
             then Inl (RepositoryError (''Turn '' @ tid @ '' already has different prepared execution admission''))
             else Inr (admStartInput row, d'))))"

definition listUnlinkedExecutionAdmissions :: "db \<Rightarrow> start_turn list" where
  "listUnlinkedExecutionAdmissions d =
     map admStartInput (sort_key (\<lambda>a. (admPreparedAt a, admTurnId a))
       (filter (\<lambda>a. exists_row (\<lambda>r. rowId r = admTurnId a \<and> executionLink r = None) (turns d))
          (admissions d)))"

definition deleteAdmission :: "turn_id \<Rightarrow> db \<Rightarrow> db" where
  "deleteAdmission i d = d\<lparr>admissions := delete_where (\<lambda>a. admTurnId a = i) (admissions d)\<rparr>"

definition attachExecutionLink ::
  "turn_id \<Rightarrow> execution_link \<Rightarrow> time \<Rightarrow> db \<Rightarrow> store_error + (agent_turn \<times> db)" where
  "attachExecutionLink i link now d =
     (case agentById i d of
        None \<Rightarrow> Inl (missing i)
      | Some row \<Rightarrow> bindE (decodeAgent row) (\<lambda>existing.
          (case aExecutionLink existing of
             Some old \<Rightarrow>
               if runId old \<noteq> runId link \<or> linkTurnId old \<noteq> linkTurnId link \<or>
                 linkThreadId old \<noteq> linkThreadId link
               then Inl (RepositoryError (''Turn '' @ i @ '' already has a different execution link''))
               else Inr (existing, deleteAdmission i d)
           | None \<Rightarrow>
               (case admissionOf i d of
                  None \<Rightarrow> Inl (RepositoryError (''Turn '' @ i @ '' has no prepared execution admission''))
                | Some adm \<Rightarrow>
                    if linkTurnId link \<noteq> stTurnId (admStartInput adm) \<or>
                      linkThreadId link \<noteq> stThreadId (admStartInput adm)
                    then Inl (RepositoryError
                      (''Execution link does not identify prepared admission for Turn '' @ i))
                    else
                      let hit = (\<lambda>r. rowId r = i \<and> turnKind r = KindAgent \<and> executionLink r = None) in
                      if \<not> exists_row hit (turns d)
                      then Inl (RepositoryError (''Turn '' @ i @ '' execution link changed while attaching''))
                      else
                        bindE (updateTurns hit (\<lambda>r. r\<lparr>executionLink := Some link, updatedAt := now\<rparr>) d) (\<lambda>d'.
                        (case turnById i d' of
                           None \<Rightarrow> Inl (missing i)
                         | Some row' \<Rightarrow> bindE (decodeAgent row') (\<lambda>turn.
                             Inr (turn, deleteAdmission i d'))))))))"

section \<open>Recorded shell commands\<close>

text \<open>
  These operations are single statements outside a transaction: an error of the decoding that
  follows the statement does not undo it, so they return the database beside the outcome.
\<close>

definition shellRow :: "shell_turn \<Rightarrow> turn_row" where
  "shellRow s =
     (let result = (if sStatus s = StRunning then None else sResult s) in
      \<lparr> rowId = sId s, threadId = sThreadId s, turnKind = KindShell, prompt = sPrompt s,
        status = sStatus s, createdAt = sCreatedAt s, updatedAt = sUpdatedAt s,
        promptParts = None, executionRoute = None, executionLink = None, queueClaimToken = None,
        author = Human, lineage = Original, shellCommand = Some (sCommand s),
        shellResultText = map_option resText result,
        shellResultTruncated = map_option (\<lambda>r. if resTruncated r then 1 else 0) result,
        shellResultExitCode = (case result of None \<Rightarrow> None | Some r \<Rightarrow> resExitCode r) \<rparr>)"

definition isRunningRecordedShell :: "turn \<Rightarrow> bool" where
  "isRunningRecordedShell t \<longleftrightarrow> (case t of RecordedShell s \<Rightarrow> sStatus s = StRunning | AgentExecution _ \<Rightarrow> False)"

definition isTerminalRecordedShell :: "turn \<Rightarrow> bool" where
  "isTerminalRecordedShell t \<longleftrightarrow> (case t of RecordedShell s \<Rightarrow> sStatus s \<noteq> StRunning | AgentExecution _ \<Rightarrow> False)"

definition insertShell ::
  "(turn \<Rightarrow> bool) \<Rightarrow> string \<Rightarrow> shell_turn \<Rightarrow> db \<Rightarrow> (store_error + turn) \<times> db" where
  "insertShell accepts complaint s d =
     (case insertTurn (shellRow s) d of
        Inl e \<Rightarrow> (Inl e, d)
      | Inr (row, d') \<Rightarrow>
          (bindE (decode row) (\<lambda>t. if accepts t then Inr t
             else Inl (RepositoryError (''Turn '' @ sId s @ complaint))), d'))"

definition createRecordedShell :: "shell_turn \<Rightarrow> db \<Rightarrow> (store_error + turn) \<times> db" where
  "createRecordedShell = insertShell isRunningRecordedShell '' is not a running recorded shell''"

definition copyRecordedShell :: "shell_turn \<Rightarrow> db \<Rightarrow> (store_error + turn) \<times> db" where
  "copyRecordedShell = insertShell isTerminalRecordedShell '' is not a terminal recorded shell''"

definition settleMatches :: "shell_turn \<Rightarrow> turn_row \<Rightarrow> bool" where
  "settleMatches expected r \<longleftrightarrow> rowId r = sId expected \<and> threadId r = sThreadId expected \<and>
     turnKind r = KindShell \<and> status r = StRunning \<and> prompt r = sPrompt expected \<and>
     shellCommand r = Some (sCommand expected)"

definition settleRecordedShell ::
  "shell_turn \<Rightarrow> shell_turn \<Rightarrow> shell_result \<Rightarrow> db \<Rightarrow> (store_error + turn option) \<times> db" where
  "settleRecordedShell expected s result d =
     (case updateTurns (settleMatches expected)
        (\<lambda>r. r\<lparr>status := sStatus s, updatedAt := sUpdatedAt s, shellResultText := Some (resText result),
                shellResultTruncated := Some (if resTruncated result then 1 else 0),
                shellResultExitCode := resExitCode result\<rparr>) d of
        Inl e \<Rightarrow> (Inl e, d)
      | Inr d' \<Rightarrow>
          (if \<not> exists_row (settleMatches expected) (turns d) then (Inr None, d')
           else case turnById (sId expected) d' of
               None \<Rightarrow> (Inr None, d')
             | Some row \<Rightarrow>
                 (bindE (decode row) (\<lambda>t. if isTerminalRecordedShell t then Inr (Some t)
                    else Inl (RepositoryError (''Turn '' @ sId s @ '' did not settle as a recorded shell''))), d')))"

section \<open>Reads\<close>

definition getTurn :: "turn_id \<Rightarrow> db \<Rightarrow> store_error + turn option" where
  "getTurn i d = (case turnById i d of None \<Rightarrow> Inr None
     | Some row \<Rightarrow> bindE (decode row) (\<lambda>t. Inr (Some t)))"

definition listTurns :: "thread_id \<Rightarrow> db \<Rightarrow> store_error + turn list" where
  "listTurns t d = traverseE decode (selectOrdered (\<lambda>r. threadId r = t) d)"

text \<open>
  \<open>ORDER BY created_at DESC, id DESC\<close>: as ids are unique, the ascending order reversed.
\<close>

definition selectDescending :: "(turn_row \<Rightarrow> bool) \<Rightarrow> db \<Rightarrow> turn_row list" where
  "selectDescending P d = rev (selectOrdered P d)"

definition listRecentNonqueued :: "thread_id \<Rightarrow> int \<Rightarrow> db \<Rightarrow> store_error + turn list" where
  "listRecentNonqueued t limit d =
     bindE (traverseE decode (take (nat (max 0 limit))
       (selectDescending (\<lambda>r. threadId r = t \<and> status r \<noteq> StQueued) d))) (\<lambda>ts. Inr (rev ts))"

definition defaultPageSize :: int where "defaultPageSize = 50"

definition maximumPageSize :: int where "maximumPageSize = 200"

definition pageSize :: "int option \<Rightarrow> int" where
  "pageSize limit = min maximumPageSize (max 1 (case limit of None \<Rightarrow> defaultPageSize | Some n \<Rightarrow> n))"

fun turnKey :: "turn \<Rightarrow> time \<times> turn_id" where
  "turnKey (AgentExecution a) = (aCreatedAt a, aId a)"
| "turnKey (RecordedShell s) = (sCreatedAt s, sId s)"

record page_result =
  pageTurns :: "turn list"
  hasOlder :: bool
  oldestCursor :: "(time \<times> turn_id) option"
  newestCursor :: "(time \<times> turn_id) option"

definition cursorFor :: "turn option \<Rightarrow> (time \<times> turn_id) option" where
  "cursorFor = map_option turnKey"

definition beforeCursor :: "(time \<times> turn_id) option \<Rightarrow> turn_row \<Rightarrow> bool" where
  "beforeCursor before r \<longleftrightarrow> (case before of None \<Rightarrow> True
     | Some (t, i) \<Rightarrow> createdAt r < t \<or> (createdAt r = t \<and> rowId r < i))"

definition pageOf ::
  "thread_id \<Rightarrow> (time \<times> turn_id) option \<Rightarrow> int option \<Rightarrow> db \<Rightarrow> store_error + page_result" where
  "pageOf t before limit d =
     (let n = nat (pageSize limit);
          rows = take (n + 1) (selectDescending (\<lambda>r. threadId r = t \<and> beforeCursor before r) d)
      in bindE (traverseE decode (take n rows)) (\<lambda>ts.
         let turns = rev ts in
         Inr \<lparr> pageTurns = turns, hasOlder = (length rows > n),
               oldestCursor = cursorFor (if turns = [] then None else Some (hd turns)),
               newestCursor = cursorFor (if turns = [] then None else Some (last turns)) \<rparr>))"

definition findActive :: "thread_id \<Rightarrow> db \<Rightarrow> store_error + agent_turn option" where
  "findActive t d = (case selectOrdered (activeIn t) d of [] \<Rightarrow> Inr None
     | r # _ \<Rightarrow> bindE (decodeAgent r) (\<lambda>a. Inr (Some a)))"

definition listNonterminal :: "db \<Rightarrow> store_error + agent_turn list" where
  "listNonterminal d = traverseE decodeAgent
     (selectOrdered (\<lambda>r. turnKind r = KindAgent \<and> status r \<in> set nonterminal_statuses) d)"

end
