(* ===== verification/Turn_Steering.thy ===== *)
theory Turn_Steering
  imports Turn_Lifecycle
begin

text \<open>
  Steering admissions
  (packages/product-store/src/turn/postgres/steering-admission.ts): a steering request is
  written to an outbox as pending, is accepted or rejected, and leaves the outbox when it
  is completed.  A request made from a queued turn withdraws that turn from the queue until
  the request is rejected, and deletes it when the request is completed.
\<close>

fun outcomeStatus :: "steering_outcome \<Rightarrow> outbox_status" where
  "outcomeStatus OutPending = ObPending"
| "outcomeStatus (OutAccepted _) = ObAccepted"
| "outcomeStatus (OutRejected _ _) = ObRejected"

definition inconsistentAdmission :: "string \<Rightarrow> store_error" where
  "inconsistentAdmission rid = RepositoryError (''Steering admission '' @ rid @ '' is inconsistent'')"

definition withdrawnNumber :: "steering_admission \<Rightarrow> int" where
  "withdrawnNumber a = (if sourceWithdrawn a = Some True then 1 else 0)"

definition admissionMatchesRow :: "steering_row \<Rightarrow> bool" where
  "admissionMatchesRow s \<longleftrightarrow>
     requestId s = idempotencyKey (input (admission s)) \<and>
     targetTurnId s = linkTurnId (target (admission s)) \<and>
     sourceTurnId s = map_option aId (source (admission s)) \<and>
     withdrawnColumn s = withdrawnNumber (admission s) \<and>
     obStatus s = outcomeStatus (outcome (admission s))"

definition decodeAdmission :: "steering_row \<Rightarrow> store_error + steering_admission" where
  "decodeAdmission s =
     (if admissionMatchesRow s then Inr (admission s) else Inl (inconsistentAdmission (requestId s)))"

definition sameAdmission ::
  "steering_admission \<Rightarrow> execution_link \<Rightarrow> steering_input \<Rightarrow> turn_id option \<Rightarrow> bool" where
  "sameAdmission a tgt inp src \<longleftrightarrow> target a = tgt \<and> input a = inp \<and> map_option aId (source a) = src"

definition validateTarget :: "execution_link \<Rightarrow> db \<Rightarrow> store_error + agent_turn" where
  "validateTarget tgt d =
     (case find (\<lambda>r. rowId r = linkTurnId tgt \<and> turnKind r = KindAgent \<and>
                     status r \<in> set active_statuses) (turns d) of
        None \<Rightarrow> Inl (RepositoryError (''Steering target '' @ linkTurnId tgt @ '' is not active''))
      | Some row \<Rightarrow> bindE (decodeAgent row) (\<lambda>turn.
          if aExecutionLink turn \<noteq> Some tgt
          then Inl (RepositoryError (''Steering target '' @ linkTurnId tgt @ '' has changed''))
          else Inr turn))"

definition validateCapacity :: "execution_link \<Rightarrow> string list \<Rightarrow> db \<Rightarrow> store_error + unit" where
  "validateCapacity tgt pendingRequestIds d =
     (let live = filter (\<lambda>s. targetTurnId s = linkTurnId tgt \<and> obStatus s \<noteq> ObRejected) (steering d);
          requests = remdups (pendingRequestIds @ map requestId live) in
      require (length requests < PendingSteeringMaxEntries)
        (RepositoryError (''Turn '' @ linkTurnId tgt @
           '' already has the maximum number of pending steering requests'')))"

definition insertAdmission :: "steering_admission \<Rightarrow> db \<Rightarrow> store_error + db" where
  "insertAdmission a d =
     enforce (d\<lparr>steering := steering d @
       [\<lparr> requestId = idempotencyKey (input a), targetTurnId = linkTurnId (target a),
          sourceTurnId = map_option aId (source a), obThreadId = linkThreadId (target a),
          admission = a, withdrawnColumn = withdrawnNumber a, obStatus = ObPending,
          obPreparedAt = preparedAt a \<rparr>]\<rparr>)"

definition requestOf :: "string \<Rightarrow> db \<Rightarrow> steering_row option" where
  "requestOf rid d = row_by requestId rid (steering d)"

definition prepareSteeringAdmission ::
  "execution_link \<Rightarrow> steering_input \<Rightarrow> string list \<Rightarrow> time \<Rightarrow> db \<Rightarrow> store_error + (steering_admission \<times> db)" where
  "prepareSteeringAdmission tgt inp pendingRequestIds now d =
     (case requestOf (idempotencyKey inp) d of
        Some row \<Rightarrow> bindE (decodeAdmission row) (\<lambda>existing.
          if \<not> sameAdmission existing tgt inp None
          then Inl (RepositoryError (''Steering request '' @ idempotencyKey inp @ '' conflicts''))
          else Inr (existing, d))
      | None \<Rightarrow>
          bindE (validateTarget tgt d) (\<lambda>_.
          bindE (validateCapacity tgt pendingRequestIds d) (\<lambda>_.
            let a = \<lparr> target = tgt, input = inp, source = None, sourceWithdrawn = None,
                      preparedAt = now, outcome = OutPending \<rparr> in
            bindE (insertAdmission a d) (\<lambda>d'. Inr (a, d')))))"

record queued_preparation =
  prepAdmission :: steering_admission
  prepQueue :: queue_item_change
  prepQueueChanged :: bool

definition queuedUnavailable :: "turn_id \<Rightarrow> store_error" where
  "queuedUnavailable i = QueuedTurnUnavailable i (''Turn '' @ i @ '' is not queued'')"

definition preparationOfExisting :: "steering_admission \<Rightarrow> agent_turn \<Rightarrow> db \<Rightarrow> queued_preparation" where
  "preparationOfExisting existing src d =
     \<lparr> prepAdmission = existing,
       prepQueue =
         (case outcome existing of
            OutRejected _ (Some queue) \<Rightarrow> queue
          | _ \<Rightarrow> \<lparr> qcThreadId = aThreadId src,
                  qcRevision = (case queueOf (aThreadId src) d of None \<Rightarrow> 0 | Some q \<Rightarrow> revision q),
                  qcQueuedCount = (case queueOf (aThreadId src) d of None \<Rightarrow> 0 | Some q \<Rightarrow> queuedCount q),
                  qcBecameNonempty = False, qcChange = Removed (aId src) \<rparr>),
       prepQueueChanged = False \<rparr>"

definition withdrawSource ::
  "agent_turn \<Rightarrow> execution_link \<Rightarrow> steering_input \<Rightarrow> time \<Rightarrow> db \<Rightarrow> store_error + (queued_preparation \<times> db)" where
  "withdrawSource src tgt inp now d =
     (let a = \<lparr> target = tgt, input = inp, source = Some src, sourceWithdrawn = Some True,
                preparedAt = now, outcome = OutPending \<rparr> in
      bindE (insertAdmission a d) (\<lambda>d1.
      bindE (updateTurns (\<lambda>r. rowId r = aId src) (\<lambda>r. r\<lparr>queueClaimToken := None\<rparr>) d1) (\<lambda>d2.
      bindE (updateQueue (\<lambda>_. True) (aThreadId src) dropQueued d2) (\<lambda>(q, d3).
      (case q of
         None \<Rightarrow> Inl (queueMissing (aThreadId src))
       | Some q \<Rightarrow> Inr (\<lparr> prepAdmission = a, prepQueue = queueChange q False (Removed (aId src)),
                         prepQueueChanged = True \<rparr>, d3))))))"

definition prepareQueuedSteeringAdmission ::
  "turn_id \<Rightarrow> execution_link \<Rightarrow> steering_input \<Rightarrow> string list \<Rightarrow> time \<Rightarrow> db
     \<Rightarrow> store_error + (queued_preparation \<times> db)" where
  "prepareQueuedSteeringAdmission src tgt inp pendingRequestIds now d =
     (case filter (\<lambda>s. requestId s = idempotencyKey inp \<or> sourceTurnId s = Some src) (steering d) of
        row # rest \<Rightarrow>
          bindE (traverseE decodeAdmission (row # rest)) (\<lambda>as.
            let existing = hd as in
            if length as \<noteq> 1 \<or> \<not> sameAdmission existing tgt inp (Some src)
            then Inl (RepositoryError (''Queued turn '' @ src @ '' already has a different steering admission''))
            else case source existing of
                None \<Rightarrow> Inl (inconsistentAdmission (idempotencyKey (input existing)))
              | Some existingSource \<Rightarrow> Inr (preparationOfExisting existing existingSource d, d))
      | [] \<Rightarrow>
          bindE (validateTarget tgt d) (\<lambda>targetTurn.
          (case find (\<lambda>r. rowId r = src \<and> turnKind r = KindAgent \<and> status r = StQueued) (turns d) of
             None \<Rightarrow> Inl (queuedUnavailable src)
           | Some row \<Rightarrow>
               bindE (decodeAgent row) (\<lambda>sourceTurn.
               if aThreadId sourceTurn \<noteq> aThreadId targetTurn
               then Inl (RepositoryError (''Queued turn '' @ src @ '' does not belong to target '' @ linkTurnId tgt))
               else
                 bindE (validateCapacity tgt pendingRequestIds d) (\<lambda>_.
                   withdrawSource sourceTurn tgt inp now d)))))"

definition listSteeringAdmissions :: "db \<Rightarrow> store_error + steering_admission list" where
  "listSteeringAdmissions d =
     traverseE decodeAdmission (sort_key (\<lambda>s. (obPreparedAt s, requestId s)) (steering d))"

definition writeAdmission :: "string \<Rightarrow> steering_admission \<Rightarrow> outbox_status \<Rightarrow> db \<Rightarrow> store_error + db" where
  "writeAdmission rid a st d =
     enforce (d\<lparr>steering := update_where (\<lambda>s. requestId s = rid)
                (\<lambda>s. s\<lparr>admission := a, obStatus := st\<rparr>) (steering d)\<rparr>)"

definition admissionMissing :: "string \<Rightarrow> store_error" where
  "admissionMissing rid = RepositoryError (''Steering admission '' @ rid @ '' does not exist'')"

definition acceptSteeringAdmission ::
  "string \<Rightarrow> steering_receipt \<Rightarrow> db \<Rightarrow> store_error + (steering_admission \<times> db)" where
  "acceptSteeringAdmission rid receipt d =
     (case requestOf rid d of
        None \<Rightarrow> Inl (admissionMissing rid)
      | Some row \<Rightarrow> bindE (decodeAdmission row) (\<lambda>a.
          (case outcome a of
             OutRejected _ _ \<Rightarrow> Inl (RepositoryError (''Steering admission '' @ rid @ '' was rejected''))
           | OutAccepted old \<Rightarrow>
               if old \<noteq> receipt
               then Inl (RepositoryError (''Steering admission '' @ rid @ '' receipt conflicts''))
               else Inr (a, d)
           | OutPending \<Rightarrow>
               let accepted = a\<lparr>outcome := OutAccepted receipt\<rparr> in
               bindE (writeAdmission rid accepted ObAccepted d) (\<lambda>d'. Inr (accepted, d')))))"

definition positionOf :: "(turn_row \<Rightarrow> bool) \<Rightarrow> turn_row list \<Rightarrow> nat option" where
  "positionOf P rows = (let n = length (takeWhile (\<lambda>r. \<not> P r) rows) in
     if n < length rows then Some n else None)"

definition restoreSource ::
  "steering_admission \<Rightarrow> agent_turn \<Rightarrow> db \<Rightarrow> store_error + (queue_item_change option \<times> db)" where
  "restoreSource a src d =
     (case turnById (aId src) d of
        None \<Rightarrow> Inr (None, d)
      | Some row \<Rightarrow> bindE (decodeAgent row) (\<lambda>existing.
          if aStatus existing \<noteq> StQueued then Inr (None, d)
          else
            let withdrawn = (sourceWithdrawn a = Some True);
                visible = selectOrdered (\<lambda>r. threadId r = aThreadId src \<and> turnKind r = KindAgent \<and>
                  status r = StQueued \<and> (rowId r = aId src \<or> \<not> hiddenBySteering d (rowId r))) d;
                position = positionOf (\<lambda>r. rowId r = aId src) visible in
            bindE (updateQueue (\<lambda>_. True) (aThreadId src) (addQueued (if withdrawn then 1 else 0)) d) (\<lambda>(q, d').
            (case q of
               None \<Rightarrow> Inl (queueMissing (aThreadId src))
             | Some q \<Rightarrow>
                 Inr (Some (queueChange q (withdrawn \<and> queuedCount q = 1)
                   (if withdrawn then Added existing position else Updated existing)), d')))))"

text \<open>
  A position that was not found is -1 in the code, which the schema of the stored document
  refuses when it is encoded.
\<close>

definition encodableChange :: "queue_item_change option \<Rightarrow> bool" where
  "encodableChange c \<longleftrightarrow> (case c of None \<Rightarrow> True | Some c \<Rightarrow> 0 \<le> qcRevision c \<and> 0 \<le> qcQueuedCount c \<and>
     (case qcChange c of Added _ None \<Rightarrow> False | _ \<Rightarrow> True))"

definition rejectSteeringAdmission ::
  "string \<Rightarrow> steering_failure \<Rightarrow> db \<Rightarrow> store_error + (steering_admission \<times> db)" where
  "rejectSteeringAdmission rid failure d =
     (case requestOf rid d of
        None \<Rightarrow> Inl (admissionMissing rid)
      | Some row \<Rightarrow> bindE (decodeAdmission row) (\<lambda>a.
          (case outcome a of
             OutAccepted _ \<Rightarrow> Inl (RepositoryError (''Steering admission '' @ rid @ '' was accepted''))
           | OutRejected old _ \<Rightarrow>
               if old \<noteq> failure
               then Inl (RepositoryError (''Steering admission '' @ rid @ '' rejection conflicts''))
               else Inr (a, d)
           | OutPending \<Rightarrow>
               bindE (case source a of None \<Rightarrow> Inr (None, d) | Some src \<Rightarrow> restoreSource a src d) (\<lambda>(queue, d1).
               if \<not> encodableChange queue then Inl LibraryError
               else
                 let rejected = a\<lparr>outcome := OutRejected failure queue\<rparr> in
                 bindE (writeAdmission rid rejected ObRejected d1) (\<lambda>d2. Inr (rejected, d2))))))"

definition deleteRequests :: "(steering_row \<Rightarrow> bool) \<Rightarrow> db \<Rightarrow> db" where
  "deleteRequests P d = d\<lparr>steering := delete_where P (steering d)\<rparr>"

definition completeSteeringAdmission ::
  "string \<Rightarrow> execution_link \<Rightarrow> steering_receipt \<Rightarrow> db \<Rightarrow> store_error + (queue_item_change option \<times> db)" where
  "completeSteeringAdmission rid tgt receipt d =
     (case requestOf rid d of
        None \<Rightarrow> Inr (None, d)
      | Some row \<Rightarrow> bindE (decodeAdmission row) (\<lambda>a.
          if outcome a \<noteq> OutAccepted receipt \<or> target a \<noteq> tgt
          then Inl (RepositoryError (''Steering admission '' @ rid @ '' disposition conflicts''))
          else
            let d1 = deleteRequests (\<lambda>s. requestId s = rid) d in
            case source a of
              None \<Rightarrow> Inr (None, d1)
            | Some src \<Rightarrow>
                let hit = (\<lambda>r. rowId r = aId src \<and> turnKind r = KindAgent \<and> status r = StQueued) in
                if \<not> exists_row hit (turns d1) then Inr (None, d1)
                else
                  bindE (deleteTurns hit d1) (\<lambda>d2.
                  if sourceWithdrawn a = Some True then Inr (None, d2)
                  else
                    bindE (updateQueue (\<lambda>_. True) (aThreadId src) dropQueued d2) (\<lambda>(q, d3).
                    (case q of
                       None \<Rightarrow> Inl (queueMissing (aThreadId src))
                     | Some q \<Rightarrow> Inr (Some (queueChange q False (Removed (aId src))), d3))))))"

definition completeRejectedSteeringAdmission :: "string \<Rightarrow> db \<Rightarrow> store_error + (bool \<times> db)" where
  "completeRejectedSteeringAdmission rid d =
     (let hit = (\<lambda>s. requestId s = rid \<and> obStatus s = ObRejected) in
      if exists_row hit (steering d) then Inr (True, deleteRequests hit d)
      else case requestOf rid d of
          None \<Rightarrow> Inr (True, d)
        | Some row \<Rightarrow> bindE (decodeAdmission row) (\<lambda>a.
            (case outcome a of
               OutRejected _ _ \<Rightarrow> Inr (False, d)
             | _ \<Rightarrow> Inl (RepositoryError (''Steering admission '' @ rid @ '' was not rejected'')))))"

end
