(* ===== verification/Turn_Invariant.thy ===== *)
theory Turn_Invariant
  imports Turn_Steering
begin

text \<open>
  The invariant of the turn store and how each kind of statement acts on it.  The counter of
  a thread's queue is maintained by hand in every transaction; \<open>drift\<close> is the difference
  between that counter and the queued turns it stands for.
\<close>

section \<open>The invariant\<close>

definition withdrawnSource :: "db \<Rightarrow> turn_id \<Rightarrow> bool" where
  "withdrawnSource d i \<longleftrightarrow>
     exists_row (\<lambda>s. sourceTurnId s = Some i \<and> obStatus s \<noteq> ObRejected \<and> withdrawnColumn s = 1) (steering d)"

definition countedRow :: "db \<Rightarrow> turn_row \<Rightarrow> bool" where
  "countedRow d r \<longleftrightarrow> turnKind r = KindAgent \<and> status r = StQueued \<and> \<not> withdrawnSource d (rowId r)"

definition visibleCount :: "db \<Rightarrow> thread_id \<Rightarrow> nat" where
  "visibleCount d t = count_where (\<lambda>r. threadId r = t \<and> countedRow d r) (turns d)"

definition recordedCount :: "db \<Rightarrow> thread_id \<Rightarrow> int" where
  "recordedCount d t = (case queueOf t d of None \<Rightarrow> 0 | Some q \<Rightarrow> queuedCount q)"

definition drift :: "db \<Rightarrow> thread_id \<Rightarrow> int" where
  "drift d t = recordedCount d t - int (visibleCount d t)"

definition countsOk :: "db \<Rightarrow> bool" where
  "countsOk d \<longleftrightarrow> (\<forall>t. drift d t = 0)"

definition claimsOk :: "db \<Rightarrow> bool" where
  "claimsOk d \<longleftrightarrow> (\<forall>i r. turnById i d = Some r \<longrightarrow> queueClaimToken r \<noteq> None \<longrightarrow>
     turnKind r = KindAgent \<and> status r = StQueued \<and> \<not> hiddenBySteering d i)"

definition linkOk :: "turn_row \<Rightarrow> bool" where
  "linkOk r \<longleftrightarrow> (case executionLink r of None \<Rightarrow> True
     | Some l \<Rightarrow> linkTurnId l = rowId r \<longrightarrow> linkThreadId l = threadId r)"

lemma linkOk_iff:
  "linkOk r \<longleftrightarrow> (\<forall>l. executionLink r = Some l \<longrightarrow> linkTurnId l = rowId r \<longrightarrow> linkThreadId l = threadId r)"
  by (simp add: linkOk_def split: option.splits)

definition linksOk :: "db \<Rightarrow> bool" where
  "linksOk d \<longleftrightarrow> (\<forall>i r. turnById i d = Some r \<longrightarrow> linkOk r) \<and>
     (\<forall>a \<in> set (admissions d). stTurnId (admStartInput a) = admTurnId a \<and>
        (\<exists>r. turnById (admTurnId a) d = Some r \<and> threadId r = stThreadId (admStartInput a)))"

definition targetOk :: "db \<Rightarrow> steering_row \<Rightarrow> bool" where
  "targetOk d s \<longleftrightarrow> (\<exists>r. turnById (targetTurnId s) d = Some r \<and>
     (obStatus s \<noteq> ObRejected \<longrightarrow> executionLink r \<noteq> None \<and> status r \<noteq> StQueued))"

definition sourceOk :: "db \<Rightarrow> steering_row \<Rightarrow> bool" where
  "sourceOk d s \<longleftrightarrow> (\<forall>a. source (admission s) = Some a \<longrightarrow> aThreadId a = obThreadId s \<and>
     (\<exists>r. turnById (aId a) d = Some r \<and> turnKind r = KindAgent \<and> threadId r = obThreadId s \<and>
        (obStatus s \<noteq> ObRejected \<longrightarrow> status r = StQueued)))"

definition requestsOk :: "db \<Rightarrow> bool" where
  "requestsOk d \<longleftrightarrow> (\<forall>s \<in> set (steering d). admissionMatchesRow s \<and> targetOk d s \<and> sourceOk d s)"

definition baseOk :: "db \<Rightarrow> bool" where
  "baseOk d \<longleftrightarrow> consistent d \<and> linksOk d \<and> requestsOk d"

definition storeOk :: "db \<Rightarrow> bool" where
  "storeOk d \<longleftrightarrow> baseOk d \<and> claimsOk d \<and> countsOk d"

section \<open>Lookups after each statement\<close>

lemma turnById_SomeD: "turnById i d = Some r \<Longrightarrow> r \<in> set (turns d) \<and> rowId r = i"
  unfolding turnById_def using row_by_SomeD by fastforce

lemma turnById_None: "turnById i d = None \<longleftrightarrow> i \<notin> rowId ` set (turns d)"
  by (simp add: turnById_def row_by_None)

lemma turnById_iff:
  "consistent d \<Longrightarrow> turnById i d = Some r \<longleftrightarrow> r \<in> set (turns d) \<and> rowId r = i"
  by (simp add: turnById_def row_by_Some_iff consistentD(1))

lemma turnById_frame [simp]:
  "turnById i (d\<lparr>queues := q\<rparr>) = turnById i d"
  "turnById i (d\<lparr>admissions := a\<rparr>) = turnById i d"
  "turnById i (d\<lparr>steering := s\<rparr>) = turnById i d"
  by (simp_all add: turnById_def)

lemma turnById_update:
  assumes "\<And>r. P r \<Longrightarrow> rowId (f r) = rowId r"
  shows "turnById i (d\<lparr>turns := update_where P f (turns d)\<rparr>) =
    map_option (\<lambda>r. if P r then f r else r) (turnById i d)"
  using row_by_update_where [of P rowId f i "turns d"] assms by (simp add: turnById_def)

lemma turnById_insert:
  "turnById i (d\<lparr>turns := turns d @ [r]\<rparr>) =
    (case turnById i d of None \<Rightarrow> if rowId r = i then Some r else None | Some x \<Rightarrow> Some x)"
  by (simp add: turnById_def row_by_append)

lemma queueOf_frame [simp]:
  "queueOf t (d\<lparr>turns := r\<rparr>) = queueOf t d"
  "queueOf t (d\<lparr>admissions := a\<rparr>) = queueOf t d"
  "queueOf t (d\<lparr>steering := s\<rparr>) = queueOf t d"
  by (simp_all add: queueOf_def)

lemma queueOf_update:
  assumes "\<And>q. qThread (f q) = qThread q"
  shows "queueOf u (d\<lparr>queues := update_where (\<lambda>q. qThread q = t) f (queues d)\<rparr>) =
    (if u = t then map_option f (queueOf t d) else queueOf u d)"
proof -
  have "row_by qThread u (update_where (\<lambda>q. qThread q = t) f (queues d)) =
    map_option (\<lambda>r. if qThread r = t then f r else r) (queueOf u d)"
    using row_by_update_where [of "\<lambda>q. qThread q = t" qThread f u "queues d"] assms by (simp add: queueOf_def)
  then show ?thesis
    using row_by_SomeD(2) [of qThread u "queues d"] by (cases "queueOf u d") (auto simp: queueOf_def)
qed

section \<open>The rows a counter stands for\<close>

definition visibleIds :: "db \<Rightarrow> thread_id \<Rightarrow> turn_id set" where
  "visibleIds d t = {i. \<exists>r. turnById i d = Some r \<and> threadId r = t \<and> countedRow d r}"

lemma visibleIds_iff:
  "i \<in> visibleIds d t \<longleftrightarrow>
    (case turnById i d of None \<Rightarrow> False | Some r \<Rightarrow> threadId r = t \<and> countedRow d r)"
  by (simp add: visibleIds_def split: option.splits)

lemma finite_visibleIds [simp]: "finite (visibleIds d t)"
proof -
  have "visibleIds d t \<subseteq> rowId ` set (turns d)"
    by (auto simp: visibleIds_def dest: turnById_SomeD)
  then show ?thesis by (rule finite_subset) simp
qed

lemma visibleCount_card:
  assumes "consistent d"
  shows "visibleCount d t = card (visibleIds d t)"
proof -
  let ?rows = "filter (\<lambda>r. threadId r = t \<and> countedRow d r) (turns d)"
  have "visibleIds d t = rowId ` set ?rows"
    using assms by (auto simp: visibleIds_def turnById_iff)
  moreover have "distinct (map rowId ?rows)"
    using consistentD(1) [OF assms] by (simp add: distinct_map_filter)
  ultimately show ?thesis
    by (metis (no_types, lifting) distinct_card length_map list.set_map visibleCount_def count_where_def)
qed

lemma drift_card: "consistent d \<Longrightarrow> drift d t = recordedCount d t - int (card (visibleIds d t))"
  by (simp add: drift_def visibleCount_card)

lemma withdrawnSource_hidden: "withdrawnSource d i \<Longrightarrow> hiddenBySteering d i"
  by (auto simp: withdrawnSource_def hiddenBySteering_def exists_row_iff)

lemma steering_frame [simp]:
  "hiddenBySteering (d\<lparr>turns := r\<rparr>) i = hiddenBySteering d i"
  "hiddenBySteering (d\<lparr>queues := q\<rparr>) i = hiddenBySteering d i"
  "hiddenBySteering (d\<lparr>admissions := a\<rparr>) i = hiddenBySteering d i"
  "withdrawnSource (d\<lparr>turns := r\<rparr>) i = withdrawnSource d i"
  "withdrawnSource (d\<lparr>queues := q\<rparr>) i = withdrawnSource d i"
  "withdrawnSource (d\<lparr>admissions := a\<rparr>) i = withdrawnSource d i"
  "countedRow (d\<lparr>turns := r\<rparr>) x = countedRow d x"
  "countedRow (d\<lparr>queues := q\<rparr>) x = countedRow d x"
  "countedRow (d\<lparr>admissions := a\<rparr>) x = countedRow d x"
  by (simp_all add: hiddenBySteering_def withdrawnSource_def countedRow_def)

lemma recordedCount_frame [simp]:
  "recordedCount (d\<lparr>turns := r\<rparr>) t = recordedCount d t"
  "recordedCount (d\<lparr>admissions := a\<rparr>) t = recordedCount d t"
  "recordedCount (d\<lparr>steering := s\<rparr>) t = recordedCount d t"
  by (simp_all add: recordedCount_def)

lemma visibleIds_frame [simp]:
  "visibleIds (d\<lparr>queues := q\<rparr>) t = visibleIds d t"
  "visibleIds (d\<lparr>admissions := a\<rparr>) t = visibleIds d t"
  by (simp_all add: visibleIds_def)

lemma requestsOk_frame [simp]:
  "requestsOk (d\<lparr>queues := q\<rparr>) = requestsOk d"
  "requestsOk (d\<lparr>admissions := a\<rparr>) = requestsOk d"
  by (simp_all add: requestsOk_def targetOk_def sourceOk_def)

lemma linksOk_frame [simp]:
  "linksOk (d\<lparr>queues := q\<rparr>) = linksOk d"
  "linksOk (d\<lparr>steering := s\<rparr>) = linksOk d"
  by (simp_all add: linksOk_def)

lemma claimsOk_frame [simp]:
  "claimsOk (d\<lparr>queues := q\<rparr>) = claimsOk d"
  "claimsOk (d\<lparr>admissions := a\<rparr>) = claimsOk d"
  by (simp_all add: claimsOk_def)

end
