(* ===== verification/Turn_Statements.thy ===== *)
theory Turn_Statements
  imports Turn_Invariant
begin

text \<open>
  What each kind of statement of the turn store does to the invariant and to the drift of
  the queue counters.  The transactions are proved from these lemmas alone.
\<close>

section \<open>Live requests\<close>

lemma baseOkD: "baseOk d \<Longrightarrow> consistent d" "baseOk d \<Longrightarrow> linksOk d" "baseOk d \<Longrightarrow> requestsOk d"
  by (simp_all add: baseOk_def)

lemma storeOkD: "storeOk d \<Longrightarrow> baseOk d" "storeOk d \<Longrightarrow> claimsOk d" "storeOk d \<Longrightarrow> countsOk d"
    "storeOk d \<Longrightarrow> consistent d"
  by (simp_all add: storeOk_def baseOk_def)

lemma request_matches: "baseOk d \<Longrightarrow> s \<in> set (steering d) \<Longrightarrow> admissionMatchesRow s"
  by (simp add: baseOk_def requestsOk_def)

lemma live_target:
  assumes "baseOk d" "s \<in> set (steering d)" "obStatus s \<noteq> ObRejected" "turnById (targetTurnId s) d = Some r"
  shows "executionLink r \<noteq> None" "status r \<noteq> StQueued"
  using assms by (auto simp: baseOk_def requestsOk_def targetOk_def)

lemma source_row:
  assumes "baseOk d" "s \<in> set (steering d)" "sourceTurnId s = Some i"
  obtains r a where "turnById i d = Some r" "source (admission s) = Some a" "aId a = i"
    "turnKind r = KindAgent" "threadId r = obThreadId s" "aThreadId a = obThreadId s"
    "obStatus s \<noteq> ObRejected \<Longrightarrow> status r = StQueued"
  using assms unfolding baseOk_def requestsOk_def sourceOk_def admissionMatchesRow_def by fastforce

lemma live_source:
  assumes "baseOk d" "s \<in> set (steering d)" "obStatus s \<noteq> ObRejected" "sourceTurnId s = Some i"
    "turnById i d = Some r"
  shows "turnKind r = KindAgent" "status r = StQueued" "threadId r = obThreadId s"
  using source_row [OF assms(1,2,4)] assms(3,5) by force+

lemma source_unique:
  assumes "consistent d" "s \<in> set (steering d)" "s' \<in> set (steering d)"
    "sourceTurnId s = Some i" "sourceTurnId s' = Some i"
  shows "s = s'"
proof (rule keys_inj [OF consistentD(7) [OF assms(1)]])
  show "s \<in> set (filter (\<lambda>s. sourceTurnId s \<noteq> None) (steering d))" using assms by simp
  show "s' \<in> set (filter (\<lambda>s. sourceTurnId s \<noteq> None) (steering d))" using assms by simp
qed (simp add: assms)

lemma hidden_row:
  assumes "baseOk d" "hiddenBySteering d i" "turnById i d = Some r"
  shows "turnKind r = KindAgent" "status r = StQueued"
  using assms live_source by (auto simp: hiddenBySteering_def exists_row_iff)

section \<open>Drift\<close>

lemma drift_gain:
  assumes "consistent d" "consistent d'" "\<And>u. recordedCount d' u = recordedCount d u"
    and "\<And>u. visibleIds d' u = (if u = t then insert i (visibleIds d u) else visibleIds d u)"
    and "i \<notin> visibleIds d t"
  shows "drift d' u = drift d u - (if u = t then 1 else 0)"
  using assms by (simp add: drift_card)

lemma drift_loss:
  assumes "consistent d" "consistent d'" "\<And>u. recordedCount d' u = recordedCount d u"
    and "\<And>u. visibleIds d' u = (if u = t then visibleIds d u - {i} else visibleIds d u)"
    and "i \<in> visibleIds d t"
  shows "drift d' u = drift d u + (if u = t then 1 else 0)"
proof -
  have "int (card (visibleIds d t)) = int (card (visibleIds d t - {i})) + 1"
    using assms(5) card_Suc_Diff1 [of "visibleIds d t" i] by simp
  moreover have "drift d' u = recordedCount d u - int (card (visibleIds d' u))"
    using assms(3) by (simp add: drift_card [OF assms(2)])
  ultimately show ?thesis
    unfolding drift_card [OF assms(1)] assms(4) by auto
qed

lemma drift_same:
  assumes "consistent d" "consistent d'" "recordedCount d' u = recordedCount d u"
    and "visibleIds d' u = visibleIds d u"
  shows "drift d' u = drift d u"
  using assms by (simp add: drift_card)

lemma countsOk_drift: "countsOk d \<Longrightarrow> (\<And>u. drift d' u = drift d u) \<Longrightarrow> countsOk d'"
  by (simp add: countsOk_def)

section \<open>Updating turns\<close>

definition keepsKeys :: "(turn_row \<Rightarrow> bool) \<Rightarrow> (turn_row \<Rightarrow> turn_row) \<Rightarrow> bool" where
  "keepsKeys P f \<longleftrightarrow>
     (\<forall>r. P r \<longrightarrow> rowId (f r) = rowId r \<and> threadId (f r) = threadId r \<and> turnKind (f r) = turnKind r)"

lemma turnById_updated:
  "keepsKeys P f \<Longrightarrow> turnById i (d\<lparr>turns := update_where P f (turns d)\<rparr>) =
    map_option (\<lambda>r. if P r then f r else r) (turnById i d)"
  by (rule turnById_update) (simp add: keepsKeys_def)

lemma baseOk_update:
  assumes ok: "baseOk d" and d': "d' = d\<lparr>turns := update_where P f (turns d)\<rparr>" "consistent d'"
    and keys: "keepsKeys P f"
    and link: "\<And>i r. turnById i d = Some r \<Longrightarrow> P r \<Longrightarrow>
      linkOk (f r) \<and> (executionLink r \<noteq> None \<longrightarrow> executionLink (f r) \<noteq> None)"
    and target: "\<And>s r. s \<in> set (steering d) \<Longrightarrow> obStatus s \<noteq> ObRejected \<Longrightarrow>
      turnById (targetTurnId s) d = Some r \<Longrightarrow> P r \<Longrightarrow> status (f r) \<noteq> StQueued"
    and source: "\<And>s r i. s \<in> set (steering d) \<Longrightarrow> obStatus s \<noteq> ObRejected \<Longrightarrow>
      sourceTurnId s = Some i \<Longrightarrow> turnById i d = Some r \<Longrightarrow> P r \<Longrightarrow> status (f r) = StQueued"
  shows "baseOk d'"
proof -
  note look = turnById_updated [OF keys, of _ d]
  have rows: "linkOk r'" if "turnById i d' = Some r'" for i r'
  proof -
    from that obtain r where "turnById i d = Some r" "r' = (if P r then f r else r)"
      by (auto simp: d' look)
    with link baseOkD(2) [OF ok] show ?thesis by (simp add: linksOk_def)
  qed
  have adms: "\<exists>r'. turnById i d' = Some r' \<and> threadId r' = t"
    if "turnById i d = Some r" "threadId r = t" for i r t
    using that keys by (simp add: d' look keepsKeys_def)
  have links: "linksOk d'"
    unfolding linksOk_def using rows adms baseOkD(2) [OF ok] by (fastforce simp: linksOk_def d')
  have "targetOk d' s" if s: "s \<in> set (steering d)" for s
  proof -
    obtain r where r: "turnById (targetTurnId s) d = Some r"
      "obStatus s \<noteq> ObRejected \<longrightarrow> executionLink r \<noteq> None \<and> status r \<noteq> StQueued"
      using baseOkD(3) [OF ok] s by (auto simp: requestsOk_def targetOk_def)
    with target [OF s _ r(1)] link [OF r(1)] show ?thesis by (simp add: targetOk_def d' look)
  qed
  moreover have "sourceOk d' s" if s: "s \<in> set (steering d)" for s
    unfolding sourceOk_def
  proof (intro allI impI)
    fix a assume a: "source (admission s) = Some a"
    with request_matches [OF ok s] have src: "sourceTurnId s = Some (aId a)"
      by (simp add: admissionMatchesRow_def)
    obtain r where r: "turnById (aId a) d = Some r" "turnKind r = KindAgent" "threadId r = obThreadId s"
      "aThreadId a = obThreadId s" "obStatus s \<noteq> ObRejected \<Longrightarrow> status r = StQueued"
      using source_row [OF ok s src] a by auto
    with source [OF s _ src r(1)] keys
    show "aThreadId a = obThreadId s \<and> (\<exists>r. turnById (aId a) d' = Some r \<and> turnKind r = KindAgent \<and>
      threadId r = obThreadId s \<and> (obStatus s \<noteq> ObRejected \<longrightarrow> status r = StQueued))"
      by (auto simp: d' look keepsKeys_def)
  qed
  ultimately show ?thesis
    using d' links request_matches [OF ok] by (simp add: baseOk_def requestsOk_def)
qed

text \<open>
  The common case: the status of the updated turns does not enter or leave \<open>queued\<close>.
\<close>

definition keepsQueued :: "db \<Rightarrow> (turn_row \<Rightarrow> bool) \<Rightarrow> (turn_row \<Rightarrow> turn_row) \<Rightarrow> bool" where
  "keepsQueued d P f \<longleftrightarrow> (\<forall>r \<in> set (turns d). P r \<longrightarrow> (status (f r) = StQueued) = (status r = StQueued))"

lemma baseOk_update_keeping:
  assumes ok: "baseOk d" and d': "d' = d\<lparr>turns := update_where P f (turns d)\<rparr>" "consistent d'"
    and keys: "keepsKeys P f" and queued: "keepsQueued d P f"
    and link: "\<And>r. r \<in> set (turns d) \<Longrightarrow> P r \<Longrightarrow>
      linkOk (f r) \<and> (executionLink r \<noteq> None \<longrightarrow> executionLink (f r) \<noteq> None)"
  shows "baseOk d'"
proof (rule baseOk_update [OF ok d' keys])
  show "linkOk (f r) \<and> (executionLink r \<noteq> None \<longrightarrow> executionLink (f r) \<noteq> None)"
    if "turnById i d = Some r" "P r" for i r
    using that link turnById_SomeD by blast
  show "status (f r) \<noteq> StQueued"
    if "s \<in> set (steering d)" "obStatus s \<noteq> ObRejected" "turnById (targetTurnId s) d = Some r" "P r" for s r
    using live_target(2) [OF ok that(1-3)] that(4) queued turnById_SomeD [OF that(3)]
    by (simp add: keepsQueued_def)
  show "status (f r) = StQueued"
    if "s \<in> set (steering d)" "obStatus s \<noteq> ObRejected" "sourceTurnId s = Some i"
      "turnById i d = Some r" "P r" for s r i
    using live_source(2) [OF ok that(1-4)] that(5) queued turnById_SomeD [OF that(4)]
    by (simp add: keepsQueued_def)
qed

lemma drift_update_keeping:
  assumes "consistent d" and d': "d' = d\<lparr>turns := update_where P f (turns d)\<rparr>" "consistent d'"
    and keys: "keepsKeys P f" and queued: "keepsQueued d P f"
  shows "drift d' u = drift d u"
proof (rule drift_same [OF assms(1) d'(2)])
  have same: "threadId (f r) = threadId r \<and> countedRow d (f r) = countedRow d r"
    if "turnById i d = Some r" "P r" for i r
    using turnById_SomeD [OF that(1)] that(2) keys queued
    by (auto simp: countedRow_def keepsKeys_def keepsQueued_def)
  show "visibleIds d' u = visibleIds d u"
  proof (rule set_eqI)
    fix i
    show "i \<in> visibleIds d' u \<longleftrightarrow> i \<in> visibleIds d u"
      using same [of i] by (cases "turnById i d") (auto simp: visibleIds_iff d' turnById_updated [OF keys, of i d])
  qed
qed (simp add: d')

lemma claimsOk_update:
  assumes "claimsOk d" and d': "d' = d\<lparr>turns := update_where P f (turns d)\<rparr>"
    and keys: "keepsKeys P f"
    and token: "\<And>r. r \<in> set (turns d) \<Longrightarrow> P r \<Longrightarrow> queueClaimToken (f r) \<noteq> None \<Longrightarrow>
      turnKind r = KindAgent \<and> status (f r) = StQueued \<and> \<not> hiddenBySteering d (rowId r)"
  shows "claimsOk d'"
  unfolding claimsOk_def
proof (intro allI impI)
  fix i r' assume r': "turnById i d' = Some r'" "queueClaimToken r' \<noteq> None"
  then obtain r where r: "turnById i d = Some r" "r' = (if P r then f r else r)"
    by (auto simp: d' turnById_updated [OF keys])
  with r' token [of r] turnById_SomeD [OF r(1)] assms(1) keys
  show "turnKind r' = KindAgent \<and> status r' = StQueued \<and> \<not> hiddenBySteering d' i"
    by (auto simp: d' claimsOk_def keepsKeys_def split: if_splits)
qed

lemma visibleIds_update_one:
  assumes keys: "keepsKeys P f" and one: "\<And>r. P r \<Longrightarrow> rowId r = i"
    and r: "turnById i d = Some r" "P r"
    and d': "d' = d\<lparr>turns := update_where P f (turns d)\<rparr>"
  shows "visibleIds d' u =
    (if u = threadId r \<and> countedRow d (f r) then insert i (visibleIds d u) else visibleIds d u - {i})"
proof -
  have other: "(if P x then f x else x) = x" if "turnById j d = Some x" "j \<noteq> i" for j x
    using one turnById_SomeD [OF that(1)] that(2) by auto
  have "j \<in> visibleIds d' u \<longleftrightarrow> j \<in> visibleIds d u" if "j \<noteq> i" for j
    using other [OF _ that] by (cases "turnById j d") (auto simp: visibleIds_iff d' turnById_updated [OF keys, of j d])
  moreover have "i \<in> visibleIds d' u \<longleftrightarrow> u = threadId r \<and> countedRow d (f r)"
    using r keys by (auto simp: visibleIds_def d' turnById_updated [OF keys, of _ d] keepsKeys_def)
  ultimately have "j \<in> visibleIds d' u \<longleftrightarrow>
      (if j = i then u = threadId r \<and> countedRow d (f r) else j \<in> visibleIds d u)" for j
    by simp
  then show ?thesis
    by (cases "u = threadId r \<and> countedRow d (f r)") (simp_all add: set_eq_iff)
qed

lemma drift_update_leaving:
  assumes "consistent d" and keys: "keepsKeys P f" and one: "\<And>r. P r \<Longrightarrow> rowId r = i"
    and r: "turnById i d = Some r" "P r" "countedRow d r" "status (f r) \<noteq> StQueued"
    and d': "d' = d\<lparr>turns := update_where P f (turns d)\<rparr>" "consistent d'"
  shows "drift d' u = drift d u + (if u = threadId r then 1 else 0)"
proof (rule drift_loss [OF assms(1) d'(2)])
  have "i \<in> visibleIds d v \<longleftrightarrow> v = threadId r" for v
    using r by (auto simp: visibleIds_def)
  then show "visibleIds d' v = (if v = threadId r then visibleIds d v - {i} else visibleIds d v)" for v
    using visibleIds_update_one [OF keys one r(1,2) d'(1), of v] r(4) by (auto simp: countedRow_def)
qed (use r in \<open>auto simp: d' visibleIds_def\<close>)

lemma drift_update_entering:
  assumes "consistent d" and keys: "keepsKeys P f" and one: "\<And>r. P r \<Longrightarrow> rowId r = i"
    and r: "turnById i d = Some r" "P r" "status r \<noteq> StQueued" "countedRow d (f r)"
    and d': "d' = d\<lparr>turns := update_where P f (turns d)\<rparr>" "consistent d'"
  shows "drift d' u = drift d u - (if u = threadId r then 1 else 0)"
proof (rule drift_gain [OF assms(1) d'(2)])
  have "i \<notin> visibleIds d v" for v
    using r by (auto simp: visibleIds_def countedRow_def)
  then show "i \<notin> visibleIds d (threadId r)"
    and "visibleIds d' v = (if v = threadId r then insert i (visibleIds d v) else visibleIds d v)" for v
    using visibleIds_update_one [OF keys one r(1,2) d'(1), of v] r(4) by auto
qed (simp add: d')

section \<open>The queue table\<close>

lemma updateQueue_SomeE:
  assumes "updateQueue P t f d = Inr (Some q, d')" and f: "\<And>q. qThread (f q) = qThread q"
  obtains q0 where "queueOf t d = Some q0" "P q0" "q = f q0" "consistent d'"
    "d' = d\<lparr>queues := update_where (\<lambda>q. qThread q = t) f (queues d)\<rparr>" "qThread q = t"
proof -
  from assms obtain q0 where q0: "queueOf t d = Some q0" "P q0"
    and d': "d' = d\<lparr>queues := update_where (\<lambda>q. qThread q = t) f (queues d)\<rparr>" "consistent d'"
    and q: "queueOf t d' = Some q"
    by (auto simp: updateQueue_def queueOf_def Let_def result_simps split: if_splits option.splits)
  from q q0 d'(1) queueOf_update [where f = f and u = t and d = d and t = t] f have "q = f q0" by simp
  moreover have "qThread q = t" using q by (auto simp: queueOf_def dest: row_by_SomeD)
  ultimately show ?thesis using that q0 d' by blast
qed

lemma updateQueue_NoneE:
  assumes "updateQueue P t f d = Inr (None, d')" and f: "\<And>q. qThread (f q) = qThread q"
  shows "d' = d" "\<And>q. queueOf t d = Some q \<Longrightarrow> \<not> P q"
proof -
  have "\<not> (case queueOf t d of None \<Rightarrow> False | Some q \<Rightarrow> P q)"
  proof
    assume "case queueOf t d of None \<Rightarrow> False | Some q \<Rightarrow> P q"
    with assms queueOf_update [where f = f and u = t and d = d and t = t] f show False
      by (auto simp: updateQueue_def queueOf_def Let_def result_simps split: option.splits)
  qed
  then show "d' = d" "\<And>q. queueOf t d = Some q \<Longrightarrow> \<not> P q"
    using assms(1) by (auto simp: updateQueue_def queueOf_def Let_def split: if_splits)
qed

lemma qThread_updates [simp]:
  "qThread (bumpRevision q) = qThread q" "qThread (addQueued n q) = qThread q" "qThread (dropQueued q) = qThread q"
  by (simp_all add: bumpRevision_def addQueued_def dropQueued_def)

lemma queue_update_ok:
  assumes "baseOk d" and q0: "queueOf t d = Some q0" and f: "\<And>q. qThread (f q) = qThread q"
    and d': "d' = d\<lparr>queues := update_where (\<lambda>q. qThread q = t) f (queues d)\<rparr>" "consistent d'"
  shows "baseOk d'" "claimsOk d' = claimsOk d"
    "drift d' u = drift d u + (if u = t then queuedCount (f q0) - queuedCount q0 else 0)"
  using assms queueOf_update [where f = f and u = u and d = d and t = t]
  by (auto simp: baseOk_def drift_card recordedCount_def)

lemma insertQueueIfMissing_ok:
  assumes "baseOk d" and "insertQueueIfMissing t d = Inr d'"
  shows "baseOk d'" "claimsOk d' = claimsOk d" "drift d' u = drift d u" "queueOf t d' \<noteq> None"
    "turns d' = turns d" "steering d' = steering d"
proof -
  have "baseOk d' \<and> claimsOk d' = claimsOk d \<and> drift d' u = drift d u \<and> queueOf t d' \<noteq> None \<and>
    turns d' = turns d \<and> steering d' = steering d"
  proof (cases "exists_row (\<lambda>q. qThread q = t) (queues d)")
    case True
    then have "queueOf t d \<noteq> None" by (auto simp: queueOf_def row_by_None exists_row_iff)
    with True assms show ?thesis by (auto simp: insertQueueIfMissing_def)
  next
    case False
    with assms(2) have d': "d' = d\<lparr>queues := queues d @ [\<lparr>qThread = t, revision = 0, queuedCount = 0\<rparr>]\<rparr>"
      "consistent d'"
      by (auto simp: insertQueueIfMissing_def result_simps)
    have "queueOf t d = None" using False by (auto simp: queueOf_def row_by_None exists_row_iff)
    then have "recordedCount d' u = recordedCount d u" "queueOf t d' \<noteq> None"
      by (auto simp: recordedCount_def queueOf_def d'(1) row_by_append split: option.splits)
    with assms(1) d' show ?thesis
      by (auto simp: baseOk_def drift_card)
  qed
  then show "baseOk d'" "claimsOk d' = claimsOk d" "drift d' u = drift d u" "queueOf t d' \<noteq> None"
    "turns d' = turns d" "steering d' = steering d" by auto
qed

section \<open>Inserting turns\<close>

lemma insertTurnE:
  assumes "insertTurn r d = Inr (r', d')"
  obtains "d' = d\<lparr>turns := turns d @ [r']\<rparr>" "consistent d'" "threadId r \<notin> set (deletionOutbox d)"
    "r' = (if turnKind r = KindAgent \<and> status r = StAccepted \<and>
             exists_row (\<lambda>x. threadId x = threadId r \<and> turnKind x = KindAgent \<and>
               status x \<in> set nonterminal_statuses) (turns d) then r\<lparr>status := StQueued\<rparr> else r)"
    "turnById (rowId r') d = None"
proof -
  from assms have *: "d' = d\<lparr>turns := turns d @ [r']\<rparr>" "consistent d'" "threadId r \<notin> set (deletionOutbox d)"
    "r' = (if turnKind r = KindAgent \<and> status r = StAccepted \<and>
             exists_row (\<lambda>x. threadId x = threadId r \<and> turnKind x = KindAgent \<and>
               status x \<in> set nonterminal_statuses) (turns d) then r\<lparr>status := StQueued\<rparr> else r)"
    unfolding insertTurn_def Let_def by (auto simp: result_simps split: if_splits)
  moreover have "turnById (rowId r') d = None"
    using consistentD(1) [OF *(2)] *(1) by (auto simp: turnById_None)
  ultimately show ?thesis using that by blast
qed

lemma no_source_outside:
  assumes "consistent d" "turnById i d = None"
  shows "\<not> hiddenBySteering d i" "\<not> withdrawnSource d i"
proof -
  show "\<not> hiddenBySteering d i"
    using assms consistentD(11) [OF assms(1)] by (auto simp: hiddenBySteering_def exists_row_iff turnById_None)
  then show "\<not> withdrawnSource d i" using withdrawnSource_hidden by blast
qed

lemma insert_turn_ok:
  assumes ok: "baseOk d" and d': "d' = d\<lparr>turns := turns d @ [r]\<rparr>" "consistent d'"
    and new: "turnById (rowId r) d = None" and r: "linkOk r" "queueClaimToken r = None"
  shows "baseOk d'" "claimsOk d \<Longrightarrow> claimsOk d'"
    "drift d' u = drift d u - (if u = threadId r \<and> turnKind r = KindAgent \<and> status r = StQueued then 1 else 0)"
proof -
  note look = turnById_insert [of _ d r]
  have keep: "turnById i d' = Some x" if "turnById i d = Some x" for i x
    using that by (simp add: d' look)
  have new_only: "turnById i d' = Some x \<longleftrightarrow> turnById i d = Some x \<or> (i = rowId r \<and> x = r)" for i x
    using new by (auto simp: d' look split: option.splits)
  have "linksOk d'"
    using baseOkD(2) [OF ok] keep r(1) unfolding linksOk_def new_only by (fastforce simp: d')
  moreover have "targetOk d' s \<and> sourceOk d' s" if "s \<in> set (steering d)" for s
    using baseOkD(3) [OF ok] that keep unfolding requestsOk_def targetOk_def sourceOk_def by fastforce
  ultimately show "baseOk d'"
    using d' request_matches [OF ok] by (simp add: baseOk_def requestsOk_def)
  show "claimsOk d'" if "claimsOk d"
    using that r(2) unfolding claimsOk_def new_only by (auto simp: d')
  have "\<not> withdrawnSource d (rowId r)"
    using no_source_outside(2) [OF baseOkD(1) [OF ok] new] .
  then have mem: "j \<in> visibleIds d' v \<longleftrightarrow>
      (if j = rowId r then threadId r = v \<and> turnKind r = KindAgent \<and> status r = StQueued
       else j \<in> visibleIds d v)" for j v
    using new by (auto simp: visibleIds_iff d' look countedRow_def split: option.splits)
  have out: "rowId r \<notin> visibleIds d v" for v
    using new by (simp add: visibleIds_iff)
  show "drift d' u = drift d u - (if u = threadId r \<and> turnKind r = KindAgent \<and> status r = StQueued then 1 else 0)"
  proof (cases "turnKind r = KindAgent \<and> status r = StQueued")
    case True
    have "drift d' u = drift d u - (if u = threadId r then 1 else 0)"
    proof (rule drift_gain [where i = "rowId r", OF baseOkD(1) [OF ok] d'(2)])
      show "visibleIds d' v = (if v = threadId r then insert (rowId r) (visibleIds d v) else visibleIds d v)" for v
        using True out by (auto simp: set_eq_iff mem)
    qed (simp_all add: d' out)
    with True show ?thesis by simp
  next
    case False
    have "drift d' u = drift d u"
    proof (rule drift_same [OF baseOkD(1) [OF ok] d'(2)])
      show "visibleIds d' u = visibleIds d u" using False out by (auto simp: set_eq_iff mem)
    qed (simp add: d')
    with False show ?thesis by auto
  qed
qed

section \<open>Deleting turns\<close>

lemma delete_turn_ok:
  assumes ok: "baseOk d" and del: "deleteTurns P d = Inr d'"
    and r: "turnById i d = Some r" "P r" "status r = StQueued" and one: "\<And>x. P x \<Longrightarrow> rowId x = i"
  shows "baseOk d'" "claimsOk d \<Longrightarrow> claimsOk d'"
    "drift d' u = drift d u + (if u = threadId r \<and> countedRow d r then 1 else 0)"
    "turnById i d' = None" "queues d' = queues d"
proof -
  have cons: "consistent d" using ok by (rule baseOkD)
  have r_in: "r \<in> set (turns d)" "rowId r = i" using turnById_SomeD [OF r(1)] by auto
  have only: "P x \<longleftrightarrow> x = r" if "x \<in> set (turns d)" for x
    using one r(2) keys_inj [OF consistentD(1) [OF cons] that r_in(1)] r_in(2) by auto
  have gone: "exists_row (\<lambda>x. rowId x = j \<and> P x) (turns d) \<longleftrightarrow> j = i" for j
    using only r_in r(2) by (auto simp: exists_row_iff)
  have src: "(case x of None \<Rightarrow> False | Some k \<Rightarrow> k = i) = (x = Some i)" for x
    by (cases x) auto
  let ?dead = "\<lambda>s. targetTurnId s = i \<or> sourceTurnId s = Some i"
  have d': "d' = d\<lparr>turns := delete_where P (turns d), admissions := delete_where (\<lambda>a. admTurnId a = i) (admissions d),
      steering := delete_where ?dead (steering d)\<rparr>" "consistent d'"
    using del by (auto simp: deleteTurns_def gone src result_simps)
  have look: "turnById j d' = (if j = i then None else turnById j d)" for j
  proof -
    have "turnById j d' = (case turnById j d of None \<Rightarrow> None | Some x \<Rightarrow> if P x then None else Some x)"
      by (simp add: turnById_def d' row_by_delete_where [OF consistentD(1) [OF cons]])
    moreover have "P x \<longleftrightarrow> j = i" if x: "turnById j d = Some x" for x
      using turnById_SomeD [OF x] one [of x] x r(1,2) by auto
    ultimately show ?thesis by (cases "turnById j d") auto
  qed
  have steer: "s \<in> set (steering d') \<longleftrightarrow> s \<in> set (steering d) \<and> \<not> ?dead s" for s
    by (simp add: d' set_delete_where)
  have adm: "a \<in> set (admissions d') \<longleftrightarrow> a \<in> set (admissions d) \<and> admTurnId a \<noteq> i" for a
    by (simp add: d' set_delete_where)
  have links: "linksOk d'"
    using baseOkD(2) [OF ok] unfolding linksOk_def by (auto simp: look adm)
  have "admissionMatchesRow s \<and> targetOk d' s \<and> sourceOk d' s" if s: "s \<in> set (steering d')" for s
  proof -
    from s have s: "s \<in> set (steering d)" "targetTurnId s \<noteq> i" "sourceTurnId s \<noteq> Some i" by (simp_all add: steer)
    then have "admissionMatchesRow s" "targetOk d s" "sourceOk d s"
      using baseOkD(3) [OF ok] by (auto simp: requestsOk_def)
    with s(2,3) show ?thesis by (auto simp: targetOk_def sourceOk_def look admissionMatchesRow_def)
  qed
  with links d'(2) show base': "baseOk d'" by (simp add: baseOk_def requestsOk_def)
  have live: "targetTurnId s \<noteq> i" if "s \<in> set (steering d)" "obStatus s \<noteq> ObRejected" for s
    using live_target(2) [OF ok that, of r] r by auto
  have hidden: "hiddenBySteering d' j = hiddenBySteering d j" "withdrawnSource d' j = withdrawnSource d j"
    if "j \<noteq> i" for j
    using that live by (auto simp: hiddenBySteering_def withdrawnSource_def exists_row_iff steer)
  show "claimsOk d'" if "claimsOk d"
    using that unfolding claimsOk_def by (auto simp: look hidden)
  have mem: "j \<in> visibleIds d' v \<longleftrightarrow> j \<in> visibleIds d v \<and> j \<noteq> i" for j v
    using hidden(2) [of j] turnById_SomeD [of j d]
    by (cases "j = i") (auto simp: visibleIds_iff look countedRow_def split: option.splits)
  have "drift d' u = drift d u + (if u = threadId r then 1 else 0)" if "countedRow d r"
  proof (rule drift_loss [OF cons d'(2)])
    show "i \<in> visibleIds d (threadId r)" using r that by (simp add: visibleIds_iff)
    show "visibleIds d' v = (if v = threadId r then visibleIds d v - {i} else visibleIds d v)" for v
      using r by (auto simp: set_eq_iff mem) (simp add: visibleIds_iff)
  qed (simp add: d')
  moreover have "drift d' u = drift d u" if "\<not> countedRow d r"
  proof (rule drift_same [OF cons d'(2)])
    show "visibleIds d' u = visibleIds d u"
      using r that by (auto simp: set_eq_iff mem) (simp add: visibleIds_iff)
  qed (simp add: d')
  ultimately show "drift d' u = drift d u + (if u = threadId r \<and> countedRow d r then 1 else 0)"
    by (cases "countedRow d r") simp_all
  show "turnById i d' = None" "queues d' = queues d" by (simp_all add: look) (simp add: d')
qed

section \<open>The steering outbox\<close>

text \<open>
  Adding, rewriting and removing a request change which sources are withdrawn; the counter
  follows the source of the request concerned.
\<close>

lemma drift_steering:
  assumes cons: "consistent d" "consistent d'" and d': "d' = d\<lparr>steering := ss\<rparr>"
    and r: "turnById i d = Some r" "turnKind r = KindAgent" "status r = StQueued"
    and others: "\<And>j. j \<noteq> i \<Longrightarrow> withdrawnSource d' j = withdrawnSource d j"
  shows "drift d' u = drift d u +
    (if u = threadId r then of_bool (withdrawnSource d' i) - of_bool (withdrawnSource d i) else 0)"
proof -
  have mem: "j \<in> visibleIds d' v \<longleftrightarrow>
      (if j = i then v = threadId r \<and> \<not> withdrawnSource d' i else j \<in> visibleIds d v)" for j v
    using others [of j] r turnById_SomeD [of j d]
    by (auto simp: visibleIds_iff d' countedRow_def split: option.splits)
  have old: "i \<in> visibleIds d v \<longleftrightarrow> v = threadId r \<and> \<not> withdrawnSource d i" for v
    using r turnById_SomeD [OF r(1)] by (auto simp: visibleIds_iff countedRow_def)
  have same: "recordedCount d' v = recordedCount d v" for v by (simp add: d')
  consider "withdrawnSource d' i = withdrawnSource d i"
    | "withdrawnSource d' i" "\<not> withdrawnSource d i" | "\<not> withdrawnSource d' i" "withdrawnSource d i" by auto
  then show ?thesis
  proof cases
    case 1
    have "visibleIds d' u = visibleIds d u" using 1 old by (auto simp: set_eq_iff mem)
    with drift_same [OF cons same] 1 show ?thesis by simp
  next
    case 2
    have "drift d' u = drift d u + (if u = threadId r then 1 else 0)"
      by (rule drift_loss [OF cons same, of _ i]) (use 2 old in \<open>auto simp: set_eq_iff mem\<close>)
    with 2 show ?thesis by simp
  next
    case 3
    have "drift d' u = drift d u - (if u = threadId r then 1 else 0)"
      by (rule drift_gain [OF cons same, of _ i]) (use 3 old in \<open>auto simp: set_eq_iff mem\<close>)
    with 3 show ?thesis by simp
  qed
qed

lemma drift_steering_same:
  assumes cons: "consistent d" "consistent d'" and d': "d' = d\<lparr>steering := ss\<rparr>"
    and same: "\<And>j. withdrawnSource d' j = withdrawnSource d j"
  shows "drift d' u = drift d u"
proof (rule drift_same [OF cons])
  show "visibleIds d' u = visibleIds d u"
    by (auto simp: visibleIds_iff d' countedRow_def same [unfolded d'] split: option.splits)
qed (simp add: d')

lemma withdrawnSource_iff:
  "withdrawnSource d i \<longleftrightarrow>
    (\<exists>s \<in> set (steering d). sourceTurnId s = Some i \<and> obStatus s \<noteq> ObRejected \<and> withdrawnColumn s = 1)"
  by (auto simp: withdrawnSource_def exists_row_iff)

lemma hiddenBySteering_iff:
  "hiddenBySteering d i \<longleftrightarrow> (\<exists>s \<in> set (steering d). sourceTurnId s = Some i \<and> obStatus s \<noteq> ObRejected)"
  by (auto simp: hiddenBySteering_def exists_row_iff)

definition requestRow :: "steering_admission \<Rightarrow> steering_row" where
  "requestRow a = \<lparr> requestId = idempotencyKey (input a), targetTurnId = linkTurnId (target a),
     sourceTurnId = map_option aId (source a), obThreadId = linkThreadId (target a),
     admission = a, withdrawnColumn = withdrawnNumber a, obStatus = ObPending, obPreparedAt = preparedAt a \<rparr>"

lemma insertAdmission_Inr:
  "insertAdmission a d = Inr d' \<longleftrightarrow> d' = d\<lparr>steering := steering d @ [requestRow a]\<rparr> \<and> consistent d'"
  by (auto simp: insertAdmission_def requestRow_def result_simps)

lemma insert_request_ok:
  assumes ok: "baseOk d" and d': "d' = d\<lparr>steering := steering d @ [requestRow a]\<rparr>" "consistent d'"
    and pending: "outcome a = OutPending"
    and tgt: "turnById (linkTurnId (target a)) d = Some tr" "executionLink tr \<noteq> None" "status tr \<noteq> StQueued"
    and src: "\<And>b. source a = Some b \<Longrightarrow> aThreadId b = linkThreadId (target a) \<and>
      (\<exists>r. turnById (aId b) d = Some r \<and> turnKind r = KindAgent \<and>
        threadId r = linkThreadId (target a) \<and> status r = StQueued)"
  shows "baseOk d'"
proof -
  have "admissionMatchesRow (requestRow a)"
    using pending by (simp add: admissionMatchesRow_def requestRow_def)
  moreover have "targetOk d' (requestRow a)"
    using tgt by (simp add: targetOk_def requestRow_def d')
  moreover have "sourceOk d' (requestRow a)"
    using src by (fastforce simp: sourceOk_def requestRow_def d')
  moreover have "targetOk d' s = targetOk d s" "sourceOk d' s = sourceOk d s" for s
    by (simp_all add: targetOk_def sourceOk_def d')
  ultimately show ?thesis
    using ok d' by (auto simp: baseOk_def requestsOk_def)
qed

lemma insert_request_drift:
  assumes ok: "baseOk d" and d': "d' = d\<lparr>steering := steering d @ [requestRow a]\<rparr>" "consistent d'"
    and src: "source a = Some b" "turnById (aId b) d = Some r" "turnKind r = KindAgent" "status r = StQueued"
  shows "drift d' u = drift d u + (if u = threadId r \<and> sourceWithdrawn a = Some True then 1 else 0)"
    "\<not> hiddenBySteering d (aId b)"
proof -
  have new: "sourceTurnId (requestRow a) = Some (aId b)" using src by (simp add: requestRow_def)
  have fresh: "sourceTurnId s \<noteq> Some (aId b)" if "s \<in> set (steering d)" for s
  proof
    assume "sourceTurnId s = Some (aId b)"
    moreover have "\<not> distinct (map sourceTurnId (filter (\<lambda>s. sourceTurnId s \<noteq> None) (steering d')))"
      if "sourceTurnId s = Some (aId b)"
      using that \<open>s \<in> set (steering d)\<close> new by (force simp: d' image_iff)
    ultimately show False using consistentD(7) [OF d'(2)] by blast
  qed
  then show "\<not> hiddenBySteering d (aId b)" by (auto simp: hiddenBySteering_iff)
  have "withdrawnSource d' (aId b) \<longleftrightarrow> sourceWithdrawn a = Some True"
    using fresh new by (auto simp: withdrawnSource_iff d' requestRow_def withdrawnNumber_def)
  moreover have "\<not> withdrawnSource d (aId b)" using fresh by (auto simp: withdrawnSource_iff)
  moreover have "withdrawnSource d' j = withdrawnSource d j" if "j \<noteq> aId b" for j
    using that new by (auto simp: withdrawnSource_iff d')
  ultimately show "drift d' u = drift d u + (if u = threadId r \<and> sourceWithdrawn a = Some True then 1 else 0)"
    using drift_steering [OF baseOkD(1) [OF ok] d'(2,1) src(2-4), of u] by (simp add: of_bool_def)
qed

lemma insert_request_drift_plain:
  assumes ok: "baseOk d" and d': "d' = d\<lparr>steering := steering d @ [requestRow a]\<rparr>" "consistent d'"
    and src: "source a = None"
  shows "drift d' u = drift d u" "claimsOk d' = claimsOk d"
proof -
  have "sourceTurnId (requestRow a) = None" using src by (simp add: requestRow_def)
  then have "withdrawnSource d' j = withdrawnSource d j" "hiddenBySteering d' j = hiddenBySteering d j" for j
    by (auto simp: withdrawnSource_iff hiddenBySteering_iff d')
  then show "drift d' u = drift d u" "claimsOk d' = claimsOk d"
    using drift_steering_same [OF baseOkD(1) [OF ok] d'(2,1)] by (simp_all add: claimsOk_def) (simp add: d')
qed

text \<open>
  Rewriting the outcome of a pending request, and removing a request.
\<close>

lemma requestOf_SomeD: "requestOf rid d = Some s \<Longrightarrow> s \<in> set (steering d) \<and> requestId s = rid"
  unfolding requestOf_def using row_by_SomeD by fastforce

lemma request_only:
  "consistent d \<Longrightarrow> requestOf rid d = Some s \<Longrightarrow> x \<in> set (steering d) \<Longrightarrow> requestId x = rid \<longleftrightarrow> x = s"
  using keys_inj [OF consistentD(5)] requestOf_SomeD by metis

lemma write_request_ok:
  assumes ok: "baseOk d" and s: "requestOf rid d = Some s" "outcome (admission s) = OutPending"
    and w: "writeAdmission rid ((admission s)\<lparr>outcome := oc\<rparr>) (outcomeStatus oc) d = Inr d'"
  shows "baseOk d'" "claimsOk d \<Longrightarrow> claimsOk d'"
    "d' = d\<lparr>steering := steering d'\<rparr>" "consistent d'"
    "\<And>x. x \<in> set (steering d') \<longleftrightarrow>
       (x \<in> set (steering d) \<and> x \<noteq> s) \<or> x = s\<lparr>admission := (admission s)\<lparr>outcome := oc\<rparr>, obStatus := outcomeStatus oc\<rparr>"
proof -
  let ?new = "s\<lparr>admission := (admission s)\<lparr>outcome := oc\<rparr>, obStatus := outcomeStatus oc\<rparr>"
  have cons: "consistent d" using ok by (rule baseOkD)
  note s_in = requestOf_SomeD [OF s(1)]
  from w have d': "d' = d\<lparr>steering := update_where (\<lambda>s. requestId s = rid)
      (\<lambda>x. x\<lparr>admission := (admission s)\<lparr>outcome := oc\<rparr>, obStatus := outcomeStatus oc\<rparr>) (steering d)\<rparr>"
    and cons': "consistent d'"
    by (auto simp: writeAdmission_def result_simps)
  show frame: "d' = d\<lparr>steering := steering d'\<rparr>" by (simp add: d')
  show "consistent d'" by fact
  show mem: "x \<in> set (steering d') \<longleftrightarrow> (x \<in> set (steering d) \<and> x \<noteq> s) \<or> x = ?new" for x
    using request_only [OF cons s(1)] s_in by (auto simp: d' set_update_where)
  have old: "admissionMatchesRow s" "targetOk d s" "sourceOk d s"
    using baseOkD(3) [OF ok] s_in by (auto simp: requestsOk_def)
  have "obStatus s = ObPending" using old(1) s(2) by (simp add: admissionMatchesRow_def)
  with old have new: "admissionMatchesRow ?new" "targetOk d ?new" "sourceOk d ?new"
    by (auto simp: admissionMatchesRow_def targetOk_def sourceOk_def withdrawnNumber_def)
  have "targetOk d' x = targetOk d x" "sourceOk d' x = sourceOk d x" for x
    by (simp_all add: targetOk_def sourceOk_def d')
  with new mem have "requestsOk d'"
    using baseOkD(3) [OF ok] by (auto simp: requestsOk_def)
  moreover have "linksOk d'" using baseOkD(2) [OF ok] by (simp add: d')
  ultimately show "baseOk d'" using cons' by (simp add: baseOk_def)
  have "hiddenBySteering d i" if "hiddenBySteering d' i" for i
    using that s_in \<open>obStatus s = ObPending\<close> by (force simp: hiddenBySteering_iff mem)
  then show "claimsOk d'" if "claimsOk d"
    using that by (auto simp: claimsOk_def d')
qed

lemma delete_request_ok:
  assumes ok: "baseOk d" and d': "d' = deleteRequests P d"
  shows "baseOk d'" "claimsOk d \<Longrightarrow> claimsOk d'" "consistent d'"
    "\<And>x. x \<in> set (steering d') \<longleftrightarrow> x \<in> set (steering d) \<and> \<not> P x"
    "d' = d\<lparr>steering := steering d'\<rparr>"
proof -
  show frame: "d' = d\<lparr>steering := steering d'\<rparr>" by (simp add: d' deleteRequests_def)
  show mem: "x \<in> set (steering d') \<longleftrightarrow> x \<in> set (steering d) \<and> \<not> P x" for x
    by (simp add: d' deleteRequests_def set_delete_where)
  have cons: "consistent d" using ok by (rule baseOkD)
  have "steeringConsistent d'"
    using cons distinct_map_delete_where [of requestId "steering d" P]
      distinct_map_delete_where [of sourceTurnId "filter (\<lambda>s. sourceTurnId s \<noteq> None) (steering d)" P]
    by (auto simp: consistent_def steeringConsistent_def d' deleteRequests_def list_all_iff
        set_delete_where delete_where_def conj_commute split: option.splits)
  then show "consistent d'"
    using cons by (simp add: consistent_def d' deleteRequests_def turnsConsistent_def queuesConsistent_def
        admissionsConsistent_def)
  have "targetOk d' x = targetOk d x" "sourceOk d' x = sourceOk d x" for x
    by (simp_all add: targetOk_def sourceOk_def d' deleteRequests_def)
  with mem have "requestsOk d'"
    using baseOkD(3) [OF ok] by (auto simp: requestsOk_def)
  moreover have "linksOk d'" using baseOkD(2) [OF ok] by (simp add: d' deleteRequests_def)
  ultimately show "baseOk d'" using \<open>consistent d'\<close> by (simp add: baseOk_def)
  have "hiddenBySteering d i" if "hiddenBySteering d' i" for i
    using that by (auto simp: hiddenBySteering_iff mem)
  then show "claimsOk d'" if "claimsOk d"
    using that by (auto simp: claimsOk_def d' deleteRequests_def)
qed

lemma retire_request_drift:
  assumes ok: "baseOk d" and d': "d' = d\<lparr>steering := ss\<rparr>" "consistent d'" and s: "s \<in> set (steering d)"
    and mem: "\<And>x. x \<in> set (steering d') \<longleftrightarrow> (x \<in> set (steering d) \<and> x \<noteq> s) \<or> x \<in> X"
    and X: "\<And>x. x \<in> X \<Longrightarrow> obStatus x = ObRejected"
  shows "obStatus s = ObRejected \<or> sourceTurnId s = None \<Longrightarrow> drift d' u = drift d u"
    and "obStatus s \<noteq> ObRejected \<Longrightarrow> sourceTurnId s = Some i \<Longrightarrow> turnById i d = Some r \<Longrightarrow>
      drift d' u = drift d u - (if u = threadId r \<and> withdrawnColumn s = 1 then 1 else 0) \<and>
      \<not> withdrawnSource d' i"
proof -
  have others: "withdrawnSource d' j = withdrawnSource d j"
    if "obStatus s = ObRejected \<or> sourceTurnId s \<noteq> Some j" for j
    unfolding withdrawnSource_iff Bex_def mem using that X by metis
  show "drift d' u = drift d u" if "obStatus s = ObRejected \<or> sourceTurnId s = None"
  proof (rule drift_steering_same [OF baseOkD(1) [OF ok] d'(2,1)])
    fix j
    from that have "obStatus s = ObRejected \<or> sourceTurnId s \<noteq> Some j" by auto
    then show "withdrawnSource d' j = withdrawnSource d j" by (rule others)
  qed
  assume live: "obStatus s \<noteq> ObRejected" "sourceTurnId s = Some i" "turnById i d = Some r"
  have only: "x = s" if "x \<in> set (steering d)" "sourceTurnId x = Some i" for x
    using source_unique [OF baseOkD(1) [OF ok] that(1) s that(2) live(2)] .
  then have now: "\<not> withdrawnSource d' i" unfolding withdrawnSource_iff Bex_def mem using X by blast
  have before: "withdrawnSource d i \<longleftrightarrow> withdrawnColumn s = 1"
    unfolding withdrawnSource_iff using only s live by blast
  show "drift d' u = drift d u - (if u = threadId r \<and> withdrawnColumn s = 1 then 1 else 0) \<and>
      \<not> withdrawnSource d' i"
    using drift_steering [OF baseOkD(1) [OF ok] d'(2,1) live(3)
        live_source(1,2) [OF ok s live], of u] others live(2) now before
    by (auto simp: of_bool_def)
qed

lemma accept_request_drift:
  assumes ok: "baseOk d" and d': "d' = d\<lparr>steering := ss\<rparr>" "consistent d'" and s: "s \<in> set (steering d)"
    and mem: "\<And>x. x \<in> set (steering d') \<longleftrightarrow> (x \<in> set (steering d) \<and> x \<noteq> s) \<or> x = s'"
    and s': "sourceTurnId s' = sourceTurnId s" "withdrawnColumn s' = withdrawnColumn s"
      "obStatus s \<noteq> ObRejected" "obStatus s' \<noteq> ObRejected"
  shows "drift d' u = drift d u"
proof (rule drift_steering_same [OF baseOkD(1) [OF ok] d'(2,1)])
  show "withdrawnSource d' j = withdrawnSource d j" for j
    unfolding withdrawnSource_iff Bex_def mem using s s' by metis
qed

end
