(* ===== verification/Turn_Store.thy ===== *)
theory Turn_Store
  imports Turn_Statements
begin

text \<open>
  The turn store as a whole: its transactions as one datatype of operations, the step each
  takes, and the proof that every step keeps the invariant of the store.
\<close>

section \<open>Operations\<close>

datatype store_op =
    OpCreateForSubmission create_input
  | OpCopy agent_turn int
  | OpClaimNextQueued thread_id time int int
  | OpFinishQueuedClaim queue_claim status time
  | OpReleaseQueuedClaim queue_claim
  | OpResetQueueClaims
  | OpEditQueued turn_id string time
  | OpDequeue turn_id
  | OpRequeueAccepted turn_id int time
  | OpSetStatus turn_id status time
  | OpStartAccepted turn_id time
  | OpCancelUnlinked turn_id time
  | OpPrepareExecutionAdmission start_turn time
  | OpAttachExecutionLink turn_id execution_link time
  | OpPrepareSteering execution_link steering_input "string list" time
  | OpPrepareQueuedSteering turn_id execution_link steering_input "string list" time
  | OpAcceptSteering string steering_receipt
  | OpRejectSteering string steering_failure
  | OpCompleteSteering string execution_link steering_receipt
  | OpCompleteRejectedSteering string
  | OpCreateRecordedShell shell_turn
  | OpCopyRecordedShell shell_turn
  | OpSettleRecordedShell shell_turn shell_turn shell_result

definition dbOf :: "store_error + ('a \<times> db) \<Rightarrow> store_error + db" where
  "dbOf m = bindE m (\<lambda>(_, d). Inr d)"

fun stepStore :: "store_op \<Rightarrow> db \<Rightarrow> store_error + db" where
  "stepStore (OpCreateForSubmission inp) d = dbOf (createForSubmission inp d)"
| "stepStore (OpCopy turn capacity) d = dbOf (copy turn capacity d)"
| "stepStore (OpClaimNextQueued t now r1 r2) d = dbOf (claimNextQueued t now r1 r2 d)"
| "stepStore (OpFinishQueuedClaim c st now) d = dbOf (finishQueuedClaim c st now d)"
| "stepStore (OpReleaseQueuedClaim c) d = dbOf (releaseQueuedClaim c d)"
| "stepStore OpResetQueueClaims d = dbOf (resetQueueClaims d)"
| "stepStore (OpEditQueued i text now) d = dbOf (editQueued i text now d)"
| "stepStore (OpDequeue i) d = dbOf (dequeue i d)"
| "stepStore (OpRequeueAccepted i capacity now) d = dbOf (requeueAccepted i capacity now d)"
| "stepStore (OpSetStatus i st now) d = dbOf (setStatus i st now d)"
| "stepStore (OpStartAccepted i now) d = dbOf (startAccepted i now d)"
| "stepStore (OpCancelUnlinked i now) d = dbOf (cancelUnlinked i now d)"
| "stepStore (OpPrepareExecutionAdmission inp now) d = dbOf (prepareExecutionAdmission inp now d)"
| "stepStore (OpAttachExecutionLink i link now) d = dbOf (attachExecutionLink i link now d)"
| "stepStore (OpPrepareSteering tgt inp ids now) d = dbOf (prepareSteeringAdmission tgt inp ids now d)"
| "stepStore (OpPrepareQueuedSteering src tgt inp ids now) d =
     dbOf (prepareQueuedSteeringAdmission src tgt inp ids now d)"
| "stepStore (OpAcceptSteering rid receipt) d = dbOf (acceptSteeringAdmission rid receipt d)"
| "stepStore (OpRejectSteering rid failure) d = dbOf (rejectSteeringAdmission rid failure d)"
| "stepStore (OpCompleteSteering rid tgt receipt) d = dbOf (completeSteeringAdmission rid tgt receipt d)"
| "stepStore (OpCompleteRejectedSteering rid) d = dbOf (completeRejectedSteeringAdmission rid d)"
| "stepStore (OpCreateRecordedShell s) d = Inr (snd (createRecordedShell s d))"
| "stepStore (OpCopyRecordedShell s) d = Inr (snd (copyRecordedShell s d))"
| "stepStore (OpSettleRecordedShell expected s result) d = Inr (snd (settleRecordedShell expected s result d))"

text \<open>
  What the callers guarantee.  The type of \<open>finishQueuedClaim\<close> admits \<open>running\<close> and
  \<open>failed\<close> only, the type of a settled shell turn admits terminal statuses only; a fork copies turns in order into a new thread, so that an accepted copy
  meets no nonterminal turn, and the link of a copy names the turn it was copied from; and
  a turn that live steering requests target is not put back into the queue.
\<close>

definition liveTarget :: "db \<Rightarrow> turn_id \<Rightarrow> bool" where
  "liveTarget d i \<longleftrightarrow> exists_row (\<lambda>s. targetTurnId s = i \<and> obStatus s \<noteq> ObRejected) (steering d)"

definition busyThread :: "db \<Rightarrow> thread_id \<Rightarrow> bool" where
  "busyThread d t \<longleftrightarrow> exists_row (\<lambda>r. threadId r = t \<and> turnKind r = KindAgent \<and>
     status r \<in> set nonterminal_statuses) (turns d)"

fun callerOk :: "store_op \<Rightarrow> db \<Rightarrow> bool" where
  "callerOk (OpCopy turn capacity) d \<longleftrightarrow> linkOk (agentRow turn) \<and>
     (aStatus turn = StAccepted \<longrightarrow> \<not> busyThread d (aThreadId turn))"
| "callerOk (OpFinishQueuedClaim c st now) d \<longleftrightarrow> st \<in> {StRunning, StFailed}"
| "callerOk (OpRequeueAccepted i capacity now) d \<longleftrightarrow> \<not> liveTarget d i"
| "callerOk (OpSettleRecordedShell expected s result) d \<longleftrightarrow> isTerminalStatus (sStatus s)"
| "callerOk _ d \<longleftrightarrow> True"

section \<open>Each operation keeps the invariant\<close>

lemma storeOk_update:
  assumes ok: "storeOk d" and d': "updateTurns P f d = Inr d'" and keys: "keepsKeys P f"
    and queued: "keepsQueued d P f"
    and link: "\<And>r. r \<in> set (turns d) \<Longrightarrow> P r \<Longrightarrow>
      linkOk (f r) \<and> (executionLink r \<noteq> None \<longrightarrow> executionLink (f r) \<noteq> None)"
    and token: "\<And>r. r \<in> set (turns d) \<Longrightarrow> P r \<Longrightarrow> queueClaimToken (f r) \<noteq> None \<Longrightarrow>
      turnKind r = KindAgent \<and> status (f r) = StQueued \<and> \<not> hiddenBySteering d (rowId r)"
  shows "storeOk d'"
proof -
  from d' have *: "d' = d\<lparr>turns := update_where P f (turns d)\<rparr>" "consistent d'"
    by (auto simp: updateTurns_def result_simps)
  have "baseOk d'" by (rule baseOk_update_keeping [OF storeOkD(1) [OF ok] * keys queued link])
  moreover have "claimsOk d'" by (rule claimsOk_update [OF storeOkD(2) [OF ok] *(1) keys token])
  moreover have "countsOk d'"
    by (rule countsOk_drift [OF storeOkD(3) [OF ok] drift_update_keeping [OF storeOkD(4) [OF ok] * keys queued]])
  ultimately show ?thesis by (simp add: storeOk_def)
qed

lemma storeOk_linkOk: "storeOk d \<Longrightarrow> r \<in> set (turns d) \<Longrightarrow> linkOk r"
  by (metis storeOkD(1,4) baseOkD(2) linksOk_def turnById_iff)

lemma linkOk_other [simp]:
  "linkOk (r\<lparr>status := st\<rparr>) = linkOk r" "linkOk (r\<lparr>updatedAt := u\<rparr>) = linkOk r"
  "linkOk (r\<lparr>queueClaimToken := t\<rparr>) = linkOk r" "linkOk (r\<lparr>prompt := p\<rparr>) = linkOk r"
  "linkOk (r\<lparr>promptParts := pp\<rparr>) = linkOk r"
  by (simp_all add: linkOk_iff)

lemma storeOk_claim:
  assumes "storeOk d" "r \<in> set (turns d)" "queueClaimToken r \<noteq> None"
  shows "turnKind r = KindAgent" "status r = StQueued" "\<not> hiddenBySteering d (rowId r)"
  using assms storeOkD(2,4) [OF assms(1)] by (auto simp: claimsOk_def turnById_iff)

lemma finish_ok:
  assumes "baseOk d" "claimsOk d" "\<And>u. drift d u = 0"
  shows "storeOk d"
  using assms by (simp add: storeOk_def countsOk_def)

lemma storeOk_drift: "storeOk d \<Longrightarrow> drift d u = 0"
  by (simp add: storeOk_def countsOk_def)

lemma recorded_pos:
  assumes "drift d t = 1" "queueOf t d = Some q"
  shows "queuedCount (dropQueued q) = queuedCount q - 1"
  using assms by (simp add: drift_def recordedCount_def dropQueued_def)

text \<open>
  The last statement of the transactions that take a turn out of the queue.
\<close>

lemma drop_settles:
  assumes "baseOk d" "claimsOk d" and drift: "\<And>u. drift d u = (if u = t then 1 else 0)"
    and upd: "updateQueue P t dropQueued d = Inr (Some q, d')"
  shows "storeOk d'"
proof -
  from upd obtain q0 where q0: "queueOf t d = Some q0"
    and d': "d' = d\<lparr>queues := update_where (\<lambda>q. qThread q = t) dropQueued (queues d)\<rparr>" "consistent d'"
    by (rule updateQueue_SomeE) simp_all
  note step = queue_update_ok [OF assms(1) q0 qThread_updates(3) d']
  show ?thesis
    by (rule finish_ok) (use step assms(2) drift recorded_pos [OF _ q0] in auto)
qed

subsection \<open>Queue operations\<close>

lemma set_selectOrdered: "set (selectOrdered P d) = {r \<in> set (turns d). P r}"
  by (auto simp: selectOrdered_def orderRows_def)

lemma sorted_selectOrdered: "sorted (map orderKey (selectOrdered P d))"
  by (simp add: selectOrdered_def orderRows_def)

lemma nextEligible_SomeD:
  assumes "nextEligible t d = Some r"
  shows "r \<in> set (turns d)" "threadId r = t" "eligibleQueued d r" "queueClaimToken r = None"
    "\<And>x. x \<in> set (turns d) \<Longrightarrow> threadId x = t \<Longrightarrow> eligibleQueued d x \<Longrightarrow> queueClaimToken x = None \<Longrightarrow>
      orderKey r \<le> orderKey x"
proof -
  let ?P = "\<lambda>r. threadId r = t \<and> eligibleQueued d r \<and> queueClaimToken r = None"
  obtain rest where rows: "selectOrdered ?P d = r # rest"
    using assms by (auto simp: nextEligible_def split: list.splits)
  then have "r \<in> set (selectOrdered ?P d)" by simp
  then show "r \<in> set (turns d)" "threadId r = t" "eligibleQueued d r" "queueClaimToken r = None"
    by (simp_all add: set_selectOrdered)
  fix x assume "x \<in> set (turns d)" "threadId x = t" "eligibleQueued d x" "queueClaimToken x = None"
  then have "x \<in> set (r # rest)" using set_selectOrdered [of ?P d] rows by auto
  then show "orderKey r \<le> orderKey x" using sorted_selectOrdered [of ?P d] rows by auto
qed

lemma nextEligible_NoneD:
  assumes "nextEligible t d = None" "x \<in> set (turns d)" "threadId x = t" "eligibleQueued d x"
  shows "queueClaimToken x \<noteq> None"
  using assms set_selectOrdered [of "\<lambda>r. threadId r = t \<and> eligibleQueued d r \<and> queueClaimToken r = None" d]
  by (auto simp: nextEligible_def split: list.splits)

lemma claimNextQueued_cases:
  assumes "claimNextQueued t now r1 r2 d = Inr (res, d')"
  obtains "res = None" "d' = d"
  | nx row turn where "queueOf t d \<noteq> None" "nextEligible t d = Some nx"
      "\<not> exists_row (activeIn t) (turns d)" "\<not> exists_row (claimedIn t) (turns d)"
      "updateTurns (\<lambda>r. rowId r = rowId nx \<and> turnKind r = KindAgent)
         (\<lambda>r. r\<lparr>queueClaimToken := Some (mkClaimToken t now r1 r2)\<rparr>) d = Inr d'"
      "turnById (rowId nx) d' = Some row" "decodeAgent row = Inr turn"
      "res = Some \<lparr>claimTurn = turn, claimToken = mkClaimToken t now r1 r2\<rparr>"
proof -
  show ?thesis
  proof (cases "res = None \<and> d' = d")
    case True then show ?thesis using that(1) by blast
  next
    case False
    then obtain q where q: "queueOf t d = Some q"
      using assms by (auto simp: claimNextQueued_def Let_def split: option.splits)
    from False assms q obtain nx where n: "nextEligible t d = Some nx"
      by (auto simp: claimNextQueued_def Let_def split: option.splits)
    from n have row: "nx \<in> set (turns d)" using nextEligible_SomeD(1) by blast
    from False assms q n
    have free: "\<not> exists_row (activeIn t) (turns d)" "\<not> exists_row (claimedIn t) (turns d)"
      by (auto simp: claimNextQueued_def Let_def split: if_splits)
    from assms q n free obtain d1 where upd: "updateTurns (\<lambda>r. rowId r = rowId nx \<and> turnKind r = KindAgent)
         (\<lambda>r. r\<lparr>queueClaimToken := Some (mkClaimToken t now r1 r2)\<rparr>) d = Inr d1"
      and rest: "(case turnById (rowId nx) d1 of
                    None \<Rightarrow> Inr (None, d1)
                  | Some row \<Rightarrow> bindE (decodeAgent row) (\<lambda>turn.
                      Inr (Some \<lparr>claimTurn = turn, claimToken = mkClaimToken t now r1 r2\<rparr>, d1))) = Inr (res, d')"
      by (auto simp: claimNextQueued_def Let_def result_simps)
    have "turnById (rowId nx) d \<noteq> None" using row by (simp add: turnById_None)
    moreover have "d1 = d\<lparr>turns := update_where (\<lambda>r. rowId r = rowId nx \<and> turnKind r = KindAgent)
         (\<lambda>r. r\<lparr>queueClaimToken := Some (mkClaimToken t now r1 r2)\<rparr>) (turns d)\<rparr>"
      using upd by (auto simp: updateTurns_def result_simps)
    ultimately obtain row' where row': "turnById (rowId nx) d1 = Some row'"
      using turnById_updated [of "\<lambda>r. rowId r = rowId nx \<and> turnKind r = KindAgent"] by (force simp: keepsKeys_def)
    with rest upd q n free show ?thesis using that(2) by (auto simp: result_simps)
  qed
qed

lemma claimNextQueued_ok:
  assumes ok: "storeOk d" and run: "claimNextQueued t now r1 r2 d = Inr (res, d')"
  shows "storeOk d'"
  using run
proof (cases rule: claimNextQueued_cases)
  case 1 with ok show ?thesis by simp
next
  case (2 nx row turn)
  note nxt = nextEligible_SomeD [OF 2(2)]
  have same: "r = nx" if "r \<in> set (turns d)" "rowId r = rowId nx" for r
    using keys_inj [OF consistentD(1) [OF storeOkD(4) [OF ok]] that(1) nxt(1) that(2)] .
  show ?thesis
    by (rule storeOk_update [OF ok 2(5)])
      (use nxt(3) same storeOk_linkOk [OF ok] in \<open>auto simp: keepsKeys_def keepsQueued_def eligibleQueued_def\<close>)
qed

lemma releaseQueuedClaim_ok:
  assumes "storeOk d" "releaseQueuedClaim c d = Inr (res, d')"
  shows "storeOk d'"
proof -
  from assms(2) have "updateTurns (claimMatches c) (\<lambda>r. r\<lparr>queueClaimToken := None\<rparr>) d = Inr d'"
    by (auto simp: releaseQueuedClaim_def result_simps)
  then show ?thesis
    by (rule storeOk_update [OF assms(1)])
      (use storeOk_linkOk [OF assms(1)] in \<open>auto simp: keepsKeys_def keepsQueued_def\<close>)
qed

lemma resetQueueClaims_ok:
  assumes "storeOk d" "resetQueueClaims d = Inr (res, d')"
  shows "storeOk d'"
proof -
  from assms(2) have "updateTurns (\<lambda>r. turnKind r = KindAgent \<and> queueClaimToken r \<noteq> None)
      (\<lambda>r. r\<lparr>queueClaimToken := None\<rparr>) d = Inr d'"
    by (auto simp: resetQueueClaims_def result_simps)
  then show ?thesis
    by (rule storeOk_update [OF assms(1)])
      (use storeOk_linkOk [OF assms(1)] in \<open>auto simp: keepsKeys_def keepsQueued_def\<close>)
qed

lemma finishQueuedClaim_cases:
  assumes "finishQueuedClaim c st now d = Inr (res, d')"
  obtains "res = Unavailable" "d' = d" "\<not> exists_row (claimMatches c) (turns d)"
  | row row' turn d1 q where "row \<in> set (turns d)" "claimMatches c row"
      "updateTurns (claimMatches c) (\<lambda>r. r\<lparr>status := st, updatedAt := now, queueClaimToken := None\<rparr>) d = Inr d1"
      "turnById (aId (claimTurn c)) d1 = Some row'" "decodeAgent row' = Inr turn"
      "updateQueue (\<lambda>_. True) (aThreadId turn) dropQueued d1 = Inr (Some q, d')"
      "res = Transitioned turn (queueChange q False (Removed (aId turn)))"
proof (cases "exists_row (claimMatches c) (turns d)")
  case False
  with assms that(1) show ?thesis by (simp add: finishQueuedClaim_def)
next
  case True
  then obtain row where row: "row \<in> set (turns d)" "claimMatches c row" by (auto simp: exists_row_iff)
  from True assms obtain d1 where upd: "updateTurns (claimMatches c)
      (\<lambda>r. r\<lparr>status := st, updatedAt := now, queueClaimToken := None\<rparr>) d = Inr d1"
    and rest: "(case turnById (aId (claimTurn c)) d1 of
           None \<Rightarrow> Inr (Unavailable, d1)
         | Some row \<Rightarrow> bindE (decodeAgent row) (\<lambda>turn.
             bindE (updateQueue (\<lambda>_. True) (aThreadId turn) dropQueued d1) (\<lambda>(q, d2).
             (case q of
                None \<Rightarrow> Inl (queueMissing (aThreadId turn))
              | Some q \<Rightarrow> Inr (Transitioned turn (queueChange q False (Removed (aId turn))), d2))))) = Inr (res, d')"
    by (auto simp: finishQueuedClaim_def result_simps)
  have "turnById (aId (claimTurn c)) d \<noteq> None" using row by (metis claimMatches_def imageI turnById_None)
  moreover have "d1 = d\<lparr>turns := update_where (claimMatches c)
      (\<lambda>r. r\<lparr>status := st, updatedAt := now, queueClaimToken := None\<rparr>) (turns d)\<rparr>"
    using upd by (auto simp: updateTurns_def result_simps)
  ultimately obtain row' where row': "turnById (aId (claimTurn c)) d1 = Some row'"
    using turnById_updated [of "claimMatches c"] by (force simp: keepsKeys_def)
  with rest obtain turn where turn: "decodeAgent row' = Inr turn"
    by (auto simp: result_simps)
  with rest row' obtain q where "updateQueue (\<lambda>_. True) (aThreadId turn) dropQueued d1 = Inr (Some q, d')"
      "res = Transitioned turn (queueChange q False (Removed (aId turn)))"
    by (auto simp: result_simps split: option.splits)
  with that(2) row upd row' turn show ?thesis by blast
qed

lemma finishQueuedClaim_ok:
  assumes ok: "storeOk d" and run: "finishQueuedClaim c st now d = Inr (res, d')"
    and st: "st \<in> {StRunning, StFailed}"
  shows "storeOk d'"
  using run
proof (cases rule: finishQueuedClaim_cases)
  case 1 with ok show ?thesis by simp
next
  case (2 row row' turn d1 q)
  let ?f = "\<lambda>r. r\<lparr>status := st, updatedAt := now, queueClaimToken := None\<rparr>"
  have d1: "d1 = d\<lparr>turns := update_where (claimMatches c) ?f (turns d)\<rparr>" "consistent d1"
    using 2(3) by (auto simp: updateTurns_def result_simps)
  have keys: "keepsKeys (claimMatches c) ?f" by (simp add: keepsKeys_def)
  have row: "turnById (aId (claimTurn c)) d = Some row"
    using 2(1,2) by (simp add: turnById_iff [OF storeOkD(4) [OF ok]] claimMatches_def)
  have one: "r = row" if "claimMatches c r" "turnById i d = Some r" for i r
    using that row turnById_SomeD [of i d r] by (simp add: claimMatches_def)
  have visible: "\<not> hiddenBySteering d (rowId row)"
    using storeOk_claim(3) [OF ok 2(1)] 2(2) by (simp add: claimMatches_def)
  have base: "baseOk d1"
  proof (rule baseOk_update [OF storeOkD(1) [OF ok] d1 keys])
    show "linkOk (?f r) \<and> (executionLink r \<noteq> None \<longrightarrow> executionLink (?f r) \<noteq> None)"
      if "turnById i d = Some r" for i r
      using storeOk_linkOk [OF ok] turnById_SomeD [OF that] by simp
    show "status (?f r) \<noteq> StQueued" for r using st by auto
    show "status (?f r) = StQueued"
      if "s \<in> set (steering d)" "obStatus s \<noteq> ObRejected" "sourceTurnId s = Some i"
        "turnById i d = Some r" "claimMatches c r" for s r i
      using visible that one [OF that(5,4)] turnById_SomeD [OF that(4)] by (auto simp: hiddenBySteering_iff)
  qed
  have claims: "claimsOk d1"
    by (rule claimsOk_update [OF storeOkD(2) [OF ok] d1(1) keys]) simp
  have "countedRow d row"
    using 2(2) visible withdrawnSource_hidden by (auto simp: countedRow_def claimMatches_def)
  then have drift: "drift d1 u = (if u = threadId row then 1 else 0)" for u
    using drift_update_leaving [OF storeOkD(4) [OF ok] keys _ row 2(2) _ _ d1, of u] st storeOk_drift [OF ok]
    by (auto simp: claimMatches_def)
  have "row' = ?f row"
    using 2(2,4) row by (simp add: d1 turnById_updated [OF keys])
  then have "aThreadId turn = threadId row" using decodeAgent_Inr(3) [OF 2(5)] by simp
  with drop_settles [OF base claims, of "aThreadId turn"] drift 2(6) show ?thesis by simp
qed

lemma find_unique:
  assumes "find P rows = Some r"
  shows "r \<in> set rows" "P r"
  using assms by (auto simp: find_Some_iff)

lemma editQueued_cases:
  assumes "editQueued i text now d = Inr (res, d')"
  obtains d1 row turn q where "exists_row (\<lambda>r. rowId r = i \<and> eligibleQueued d r) (turns d)"
    "updateTurns (\<lambda>r. rowId r = i \<and> eligibleQueued d r)
      (\<lambda>r. r\<lparr>prompt := text, promptParts := None, updatedAt := now, queueClaimToken := None\<rparr>) d = Inr d1"
    "turnById i d1 = Some row" "decodeAgent row = Inr turn"
    "updateQueue (\<lambda>_. True) (aThreadId turn) bumpRevision d1 = Inr (Some q, d')"
    "res = (turn, queueChange q False (Updated turn))"
proof -
  from assms have hit: "exists_row (\<lambda>r. rowId r = i \<and> eligibleQueued d r) (turns d)"
    by (auto simp: editQueued_def Let_def split: if_splits)
  with assms obtain d1 where upd: "updateTurns (\<lambda>r. rowId r = i \<and> eligibleQueued d r)
      (\<lambda>r. r\<lparr>prompt := text, promptParts := None, updatedAt := now, queueClaimToken := None\<rparr>) d = Inr d1"
    by (auto simp: editQueued_def Let_def result_simps)
  with assms hit obtain row where row: "turnById i d1 = Some row"
    by (auto simp: editQueued_def Let_def result_simps split: option.splits)
  with assms hit upd show ?thesis
    using that by (auto simp: editQueued_def Let_def result_simps split: option.splits)
qed

lemma editQueued_ok:
  assumes ok: "storeOk d" and run: "editQueued i text now d = Inr (res, d')"
  shows "storeOk d'"
  using run
proof (cases rule: editQueued_cases)
  case (1 d1 row turn q)
  have d1: "storeOk d1"
    by (rule storeOk_update [OF ok 1(2)])
      (use storeOk_linkOk [OF ok] in \<open>auto simp: keepsKeys_def keepsQueued_def\<close>)
  from 1(5) obtain q0 where q0: "queueOf (aThreadId turn) d1 = Some q0" and d':
    "d' = d1\<lparr>queues := update_where (\<lambda>q. qThread q = aThreadId turn) bumpRevision (queues d1)\<rparr>" "consistent d'"
    by (rule updateQueue_SomeE) simp_all
  note step = queue_update_ok [OF storeOkD(1) [OF d1] q0 qThread_updates(1) d']
  show ?thesis
    by (rule finish_ok) (use step storeOkD(2) [OF d1] storeOk_drift [OF d1] in \<open>auto simp: bumpRevision_def\<close>)
qed

lemma dequeue_cases:
  assumes "dequeue i d = Inr (res, d')"
  obtains row d1 turn q where "row \<in> set (turns d)" "rowId row = i" "eligibleQueued d row"
    "deleteTurns (\<lambda>r. rowId r = i \<and> eligibleQueued d r) d = Inr d1" "decodeAgent row = Inr turn"
    "updateQueue (\<lambda>_. True) (aThreadId turn) dropQueued d1 = Inr (Some q, d')"
    "res = queueChange q False (Removed (aId turn))"
proof -
  from assms obtain row where "find (\<lambda>r. rowId r = i \<and> eligibleQueued d r) (turns d) = Some row"
    by (auto simp: dequeue_def Let_def split: option.splits)
  moreover note find_unique [OF this]
  ultimately show ?thesis
    using assms that by (auto simp: dequeue_def Let_def result_simps split: option.splits)
qed

lemma dequeue_ok:
  assumes ok: "storeOk d" and run: "dequeue i d = Inr (res, d')"
  shows "storeOk d'"
  using run
proof (cases rule: dequeue_cases)
  case (1 row d1 turn q)
  have row: "turnById i d = Some row" using 1(1,2) by (simp add: turnById_iff [OF storeOkD(4) [OF ok]])
  have counted: "countedRow d row"
    using 1(2,3) withdrawnSource_hidden by (auto simp: countedRow_def eligibleQueued_def)
  have hit: "rowId row = i \<and> eligibleQueued d row" "status row = StQueued"
    using 1(2,3) by (auto simp: eligibleQueued_def)
  note del = delete_turn_ok [OF storeOkD(1) [OF ok] 1(4) row hit]
  have "drift d1 u = (if u = aThreadId turn then 1 else 0)" for u
    using del(3) [of u] counted storeOk_drift [OF ok] decodeAgent_Inr(3) [OF 1(5)] by auto
  with drop_settles [OF _ _ _ 1(6)] del(1,2) storeOkD(2) [OF ok] show ?thesis by auto
qed

lemma reserveUpdateE:
  assumes "reserveUpdate t capacity d = Inr (q, d')"
  obtains q0 where "queueOf t d = Some q0" "queuedCount q0 + int (reservedCount t d) < capacity"
    "q = addQueued 1 q0" "consistent d'" "qThread q = t"
    "d' = d\<lparr>queues := update_where (\<lambda>q. qThread q = t) (addQueued 1) (queues d)\<rparr>"
proof -
  from assms have "updateQueue (\<lambda>q. queuedCount q + int (reservedCount t d) < capacity) t (addQueued 1) d = Inr (Some q, d')"
    by (auto simp: reserveUpdate_def result_simps split: option.splits)
  then show ?thesis by (rule updateQueue_SomeE) (use that in auto)
qed

text \<open>
  The last statement of the transactions that put a turn into the queue.
\<close>

lemma reserve_settles:
  assumes "baseOk d" "claimsOk d" and drift: "\<And>u. drift d u = (if u = t then -1 else 0)"
    and upd: "reserveUpdate t capacity d = Inr (q, d')"
  shows "storeOk d'"
proof -
  from upd obtain q0 where q0: "queueOf t d = Some q0"
    and d': "d' = d\<lparr>queues := update_where (\<lambda>q. qThread q = t) (addQueued 1) (queues d)\<rparr>" "consistent d'"
    by (rule reserveUpdateE)
  note step = queue_update_ok [OF assms(1) q0 qThread_updates(2) d']
  show ?thesis
    by (rule finish_ok) (use step assms(2) drift in \<open>auto simp: addQueued_def\<close>)
qed

lemma requeueAccepted_cases:
  assumes "requeueAccepted i capacity now d = Inr (res, d')"
  obtains row turn d1 q d2 row' turn' where "row \<in> set (turns d)" "rowId row = i" "turnKind row = KindAgent"
    "status row = StAccepted" "decodeAgent row = Inr turn"
    "\<not> exists_row (\<lambda>r. activeIn (threadId row) r \<and> rowId r \<noteq> i) (turns d)"
    "insertQueueIfMissing (threadId row) d = Inr d1" "reserveUpdate (threadId row) capacity d1 = Inr (q, d2)"
    "updateTurns (\<lambda>r. rowId r = i \<and> turnKind r = KindAgent \<and> status r = StAccepted)
       (\<lambda>r. r\<lparr>status := StQueued, updatedAt := now\<rparr>) d2 = Inr d'"
    "turnById i d' = Some row'" "decodeAgent row' = Inr turn'"
    "res = (turn', queueChange q (queuedCount q = 1) (Added turn' None))"
proof -
  let ?hit = "\<lambda>r. rowId r = i \<and> turnKind r = KindAgent \<and> status r = StAccepted"
  from assms obtain row where row: "find ?hit (turns d) = Some row"
    by (auto simp: requeueAccepted_def Let_def split: option.splits)
  from assms row obtain turn where turn: "decodeAgent row = Inr turn"
    by (auto simp: requeueAccepted_def Let_def result_simps)
  from find_unique [OF row] assms row turn decodeAgent_Inr(3) [OF turn] that show ?thesis
    by (auto simp: requeueAccepted_def Let_def result_simps split: option.splits if_splits)
qed

lemma requeueAccepted_ok:
  assumes ok: "storeOk d" and run: "requeueAccepted i capacity now d = Inr (res, d')"
    and free: "\<not> liveTarget d i"
  shows "storeOk d'"
  using run
proof (cases rule: requeueAccepted_cases)
  case (1 row turn d1 q d2 row' turn')
  let ?hit = "\<lambda>r. rowId r = i \<and> turnKind r = KindAgent \<and> status r = StAccepted"
  let ?f = "\<lambda>r. r\<lparr>status := StQueued, updatedAt := now\<rparr>"
  have keys: "keepsKeys ?hit ?f" by (simp add: keepsKeys_def)
  note ins = insertQueueIfMissing_ok [OF storeOkD(1) [OF ok] 1(7)]
  from 1(8) obtain q0 where q0: "queueOf (threadId row) d1 = Some q0"
    and d2: "d2 = d1\<lparr>queues := update_where (\<lambda>q. qThread q = threadId row) (addQueued 1) (queues d1)\<rparr>" "consistent d2"
    by (rule reserveUpdateE)
  note res = queue_update_ok [OF ins(1) q0 qThread_updates(2) d2]
  have d': "d' = d2\<lparr>turns := update_where ?hit ?f (turns d2)\<rparr>" "consistent d'"
    using 1(9) by (auto simp: updateTurns_def result_simps)
  have rows: "turns d2 = turns d" "steering d2 = steering d" using ins(5,6) by (simp_all add: d2)
  have look: "turnById j d2 = turnById j d" for j by (simp add: turnById_def rows)
  have row: "turnById i d = Some row" using 1(1,2) by (simp add: turnById_iff [OF storeOkD(4) [OF ok]])
  have "\<not> hiddenBySteering d i"
    using hidden_row(2) [OF storeOkD(1) [OF ok] _ row] 1(4) by auto
  then have visible: "\<not> hiddenBySteering d2 i" by (simp add: hiddenBySteering_iff rows)
  have base: "baseOk d'"
  proof (rule baseOk_update [OF res(1) d' keys])
    show "linkOk (?f r) \<and> (executionLink r \<noteq> None \<longrightarrow> executionLink (?f r) \<noteq> None)"
      if "turnById j d2 = Some r" for j r
      using storeOk_linkOk [OF ok] turnById_SomeD that by (auto simp: look)
    show "status (?f r) \<noteq> StQueued" if "s \<in> set (steering d2)" "obStatus s \<noteq> ObRejected"
      "turnById (targetTurnId s) d2 = Some r" "?hit r" for s r
      using free that turnById_SomeD [of _ d r] by (auto simp: liveTarget_def exists_row_iff rows look)
  qed simp
  have claims: "claimsOk d'"
  proof (rule claimsOk_update [OF _ d'(1) keys])
    show "claimsOk d2" using res(2) ins(2) storeOkD(2) [OF ok] by simp
    show "turnKind r = KindAgent \<and> status (?f r) = StQueued \<and> \<not> hiddenBySteering d2 (rowId r)"
      if "?hit r" for r using that visible by simp
  qed
  have one: "\<And>r. ?hit r \<Longrightarrow> rowId r = i" by simp
  have "drift d' u = drift d2 u - (if u = threadId row then 1 else 0)" for u
    by (rule drift_update_entering [OF d2(2) keys one _ _ _ _ d'])
      (use row 1(1-4) visible withdrawnSource_hidden in \<open>auto simp: look countedRow_def\<close>)
  then have "drift d' u = 0" for u
    using res(3) [of u] ins(3) [of u] storeOk_drift [OF ok, of u] by (simp add: addQueued_def)
  with base claims show ?thesis by (rule finish_ok)
qed

subsection \<open>Submission and copies\<close>

lemma reserveQueueEntryE:
  assumes "reserveQueueEntry t capacity d = Inr (q, d')"
  obtains d1 where "insertQueueIfMissing t d = Inr d1" "reserveUpdate t capacity d1 = Inr (q, d')"
  using assms by (auto simp: reserveQueueEntry_def result_simps)

lemma insert_then_reserve:
  assumes ok: "storeOk d" and ins: "insertTurn r d = Inr (r', d1)" and r: "linkOk r" "queueClaimToken r = None"
    "turnKind r = KindAgent"
  shows "status r' \<noteq> StQueued \<Longrightarrow> storeOk d1"
    and "status r' = StQueued \<Longrightarrow> reserveQueueEntry (threadId r) capacity d1 = Inr (q, d2) \<Longrightarrow> storeOk d2"
proof -
  from ins obtain d1: "d1 = d\<lparr>turns := turns d @ [r']\<rparr>" "consistent d1" and new: "turnById (rowId r') d = None"
    and r': "r' = r \<or> r' = r\<lparr>status := StQueued\<rparr>"
    by (rule insertTurnE) (auto split: if_splits)
  have r'_ok: "linkOk r'" "queueClaimToken r' = None" "threadId r' = threadId r" "turnKind r' = KindAgent"
    using r r' by auto
  note step = insert_turn_ok [OF storeOkD(1) [OF ok] d1 new r'_ok(1,2)]
  note claims = step(2) [OF storeOkD(2) [OF ok]]
  show "storeOk d1" if "status r' \<noteq> StQueued"
    by (rule finish_ok) (use step claims that storeOk_drift [OF ok] in auto)
  show "storeOk d2" if queued: "status r' = StQueued" and "reserveQueueEntry (threadId r) capacity d1 = Inr (q, d2)"
  proof -
    from that(2) obtain dq where dq: "insertQueueIfMissing (threadId r) d1 = Inr dq"
      and upd: "reserveUpdate (threadId r) capacity dq = Inr (q, d2)" by (rule reserveQueueEntryE)
    note mid = insertQueueIfMissing_ok [OF step(1) dq]
    show ?thesis
      by (rule reserve_settles [OF mid(1) _ _ upd])
        (use mid claims step(3) queued r'_ok storeOk_drift [OF ok] in auto)
  qed
qed

lemma createForSubmission_cases:
  assumes "createForSubmission inp d = Inr (res, d')"
  obtains row row' d1 turn where
    "row = agentRow \<lparr> aId = inId inp, aThreadId = inThreadId inp, aPrompt = inPrompt inp,
       aPromptParts = inPromptParts inp, aStatus = (if busyThread d (inThreadId inp) then StQueued else StAccepted),
       aExecutionRoute = inExecutionRoute inp, aExecutionLink = None,
       aAuthor = (case inAuthor inp of None \<Rightarrow> Human | Some a \<Rightarrow> a),
       aLineage = (case inLineage inp of None \<Rightarrow> Original | Some l \<Rightarrow> l),
       aCreatedAt = inNow inp, aUpdatedAt = inNow inp \<rparr>"
    "insertTurn row d = Inr (row', d1)" "decodeAgent row' = Inr turn"
    "(aStatus turn \<noteq> StQueued \<and> d' = d1 \<and> res = (turn, None)) \<or>
     (\<exists>q. aStatus turn = StQueued \<and> reserveQueueEntry (inThreadId inp) (inQueueCapacity inp) d1 = Inr (q, d') \<and>
        res = (turn, Some (queueChange q (queuedCount q = 1) (Added turn None))))"
  using assms that
  by (auto simp: createForSubmission_def Let_def busyThread_def result_simps split: if_splits)

lemma agentRow_simps [simp]:
  "rowId (agentRow a) = aId a" "threadId (agentRow a) = aThreadId a" "turnKind (agentRow a) = KindAgent"
  "status (agentRow a) = aStatus a" "queueClaimToken (agentRow a) = None"
  "executionLink (agentRow a) = aExecutionLink a" "createdAt (agentRow a) = aCreatedAt a"
  by (simp_all add: agentRow_def)

lemma createForSubmission_ok:
  assumes ok: "storeOk d" and run: "createForSubmission inp d = Inr (res, d')"
  shows "storeOk d'"
  using run
proof (cases rule: createForSubmission_cases)
  case (1 row row' d1 turn)
  have row: "linkOk row" "queueClaimToken row = None" "turnKind row = KindAgent" "threadId row = inThreadId inp"
    by (simp_all add: 1(1) linkOk_iff)
  have "aStatus turn = status row'" using decodeAgent_Inr(4) [OF 1(3)] .
  with 1(4) insert_then_reserve [OF ok 1(2) row(1-3)] row(4) show ?thesis by auto
qed

lemma copy_ok:
  assumes ok: "storeOk d" and run: "copy turn capacity d = Inr (res, d')"
    and caller: "linkOk (agentRow turn)" "aStatus turn = StAccepted \<Longrightarrow> \<not> busyThread d (aThreadId turn)"
  shows "storeOk d'"
proof -
  from run obtain row' d1 where ins: "insertTurn (agentRow turn) d = Inr (row', d1)"
    and rest: "(aStatus turn \<noteq> StQueued \<and> d' = d1) \<or>
      (\<exists>q. aStatus turn = StQueued \<and> reserveQueueEntry (aThreadId turn) capacity d1 = Inr (q, d'))"
    by (auto simp: copy_def result_simps split: if_splits)
  from ins have "row' = agentRow turn"
    by (rule insertTurnE) (use caller(2) in \<open>auto simp: busyThread_def\<close>)
  with insert_then_reserve [OF ok ins caller(1)] rest show ?thesis by auto
qed

subsection \<open>Status changes\<close>

lemma setStatus_cases:
  assumes "setStatus i st now d = Inr (res, d')"
  obtains before existing where "st \<noteq> StQueued" "before \<in> set (turns d)" "rowId before = i"
    "turnKind before = KindAgent" "decodeAgent before = Inr existing" "status before \<noteq> StQueued"
    "updateTurns (\<lambda>r. rowId r = i \<and> turnKind r = KindAgent \<and> status r \<notin> set terminal_statuses)
      (\<lambda>r. r\<lparr>status := st, updatedAt := now\<rparr>) d = Inr d'"
proof -
  from assms have st: "st \<noteq> StQueued" by (auto simp: setStatus_def split: if_splits)
  with assms obtain before where b: "agentById i d = Some before"
    by (auto simp: setStatus_def split: option.splits)
  from assms st b obtain existing where e: "decodeAgent before = Inr existing" "aStatus existing \<noteq> StQueued"
    by (auto simp: setStatus_def result_simps split: if_splits)
  from find_unique [OF b [unfolded agentById_def]] assms st b e decodeAgent_Inr(4) [OF e(1)] that show ?thesis
    by (auto simp: setStatus_def Let_def result_simps split: if_splits option.splits)
qed

lemma setStatus_ok:
  assumes ok: "storeOk d" and run: "setStatus i st now d = Inr (res, d')"
  shows "storeOk d'"
  using run
proof (cases rule: setStatus_cases)
  case (1 before existing)
  have same: "r = before" if "r \<in> set (turns d)" "rowId r = i" for r
    using keys_inj [OF consistentD(1) [OF storeOkD(4) [OF ok]] that(1) 1(2)] that(2) 1(3) by simp
  show ?thesis
    by (rule storeOk_update [OF ok 1(7)])
      (use 1(1,6) same storeOk_linkOk [OF ok] storeOk_claim(2) [OF ok]
        in \<open>auto simp: keepsKeys_def keepsQueued_def\<close>)
qed

lemma startAccepted_ok:
  assumes ok: "storeOk d" and run: "startAccepted i now d = Inr (res, d')"
  shows "storeOk d'"
proof -
  from run have "updateTurns (\<lambda>r. rowId r = i \<and> turnKind r = KindAgent \<and> status r = StAccepted)
      (\<lambda>r. r\<lparr>status := StRunning, updatedAt := now\<rparr>) d = Inr d'"
    by (auto simp: startAccepted_def Let_def result_simps)
  then show ?thesis
    by (rule storeOk_update [OF ok])
      (use storeOk_linkOk [OF ok] storeOk_claim(2) [OF ok] in \<open>auto simp: keepsKeys_def keepsQueued_def\<close>)
qed

lemma cancelUnlinked_ok:
  assumes ok: "storeOk d" and run: "cancelUnlinked i now d = Inr (res, d')"
  shows "storeOk d'"
proof -
  from run have "updateTurns (\<lambda>r. rowId r = i \<and> turnKind r = KindAgent \<and> status r \<in> {StAccepted, StRunning} \<and>
      executionLink r = None) (\<lambda>r. r\<lparr>status := StCancelled, updatedAt := now\<rparr>) d = Inr d'"
    by (auto simp: cancelUnlinked_def Let_def result_simps)
  then show ?thesis
    by (rule storeOk_update [OF ok])
      (use storeOk_linkOk [OF ok] storeOk_claim(2) [OF ok] in \<open>fastforce simp: keepsKeys_def keepsQueued_def\<close>)+
qed

subsection \<open>Execution admissions and links\<close>

lemma storeOk_admissions:
  assumes ok: "storeOk d" and d': "d' = d\<lparr>admissions := as\<rparr>" "consistent d'"
    and as: "\<And>a. a \<in> set as \<Longrightarrow> a \<in> set (admissions d) \<or>
      (stTurnId (admStartInput a) = admTurnId a \<and>
       (\<exists>r. turnById (admTurnId a) d = Some r \<and> threadId r = stThreadId (admStartInput a)))"
  shows "storeOk d'"
proof (rule finish_ok)
  have "linksOk d'"
    using baseOkD(2) [OF storeOkD(1) [OF ok]] as by (fastforce simp: linksOk_def d')
  then show "baseOk d'"
    using baseOkD(3) [OF storeOkD(1) [OF ok]] d' by (simp add: baseOk_def)
  show "claimsOk d'" using storeOkD(2) [OF ok] by (simp add: d')
  show "drift d' u = 0" for u
    using storeOk_drift [OF ok, of u] by (simp add: drift_card [OF d'(2)] drift_card [OF storeOkD(4) [OF ok]]) (simp add: d')
qed

lemma consistent_deleteAdmission: "consistent d \<Longrightarrow> consistent (deleteAdmission i d)"
  by (auto simp: consistent_def turnsConsistent_def queuesConsistent_def admissionsConsistent_def
      steeringConsistent_def deleteAdmission_def list_all_iff set_delete_where distinct_map_delete_where
      split: option.splits)

lemma deleteAdmission_ok: "storeOk d \<Longrightarrow> storeOk (deleteAdmission i d)"
  by (rule storeOk_admissions [OF _ _ consistent_deleteAdmission])
    (auto simp: deleteAdmission_def set_delete_where storeOkD(4))

lemma prepareExecutionAdmission_cases:
  assumes "prepareExecutionAdmission prepared now d = Inr (res, d')"
  obtains "d' = d" "\<exists>row. admissionOf (stTurnId prepared) d = Some row \<and> admStartInput row = prepared" "res = prepared"
  | r where "admissionOf (stTurnId prepared) d = None" "r \<in> set (turns d)" "rowId r = stTurnId prepared"
      "threadId r = stThreadId prepared" "turnKind r = KindAgent" "res = prepared" "consistent d'"
      "d' = d\<lparr>admissions := admissions d @
         [\<lparr>admTurnId = stTurnId prepared, admStartInput = prepared, admPreparedAt = now\<rparr>]\<rparr>"
proof -
  let ?new = "\<lparr>admTurnId = stTurnId prepared, admStartInput = prepared, admPreparedAt = now\<rparr>"
  let ?src = "exists_row (\<lambda>r. rowId r = stTurnId prepared \<and> threadId r = stThreadId prepared \<and>
    turnKind r = KindAgent) (turns d)"
  let ?tail = "\<lambda>d'. (case admissionOf (stTurnId prepared) d' of
      None \<Rightarrow> Inl (missing (stTurnId prepared))
    | Some row \<Rightarrow>
        if admStartInput row \<noteq> prepared
        then Inl (RepositoryError (''Turn '' @ stTurnId prepared @ '' already has different prepared execution admission''))
        else Inr (admStartInput row, d'))"
  have unfolded: "bindE (if ?src \<and> admissionOf (stTurnId prepared) d = None
      then enforce (d\<lparr>admissions := admissions d @ [?new]\<rparr>) else Inr d) ?tail = Inr (res, d')"
    using assms by (simp only: prepareExecutionAdmission_def Let_def split: if_splits) simp_all
  have tail: "\<exists>row. admissionOf (stTurnId prepared) d' = Some row \<and> admStartInput row = prepared \<and> res = prepared"
      "d1 = d'" if "?tail d1 = Inr (res, d')" for d1
    using that by (auto split: option.splits if_splits)
  show ?thesis
  proof (cases "?src \<and> admissionOf (stTurnId prepared) d = None")
    case True
    then obtain r where r: "r \<in> set (turns d)" "rowId r = stTurnId prepared"
      "threadId r = stThreadId prepared" "turnKind r = KindAgent" by (auto simp: exists_row_iff)
    from unfolded [unfolded if_P [OF True]] have "consistent (d\<lparr>admissions := admissions d @ [?new]\<rparr>)"
      "?tail (d\<lparr>admissions := admissions d @ [?new]\<rparr>) = Inr (res, d')"
      by (auto simp only: bindE_Inr_iff enforce_Inr)
    note consistent = this(1) and fin = tail [OF this(2)]
    show ?thesis
    proof (rule that(2) [of r])
      show "d' = d\<lparr>admissions := admissions d @ [?new]\<rparr>" "consistent d'" using fin(2) consistent by simp_all
    qed (use r True fin(1) in auto)
  next
    case False
    have "?tail d = Inr (res, d')" using unfolded [unfolded if_not_P [OF False]] by (simp only: bindE.simps)
    note fin = tail [OF this]
    show ?thesis by (rule that(1)) (use fin in auto)
  qed
qed

lemma prepareExecutionAdmission_ok:
  assumes ok: "storeOk d" and run: "prepareExecutionAdmission prepared now d = Inr (res, d')"
  shows "storeOk d'"
  using run
proof (cases rule: prepareExecutionAdmission_cases)
  case 1 with ok show ?thesis by simp
next
  case (2 r)
  then have "turnById (stTurnId prepared) d = Some r" by (simp add: turnById_iff [OF storeOkD(4) [OF ok]])
  with 2 show ?thesis by (intro storeOk_admissions [OF ok 2(8,7)]) auto
qed

lemma attachExecutionLink_cases:
  assumes "attachExecutionLink i link now d = Inr (res, d')"
  obtains row existing old where "row \<in> set (turns d)" "rowId row = i" "turnKind row = KindAgent"
      "decodeAgent row = Inr existing" "executionLink row = Some old"
      "runId old = runId link" "linkTurnId old = linkTurnId link" "linkThreadId old = linkThreadId link"
      "res = existing" "d' = deleteAdmission i d"
  | row adm d1 row' where "row \<in> set (turns d)" "rowId row = i" "turnKind row = KindAgent"
      "executionLink row = None" "admissionOf i d = Some adm"
      "linkTurnId link = stTurnId (admStartInput adm)" "linkThreadId link = stThreadId (admStartInput adm)"
      "updateTurns (\<lambda>r. rowId r = i \<and> turnKind r = KindAgent \<and> executionLink r = None)
         (\<lambda>r. r\<lparr>executionLink := Some link, updatedAt := now\<rparr>) d = Inr d1"
      "turnById i d1 = Some row'" "decodeAgent row' = Inr res" "d' = deleteAdmission i d1"
proof -
  from assms obtain row where b: "agentById i d = Some row"
    by (auto simp: attachExecutionLink_def split: option.splits)
  note row = find_unique [OF b [unfolded agentById_def]]
  from assms b obtain existing where e: "decodeAgent row = Inr existing"
    by (auto simp: attachExecutionLink_def result_simps)
  show ?thesis
  proof (cases "aExecutionLink existing")
    case (Some old)
    then have "executionLink row = Some old" using decodeAgent_Inr(5) [OF e] by simp
    with Some assms b e row that(1) show ?thesis
      by (auto simp: attachExecutionLink_def result_simps split: if_splits)
  next
    case None
    with assms b e obtain adm where adm: "admissionOf i d = Some adm"
      by (auto simp: attachExecutionLink_def result_simps split: option.splits)
    moreover have "executionLink row = None" using decodeAgent_Inr(5) [OF e] None by simp
    ultimately show ?thesis using None assms b e row that(2)
      by (auto simp: attachExecutionLink_def Let_def result_simps split: if_splits option.splits)
  qed
qed

lemma attachExecutionLink_ok:
  assumes ok: "storeOk d" and run: "attachExecutionLink i link now d = Inr (res, d')"
  shows "storeOk d'"
  using run
proof (cases rule: attachExecutionLink_cases)
  case 1 with deleteAdmission_ok [OF ok] show ?thesis by simp
next
  case (2 row adm d1 row')
  have adm: "adm \<in> set (admissions d)" "admTurnId adm = i"
    using 2(5) by (auto simp: admissionOf_def dest: row_by_SomeD)
  have "linksOk d" using baseOkD(2) [OF storeOkD(1) [OF ok]] .
  then obtain r where r: "stTurnId (admStartInput adm) = i" "turnById i d = Some r"
    "threadId r = stThreadId (admStartInput adm)"
    using adm by (auto simp: linksOk_def)
  have same: "x = r" if "x \<in> set (turns d)" "rowId x = i" for x
    using r(2) that by (simp add: turnById_iff [OF storeOkD(4) [OF ok]])
      (metis keys_inj [OF consistentD(1) [OF storeOkD(4) [OF ok]]])
  have "storeOk d1"
  proof (rule storeOk_update [OF ok 2(8)])
    show "linkOk (x\<lparr>executionLink := Some link, updatedAt := now\<rparr>) \<and>
      (executionLink x \<noteq> None \<longrightarrow> executionLink (x\<lparr>executionLink := Some link, updatedAt := now\<rparr>) \<noteq> None)"
      if "x \<in> set (turns d)" "rowId x = i \<and> turnKind x = KindAgent \<and> executionLink x = None" for x
      using same [of x] that r 2(6,7) by (simp add: linkOk_iff)
  qed (use storeOk_claim [OF ok] in \<open>auto simp: keepsKeys_def keepsQueued_def\<close>)
  with deleteAdmission_ok 2(11) show ?thesis by simp
qed

subsection \<open>Steering\<close>

lemma decodeAdmission_Inr [result_simps]:
  "decodeAdmission s = Inr a \<longleftrightarrow> admissionMatchesRow s \<and> a = admission s"
  by (auto simp: decodeAdmission_def)

lemma validateTargetE:
  assumes "validateTarget tgt d = Inr turn"
  obtains row where "row \<in> set (turns d)" "rowId row = linkTurnId tgt" "turnKind row = KindAgent"
    "isActiveStatus (status row)" "executionLink row = Some tgt" "decodeAgent row = Inr turn"
    "aThreadId turn = threadId row"
proof -
  from assms obtain row where row: "find (\<lambda>r. rowId r = linkTurnId tgt \<and> turnKind r = KindAgent \<and>
      status r \<in> set active_statuses) (turns d) = Some row"
    by (auto simp: validateTarget_def split: option.splits)
  with assms obtain t where t: "decodeAgent row = Inr t" "t = turn" "aExecutionLink t = Some tgt"
    by (auto simp: validateTarget_def result_simps split: if_splits)
  from find_unique [OF row] t decodeAgent_Inr(3,5) [OF t(1)] that show ?thesis
    by (auto simp: active_statuses_iff [simplified])
qed

lemma prepareSteeringAdmission_cases:
  assumes "prepareSteeringAdmission tgt inp ids now d = Inr (res, d')"
  obtains s where "requestOf (idempotencyKey inp) d = Some s" "admissionMatchesRow s" "res = admission s"
      "sameAdmission (admission s) tgt inp None" "d' = d"
  | turn where "requestOf (idempotencyKey inp) d = None" "validateTarget tgt d = Inr turn"
      "validateCapacity tgt ids d = Inr ()"
      "res = \<lparr> target = tgt, input = inp, source = None, sourceWithdrawn = None,
               preparedAt = now, outcome = OutPending \<rparr>" "insertAdmission res d = Inr d'"
  using assms
  by (auto simp: prepareSteeringAdmission_def Let_def result_simps split: option.splits if_splits)

lemma prepareSteeringAdmission_ok:
  assumes ok: "storeOk d" and run: "prepareSteeringAdmission tgt inp ids now d = Inr (res, d')"
  shows "storeOk d'"
  using run
proof (cases rule: prepareSteeringAdmission_cases)
  case 1 with ok show ?thesis by simp
next
  case (2 turn)
  from 2(2) obtain row where row: "row \<in> set (turns d)" "rowId row = linkTurnId tgt"
    "isActiveStatus (status row)" "executionLink row = Some tgt" by (rule validateTargetE)
  then have look: "turnById (linkTurnId tgt) d = Some row" by (simp add: turnById_iff [OF storeOkD(4) [OF ok]])
  have d': "d' = d\<lparr>steering := steering d @ [requestRow res]\<rparr>" "consistent d'"
    using 2(5) unfolding insertAdmission_Inr by blast+
  have base: "baseOk d'"
    by (rule insert_request_ok [OF storeOkD(1) [OF ok] d', where tr = row]) (use row look in \<open>auto simp: 2(4)\<close>)
  note drift = insert_request_drift_plain [OF storeOkD(1) [OF ok] d']
  show ?thesis
    by (rule finish_ok [OF base])
      (use drift storeOkD(2) [OF ok] storeOk_drift [OF ok] in \<open>auto simp: 2(4)\<close>)
qed

lemma withdrawSourceE:
  assumes "withdrawSource src tgt inp now d = Inr (res, d')"
  obtains a d1 d2 q where
    "a = \<lparr> target = tgt, input = inp, source = Some src, sourceWithdrawn = Some True,
           preparedAt = now, outcome = OutPending \<rparr>"
    "insertAdmission a d = Inr d1"
    "updateTurns (\<lambda>r. rowId r = aId src) (\<lambda>r. r\<lparr>queueClaimToken := None\<rparr>) d1 = Inr d2"
    "updateQueue (\<lambda>_. True) (aThreadId src) dropQueued d2 = Inr (Some q, d')"
    "res = \<lparr> prepAdmission = a, prepQueue = queueChange q False (Removed (aId src)), prepQueueChanged = True \<rparr>"
proof -
  let ?a = "\<lparr> target = tgt, input = inp, source = Some src, sourceWithdrawn = Some True,
      preparedAt = now, outcome = OutPending \<rparr>"
  note run = assms [unfolded withdrawSource_def Let_def]
  from run obtain d1 where d1: "insertAdmission ?a d = Inr d1"
    by (cases "insertAdmission ?a d") simp_all
  note run = run [unfolded d1 bindE.simps]
  from run obtain d2 where d2: "updateTurns (\<lambda>r. rowId r = aId src) (\<lambda>r. r\<lparr>queueClaimToken := None\<rparr>) d1 = Inr d2"
    by (cases "updateTurns (\<lambda>r. rowId r = aId src) (\<lambda>r. r\<lparr>queueClaimToken := None\<rparr>) d1") simp_all
  note run = run [unfolded d2 bindE.simps]
  from run obtain q where "updateQueue (\<lambda>_. True) (aThreadId src) dropQueued d2 = Inr (Some q, d')"
    "res = \<lparr> prepAdmission = ?a, prepQueue = queueChange q False (Removed (aId src)), prepQueueChanged = True \<rparr>"
    by (auto simp: bindE_Inr_iff split: option.splits)
  with d1 d2 show ?thesis by (rule that [OF refl])
qed

lemma prepareQueuedSteeringAdmission_cases:
  assumes "prepareQueuedSteeringAdmission src tgt inp ids now d = Inr (res, d')"
  obtains "d' = d" "\<not> prepQueueChanged res"
  | turn row sourceTurn where
      "\<And>s. s \<in> set (steering d) \<Longrightarrow> requestId s \<noteq> idempotencyKey inp \<and> sourceTurnId s \<noteq> Some src"
      "validateTarget tgt d = Inr turn" "row \<in> set (turns d)" "rowId row = src" "turnKind row = KindAgent"
      "status row = StQueued" "decodeAgent row = Inr sourceTurn" "threadId row = aThreadId turn"
      "validateCapacity tgt ids d = Inr ()" "withdrawSource sourceTurn tgt inp now d = Inr (res, d')"
proof (cases "filter (\<lambda>s. requestId s = idempotencyKey inp \<or> sourceTurnId s = Some src) (steering d)")
  case (Cons s rest)
  with assms that(1) show ?thesis
    by (auto simp: prepareQueuedSteeringAdmission_def Let_def bindE_Inr_iff preparationOfExisting_def
        split: if_splits option.splits)
next
  case Nil
  then have none: "\<And>s. s \<in> set (steering d) \<Longrightarrow> requestId s \<noteq> idempotencyKey inp \<and> sourceTurnId s \<noteq> Some src"
    by (auto simp: filter_empty_conv)
  let ?src = "\<lambda>r. rowId r = src \<and> turnKind r = KindAgent \<and> status r = StQueued"
  from assms Nil obtain turn where t: "validateTarget tgt d = Inr turn"
    by (auto simp: prepareQueuedSteeringAdmission_def bindE_Inr_iff)
  from assms Nil t obtain row where row: "find ?src (turns d) = Some row"
    by (auto simp: prepareQueuedSteeringAdmission_def split: option.splits)
  from assms Nil t row obtain st where st: "decodeAgent row = Inr st" "aThreadId st = aThreadId turn"
    "validateCapacity tgt ids d = Inr ()" "withdrawSource st tgt inp now d = Inr (res, d')"
    by (auto simp: prepareQueuedSteeringAdmission_def bindE_Inr_iff split: if_splits)
  from find_unique [OF row] st t none decodeAgent_Inr(3) [OF st(1)] that(2) show ?thesis by auto
qed

lemma prepareQueuedSteeringAdmission_ok:
  assumes ok: "storeOk d" and run: "prepareQueuedSteeringAdmission src tgt inp ids now d = Inr (res, d')"
  shows "storeOk d'"
  using run
proof (cases rule: prepareQueuedSteeringAdmission_cases)
  case 1 with ok show ?thesis by simp
next
  case (2 turn row sourceTurn)
  from 2(2) obtain trow where trow: "trow \<in> set (turns d)" "rowId trow = linkTurnId tgt"
    "isActiveStatus (status trow)" "executionLink trow = Some tgt" "aThreadId turn = threadId trow"
    by (rule validateTargetE)
  note sturn = decodeAgent_Inr(2,3) [OF 2(7)]
  have look: "turnById (linkTurnId tgt) d = Some trow" "turnById src d = Some row"
    using trow 2(3,4) by (simp_all add: turnById_iff [OF storeOkD(4) [OF ok]])
  have same_thread: "linkThreadId tgt = threadId row"
    using storeOk_linkOk [OF ok trow(1)] trow 2(8) by (simp add: linkOk_iff)
  from 2(10) obtain a d1 d2 q where a: "a = \<lparr> target = tgt, input = inp, source = Some sourceTurn,
      sourceWithdrawn = Some True, preparedAt = now, outcome = OutPending \<rparr>"
    and ins: "insertAdmission a d = Inr d1"
    and upd: "updateTurns (\<lambda>r. rowId r = aId sourceTurn) (\<lambda>r. r\<lparr>queueClaimToken := None\<rparr>) d1 = Inr d2"
    and drop: "updateQueue (\<lambda>_. True) (aThreadId sourceTurn) dropQueued d2 = Inr (Some q, d')"
    by (rule withdrawSourceE)
  have d1: "d1 = d\<lparr>steering := steering d @ [requestRow a]\<rparr>" "consistent d1"
    using ins unfolding insertAdmission_Inr by blast+
  have base1: "baseOk d1"
    by (rule insert_request_ok [OF storeOkD(1) [OF ok] d1, where tr = trow])
      (use trow look 2(4-6) same_thread sturn in \<open>auto simp: a\<close>)
  have drift1: "drift d1 u = (if u = threadId row then 1 else 0)" for u
    using insert_request_drift(1) [OF storeOkD(1) [OF ok] d1, of sourceTurn row u] look 2(4-6) sturn
      storeOk_drift [OF ok, of u] by (simp add: a)
  let ?P = "\<lambda>r. rowId r = aId sourceTurn" and ?f = "\<lambda>r :: turn_row. r\<lparr>queueClaimToken := None\<rparr>"
  have keys: "keepsKeys ?P ?f" "keepsQueued d1 ?P ?f" by (simp_all add: keepsKeys_def keepsQueued_def)
  have d2: "d2 = d1\<lparr>turns := update_where ?P ?f (turns d1)\<rparr>" "consistent d2"
    using upd by (auto simp: updateTurns_def result_simps)
  have base2: "baseOk d2"
    by (rule baseOk_update_keeping [OF base1 d2 keys]) (use storeOk_linkOk [OF ok] in \<open>auto simp: d1\<close>)
  have drift2: "drift d2 u = (if u = threadId row then 1 else 0)" for u
    using drift_update_keeping [OF d1(2) d2 keys] drift1 by simp
  have claims2: "claimsOk d2"
    unfolding claimsOk_def
  proof (intro allI impI)
    fix i r' assume r': "turnById i d2 = Some r'" "queueClaimToken r' \<noteq> None"
    then have r: "turnById i d = Some r'" "i \<noteq> src"
    proof -
      have "turnById i d2 = map_option (\<lambda>r. if ?P r then ?f r else r) (turnById i d)"
        using turnById_updated [OF keys(1), of i d1] by (simp add: d2(1) [symmetric]) (simp add: d1)
      with r' obtain r0 where r0: "turnById i d = Some r0" "r' = (if ?P r0 then ?f r0 else r0)" by auto
      with r'(2) have "\<not> ?P r0" by auto
      with r0 sturn(1) 2(4) turnById_SomeD [OF r0(1)]
      show "turnById i d = Some r'" "i \<noteq> src" by auto
    qed
    have "hiddenBySteering d2 i = hiddenBySteering d i"
      using r(2) sturn(1) 2(4) by (auto simp: hiddenBySteering_iff d2 d1 requestRow_def a)
    with r r'(2) storeOkD(2) [OF ok]
    show "turnKind r' = KindAgent \<and> status r' = StQueued \<and> \<not> hiddenBySteering d2 i"
      by (auto simp: claimsOk_def)
  qed
  show ?thesis
    by (rule drop_settles [OF base2 claims2 _ drop]) (use drift2 sturn in auto)
qed

lemma acceptSteeringAdmission_cases:
  assumes "acceptSteeringAdmission rid receipt d = Inr (res, d')"
  obtains s where "requestOf rid d = Some s" "admissionMatchesRow s" "res = admission s"
      "outcome (admission s) = OutAccepted receipt" "d' = d"
  | s where "requestOf rid d = Some s" "admissionMatchesRow s" "outcome (admission s) = OutPending"
      "res = (admission s)\<lparr>outcome := OutAccepted receipt\<rparr>" "writeAdmission rid res ObAccepted d = Inr d'"
proof -
  from assms obtain s where s: "requestOf rid d = Some s"
    by (auto simp: acceptSteeringAdmission_def split: option.splits)
  with assms have m: "admissionMatchesRow s"
    by (auto simp: acceptSteeringAdmission_def bindE_Inr_iff decodeAdmission_Inr)
  then have dec: "decodeAdmission s = Inr (admission s)" by (simp add: decodeAdmission_def)
  from assms s m dec that show ?thesis
    by (cases "outcome (admission s)")
      (auto simp: acceptSteeringAdmission_def Let_def bindE_Inr_iff split: if_splits)
qed

lemma acceptSteeringAdmission_ok:
  assumes ok: "storeOk d" and run: "acceptSteeringAdmission rid receipt d = Inr (res, d')"
  shows "storeOk d'"
  using run
proof (cases rule: acceptSteeringAdmission_cases)
  case 1 with ok show ?thesis by simp
next
  case (2 s)
  note w = write_request_ok [OF storeOkD(1) [OF ok] 2(1,3), of "OutAccepted receipt"]
  have wr: "writeAdmission rid ((admission s)\<lparr>outcome := OutAccepted receipt\<rparr>) (outcomeStatus (OutAccepted receipt)) d = Inr d'"
    using 2(4,5) by simp
  have pending: "obStatus s = ObPending" using 2(2,3) by (simp add: admissionMatchesRow_def)
  have "drift d' u = drift d u" for u
    by (rule accept_request_drift [OF storeOkD(1) [OF ok] w(3) [OF wr] w(4) [OF wr] _ w(5) [OF wr]])
      (use requestOf_SomeD [OF 2(1)] pending in auto)
  then show ?thesis
    by (intro finish_ok) (use w(1,2) [OF wr] storeOkD(2) [OF ok] storeOk_drift [OF ok] in auto)
qed

text \<open>
  Rejecting a request: the queue is restored first, then the outcome is written.
\<close>

lemma restoreSource_cases:
  assumes "restoreSource a src d = Inr (res, d')"
  obtains "turnById (aId src) d = None" "res = None" "d' = d"
  | row where "turnById (aId src) d = Some row" "status row \<noteq> StQueued" "res = None" "d' = d"
  | row existing q pos where "turnById (aId src) d = Some row" "decodeAgent row = Inr existing" "status row = StQueued"
      "updateQueue (\<lambda>_. True) (aThreadId src) (addQueued (if sourceWithdrawn a = Some True then 1 else 0)) d = Inr (Some q, d')"
      "res = Some (queueChange q (sourceWithdrawn a = Some True \<and> queuedCount q = 1)
         (if sourceWithdrawn a = Some True then Added existing pos else Updated existing))"
      "pos = positionOf (\<lambda>r. rowId r = aId src) (selectOrdered (\<lambda>r. threadId r = aThreadId src \<and> turnKind r = KindAgent \<and>
                  status r = StQueued \<and> (rowId r = aId src \<or> \<not> hiddenBySteering d (rowId r))) d)"
proof (cases "turnById (aId src) d")
  case None
  note run = assms [unfolded restoreSource_def None option.case]
  show ?thesis by (rule that(1) [OF None]) (use run in simp_all)
next
  case (Some row)
  note run = assms [unfolded restoreSource_def Some option.case]
  obtain existing where e: "decodeAgent row = Inr existing"
    by (cases "decodeAgent row") (use run in simp_all)
  show ?thesis
  proof (cases "status row = StQueued")
    case False
    then have idle: "aStatus existing \<noteq> StQueued" using decodeAgent_Inr(4) [OF e] by simp
    note run = assms [unfolded restoreSource_def Some option.case e bindE.simps Let_def if_P [OF idle]]
    show ?thesis by (rule that(2) [OF Some False]) (use run in simp_all)
  next
    case True
    then have queued: "\<not> aStatus existing \<noteq> StQueued" using decodeAgent_Inr(4) [OF e] by simp
    note run = assms [unfolded restoreSource_def Some option.case e bindE.simps Let_def if_not_P [OF queued]]
    show ?thesis
    proof (cases "updateQueue (\<lambda>_. True) (aThreadId src)
        (addQueued (if sourceWithdrawn a = Some True then 1 else 0)) d")
      case (Inl e)
      with run show ?thesis by simp
    next
      case (Inr qd)
      obtain q1 d1 where qd: "qd = (q1, d1)" by (cases qd)
      note run = run [unfolded Inr qd bindE.simps prod.case]
      then obtain q where q: "q1 = Some q" by (cases q1) simp_all
      note run = run [unfolded q option.case sum.inject prod.inject]
      show ?thesis
        by (rule that(3) [OF Some e True _ _ refl], unfold Inr qd q)
          (simp_all only: conjunct1 [OF run, symmetric] conjunct2 [OF run])
    qed
  qed
qed

lemma rejectSteeringAdmission_cases:
  assumes "rejectSteeringAdmission rid failure d = Inr (res, d')"
  obtains s queue where "requestOf rid d = Some s" "admissionMatchesRow s" "res = admission s"
      "outcome (admission s) = OutRejected failure queue" "d' = d"
  | s queue d1 where "requestOf rid d = Some s" "admissionMatchesRow s" "outcome (admission s) = OutPending"
      "(case source (admission s) of None \<Rightarrow> Inr (None, d) | Some src \<Rightarrow> restoreSource (admission s) src d) = Inr (queue, d1)"
      "encodableChange queue" "res = (admission s)\<lparr>outcome := OutRejected failure queue\<rparr>"
      "writeAdmission rid res ObRejected d1 = Inr d'"
proof -
  from assms obtain s where s: "requestOf rid d = Some s"
    by (auto simp: rejectSteeringAdmission_def split: option.splits)
  with assms have m: "admissionMatchesRow s"
    by (auto simp: rejectSteeringAdmission_def bindE_Inr_iff decodeAdmission_Inr)
  then have dec: "decodeAdmission s = Inr (admission s)" by (simp add: decodeAdmission_def)
  note run = assms [unfolded rejectSteeringAdmission_def s option.case dec bindE.simps]
  show ?thesis
  proof (cases "outcome (admission s)")
    case OutPending
    from run [unfolded OutPending steering_outcome.case Let_def] that(2) [OF s m OutPending] show ?thesis
      by (auto simp: bindE_Inr_iff split: if_splits)
  next
    case (OutAccepted r)
    with run show ?thesis by simp
  next
    case (OutRejected f queue)
    with run that(1) s m show ?thesis by (auto split: if_splits)
  qed
qed

lemma rejectSteeringAdmission_ok:
  assumes ok: "storeOk d" and run: "rejectSteeringAdmission rid failure d = Inr (res, d')"
  shows "storeOk d'"
  using run
proof (cases rule: rejectSteeringAdmission_cases)
  case 1 with ok show ?thesis by simp
next
  case (2 s queue d1)
  note s_in = requestOf_SomeD [OF 2(1)]
  have pending: "obStatus s = ObPending" using 2(2,3) by (simp add: admissionMatchesRow_def)
  have src_row: "sourceTurnId s = map_option aId (source (admission s))"
    and wd: "withdrawnColumn s = 1 \<longleftrightarrow> sourceWithdrawn (admission s) = Some True"
    using 2(2) by (simp_all add: admissionMatchesRow_def withdrawnNumber_def)
  have wr: "writeAdmission rid ((admission s)\<lparr>outcome := OutRejected failure queue\<rparr>)
      (outcomeStatus (OutRejected failure queue)) d1 = Inr d'"
    using 2(6,7) by simp
  have mid: "baseOk d1 \<and> claimsOk d1 \<and> steering d1 = steering d \<and> (\<forall>i. turnById i d1 = turnById i d) \<and>
    (\<forall>u. drift d1 u = (if sourceTurnId s \<noteq> None \<and> withdrawnColumn s = 1 \<and> u = obThreadId s then 1 else 0))"
  proof (cases "source (admission s)")
    case None
    with 2(4) src_row ok storeOk_drift [OF ok] show ?thesis by (simp add: storeOk_def)
  next
    case (Some src)
    then have src: "sourceTurnId s = Some (aId src)" using src_row by simp
    obtain row where row: "turnById (aId src) d = Some row" "status row = StQueued" "aThreadId src = obThreadId s"
      using source_row [OF storeOkD(1) [OF ok] conjunct1 [OF s_in] src] Some pending by auto
    from 2(4) Some have "restoreSource (admission s) src d = Inr (queue, d1)" by simp
    then obtain q where upd: "updateQueue (\<lambda>_. True) (aThreadId src)
        (addQueued (if sourceWithdrawn (admission s) = Some True then 1 else 0)) d = Inr (Some q, d1)"
      by (cases rule: restoreSource_cases) (use row in auto)
    then obtain q0 where q0: "queueOf (aThreadId src) d = Some q0" and d1: "d1 = d\<lparr>queues :=
        update_where (\<lambda>q. qThread q = aThreadId src)
          (addQueued (if sourceWithdrawn (admission s) = Some True then 1 else 0)) (queues d)\<rparr>" "consistent d1"
      by (rule updateQueue_SomeE) simp_all
    note step = queue_update_ok [OF storeOkD(1) [OF ok] q0 qThread_updates(2) d1]
    from step storeOkD(2) [OF ok] storeOk_drift [OF ok] row(3) src wd show ?thesis
      by (simp add: addQueued_def) (simp add: d1)
  qed
  have s1: "requestOf rid d1 = Some s" using 2(1) mid by (simp add: requestOf_def)
  note w = write_request_ok [OF conjunct1 [OF mid] s1 2(3) wr]
  let ?X = "{s\<lparr>admission := (admission s)\<lparr>outcome := OutRejected failure queue\<rparr>, obStatus := ObRejected\<rparr>}"
  have mem: "x \<in> set (steering d') \<longleftrightarrow> (x \<in> set (steering d1) \<and> x \<noteq> s) \<or> x \<in> ?X" for x
    using w(5) [of x] by simp
  have s_in1: "s \<in> set (steering d1)" using s_in mid by simp
  note retire = retire_request_drift [OF conjunct1 [OF mid] w(3,4) s_in1 mem]
  have "drift d' u = 0" for u
  proof (cases "sourceTurnId s")
    case None
    with retire(1) [of u] mid show ?thesis by simp
  next
    case (Some i)
    obtain row where row: "turnById i d = Some row" "threadId row = obThreadId s"
      using source_row [OF storeOkD(1) [OF ok] conjunct1 [OF s_in] Some] by auto
    with retire(2) [of i row u] Some pending mid show ?thesis by simp
  qed
  then show ?thesis using w(1,2) mid by (intro finish_ok) auto
qed

lemma completeSteeringAdmission_cases:
  assumes "completeSteeringAdmission rid tgt receipt d = Inr (res, d')"
  obtains "requestOf rid d = None" "res = None" "d' = d"
  | s where "requestOf rid d = Some s" "admissionMatchesRow s" "outcome (admission s) = OutAccepted receipt"
      "target (admission s) = tgt" "d' = deleteRequests (\<lambda>s. requestId s = rid) d" "res = None"
      "\<And>src. source (admission s) = Some src \<Longrightarrow>
         \<not> exists_row (\<lambda>r. rowId r = aId src \<and> turnKind r = KindAgent \<and> status r = StQueued) (turns d)"
  | s src d2 where "requestOf rid d = Some s" "admissionMatchesRow s" "outcome (admission s) = OutAccepted receipt"
      "target (admission s) = tgt" "source (admission s) = Some src"
      "exists_row (\<lambda>r. rowId r = aId src \<and> turnKind r = KindAgent \<and> status r = StQueued) (turns d)"
      "deleteTurns (\<lambda>r. rowId r = aId src \<and> turnKind r = KindAgent \<and> status r = StQueued)
         (deleteRequests (\<lambda>s. requestId s = rid) d) = Inr d2"
      "(sourceWithdrawn (admission s) = Some True \<and> res = None \<and> d' = d2) \<or>
       (sourceWithdrawn (admission s) \<noteq> Some True \<and>
        (\<exists>q. updateQueue (\<lambda>_. True) (aThreadId src) dropQueued d2 = Inr (Some q, d') \<and>
             res = Some (queueChange q False (Removed (aId src)))))"
proof (cases "requestOf rid d")
  case None
  note run = assms [unfolded completeSteeringAdmission_def None option.case]
  show ?thesis by (rule that(1) [OF None]) (use run in simp_all)
next
  case (Some s)
  note run = assms [unfolded completeSteeringAdmission_def Some option.case]
  have m: "admissionMatchesRow s"
    using run by (simp add: decodeAdmission_def split: if_splits)
  then have dec: "decodeAdmission s = Inr (admission s)" by (simp add: decodeAdmission_def)
  note run = run [unfolded dec bindE.simps]
  from run have agree: "\<not> (outcome (admission s) \<noteq> OutAccepted receipt \<or> target (admission s) \<noteq> tgt)"
    by (simp split: if_splits)
  note run = run [unfolded if_not_P [OF agree] Let_def]
  have frame: "turns (deleteRequests (\<lambda>s. requestId s = rid) d) = turns d" by (simp add: deleteRequests_def)
  show ?thesis
  proof (cases "source (admission s)")
    case None
    note run = run [unfolded None option.case]
    show ?thesis by (rule that(2) [OF Some m]) (use agree run None in simp_all)
  next
    case src: (Some src)
    note run = run [unfolded src option.case frame]
    let ?hit = "\<lambda>r. rowId r = aId src \<and> turnKind r = KindAgent \<and> status r = StQueued"
    show ?thesis
    proof (cases "exists_row ?hit (turns d)")
      case False
      note run = run [unfolded if_P [OF False]]
      show ?thesis by (rule that(2) [OF Some m]) (use agree run src False in simp_all)
    next
      case True
      then have hit: "\<not> \<not> exists_row ?hit (turns d)" by simp
      note run = run [unfolded if_not_P [OF hit]]
      obtain d2 where d2: "deleteTurns ?hit (deleteRequests (\<lambda>s. requestId s = rid) d) = Inr d2"
        by (cases "deleteTurns ?hit (deleteRequests (\<lambda>s. requestId s = rid) d)") (use run in simp_all)
      note run = run [unfolded d2 bindE.simps]
      show ?thesis
        by (rule that(3) [OF Some m _ _ src True d2])
          (use agree run in \<open>auto simp: bindE_Inr_iff split: if_splits option.splits\<close>)
    qed
  qed
qed

lemma completeSteeringAdmission_ok:
  assumes ok: "storeOk d" and run: "completeSteeringAdmission rid tgt receipt d = Inr (res, d')"
  shows "storeOk d'"
  using run
proof (cases rule: completeSteeringAdmission_cases)
  case 1 with ok show ?thesis by simp
next
  case (2 s)
  note s_in = requestOf_SomeD [OF 2(1)]
  have live: "obStatus s \<noteq> ObRejected" using 2(2,3) by (simp add: admissionMatchesRow_def)
  have none: "sourceTurnId s = None"
  proof (rule ccontr)
    assume "sourceTurnId s \<noteq> None"
    then obtain i where i: "sourceTurnId s = Some i" by blast
    then obtain r a where "turnById i d = Some r" "source (admission s) = Some a" "aId a = i"
      "turnKind r = KindAgent" "status r = StQueued"
      using source_row [OF storeOkD(1) [OF ok] conjunct1 [OF s_in] i] live by metis
    with 2(7) turnById_SomeD [of i d r] show False by (auto simp: exists_row_iff)
  qed
  note del = delete_request_ok [OF storeOkD(1) [OF ok] 2(5)]
  have mem: "x \<in> set (steering d') \<longleftrightarrow> (x \<in> set (steering d) \<and> x \<noteq> s) \<or> x \<in> {}" for x
    using del(4) [of x] request_only [OF storeOkD(4) [OF ok] 2(1)] by auto
  have "drift d' u = drift d u" for u
    using retire_request_drift(1) [OF storeOkD(1) [OF ok] del(5,3) conjunct1 [OF s_in] mem] none by simp
  then show ?thesis using del(1,2) storeOkD(2) [OF ok] storeOk_drift [OF ok] by (intro finish_ok) auto
next
  case (3 s src d2)
  let ?d1 = "deleteRequests (\<lambda>s. requestId s = rid) d"
  note s_in = requestOf_SomeD [OF 3(1)]
  have live: "obStatus s \<noteq> ObRejected" using 3(2,3) by (simp add: admissionMatchesRow_def)
  have src: "sourceTurnId s = Some (aId src)" and wd: "withdrawnColumn s = 1 \<longleftrightarrow> sourceWithdrawn (admission s) = Some True"
    using 3(2,5) by (simp_all add: admissionMatchesRow_def withdrawnNumber_def)
  obtain row where row: "turnById (aId src) d = Some row" "turnKind row = KindAgent" "threadId row = obThreadId s"
    "aThreadId src = obThreadId s" "status row = StQueued"
    using source_row [OF storeOkD(1) [OF ok] conjunct1 [OF s_in] src] 3(5) live by auto
  note del = delete_request_ok [where P = "\<lambda>s. requestId s = rid", OF storeOkD(1) [OF ok] refl]
  have mem: "x \<in> set (steering ?d1) \<longleftrightarrow> (x \<in> set (steering d) \<and> x \<noteq> s) \<or> x \<in> {}" for x
    using del(4) [of x] request_only [OF storeOkD(4) [OF ok] 3(1)] by auto
  note retire = retire_request_drift(2) [OF storeOkD(1) [OF ok] del(5,3) conjunct1 [OF s_in] mem _ live src row(1)]
  have drift1: "drift ?d1 u = (if u = threadId row \<and> sourceWithdrawn (admission s) = Some True then -1 else 0)" for u
    using retire [of u] storeOk_drift [OF ok, of u] wd by simp
  have row1: "turnById (aId src) ?d1 = Some row" using row(1) by (simp add: deleteRequests_def)
  have counted: "countedRow ?d1 row"
    using retire row turnById_SomeD [OF row(1)] by (simp add: countedRow_def)
  have hit: "rowId row = aId src \<and> turnKind row = KindAgent \<and> status row = StQueued"
    using row turnById_SomeD [OF row(1)] by simp
  note gone = delete_turn_ok [OF del(1) 3(7) row1 hit row(5)]
  have drift2: "drift d2 u = (if u = threadId row \<and> sourceWithdrawn (admission s) \<noteq> Some True then 1 else 0)" for u
    using gone(3) [of u] drift1 [of u] counted by auto
  have claims: "claimsOk d2" using gone(2) del(2) storeOkD(2) [OF ok] by blast
  from 3(8) show ?thesis
  proof
    assume "sourceWithdrawn (admission s) = Some True \<and> res = None \<and> d' = d2"
    with gone(1) claims drift2 show ?thesis by (intro finish_ok) auto
  next
    assume kept: "sourceWithdrawn (admission s) \<noteq> Some True \<and>
      (\<exists>q. updateQueue (\<lambda>_. True) (aThreadId src) dropQueued d2 = Inr (Some q, d') \<and>
           res = Some (queueChange q False (Removed (aId src))))"
    then obtain q where "updateQueue (\<lambda>_. True) (aThreadId src) dropQueued d2 = Inr (Some q, d')" by blast
    with kept show ?thesis
      by (intro drop_settles [OF gone(1) claims]) (use drift2 row(3,4) in auto)
  qed
qed

lemma completeRejectedSteeringAdmission_idle:
  assumes run: "completeRejectedSteeringAdmission rid d = Inr (res, d')"
    and none: "\<not> exists_row (\<lambda>s. requestId s = rid \<and> obStatus s = ObRejected) (steering d)"
  shows "d' = d"
proof (cases "requestOf rid d")
  case None
  with run none show ?thesis by (simp add: completeRejectedSteeringAdmission_def)
next
  case (Some s)
  with run none show ?thesis
    by (cases "outcome (admission s)")
      (auto simp: completeRejectedSteeringAdmission_def decodeAdmission_def split: if_splits)
qed

lemma completeRejectedSteeringAdmission_ok:
  assumes ok: "storeOk d" and run: "completeRejectedSteeringAdmission rid d = Inr (res, d')"
  shows "storeOk d'"
proof (cases "exists_row (\<lambda>s. requestId s = rid \<and> obStatus s = ObRejected) (steering d)")
  case False
  with completeRejectedSteeringAdmission_idle [OF run] ok show ?thesis by simp
next
  case True
  then obtain s where s: "s \<in> set (steering d)" "requestId s = rid" "obStatus s = ObRejected"
    by (auto simp: exists_row_iff)
  have d': "d' = deleteRequests (\<lambda>s. requestId s = rid \<and> obStatus s = ObRejected) d"
    using run True by (simp add: completeRejectedSteeringAdmission_def)
  note del = delete_request_ok [OF storeOkD(1) [OF ok] d']
  have mem: "x \<in> set (steering d') \<longleftrightarrow> (x \<in> set (steering d) \<and> x \<noteq> s) \<or> x \<in> {}" for x
    using del(4) [of x] s keys_inj [OF consistentD(5) [OF storeOkD(4) [OF ok]] _ s(1), of x] by auto
  have "drift d' u = drift d u" for u
    using retire_request_drift(1) [OF storeOkD(1) [OF ok] del(5,3) s(1) mem] s by simp
  then show ?thesis using del(1,2) storeOkD(2) [OF ok] storeOk_drift [OF ok] by (intro finish_ok) auto
qed

subsection \<open>Recorded shells\<close>

lemma insertShell_ok:
  assumes ok: "storeOk d"
  shows "storeOk (snd (insertShell accepts complaint s d))"
proof (cases "insertTurn (shellRow s) d")
  case (Inr rd)
  obtain r d1 where rd: "rd = (r, d1)" by (cases rd)
  have row: "linkOk (shellRow s)" "queueClaimToken (shellRow s) = None" "turnKind (shellRow s) = KindShell"
    by (simp_all add: shellRow_def Let_def linkOk_def)
  have r: "r = shellRow s" and d1: "d1 = d\<lparr>turns := turns d @ [r]\<rparr>" "consistent d1"
    and new: "turnById (rowId r) d = None"
    by (rule insertTurnE [OF Inr [unfolded rd]], simp add: row)+
  note step = insert_turn_ok [OF storeOkD(1) [OF ok] d1 new row(1,2) [folded r]]
  have "storeOk d1"
    by (rule finish_ok) (use step storeOkD(2) [OF ok] storeOk_drift [OF ok] row(3) in \<open>auto simp: r\<close>)
  then show ?thesis by (simp add: insertShell_def Inr rd)
qed (simp add: insertShell_def ok)

lemma settleRecordedShell_db:
  "snd (settleRecordedShell expected s result d) =
    (case updateTurns (settleMatches expected)
        (\<lambda>r. r\<lparr>status := sStatus s, updatedAt := sUpdatedAt s, shellResultText := Some (resText result),
                shellResultTruncated := Some (if resTruncated result then 1 else 0),
                shellResultExitCode := resExitCode result\<rparr>) d of Inl e \<Rightarrow> d | Inr d' \<Rightarrow> d')"
  by (auto simp: settleRecordedShell_def split: sum.splits option.splits)

lemma settleRecordedShell_ok:
  assumes ok: "storeOk d" and st: "isTerminalStatus (sStatus s)"
  shows "storeOk (snd (settleRecordedShell expected s result d))"
proof (cases "updateTurns (settleMatches expected)
        (\<lambda>r. r\<lparr>status := sStatus s, updatedAt := sUpdatedAt s, shellResultText := Some (resText result),
                shellResultTruncated := Some (if resTruncated result then 1 else 0),
                shellResultExitCode := resExitCode result\<rparr>) d")
  case (Inr d')
  have "storeOk d'"
    by (rule storeOk_update [OF ok Inr])
      (use st storeOk_linkOk [OF ok] storeOk_claim(1) [OF ok]
        in \<open>fastforce simp: keepsKeys_def keepsQueued_def settleMatches_def linkOk_iff\<close>)+
  then show ?thesis by (simp add: settleRecordedShell_db Inr)
qed (simp add: settleRecordedShell_db ok)

section \<open>Every operation\<close>

lemma dbOf_Inr: "dbOf m = Inr d' \<longleftrightarrow> (\<exists>res. m = Inr (res, d'))"
  by (cases m) (auto simp: dbOf_def)

lemmas operation_ok =
  createForSubmission_ok copy_ok claimNextQueued_ok finishQueuedClaim_ok releaseQueuedClaim_ok
  resetQueueClaims_ok editQueued_ok dequeue_ok requeueAccepted_ok setStatus_ok startAccepted_ok
  cancelUnlinked_ok prepareExecutionAdmission_ok attachExecutionLink_ok prepareSteeringAdmission_ok
  prepareQueuedSteeringAdmission_ok acceptSteeringAdmission_ok rejectSteeringAdmission_ok
  completeSteeringAdmission_ok completeRejectedSteeringAdmission_ok

lemma stepStore_ok:
  assumes ok: "storeOk d" and caller: "callerOk opn d" and run: "stepStore opn d = Inr d'"
  shows "storeOk d'"
proof (cases opn)
  case (OpCopy turn capacity)
  with run obtain res where "copy turn capacity d = Inr (res, d')" by (auto simp: dbOf_Inr)
  with OpCopy caller show ?thesis by (auto intro!: copy_ok [OF ok])
next
  case (OpFinishQueuedClaim c st now)
  with run obtain res where "finishQueuedClaim c st now d = Inr (res, d')" by (auto simp: dbOf_Inr)
  moreover have "st \<in> {StRunning, StFailed}" using caller OpFinishQueuedClaim by simp
  ultimately show ?thesis by (rule finishQueuedClaim_ok [OF ok])
next
  case (OpRequeueAccepted i capacity now)
  with run obtain res where "requeueAccepted i capacity now d = Inr (res, d')" by (auto simp: dbOf_Inr)
  with OpRequeueAccepted caller show ?thesis by (auto intro!: requeueAccepted_ok [OF ok])
qed (use run caller in \<open>auto simp: dbOf_Inr createRecordedShell_def copyRecordedShell_def
    intro: operation_ok [OF ok] insertShell_ok [OF ok] settleRecordedShell_ok [OF ok]\<close>)

interpretation turnStore: fallible_store stepStore callerOk storeOk
  by unfold_locales (rule stepStore_ok)

section \<open>Reachable stores\<close>

definition emptyStore :: "thread_id list \<Rightarrow> thread_id list \<Rightarrow> db" where
  "emptyStore ts deleting = \<lparr> threads = ts, deletionOutbox = deleting, turns = [], queues = [],
     admissions = [], steering = [] \<rparr>"

inductive storeReachable :: "db \<Rightarrow> bool" where
  start: "storeReachable (emptyStore ts deleting)"
| step: "storeReachable d \<Longrightarrow> callerOk opn d \<Longrightarrow> stepStore opn d = Inr d' \<Longrightarrow> storeReachable d'"

lemma storeOk_empty: "storeOk (emptyStore ts deleting)"
  by (simp add: storeOk_def baseOk_def consistent_def turnsConsistent_def queuesConsistent_def
      admissionsConsistent_def steeringConsistent_def linksOk_def requestsOk_def claimsOk_def countsOk_def
      drift_def recordedCount_def visibleCount_def count_where_Nil queueOf_def turnById_def row_by_def
      emptyStore_def)

lemma storeReachable_ok: "storeReachable d \<Longrightarrow> storeOk d"
  by (induction rule: storeReachable.induct) (auto intro: storeOk_empty stepStore_ok)

lemma runOps_reachable:
  assumes "storeReachable d" "allAllowed callerOk stepStore ops d"
  shows "storeReachable (runOps stepStore ops d)"
  using assms
  by (induction ops arbitrary: d) (auto simp: settle_def intro: storeReachable.step split: sum.splits)

end
