(* ===== verification/Turn_Transitions.thy ===== *)
theory Turn_Transitions
  imports Turn_Store
begin

text \<open>
  The life of a turn: how the status of a stored turn may change from one transaction to the
  next, and which turns may disappear.
\<close>

section \<open>The state machine of a turn\<close>

inductive statusStep :: "status \<Rightarrow> status \<Rightarrow> bool" where
  stay: "statusStep s s"
| claim_finished: "s' \<in> {StRunning, StFailed} \<Longrightarrow> statusStep StQueued s'"
| requeued: "statusStep StAccepted StQueued"
| moved: "isActiveStatus s \<Longrightarrow> s' \<noteq> StQueued \<Longrightarrow> statusStep s s'"

inductive_simps statusStep_simps: "statusStep s s'"
inductive_cases statusStep_queuedE: "statusStep StQueued s'"

lemma statusStep_terminal: "statusStep s s' \<Longrightarrow> isTerminalStatus s \<Longrightarrow> s' = s"
  by (auto simp: statusStep_simps isActiveStatus_def)

text \<open>
  A row of the new store descends from the row of the same turn: the identity of the turn,
  its thread, kind, creation time, author and lineage stay, and its link is never removed.
\<close>

definition descends :: "turn_row \<Rightarrow> turn_row \<Rightarrow> bool" where
  "descends r r' \<longleftrightarrow> rowId r' = rowId r \<and> threadId r' = threadId r \<and> turnKind r' = turnKind r \<and>
     createdAt r' = createdAt r \<and> author r' = author r \<and> lineage r' = lineage r \<and>
     statusStep (status r) (status r') \<and> (\<forall>l. executionLink r = Some l \<longrightarrow> executionLink r' = Some l)"

definition evolves :: "db \<Rightarrow> db \<Rightarrow> bool" where
  "evolves d d' \<longleftrightarrow> (\<forall>i r. turnById i d = Some r \<longrightarrow>
     (case turnById i d' of
        None \<Rightarrow> turnKind r = KindAgent \<and> status r = StQueued
      | Some r' \<Rightarrow> descends r r'))"

lemma descends_refl [simp]: "descends r r"
  by (simp add: descends_def stay)

lemma evolves_same_turns: "turns d' = turns d \<Longrightarrow> evolves d d'"
  by (simp add: evolves_def turnById_def split: option.splits)

lemma evolves_update:
  assumes "updateTurns P f d = Inr d'" and "turns d'' = turns d'"
    and "\<And>r. r \<in> set (turns d) \<Longrightarrow> P r \<Longrightarrow> descends r (f r)" and "keepsKeys P f"
  shows "evolves d d''"
proof -
  have d': "turns d'' = update_where P f (turns d)"
    using assms(1,2) by (auto simp: updateTurns_def result_simps)
  have "turnById i d'' = map_option (\<lambda>r. if P r then f r else r) (turnById i d)" for i
    using turnById_updated [OF assms(4), of i d] by (simp add: turnById_def d')
  with assms(3) show ?thesis
    by (auto simp: evolves_def dest: turnById_SomeD)
qed

lemma evolves_insert: "turns d' = turns d @ [r] \<Longrightarrow> evolves d d'"
  by (simp add: evolves_def turnById_def row_by_append)

lemma evolves_delete:
  assumes "consistent d" "deleteTurns P d = Inr d'" "turns d'' = turns d'"
    and "\<And>r. P r \<Longrightarrow> turnKind r = KindAgent \<and> status r = StQueued"
  shows "evolves d d''"
proof -
  have "turns d'' = delete_where P (turns d)"
    using assms(2,3) by (auto simp: deleteTurns_def Let_def result_simps)
  then have "turnById i d'' = (case turnById i d of None \<Rightarrow> None | Some r \<Rightarrow> if P r then None else Some r)" for i
    by (simp add: turnById_def row_by_delete_where [OF consistentD(1) [OF assms(1)]])
  with assms(4) show ?thesis by (simp add: evolves_def)
qed

lemma turns_updateQueue: "updateQueue P t f d = Inr (q, d') \<Longrightarrow> turns d' = turns d"
  by (auto simp: updateQueue_def Let_def result_simps split: if_splits)

lemma turns_reserveUpdate: "reserveUpdate t c d = Inr (q, d') \<Longrightarrow> turns d' = turns d"
  by (erule reserveUpdateE) simp

lemma turns_insertQueueIfMissing: "insertQueueIfMissing t d = Inr d' \<Longrightarrow> turns d' = turns d"
  by (auto simp: insertQueueIfMissing_def result_simps split: if_splits)

lemma turns_reserveQueueEntry: "reserveQueueEntry t c d = Inr (q, d') \<Longrightarrow> turns d' = turns d"
  by (erule reserveQueueEntryE) (simp add: turns_insertQueueIfMissing turns_reserveUpdate)

lemma turns_deletions [simp]:
  "turns (deleteRequests P d) = turns d" "turns (deleteAdmission i d) = turns d"
  by (simp_all add: deleteRequests_def deleteAdmission_def)

lemma turns_writeAdmission: "writeAdmission rid a st d = Inr d' \<Longrightarrow> turns d' = turns d"
  by (auto simp: writeAdmission_def result_simps)

lemma turns_restoreSource: "restoreSource a src d = Inr (res, d') \<Longrightarrow> turns d' = turns d"
  by (erule restoreSource_cases) (simp_all add: turns_updateQueue)

lemma turns_insertAdmission: "insertAdmission a d = Inr d' \<Longrightarrow> turns d' = turns d"
  by (auto simp: insertAdmission_Inr)

lemmas turns_frames = turns_updateQueue turns_reserveUpdate turns_insertQueueIfMissing
  turns_reserveQueueEntry turns_writeAdmission turns_restoreSource turns_insertAdmission

section \<open>Every operation respects it\<close>

lemma insertTurn_turns:
  "insertTurn r d = Inr (r', d') \<Longrightarrow> turns d' = turns d @ [r']"
  by (erule insertTurnE) simp

lemma createForSubmission_evolves: "createForSubmission inp d = Inr (res, d') \<Longrightarrow> evolves d d'"
  by (erule createForSubmission_cases)
    (auto dest!: insertTurn_turns turns_reserveQueueEntry intro: evolves_insert)

lemma copy_evolves: "copy turn capacity d = Inr (res, d') \<Longrightarrow> evolves d d'"
  by (auto simp: copy_def result_simps dest!: insertTurn_turns turns_reserveQueueEntry
      intro: evolves_insert split: if_splits)

lemma claimNextQueued_evolves:
  assumes "claimNextQueued t now r1 r2 d = Inr (res, d')"
  shows "evolves d d'"
  using assms
proof (cases rule: claimNextQueued_cases)
  case (2 nx row turn)
  then show ?thesis by (intro evolves_update [OF 2(5) refl]) (auto simp: descends_def keepsKeys_def stay)
qed (simp add: evolves_same_turns)

lemma finishQueuedClaim_evolves:
  assumes "finishQueuedClaim c st now d = Inr (res, d')" "st \<in> {StRunning, StFailed}"
  shows "evolves d d'"
  using assms(1)
proof (cases rule: finishQueuedClaim_cases)
  case (2 row row' turn d1 q)
  with assms(2) show ?thesis
    by (intro evolves_update [OF 2(3) turns_updateQueue [OF 2(6)]])
      (auto simp: descends_def keepsKeys_def claimMatches_def claim_finished)
qed (simp add: evolves_same_turns)

lemma releaseQueuedClaim_evolves: "releaseQueuedClaim c d = Inr (res, d') \<Longrightarrow> evolves d d'"
  by (auto simp: releaseQueuedClaim_def result_simps
      intro!: evolves_update [OF _ refl] simp: descends_def keepsKeys_def stay)

lemma resetQueueClaims_evolves: "resetQueueClaims d = Inr (res, d') \<Longrightarrow> evolves d d'"
  by (auto simp: resetQueueClaims_def result_simps
      intro!: evolves_update [OF _ refl] simp: descends_def keepsKeys_def stay)

lemma editQueued_evolves: "editQueued i text now d = Inr (res, d') \<Longrightarrow> evolves d d'"
  by (erule editQueued_cases)
    (rule evolves_update, assumption, erule turns_updateQueue, auto simp: descends_def keepsKeys_def stay)

lemma dequeue_evolves:
  assumes "consistent d" "dequeue i d = Inr (res, d')"
  shows "evolves d d'"
  using assms(2)
  by (cases rule: dequeue_cases)
    (rule evolves_delete [OF assms(1)], assumption, erule turns_updateQueue, simp add: eligibleQueued_def)

lemma requeueAccepted_evolves:
  assumes "requeueAccepted i capacity now d = Inr (res, d')"
  shows "evolves d d'"
  using assms
proof (cases rule: requeueAccepted_cases)
  case (1 row turn d1 q d2 row' turn')
  have "turns d2 = turns d" using turns_frames(2) [OF 1(8)] turns_frames(3) [OF 1(7)] by simp
  moreover have "evolves d2 d'"
    by (intro evolves_update [OF 1(9) refl]) (auto simp: descends_def keepsKeys_def requeued)
  ultimately show ?thesis by (simp add: evolves_def turnById_def)
qed

lemma setStatus_evolves:
  assumes "consistent d" "setStatus i st now d = Inr (res, d')"
  shows "evolves d d'"
  using assms(2)
proof (cases rule: setStatus_cases)
  case (1 before existing)
  have "isActiveStatus (status r)" if "r \<in> set (turns d)" "rowId r = i" "status r \<notin> set terminal_statuses" for r
  proof -
    have "r = before" using keys_inj [OF consistentD(1) [OF assms(1)] that(1) 1(2)] that(2) 1(3) by simp
    with 1(6) that(3) show ?thesis unfolding terminal_statuses_iff isActiveStatus_def by simp
  qed
  then show ?thesis
    by (intro evolves_update [OF 1(7) refl]) (use 1(1) in \<open>auto simp: descends_def keepsKeys_def moved\<close>)
qed

lemma startAccepted_evolves: "startAccepted i now d = Inr (res, d') \<Longrightarrow> evolves d d'"
  by (auto simp: startAccepted_def Let_def result_simps
      intro!: evolves_update [OF _ refl] simp: descends_def keepsKeys_def moved)

lemma cancelUnlinked_evolves: "cancelUnlinked i now d = Inr (res, d') \<Longrightarrow> evolves d d'"
  by (auto simp: cancelUnlinked_def Let_def result_simps
      intro!: evolves_update [OF _ refl] simp: descends_def keepsKeys_def moved)

lemma prepareExecutionAdmission_evolves: "prepareExecutionAdmission inp now d = Inr (res, d') \<Longrightarrow> evolves d d'"
  by (erule prepareExecutionAdmission_cases) (simp_all add: evolves_same_turns)

lemma attachExecutionLink_evolves:
  assumes "attachExecutionLink i link now d = Inr (res, d')"
  shows "evolves d d'"
  using assms
proof (cases rule: attachExecutionLink_cases)
  case (2 row adm d1 row')
  then show ?thesis
    by (intro evolves_update [OF 2(8)]) (auto simp: descends_def keepsKeys_def stay)
qed (simp add: evolves_same_turns)

lemma prepareSteeringAdmission_evolves: "prepareSteeringAdmission tgt inp ids now d = Inr (res, d') \<Longrightarrow> evolves d d'"
  by (erule prepareSteeringAdmission_cases) (simp_all add: evolves_same_turns turns_frames)

lemma prepareQueuedSteeringAdmission_evolves:
  assumes "prepareQueuedSteeringAdmission src tgt inp ids now d = Inr (res, d')"
  shows "evolves d d'"
  using assms
proof (cases rule: prepareQueuedSteeringAdmission_cases)
  case (2 turn row sourceTurn)
  from 2(10) show ?thesis
  proof (cases rule: withdrawSourceE)
    case (1 a d1 d2 q)
    have "evolves d1 d'"
      by (rule evolves_update [OF 1(3) turns_updateQueue [OF 1(4)]]) (auto simp: descends_def keepsKeys_def stay)
    with turns_insertAdmission [OF 1(2)] show ?thesis by (simp add: evolves_def turnById_def)
  qed
qed (simp add: evolves_same_turns)

lemma acceptSteeringAdmission_evolves: "acceptSteeringAdmission rid receipt d = Inr (res, d') \<Longrightarrow> evolves d d'"
  by (erule acceptSteeringAdmission_cases) (simp_all add: evolves_same_turns turns_frames)

lemma rejectSteeringAdmission_evolves: "rejectSteeringAdmission rid failure d = Inr (res, d') \<Longrightarrow> evolves d d'"
  by (erule rejectSteeringAdmission_cases)
    (auto simp: evolves_same_turns dest!: turns_frames split: option.splits)

lemma completeSteeringAdmission_evolves:
  assumes "consistent d" "baseOk d" "completeSteeringAdmission rid tgt receipt d = Inr (res, d')"
  shows "evolves d d'"
  using assms(3)
proof (cases rule: completeSteeringAdmission_cases)
  case (3 s src d2)
  let ?d1 = "deleteRequests (\<lambda>s. requestId s = rid) d"
  have "consistent ?d1" using delete_request_ok(3) [OF assms(2) refl] .
  moreover have "turns d' = turns d2" using 3(8) turns_updateQueue by auto
  ultimately have "evolves ?d1 d'" by (rule evolves_delete [OF _ 3(7)]) simp
  then show ?thesis by (simp add: evolves_def turnById_def)
qed (simp_all add: evolves_same_turns)

lemma completeRejectedSteeringAdmission_evolves:
  assumes "completeRejectedSteeringAdmission rid d = Inr (res, d')"
  shows "evolves d d'"
proof (cases "exists_row (\<lambda>s. requestId s = rid \<and> obStatus s = ObRejected) (steering d)")
  case False
  with completeRejectedSteeringAdmission_idle [OF assms] show ?thesis by (simp add: evolves_same_turns)
next
  case True
  with assms show ?thesis by (auto simp: completeRejectedSteeringAdmission_def evolves_same_turns)
qed

lemmas operation_evolves =
  createForSubmission_evolves copy_evolves claimNextQueued_evolves finishQueuedClaim_evolves
  releaseQueuedClaim_evolves resetQueueClaims_evolves editQueued_evolves dequeue_evolves
  requeueAccepted_evolves setStatus_evolves startAccepted_evolves cancelUnlinked_evolves
  prepareExecutionAdmission_evolves attachExecutionLink_evolves prepareSteeringAdmission_evolves
  prepareQueuedSteeringAdmission_evolves acceptSteeringAdmission_evolves rejectSteeringAdmission_evolves
  completeSteeringAdmission_evolves completeRejectedSteeringAdmission_evolves

lemma insertShell_evolves: "evolves d (snd (insertShell accepts complaint s d))"
  by (auto simp: insertShell_def evolves_same_turns split: sum.splits dest!: insertTurn_turns intro: evolves_insert)

lemma settleRecordedShell_evolves:
  assumes "isTerminalStatus (sStatus s)"
  shows "evolves d (snd (settleRecordedShell expected s result d))"
  using assms
  by (auto simp: settleRecordedShell_db evolves_same_turns split: sum.splits
      intro!: evolves_update [OF _ refl] simp: descends_def keepsKeys_def settleMatches_def intro!: moved)

lemma stepStore_evolves:
  assumes ok: "storeOk d" and caller: "callerOk opn d" and run: "stepStore opn d = Inr d'"
  shows "evolves d d'"
proof (cases opn)
  case (OpFinishQueuedClaim c st now)
  with run obtain res where "finishQueuedClaim c st now d = Inr (res, d')" by (auto simp: dbOf_Inr)
  moreover have "st \<in> {StRunning, StFailed}" using caller OpFinishQueuedClaim by simp
  ultimately show ?thesis by (rule finishQueuedClaim_evolves)
qed (use run caller in \<open>auto simp: dbOf_Inr createRecordedShell_def copyRecordedShell_def
    intro: operation_evolves insertShell_evolves settleRecordedShell_evolves storeOkD(1,4) [OF ok]\<close>)

end
