(* ===== verification/Turn_Properties.thy ===== *)
theory Turn_Properties
  imports Turn_Transitions
begin

text \<open>
  The properties of the turn store: what its operations promise to the queue, to the claims
  on it and to the steering requests, each with a concrete run that shows the hypotheses can
  hold.
\<close>

section \<open>Sample runs\<close>

definition sampleInput :: "turn_id \<Rightarrow> time \<Rightarrow> create_input" where
  "sampleInput i now = \<lparr> inId = i, inThreadId = ''T'', inPrompt = ''p'', inPromptParts = None,
     inExecutionRoute = ''r'', inAuthor = None, inLineage = None, inQueueCapacity = 2, inNow = now \<rparr>"

definition sampleStore :: "store_op list \<Rightarrow> db" where
  "sampleStore ops = runOps stepStore ops (emptyStore [''T''] [])"

lemma sampleStore_reachable:
  "allAllowed callerOk stepStore ops (emptyStore [''T''] []) \<Longrightarrow> storeReachable (sampleStore ops)"
  unfolding sampleStore_def by (rule runOps_reachable [OF storeReachable.start])

definition queuedRun :: "store_op list" where
  "queuedRun = [OpCreateForSubmission (sampleInput ''a'' 1), OpCreateForSubmission (sampleInput ''c'' 3),
     OpCreateForSubmission (sampleInput ''b'' 2)]"

lemma queuedRun_allowed: "allAllowed callerOk stepStore queuedRun (emptyStore [''T''] [])"
  by code_simp

section \<open>The queue\<close>



text \<open>
  C20: in every reachable store a thread has at most one active turn and at most one claimed
  turn, and a claimed turn is a queued agent turn that no live steering request hides.
\<close>

theorem one_active_one_claim:
  assumes "storeReachable d" "r \<in> set (turns d)" "s \<in> set (turns d)" "threadId r = threadId s"
  shows "(isActiveRow r \<and> isActiveRow s \<longrightarrow> r = s) \<and>
    (queueClaimToken r \<noteq> None \<and> queueClaimToken s \<noteq> None \<longrightarrow> r = s) \<and>
    (queueClaimToken r \<noteq> None \<longrightarrow> eligibleQueued d r)"
proof -
  have ok: "storeOk d" using storeReachable_ok [OF assms(1)] .
  note unique = consistentD [OF storeOkD(4) [OF ok]]
  have "isActiveRow r \<and> isActiveRow s \<longrightarrow> r = s"
    using keys_inj [OF unique(2), of r s] assms(2-4) by simp
  moreover have "queueClaimToken r \<noteq> None \<and> queueClaimToken s \<noteq> None \<longrightarrow> r = s"
    using keys_inj [OF unique(3), of r s] assms(2-4) by simp
  moreover have "queueClaimToken r \<noteq> None \<longrightarrow> eligibleQueued d r"
    using storeOk_claim [OF ok assms(2)] by (simp add: eligibleQueued_def)
  ultimately show ?thesis by blast
qed

definition idleStore :: db where
  "idleStore = sampleStore (queuedRun @ [OpSetStatus ''a'' StCompleted 4])"

definition claimedStore :: db where
  "claimedStore = sampleStore (queuedRun @ [OpSetStatus ''a'' StCompleted 4, OpClaimNextQueued ''T'' 5 1 2])"

definition sampleClaim :: queue_claim where
  "sampleClaim = the (fst (projr (claimNextQueued ''T'' 5 1 2 idleStore)))"

lemma idleStore_reachable: "storeReachable idleStore"
  unfolding idleStore_def by (rule sampleStore_reachable) code_simp

lemma claimedStore_reachable: "storeReachable claimedStore"
  unfolding claimedStore_def by (rule sampleStore_reachable) code_simp

lemma sampleClaim_run: "claimNextQueued ''T'' 5 1 2 idleStore = Inr (Some sampleClaim, claimedStore)"
  by code_simp

definition claimedRow :: turn_row where
  "claimedRow = turns claimedStore ! 2"

theorem one_active_one_claim_witness:
  "rowId claimedRow = ''b'' \<and> queueClaimToken claimedRow \<noteq> None \<and> eligibleQueued claimedStore claimedRow"
proof -
  have row: "claimedRow \<in> set (turns claimedStore)" "queueClaimToken claimedRow \<noteq> None" "rowId claimedRow = ''b''"
    by code_simp+
  with one_active_one_claim [OF claimedStore_reachable row(1) row(1) refl] show ?thesis by simp
qed

text \<open>
  C2: a claim takes the oldest queued turn of the thread that is not hidden, it is made only
  when the thread has no active and no claimed turn, and it writes nothing but the token.
\<close>

theorem claim_takes_oldest:
  assumes "claimNextQueued t now r1 r2 d = Inr (Some c, d')"
  shows "\<exists>r \<in> set (turns d). aId (claimTurn c) = rowId r \<and> threadId r = t \<and> eligibleQueued d r \<and>
    (\<forall>x \<in> set (turns d). threadId x = t \<and> eligibleQueued d x \<longrightarrow> orderKey r \<le> orderKey x) \<and>
    \<not> exists_row (activeIn t) (turns d) \<and> \<not> exists_row (claimedIn t) (turns d) \<and>
    claimToken c = mkClaimToken t now r1 r2 \<and>
    d' = d\<lparr>turns := update_where (\<lambda>x. rowId x = rowId r \<and> turnKind x = KindAgent)
                     (\<lambda>x. x\<lparr>queueClaimToken := Some (mkClaimToken t now r1 r2)\<rparr>) (turns d)\<rparr>"
  using assms
proof (cases rule: claimNextQueued_cases)
  case (2 nx row turn)
  note nx = nextEligible_SomeD [OF 2(2)]
  have "queueClaimToken x = None" if "x \<in> set (turns d)" "threadId x = t" "eligibleQueued d x" for x
    using 2(4) that by (auto simp: exists_row_iff claimedIn_def eligibleQueued_def)
  with nx 2 show ?thesis
    by (intro bexI [OF _ nx(1)])
      (auto simp: decodeAgent_Inr(2) [OF 2(7)] updateTurns_def result_simps dest: turnById_SomeD)
qed simp

theorem claim_takes_oldest_witness:
  "\<exists>r \<in> set (turns idleStore). aId (claimTurn sampleClaim) = rowId r \<and> rowId r = ''b'' \<and> eligibleQueued idleStore r"
proof -
  have "aId (claimTurn sampleClaim) = ''b''" by code_simp
  with claim_takes_oldest [OF sampleClaim_run] show ?thesis by auto
qed

lemma distinct_filter_key:
  assumes "distinct (map rowId rows)"
    and "\<And>r s. r \<in> set rows \<Longrightarrow> s \<in> set rows \<Longrightarrow> Q r \<Longrightarrow> Q s \<Longrightarrow> key r = key s \<Longrightarrow> rowId r = rowId s"
  shows "distinct (map key (filter Q rows))"
proof -
  have "distinct rows" using assms(1) by (simp add: distinct_map)
  moreover have "inj_on key (set (filter Q rows))"
    using assms(2) keys_inj [OF assms(1)] by (auto intro!: inj_onI)
  ultimately show ?thesis by (simp add: distinct_map)
qed

lemma consistent_claim:
  assumes ok: "storeOk d" and nx: "nx \<in> set (turns d)" "turnKind nx = KindAgent"
    and free: "\<not> exists_row (claimedIn (threadId nx)) (turns d)"
  shows "consistent (d\<lparr>turns := update_where (\<lambda>r. rowId r = rowId nx \<and> turnKind r = KindAgent)
    (\<lambda>r. r\<lparr>queueClaimToken := Some tok\<rparr>) (turns d)\<rparr>)" (is "consistent ?d'")
proof -
  have cons: "consistent d" using ok by (rule storeOkD)
  note D = consistentD [OF cons]
  let ?P = "\<lambda>r. rowId r = rowId nx \<and> turnKind r = KindAgent"
  let ?f = "\<lambda>r :: turn_row. r\<lparr>queueClaimToken := Some tok\<rparr>"
  have same: "?P r \<longleftrightarrow> r = nx" if "r \<in> set (turns d)" for r
    using keys_inj [OF D(1) that nx(1)] nx(2) by auto
  have rows: "set (turns ?d') = {r. r = ?f nx \<or> (r \<in> set (turns d) \<and> r \<noteq> nx)}"
    using same nx by (auto simp: set_update_where)
  have keys: "map rowId (turns ?d') = map rowId (turns d)"
    by (simp add: map_update_where)
  have ids: "rowId ` set (turns ?d') = rowId ` set (turns d)"
    using keys by (metis list.set_map)
  have actives: "map threadId (filter isActiveRow (update_where ?P ?f rows)) =
      map threadId (filter isActiveRow rows)" for rows
    by (induction rows) (auto simp: update_where_def isActiveRow_def)
  have actives: "map threadId (filter isActiveRow (turns ?d')) = map threadId (filter isActiveRow (turns d))"
    by (simp add: actives)
  have claims: "distinct (map threadId (filter (\<lambda>r. queueClaimToken r \<noteq> None) (turns ?d')))"
  proof (rule distinct_filter_key)
    show "distinct (map rowId (turns ?d'))" using D(1) keys by simp
    have other: "threadId r \<noteq> threadId nx" if "r \<in> set (turns d)" "queueClaimToken r \<noteq> None" for r
      using free that storeOk_claim(1) [OF ok that] by (auto simp: exists_row_iff claimedIn_def)
    fix r s assume "r \<in> set (turns ?d')" "s \<in> set (turns ?d')" "queueClaimToken r \<noteq> None"
      "queueClaimToken s \<noteq> None" "threadId r = threadId s"
    moreover have "r = s" if "r \<in> set (turns d)" "s \<in> set (turns d)" "queueClaimToken r \<noteq> None"
      "queueClaimToken s \<noteq> None" "threadId r = threadId s"
      using keys_inj [OF D(3), of r s] that by simp
    ultimately show "rowId r = rowId s"
      using other unfolding rows by fastforce
  qed
  have "turnsCheck (?f nx)" using D(8) [OF nx(1)] nx(2) by (simp add: turnsCheck_def)
  with D(8) have checks: "list_all turnsCheck (turns ?d')"
    unfolding list_all_iff rows by auto
  have fk: "list_all (\<lambda>r. threadId r \<in> set (threads d)) (turns ?d')"
    unfolding list_all_iff rows using cons nx(1) by (auto simp: consistent_def turnsConsistent_def list_all_iff)
  have "turnsConsistent ?d'"
    unfolding turnsConsistent_def using D(1) D(2) keys actives claims checks fk by simp
  with cons ids show ?thesis
    by (simp add: consistent_def queuesConsistent_def admissionsConsistent_def steeringConsistent_def
        cong: option.case_cong)
qed

lemma eligible_recorded:
  assumes ok: "storeOk d" and x: "x \<in> set (turns d)" "eligibleQueued d x"
  shows "queueOf (threadId x) d \<noteq> None"
proof
  assume none: "queueOf (threadId x) d = None"
  have "countedRow d x"
    using x(2) withdrawnSource_hidden by (auto simp: eligibleQueued_def countedRow_def)
  then have "visibleCount d (threadId x) \<noteq> 0"
    using x(1) unfolding visibleCount_def count_where_0 by blast
  with storeOk_drift [OF ok, of "threadId x"] none show False by (simp add: drift_def recordedCount_def)
qed

text \<open>
  a claim cannot fail to find work: when a thread of a reachable store has a visible
  queued turn, no active turn and no claim, claiming succeeds.
\<close>

theorem claim_succeeds:
  assumes "storeReachable d" and "x \<in> set (turns d)" "eligibleQueued d x" "threadId x = t"
    and "\<not> exists_row (activeIn t) (turns d)" "\<not> exists_row (claimedIn t) (turns d)"
    and "list_all (\<lambda>r. printableId (rowId r) \<and> printableId (threadId r)) (turns d)"
  shows "\<exists>c d'. claimNextQueued t now r1 r2 d = Inr (Some c, d')"
proof -
  have ok: "storeOk d" using storeReachable_ok [OF assms(1)] .
  obtain q where q: "queueOf t d = Some q" using eligible_recorded [OF ok assms(2,3)] assms(4) by auto
  have "queueClaimToken x = None"
    using assms(2,4,6) assms(3) by (auto simp: exists_row_iff claimedIn_def eligibleQueued_def)
  then obtain nx where nx: "nextEligible t d = Some nx"
    using nextEligible_NoneD [of t d x] assms(2-4) by (cases "nextEligible t d") auto
  note n = nextEligible_SomeD [OF nx]
  have agent: "turnKind nx = KindAgent" using n(3) by (simp add: eligibleQueued_def)
  let ?tok = "mkClaimToken t now r1 r2"
  let ?d' = "d\<lparr>turns := update_where (\<lambda>r. rowId r = rowId nx \<and> turnKind r = KindAgent)
    (\<lambda>r. r\<lparr>queueClaimToken := Some ?tok\<rparr>) (turns d)\<rparr>"
  have upd: "updateTurns (\<lambda>r. rowId r = rowId nx \<and> turnKind r = KindAgent)
    (\<lambda>r. r\<lparr>queueClaimToken := Some ?tok\<rparr>) d = Inr ?d'"
    using consistent_claim [OF ok n(1) agent, of ?tok] assms(6) n(2) by (simp add: updateTurns_def enforce_def)
  have "turnById (rowId nx) d = Some nx" using n(1) by (simp add: turnById_iff [OF storeOkD(4) [OF ok]])
  then have row: "turnById (rowId nx) ?d' = Some (nx\<lparr>queueClaimToken := Some ?tok\<rparr>)"
    using agent turnById_update [of "\<lambda>r. rowId r = rowId nx \<and> turnKind r = KindAgent"] by simp
  obtain route where "executionRoute nx = Some route"
    using consistentD(8) [OF storeOkD(4) [OF ok] n(1)] agent by (auto simp: turnsCheck_def)
  with agent assms(7) n(1) obtain turn where "decodeAgent (nx\<lparr>queueClaimToken := Some ?tok\<rparr>) = Inr turn"
    by (auto simp: decodeAgent_def decode_def list_all_iff)
  with q nx upd row assms(5,6) show ?thesis
    by (simp add: claimNextQueued_def Let_def)
qed

theorem claim_succeeds_witness: "\<exists>c d'. claimNextQueued ''T'' 7 3 4 idleStore = Inr (Some c, d')"
proof (rule claim_succeeds [OF idleStore_reachable])
  show "turns idleStore ! 1 \<in> set (turns idleStore)" by code_simp
qed code_simp+

section \<open>Claims\<close>

text \<open>
  a claim is good once: after it has been finished, or released, finishing it again
  finds nothing and changes nothing, whatever status and time are asked for.
\<close>

lemma updated_out:
  assumes "updateTurns P f d = Inr d'" "turns d'' = turns d'" "\<And>r. P r \<Longrightarrow> \<not> P (f r)"
  shows "\<not> exists_row P (turns d'')"
  using assms by (auto simp: updateTurns_def result_simps exists_row_iff set_update_where)

theorem claim_is_single_use:
  assumes "finishQueuedClaim c st now d = Inr (Transitioned turn change, d') \<or>
    releaseQueuedClaim c d = Inr ((), d')"
  shows "finishQueuedClaim c st' now' d' = Inr (Unavailable, d')"
proof -
  have "\<not> exists_row (claimMatches c) (turns d')"
  proof (cases "releaseQueuedClaim c d = Inr ((), d')")
    case True
    then have "updateTurns (claimMatches c) (\<lambda>r. r\<lparr>queueClaimToken := None\<rparr>) d = Inr d'"
      by (auto simp: releaseQueuedClaim_def result_simps)
    then show ?thesis by (rule updated_out [OF _ refl]) (simp add: claimMatches_def)
  next
    case False
    with assms have "finishQueuedClaim c st now d = Inr (Transitioned turn change, d')" by simp
    then show ?thesis
    proof (cases rule: finishQueuedClaim_cases)
      case (2 row row' turn d1 q)
      show ?thesis
        by (rule updated_out [OF 2(3) turns_updateQueue [OF 2(6)]]) (simp add: claimMatches_def)
    qed simp
  qed
  then show ?thesis by (simp add: finishQueuedClaim_def)
qed

definition startedTurn :: agent_turn where
  "startedTurn = (case finishQueuedClaim sampleClaim StRunning 6 claimedStore of Inr (Transitioned t _, _) \<Rightarrow> t | _ \<Rightarrow> claimTurn sampleClaim)"

definition startedChange :: queue_item_change where
  "startedChange = \<lparr> qcThreadId = ''T'', qcRevision = 3, qcQueuedCount = 1, qcBecameNonempty = False,
     qcChange = Removed ''b'' \<rparr>"

definition startedStore :: db where
  "startedStore = settle stepStore (OpFinishQueuedClaim sampleClaim StRunning 6) claimedStore"

theorem claim_is_single_use_witness:
  "finishQueuedClaim sampleClaim StFailed 7 startedStore = Inr (Unavailable, startedStore)"
proof (rule claim_is_single_use)
  have "finishQueuedClaim sampleClaim StRunning 6 claimedStore =
      Inr (Transitioned startedTurn startedChange, startedStore)"
    by code_simp
  then show "finishQueuedClaim sampleClaim StRunning 6 claimedStore =
      Inr (Transitioned startedTurn startedChange, startedStore) \<or>
      releaseQueuedClaim sampleClaim claimedStore = Inr ((), startedStore)"
    by simp
qed

text \<open>
  releasing a claim undoes it: the store is the one before the claim was made.
\<close>

theorem claim_release_roundtrip:
  assumes "storeReachable d" and "claimNextQueued t now r1 r2 d = Inr (Some c, d')"
  shows "releaseQueuedClaim c d' = Inr ((), d)"
  using assms(2)
proof (cases rule: claimNextQueued_cases)
  case (2 nx row turn)
  have ok: "storeOk d" using storeReachable_ok [OF assms(1)] .
  have cons: "consistent d" using storeOkD(4) [OF ok] .
  note n = nextEligible_SomeD [OF 2(2)]
  let ?tok = "mkClaimToken t now r1 r2"
  have same: "rowId r = rowId nx \<longleftrightarrow> r = nx" if "r \<in> set (turns d)" for r
    using keys_inj [OF consistentD(1) [OF cons] that n(1)] by auto
  have d': "d' = d\<lparr>turns := update_where (\<lambda>r. rowId r = rowId nx \<and> turnKind r = KindAgent)
      (\<lambda>r. r\<lparr>queueClaimToken := Some ?tok\<rparr>) (turns d)\<rparr>"
    using 2(5) by (auto simp: updateTurns_def result_simps)
  have c: "aId (claimTurn c) = rowId nx" "claimToken c = ?tok"
    using 2(8) decodeAgent_Inr(2) [OF 2(7)] turnById_SomeD [OF 2(6)] by auto
  let ?on = "\<lambda>r. if rowId r = rowId nx \<and> turnKind r = KindAgent then r\<lparr>queueClaimToken := Some ?tok\<rparr> else r"
  let ?off = "\<lambda>r. if claimMatches c r then r\<lparr>queueClaimToken := None\<rparr> else r"
  have undo: "?off (?on r) = r" if "r \<in> set (turns d)" for r
  proof (cases "r = nx")
    case True
    with n(3,4) c show ?thesis by (simp add: claimMatches_def eligibleQueued_def)
  next
    case False
    with same [OF that] c show ?thesis by (simp add: claimMatches_def)
  qed
  have "update_where (claimMatches c) (\<lambda>r. r\<lparr>queueClaimToken := None\<rparr>) (turns d') = map (\<lambda>r. ?off (?on r)) (turns d)"
    by (simp add: d' update_where_def)
  also have "\<dots> = turns d" using undo by (simp add: map_idI)
  finally show ?thesis
    using cons by (simp add: releaseQueuedClaim_def updateTurns_def enforce_def d')
qed simp

theorem claim_release_roundtrip_witness: "releaseQueuedClaim sampleClaim claimedStore = Inr ((), idleStore)"
  by (rule claim_release_roundtrip [OF idleStore_reachable sampleClaim_run])

section \<open>The life of a turn\<close>

text \<open>
  C19: over any run of operations, a turn that has ended keeps its status, its identity and
  its execution link, and is never deleted.
\<close>

theorem terminal_is_final:
  assumes "storeReachable d" and "allAllowed callerOk stepStore ops d"
    and "turnById i d = Some r" and "isTerminalStatus (status r)"
  shows "\<exists>r'. turnById i (runOps stepStore ops d) = Some r' \<and> status r' = status r \<and> threadId r' = threadId r \<and>
    (\<forall>l. executionLink r = Some l \<longrightarrow> executionLink r' = Some l)"
  using assms
proof (induction ops arbitrary: d r)
  case (Cons opn ops)
  have ok: "storeOk d" using storeReachable_ok [OF Cons.prems(1)] .
  let ?d = "settle stepStore opn d"
  have reach: "storeReachable ?d"
    using runOps_reachable [of d "[opn]"] Cons.prems(1,2) by simp
  have allowed: "callerOk opn d" "allAllowed callerOk stepStore ops ?d"
    using Cons.prems(2) by simp_all
  have "evolves d ?d"
    using stepStore_evolves [OF ok allowed(1)] by (auto simp: settle_def evolves_same_turns split: sum.splits)
  then obtain r1 where r1: "turnById i ?d = Some r1" "descends r r1"
    using Cons.prems(3,4) by (fastforce simp: evolves_def split: option.splits)
  have "status r1 = status r"
    using r1(2) statusStep_terminal Cons.prems(4) by (simp add: descends_def)
  with Cons.IH [OF reach allowed(2) r1(1)] Cons.prems(4) r1(2) show ?case
    by (auto simp: descends_def)
qed auto

theorem terminal_is_final_witness:
  "\<exists>r'. turnById ''a'' (runOps stepStore [OpSetStatus ''a'' StRunning 9, OpDequeue ''a''] idleStore) = Some r' \<and>
     status r' = StCompleted"
proof -
  have row: "turnById ''a'' idleStore = Some (turns idleStore ! 0)" "status (turns idleStore ! 0) = StCompleted"
    by code_simp+
  have allowed: "allAllowed callerOk stepStore [OpSetStatus ''a'' StRunning 9, OpDequeue ''a''] idleStore" by code_simp
  from terminal_is_final [OF idleStore_reachable allowed row(1)] row(2) show ?thesis
    by (auto simp del: runOps.simps)
qed

text \<open>
  C26: one transaction changes a stored turn only along the edges of the status machine, keeps
  its identity, and deletes it only while it is a queued agent turn.
\<close>

theorem turn_follows_state_machine:
  assumes "storeReachable d" "callerOk opn d" "stepStore opn d = Inr d'" "turnById i d = Some r"
  shows "(turnById i d' = None \<and> turnKind r = KindAgent \<and> status r = StQueued) \<or>
    (\<exists>r'. turnById i d' = Some r' \<and> descends r r')"
  using stepStore_evolves [OF storeReachable_ok [OF assms(1)] assms(2,3)] assms(4)
  by (auto simp: evolves_def split: option.splits)

theorem turn_follows_state_machine_witness:
  "(\<exists>r'. turnById ''b'' startedStore = Some r' \<and> descends (turns claimedStore ! 2) r' \<and> status r' = StRunning)"
proof -
  have "turnById ''b'' claimedStore = Some (turns claimedStore ! 2)"
    "stepStore (OpFinishQueuedClaim sampleClaim StRunning 6) claimedStore = Inr startedStore"
    "map_option status (turnById ''b'' startedStore) = Some StRunning"
    by code_simp+
  with turn_follows_state_machine [OF claimedStore_reachable _ this(2,1)] show ?thesis by auto
qed

end
