(* ===== verification/Turn_Pages.thy ===== *)
theory Turn_Pages
  imports Turn_Properties
begin

text \<open>
  Reading the turns of a thread page by page (the \<open>page\<close> operation of
  packages/product-store/src/turn/postgres/repository.ts).
\<close>

lemma traverseE_take_rev:
  "traverseE f xs = Inr ys \<Longrightarrow> traverseE f (rev xs) = Inr (rev ys)"
  by (simp add: traverseE_Inr_iff rev_map [symmetric])

lemma strict_filter_prefix:
  fixes key :: "'a \<Rightarrow> 'k :: linorder"
  assumes "sorted (map key (xs @ y # ys))" "distinct (map key (xs @ y # ys))"
  shows "filter (\<lambda>r. key r < key y) (xs @ y # ys) = xs"
proof -
  have "key x < key y" if "x \<in> set xs" for x
  proof -
    have "key x \<le> key y" using assms(1) that by (auto simp: sorted_append)
    moreover have "key y \<notin> key ` set xs" using assms(2) by auto
    then have "key x \<noteq> key y" using that by (metis imageI)
    ultimately show ?thesis by simp
  qed
  moreover have "\<not> key z < key y" if "z \<in> set ys" for z
    using assms(1) that by (auto simp: sorted_append not_less)
  ultimately show ?thesis by simp
qed

lemma decode_key: "decode r = Inr t \<Longrightarrow> turnKey t = orderKey r"
  by (auto simp: decode_def decodeShell_def orderKey_def Let_def
      split: if_splits turn_kind.splits option.splits)

lemma distinct_selectOrdered:
  "consistent d \<Longrightarrow> distinct (map orderKey (selectOrdered P d))"
proof -
  assume "consistent d"
  then have "distinct (map rowId (filter P (turns d)))"
    by (simp add: consistentD(1) distinct_map_filter)
  then have "distinct (filter P (turns d))" "inj_on rowId (set (filter P (turns d)))"
    by (simp_all add: distinct_map)
  then show ?thesis
    by (auto simp: selectOrdered_def orderRows_def distinct_map inj_on_def orderKey_def)
qed

lemma beforeCursor_key: "beforeCursor (Some (orderKey y)) r \<longleftrightarrow> orderKey r < orderKey y"
  by (auto simp: beforeCursor_def orderKey_def)

text \<open>
  a page holds the newest turns before its cursor, oldest first, at most as many as the
  page size; it says whether older ones exist; and the page before its oldest turn starts
  exactly where it ends, so that following the cursors walks through the whole thread.
\<close>

theorem pages_are_contiguous:
  assumes "storeReachable d" and "pageOf t before limit d = Inr p"
  shows "\<exists>older newer.
    selectOrdered (\<lambda>r. threadId r = t \<and> beforeCursor before r) d = older @ newer \<and>
    traverseE decode newer = Inr (pageTurns p) \<and>
    length newer \<le> nat (pageSize limit) \<and> hasOlder p = (older \<noteq> []) \<and>
    (older \<noteq> [] \<longrightarrow> length newer = nat (pageSize limit) \<and>
      selectOrdered (\<lambda>r. threadId r = t \<and> beforeCursor (oldestCursor p) r) d = older)"
proof -
  have cons: "consistent d" using storeOkD(4) [OF storeReachable_ok [OF assms(1)]] .
  define n where "n = nat (pageSize limit)"
  define rows where "rows = selectOrdered (\<lambda>r. threadId r = t \<and> beforeCursor before r) d"
  define older where "older = take (length rows - n) rows"
  define newer where "newer = drop (length rows - n) rows"
  have split: "rows = older @ newer" by (simp add: older_def newer_def)
  have n: "1 \<le> n" by (auto simp: n_def pageSize_def maximumPageSize_def)
  have newest: "take n (rev rows) = rev newer" by (simp add: newer_def take_rev)
  from assms(2) obtain ts where ts: "traverseE decode (rev newer) = Inr ts"
    and p: "pageTurns p = rev ts" "hasOlder p = (length (take (n + 1) (rev rows)) > n)"
      "oldestCursor p = cursorFor (if rev ts = [] then None else Some (hd (rev ts)))"
    by (auto simp: pageOf_def Let_def result_simps selectDescending_def rows_def [symmetric] n_def [symmetric] newest)
  have decoded: "traverseE decode newer = Inr (pageTurns p)"
    using traverseE_take_rev [OF ts] p(1) by simp
  have has: "hasOlder p \<longleftrightarrow> older \<noteq> []" using p(2) n by (auto simp: older_def)
  have len: "length newer \<le> n" by (simp add: newer_def)
  have rest: "length newer = n \<and> selectOrdered (\<lambda>r. threadId r = t \<and> beforeCursor (oldestCursor p) r) d = older"
    if "older \<noteq> []"
  proof
    show "length newer = n" using that n by (auto simp: newer_def older_def)
    with n obtain y ys where y: "newer = y # ys" by (cases newer) auto
    with decoded have "\<exists>u us. decode y = Inr u \<and> pageTurns p = u # us"
      by (cases "decode y"; cases "traverseE decode ys"; cases "pageTurns p") simp_all
    then obtain u us where u: "decode y = Inr u" "pageTurns p = u # us" by blast
    then have cursor: "oldestCursor p = Some (orderKey y)"
      using p(1,3) decode_key [OF u(1)] by (simp add: cursorFor_def)
    have "y \<in> set rows" by (simp add: split y)
    then have yb: "beforeCursor before y" by (simp add: rows_def set_selectOrdered)
    then have imp: "beforeCursor before r" if "beforeCursor (oldestCursor p) r" for r
      using that by (auto simp: cursor beforeCursor_def orderKey_def split: option.splits prod.splits)
    have "selectOrdered (\<lambda>r. threadId r = t \<and> beforeCursor (oldestCursor p) r) d =
        filter (beforeCursor (oldestCursor p)) rows"
      unfolding rows_def selectOrdered_def orderRows_def filter_sort
      by (simp add: imp conj_comms cong: conj_cong)
    also have "\<dots> = older"
      using strict_filter_prefix [of orderKey older y ys] sorted_selectOrdered distinct_selectOrdered [OF cons]
      unfolding cursor beforeCursor_key by (simp add: split [unfolded y, symmetric] rows_def)
    finally show "selectOrdered (\<lambda>r. threadId r = t \<and> beforeCursor (oldestCursor p) r) d = older" .
  qed
  show ?thesis
    by (rule exI [of _ older], rule exI [of _ newer])
      (use split decoded has len rest in \<open>simp add: rows_def [symmetric] n_def [symmetric]\<close>)
qed

definition samplePage :: page_result where
  "samplePage = projr (pageOf ''T'' None (Some 2) idleStore)"

theorem pages_are_contiguous_witness:
  "map turnKey (pageTurns samplePage) = [(2, ''b''), (3, ''c'')] \<and> hasOlder samplePage \<and>
   (\<exists>older. older \<noteq> [] \<and>
      selectOrdered (\<lambda>r. threadId r = ''T'' \<and> beforeCursor (oldestCursor samplePage) r) idleStore = older)"
proof -
  have run: "pageOf ''T'' None (Some 2) idleStore = Inr samplePage" by code_simp
  have facts: "map turnKey (pageTurns samplePage) = [(2, ''b''), (3, ''c'')]" "hasOlder samplePage"
    by code_simp+
  from pages_are_contiguous [OF idleStore_reachable run] facts show ?thesis by metis
qed

end
