(* ===== verification/Assignment_Model.thy ===== *)
theory Assignment_Model
  imports Prelude
begin

text \<open>
  The data of hosted executor assignments: the values of
  packages/product/src/hosted/executor/assignment.ts and assignments.ts, the rows of the
  tables rika_hosted_executor_assignments and rika_hosted_checkpoints, and the decoding of
  a row into the value the service returns (assignment-row.ts).  Decimal strings are
  integers, instants are integers in milliseconds, JSON columns hold decoded values (objects
  with their keys in the normal order of jsonb), and text compares by bytes.
\<close>

section \<open>Values\<close>

type_synonym instant = int

datatype json =
    JNull
  | JBool bool
  | JNumber int
  | JString string
  | JArray "json list"
  | JObject "(string \<times> json) list"

datatype executor_kind = Orb | Runner

datatype executor_placement =
    RunnerPlacement string string string  \<comment> \<open>deviceId, checkoutFingerprint, requestingDeviceId\<close>
  | OrbPlacement string string  \<comment> \<open>templateBuildId, providerScope\<close>

record repository_checkout =
  rcOwnerId :: string
  rcProjectId :: string
  rcRepositoryId :: string
  rcInstallationId :: string
  rcOwner :: string
  rcName :: string
  rcRef :: string
  rcCommitSha :: string
  rcPrivate :: bool
  rcIdentityName :: string
  rcIdentityEmail :: string

record workspace_seed =
  wsId :: string
  wsSource :: "(string \<times> string) option"
  wsObjectKey :: string
  wsContentDigest :: string
  wsSizeBytes :: int
  wsArchiveDigest :: string
  wsArchiveSizeBytes :: int

datatype workspace_capability = CapReady string | CapUnavailable string

datatype mcp_capability = McpReady json | McpUnavailable string

record capability_snapshot =
  environmentDigest :: string
  capturedAt :: instant
  capFilesystem :: workspace_capability
  capNativeTools :: workspace_capability
  capGit :: workspace_capability
  capProcess :: workspace_capability
  capPty :: workspace_capability
  capBrowser :: workspace_capability
  capServices :: workspace_capability
  capWorkspaceLifecycle :: workspace_capability
  capMcp :: "mcp_capability option"

datatype lifecycle_column =
    LcPending | LcProvisioning | LcAwaitingBootstrap | LcActive | LcPaused | LcTerminated

record assignment_row =
  asgId :: string
  ownerId :: string
  threadId :: string
  workspaceId :: string
  executorKind :: executor_kind
  placement :: executor_placement
  checkout :: "repository_checkout option"
  workspaceSeed :: "workspace_seed option"
  generation :: int
  revision :: int
  lastLeaseEpoch :: int
  lifecycle :: lifecycle_column
  capabilityGeneration :: "int option"
  capabilitySnapshot :: "capability_snapshot option"
  providerInstanceId :: "string option"
  bootstrapDigest :: "string option"
  bootstrapExpiresAt :: "instant option"
  executorInstanceId :: "string option"
  processIncarnation :: "string option"
  sessionDigest :: "string option"
  leaseEpoch :: "int option"
  leaseExpiresAt :: "instant option"
  cursorSequence :: int
  cursorValue :: string
  latestCheckpointId :: "string option"
  lastActiveAt :: instant
  createdAt :: instant
  updatedAt :: instant

record checkpoint_row =
  ckId :: string
  ckOwnerId :: string
  ckThreadId :: string
  ckAssignmentId :: string
  ckExecutorInstanceId :: string
  ckGeneration :: int
  ckLeaseEpoch :: int
  ckObjectKey :: string
  ckContentDigest :: string
  ckSizeBytes :: int
  ckFormat :: string
  ckCursorSequence :: int
  ckCursorValue :: string
  ckMetadata :: json
  ckVerifiedAt :: instant

section \<open>What the service returns\<close>

datatype assignment_lifecycle =
    Pending
  | Provisioning "string option" instant
  | AwaitingBootstrap string instant
  | Active string string string int instant
  | Paused string
  | Terminated

record executor_assignment =
  xId :: string
  xOwnerId :: string
  xThreadId :: string
  xWorkspaceId :: string
  xExecutorKind :: executor_kind
  xPlacement :: executor_placement
  xCheckout :: "repository_checkout option"
  xWorkspaceSeed :: "workspace_seed option"
  xGeneration :: int
  xRevision :: int
  xLastLeaseEpoch :: int
  xLifecycle :: assignment_lifecycle
  xCapabilityGeneration :: "int option"
  xCapabilities :: "capability_snapshot option"
  xCursor :: "int \<times> string"
  xLatestCheckpointId :: "string option"
  xLastActiveAt :: instant
  xCreatedAt :: instant
  xUpdatedAt :: instant

datatype failure_reason =
    Authentication | Conflict | InvalidAuthority | InvalidState | NotFound | StaleFence | Database

text \<open>
  \<open>AssignmentError\<close> with the reason and message the code gives; \<open>DatabaseFailed\<close> is the
  error with reason "database" that \<open>databaseError\<close> makes of a failed statement or a failed
  decoding, whose message quotes the driver.
\<close>

datatype assignment_error = AssignmentError failure_reason string | DatabaseFailed

fun failureReason :: "assignment_error \<Rightarrow> failure_reason" where
  "failureReason (AssignmentError reason _) = reason"
| "failureReason DatabaseFailed = Database"

section \<open>Inputs\<close>

record create_assignment =
  caId :: string
  caOwnerId :: string
  caThreadId :: string
  caWorkspaceId :: string
  caPlacement :: executor_placement
  caCheckout :: "repository_checkout option"
  caWorkspaceSeed :: "workspace_seed option"

record version =
  vAssignmentId :: string
  vGeneration :: int
  vRevision :: int

record bootstrap_input =
  bDigest :: string
  bLifetimeMillis :: int

record fence =
  fAssignmentId :: string
  fGeneration :: int
  fLeaseEpoch :: int

record access = fence +
  acProviderInstanceId :: string
  acExecutorInstanceId :: string
  acProcessIncarnation :: string
  acSessionDigest :: string

record open_session =
  osProviderInstanceId :: string
  osExecutorInstanceId :: string
  osProcessIncarnation :: string
  osCapabilities :: capability_snapshot
  osPresentedDigest :: string
  osSessionDigest :: string
  osLeaseLifetimeMillis :: int

record orphan_input =
  orProviderInstanceId :: string
  orAssignmentId :: "string option"
  orGeneration :: "int option"

record checkpoint_input =
  ciId :: string
  ciObjectKey :: string
  ciContentDigest :: string
  ciSizeBytes :: int
  ciFormat :: string
  ciCursor :: "int \<times> string"
  ciMetadata :: json

datatype orphan_status = Candidate | Preserved
datatype orphan_claim = Claimed | ClaimPreserved

section \<open>The patterns of the schemas\<close>

definition opaqueId :: "nat \<Rightarrow> string \<Rightarrow> bool" where
  "opaqueId bound s \<longleftrightarrow> 1 \<le> length s \<and> length s \<le> bound \<and>
     list_all (\<lambda>c. 33 \<le> (of_char c :: nat) \<and> (of_char c :: nat) \<le> 126) s"

definition lowerHex :: "char \<Rightarrow> bool" where
  "lowerHex c \<longleftrightarrow> c \<in> set ''0123456789abcdef''"

definition sha256Digest :: "string \<Rightarrow> bool" where
  "sha256Digest s \<longleftrightarrow> take 7 s = ''sha256:'' \<and> length s = 71 \<and> list_all lowerHex (drop 7 s)"

definition commitSha :: "string \<Rightarrow> bool" where
  "commitSha s \<longleftrightarrow> length s = 40 \<and> list_all lowerHex s"

definition whitespace :: "char \<Rightarrow> bool" where
  "whitespace c \<longleftrightarrow> (let n = (of_char c :: nat) in (9 \<le> n \<and> n \<le> 13) \<or> n = 32 \<or> n = 160)"

definition emailAddress :: "string \<Rightarrow> bool" where
  "emailAddress s \<longleftrightarrow> (let i = takeWhile (\<lambda>c. c \<noteq> CHR ''@'') s; rest = drop (length i) s in
     i \<noteq> [] \<and> list_all (\<lambda>c. \<not> whitespace c) i \<and>
     2 \<le> length rest \<and> list_all (\<lambda>c. \<not> whitespace c \<and> c \<noteq> CHR ''@'') (tl rest))"

definition checkoutOk :: "repository_checkout \<Rightarrow> bool" where
  "checkoutOk c \<longleftrightarrow> opaqueId 255 (rcOwnerId c) \<and>
     list_all (opaqueId 512) [rcProjectId c, rcRepositoryId c, rcInstallationId c, rcOwner c, rcName c, rcRef c] \<and>
     commitSha (rcCommitSha c) \<and> 1 \<le> length (rcIdentityName c) \<and> length (rcIdentityName c) \<le> 256 \<and>
     emailAddress (rcIdentityEmail c) \<and> length (rcIdentityEmail c) \<le> 320"

definition seedOk :: "workspace_seed \<Rightarrow> bool" where
  "seedOk s \<longleftrightarrow> opaqueId 512 (wsId s) \<and>
     (case wsSource s of None \<Rightarrow> True | Some (own, name) \<Rightarrow> opaqueId 512 own \<and> opaqueId 512 name) \<and>
     wsObjectKey s \<noteq> [] \<and> sha256Digest (wsContentDigest s) \<and> 0 < wsSizeBytes s \<and>
     sha256Digest (wsArchiveDigest s) \<and> 0 < wsArchiveSizeBytes s"

fun placementOk :: "executor_placement \<Rightarrow> bool" where
  "placementOk (RunnerPlacement device fingerprint requesting) \<longleftrightarrow>
     opaqueId 255 device \<and> opaqueId 512 fingerprint \<and> opaqueId 255 requesting"
| "placementOk (OrbPlacement build scope) \<longleftrightarrow> opaqueId 512 build \<and> opaqueId 512 scope"

fun capabilityOk :: "workspace_capability \<Rightarrow> bool" where
  "capabilityOk (CapReady detail) \<longleftrightarrow> detail \<noteq> []"
| "capabilityOk (CapUnavailable reason) \<longleftrightarrow> reason \<noteq> []"

definition snapshotOk :: "capability_snapshot \<Rightarrow> bool" where
  "snapshotOk c \<longleftrightarrow> sha256Digest (environmentDigest c) \<and>
     list_all capabilityOk [capFilesystem c, capNativeTools c, capGit c, capProcess c, capPty c,
       capBrowser c, capServices c, capWorkspaceLifecycle c]"

fun kindOf :: "executor_placement \<Rightarrow> executor_kind" where
  "kindOf (OrbPlacement _ _) = Orb"
| "kindOf (RunnerPlacement _ _ _) = Runner"

text \<open>
  Keys of checkpoint metadata that would carry a credential: the constraint searches the
  text of the object for a quoted name followed by a colon, without regard to case.  In that
  text only the closing quote of a key precedes a colon, and an escaped quote inside a key
  opens the pattern as well.
\<close>

definition lowerChar :: "char \<Rightarrow> char" where
  "lowerChar c = (let n = (of_char c :: nat) in if 65 \<le> n \<and> n \<le> 90 then char_of (n + 32) else c)"

definition secretNames :: "string list" where
  "secretNames =
     [''apikey'', ''api_key'', ''api-key'', ''accesstoken'', ''access_token'', ''access-token'',
      ''refreshtoken'', ''refresh_token'', ''refresh-token'', ''token'', ''password'', ''secret'',
      ''privatekey'', ''private_key'', ''private-key'', ''authorization'', ''cookie'']"

definition secretKey :: "string \<Rightarrow> bool" where
  "secretKey k \<longleftrightarrow> map lowerChar (rev (takeWhile (\<lambda>c. (of_char c :: nat) \<noteq> 34) (rev k))) \<in> set secretNames"

fun containsSecretKey :: "json \<Rightarrow> bool" where
  "containsSecretKey (JArray xs) \<longleftrightarrow> list_ex containsSecretKey xs"
| "containsSecretKey (JObject entries) \<longleftrightarrow> list_ex (\<lambda>(k, v). secretKey k \<or> containsSecretKey v) entries"
| "containsSecretKey _ \<longleftrightarrow> False"

fun jsonObject :: "json \<Rightarrow> bool" where
  "jsonObject (JObject _) \<longleftrightarrow> True"
| "jsonObject _ \<longleftrightarrow> False"

section \<open>Decoding rows\<close>

fun someOf :: "('a \<Rightarrow> bool) \<Rightarrow> 'a option \<Rightarrow> bool" where
  "someOf P None \<longleftrightarrow> False"
| "someOf P (Some x) \<longleftrightarrow> P x"

fun nullOr :: "('a \<Rightarrow> bool) \<Rightarrow> 'a option \<Rightarrow> bool" where
  "nullOr P None \<longleftrightarrow> True"
| "nullOr P (Some x) \<longleftrightarrow> P x"

definition decodeLifecycle :: "assignment_row \<Rightarrow> assignment_error + assignment_lifecycle" where
  "decodeLifecycle r =
     (case lifecycle r of
        LcPending \<Rightarrow> Inr Pending
      | LcProvisioning \<Rightarrow>
          bindE (require (nullOr (opaqueId 512) (providerInstanceId r) \<and> bootstrapExpiresAt r \<noteq> None) DatabaseFailed)
            (\<lambda>_. Inr (Provisioning (providerInstanceId r) (the (bootstrapExpiresAt r))))
      | LcAwaitingBootstrap \<Rightarrow>
          bindE (require (someOf (opaqueId 512) (providerInstanceId r) \<and> bootstrapExpiresAt r \<noteq> None) DatabaseFailed)
            (\<lambda>_. Inr (AwaitingBootstrap (the (providerInstanceId r)) (the (bootstrapExpiresAt r))))
      | LcActive \<Rightarrow>
          bindE (require (someOf (opaqueId 512) (providerInstanceId r) \<and> someOf (opaqueId 255) (executorInstanceId r) \<and>
              someOf (opaqueId 512) (processIncarnation r) \<and> someOf (\<lambda>e. 0 \<le> e) (leaseEpoch r) \<and>
              leaseExpiresAt r \<noteq> None) DatabaseFailed)
            (\<lambda>_. Inr (Active (the (providerInstanceId r)) (the (executorInstanceId r)) (the (processIncarnation r))
               (the (leaseEpoch r)) (the (leaseExpiresAt r))))
      | LcPaused \<Rightarrow>
          bindE (require (someOf (opaqueId 512) (providerInstanceId r)) DatabaseFailed)
            (\<lambda>_. Inr (Paused (the (providerInstanceId r))))
      | LcTerminated \<Rightarrow> Inr Terminated)"

text \<open>The checks the schema \<open>ExecutorAssignment\<close> adds to those of its fields.\<close>

definition assignmentFilter :: "executor_assignment \<Rightarrow> bool" where
  "assignmentFilter a \<longleftrightarrow>
     kindOf (xPlacement a) = xExecutorKind a \<and>
     nullOr (\<lambda>c. xExecutorKind a = Orb \<and> rcOwnerId c = xOwnerId a) (xCheckout a) \<and>
     nullOr (\<lambda>_. xExecutorKind a = Orb) (xWorkspaceSeed a) \<and>
     ((xCapabilityGeneration a = None \<and> xCapabilities a = None) \<or>
      (xCapabilityGeneration a = Some (xGeneration a) \<and> xCapabilities a \<noteq> None))"

definition fieldsOk :: "executor_assignment \<Rightarrow> bool" where
  "fieldsOk a \<longleftrightarrow>
     list_all (opaqueId 255) [xId a, xOwnerId a, xThreadId a, xWorkspaceId a] \<and>
     placementOk (xPlacement a) \<and> nullOr checkoutOk (xCheckout a) \<and> nullOr seedOk (xWorkspaceSeed a) \<and>
     0 \<le> xGeneration a \<and> 0 \<le> xRevision a \<and> 0 \<le> xLastLeaseEpoch a \<and>
     nullOr (\<lambda>g. 0 \<le> g) (xCapabilityGeneration a) \<and> nullOr snapshotOk (xCapabilities a) \<and>
     0 \<le> fst (xCursor a) \<and> nullOr (opaqueId 255) (xLatestCheckpointId a)"

definition decodeAssignment :: "assignment_row \<Rightarrow> assignment_error + executor_assignment" where
  "decodeAssignment r =
     bindE (decodeLifecycle r) (\<lambda>life.
       (let a = \<lparr>xId = asgId r, xOwnerId = ownerId r, xThreadId = threadId r, xWorkspaceId = workspaceId r,
          xExecutorKind = executorKind r, xPlacement = placement r, xCheckout = checkout r,
          xWorkspaceSeed = workspaceSeed r, xGeneration = generation r, xRevision = revision r,
          xLastLeaseEpoch = lastLeaseEpoch r, xLifecycle = life, xCapabilityGeneration = capabilityGeneration r,
          xCapabilities = capabilitySnapshot r, xCursor = (cursorSequence r, cursorValue r),
          xLatestCheckpointId = latestCheckpointId r, xLastActiveAt = lastActiveAt r,
          xCreatedAt = createdAt r, xUpdatedAt = updatedAt r\<rparr>
        in if fieldsOk a \<and> assignmentFilter a then Inr a else Inl DatabaseFailed))"

definition decodeCheckpoint :: "checkpoint_row \<Rightarrow> assignment_error + checkpoint_row" where
  "decodeCheckpoint c =
     (if list_all (opaqueId 255) [ckId c, ckOwnerId c, ckThreadId c, ckAssignmentId c, ckExecutorInstanceId c] \<and>
         0 \<le> ckGeneration c \<and> 0 \<le> ckLeaseEpoch c \<and> ckObjectKey c \<noteq> [] \<and> sha256Digest (ckContentDigest c) \<and>
         0 < ckSizeBytes c \<and> ckFormat c = ''tar.zst'' \<and> 0 \<le> ckCursorSequence c \<and> jsonObject (ckMetadata c)
      then Inr c else Inl DatabaseFailed)"

end
