(* ===== verification/Assignment_Database.thy ===== *)
theory Assignment_Database
  imports Assignment_Model
begin

text \<open>
  The tables of the assignment store with their constraints
  (packages/product-store/src/database/schema/hosted-execution.ts), and the statements and
  checks its operations share (assignments.ts, assignment-operations.ts,
  assignment-checkpoints.ts).  A transaction is a function from the database to an error or
  a result with the new database; an error leaves the database as it was.  The transaction
  runs at two instants: \<open>txNow\<close>, its transaction_timestamp, and \<open>wallNow\<close>, its
  clock_timestamp.  The row lock of the code makes a transaction see the latest committed
  row, so that transactions on one row are serial.
\<close>

record thread_authority =
  taId :: string
  taOwnerId :: string
  taExecutorKind :: executor_kind
  taWorkspaceId :: string

record adb =
  hostedThreads :: "thread_authority list"
  assignments :: "assignment_row list"
  checkpoints :: "checkpoint_row list"

record clock =
  txNow :: instant
  wallNow :: instant

section \<open>Constraints\<close>

fun isNull :: "'a option \<Rightarrow> bool" where
  "isNull None \<longleftrightarrow> True"
| "isNull (Some _) \<longleftrightarrow> False"

definition sessionNull :: "assignment_row \<Rightarrow> bool" where
  "sessionNull r \<longleftrightarrow> isNull (executorInstanceId r) \<and> isNull (processIncarnation r) \<and>
     isNull (sessionDigest r) \<and> isNull (leaseEpoch r) \<and> isNull (leaseExpiresAt r)"

definition bootstrapNull :: "assignment_row \<Rightarrow> bool" where
  "bootstrapNull r \<longleftrightarrow> isNull (bootstrapDigest r) \<and> isNull (bootstrapExpiresAt r)"

definition bootstrapSet :: "assignment_row \<Rightarrow> bool" where
  "bootstrapSet r \<longleftrightarrow> \<not> isNull (bootstrapDigest r) \<and> \<not> isNull (bootstrapExpiresAt r)"

definition lifecycleCheck :: "assignment_row \<Rightarrow> bool" where
  "lifecycleCheck r \<longleftrightarrow>
     (case lifecycle r of
        LcPending \<Rightarrow> isNull (providerInstanceId r) \<and> bootstrapNull r \<and> sessionNull r
      | LcProvisioning \<Rightarrow> bootstrapSet r \<and> sessionNull r
      | LcAwaitingBootstrap \<Rightarrow> \<not> isNull (providerInstanceId r) \<and> bootstrapSet r \<and> sessionNull r
      | LcActive \<Rightarrow> \<not> isNull (providerInstanceId r) \<and> bootstrapNull r \<and>
          \<not> isNull (executorInstanceId r) \<and> \<not> isNull (processIncarnation r) \<and>
          \<not> isNull (sessionDigest r) \<and> \<not> isNull (leaseEpoch r) \<and> \<not> isNull (leaseExpiresAt r)
      | LcPaused \<Rightarrow> \<not> isNull (providerInstanceId r) \<and> bootstrapNull r \<and> sessionNull r
      | LcTerminated \<Rightarrow> bootstrapNull r \<and> sessionNull r)"

definition capabilityCheck :: "assignment_row \<Rightarrow> bool" where
  "capabilityCheck r \<longleftrightarrow> (capabilityGeneration r = None \<and> capabilitySnapshot r = None) \<or>
     (capabilityGeneration r = Some (generation r) \<and> capabilitySnapshot r \<noteq> None)"

definition checkoutCheck :: "assignment_row \<Rightarrow> bool" where
  "checkoutCheck r \<longleftrightarrow> nullOr (\<lambda>c. executorKind r = Orb \<and> rcOwnerId c = ownerId r \<and>
     list_all (\<lambda>s. s \<noteq> []) [rcProjectId c, rcRepositoryId c, rcInstallationId c, rcOwner c, rcName c, rcRef c] \<and>
     commitSha (rcCommitSha c) \<and> 1 \<le> length (rcIdentityName c) \<and> length (rcIdentityName c) \<le> 256 \<and>
     emailAddress (rcIdentityEmail c)) (checkout r)"

definition credentialMillis :: int where
  "credentialMillis = 300000"

definition shortLivedCheck :: "assignment_row \<Rightarrow> bool" where
  "shortLivedCheck r \<longleftrightarrow> nullOr (\<lambda>t. t \<le> updatedAt r + credentialMillis) (bootstrapExpiresAt r) \<and>
     nullOr (\<lambda>t. t \<le> updatedAt r + credentialMillis) (leaseExpiresAt r)"

definition rangeCheck :: "assignment_row \<Rightarrow> bool" where
  "rangeCheck r \<longleftrightarrow> nullOr (\<lambda>e. e \<le> lastLeaseEpoch r \<and> 1 \<le> e) (leaseEpoch r) \<and> 0 \<le> cursorSequence r \<and>
     1 \<le> generation r \<and> 0 \<le> lastLeaseEpoch r \<and> 0 \<le> revision r"

definition assignmentCheck :: "assignment_row \<Rightarrow> bool" where
  "assignmentCheck r \<longleftrightarrow> capabilityCheck r \<and> kindOf (placement r) = executorKind r \<and> lifecycleCheck r \<and>
     checkoutCheck r \<and> rangeCheck r \<and> shortLivedCheck r"

definition checkpointCheck :: "checkpoint_row \<Rightarrow> bool" where
  "checkpointCheck c \<longleftrightarrow> 1 \<le> ckGeneration c \<and> sha256Digest (ckContentDigest c) \<and> 0 \<le> ckCursorSequence c \<and>
     ckFormat c = ''tar.zst'' \<and> 1 \<le> ckLeaseEpoch c \<and> jsonObject (ckMetadata c) \<and>
     \<not> containsSecretKey (ckMetadata c) \<and> ckObjectKey c \<noteq> [] \<and> 0 < ckSizeBytes c"

definition assignmentsConsistent :: "adb \<Rightarrow> bool" where
  "assignmentsConsistent d \<longleftrightarrow>
     distinct (map asgId (assignments d)) \<and> distinct (map threadId (assignments d)) \<and>
     list_all assignmentCheck (assignments d) \<and>
     list_all (\<lambda>r. exists_row (\<lambda>t. taId t = threadId r \<and> taOwnerId t = ownerId r \<and>
       taExecutorKind t = executorKind r \<and> taWorkspaceId t = workspaceId r) (hostedThreads d)) (assignments d) \<and>
     distinct (map ckId (checkpoints d)) \<and> list_all checkpointCheck (checkpoints d) \<and>
     list_all (\<lambda>c. exists_row (\<lambda>r. asgId r = ckAssignmentId c \<and> ownerId r = ckOwnerId c) (assignments d) \<and>
       exists_row (\<lambda>t. taId t = ckThreadId c \<and> taOwnerId t = ckOwnerId c) (hostedThreads d)) (checkpoints d)"

definition enforceAssignments :: "adb \<Rightarrow> assignment_error + adb" where
  "enforceAssignments d = (if assignmentsConsistent d then Inr d else Inl DatabaseFailed)"

section \<open>Shared statements\<close>

definition assignmentById :: "string \<Rightarrow> adb \<Rightarrow> assignment_row option" where
  "assignmentById i d = row_by asgId i (assignments d)"

definition bootstrapLive :: "clock \<Rightarrow> assignment_row \<Rightarrow> bool" where
  "bootstrapLive c r = someOf (\<lambda>t. t > wallNow c) (bootstrapExpiresAt r)"

definition leaseLive :: "clock \<Rightarrow> assignment_row \<Rightarrow> bool" where
  "leaseLive c r = someOf (\<lambda>t. t > wallNow c) (leaseExpiresAt r)"

definition locked :: "string \<Rightarrow> adb \<Rightarrow> assignment_error + assignment_row" where
  "locked i d =
     (case assignmentById i d of
        None \<Rightarrow> Inl (AssignmentError NotFound ''Executor assignment does not exist'')
      | Some r \<Rightarrow> Inr r)"

text \<open>An update statement with the ids it returns.\<close>

definition updateAssignments ::
  "(assignment_row \<Rightarrow> bool) \<Rightarrow> (assignment_row \<Rightarrow> assignment_row) \<Rightarrow> adb \<Rightarrow> assignment_error + (string list \<times> adb)"
where
  "updateAssignments P f d =
     bindE (enforceAssignments (d\<lparr>assignments := update_where P f (assignments d)\<rparr>))
       (\<lambda>d'. Inr (map asgId (filter P (assignments d)), d'))"

definition versionMatches :: "version \<Rightarrow> assignment_row \<Rightarrow> bool" where
  "versionMatches v r \<longleftrightarrow> asgId r = vAssignmentId v \<and> generation r = vGeneration v \<and> revision r = vRevision v"

definition fenceMatches :: "'a fence_scheme \<Rightarrow> assignment_row \<Rightarrow> bool" where
  "fenceMatches f r \<longleftrightarrow> asgId r = fAssignmentId f \<and> generation r = fGeneration f \<and> leaseEpoch r = Some (fLeaseEpoch f)"

definition updateVersion ::
  "version \<Rightarrow> (assignment_row \<Rightarrow> assignment_row) \<Rightarrow> adb \<Rightarrow> assignment_error + (string list \<times> adb)" where
  "updateVersion v f d = updateAssignments (versionMatches v) f d"

definition updateFence ::
  "'a fence_scheme \<Rightarrow> (assignment_row \<Rightarrow> assignment_row) \<Rightarrow> adb \<Rightarrow> assignment_error + (string list \<times> adb)" where
  "updateFence fn f d = updateAssignments (fenceMatches fn) f d"

definition changedConcurrently :: assignment_error where
  "changedConcurrently = AssignmentError Conflict ''Executor assignment changed concurrently''"

definition updated ::
  "string \<Rightarrow> assignment_error + (string list \<times> adb) \<Rightarrow> assignment_error + (executor_assignment \<times> adb)" where
  "updated i statement =
     bindE statement (\<lambda>(ids, d).
       if ids = [] then Inl changedConcurrently
       else bindE (locked i d) (\<lambda>r. bindE (decodeAssignment r) (\<lambda>a. Inr (a, d))))"

section \<open>Shared checks\<close>

definition staleFence :: assignment_error where
  "staleFence = AssignmentError StaleFence ''Executor assignment fence is stale''"

definition staleRevision :: assignment_error where
  "staleRevision = AssignmentError Conflict ''Executor assignment revision is stale''"

definition checkVersion :: "assignment_row \<Rightarrow> version \<Rightarrow> assignment_error + unit" where
  "checkVersion r v = require (generation r = vGeneration v \<and> revision r = vRevision v) staleRevision"

definition checkFence :: "assignment_row \<Rightarrow> 'a fence_scheme \<Rightarrow> assignment_error + unit" where
  "checkFence r f =
     require (lifecycle r = LcActive \<and> generation r = fGeneration f \<and> leaseEpoch r = Some (fLeaseEpoch f)) staleFence"

definition checkAccess :: "clock \<Rightarrow> assignment_row \<Rightarrow> access \<Rightarrow> bool \<Rightarrow> assignment_error + unit" where
  "checkAccess c r a requireLiveLease =
     bindE (checkFence r a) (\<lambda>_.
       if providerInstanceId r \<noteq> Some (acProviderInstanceId a) \<or>
          executorInstanceId r \<noteq> Some (acExecutorInstanceId a) \<or>
          processIncarnation r \<noteq> Some (acProcessIncarnation a) \<or>
          (requireLiveLease \<and> \<not> leaseLive c r)
       then Inl staleFence
       else if sessionDigest r = None \<or> sessionDigest r \<noteq> Some (acSessionDigest a)
       then Inl (AssignmentError Authentication ''Executor session credential is invalid'')
       else Inr ())"

end
