(* ===== verification/Assignment_Store.thy ===== *)
theory Assignment_Store
  imports Assignment_Database
begin

text \<open>
  The operations of the assignment service
  (packages/product-store/src/hosted/assignment-store): creation, provisioning, sessions and
  replacement (assignments.ts), the operations of an executor under its fence
  (assignment-fencing.ts), pausing, resuming and terminating (assignment-lifecycle.ts),
  checkpoints (assignment-checkpoints.ts), and the retirement of orphaned provider instances.
\<close>

section \<open>Orphaned provider instances\<close>

datatype orphan_authority = OrphanPreserve | OrphanCandidate "assignment_row option"

definition lockOrphanAuthority :: "clock \<Rightarrow> orphan_input \<Rightarrow> adb \<Rightarrow> orphan_authority" where
  "lockOrphanAuthority c inp d =
     (let rows = sort_key asgId (filter (\<lambda>r. providerInstanceId r = Some (orProviderInstanceId inp) \<or>
            Some (asgId r) = orAssignmentId inp) (assignments d));
          bound = find (\<lambda>r. providerInstanceId r = Some (orProviderInstanceId inp)) rows;
          identified = find (\<lambda>r. Some (asgId r) = orAssignmentId inp) rows;
          matched = (if map_option generation identified = orGeneration inp then identified else None)
      in case (if bound \<noteq> None then bound else matched) of
           None \<Rightarrow> (if identified = None then OrphanPreserve else OrphanCandidate None)
         | Some r \<Rightarrow>
             if lifecycle r = LcActive \<or> lifecycle r = LcPaused
             then (if bound = None then OrphanCandidate None else OrphanPreserve)
             else if lifecycle r = LcTerminated then OrphanCandidate None
             else if (lifecycle r = LcProvisioning \<or> lifecycle r = LcAwaitingBootstrap) \<and> bootstrapLive c r
             then (if providerInstanceId r = None \<or> bound \<noteq> None then OrphanPreserve else OrphanCandidate None)
             else OrphanCandidate (Some r))"

definition inspectOrphan :: "clock \<Rightarrow> orphan_input \<Rightarrow> adb \<Rightarrow> orphan_status" where
  "inspectOrphan c inp d =
     (case lockOrphanAuthority c inp d of OrphanPreserve \<Rightarrow> Preserved | OrphanCandidate _ \<Rightarrow> Candidate)"

definition retireRow :: "clock \<Rightarrow> assignment_row \<Rightarrow> assignment_row" where
  "retireRow c r = r\<lparr>generation := generation r + 1, revision := revision r + 1, lastLeaseEpoch := 0,
     lifecycle := LcPending, providerInstanceId := None, bootstrapDigest := None, bootstrapExpiresAt := None,
     executorInstanceId := None, processIncarnation := None, sessionDigest := None, leaseEpoch := None,
     leaseExpiresAt := None, capabilityGeneration := None, capabilitySnapshot := None, updatedAt := txNow c\<rparr>"

definition rowVersion :: "assignment_row \<Rightarrow> version" where
  "rowVersion r = \<lparr>vAssignmentId = asgId r, vGeneration = generation r, vRevision = revision r\<rparr>"

definition claimOrphan :: "clock \<Rightarrow> orphan_input \<Rightarrow> adb \<Rightarrow> assignment_error + (orphan_claim \<times> adb)" where
  "claimOrphan c inp d =
     (case lockOrphanAuthority c inp d of
        OrphanPreserve \<Rightarrow> Inr (ClaimPreserved, d)
      | OrphanCandidate None \<Rightarrow> Inr (Claimed, d)
      | OrphanCandidate (Some r) \<Rightarrow>
          bindE (updateAssignments (versionMatches (rowVersion r)) (retireRow c) d) (\<lambda>(ids, d').
            if ids = [] then Inl changedConcurrently else Inr (Claimed, d')))"

section \<open>Creation, provisioning and replacement\<close>

definition newAssignment :: "clock \<Rightarrow> create_assignment \<Rightarrow> assignment_row" where
  "newAssignment c inp = \<lparr>asgId = caId inp, ownerId = caOwnerId inp, threadId = caThreadId inp,
     workspaceId = caWorkspaceId inp, executorKind = kindOf (caPlacement inp), placement = caPlacement inp,
     checkout = caCheckout inp, workspaceSeed = caWorkspaceSeed inp, generation = 1, revision = 0,
     lastLeaseEpoch = 0, lifecycle = LcPending, capabilityGeneration = None, capabilitySnapshot = None,
     providerInstanceId = None, bootstrapDigest = None, bootstrapExpiresAt = None, executorInstanceId = None,
     processIncarnation = None, sessionDigest = None, leaseEpoch = None, leaseExpiresAt = None,
     cursorSequence = 0, cursorValue = [], latestCheckpointId = None, lastActiveAt = txNow c,
     createdAt = txNow c, updatedAt = txNow c\<rparr>"

text \<open>
  An insert that does nothing on a conflicting key: the checks of the row come first, and a
  row whose id or thread is taken is not inserted.
\<close>

definition insertAssignment :: "assignment_row \<Rightarrow> adb \<Rightarrow> assignment_error + (string list \<times> adb)" where
  "insertAssignment r d =
     (if \<not> assignmentCheck r then Inl DatabaseFailed
      else if exists_row (\<lambda>s. asgId s = asgId r \<or> threadId s = threadId r) (assignments d) then Inr ([], d)
      else bindE (enforceAssignments (d\<lparr>assignments := assignments d @ [r]\<rparr>)) (\<lambda>d'. Inr ([asgId r], d')))"

definition create :: "clock \<Rightarrow> create_assignment \<Rightarrow> adb \<Rightarrow> assignment_error + (executor_assignment \<times> adb)" where
  "create c inp d =
     (let kind = kindOf (caPlacement inp);
          thread = find (\<lambda>t. taId t = caThreadId inp \<and> taOwnerId t = caOwnerId inp) (hostedThreads d)
      in if map_option taExecutorKind thread \<noteq> Some kind \<or> map_option taWorkspaceId thread \<noteq> Some (caWorkspaceId inp)
         then Inl (AssignmentError InvalidAuthority
           ''Assignment workspace and placement must match the immutable Thread authority'')
         else bindE (insertAssignment (newAssignment c inp) d) (\<lambda>(ids, d').
           if ids = [] then Inl (AssignmentError Conflict ''Thread already has an executor assignment'')
           else bindE (locked (caId inp) d') (\<lambda>r. bindE (decodeAssignment r) (\<lambda>a. Inr (a, d')))))"

definition closeSession :: "assignment_row \<Rightarrow> assignment_row" where
  "closeSession r = r\<lparr>executorInstanceId := None, processIncarnation := None, sessionDigest := None,
     leaseEpoch := None, leaseExpiresAt := None\<rparr>"

definition closeBootstrap :: "assignment_row \<Rightarrow> assignment_row" where
  "closeBootstrap r = r\<lparr>bootstrapDigest := None, bootstrapExpiresAt := None\<rparr>"

definition openBootstrap :: "clock \<Rightarrow> bootstrap_input \<Rightarrow> assignment_row \<Rightarrow> assignment_row" where
  "openBootstrap c b r = r\<lparr>bootstrapDigest := Some (bDigest b), bootstrapExpiresAt := Some (txNow c + bLifetimeMillis b)\<rparr>"

definition touch :: "instant \<Rightarrow> assignment_row \<Rightarrow> assignment_row" where
  "touch t r = r\<lparr>revision := revision r + 1, updatedAt := t\<rparr>"

definition provisionedRow :: "clock \<Rightarrow> bootstrap_input \<Rightarrow> string option \<Rightarrow> assignment_row \<Rightarrow> assignment_row" where
  "provisionedRow c b provider r = openBootstrap c b (closeSession (touch (txNow c)
     (r\<lparr>lifecycle := LcProvisioning, providerInstanceId := provider\<rparr>)))"

definition beginProvisioning ::
  "clock \<Rightarrow> version \<Rightarrow> bootstrap_input \<Rightarrow> adb \<Rightarrow> assignment_error + (executor_assignment \<times> adb)" where
  "beginProvisioning c v b d =
     bindE (locked (vAssignmentId v) d) (\<lambda>row.
     bindE (checkVersion row v) (\<lambda>_.
       if lifecycle row = LcActive \<or> lifecycle row = LcTerminated
       then Inl (AssignmentError InvalidState ''Assignment cannot begin provisioning'')
       else let provider = (if lifecycle row = LcPaused \<or> lifecycle row = LcProvisioning \<or>
              lifecycle row = LcAwaitingBootstrap then providerInstanceId row else None)
            in updated (vAssignmentId v) (updateVersion v (provisionedRow c b provider) d)))"

definition samePlacement :: "executor_placement \<Rightarrow> executor_placement \<Rightarrow> assignment_error + unit" where
  "samePlacement old new =
     (if kindOf old \<noteq> kindOf new
      then Inl (AssignmentError InvalidAuthority ''Replacement placement must preserve the Executor kind'')
      else case (old, new) of
        (OrbPlacement _ scope, OrbPlacement _ scope') \<Rightarrow>
          require (scope = scope')
            (AssignmentError InvalidAuthority ''Replacement placement must preserve the Orb provider scope'')
      | (RunnerPlacement dev fp req, RunnerPlacement dev' fp' req') \<Rightarrow>
          require (dev = dev' \<and> fp = fp' \<and> req = req')
            (AssignmentError InvalidAuthority ''Replacement placement must preserve the Runner authority'')
      | _ \<Rightarrow> Inr ())"

definition replacedRow :: "clock \<Rightarrow> bootstrap_input \<Rightarrow> executor_placement \<Rightarrow> assignment_row \<Rightarrow> assignment_row" where
  "replacedRow c b p r = openBootstrap c b (closeSession (touch (txNow c)
     (r\<lparr>placement := p, generation := generation r + 1, lastLeaseEpoch := 0, lifecycle := LcProvisioning,
       providerInstanceId := None, capabilityGeneration := None, capabilitySnapshot := None\<rparr>)))"

definition beginReplacement ::
  "clock \<Rightarrow> version \<Rightarrow> executor_placement \<Rightarrow> bootstrap_input \<Rightarrow> adb \<Rightarrow> assignment_error + (executor_assignment \<times> adb)"
where
  "beginReplacement c v p b d =
     bindE (locked (vAssignmentId v) d) (\<lambda>row.
     bindE (checkVersion row v) (\<lambda>_.
       if lifecycle row = LcTerminated
       then Inl (AssignmentError InvalidState ''Assignment cannot be replaced'')
       else bindE (decodeAssignment row) (\<lambda>assignment.
         bindE (samePlacement (xPlacement assignment) p) (\<lambda>_.
           updated (vAssignmentId v) (updateVersion v (replacedRow c b p) d)))))"

definition boundRow :: "clock \<Rightarrow> string \<Rightarrow> assignment_row \<Rightarrow> assignment_row" where
  "boundRow c provider r = touch (txNow c)
     (r\<lparr>lifecycle := LcAwaitingBootstrap, providerInstanceId := Some provider\<rparr>)"

definition bindProviderInstance ::
  "clock \<Rightarrow> version \<Rightarrow> string \<Rightarrow> adb \<Rightarrow> assignment_error + (executor_assignment \<times> adb)" where
  "bindProviderInstance c v provider d =
     bindE (locked (vAssignmentId v) d) (\<lambda>row.
     bindE (checkVersion row v) (\<lambda>_.
       if lifecycle row \<noteq> LcProvisioning
       then Inl (AssignmentError InvalidState ''Assignment is not provisioning'')
       else if providerInstanceId row \<noteq> None \<and> providerInstanceId row \<noteq> Some provider
       then Inl (AssignmentError Conflict ''Assignment is already bound to another provider instance'')
       else updated (vAssignmentId v) (updateVersion v (boundRow c provider) d)))"

definition openedRow :: "clock \<Rightarrow> open_session \<Rightarrow> assignment_row \<Rightarrow> assignment_row" where
  "openedRow c inp r = closeBootstrap (touch (txNow c)
     (r\<lparr>lastLeaseEpoch := lastLeaseEpoch r + 1, lifecycle := LcActive,
       executorInstanceId := Some (osExecutorInstanceId inp), processIncarnation := Some (osProcessIncarnation inp),
       sessionDigest := Some (osSessionDigest inp), leaseEpoch := Some (lastLeaseEpoch r + 1),
       capabilityGeneration := Some (generation r), capabilitySnapshot := Some (osCapabilities inp),
       leaseExpiresAt := Some (txNow c + osLeaseLifetimeMillis inp), lastActiveAt := txNow c\<rparr>))"

definition openSession ::
  "clock \<Rightarrow> version \<Rightarrow> open_session \<Rightarrow> adb \<Rightarrow> assignment_error + (executor_assignment \<times> adb)" where
  "openSession c v inp d =
     bindE (locked (vAssignmentId v) d) (\<lambda>row.
     bindE (checkVersion row v) (\<lambda>_.
       if lifecycle row \<noteq> LcAwaitingBootstrap \<or> providerInstanceId row \<noteq> Some (osProviderInstanceId inp)
       then Inl (AssignmentError StaleFence ''Executor bootstrap is invalid, expired, or consumed'')
       else if bootstrapDigest row \<noteq> Some (osPresentedDigest inp)
       then Inl (AssignmentError Authentication ''Executor bootstrap credential is invalid'')
       else if \<not> bootstrapLive c row
       then Inl (AssignmentError StaleFence ''Executor bootstrap is expired or consumed'')
       else updated (vAssignmentId v) (updateVersion v (openedRow c inp) d)))"

section \<open>Operations under the fence of an executor\<close>

definition capableRow :: "clock \<Rightarrow> capability_snapshot \<Rightarrow> assignment_row \<Rightarrow> assignment_row" where
  "capableRow c caps r = touch (txNow c)
     (r\<lparr>capabilityGeneration := Some (generation r), capabilitySnapshot := Some caps, lastActiveAt := txNow c\<rparr>)"

definition updateCapabilities ::
  "clock \<Rightarrow> access \<Rightarrow> capability_snapshot \<Rightarrow> adb \<Rightarrow> assignment_error + (executor_assignment \<times> adb)" where
  "updateCapabilities c a caps d =
     bindE (locked (fAssignmentId a) d) (\<lambda>row.
     bindE (checkAccess c row a True) (\<lambda>_.
       updated (fAssignmentId a) (updateFence a (capableRow c caps) d)))"

definition reconnectedRow :: "clock \<Rightarrow> int \<Rightarrow> assignment_row \<Rightarrow> assignment_row" where
  "reconnectedRow c millis r = touch (txNow c)
     (r\<lparr>lastLeaseEpoch := lastLeaseEpoch r + 1, leaseEpoch := Some (lastLeaseEpoch r + 1),
       leaseExpiresAt := Some (txNow c + millis), lastActiveAt := txNow c\<rparr>)"

definition reconnect ::
  "clock \<Rightarrow> access \<Rightarrow> int \<Rightarrow> adb \<Rightarrow> assignment_error + (executor_assignment \<times> adb)" where
  "reconnect c a leaseLifetimeMillis d =
     bindE (locked (fAssignmentId a) d) (\<lambda>row.
     bindE (checkAccess c row a False) (\<lambda>_.
       updated (fAssignmentId a) (updateFence a (reconnectedRow c leaseLifetimeMillis) d)))"

definition beatenRow :: "clock \<Rightarrow> int \<Rightarrow> (int \<times> string) \<Rightarrow> assignment_row \<Rightarrow> assignment_row" where
  "beatenRow c millis cursor r = touch (txNow c)
     (r\<lparr>cursorSequence := fst cursor, cursorValue := snd cursor,
       leaseExpiresAt := Some (txNow c + millis), lastActiveAt := txNow c\<rparr>)"

definition heartbeat ::
  "clock \<Rightarrow> access \<Rightarrow> int \<Rightarrow> int \<times> string \<Rightarrow> adb \<Rightarrow> assignment_error + (executor_assignment \<times> adb)" where
  "heartbeat c a leaseLifetimeMillis cursor d =
     bindE (locked (fAssignmentId a) d) (\<lambda>row.
     bindE (checkAccess c row a True) (\<lambda>_.
       if fst cursor < cursorSequence row
       then Inl (AssignmentError Conflict ''Executor cursor cannot move backwards'')
       else if fst cursor = cursorSequence row \<and> snd cursor \<noteq> cursorValue row
       then Inl (AssignmentError Conflict ''Executor cursor conflicts at the same sequence'')
       else updated (fAssignmentId a) (updateFence a (beatenRow c leaseLifetimeMillis cursor) d)))"

definition authenticate :: "clock \<Rightarrow> access \<Rightarrow> adb \<Rightarrow> assignment_error + executor_assignment" where
  "authenticate c a d =
     bindE (locked (fAssignmentId a) d) (\<lambda>row.
     bindE (checkAccess c row a True) (\<lambda>_. decodeAssignment row))"

definition pausedRow :: "instant \<Rightarrow> assignment_row \<Rightarrow> assignment_row" where
  "pausedRow t r = closeBootstrap (closeSession (touch t (r\<lparr>lifecycle := LcPaused\<rparr>)))"

definition release :: "clock \<Rightarrow> access \<Rightarrow> adb \<Rightarrow> assignment_error + (executor_assignment \<times> adb)" where
  "release c a d =
     bindE (locked (fAssignmentId a) d) (\<lambda>row.
     bindE (checkAccess c row a False) (\<lambda>_.
       updated (fAssignmentId a) (updateFence a (pausedRow (wallNow c)) d)))"

definition validateFence :: "clock \<Rightarrow> fence \<Rightarrow> adb \<Rightarrow> assignment_error + executor_assignment" where
  "validateFence c f d =
     bindE (locked (fAssignmentId f) d) (\<lambda>row.
     bindE (checkFence row f) (\<lambda>_.
       if \<not> leaseLive c row then Inl staleFence else decodeAssignment row))"

section \<open>Pausing, resuming, terminating\<close>

definition pause :: "clock \<Rightarrow> version \<Rightarrow> adb \<Rightarrow> assignment_error + (executor_assignment \<times> adb)" where
  "pause c v d =
     bindE (locked (vAssignmentId v) d) (\<lambda>row.
     bindE (checkVersion row v) (\<lambda>_.
       if lifecycle row \<noteq> LcActive then Inl (AssignmentError InvalidState ''Assignment is not active'')
       else updated (vAssignmentId v) (updateVersion v (pausedRow (txNow c)) d)))"

definition resumedRow :: "clock \<Rightarrow> bootstrap_input \<Rightarrow> assignment_row \<Rightarrow> assignment_row" where
  "resumedRow c b r = openBootstrap c b (touch (txNow c) (r\<lparr>lifecycle := LcProvisioning\<rparr>))"

definition resume :: "clock \<Rightarrow> version \<Rightarrow> bootstrap_input \<Rightarrow> adb \<Rightarrow> assignment_error + (executor_assignment \<times> adb)" where
  "resume c v b d =
     bindE (locked (vAssignmentId v) d) (\<lambda>row.
     bindE (checkVersion row v) (\<lambda>_.
       if lifecycle row \<noteq> LcPaused then Inl (AssignmentError InvalidState ''Assignment is not paused'')
       else updated (vAssignmentId v) (updateVersion v (resumedRow c b) d)))"

definition terminatedRow :: "clock \<Rightarrow> assignment_row \<Rightarrow> assignment_row" where
  "terminatedRow c r = closeBootstrap (closeSession (touch (txNow c)
     (r\<lparr>lifecycle := LcTerminated\<rparr>)))"

definition terminate :: "clock \<Rightarrow> version \<Rightarrow> adb \<Rightarrow> assignment_error + (executor_assignment \<times> adb)" where
  "terminate c v d =
     bindE (locked (vAssignmentId v) d) (\<lambda>row.
     bindE (checkVersion row v) (\<lambda>_.
       updated (vAssignmentId v) (updateVersion v (terminatedRow c) d)))"

section \<open>Checkpoints\<close>

definition checkpointById :: "string \<Rightarrow> adb \<Rightarrow> checkpoint_row option" where
  "checkpointById i d = row_by ckId i (checkpoints d)"

text \<open>Metadata is compared as decoded JSON.\<close>

definition checkpointMatches :: "checkpoint_row \<Rightarrow> access \<Rightarrow> checkpoint_input \<Rightarrow> bool" where
  "checkpointMatches k a inp \<longleftrightarrow> ckAssignmentId k = fAssignmentId a \<and> ckGeneration k = fGeneration a \<and>
     ckLeaseEpoch k = fLeaseEpoch a \<and> ckObjectKey k = ciObjectKey inp \<and> ckContentDigest k = ciContentDigest inp \<and>
     ckSizeBytes k = ciSizeBytes inp \<and> ckFormat k = ciFormat inp \<and> ckCursorSequence k = fst (ciCursor inp) \<and>
     ckCursorValue k = snd (ciCursor inp) \<and> ckMetadata k = ciMetadata inp"

definition checkpointOf :: "clock \<Rightarrow> assignment_row \<Rightarrow> checkpoint_input \<Rightarrow> checkpoint_row" where
  "checkpointOf c row inp = \<lparr>ckId = ciId inp, ckOwnerId = ownerId row, ckThreadId = threadId row,
     ckAssignmentId = asgId row, ckExecutorInstanceId = the (executorInstanceId row),
     ckGeneration = generation row, ckLeaseEpoch = the (leaseEpoch row), ckObjectKey = ciObjectKey inp,
     ckContentDigest = ciContentDigest inp, ckSizeBytes = ciSizeBytes inp, ckFormat = ciFormat inp,
     ckCursorSequence = fst (ciCursor inp), ckCursorValue = snd (ciCursor inp), ckMetadata = ciMetadata inp,
     ckVerifiedAt = txNow c\<rparr>"

definition insertCheckpoint :: "checkpoint_row \<Rightarrow> adb \<Rightarrow> assignment_error + (string list \<times> adb)" where
  "insertCheckpoint k d =
     (if \<not> checkpointCheck k then Inl DatabaseFailed
      else if exists_row (\<lambda>s. ckId s = ckId k) (checkpoints d) then Inr ([], d)
      else bindE (enforceAssignments (d\<lparr>checkpoints := checkpoints d @ [k]\<rparr>)) (\<lambda>d'. Inr ([ckId k], d')))"

definition contentDiffers :: assignment_error where
  "contentDiffers = AssignmentError Conflict ''Checkpoint identity has different content''"

definition checkpointedRow :: "clock \<Rightarrow> string \<Rightarrow> assignment_row \<Rightarrow> assignment_row" where
  "checkpointedRow c i r = touch (txNow c) (r\<lparr>latestCheckpointId := Some i\<rparr>)"

definition commitCheckpoint ::
  "clock \<Rightarrow> access \<Rightarrow> checkpoint_input \<Rightarrow> adb \<Rightarrow> assignment_error + (checkpoint_row \<times> adb)" where
  "commitCheckpoint c a inp d =
     bindE (locked (fAssignmentId a) d) (\<lambda>row.
     bindE (checkAccess c row a True) (\<lambda>_.
       if fst (ciCursor inp) \<noteq> cursorSequence row \<or> snd (ciCursor inp) \<noteq> cursorValue row
       then Inl (AssignmentError Conflict ''Checkpoint cursor is not the acknowledged executor cursor'')
       else case checkpointById (ciId inp) d of
         Some existingRow \<Rightarrow>
           bindE (decodeCheckpoint existingRow) (\<lambda>existing.
             if checkpointMatches existing a inp then Inr (existing, d) else Inl contentDiffers)
       | None \<Rightarrow>
           if executorInstanceId row = None \<or> leaseEpoch row = None then Inl staleFence
           else bindE (insertCheckpoint (checkpointOf c row inp) d) (\<lambda>(inserted, d1).
             if inserted = [] then Inl contentDiffers
             else bindE (updateAssignments (versionMatches (rowVersion row)) (checkpointedRow c (ciId inp)) d1) (\<lambda>(ids, d2).
               if ids = [] then Inl changedConcurrently
               else case checkpointById (ciId inp) d2 of
                 None \<Rightarrow> Inl (AssignmentError Database ''Committed checkpoint does not exist'')
               | Some committed \<Rightarrow> bindE (decodeCheckpoint committed) (\<lambda>k. Inr (k, d2))))))"

definition latestCheckpoint :: "string \<Rightarrow> adb \<Rightarrow> assignment_error + checkpoint_row option" where
  "latestCheckpoint i d =
     (case Option.bind (assignmentById i d) (\<lambda>r. Option.bind (latestCheckpointId r) (\<lambda>k. checkpointById k d)) of
        None \<Rightarrow> Inr None
      | Some k \<Rightarrow> bindE (decodeCheckpoint k) (\<lambda>k. Inr (Some k)))"

section \<open>Reads\<close>

definition getAssignment :: "string \<Rightarrow> adb \<Rightarrow> assignment_error + executor_assignment option" where
  "getAssignment i d =
     (case assignmentById i d of
        None \<Rightarrow> Inr None
      | Some r \<Rightarrow> bindE (decodeAssignment r) (\<lambda>a. Inr (Some a)))"

definition getForThread :: "string \<Rightarrow> adb \<Rightarrow> assignment_error + executor_assignment option" where
  "getForThread t d =
     (case find (\<lambda>r. threadId r = t) (assignments d) of
        None \<Rightarrow> Inr None
      | Some r \<Rightarrow> getAssignment (asgId r) d)"

definition isBootstrapLive :: "clock \<Rightarrow> string \<Rightarrow> int \<Rightarrow> adb \<Rightarrow> assignment_error + bool" where
  "isBootstrapLive c i gen d =
     bindE (locked i d) (\<lambda>row.
       if generation row \<noteq> gen then Inl staleFence
       else Inr ((lifecycle row = LcProvisioning \<or> lifecycle row = LcAwaitingBootstrap) \<and> bootstrapLive c row))"

definition listManaged :: "adb \<Rightarrow> assignment_error + executor_assignment list" where
  "listManaged d =
     traverseE decodeAssignment
       (take 1000 (sort_key asgId (filter (\<lambda>r. lifecycle r \<noteq> LcTerminated) (assignments d))))"

end
