(* ===== verification/Assignment_Steps.thy ===== *)
theory Assignment_Steps
  imports Assignment_Store
begin

text \<open>
  What one operation of the assignment store does to the tables: every successful write
  replaces exactly the row it locked, by the row function of the operation, under the guards
  of the code.
\<close>

named_theorems row_defs \<open>the row functions of the operations\<close>

declare closeSession_def [row_defs] closeBootstrap_def [row_defs] openBootstrap_def [row_defs]
  touch_def [row_defs] provisionedRow_def [row_defs] replacedRow_def [row_defs] boundRow_def [row_defs]
  openedRow_def [row_defs] capableRow_def [row_defs] reconnectedRow_def [row_defs] beatenRow_def [row_defs]
  pausedRow_def [row_defs] resumedRow_def [row_defs] terminatedRow_def [row_defs]
  checkpointedRow_def [row_defs] retireRow_def [row_defs]

section \<open>Constraints and lookups\<close>

lemma consistentA:
  assumes "assignmentsConsistent d"
  shows "distinct (map asgId (assignments d))" "distinct (map threadId (assignments d))"
    "r \<in> set (assignments d) \<Longrightarrow> assignmentCheck r"
    "distinct (map ckId (checkpoints d))" "k \<in> set (checkpoints d) \<Longrightarrow> checkpointCheck k"
    "k \<in> set (checkpoints d) \<Longrightarrow> \<exists>r \<in> set (assignments d). asgId r = ckAssignmentId k \<and> ownerId r = ckOwnerId k"
  using assms by (auto simp: assignmentsConsistent_def list_all_iff exists_row_iff)

lemma enforceAssignments_Inr: "enforceAssignments d = Inr d' \<longleftrightarrow> d' = d \<and> assignmentsConsistent d"
  by (auto simp: enforceAssignments_def)

lemma locked_Inr: "locked i d = Inr r \<longleftrightarrow> assignmentById i d = Some r"
  by (simp add: locked_def split: option.splits)

lemma assignmentByIdD:
  assumes "assignmentById i d = Some r"
  shows "r \<in> set (assignments d)" "asgId r = i"
  using assms by (auto simp: assignmentById_def dest: row_by_SomeD)

lemma assignmentById_mem:
  "assignmentsConsistent d \<Longrightarrow> r \<in> set (assignments d) \<Longrightarrow> assignmentById (asgId r) d = Some r"
  by (simp add: assignmentById_def row_by_eq consistentA(1))

lemma assignment_unique:
  assumes "assignmentsConsistent d" "assignmentById i d = Some r" "s \<in> set (assignments d)" "asgId s = i"
  shows "s = r"
  using assignmentById_mem [OF assms(1,3)] assms(2,4) by simp

section \<open>Rewriting one row\<close>

definition replaces :: "adb \<Rightarrow> assignment_row \<Rightarrow> assignment_row \<Rightarrow> adb \<Rightarrow> bool" where
  "replaces d r r' d' \<longleftrightarrow> assignmentById (asgId r) d = Some r \<and> asgId r' = asgId r \<and>
     assignmentById (asgId r) d' = Some r' \<and> (\<forall>i. i \<noteq> asgId r \<longrightarrow> assignmentById i d' = assignmentById i d) \<and>
     hostedThreads d' = hostedThreads d \<and> checkpoints d' = checkpoints d \<and>
     length (assignments d') = length (assignments d) \<and> assignmentsConsistent d'"

lemma replacesD:
  assumes "replaces d r r' d'"
  shows "assignmentById (asgId r) d = Some r" "asgId r' = asgId r" "assignmentById (asgId r) d' = Some r'"
    "i \<noteq> asgId r \<Longrightarrow> assignmentById i d' = assignmentById i d" "checkpoints d' = checkpoints d"
    "hostedThreads d' = hostedThreads d" "assignmentsConsistent d'"
  using assms by (simp_all add: replaces_def)

lemma updateAssignments_replaces:
  assumes ok: "assignmentsConsistent d" and row: "assignmentById i d = Some r"
    and run: "updateAssignments P f d = Inr (ids, d')" "ids \<noteq> []"
    and P: "\<And>s. P s \<Longrightarrow> asgId s = i" and f: "asgId (f r) = asgId r"
  shows "replaces d r (f r) d'" "P r"
proof -
  let ?rows = "assignments d"
  have d': "d' = d\<lparr>assignments := update_where P f ?rows\<rparr>" "assignmentsConsistent d'"
    and hit: "filter P ?rows \<noteq> []"
    using run by (auto simp: updateAssignments_def enforceAssignments_Inr result_simps)
  have only: "s = r" if "s \<in> set ?rows" "P s" for s
    using assignment_unique [OF ok row that(1)] P [OF that(2)] by simp
  obtain s where "s \<in> set ?rows" "P s" using hit by (auto simp: filter_empty_conv)
  with only show "P r" by blast
  have key: "asgId r = i" using assignmentByIdD [OF row] by simp
  have hits: "P s \<longleftrightarrow> asgId s = i" if "s \<in> set ?rows" for s
    using P [of s] \<open>P r\<close> assignment_unique [OF ok row that] by metis
  have "(if P s then f s else s) = (if asgId s = i then f r else s)" if "s \<in> set ?rows" for s
    using hits [OF that] only [OF that] by simp
  then have same: "update_where P f ?rows = update_where (\<lambda>s. asgId s = i) (\<lambda>_. f r) ?rows"
    by (simp add: update_where_def)
  have after: "assignmentById j d' = map_option (\<lambda>s. if asgId s = i then f r else s) (assignmentById j d)" for j
    unfolding assignmentById_def d'(1)
    by (simp add: same row_by_update_where [where key = asgId] f key)
  have "assignmentById j d' = assignmentById j d" if "j \<noteq> i" for j
    using that assignmentByIdD(2) [of j d] by (cases "assignmentById j d") (auto simp: after)
  moreover have "assignmentById i d' = Some (f r)" by (simp add: after row key)
  ultimately show "replaces d r (f r) d'"
    using row d' by (simp add: replaces_def f key update_where_def)
qed

lemma updated_Inr:
  "updated i m = Inr (a, d') \<longleftrightarrow>
     (\<exists>ids r. m = Inr (ids, d') \<and> ids \<noteq> [] \<and> assignmentById i d' = Some r \<and> decodeAssignment r = Inr a)"
  by (auto simp: updated_def result_simps locked_Inr split: if_splits)

lemma updated_replaces:
  assumes "assignmentsConsistent d" "assignmentById i d = Some r"
    and "updated i (updateAssignments P f d) = Inr (a, d')"
    and "\<And>s. P s \<Longrightarrow> asgId s = i" "asgId (f r) = asgId r"
  shows "replaces d r (f r) d' \<and> decodeAssignment (f r) = Inr a"
proof -
  obtain ids r' where run: "updateAssignments P f d = Inr (ids, d')" "ids \<noteq> []"
    and r': "assignmentById i d' = Some r'" "decodeAssignment r' = Inr a"
    using assms(3) by (auto simp: updated_Inr)
  from updateAssignments_replaces(1) [OF assms(1,2) run assms(4,5)]
  have "replaces d r (f r) d'" by simp
  moreover have "asgId r = i" using assignmentByIdD [OF assms(2)] by simp
  ultimately show ?thesis using r' replacesD(3) by fastforce
qed

lemma versionMatches_id: "versionMatches v s \<Longrightarrow> asgId s = vAssignmentId v"
  by (simp add: versionMatches_def)

lemma fenceMatches_id: "fenceMatches f s \<Longrightarrow> asgId s = fAssignmentId f"
  by (simp add: fenceMatches_def)

lemma rows_keep_id:
  "asgId (provisionedRow c b provider r) = asgId r" "asgId (replacedRow c b p r) = asgId r"
  "asgId (boundRow c pid r) = asgId r" "asgId (openedRow c inp r) = asgId r"
  "asgId (capableRow c caps r) = asgId r" "asgId (reconnectedRow c millis r) = asgId r"
  "asgId (beatenRow c millis cursor r) = asgId r" "asgId (pausedRow t r) = asgId r"
  "asgId (resumedRow c b r) = asgId r" "asgId (terminatedRow c r) = asgId r"
  "asgId (checkpointedRow c i r) = asgId r" "asgId (retireRow c r) = asgId r"
  by (simp_all add: row_defs)

lemma rows_keep_latest:
  "latestCheckpointId (provisionedRow c b provider r) = latestCheckpointId r" "latestCheckpointId (replacedRow c b p r) = latestCheckpointId r"
  "latestCheckpointId (boundRow c pid r) = latestCheckpointId r" "latestCheckpointId (openedRow c inp r) = latestCheckpointId r"
  "latestCheckpointId (capableRow c caps r) = latestCheckpointId r" "latestCheckpointId (reconnectedRow c millis r) = latestCheckpointId r"
  "latestCheckpointId (beatenRow c millis cursor r) = latestCheckpointId r" "latestCheckpointId (pausedRow t r) = latestCheckpointId r"
  "latestCheckpointId (resumedRow c b r) = latestCheckpointId r" "latestCheckpointId (terminatedRow c r) = latestCheckpointId r"
  "latestCheckpointId (retireRow c r) = latestCheckpointId r"
  by (simp_all add: row_defs)

text \<open>The access of the executor that holds the lease of a row.\<close>

definition accessHeld :: "assignment_row \<Rightarrow> access \<Rightarrow> bool" where
  "accessHeld r a \<longleftrightarrow> lifecycle r = LcActive \<and> generation r = fGeneration a \<and> leaseEpoch r = Some (fLeaseEpoch a) \<and>
     providerInstanceId r = Some (acProviderInstanceId a) \<and> executorInstanceId r = Some (acExecutorInstanceId a) \<and>
     processIncarnation r = Some (acProcessIncarnation a) \<and> sessionDigest r = Some (acSessionDigest a)"

lemma checkAccess_Inr:
  "checkAccess c r a live = Inr u \<longleftrightarrow> accessHeld r a \<and> (live \<longrightarrow> leaseLive c r)"
  by (auto simp: checkAccess_def checkFence_def accessHeld_def result_simps)

lemma checkVersion_Inr: "checkVersion r v = Inr u \<longleftrightarrow> generation r = vGeneration v \<and> revision r = vRevision v"
  by (simp add: checkVersion_def result_simps)

section \<open>The steps of a row\<close>

inductive rowStep :: "assignment_row \<Rightarrow> assignment_row \<Rightarrow> bool" where
  provision: "lifecycle r \<noteq> LcActive \<Longrightarrow> lifecycle r \<noteq> LcTerminated \<Longrightarrow>
    rowStep r (provisionedRow c b (if lifecycle r = LcPending then None else providerInstanceId r) r)"
| replace: "lifecycle r \<noteq> LcTerminated \<Longrightarrow> samePlacement (placement r) p = Inr u \<Longrightarrow> rowStep r (replacedRow c b p r)"
| bind: "lifecycle r = LcProvisioning \<Longrightarrow> providerInstanceId r = None \<or> providerInstanceId r = Some provider \<Longrightarrow>
    rowStep r (boundRow c provider r)"
| session: "lifecycle r = LcAwaitingBootstrap \<Longrightarrow> providerInstanceId r = Some (osProviderInstanceId inp) \<Longrightarrow>
    bootstrapDigest r = Some (osPresentedDigest inp) \<Longrightarrow> bootstrapLive c r \<Longrightarrow> rowStep r (openedRow c inp r)"
| capabilities: "accessHeld r a \<Longrightarrow> leaseLive c r \<Longrightarrow> rowStep r (capableRow c caps r)"
| reconnecting: "accessHeld r a \<Longrightarrow> rowStep r (reconnectedRow c millis r)"
| beat: "accessHeld r a \<Longrightarrow> leaseLive c r \<Longrightarrow> cursorSequence r \<le> fst cursor \<Longrightarrow>
    (fst cursor = cursorSequence r \<longrightarrow> snd cursor = cursorValue r) \<Longrightarrow> rowStep r (beatenRow c millis cursor r)"
| pausing: "lifecycle r = LcActive \<Longrightarrow> rowStep r (pausedRow t r)"
| resuming: "lifecycle r = LcPaused \<Longrightarrow> rowStep r (resumedRow c b r)"
| terminating: "rowStep r (terminatedRow c r)"
| checkpointing: "accessHeld r a \<Longrightarrow> leaseLive c r \<Longrightarrow> rowStep r (checkpointedRow c i r)"
| retiring: "lifecycle r \<notin> {LcActive, LcPaused, LcTerminated} \<Longrightarrow> rowStep r (retireRow c r)"

inductive_cases rowStepE: "rowStep r r'"

section \<open>The run of each operation\<close>

lemma version_run:
  assumes "bindE (locked (vAssignmentId v) d) (\<lambda>row. bindE (checkVersion row v) (\<lambda>_. body row)) = Inr res"
  obtains r where "assignmentById (vAssignmentId v) d = Some r" "generation r = vGeneration v" "revision r = vRevision v"
    "body r = Inr res"
  using assms by (auto simp: result_simps locked_Inr checkVersion_Inr)

lemma access_run:
  assumes "bindE (locked (fAssignmentId a) d) (\<lambda>row. bindE (checkAccess c row a live) (\<lambda>_. body row)) = Inr res"
  obtains r where "assignmentById (fAssignmentId a) d = Some r" "accessHeld r a" "live \<Longrightarrow> leaseLive c r" "body r = Inr res"
  using assms by (auto simp: result_simps locked_Inr checkAccess_Inr)

lemma updateVersion_replaces:
  assumes "assignmentsConsistent d" "assignmentById (vAssignmentId v) d = Some r"
    and "updated (vAssignmentId v) (updateVersion v f d) = Inr (a, d')" "asgId (f r) = asgId r"
  shows "replaces d r (f r) d'" "decodeAssignment (f r) = Inr a"
  using updated_replaces [OF assms(1,2) assms(3) [unfolded updateVersion_def] versionMatches_id assms(4)] by simp_all

lemma updateFence_replaces:
  assumes "assignmentsConsistent d" "assignmentById (fAssignmentId fn) d = Some r"
    and "updated (fAssignmentId fn) (updateFence fn f d) = Inr (a, d')" "asgId (f r) = asgId r"
  shows "replaces d r (f r) d'" "decodeAssignment (f r) = Inr a"
  using updated_replaces [OF assms(1,2) assms(3) [unfolded updateFence_def] fenceMatches_id assms(4)] by simp_all

lemma beginProvisioning_run:
  assumes "assignmentsConsistent d" "beginProvisioning c v b d = Inr (a, d')"
  obtains r prov where "assignmentById (vAssignmentId v) d = Some r" "generation r = vGeneration v" "revision r = vRevision v"
    "lifecycle r \<noteq> LcActive" "lifecycle r \<noteq> LcTerminated"
    "prov = (if lifecycle r = LcPending then None else providerInstanceId r)"
    "replaces d r (provisionedRow c b prov r) d'" "decodeAssignment (provisionedRow c b prov r) = Inr a"
  using assms(2) unfolding beginProvisioning_def Let_def
proof (rule version_run)
  fix r
  assume r: "assignmentById (vAssignmentId v) d = Some r" "generation r = vGeneration v" "revision r = vRevision v"
    and body: "(if lifecycle r = LcActive \<or> lifecycle r = LcTerminated
       then Inl (AssignmentError InvalidState ''Assignment cannot begin provisioning'')
       else updated (vAssignmentId v) (updateVersion v (provisionedRow c b
         (if lifecycle r = LcPaused \<or> lifecycle r = LcProvisioning \<or> lifecycle r = LcAwaitingBootstrap
          then providerInstanceId r else None)) d)) = Inr (a, d')"
  have life: "lifecycle r \<noteq> LcActive" "lifecycle r \<noteq> LcTerminated" using body by (auto split: if_splits)
  have prov: "(if lifecycle r = LcPaused \<or> lifecycle r = LcProvisioning \<or> lifecycle r = LcAwaitingBootstrap
      then providerInstanceId r else None) = (if lifecycle r = LcPending then None else providerInstanceId r)"
    using life by (cases "lifecycle r") simp_all
  from body life have "updated (vAssignmentId v) (updateVersion v (provisionedRow c b
      (if lifecycle r = LcPending then None else providerInstanceId r)) d) = Inr (a, d')"
    unfolding prov by simp
  from updateVersion_replaces [OF assms(1) r(1) this rows_keep_id(1)] show thesis
    using that [OF r life refl] by blast
qed

lemma beginReplacement_run:
  assumes "assignmentsConsistent d" "beginReplacement c v p b d = Inr (a, d')"
  obtains r u where "assignmentById (vAssignmentId v) d = Some r" "generation r = vGeneration v" "revision r = vRevision v"
    "lifecycle r \<noteq> LcTerminated" "samePlacement (placement r) p = Inr u"
    "replaces d r (replacedRow c b p r) d'" "decodeAssignment (replacedRow c b p r) = Inr a"
  using assms(2) unfolding beginReplacement_def
proof (rule version_run)
  fix r
  assume r: "assignmentById (vAssignmentId v) d = Some r" "generation r = vGeneration v" "revision r = vRevision v"
    and body: "(if lifecycle r = LcTerminated then Inl (AssignmentError InvalidState ''Assignment cannot be replaced'')
       else bindE (decodeAssignment r) (\<lambda>assignment. bindE (samePlacement (xPlacement assignment) p) (\<lambda>_.
         updated (vAssignmentId v) (updateVersion v (replacedRow c b p) d)))) = Inr (a, d')"
  from body obtain x u where x: "lifecycle r \<noteq> LcTerminated" "decodeAssignment r = Inr x"
      "samePlacement (xPlacement x) p = Inr u"
      and run: "updated (vAssignmentId v) (updateVersion v (replacedRow c b p) d) = Inr (a, d')"
    by (auto simp: result_simps split: if_splits)
  have "xPlacement x = placement r"
    using x(2) by (auto simp: decodeAssignment_def Let_def result_simps split: if_splits)
  with updateVersion_replaces [OF assms(1) r(1) run rows_keep_id(2)] x that [OF r] show thesis by auto
qed

lemma bindProviderInstance_run:
  assumes "assignmentsConsistent d" "bindProviderInstance c v pid d = Inr (a, d')"
  obtains r where "assignmentById (vAssignmentId v) d = Some r" "generation r = vGeneration v" "revision r = vRevision v"
    "lifecycle r = LcProvisioning" "providerInstanceId r = None \<or> providerInstanceId r = Some pid"
    "replaces d r (boundRow c pid r) d'" "decodeAssignment (boundRow c pid r) = Inr a"
  using assms(2) unfolding bindProviderInstance_def
  by (erule_tac version_run)
    (use updateVersion_replaces [where f = "boundRow c pid", OF assms(1) _ _ rows_keep_id(3)] that in \<open>auto split: if_splits\<close>)

lemma openSession_run:
  assumes "assignmentsConsistent d" "openSession c v inp d = Inr (a, d')"
  obtains r where "assignmentById (vAssignmentId v) d = Some r" "generation r = vGeneration v" "revision r = vRevision v"
    "lifecycle r = LcAwaitingBootstrap" "providerInstanceId r = Some (osProviderInstanceId inp)"
    "bootstrapDigest r = Some (osPresentedDigest inp)" "bootstrapLive c r"
    "replaces d r (openedRow c inp r) d'" "decodeAssignment (openedRow c inp r) = Inr a"
  using assms(2) unfolding openSession_def
  by (erule_tac version_run)
    (use updateVersion_replaces [where f = "openedRow c inp", OF assms(1) _ _ rows_keep_id(4)] that in \<open>auto split: if_splits\<close>)

lemma pause_run:
  assumes "assignmentsConsistent d" "pause c v d = Inr (a, d')"
  obtains r where "assignmentById (vAssignmentId v) d = Some r" "generation r = vGeneration v" "revision r = vRevision v"
    "lifecycle r = LcActive" "replaces d r (pausedRow (txNow c) r) d'" "decodeAssignment (pausedRow (txNow c) r) = Inr a"
  using assms(2) unfolding pause_def
  by (erule_tac version_run)
    (use updateVersion_replaces [where f = "pausedRow (txNow c)", OF assms(1) _ _ rows_keep_id(8)] that in \<open>auto split: if_splits\<close>)

lemma resume_run:
  assumes "assignmentsConsistent d" "resume c v b d = Inr (a, d')"
  obtains r where "assignmentById (vAssignmentId v) d = Some r" "generation r = vGeneration v" "revision r = vRevision v"
    "lifecycle r = LcPaused" "replaces d r (resumedRow c b r) d'" "decodeAssignment (resumedRow c b r) = Inr a"
  using assms(2) unfolding resume_def
  by (erule_tac version_run)
    (use updateVersion_replaces [where f = "resumedRow c b", OF assms(1) _ _ rows_keep_id(9)] that in \<open>auto split: if_splits\<close>)

lemma terminate_run:
  assumes "assignmentsConsistent d" "terminate c v d = Inr (a, d')"
  obtains r where "assignmentById (vAssignmentId v) d = Some r" "generation r = vGeneration v" "revision r = vRevision v"
    "replaces d r (terminatedRow c r) d'" "decodeAssignment (terminatedRow c r) = Inr a"
  using assms(2) unfolding terminate_def
  by (erule_tac version_run) (use updateVersion_replaces [where f = "terminatedRow c", OF assms(1) _ _ rows_keep_id(10)] that in auto)

lemma updateCapabilities_run:
  assumes "assignmentsConsistent d" "updateCapabilities c ac caps d = Inr (a, d')"
  obtains r where "assignmentById (fAssignmentId ac) d = Some r" "accessHeld r ac" "leaseLive c r"
    "replaces d r (capableRow c caps r) d'" "decodeAssignment (capableRow c caps r) = Inr a"
  using assms(2) unfolding updateCapabilities_def
  by (erule_tac access_run) (use updateFence_replaces [where fn = ac and f = "capableRow c caps", OF assms(1) _ _ rows_keep_id(5)] that in blast)

lemma reconnect_run:
  assumes "assignmentsConsistent d" "reconnect c ac millis d = Inr (a, d')"
  obtains r where "assignmentById (fAssignmentId ac) d = Some r" "accessHeld r ac"
    "replaces d r (reconnectedRow c millis r) d'" "decodeAssignment (reconnectedRow c millis r) = Inr a"
  using assms(2) unfolding reconnect_def
  by (erule_tac access_run) (use updateFence_replaces [where fn = ac and f = "reconnectedRow c millis", OF assms(1) _ _ rows_keep_id(6)] that in blast)

lemma heartbeat_run:
  assumes "assignmentsConsistent d" "heartbeat c ac millis cursor d = Inr (a, d')"
  obtains r where "assignmentById (fAssignmentId ac) d = Some r" "accessHeld r ac" "leaseLive c r"
    "cursorSequence r \<le> fst cursor" "fst cursor = cursorSequence r \<longrightarrow> snd cursor = cursorValue r"
    "replaces d r (beatenRow c millis cursor r) d'" "decodeAssignment (beatenRow c millis cursor r) = Inr a"
  using assms(2) unfolding heartbeat_def
  by (erule_tac access_run)
    (use updateFence_replaces [where fn = ac and f = "beatenRow c millis cursor", OF assms(1) _ _ rows_keep_id(7)] that in \<open>auto split: if_splits\<close>)

lemma release_run:
  assumes "assignmentsConsistent d" "release c ac d = Inr (a, d')"
  obtains r where "assignmentById (fAssignmentId ac) d = Some r" "accessHeld r ac"
    "replaces d r (pausedRow (wallNow c) r) d'" "decodeAssignment (pausedRow (wallNow c) r) = Inr a"
  using assms(2) unfolding release_def
  by (erule_tac access_run) (use updateFence_replaces [where fn = ac and f = "pausedRow (wallNow c)", OF assms(1) _ _ rows_keep_id(8)] that in blast)

lemma create_run:
  assumes "assignmentsConsistent d" "create c inp d = Inr (a, d')"
  shows "d' = d\<lparr>assignments := assignments d @ [newAssignment c inp]\<rparr>" "assignmentsConsistent d'"
    "assignmentById (caId inp) d = None" "decodeAssignment (newAssignment c inp) = Inr a"
proof -
  let ?n = "newAssignment c inp"
  from assms(2) obtain r where ins: "insertAssignment ?n d = Inr ([asgId ?n], d')"
    and r: "assignmentById (caId inp) d' = Some r" "decodeAssignment r = Inr a"
    by (auto simp: create_def Let_def insertAssignment_def result_simps locked_Inr split: if_splits)
  from ins have fresh: "\<not> exists_row (\<lambda>s. asgId s = asgId ?n \<or> threadId s = threadId ?n) (assignments d)"
    and d': "d' = d\<lparr>assignments := assignments d @ [?n]\<rparr>" "assignmentsConsistent d'"
    by (auto simp: insertAssignment_def result_simps enforceAssignments_Inr split: if_splits)
  have none: "assignmentById (caId inp) d = None"
    using fresh by (auto simp: assignmentById_def row_by_None exists_row_iff newAssignment_def)
  with d'(1) r have "r = ?n"
    by (simp add: assignmentById_def row_by_append newAssignment_def)
  with r d' none show "d' = d\<lparr>assignments := assignments d @ [?n]\<rparr>" "assignmentsConsistent d'"
    "assignmentById (caId inp) d = None" "decodeAssignment ?n = Inr a" by simp_all
qed

lemma rowVersion_id: "versionMatches (rowVersion r) s \<Longrightarrow> asgId s = asgId r"
  by (simp add: versionMatches_def rowVersion_def)

lemma find_mem: "find P xs = Some x \<Longrightarrow> x \<in> set xs \<and> P x"
  by (auto simp: find_Some_iff)

lemma lockOrphanAuthority_retire:
  assumes "lockOrphanAuthority c inp d = OrphanCandidate (Some r)"
  shows "r \<in> set (assignments d)" "lifecycle r \<notin> {LcActive, LcPaused, LcTerminated}"
    "lifecycle r \<in> {LcProvisioning, LcAwaitingBootstrap} \<Longrightarrow> \<not> bootstrapLive c r"
  using assms by (auto simp: lockOrphanAuthority_def Let_def dest!: find_mem split: option.splits if_splits)

lemma claimOrphan_run:
  assumes ok: "assignmentsConsistent d" and run: "claimOrphan c inp d = Inr (res, d')"
  obtains (idle) "d' = d" "res = ClaimPreserved \<longleftrightarrow> lockOrphanAuthority c inp d = OrphanPreserve"
      "\<And>r. lockOrphanAuthority c inp d \<noteq> OrphanCandidate (Some r)"
  | (retired) r where "lockOrphanAuthority c inp d = OrphanCandidate (Some r)" "res = Claimed"
      "lifecycle r \<notin> {LcActive, LcPaused, LcTerminated}"
      "replaces d r (retireRow c r) d'"
proof (cases "\<exists>r. lockOrphanAuthority c inp d = OrphanCandidate (Some r)")
  case False
  with run have "d' = d \<and> (res = ClaimPreserved \<longleftrightarrow> lockOrphanAuthority c inp d = OrphanPreserve)"
    by (auto simp: claimOrphan_def split: orphan_authority.splits option.splits)
  with False idle show ?thesis by blast
next
  case True
  then obtain r where r: "lockOrphanAuthority c inp d = OrphanCandidate (Some r)" by blast
  with run obtain ids where "updateAssignments (versionMatches (rowVersion r)) (retireRow c) d = Inr (ids, d')"
    "ids \<noteq> []" "res = Claimed"
    by (auto simp: claimOrphan_def result_simps split: if_splits)
  moreover have "assignmentById (asgId r) d = Some r"
    using assignmentById_mem [OF ok lockOrphanAuthority_retire(1) [OF r]] .
  ultimately have "replaces d r (retireRow c r) d'"
    by (intro updateAssignments_replaces(1) [OF ok _ _ _ rowVersion_id rows_keep_id(12)])
  with r lockOrphanAuthority_retire(2) [OF r] \<open>res = Claimed\<close> retired show ?thesis by blast
qed

lemma commitCheckpoint_run:
  assumes ok: "assignmentsConsistent d" and run: "commitCheckpoint c ac inp d = Inr (k, d')"
  obtains (known) r where "assignmentById (fAssignmentId ac) d = Some r" "accessHeld r ac" "leaseLive c r"
      "ciCursor inp = (cursorSequence r, cursorValue r)"
      "checkpointById (ciId inp) d = Some k" "checkpointMatches k ac inp" "decodeCheckpoint k = Inr k" "d' = d"
  | (fresh) r where "assignmentById (fAssignmentId ac) d = Some r" "accessHeld r ac" "leaseLive c r"
      "ciCursor inp = (cursorSequence r, cursorValue r)"
      "checkpointById (ciId inp) d = None" "k = checkpointOf c r inp" "decodeCheckpoint k = Inr k"
      "assignmentsConsistent (d\<lparr>checkpoints := checkpoints d @ [k]\<rparr>)"
      "replaces (d\<lparr>checkpoints := checkpoints d @ [k]\<rparr>) r (checkpointedRow c (ciId inp) r) d'"
  using run unfolding commitCheckpoint_def
proof (rule access_run)
  fix r
  assume r: "assignmentById (fAssignmentId ac) d = Some r" "accessHeld r ac" and live: "True \<Longrightarrow> leaseLive c r"
    and body: "(if fst (ciCursor inp) \<noteq> cursorSequence r \<or> snd (ciCursor inp) \<noteq> cursorValue r
       then Inl (AssignmentError Conflict ''Checkpoint cursor is not the acknowledged executor cursor'')
       else case checkpointById (ciId inp) d of
         Some existingRow \<Rightarrow>
           bindE (decodeCheckpoint existingRow) (\<lambda>existing.
             if checkpointMatches existing ac inp then Inr (existing, d) else Inl contentDiffers)
       | None \<Rightarrow>
           if executorInstanceId r = None \<or> leaseEpoch r = None then Inl staleFence
           else bindE (insertCheckpoint (checkpointOf c r inp) d) (\<lambda>(inserted, d1).
             if inserted = [] then Inl contentDiffers
             else bindE (updateAssignments (versionMatches (rowVersion r)) (checkpointedRow c (ciId inp)) d1) (\<lambda>(ids, d2).
               if ids = [] then Inl changedConcurrently
               else case checkpointById (ciId inp) d2 of
                 None \<Rightarrow> Inl (AssignmentError Database ''Committed checkpoint does not exist'')
               | Some committed \<Rightarrow> bindE (decodeCheckpoint committed) (\<lambda>k. Inr (k, d2))))) = Inr (k, d')"
  have cursor: "ciCursor inp = (cursorSequence r, cursorValue r)"
    using body by (auto simp: prod_eq_iff split: if_splits)
  have dec: "decodeCheckpoint x = Inr y \<Longrightarrow> y = x" for x y
    by (simp add: decodeCheckpoint_def split: if_splits)
  show thesis
  proof (cases "checkpointById (ciId inp) d")
    case (Some x)
    with body cursor have "x = k" "decodeCheckpoint k = Inr k" "checkpointMatches k ac inp" "d' = d"
      by (auto simp: result_simps dest: dec split: if_splits)
    with Some r live cursor known show thesis by blast
  next
    case None
    let ?k = "checkpointOf c r inp"
    let ?d1 = "d\<lparr>checkpoints := checkpoints d @ [?k]\<rparr>"
    from body cursor None obtain ids d1 inserted x where
        ins: "insertCheckpoint ?k d = Inr (inserted, d1)" "inserted \<noteq> []"
        and upd: "updateAssignments (versionMatches (rowVersion r)) (checkpointedRow c (ciId inp)) d1 = Inr (ids, d')" "ids \<noteq> []"
        and x: "checkpointById (ciId inp) d' = Some x" "decodeCheckpoint x = Inr k"
      by (auto simp: result_simps split: if_splits option.splits)
    from ins have d1: "d1 = ?d1" "assignmentsConsistent ?d1"
      by (auto simp: insertCheckpoint_def result_simps enforceAssignments_Inr split: if_splits)
    have r1: "assignmentById (asgId r) ?d1 = Some r"
      using r(1) assignmentByIdD [OF r(1)] by (simp add: assignmentById_def)
    have rep: "replaces ?d1 r (checkpointedRow c (ciId inp) r) d'"
      using updateAssignments_replaces(1) [OF d1(2) r1 upd(1) [unfolded d1(1)] upd(2) rowVersion_id rows_keep_id(11)] .
    have "x = ?k" using x(1) None replacesD(5) [OF rep]
      by (simp add: checkpointById_def row_by_append checkpointOf_def)
    with dec [OF x(2)] x(2) have "k = ?k" "decodeCheckpoint k = Inr k" by simp_all
    with fresh [OF r live cursor None] d1(2) rep show thesis by simp
  qed
qed

section \<open>The store as a whole\<close>

datatype asg_op =
    AoCreate clock create_assignment
  | AoClaimOrphan clock orphan_input
  | AoBeginProvisioning clock version bootstrap_input
  | AoBeginReplacement clock version executor_placement bootstrap_input
  | AoBindProviderInstance clock version string
  | AoOpenSession clock version open_session
  | AoUpdateCapabilities clock access capability_snapshot
  | AoReconnect clock access int
  | AoHeartbeat clock access int "int \<times> string"
  | AoRelease clock access
  | AoPause clock version
  | AoResume clock version bootstrap_input
  | AoTerminate clock version
  | AoCommitCheckpoint clock access checkpoint_input

definition adbOf :: "assignment_error + ('a \<times> adb) \<Rightarrow> assignment_error + adb" where
  "adbOf m = bindE m (\<lambda>(_, d). Inr d)"

lemma adbOf_Inr: "adbOf m = Inr d \<longleftrightarrow> (\<exists>x. m = Inr (x, d))"
  by (auto simp: adbOf_def result_simps)

fun stepAssignments :: "asg_op \<Rightarrow> adb \<Rightarrow> assignment_error + adb" where
  "stepAssignments (AoCreate c inp) d = adbOf (create c inp d)"
| "stepAssignments (AoClaimOrphan c inp) d = adbOf (claimOrphan c inp d)"
| "stepAssignments (AoBeginProvisioning c v b) d = adbOf (beginProvisioning c v b d)"
| "stepAssignments (AoBeginReplacement c v p b) d = adbOf (beginReplacement c v p b d)"
| "stepAssignments (AoBindProviderInstance c v pid) d = adbOf (bindProviderInstance c v pid d)"
| "stepAssignments (AoOpenSession c v inp) d = adbOf (openSession c v inp d)"
| "stepAssignments (AoUpdateCapabilities c a caps) d = adbOf (updateCapabilities c a caps d)"
| "stepAssignments (AoReconnect c a millis) d = adbOf (reconnect c a millis d)"
| "stepAssignments (AoHeartbeat c a millis cursor) d = adbOf (heartbeat c a millis cursor d)"
| "stepAssignments (AoRelease c a) d = adbOf (release c a d)"
| "stepAssignments (AoPause c v) d = adbOf (pause c v d)"
| "stepAssignments (AoResume c v b) d = adbOf (resume c v b d)"
| "stepAssignments (AoTerminate c v) d = adbOf (terminate c v d)"
| "stepAssignments (AoCommitCheckpoint c a inp) d = adbOf (commitCheckpoint c a inp d)"

fun_cases stepAssignmentsE: "stepAssignments opn d = Inr d'"

text \<open>Every successful operation leaves the tables, creates one row, or takes one row one step.\<close>

lemma stepAssignments_cases:
  assumes ok: "assignmentsConsistent d" and run: "stepAssignments opn d = Inr d'"
  obtains (same) "d' = d"
  | (created) r where "d' = d\<lparr>assignments := assignments d @ [r]\<rparr>" "assignmentsConsistent d'"
      "assignmentById (asgId r) d = None" "\<exists>c inp. r = newAssignment c inp" "\<exists>a. decodeAssignment r = Inr a"
  | (stepped) r r' where "rowStep r r'" "replaces d r r' d'" "latestCheckpointId r' = latestCheckpointId r"
      "(\<exists>a. decodeAssignment r' = Inr a) \<or> (\<exists>c. r' = retireRow c r)"
  | (committed) r c a inp k where "accessHeld r a" "leaseLive c r" "k = checkpointOf c r inp" "checkpointById (ckId k) d = None"
      "decodeCheckpoint k = Inr k" "asgId r = fAssignmentId a"
      "replaces (d\<lparr>checkpoints := checkpoints d @ [k]\<rparr>) r (checkpointedRow c (ckId k) r) d'"
proof (cases opn)
  case (AoCreate c inp)
  with run obtain a where "create c inp d = Inr (a, d')" by (auto simp: adbOf_Inr)
  from create_run [OF ok this] have "d' = d\<lparr>assignments := assignments d @ [newAssignment c inp]\<rparr>"
    "assignmentsConsistent d'" "assignmentById (asgId (newAssignment c inp)) d = None"
    "decodeAssignment (newAssignment c inp) = Inr a" by (simp_all add: newAssignment_def)
  with created show ?thesis by blast
next
  case (AoCommitCheckpoint c a inp)
  with run obtain k where "commitCheckpoint c a inp d = Inr (k, d')" by (auto simp: adbOf_Inr)
  from ok this show ?thesis
  proof (cases rule: commitCheckpoint_run)
    case (fresh r)
    moreover have "ckId k = ciId inp" using fresh(6) by (simp add: checkpointOf_def)
    ultimately show ?thesis using committed [of r a c k inp] assignmentByIdD [OF fresh(1)] by simp
  qed (use same in simp)
next
  case (AoClaimOrphan c inp)
  with run obtain res where "claimOrphan c inp d = Inr (res, d')" by (auto simp: adbOf_Inr)
  from ok this show ?thesis
  proof (cases rule: claimOrphan_run)
    case (retired r)
    from stepped [OF rowStep.retiring [OF retired(3)] retired(4) rows_keep_latest(11)] show ?thesis by blast
  qed (use same in simp)
next
  case (AoBeginProvisioning c v b)
  with run obtain a where "beginProvisioning c v b d = Inr (a, d')" by (auto simp: adbOf_Inr)
  from ok this show ?thesis
  proof (cases rule: beginProvisioning_run)
    case (1 r prov)
    from stepped [OF rowStep.provision [OF 1(4,5)] 1(7) [unfolded 1(6)] rows_keep_latest(1)] 1(8) [unfolded 1(6)] show ?thesis by blast
  qed
next
  case (AoBeginReplacement c v p b)
  with run obtain a where "beginReplacement c v p b d = Inr (a, d')" by (auto simp: adbOf_Inr)
  from ok this show ?thesis
  proof (cases rule: beginReplacement_run)
    case (1 r)
    from stepped [OF rowStep.replace [OF 1(4,5)] 1(6) rows_keep_latest(2)] 1(7) show ?thesis by blast
  qed
next
  case (AoBindProviderInstance c v pid)
  with run obtain a where "bindProviderInstance c v pid d = Inr (a, d')" by (auto simp: adbOf_Inr)
  from ok this show ?thesis
  proof (cases rule: bindProviderInstance_run)
    case (1 r)
    from stepped [OF rowStep.bind [OF 1(4,5)] 1(6) rows_keep_latest(3)] 1(7) show ?thesis by blast
  qed
next
  case (AoOpenSession c v inp)
  with run obtain a where "openSession c v inp d = Inr (a, d')" by (auto simp: adbOf_Inr)
  from ok this show ?thesis
  proof (cases rule: openSession_run)
    case (1 r)
    from stepped [OF rowStep.session [OF 1(4-7)] 1(8) rows_keep_latest(4)] 1(9) show ?thesis by blast
  qed
next
  case (AoUpdateCapabilities c a caps)
  with run obtain x where "updateCapabilities c a caps d = Inr (x, d')" by (auto simp: adbOf_Inr)
  from ok this show ?thesis
  proof (cases rule: updateCapabilities_run)
    case (1 r)
    from stepped [OF rowStep.capabilities [OF 1(2,3)] 1(4) rows_keep_latest(5)] 1(5) show ?thesis by blast
  qed
next
  case (AoReconnect c a millis)
  with run obtain x where "reconnect c a millis d = Inr (x, d')" by (auto simp: adbOf_Inr)
  from ok this show ?thesis
  proof (cases rule: reconnect_run)
    case (1 r)
    from stepped [OF rowStep.reconnecting [OF 1(2)] 1(3) rows_keep_latest(6)] 1(4) show ?thesis by blast
  qed
next
  case (AoHeartbeat c a millis cursor)
  with run obtain x where "heartbeat c a millis cursor d = Inr (x, d')" by (auto simp: adbOf_Inr)
  from ok this show ?thesis
  proof (cases rule: heartbeat_run)
    case (1 r)
    from stepped [OF rowStep.beat [OF 1(2-5)] 1(6) rows_keep_latest(7)] 1(7) show ?thesis by blast
  qed
next
  case (AoRelease c a)
  with run obtain x where "release c a d = Inr (x, d')" by (auto simp: adbOf_Inr)
  from ok this show ?thesis
  proof (cases rule: release_run)
    case (1 r)
    have "lifecycle r = LcActive" using 1(2) by (simp add: accessHeld_def)
    from stepped [OF rowStep.pausing [OF this] 1(3) rows_keep_latest(8)] 1(4) show ?thesis by blast
  qed
next
  case (AoPause c v)
  with run obtain x where "pause c v d = Inr (x, d')" by (auto simp: adbOf_Inr)
  from ok this show ?thesis
  proof (cases rule: pause_run)
    case (1 r)
    from stepped [OF rowStep.pausing [OF 1(4)] 1(5) rows_keep_latest(8)] 1(6) show ?thesis by blast
  qed
next
  case (AoResume c v b)
  with run obtain x where "resume c v b d = Inr (x, d')" by (auto simp: adbOf_Inr)
  from ok this show ?thesis
  proof (cases rule: resume_run)
    case (1 r)
    from stepped [OF rowStep.resuming [OF 1(4)] 1(5) rows_keep_latest(9)] 1(6) show ?thesis by blast
  qed
next
  case (AoTerminate c v)
  with run obtain x where "terminate c v d = Inr (x, d')" by (auto simp: adbOf_Inr)
  from ok this show ?thesis
  proof (cases rule: terminate_run)
    case (1 r)
    from stepped [OF rowStep.terminating 1(4) rows_keep_latest(10)] 1(5) show ?thesis by blast
  qed
qed

end
