(* ===== verification/Assignment_Fencing.thy ===== *)
theory Assignment_Fencing
  imports Assignment_Steps
begin

text \<open>
  The invariant of the assignment store, how a row may follow an earlier row of the same
  assignment over any number of operations, and the fencing interface: an authority that
  was lost is never held again.
\<close>

section \<open>Invariant\<close>

definition rowFenced :: "assignment_row \<Rightarrow> bool" where
  "rowFenced r \<longleftrightarrow> nullOr (\<lambda>e. e = lastLeaseEpoch r) (leaseEpoch r)"

definition checkpointLinked :: "adb \<Rightarrow> assignment_row \<Rightarrow> bool" where
  "checkpointLinked d r \<longleftrightarrow>
     nullOr (\<lambda>i. someOf (\<lambda>k. ckAssignmentId k = asgId r) (checkpointById i d)) (latestCheckpointId r)"

definition decodes :: "assignment_row \<Rightarrow> bool" where
  "decodes r \<longleftrightarrow> \<not> isl (decodeAssignment r)"

definition asgOk :: "adb \<Rightarrow> bool" where
  "asgOk d \<longleftrightarrow> assignmentsConsistent d \<and>
     list_all (\<lambda>r. rowFenced r \<and> decodes r \<and> checkpointLinked d r) (assignments d) \<and>
     list_all (\<lambda>k. decodeCheckpoint k = Inr k) (checkpoints d)"

lemma nullOr_iff: "nullOr P x \<longleftrightarrow> (\<forall>y. x = Some y \<longrightarrow> P y)"
  by (cases x) simp_all

lemma someOf_iff: "someOf P x \<longleftrightarrow> (\<exists>y. x = Some y \<and> P y)"
  by (cases x) simp_all

lemma isNull_iff: "isNull x \<longleftrightarrow> x = None"
  by (cases x) simp_all

lemma decodes_iff: "decodes r \<longleftrightarrow> (\<exists>a. decodeAssignment r = Inr a)"
  by (cases "decodeAssignment r") (auto simp: decodes_def)

lemma asgOkD:
  assumes "asgOk d"
  shows "assignmentsConsistent d" "r \<in> set (assignments d) \<Longrightarrow> rowFenced r"
    "r \<in> set (assignments d) \<Longrightarrow> decodes r" "r \<in> set (assignments d) \<Longrightarrow> checkpointLinked d r"
    "k \<in> set (checkpoints d) \<Longrightarrow> decodeCheckpoint k = Inr k"
    "r \<in> set (assignments d) \<Longrightarrow> assignmentCheck r"
  using assms consistentA(3) by (auto simp: asgOk_def list_all_iff)

text \<open>A lease exists exactly while the row is active.\<close>

lemma lease_iff_active:
  assumes "assignmentCheck r"
  shows "leaseEpoch r \<noteq> None \<longleftrightarrow> lifecycle r = LcActive"
  using assms by (cases "lifecycle r") (auto simp: assignmentCheck_def lifecycleCheck_def sessionNull_def isNull_iff)

lemma rowStep_fenced: "rowStep r r' \<Longrightarrow> rowFenced r \<Longrightarrow> rowFenced r'"
  by (induction rule: rowStep.induct) (auto simp: rowFenced_def row_defs)

section \<open>How a row follows an earlier one\<close>

definition laterSession :: "assignment_row \<Rightarrow> assignment_row \<Rightarrow> bool" where
  "laterSession r r' \<longleftrightarrow> generation r < generation r' \<or>
     generation r' = generation r \<and>
     (lastLeaseEpoch r < lastLeaseEpoch r' \<or>
      lastLeaseEpoch r' = lastLeaseEpoch r \<and>
      (leaseEpoch r' = None \<or>
       leaseEpoch r' = leaseEpoch r \<and> providerInstanceId r' = providerInstanceId r \<and>
       executorInstanceId r' = executorInstanceId r \<and> processIncarnation r' = processIncarnation r \<and>
       sessionDigest r' = sessionDigest r))"

definition laterCursor :: "assignment_row \<Rightarrow> assignment_row \<Rightarrow> bool" where
  "laterCursor r r' \<longleftrightarrow> cursorSequence r < cursorSequence r' \<or>
     cursorSequence r' = cursorSequence r \<and> cursorValue r' = cursorValue r"

definition sameIdentity :: "assignment_row \<Rightarrow> assignment_row \<Rightarrow> bool" where
  "sameIdentity r r' \<longleftrightarrow> asgId r' = asgId r \<and> ownerId r' = ownerId r \<and> threadId r' = threadId r \<and>
     workspaceId r' = workspaceId r \<and> executorKind r' = executorKind r \<and> checkout r' = checkout r \<and>
     workspaceSeed r' = workspaceSeed r \<and> createdAt r' = createdAt r"

definition follows :: "assignment_row \<Rightarrow> assignment_row \<Rightarrow> bool" where
  "follows r r' \<longleftrightarrow> r' = r \<or>
     (sameIdentity r r' \<and> revision r < revision r' \<and> laterSession r r' \<and> laterCursor r r' \<and>
      (lifecycle r = LcTerminated \<longrightarrow> lifecycle r' = LcTerminated))"

lemma follows_refl: "follows r r"
  by (simp add: follows_def)

lemma laterSession_trans: "laterSession r s \<Longrightarrow> laterSession s t \<Longrightarrow> laterSession r t"
  by (auto simp: laterSession_def)

lemma laterCursor_trans: "laterCursor r s \<Longrightarrow> laterCursor s t \<Longrightarrow> laterCursor r t"
  by (auto simp: laterCursor_def)

lemma sameIdentity_trans: "sameIdentity r s \<Longrightarrow> sameIdentity s t \<Longrightarrow> sameIdentity r t"
  by (simp add: sameIdentity_def)

lemma follows_trans:
  assumes "follows r s" "follows s t"
  shows "follows r t"
proof (cases "s = r \<or> t = s")
  case False
  with assms have "sameIdentity r s" "sameIdentity s t" "laterSession r s" "laterSession s t" "laterCursor r s"
      "laterCursor s t" "revision r < revision s" "revision s < revision t"
      "lifecycle r = LcTerminated \<longrightarrow> lifecycle t = LcTerminated"
    unfolding follows_def by blast+
  then show ?thesis
    unfolding follows_def using sameIdentity_trans laterSession_trans laterCursor_trans by (meson less_trans)
qed (use assms in blast)

lemma followsD:
  assumes "follows r r'"
  shows "sameIdentity r r'" "laterSession r r'" "laterCursor r r'" "revision r \<le> revision r'"
    "revision r' = revision r \<Longrightarrow> r' = r" "lifecycle r = LcTerminated \<Longrightarrow> lifecycle r' = LcTerminated"
  using assms by (auto simp: follows_def sameIdentity_def laterSession_def laterCursor_def)

text \<open>A step of a row: the revision grows by one.\<close>

lemma rowStep_revision: "rowStep r r' \<Longrightarrow> revision r' = revision r + 1"
  by (induction rule: rowStep.induct) (simp_all add: row_defs)

lemma rowStep_identity: "rowStep r r' \<Longrightarrow> sameIdentity r r'"
  by (induction rule: rowStep.induct) (simp_all add: row_defs sameIdentity_def)

lemma rowStep_cursor: "rowStep r r' \<Longrightarrow> laterCursor r r'"
  by (induction rule: rowStep.induct) (auto simp: row_defs laterCursor_def)

lemma rowStep_session:
  assumes "rowStep r r'" "assignmentCheck r"
  shows "laterSession r r'"
  using assms
proof (induction rule: rowStep.induct)
  case (bind r provider c)
  have "leaseEpoch r = None" using lease_iff_active [OF bind.prems] bind.hyps(1) by auto
  then show ?case by (simp add: row_defs laterSession_def)
qed (simp_all add: row_defs laterSession_def)

lemma rowStep_terminated:
  assumes "rowStep r r'" "lifecycle r = LcTerminated"
  shows "lifecycle r' = LcTerminated"
  using assms by (induction rule: rowStep.induct) (simp_all add: row_defs accessHeld_def)

lemma rowStep_follows: "rowStep r r' \<Longrightarrow> assignmentCheck r \<Longrightarrow> follows r r'"
  by (simp add: follows_def rowStep_identity rowStep_revision rowStep_session rowStep_cursor rowStep_terminated)

section \<open>Every operation keeps the invariant\<close>

lemma retired_decodes:
  assumes "decodes r"
  shows "decodes (retireRow c r)"
  using assms
  by (auto simp: decodes_iff decodeAssignment_def decodeLifecycle_def retireRow_def Let_def result_simps
      fieldsOk_def assignmentFilter_def split: if_splits)

lemma checkpointed_decodes:
  assumes "decodes r" "opaqueId 255 i"
  shows "decodes (checkpointedRow c i r)"
  using assms
  by (auto simp: decodes_iff decodeAssignment_def decodeLifecycle_def row_defs Let_def result_simps
      fieldsOk_def assignmentFilter_def split: if_splits lifecycle_column.splits)

lemma assignments_after:
  assumes "replaces d r r' d'" "asgOk d0" "assignments d0 = assignments d" "s \<in> set (assignments d')"
  shows "s = r' \<or> s \<in> set (assignments d)"
proof -
  have s: "assignmentById (asgId s) d' = Some s"
    using assignmentById_mem [OF replacesD(7) [OF assms(1)] assms(4)] .
  show ?thesis
  proof (cases "asgId s = asgId r")
    case True
    have "Some s = Some r'" using s [unfolded True] replacesD(3) [OF assms(1)] by (rule trans [OF sym])
    then show ?thesis by simp
  next
    case False
    have "assignmentById (asgId s) d = Some s" using s replacesD(4) [OF assms(1) False] by (rule trans [OF sym, rotated])
    then show ?thesis using assignmentByIdD(1) by blast
  qed
qed

lemma created_ok:
  assumes "asgOk d" "assignmentsConsistent (d\<lparr>assignments := assignments d @ [r]\<rparr>)"
    "r = newAssignment c inp" "decodes r"
  shows "asgOk (d\<lparr>assignments := assignments d @ [r]\<rparr>)"
  using assms
  by (auto simp: asgOk_def list_all_iff rowFenced_def checkpointLinked_def checkpointById_def newAssignment_def)

lemma stepped_ok:
  assumes ok: "asgOk d" and rep: "replaces d r r' d'" and row: "rowFenced r'" "decodes r'"
    and latest: "latestCheckpointId r' = latestCheckpointId r"
  shows "asgOk d'"
proof -
  have r: "r \<in> set (assignments d)" using assignmentByIdD [OF replacesD(1) [OF rep]] by simp
  have linked: "checkpointLinked d' s \<longleftrightarrow> checkpointLinked d s" for s
    by (simp add: checkpointLinked_def checkpointById_def replacesD(5) [OF rep])
  have "checkpointLinked d r'"
    using asgOkD(4) [OF ok r] latest replacesD(2) [OF rep] by (simp add: checkpointLinked_def)
  then have "rowFenced s \<and> decodes s \<and> checkpointLinked d' s" if "s \<in> set (assignments d')" for s
    using assignments_after [OF rep ok refl that] asgOkD(2-4) [OF ok] row by (auto simp: linked)
  with asgOkD(5) [OF ok] replacesD(5,7) [OF rep] show ?thesis
    by (simp add: asgOk_def list_all_iff)
qed

lemma committed_ok:
  assumes ok: "asgOk d" and rep: "replaces (d\<lparr>checkpoints := checkpoints d @ [k]\<rparr>) r (checkpointedRow c (ckId k) r) d'"
    and k: "k = checkpointOf c r inp" "checkpointById (ckId k) d = None" "decodeCheckpoint k = Inr k"
  shows "asgOk d'"
proof -
  let ?d = "d\<lparr>checkpoints := checkpoints d @ [k]\<rparr>" and ?r = "checkpointedRow c (ckId k) r"
  have r: "r \<in> set (assignments d)" using assignmentByIdD [OF replacesD(1) [OF rep]] by simp
  have cks: "checkpoints d' = checkpoints d @ [k]" using replacesD(5) [OF rep] by simp
  have byId: "checkpointById i d' = (case checkpointById i d of None \<Rightarrow> if ckId k = i then Some k else None | Some x \<Rightarrow> Some x)" for i
    by (simp add: checkpointById_def cks row_by_append)
  have linked: "checkpointLinked d s \<Longrightarrow> checkpointLinked d' s" for s
    by (auto simp: checkpointLinked_def nullOr_iff someOf_iff byId)
  have "opaqueId 255 (ckId k)" using k(3) by (simp add: decodeCheckpoint_def split: if_splits)
  then have row: "rowFenced ?r" "decodes ?r"
    using asgOkD(2,3) [OF ok r] checkpointed_decodes by (simp_all add: rowFenced_def row_defs)
  have "checkpointLinked d' ?r"
    using k(1,2) by (simp add: checkpointLinked_def row_defs byId) (simp add: checkpointOf_def)
  with row have "rowFenced s \<and> decodes s \<and> checkpointLinked d' s" if "s \<in> set (assignments d')" for s
    using assignments_after [OF rep ok _ that] asgOkD(2-4) [OF ok] linked by auto
  with asgOkD(5) [OF ok] cks k(3) replacesD(7) [OF rep] show ?thesis
    by (auto simp: asgOk_def list_all_iff)
qed

lemma stepAssignments_ok:
  assumes ok: "asgOk d" and run: "stepAssignments opn d = Inr d'"
  shows "asgOk d'"
  using asgOkD(1) [OF ok] run
proof (cases rule: stepAssignments_cases)
  case (created r)
  with created_ok [OF ok] show ?thesis by (auto simp: decodes_iff)
next
  case (stepped r r')
  have r: "r \<in> set (assignments d)" using assignmentByIdD [OF replacesD(1) [OF stepped(2)]] by simp
  have "decodes r'" using stepped(4) retired_decodes asgOkD(3) [OF ok r] by (auto simp: decodes_iff)
  with stepped_ok [OF ok stepped(2) rowStep_fenced [OF stepped(1) asgOkD(2) [OF ok r]]] stepped(3)
  show ?thesis by simp
next
  case (committed r c a inp k)
  with committed_ok [OF ok committed(7,3,4,5)] show ?thesis by simp
qed (use ok in simp)

section \<open>How the store evolves\<close>

definition asgEvolves :: "adb \<Rightarrow> adb \<Rightarrow> bool" where
  "asgEvolves d d' \<longleftrightarrow>
     (\<forall>i r. assignmentById i d = Some r \<longrightarrow> (\<exists>r'. assignmentById i d' = Some r' \<and> follows r r')) \<and>
     (\<forall>i k. checkpointById i d = Some k \<longrightarrow> checkpointById i d' = Some k)"

lemma replaces_evolves:
  assumes "replaces d r r' d'" "follows r r'" "assignmentById i d = Some t"
  shows "\<exists>t'. assignmentById i d' = Some t' \<and> follows t t'"
proof (cases "i = asgId r")
  case True with replacesD(1,3) [OF assms(1)] assms(2,3) show ?thesis by simp
next
  case False with replacesD(4) [OF assms(1)] follows_refl assms(3) show ?thesis by auto
qed

lemma stepAssignments_evolves:
  assumes ok: "asgOk d" and run: "stepAssignments opn d = Inr d'"
  shows "asgEvolves d d'"
  using asgOkD(1) [OF ok] run
proof (cases rule: stepAssignments_cases)
  case (created r)
  then show ?thesis
    by (auto simp: asgEvolves_def assignmentById_def row_by_append checkpointById_def intro: follows_refl)
next
  case (stepped r r')
  have r: "r \<in> set (assignments d)" using assignmentByIdD [OF replacesD(1) [OF stepped(2)]] by simp
  have "follows r r'" using rowStep_follows [OF stepped(1) asgOkD(6) [OF ok r]] .
  with replaces_evolves [OF stepped(2)] replacesD(5) [OF stepped(2)] show ?thesis
    by (simp add: asgEvolves_def checkpointById_def)
next
  case (committed r c a inp k)
  let ?d = "d\<lparr>checkpoints := checkpoints d @ [k]\<rparr>"
  have same: "assignmentById i ?d = assignmentById i d" for i by (simp add: assignmentById_def)
  have r: "r \<in> set (assignments d)" using assignmentByIdD [OF replacesD(1) [OF committed(7)]] by simp
  have "follows r (checkpointedRow c (ckId k) r)"
    using rowStep_follows [OF rowStep.checkpointing [OF committed(1,2)] asgOkD(6) [OF ok r]] .
  with replaces_evolves [OF committed(7)] replacesD(5) [OF committed(7)] show ?thesis
    by (simp add: asgEvolves_def checkpointById_def row_by_append same)
qed (simp add: asgEvolves_def follows_refl)

interpretation assignmentStore: evolving_store stepAssignments always asgOk asgEvolves
proof
  show "asgEvolves s s" for s by (simp add: asgEvolves_def follows_refl)
  show "asgEvolves s u" if "asgEvolves s t" "asgEvolves t u" for s t u
    using that follows_trans unfolding asgEvolves_def by (meson)
qed (use stepAssignments_ok stepAssignments_evolves in blast)+

section \<open>Fencing\<close>

text \<open>
  The interface of an authority that fences its holders: \<open>held f s\<close> says that \<open>f\<close> is the
  current authority, \<open>issued f s\<close> that \<open>f\<close> is not from the future.  What is issued stays issued, and an
  issued authority that is not held does not become held.
\<close>

locale fenced_store = evolving_store step allowed inv rel
  for step :: "'op \<Rightarrow> 's \<Rightarrow> 'e + 's" and allowed :: "'op \<Rightarrow> 's \<Rightarrow> bool" and inv :: "'s \<Rightarrow> bool" and rel :: "'s \<Rightarrow> 's \<Rightarrow> bool" +
  fixes held :: "'f \<Rightarrow> 's \<Rightarrow> bool" and issued :: "'f \<Rightarrow> 's \<Rightarrow> bool"
  assumes held_issued: "inv s \<Longrightarrow> held f s \<Longrightarrow> issued f s"
    and issued_stays: "rel s t \<Longrightarrow> issued f s \<Longrightarrow> issued f t"
    and not_regained: "inv s \<Longrightarrow> inv t \<Longrightarrow> rel s t \<Longrightarrow> issued f s \<Longrightarrow> \<not> held f s \<Longrightarrow> \<not> held f t"
begin

lemma lost_forever:
  assumes "inv s" "allAllowed allowed step (xs @ ys) s" "held f s" "\<not> held f (runOps step xs s)"
  shows "\<not> held f (runOps step (xs @ ys) s)"
proof -
  let ?t = "runOps step xs s"
  have t: "inv ?t" "allAllowed allowed step ys ?t" using prefix_keeps [OF assms(1,2)] by simp_all
  have "allAllowed allowed step xs s" using assms(2) by (induction xs arbitrary: s) simp_all
  then have "issued f ?t" using issued_stays [OF run_rel [OF assms(1)]] held_issued [OF assms(1,3)] by simp
  with not_regained [OF t(1) run_keeps [OF t] run_rel [OF t]] assms(4) show ?thesis by (simp add: runOps_append)
qed

end

definition fenceHeld :: "fence \<Rightarrow> adb \<Rightarrow> bool" where
  "fenceHeld f d \<longleftrightarrow>
     (case assignmentById (fAssignmentId f) d of None \<Rightarrow> False | Some r \<Rightarrow> \<not> isl (checkFence r f))"

definition fenceIssued :: "fence \<Rightarrow> adb \<Rightarrow> bool" where
  "fenceIssued f d \<longleftrightarrow>
     (case assignmentById (fAssignmentId f) d of None \<Rightarrow> False
      | Some r \<Rightarrow> fGeneration f < generation r \<or> fGeneration f = generation r \<and> fLeaseEpoch f \<le> lastLeaseEpoch r)"

lemma fenceHeld_iff:
  "fenceHeld f d \<longleftrightarrow> (\<exists>r. assignmentById (fAssignmentId f) d = Some r \<and> lifecycle r = LcActive \<and>
     generation r = fGeneration f \<and> leaseEpoch r = Some (fLeaseEpoch f))"
  by (auto simp: fenceHeld_def checkFence_def require_def split: option.splits)

lemma fenceHeld_row:
  assumes "asgOk d" "assignmentById i d = Some r"
  shows "fenceHeld f d \<Longrightarrow> fAssignmentId f = i \<Longrightarrow> generation r = fGeneration f \<and> lastLeaseEpoch r = fLeaseEpoch f"
    "leaseEpoch r \<noteq> None \<longleftrightarrow> lifecycle r = LcActive"
proof -
  note r = assignmentByIdD(1) [OF assms(2)]
  show "leaseEpoch r \<noteq> None \<longleftrightarrow> lifecycle r = LcActive"
    using lease_iff_active asgOkD(6) [OF assms(1) r] by blast
  show "generation r = fGeneration f \<and> lastLeaseEpoch r = fLeaseEpoch f" if "fenceHeld f d" "fAssignmentId f = i"
    using that assms(2) asgOkD(2) [OF assms(1) r] by (auto simp: fenceHeld_iff rowFenced_def)
qed

interpretation leases: fenced_store stepAssignments always asgOk asgEvolves fenceHeld fenceIssued
proof
  show "fenceIssued f d" if "asgOk d" "fenceHeld f d" for f d
    using fenceHeld_row(1) [OF that(1) _ that(2)] that(2) by (auto simp: fenceIssued_def fenceHeld_iff)
  show "fenceIssued f t" if ev: "asgEvolves s t" and iss: "fenceIssued f s" for f s t
  proof -
    obtain r where r: "assignmentById (fAssignmentId f) s = Some r"
      using iss by (auto simp: fenceIssued_def split: option.splits)
    with ev obtain r' where r': "assignmentById (fAssignmentId f) t = Some r'" "follows r r'"
      unfolding asgEvolves_def by blast
    with iss r followsD(2) [OF r'(2)] show ?thesis by (auto simp: fenceIssued_def laterSession_def)
  qed
  show "\<not> fenceHeld f t" if ok: "asgOk s" "asgOk t" and ev: "asgEvolves s t"
    and iss: "fenceIssued f s" and lost: "\<not> fenceHeld f s" for f s t
  proof
    assume held: "fenceHeld f t"
    obtain r where r: "assignmentById (fAssignmentId f) s = Some r"
      using iss by (auto simp: fenceIssued_def split: option.splits)
    with ev obtain r' where r': "assignmentById (fAssignmentId f) t = Some r'" "follows r r'"
      unfolding asgEvolves_def by blast
    have now: "generation r' = fGeneration f" "lastLeaseEpoch r' = fLeaseEpoch f" "leaseEpoch r' = Some (fLeaseEpoch f)"
      using held r'(1) fenceHeld_row(1) [OF ok(2) r'(1) held] by (auto simp: fenceHeld_iff)
    have "leaseEpoch r = Some (fLeaseEpoch f)" "generation r = fGeneration f"
      using followsD(2) [OF r'(2)] now iss r by (auto simp: laterSession_def fenceIssued_def)
    with r fenceHeld_row(2) [OF ok(1) r] lost show False by (auto simp: fenceHeld_iff)
  qed
qed

section \<open>Reachable stores\<close>

inductive assignmentsReachable :: "adb \<Rightarrow> bool" where
  start: "assignmentsReachable \<lparr>hostedThreads = ts, assignments = [], checkpoints = []\<rparr>"
| step: "assignmentsReachable d \<Longrightarrow> stepAssignments opn d = Inr d' \<Longrightarrow> assignmentsReachable d'"

lemma asgOk_start: "asgOk \<lparr>hostedThreads = ts, assignments = [], checkpoints = []\<rparr>"
  by (simp add: asgOk_def assignmentsConsistent_def)

lemma assignmentsReachable_ok: "assignmentsReachable d \<Longrightarrow> asgOk d"
  by (induction rule: assignmentsReachable.induct) (auto intro: asgOk_start stepAssignments_ok)

lemma runOps_assignmentsReachable: "assignmentsReachable d \<Longrightarrow> assignmentsReachable (runOps stepAssignments ops d)"
  by (induction ops arbitrary: d) (auto simp: settle_def intro: assignmentsReachable.step split: sum.splits)

end
