(* ===== verification/Assignment_Properties.thy ===== *)
theory Assignment_Properties
  imports Assignment_Fencing
begin

text \<open>
  The properties of the assignment store: fencing of executors across replacements, pauses
  and reconnects, single use of versions and bootstraps, the cursor and the life of an
  assignment, checkpoints, and the retirement of orphaned provider instances.
\<close>

section \<open>A sample store\<close>

definition sampleClock :: "instant \<Rightarrow> clock" where
  "sampleClock t = \<lparr>txNow = t, wallNow = t\<rparr>"

definition sampleDigest :: string where
  "sampleDigest = ''sha256:'' @ replicate 64 (CHR ''a'')"

definition sampleCaps :: capability_snapshot where
  "sampleCaps = \<lparr>environmentDigest = sampleDigest, capturedAt = 0, capFilesystem = CapReady ''fs'',
     capNativeTools = CapReady ''tools'', capGit = CapReady ''git'', capProcess = CapReady ''proc'',
     capPty = CapReady ''pty'', capBrowser = CapUnavailable ''none'', capServices = CapUnavailable ''none'',
     capWorkspaceLifecycle = CapReady ''ws'', capMcp = None\<rparr>"

definition sampleVersion :: "int \<Rightarrow> int \<Rightarrow> version" where
  "sampleVersion g n = \<lparr>vAssignmentId = ''a'', vGeneration = g, vRevision = n\<rparr>"

definition sampleBootstrap :: bootstrap_input where
  "sampleBootstrap = \<lparr>bDigest = ''boot'', bLifetimeMillis = 60000\<rparr>"

definition sampleOpen :: open_session where
  "sampleOpen = \<lparr>osProviderInstanceId = ''p'', osExecutorInstanceId = ''e'', osProcessIncarnation = ''i'',
     osCapabilities = sampleCaps, osPresentedDigest = ''boot'', osSessionDigest = ''sess'',
     osLeaseLifetimeMillis = 60000\<rparr>"

definition sampleAccess :: "int \<Rightarrow> access" where
  "sampleAccess epoch = \<lparr>fAssignmentId = ''a'', fGeneration = 1, fLeaseEpoch = epoch, acProviderInstanceId = ''p'',
     acExecutorInstanceId = ''e'', acProcessIncarnation = ''i'', acSessionDigest = ''sess''\<rparr>"

definition sampleThreads :: adb where
  "sampleThreads = \<lparr>hostedThreads = [\<lparr>taId = ''t'', taOwnerId = ''o'', taExecutorKind = Orb, taWorkspaceId = ''w''\<rparr>],
     assignments = [], checkpoints = []\<rparr>"

definition awaitingRun :: "asg_op list" where
  "awaitingRun =
     [AoCreate (sampleClock 1) \<lparr>caId = ''a'', caOwnerId = ''o'', caThreadId = ''t'', caWorkspaceId = ''w'',
        caPlacement = OrbPlacement ''build'' ''scope'', caCheckout = None, caWorkspaceSeed = None\<rparr>,
      AoBeginProvisioning (sampleClock 2) (sampleVersion 1 0) sampleBootstrap,
      AoBindProviderInstance (sampleClock 3) (sampleVersion 1 1) ''p'']"

definition awaitingStore :: adb where
  "awaitingStore = runOps stepAssignments awaitingRun sampleThreads"

definition activeStore :: adb where
  "activeStore = runOps stepAssignments [AoOpenSession (sampleClock 4) (sampleVersion 1 2) sampleOpen] awaitingStore"

definition sampleCheckpoint :: checkpoint_input where
  "sampleCheckpoint = \<lparr>ciId = ''k'', ciObjectKey = ''obj'', ciContentDigest = sampleDigest, ciSizeBytes = 7,
     ciFormat = ''tar.zst'', ciCursor = (0, ''''), ciMetadata = JObject [(''note'', JString ''x'')]\<rparr>"

definition committedStore :: adb where
  "committedStore = runOps stepAssignments [AoCommitCheckpoint (sampleClock 5) (sampleAccess 1) sampleCheckpoint] activeStore"

lemma sampleThreads_reachable: "assignmentsReachable sampleThreads"
  unfolding sampleThreads_def by (rule assignmentsReachable.start)

lemma awaitingStore_reachable: "assignmentsReachable awaitingStore"
  unfolding awaitingStore_def by (rule runOps_assignmentsReachable [OF sampleThreads_reachable])

lemma activeStore_reachable: "assignmentsReachable activeStore"
  unfolding activeStore_def by (rule runOps_assignmentsReachable [OF awaitingStore_reachable])

lemma committedStore_reachable: "assignmentsReachable committedStore"
  unfolding committedStore_def by (rule runOps_assignmentsReachable [OF activeStore_reachable])

section \<open>Fencing\<close>

lemma stale_operations:
  assumes "assignmentById (fAssignmentId a) d \<noteq> None" "\<not> fenceHeld (fence.truncate a) d"
  shows "authenticate c a d = Inl staleFence" "heartbeat c a millis cursor d = Inl staleFence"
    "reconnect c a millis d = Inl staleFence" "updateCapabilities c a caps d = Inl staleFence"
    "release c a d = Inl staleFence" "commitCheckpoint c a inp d = Inl staleFence"
    "validateFence c (fence.truncate a) d = Inl staleFence"
proof -
  obtain r where r: "assignmentById (fAssignmentId a) d = Some r" using assms(1) by blast
  with assms(2) have "checkFence r a = Inl staleFence" "checkFence r (fence.truncate a) = Inl staleFence"
    by (auto simp: fenceHeld_def checkFence_def require_def fence.truncate_def)
  with r show "authenticate c a d = Inl staleFence" "heartbeat c a millis cursor d = Inl staleFence"
    "reconnect c a millis d = Inl staleFence" "updateCapabilities c a caps d = Inl staleFence"
    "release c a d = Inl staleFence" "commitCheckpoint c a inp d = Inl staleFence"
    "validateFence c (fence.truncate a) d = Inl staleFence"
    by (simp_all add: authenticate_def heartbeat_def reconnect_def updateCapabilities_def release_def
        commitCheckpoint_def validateFence_def locked_def checkAccess_def fence.truncate_def)
qed

lemma row_stays:
  assumes "assignmentsReachable d" "assignmentById i d = Some r"
  obtains r' where "assignmentById i (runOps stepAssignments ops d) = Some r'" "follows r r'"
  using assignmentStore.run_rel [OF assignmentsReachable_ok [OF assms(1)], of ops] assms(2)
  unfolding asgEvolves_def by (meson always_allowed(2))

text \<open>
  C3: once the fence of an access (assignment, generation and lease epoch) was current and
  then was lost, no later sequence of operations makes it current again: every operation
  under it answers that the fence is stale.
\<close>

theorem lost_fence_stays_lost:
  assumes "assignmentsReachable d" "fenceHeld (fence.truncate a) d"
    and "\<not> fenceHeld (fence.truncate a) (runOps stepAssignments xs d)"
    and "later = runOps stepAssignments (xs @ ys) d"
  shows "heartbeat c a millis cursor later = Inl staleFence \<and> reconnect c a millis later = Inl staleFence \<and>
    updateCapabilities c a caps later = Inl staleFence \<and> release c a later = Inl staleFence \<and>
    commitCheckpoint c a inp later = Inl staleFence \<and> authenticate c a later = Inl staleFence \<and>
    validateFence c (fence.truncate a) later = Inl staleFence"
proof -
  have lost: "\<not> fenceHeld (fence.truncate a) later"
    unfolding assms(4) by (rule leases.lost_forever [OF assignmentsReachable_ok [OF assms(1)] _ assms(2,3)]) simp
  obtain r where "assignmentById (fAssignmentId a) d = Some r"
    using assms(2) by (auto simp: fenceHeld_iff fence.truncate_def)
  from row_stays [OF assms(1) this, of "xs @ ys"] have "assignmentById (fAssignmentId a) later \<noteq> None"
    unfolding assms(4) by (metis option.distinct(1))
  from stale_operations [OF this lost] show ?thesis by simp
qed

theorem lost_fence_stays_lost_witness:
  "heartbeat (sampleClock 9) (sampleAccess 1) 60000 (1, ''x'')
     (runOps stepAssignments ([AoReconnect (sampleClock 6) (sampleAccess 1) 60000] @
       [AoPause (sampleClock 7) (sampleVersion 1 4), AoResume (sampleClock 8) (sampleVersion 1 5) sampleBootstrap])
       activeStore) = Inl staleFence"
proof -
  have held: "fenceHeld (fence.truncate (sampleAccess 1)) activeStore"
    "\<not> fenceHeld (fence.truncate (sampleAccess 1))
       (runOps stepAssignments [AoReconnect (sampleClock 6) (sampleAccess 1) 60000] activeStore)"
    by code_simp+
  from lost_fence_stays_lost [OF activeStore_reachable held refl] show ?thesis by blast
qed

text \<open>
  a lease epoch names one session.  Two accesses with the same assignment, generation
  and lease epoch that are both accepted, at whatever times and with whatever operations in
  between, are the same access: the same provider instance, executor instance, process and
  session credential.
\<close>

theorem epoch_names_one_session:
  assumes "assignmentsReachable d" "authenticate c a d = Inr x"
    and "authenticate c' b (runOps stepAssignments ops d) = Inr y"
    and "fence.truncate a = fence.truncate b"
  shows "a = b"
proof -
  let ?d = "runOps stepAssignments ops d"
  have same: "fAssignmentId a = fAssignmentId b" "fGeneration a = fGeneration b" "fLeaseEpoch a = fLeaseEpoch b"
    using assms(4) by (simp_all add: fence.truncate_def)
  obtain r where r: "assignmentById (fAssignmentId a) d = Some r" "accessHeld r a"
    using assms(2) unfolding authenticate_def by (auto elim: access_run)
  obtain s where s: "assignmentById (fAssignmentId b) ?d = Some s" "accessHeld s b"
    using assms(3) unfolding authenticate_def by (auto elim: access_run)
  obtain r' where r': "assignmentById (fAssignmentId a) ?d = Some r'" "follows r r'"
    using row_stays [OF assms(1) r(1)] by blast
  have "r' = s" using r'(1) s(1) same by simp
  have "leaseEpoch r = Some (lastLeaseEpoch r)" "leaseEpoch s = Some (lastLeaseEpoch s)"
    using asgOkD(2) [OF assignmentsReachable_ok [OF assms(1)] assignmentByIdD(1) [OF r(1)]]
      asgOkD(2) [OF assignmentsReachable_ok [OF runOps_assignmentsReachable [OF assms(1)]] assignmentByIdD(1) [OF s(1)]]
      r(2) s(2) by (auto simp: rowFenced_def accessHeld_def)
  then have "providerInstanceId s = providerInstanceId r \<and> executorInstanceId s = executorInstanceId r \<and>
      processIncarnation s = processIncarnation r \<and> sessionDigest s = sessionDigest r"
    using followsD(2) [OF r'(2)] same r(2) s(2) unfolding \<open>r' = s\<close> laterSession_def accessHeld_def by auto
  then show ?thesis using same r(2) s(2) by (cases a, cases b) (simp add: accessHeld_def)
qed

theorem epoch_names_one_session_witness:
  "\<exists>x y. authenticate (sampleClock 5) (sampleAccess 1) activeStore = Inr x \<and>
     authenticate (sampleClock 8) (sampleAccess 1)
       (runOps stepAssignments [AoHeartbeat (sampleClock 6) (sampleAccess 1) 60000 (3, ''c'')] activeStore) = Inr y \<and>
     sampleAccess 1 = sampleAccess 1"
proof -
  have "\<not> isl (authenticate (sampleClock 5) (sampleAccess 1) activeStore)"
    "\<not> isl (authenticate (sampleClock 8) (sampleAccess 1)
       (runOps stepAssignments [AoHeartbeat (sampleClock 6) (sampleAccess 1) 60000 (3, ''c'')] activeStore))"
    by code_simp+
  then obtain x y where run: "authenticate (sampleClock 5) (sampleAccess 1) activeStore = Inr x"
    "authenticate (sampleClock 8) (sampleAccess 1)
       (runOps stepAssignments [AoHeartbeat (sampleClock 6) (sampleAccess 1) 60000 (3, ''c'')] activeStore) = Inr y"
    by (metis sum.collapse(2))
  with epoch_names_one_session [OF activeStore_reachable run refl] show ?thesis by blast
qed

text \<open>The version an operation of the control plane presents.\<close>

fun versionOf :: "asg_op \<Rightarrow> version option" where
  "versionOf (AoBeginProvisioning _ v _) = Some v"
| "versionOf (AoBeginReplacement _ v _ _) = Some v"
| "versionOf (AoBindProviderInstance _ v _) = Some v"
| "versionOf (AoOpenSession _ v _) = Some v"
| "versionOf (AoPause _ v) = Some v"
| "versionOf (AoResume _ v _) = Some v"
| "versionOf (AoTerminate _ v) = Some v"
| "versionOf _ = None"

lemma versionOf_stale:
  assumes "versionOf opn = Some v" "assignmentById (vAssignmentId v) d = Some r"
    "\<not> (generation r = vGeneration v \<and> revision r = vRevision v)"
  shows "stepAssignments opn d = Inl staleRevision"
proof -
  have "locked (vAssignmentId v) d = Inr r" "checkVersion r v = Inl staleRevision"
    using assms(2,3) by (auto simp: locked_Inr checkVersion_def require_def)
  with assms(1) show ?thesis
    by (cases opn)
      (simp_all add: beginProvisioning_def beginReplacement_def bindProviderInstance_def openSession_def pause_def
        resume_def terminate_def adbOf_def)
qed

lemma replaces_version:
  assumes "replaces d r r' d'" "assignmentById (vAssignmentId v) d = Some r" "revision r = vRevision v"
    "revision r' = revision r + 1"
  shows "\<exists>r'. assignmentById (vAssignmentId v) d' = Some r' \<and> revision r' = vRevision v + 1"
  using replacesD(3) [OF assms(1)] assignmentByIdD(2) [OF assms(2)] assms(3,4) by auto

lemma rows_next_revision:
  "revision (provisionedRow c b prov r) = revision r + 1" "revision (replacedRow c b p r) = revision r + 1"
  "revision (boundRow c pid r) = revision r + 1" "revision (openedRow c inp r) = revision r + 1"
  "revision (pausedRow t r) = revision r + 1" "revision (resumedRow c b r) = revision r + 1"
  "revision (terminatedRow c r) = revision r + 1"
  by (simp_all add: row_defs)

lemma versionOf_ran:
  assumes ok: "assignmentsConsistent d" and run: "stepAssignments opn d = Inr d'" and v: "versionOf opn = Some v"
  shows "\<exists>r'. assignmentById (vAssignmentId v) d' = Some r' \<and> revision r' = vRevision v + 1"
proof (cases opn)
  case (AoBeginProvisioning c w b)
  with run v obtain a where "beginProvisioning c v b d = Inr (a, d')" by (auto simp: adbOf_Inr)
  from ok this show ?thesis
    by (rule beginProvisioning_run) (erule replaces_version, assumption+, rule rows_next_revision)
next
  case (AoBeginReplacement c w p b)
  with run v obtain a where "beginReplacement c v p b d = Inr (a, d')" by (auto simp: adbOf_Inr)
  from ok this show ?thesis
    by (rule beginReplacement_run) (erule replaces_version, assumption+, rule rows_next_revision)
next
  case (AoBindProviderInstance c w pid)
  with run v obtain a where "bindProviderInstance c v pid d = Inr (a, d')" by (auto simp: adbOf_Inr)
  from ok this show ?thesis
    by (rule bindProviderInstance_run) (erule replaces_version, assumption+, rule rows_next_revision)
next
  case (AoOpenSession c w inp)
  with run v obtain a where "openSession c v inp d = Inr (a, d')" by (auto simp: adbOf_Inr)
  from ok this show ?thesis
    by (rule openSession_run) (erule replaces_version, assumption+, rule rows_next_revision)
next
  case (AoPause c w)
  with run v obtain a where "pause c v d = Inr (a, d')" by (auto simp: adbOf_Inr)
  from ok this show ?thesis
    by (rule pause_run) (erule replaces_version, assumption+, rule rows_next_revision)
next
  case (AoResume c w b)
  with run v obtain a where "resume c v b d = Inr (a, d')" by (auto simp: adbOf_Inr)
  from ok this show ?thesis
    by (rule resume_run) (erule replaces_version, assumption+, rule rows_next_revision)
next
  case (AoTerminate c w)
  with run v obtain a where "terminate c v d = Inr (a, d')" by (auto simp: adbOf_Inr)
  from ok this show ?thesis
    by (rule terminate_run) (erule replaces_version, assumption+, rule rows_next_revision)
qed (use v in simp_all)

text \<open>
  the version an operation presents is single use.  After one operation succeeded with a
  version of an assignment, every later operation that presents the same version is refused,
  whatever happened in between: of two control planes that read the same version at most
  one acts on it.
\<close>

theorem version_is_single_use:
  assumes "assignmentsReachable d" "versionOf first = Some v" "versionOf second = Some v"
    and "stepAssignments first d = Inr d1"
  shows "stepAssignments second (runOps stepAssignments ops d1) = Inl staleRevision"
proof -
  have d1: "assignmentsReachable d1" using assignmentsReachable.step [OF assms(1,4)] .
  obtain r where r: "assignmentById (vAssignmentId v) d1 = Some r" "revision r = vRevision v + 1"
    using versionOf_ran [OF asgOkD(1) [OF assignmentsReachable_ok [OF assms(1)]] assms(4,2)] by blast
  obtain s where s: "assignmentById (vAssignmentId v) (runOps stepAssignments ops d1) = Some s" "follows r s"
    using row_stays [OF d1 r(1)] by blast
  show ?thesis
    using versionOf_stale [OF assms(3) s(1)] followsD(4) [OF s(2)] r(2) by simp
qed

theorem version_is_single_use_witness:
  "stepAssignments (AoOpenSession (sampleClock 9) (sampleVersion 1 2) sampleOpen)
     (runOps stepAssignments [AoHeartbeat (sampleClock 6) (sampleAccess 1) 60000 (3, ''c'')] activeStore) =
   Inl staleRevision"
proof -
  have first: "stepAssignments (AoOpenSession (sampleClock 4) (sampleVersion 1 2) sampleOpen) awaitingStore = Inr activeStore"
    by code_simp
  show ?thesis by (rule version_is_single_use [OF awaitingStore_reachable _ _ first]) simp_all
qed

definition grantedAccess :: "executor_assignment \<Rightarrow> open_session \<Rightarrow> access" where
  "grantedAccess x inp = \<lparr>fAssignmentId = xId x, fGeneration = xGeneration x, fLeaseEpoch = xLastLeaseEpoch x,
     acProviderInstanceId = osProviderInstanceId inp, acExecutorInstanceId = osExecutorInstanceId inp,
     acProcessIncarnation = osProcessIncarnation inp, acSessionDigest = osSessionDigest inp\<rparr>"

lemma decoded_fields:
  assumes "decodeAssignment r = Inr x"
  shows "xId x = asgId r" "xGeneration x = generation r" "xRevision x = revision r"
    "xLastLeaseEpoch x = lastLeaseEpoch r" "xCursor x = (cursorSequence r, cursorValue r)"
    "xPlacement x = placement r" "xThreadId x = threadId r"
  using assms by (auto simp: decodeAssignment_def Let_def result_simps split: if_splits)

text \<open>
  opening a session needs a live bootstrap of the bound provider instance with the
  digest that was issued, consumes it, and grants the executor an access of the next lease
  epoch that is accepted until the lease expires.
\<close>

theorem session_consumes_bootstrap:
  assumes "assignmentsReachable d" "openSession c v inp d = Inr (x, d')"
    and "wallNow later < txNow c + osLeaseLifetimeMillis inp"
  shows "(\<exists>r. assignmentById (vAssignmentId v) d = Some r \<and> lifecycle r = LcAwaitingBootstrap \<and>
      providerInstanceId r = Some (osProviderInstanceId inp) \<and> bootstrapDigest r = Some (osPresentedDigest inp) \<and>
      someOf (\<lambda>t. wallNow c < t) (bootstrapExpiresAt r) \<and> xLastLeaseEpoch x = lastLeaseEpoch r + 1) \<and>
    authenticate later (grantedAccess x inp) d' = Inr x \<and>
    isBootstrapLive later (vAssignmentId v) (vGeneration v) d' = Inr False"
proof -
  have ok: "assignmentsConsistent d" using asgOkD(1) [OF assignmentsReachable_ok [OF assms(1)]] .
  from ok assms(2) show ?thesis
  proof (cases rule: openSession_run)
    case (1 r)
    let ?r = "openedRow c inp r"
    have id: "asgId r = vAssignmentId v" using assignmentByIdD(2) [OF 1(1)] .
    have new: "assignmentById (vAssignmentId v) d' = Some ?r" using replacesD(3) [OF 1(8)] id by simp
    note x = decoded_fields [OF 1(9)]
    have held: "accessHeld ?r (grantedAccess x inp)"
      using 1(5) by (simp add: accessHeld_def grantedAccess_def x row_defs)
    have live: "leaseLive later ?r" using assms(3) by (simp add: leaseLive_def row_defs)
    have "authenticate later (grantedAccess x inp) d' = Inr x"
      using held live 1(9) new checkAccess_Inr [of later ?r "grantedAccess x inp" True "()"]
      by (simp add: authenticate_def grantedAccess_def x id row_defs locked_def)
    moreover have "isBootstrapLive later (vAssignmentId v) (vGeneration v) d' = Inr False"
      using new 1(2) by (simp add: isBootstrapLive_def locked_def row_defs)
    moreover have "xLastLeaseEpoch x = lastLeaseEpoch r + 1" by (simp add: x row_defs)
    ultimately show ?thesis using 1(1,4-7) by (simp add: bootstrapLive_def)
  qed
qed

theorem session_consumes_bootstrap_witness:
  "\<exists>x. openSession (sampleClock 4) (sampleVersion 1 2) sampleOpen awaitingStore = Inr (x, activeStore) \<and>
     authenticate (sampleClock 60003) (grantedAccess x sampleOpen) activeStore = Inr x"
proof -
  have "adbOf (openSession (sampleClock 4) (sampleVersion 1 2) sampleOpen awaitingStore) = Inr activeStore" by code_simp
  then obtain x where x: "openSession (sampleClock 4) (sampleVersion 1 2) sampleOpen awaitingStore = Inr (x, activeStore)"
    by (auto simp: adbOf_Inr)
  moreover have "wallNow (sampleClock 60003) < txNow (sampleClock 4) + osLeaseLifetimeMillis sampleOpen" by code_simp
  ultimately show ?thesis using session_consumes_bootstrap [OF awaitingStore_reachable x] by blast
qed

end
