(* ===== verification/Assignment_Lifecycle.thy ===== *)
theory Assignment_Lifecycle
  imports Assignment_Properties
begin

text \<open>
  The life of an assignment: the abstract lease it refines, its cursor and checkpoints, its
  end, the reads, and the retirement of orphaned provider instances.
\<close>

section \<open>The abstract lease\<close>

text \<open>
  What the assignment promises about authority, without rows: a generation, the last lease
  epoch issued in it, and the holder of the lease.
\<close>

record lease =
  lGeneration :: int
  lEpoch :: int
  lHolder :: "(string \<times> string \<times> string \<times> string) option"

inductive leaseStep :: "lease \<Rightarrow> lease \<Rightarrow> bool" where
  keep: "leaseStep l l"
| acquire: "lHolder l = None \<Longrightarrow> leaseStep l (l\<lparr>lEpoch := lEpoch l + 1, lHolder := Some h\<rparr>)"
| renew: "lHolder l = Some h \<Longrightarrow> leaseStep l (l\<lparr>lEpoch := lEpoch l + 1\<rparr>)"
| drop: "leaseStep l (l\<lparr>lHolder := None\<rparr>)"
| fence: "leaseStep l (l\<lparr>lGeneration := lGeneration l + 1, lEpoch := 0, lHolder := None\<rparr>)"

inductive_simps leaseStep_simps: "leaseStep l l'"

definition leaseOf :: "assignment_row \<Rightarrow> lease" where
  "leaseOf r = \<lparr>lGeneration = generation r, lEpoch = lastLeaseEpoch r,
     lHolder = (case leaseEpoch r of None \<Rightarrow> None
       | Some _ \<Rightarrow> Some (the (providerInstanceId r), the (executorInstanceId r), the (processIncarnation r), the (sessionDigest r)))\<rparr>"

lemma rowStep_lease:
  assumes "rowStep r r'" "assignmentCheck r"
  shows "leaseStep (leaseOf r) (leaseOf r')"
  using assms
proof (induction rule: rowStep.induct)
  case (provision r c b)
  have "leaseEpoch r = None" using lease_iff_active [OF provision.prems] provision.hyps(1) by auto
  then show ?case by (simp add: leaseOf_def row_defs leaseStep.keep)
next
  case (replace r p u c b)
  show ?case using leaseStep.fence [of "leaseOf r"] by (simp add: leaseOf_def row_defs)
next
  case (bind r provider c)
  have "leaseEpoch r = None" using lease_iff_active [OF bind.prems] bind.hyps(1) by auto
  then show ?case by (simp add: leaseOf_def row_defs leaseStep.keep)
next
  case (session r inp c)
  have "leaseEpoch r = None" using lease_iff_active [OF session.prems] session.hyps(1) by auto
  then show ?case using leaseStep.acquire [of "leaseOf r"] by (simp add: leaseOf_def row_defs)
next
  case (reconnecting r a c millis)
  then show ?case using leaseStep.renew [of "leaseOf r"] by (simp add: leaseOf_def row_defs accessHeld_def)
next
  case (pausing r t)
  show ?case using leaseStep.drop [of "leaseOf r"] by (simp add: leaseOf_def row_defs)
next
  case (resuming r c b)
  have "leaseEpoch r = None" using lease_iff_active [OF resuming.prems] resuming.hyps(1) by auto
  then show ?case by (simp add: leaseOf_def row_defs leaseStep.keep)
next
  case (terminating r c)
  show ?case using leaseStep.drop [of "leaseOf r"] by (simp add: leaseOf_def row_defs)
next
  case (retiring r c)
  show ?case using leaseStep.fence [of "leaseOf r"] by (simp add: leaseOf_def row_defs)
qed (simp_all add: leaseOf_def row_defs leaseStep.keep accessHeld_def)

lemma row_after_step:
  assumes "assignmentsReachable d" "stepAssignments opn d = Inr d'" "assignmentById i d = Some r"
  obtains r' where "assignmentById i d' = Some r'" "r' = r \<or> rowStep r r'"
proof -
  have ok: "assignmentsConsistent d" using asgOkD(1) [OF assignmentsReachable_ok [OF assms(1)]] .
  from ok assms(2) show ?thesis
  proof (cases rule: stepAssignments_cases)
    case (created s) with assms(3) that show ?thesis by (simp add: assignmentById_def row_by_append)
  next
    case (stepped s s')
    show ?thesis
    proof (cases "i = asgId s")
      case True
      with stepped assms(3) have "r = s" by (auto dest: replacesD(1))
      with True stepped that [OF replacesD(3) [OF stepped(2), folded True]] show ?thesis by simp
    next
      case False
      have "assignmentById i d' = Some r" using replacesD(4) [OF stepped(2) False] assms(3) by (rule trans)
      with that show ?thesis by blast
    qed
  next
    case (committed s c a inp k)
    let ?d = "d\<lparr>checkpoints := checkpoints d @ [k]\<rparr>"
    have r: "assignmentById i ?d = Some r" using assms(3) by (simp add: assignmentById_def)
    show ?thesis
    proof (cases "i = asgId s")
      case True
      with replacesD(1) [OF committed(7)] r have "r = s" by simp
      with rowStep.checkpointing [OF committed(1,2)] that [OF replacesD(3) [OF committed(7), folded True]]
      show ?thesis by blast
    next
      case False
      have "assignmentById i d' = Some r" using replacesD(4) [OF committed(7) False] r by (rule trans)
      with that show ?thesis by blast
    qed
  qed (use that assms(3) in simp)
qed

text \<open>
  C10: every operation of the store, seen on one assignment, is a step of the abstract lease:
  a holder is granted only when there is none, under the next epoch; a holder renews its
  own lease under the next epoch; the holder is dropped; or a new generation starts at
  epoch zero without a holder.
\<close>

theorem assignment_refines_lease:
  assumes "assignmentsReachable d" "stepAssignments opn d = Inr d'" "assignmentById i d = Some r"
  shows "\<exists>r'. assignmentById i d' = Some r' \<and> leaseStep (leaseOf r) (leaseOf r')"
proof -
  have check: "assignmentCheck r"
    using asgOkD(6) [OF assignmentsReachable_ok [OF assms(1)] assignmentByIdD(1) [OF assms(3)]] .
  from assms show ?thesis
  proof (rule row_after_step)
    fix r'
    assume "assignmentById i d' = Some r'" "r' = r \<or> rowStep r r'"
    then show ?thesis using rowStep_lease [OF _ check] leaseStep.keep by blast
  qed
qed

theorem assignment_refines_lease_witness:
  "\<exists>r'. assignmentById ''a'' activeStore = Some r' \<and>
     leaseStep (leaseOf (assignments awaitingStore ! 0)) (leaseOf r') \<and> lEpoch (leaseOf r') = 1"
proof -
  have run: "stepAssignments (AoOpenSession (sampleClock 4) (sampleVersion 1 2) sampleOpen) awaitingStore = Inr activeStore"
    "assignmentById ''a'' awaitingStore = Some (assignments awaitingStore ! 0)"
    "map_option (\<lambda>r. lEpoch (leaseOf r)) (assignmentById ''a'' activeStore) = Some 1"
    by code_simp+
  with assignment_refines_lease [OF awaitingStore_reachable run(1,2)] show ?thesis by auto
qed

section \<open>The end and the cursor of an assignment\<close>

text \<open>
  over any sequence of operations an assignment keeps its identity and authority (owner,
  thread, workspace, executor kind, checkout, seed), its revision and generation never
  decrease, the acknowledged cursor never moves back nor changes its value at the same
  sequence, and a terminated assignment stays terminated.
\<close>

theorem assignment_only_advances:
  assumes "assignmentsReachable d" "assignmentById i d = Some r"
  shows "\<exists>r'. assignmentById i (runOps stepAssignments ops d) = Some r' \<and> sameIdentity r r' \<and>
    revision r \<le> revision r' \<and> generation r \<le> generation r' \<and>
    (cursorSequence r < cursorSequence r' \<or> cursorSequence r' = cursorSequence r \<and> cursorValue r' = cursorValue r) \<and>
    (lifecycle r = LcTerminated \<longrightarrow> lifecycle r' = LcTerminated)"
proof -
  obtain r' where r': "assignmentById i (runOps stepAssignments ops d) = Some r'" "follows r r'"
    using row_stays [OF assms] by blast
  with followsD [OF r'(2)] show ?thesis by (auto simp: laterCursor_def laterSession_def)
qed

theorem assignment_only_advances_witness:
  "\<exists>r'. assignmentById ''a'' (runOps stepAssignments
       [AoHeartbeat (sampleClock 6) (sampleAccess 1) 60000 (3, ''c''),
        AoTerminate (sampleClock 7) (sampleVersion 1 4),
        AoBeginProvisioning (sampleClock 8) (sampleVersion 1 5) sampleBootstrap] activeStore) = Some r' \<and>
     lifecycle r' = LcTerminated \<and> 0 \<le> cursorSequence r'"
proof -
  let ?d = "runOps stepAssignments [AoHeartbeat (sampleClock 6) (sampleAccess 1) 60000 (3, ''c''),
    AoTerminate (sampleClock 7) (sampleVersion 1 4)] activeStore"
  have row: "assignmentById ''a'' ?d = Some (assignments ?d ! 0)" "lifecycle (assignments ?d ! 0) = LcTerminated"
    "cursorSequence (assignments ?d ! 0) = 3"
    by code_simp+
  have reach: "assignmentsReachable ?d" by (rule runOps_assignmentsReachable [OF activeStore_reachable])
  from assignment_only_advances [OF reach row(1),
      of "[AoBeginProvisioning (sampleClock 8) (sampleVersion 1 5) sampleBootstrap]"] row(2,3)
  show ?thesis by (auto simp flip: runOps_append)
qed

section \<open>Checkpoints\<close>

lemma committed_lookup:
  assumes "asgOk d" "commitCheckpoint c a inp d = Inr (k, d')"
  shows "checkpointById (ciId inp) d' = Some k" "checkpointMatches k a inp" "decodeCheckpoint k = Inr k"
    "\<exists>r. assignmentById (fAssignmentId a) d' = Some r \<and> accessHeld r a \<and> ciCursor inp = (cursorSequence r, cursorValue r)"
proof -
  from asgOkD(1) [OF assms(1)] assms(2)
  have "checkpointById (ciId inp) d' = Some k \<and> checkpointMatches k a inp \<and> decodeCheckpoint k = Inr k \<and>
    (\<exists>r. assignmentById (fAssignmentId a) d' = Some r \<and> accessHeld r a \<and> ciCursor inp = (cursorSequence r, cursorValue r))"
  proof (cases rule: commitCheckpoint_run)
    case (known r) then show ?thesis by blast
  next
    case (fresh r)
    have id: "asgId r = fAssignmentId a" using assignmentByIdD(2) [OF fresh(1)] .
    have "accessHeld (checkpointedRow c (ciId inp) r) a" using fresh(2) by (simp add: accessHeld_def row_defs)
    moreover have "checkpointMatches k a inp"
      using fresh(2,4,6) id by (simp add: checkpointMatches_def checkpointOf_def accessHeld_def)
    moreover have "checkpointById (ciId inp) d' = Some k"
      using fresh(5,6) replacesD(5) [OF fresh(9)] by (simp add: checkpointById_def row_by_append) (simp add: checkpointOf_def)
    moreover have "assignmentById (fAssignmentId a) d' = Some (checkpointedRow c (ciId inp) r)"
      using replacesD(3) [OF fresh(9)] id by simp
    ultimately show ?thesis using fresh(4,7) by (simp add: row_defs)
  qed
  then show "checkpointById (ciId inp) d' = Some k" "checkpointMatches k a inp" "decodeCheckpoint k = Inr k"
    "\<exists>r. assignmentById (fAssignmentId a) d' = Some r \<and> accessHeld r a \<and> ciCursor inp = (cursorSequence r, cursorValue r)"
    by simp_all
qed

text \<open>
  committing a checkpoint is idempotent.  The same commit by the same holder while its
  lease lives returns the same checkpoint and changes nothing; and a checkpoint, once
  committed, is never altered by any operation.
\<close>

theorem checkpoint_commit_idempotent:
  assumes "assignmentsReachable d" "commitCheckpoint c a inp d = Inr (k, d')"
    and "validateFence c' (fence.truncate a) d' = Inr x"
  shows "commitCheckpoint c' a inp d' = Inr (k, d') \<and>
    checkpointById (ciId inp) (runOps stepAssignments ops d') = Some k"
proof -
  have ok: "asgOk d" using assignmentsReachable_ok [OF assms(1)] .
  note k = committed_lookup [OF ok assms(2)]
  obtain r where r: "assignmentById (fAssignmentId a) d' = Some r" "accessHeld r a"
    "ciCursor inp = (cursorSequence r, cursorValue r)" using k(4) by blast
  have "leaseLive c' r"
    using assms(3) r(1) by (auto simp: validateFence_def result_simps locked_Inr fence.truncate_def split: if_splits)
  with r(2) have "checkAccess c' r a True = Inr ()" by (simp add: checkAccess_Inr)
  with r k have again: "commitCheckpoint c' a inp d' = Inr (k, d')"
    by (simp add: commitCheckpoint_def locked_def)
  have "stepAssignments (AoCommitCheckpoint c a inp) d = Inr d'" using assms(2) by (simp add: adbOf_def)
  then have "asgOk d'" using stepAssignments_ok [OF ok] by blast
  with assignmentStore.run_rel [of d' ops] k(1) again show ?thesis by (simp add: asgEvolves_def)
qed

theorem checkpoint_commit_idempotent_witness:
  "\<exists>k. commitCheckpoint (sampleClock 5) (sampleAccess 1) sampleCheckpoint activeStore = Inr (k, committedStore) \<and>
     commitCheckpoint (sampleClock 6) (sampleAccess 1) sampleCheckpoint committedStore = Inr (k, committedStore)"
proof -
  have "adbOf (commitCheckpoint (sampleClock 5) (sampleAccess 1) sampleCheckpoint activeStore) = Inr committedStore"
    by code_simp
  then obtain k where k: "commitCheckpoint (sampleClock 5) (sampleAccess 1) sampleCheckpoint activeStore = Inr (k, committedStore)"
    by (auto simp: adbOf_Inr)
  have "\<not> isl (validateFence (sampleClock 6) (fence.truncate (sampleAccess 1)) committedStore)" by code_simp
  then obtain x where "validateFence (sampleClock 6) (fence.truncate (sampleAccess 1)) committedStore = Inr x"
    by (metis sum.collapse(2))
  from checkpoint_commit_idempotent [OF activeStore_reachable k this] k show ?thesis by blast
qed

section \<open>Reads\<close>

text \<open>
  C28: what is stored can be read.  In every reachable store every assignment decodes, so
  that the reads by id and by thread and the list of managed assignments never fail, and the
  latest checkpoint an assignment names exists and belongs to it.
\<close>

theorem reads_never_fail:
  assumes "assignmentsReachable d"
  shows "\<not> isl (getAssignment i d) \<and> \<not> isl (getForThread t d) \<and> \<not> isl (listManaged d) \<and>
    (\<forall>r k. assignmentById i d = Some r \<and> latestCheckpointId r = Some k \<longrightarrow>
      (\<exists>ck. latestCheckpoint i d = Inr (Some ck) \<and> ckId ck = k \<and> ckAssignmentId ck = i))"
proof -
  have ok: "asgOk d" using assignmentsReachable_ok [OF assms] .
  have get: "\<not> isl (getAssignment j d)" for j
    using asgOkD(3) [OF ok] assignmentByIdD(1)
    by (fastforce simp: getAssignment_def decodes_iff split: option.splits)
  have thread: "\<not> isl (getForThread t d)"
    using get by (simp add: getForThread_def split: option.splits)
  have list: "\<not> isl (listManaged d)"
  proof -
    let ?rows = "take 1000 (sort_key asgId (filter (\<lambda>r. lifecycle r \<noteq> LcTerminated) (assignments d)))"
    have "\<exists>a. decodeAssignment r = Inr a" if "r \<in> set ?rows" for r
      using in_set_takeD [OF that] asgOkD(3) [OF ok] by (auto simp: decodes_iff)
    then have "decodeAssignment r = Inr (projr (decodeAssignment r))" if "r \<in> set ?rows" for r
      using that by (metis sum.sel(2))
    then have "map decodeAssignment ?rows = map Inr (map (\<lambda>r. projr (decodeAssignment r)) ?rows)"
      by simp
    then have "listManaged d = Inr (map (\<lambda>r. projr (decodeAssignment r)) ?rows)"
      unfolding listManaged_def traverseE_Inr_iff .
    then show ?thesis by simp
  qed
  have latest: "\<exists>ck. latestCheckpoint i d = Inr (Some ck) \<and> ckId ck = k \<and> ckAssignmentId ck = i"
    if r: "assignmentById i d = Some r" "latestCheckpointId r = Some k" for r k
  proof -
    note mem = assignmentByIdD [OF r(1)]
    obtain ck where ck: "checkpointById k d = Some ck" "ckAssignmentId ck = asgId r"
      using asgOkD(4) [OF ok mem(1)] r(2) by (auto simp: checkpointLinked_def someOf_iff)
    then have "ck \<in> set (checkpoints d)" "ckId ck = k" by (auto simp: checkpointById_def dest: row_by_SomeD)
    with asgOkD(5) [OF ok] r ck mem show ?thesis by (simp add: latestCheckpoint_def)
  qed
  from get thread list latest show ?thesis by blast
qed

theorem reads_never_fail_witness:
  "\<exists>ck. latestCheckpoint ''a'' committedStore = Inr (Some ck) \<and> ckId ck = ''k'' \<and> ckAssignmentId ck = ''a''"
proof -
  have "assignmentById ''a'' committedStore = Some (assignments committedStore ! 0)"
    "latestCheckpointId (assignments committedStore ! 0) = Some ''k''"
    by code_simp+
  with reads_never_fail [OF committedStore_reachable, of "''a''"] show ?thesis by blast
qed

end
