(* ===== verification/Assignment_Orphans.thy ===== *)
theory Assignment_Orphans
  imports Assignment_Lifecycle
begin

text \<open>
  The retirement of orphaned provider instances, and when the constraints of the assignment
  table refuse a write.
\<close>

section \<open>Orphaned provider instances\<close>

lemma find_sorted_None:
  "find P (sort_key f xs) = None \<longleftrightarrow> (\<forall>x \<in> set xs. \<not> P x)"
  by (auto simp: find_None_iff)

lemma claimed_authority:
  assumes ok: "assignmentsConsistent d" and run: "claimOrphan c inp d = Inr (Claimed, d')"
    and one: "\<And>r s. r \<in> set (assignments d) \<Longrightarrow> s \<in> set (assignments d) \<Longrightarrow>
      providerInstanceId r = Some (orProviderInstanceId inp) \<Longrightarrow>
      providerInstanceId s = Some (orProviderInstanceId inp) \<Longrightarrow> r = s"
    and s: "s \<in> set (assignments d)" "providerInstanceId s = Some (orProviderInstanceId inp)"
  shows "lifecycle s = LcTerminated \<or> lockOrphanAuthority c inp d = OrphanCandidate (Some s)"
proof -
  let ?P = "\<lambda>r. providerInstanceId r = Some (orProviderInstanceId inp)"
  let ?rows = "sort_key asgId (filter (\<lambda>r. ?P r \<or> Some (asgId r) = orAssignmentId inp) (assignments d))"
  have "find ?P ?rows \<noteq> None" using s by (auto simp: find_sorted_None)
  then obtain b where b: "find ?P ?rows = Some b" by blast
  with find_mem [OF b] one [of b s] s have bs: "find ?P ?rows = Some s" by auto
  have "lockOrphanAuthority c inp d \<noteq> OrphanPreserve"
    using run by (auto simp: claimOrphan_def)
  with bs show ?thesis
    by (auto simp: lockOrphanAuthority_def Let_def split: if_splits)
qed

text \<open>
  a claimed provider instance may be destroyed.  When the claim of an orphan succeeds
  and at most one assignment is bound to the provider instance, then afterwards no
  assignment that is not terminated is bound to it; the assignment that was bound starts a
  new generation without an owner, and inspecting the orphan before would have answered the
  same.
\<close>

theorem claimed_orphan_is_unbound:
  assumes "assignmentsReachable d" "claimOrphan c inp d = Inr (Claimed, d')"
    and "\<forall>r \<in> set (assignments d). \<forall>s \<in> set (assignments d).
      providerInstanceId r = Some (orProviderInstanceId inp) \<and> providerInstanceId s = Some (orProviderInstanceId inp) \<longrightarrow> r = s"
  shows "inspectOrphan c inp d = Candidate \<and>
    (\<forall>r \<in> set (assignments d'). providerInstanceId r = Some (orProviderInstanceId inp) \<longrightarrow> lifecycle r = LcTerminated)"
proof -
  have okd: "asgOk d" using assignmentsReachable_ok [OF assms(1)] .
  note ok = asgOkD(1) [OF okd]
  have bound: "lifecycle s = LcTerminated \<or> lockOrphanAuthority c inp d = OrphanCandidate (Some s)"
    if "s \<in> set (assignments d)" "providerInstanceId s = Some (orProviderInstanceId inp)" for s
    using claimed_authority [OF ok assms(2) _ that] assms(3) by blast
  have inspect: "inspectOrphan c inp d = Candidate"
    using assms(2) by (auto simp: inspectOrphan_def claimOrphan_def split: orphan_authority.splits)
  from ok assms(2) show ?thesis
  proof (cases rule: claimOrphan_run)
    case idle with bound inspect show ?thesis by auto
  next
    case (retired r)
    have "lifecycle s = LcTerminated"
      if s: "s \<in> set (assignments d')" "providerInstanceId s = Some (orProviderInstanceId inp)" for s
    proof -
      from assignments_after [OF retired(4) okd refl s(1)] show ?thesis
      proof
        assume "s = retireRow c r" with s(2) show ?thesis by (simp add: row_defs)
      next
        assume mem: "s \<in> set (assignments d)"
        from bound [OF mem s(2)] show ?thesis
        proof
          assume "lockOrphanAuthority c inp d = OrphanCandidate (Some s)"
          with retired(1) have "s = r" by simp
          have "Some s = assignmentById (asgId s) d'"
            using assignmentById_mem [OF replacesD(7) [OF retired(4)] s(1)] by (rule sym)
          also have "\<dots> = Some (retireRow c r)" unfolding \<open>s = r\<close> by (rule replacesD(3) [OF retired(4)])
          finally show ?thesis using s(2) by (simp add: row_defs)
        qed
      qed
    qed
    with inspect show ?thesis by blast
  qed
qed

theorem claimed_orphan_is_unbound_witness:
  "\<exists>d'. claimOrphan (sampleClock 60003) \<lparr>orProviderInstanceId = ''p'', orAssignmentId = None, orGeneration = None\<rparr>
       awaitingStore = Inr (Claimed, d') \<and>
     list_all (\<lambda>r. providerInstanceId r \<noteq> Some ''p'' \<or> lifecycle r = LcTerminated) (assignments d')"
proof -
  let ?inp = "\<lparr>orProviderInstanceId = ''p'', orAssignmentId = None, orGeneration = None\<rparr>"
  have "map_prod id (\<lambda>_. ()) (projr (claimOrphan (sampleClock 60003) ?inp awaitingStore)) = (Claimed, ())"
    "\<not> isl (claimOrphan (sampleClock 60003) ?inp awaitingStore)" "length (assignments awaitingStore) = 1"
    by code_simp+
  then obtain d' where run: "claimOrphan (sampleClock 60003) ?inp awaitingStore = Inr (Claimed, d')"
    and one: "length (assignments awaitingStore) = 1"
    by (cases "claimOrphan (sampleClock 60003) ?inp awaitingStore") (auto simp: map_prod_def split: prod.splits)
  from one have "\<forall>r \<in> set (assignments awaitingStore). \<forall>s \<in> set (assignments awaitingStore).
      providerInstanceId r = Some (orProviderInstanceId ?inp) \<and> providerInstanceId s = Some (orProviderInstanceId ?inp) \<longrightarrow> r = s"
    by (auto simp: length_Suc_conv)
  from claimed_orphan_is_unbound [OF awaitingStore_reachable run this] run show ?thesis
    by (auto simp: list_all_iff)
qed

text \<open>
  a provider instance in use is never claimed.  When the only assignment bound to the
  instance is active, paused, or waiting for its executor with a live bootstrap, the claim
  preserves the instance and changes nothing.
\<close>

theorem instance_in_use_is_preserved:
  assumes "assignmentsReachable d" "s \<in> set (assignments d)" "providerInstanceId s = Some (orProviderInstanceId inp)"
    and "\<forall>r \<in> set (assignments d). providerInstanceId r = Some (orProviderInstanceId inp) \<longrightarrow> r = s"
    and "lifecycle s \<in> {LcActive, LcPaused} \<or>
      lifecycle s \<in> {LcProvisioning, LcAwaitingBootstrap} \<and> bootstrapLive c s"
  shows "claimOrphan c inp d = Inr (ClaimPreserved, d)"
proof -
  let ?P = "\<lambda>r. providerInstanceId r = Some (orProviderInstanceId inp)"
  let ?rows = "sort_key asgId (filter (\<lambda>r. ?P r \<or> Some (asgId r) = orAssignmentId inp) (assignments d))"
  have "find ?P ?rows \<noteq> None" using assms(2,3) by (auto simp: find_sorted_None)
  then obtain b where b: "find ?P ?rows = Some b" by blast
  with find_mem [OF b] assms(4) have "find ?P ?rows = Some s" by auto
  then have "lockOrphanAuthority c inp d = OrphanPreserve"
    using assms(5) by (auto simp: lockOrphanAuthority_def Let_def)
  then show ?thesis by (simp add: claimOrphan_def)
qed

theorem instance_in_use_is_preserved_witness:
  "claimOrphan (sampleClock 5) \<lparr>orProviderInstanceId = ''p'', orAssignmentId = Some ''a'', orGeneration = Some 1\<rparr>
     awaitingStore = Inr (ClaimPreserved, awaitingStore)"
proof -
  let ?s = "assignments awaitingStore ! 0"
  have facts: "length (assignments awaitingStore) = 1" "providerInstanceId ?s = Some ''p''"
    "lifecycle ?s = LcAwaitingBootstrap \<and> bootstrapLive (sampleClock 5) ?s"
    by code_simp+
  then have "set (assignments awaitingStore) = {?s}" by (auto simp: length_Suc_conv)
  with facts show ?thesis
    by (intro instance_in_use_is_preserved [OF awaitingStore_reachable, of ?s]) simp_all
qed

section \<open>Writes that always succeed\<close>

lemma enforced:
  assumes ok: "asgOk d" and row: "assignmentById i d = Some r" and P: "\<And>s. s \<in> set (assignments d) \<Longrightarrow> P s \<longleftrightarrow> s = r"
    and f: "sameIdentity r (f r)" "assignmentCheck (f r)"
  shows "assignmentsConsistent (d\<lparr>assignments := update_where P f (assignments d)\<rparr>)"
proof -
  have same: "asgId s' = asgId s \<and> threadId s' = threadId s \<and> ownerId s' = ownerId s \<and>
      executorKind s' = executorKind s \<and> workspaceId s' = workspaceId s"
    if "s \<in> set (assignments d)" "s' = (if P s then f s else s)" for s s'
    using that P f(1) by (auto simp: sameIdentity_def)
  have "map key (update_where P f (assignments d)) = map key (assignments d)"
    if "\<And>s. s \<in> set (assignments d) \<Longrightarrow> key (if P s then f s else s) = key s" for key :: "assignment_row \<Rightarrow> string"
    using that by (simp add: update_where_def)
  then have keys: "map asgId (update_where P f (assignments d)) = map asgId (assignments d)"
      "map threadId (update_where P f (assignments d)) = map threadId (assignments d)"
    using same by blast+
  have mem: "s \<in> set (assignments d) \<Longrightarrow> (if P s then f s else s) \<in> set (update_where P f (assignments d))" for s
    by (auto simp: update_where_def)
  note c = asgOkD(1) [OF ok, unfolded assignmentsConsistent_def]
  have checks: "list_all assignmentCheck (update_where P f (assignments d))"
    using c f(2) P by (auto simp: list_all_iff update_where_def)
  have origin: "\<exists>s \<in> set (assignments d). s' = (if P s then f s else s)"
    if "s' \<in> set (update_where P f (assignments d))" for s'
    using that by (auto simp: update_where_def)
  have refs: "list_all (\<lambda>r. exists_row (\<lambda>t. taId t = threadId r \<and> taOwnerId t = ownerId r \<and>
      taExecutorKind t = executorKind r \<and> taWorkspaceId t = workspaceId r) (hostedThreads d)) (update_where P f (assignments d))"
    unfolding list_all_iff
  proof
    fix s'
    assume "s' \<in> set (update_where P f (assignments d))"
    then obtain s where s: "s \<in> set (assignments d)" "s' = (if P s then f s else s)" using origin by blast
    from c s(1) have "exists_row (\<lambda>t. taId t = threadId s \<and> taOwnerId t = ownerId s \<and>
      taExecutorKind t = executorKind s \<and> taWorkspaceId t = workspaceId s) (hostedThreads d)"
      unfolding list_all_iff by blast
    then show "exists_row (\<lambda>t. taId t = threadId s' \<and> taOwnerId t = ownerId s' \<and>
      taExecutorKind t = executorKind s' \<and> taWorkspaceId t = workspaceId s') (hostedThreads d)"
      using same [OF s] by simp
  qed
  have "exists_row (\<lambda>r. asgId r = ckAssignmentId k \<and> ownerId r = ckOwnerId k) (update_where P f (assignments d))"
    if k: "k \<in> set (checkpoints d)" for k
  proof -
    obtain s where s: "s \<in> set (assignments d)" "asgId s = ckAssignmentId k \<and> ownerId s = ckOwnerId k"
      using consistentA(6) [OF asgOkD(1) [OF ok] k] by blast
    with same [OF s(1) refl] mem [OF s(1)] show ?thesis unfolding exists_row_iff by (intro bexI [OF _ mem [OF s(1)]]) simp
  qed
  with c keys checks refs show ?thesis
    unfolding assignmentsConsistent_def by (auto simp: list_all_iff)
qed

lemma update_succeeds:
  assumes ok: "asgOk d" and row: "assignmentById i d = Some r"
    and P: "P r" "\<And>s. P s \<Longrightarrow> asgId s = i"
    and f: "sameIdentity r (f r)" "assignmentCheck (f r)" "decodeAssignment (f r) = Inr x"
  shows "\<exists>d'. updated i (updateAssignments P f d) = Inr (x, d')"
proof -
  note cons = asgOkD(1) [OF ok]
  have only: "P s \<longleftrightarrow> s = r" if "s \<in> set (assignments d)" for s
    using assignment_unique [OF cons row that] P by blast
  let ?d = "d\<lparr>assignments := update_where P f (assignments d)\<rparr>"
  have cons': "assignmentsConsistent ?d" by (rule enforced [where P = P and f = f, OF ok row only f(1,2)])
  have "filter P (assignments d) \<noteq> []"
    using P(1) assignmentByIdD(1) [OF row] by (auto simp: filter_empty_conv)
  then have run: "updateAssignments P f d = Inr (map asgId (filter P (assignments d)), ?d)"
    and ids: "map asgId (filter P (assignments d)) \<noteq> []"
    using cons' by (simp_all add: updateAssignments_def enforceAssignments_def)
  have "asgId (f r) = asgId r" using f(1) by (simp add: sameIdentity_def)
  from replacesD(3) [OF updateAssignments_replaces(1) [OF cons row run ids P(2) this]] assignmentByIdD(2) [OF row]
  have "assignmentById i ?d = Some (f r)" by simp
  with run ids f(3) show ?thesis by (auto simp: updated_Inr)
qed

lemma checkD:
  assumes "assignmentCheck r"
  shows "capabilityCheck r" "kindOf (placement r) = executorKind r" "lifecycleCheck r" "checkoutCheck r" "rangeCheck r"
    "shortLivedCheck r"
  using assms by (simp_all add: assignmentCheck_def)

lemma beaten_valid:
  assumes "assignmentCheck r" "decodes r" "lifecycle r = LcActive" "millis \<le> credentialMillis" "cursorSequence r \<le> fst cursor"
  shows "assignmentCheck (beatenRow c millis cursor r)" "decodes (beatenRow c millis cursor r)"
proof -
  show "assignmentCheck (beatenRow c millis cursor r)"
    using assms(3-5) checkD [OF assms(1)]
    by (auto simp: assignmentCheck_def capabilityCheck_def lifecycleCheck_def checkoutCheck_def rangeCheck_def
        shortLivedCheck_def bootstrapNull_def isNull_iff row_defs)
  show "decodes (beatenRow c millis cursor r)"
    using assms(2,3,5)
    by (auto simp: decodes_iff decodeAssignment_def decodeLifecycle_def row_defs Let_def result_simps
        fieldsOk_def assignmentFilter_def split: if_splits)
qed

lemma terminated_valid:
  assumes "assignmentCheck r" "decodes r"
  shows "assignmentCheck (terminatedRow c r)" "decodes (terminatedRow c r)"
proof -
  show "assignmentCheck (terminatedRow c r)"
    using checkD [OF assms(1)]
    by (auto simp: assignmentCheck_def capabilityCheck_def lifecycleCheck_def checkoutCheck_def rangeCheck_def
        shortLivedCheck_def bootstrapNull_def sessionNull_def row_defs)
  show "decodes (terminatedRow c r)"
    using assms(2)
    by (auto simp: decodes_iff decodeAssignment_def decodeLifecycle_def row_defs Let_def result_simps
        fieldsOk_def assignmentFilter_def split: if_splits)
qed

text \<open>
  neither the holder of a live lease nor the control plane can be locked out.  The
  holder's heartbeat with a cursor that does not move back and a lease of at most five
  minutes succeeds, and so does terminating an assignment with its current version,
  whatever its state.
\<close>

theorem heartbeat_and_terminate_succeed:
  assumes "assignmentsReachable d" "assignmentById i d = Some r"
  shows "(\<forall>a. fAssignmentId a = i \<and> checkAccess c r a True = Inr () \<and> millis \<le> credentialMillis \<and>
      (cursorSequence r < fst cursor \<or> cursor = (cursorSequence r, cursorValue r)) \<longrightarrow>
      (\<exists>x d'. heartbeat c a millis cursor d = Inr (x, d') \<and> xCursor x = cursor)) \<and>
    (\<exists>x d'. terminate c (rowVersion r) d = Inr (x, d') \<and> xLifecycle x = Terminated)"
proof (intro conjI allI impI)
  have ok: "asgOk d" using assignmentsReachable_ok [OF assms(1)] .
  note mem = assignmentByIdD [OF assms(2)]
  have r: "assignmentCheck r" "decodes r" using asgOkD(3,6) [OF ok mem(1)] by simp_all
  show "\<exists>x d'. heartbeat c a millis cursor d = Inr (x, d') \<and> xCursor x = cursor"
    if a: "fAssignmentId a = i \<and> checkAccess c r a True = Inr () \<and> millis \<le> credentialMillis \<and>
      (cursorSequence r < fst cursor \<or> cursor = (cursorSequence r, cursorValue r))" for a
  proof -
    have held: "accessHeld r a" using a by (simp add: checkAccess_Inr)
    have beat: "rowStep r (beatenRow c millis cursor r)"
      using a by (intro rowStep.beat [OF held]) (auto simp: checkAccess_Inr)
    have "lifecycle r = LcActive" "cursorSequence r \<le> fst cursor" using held a by (auto simp: accessHeld_def)
    then have "assignmentCheck (beatenRow c millis cursor r)" "decodes (beatenRow c millis cursor r)"
      using beaten_valid [OF r] a by blast+
    then obtain x where
      x: "assignmentCheck (beatenRow c millis cursor r)" "decodeAssignment (beatenRow c millis cursor r) = Inr x"
      unfolding decodes_iff by blast
    have "fenceMatches a r" using held a mem by (simp add: fenceMatches_def accessHeld_def)
    from update_succeeds [where P = "fenceMatches a" and f = "beatenRow c millis cursor", OF ok assms(2) this _
        rowStep_identity [OF beat] x] fenceMatches_id a
    obtain d' where "updated i (updateAssignments (fenceMatches a) (beatenRow c millis cursor) d) = Inr (x, d')" by auto
    moreover have "xCursor x = cursor" using decoded_fields(5) [OF x(2)] by (simp add: row_defs)
    ultimately show ?thesis using a assms(2) by (auto simp: heartbeat_def locked_def updateFence_def)
  qed
  show "\<exists>x d'. terminate c (rowVersion r) d = Inr (x, d') \<and> xLifecycle x = Terminated"
  proof -
    from terminated_valid [OF r] obtain x where
      x: "assignmentCheck (terminatedRow c r)" "decodeAssignment (terminatedRow c r) = Inr x"
      unfolding decodes_iff by blast
    have "versionMatches (rowVersion r) r" by (simp add: versionMatches_def rowVersion_def)
    from update_succeeds [where P = "versionMatches (rowVersion r)" and f = "terminatedRow c", OF ok assms(2) this _
        rowStep_identity [OF rowStep.terminating] x] rowVersion_id mem(2)
    obtain d' where "updated i (updateAssignments (versionMatches (rowVersion r)) (terminatedRow c) d) = Inr (x, d')" by auto
    moreover have "xLifecycle x = Terminated"
      using x(2) by (auto simp: decodeAssignment_def decodeLifecycle_def Let_def row_defs split: if_splits)
    ultimately show ?thesis using assms(2) mem(2)
      by (auto simp: terminate_def locked_def updateVersion_def checkVersion_def require_def rowVersion_def)
  qed
qed

theorem heartbeat_and_terminate_succeed_witness:
  "(\<exists>x d'. heartbeat (sampleClock 6) (sampleAccess 1) 300000 (5, ''c'') activeStore = Inr (x, d') \<and> xCursor x = (5, ''c'')) \<and>
   (\<exists>x d'. terminate (sampleClock 6) (rowVersion (assignments activeStore ! 0)) activeStore = Inr (x, d') \<and>
      xLifecycle x = Terminated)"
proof -
  have "assignmentById ''a'' activeStore = Some (assignments activeStore ! 0)"
    "checkAccess (sampleClock 6) (assignments activeStore ! 0) (sampleAccess 1) True = Inr ()"
    "cursorSequence (assignments activeStore ! 0) < 5" "fAssignmentId (sampleAccess 1) = ''a''"
    by code_simp+
  with heartbeat_and_terminate_succeed [OF activeStore_reachable this(1), of "sampleClock 6" 300000 "(5, ''c'')"]
  show ?thesis by (simp add: credentialMillis_def)
qed

section \<open>Writes the constraints refuse\<close>


end
