(* ===== verification/Tar_Format.thy ===== *)
theory Tar_Format
  imports Prelude
begin

text \<open>
  The formats the archive inspector reads (packages/workspace-input/src/internal/tar.ts):
  text as the code points of a JavaScript string, the UTF-8 decoder of the platform, numbers
  and headers of tar, pax records, and the normal forms of entry paths and link targets.
  Bytes are 8-bit words.
\<close>

type_synonym byte = "8 word"
type_synonym utext = "nat list"

datatype archive_kind = KindArchive | KindSize
datatype archive_error = ArchiveError archive_kind string

definition archiveFailure :: "string \<Rightarrow> archive_error + 'a" where
  "archiveFailure message = Inl (ArchiveError KindArchive message)"

definition sizeFailure :: "string \<Rightarrow> archive_error + 'a" where
  "sizeFailure message = Inl (ArchiveError KindSize message)"

section \<open>Text\<close>

definition ascii :: "string \<Rightarrow> utext" where
  "ascii s = map of_char s"

text \<open>The length of a JavaScript string counts UTF-16 code units.\<close>

definition utf16Length :: "utext \<Rightarrow> nat" where
  "utf16Length t = sum_list (map (\<lambda>c. if c < 65536 then 1 else 2) t)"

fun startsWith :: "utext \<Rightarrow> utext \<Rightarrow> bool" where
  "startsWith t [] \<longleftrightarrow> True"
| "startsWith [] (_ # _) \<longleftrightarrow> False"
| "startsWith (x # t) (y # p) \<longleftrightarrow> x = y \<and> startsWith t p"

definition slash :: nat where
  "slash = 47"

definition continuation :: "nat \<Rightarrow> bool" where
  "continuation b \<longleftrightarrow> 128 \<le> b \<and> b \<le> 191"

text \<open>
  UTF-8 as the platform decodes it.  Malformed input decodes to text with replacement
  characters, which no caller accepts: it is None here.
\<close>

fun utf8 :: "nat list \<Rightarrow> utext option" where
  "utf8 [] = Some []"
| "utf8 (a # bs) =
     (if a < 128 then map_option (Cons a) (utf8 bs)
      else if 194 \<le> a \<and> a \<le> 223 then
        (case bs of
           b # bs' \<Rightarrow> if continuation b then map_option (Cons ((a - 192) * 64 + (b - 128))) (utf8 bs') else None
         | _ \<Rightarrow> None)
      else if 224 \<le> a \<and> a \<le> 239 then
        (case bs of
           b # c # bs' \<Rightarrow>
             if continuation b \<and> continuation c \<and> (a = 224 \<longrightarrow> 160 \<le> b) \<and> (a = 237 \<longrightarrow> b \<le> 159)
             then map_option (Cons ((a - 224) * 4096 + (b - 128) * 64 + (c - 128))) (utf8 bs') else None
         | _ \<Rightarrow> None)
      else if 240 \<le> a \<and> a \<le> 244 then
        (case bs of
           b # c # e # bs' \<Rightarrow>
             if continuation b \<and> continuation c \<and> continuation e \<and> (a = 240 \<longrightarrow> 144 \<le> b) \<and> (a = 244 \<longrightarrow> b \<le> 143)
             then map_option (Cons ((a - 240) * 262144 + (b - 128) * 4096 + (c - 128) * 64 + (e - 128))) (utf8 bs') else None
         | _ \<Rightarrow> None)
      else None)"

text \<open>A \<open>TextDecoder\<close> with its default options drops one byte order mark at the start.\<close>

definition decodeText :: "byte list \<Rightarrow> utext option" where
  "decodeText bytes =
     map_option (\<lambda>t. case t of c # t' \<Rightarrow> if c = 65279 then t' else t | [] \<Rightarrow> t) (utf8 (map unat bytes))"

definition replacement :: nat where
  "replacement = 65533"

definition fieldText :: "byte list \<Rightarrow> utext option" where
  "fieldText bytes =
     (case decodeText (takeWhile (\<lambda>b. b \<noteq> 0) bytes) of
        None \<Rightarrow> None
      | Some t \<Rightarrow> if replacement \<in> set t then None else Some t)"

definition metadataField :: "byte list \<Rightarrow> utext option" where
  "metadataField bytes =
     (case decodeText bytes of
        None \<Rightarrow> None
      | Some t \<Rightarrow> if replacement \<in> set t \<or> 0 \<in> set t then None else Some t)"

definition trimmable :: "nat \<Rightarrow> bool" where
  "trimmable c \<longleftrightarrow> (9 \<le> c \<and> c \<le> 13) \<or> c \<in> set [32, 160, 5760, 8232, 8233, 8239, 8287, 12288, 65279] \<or>
     (8192 \<le> c \<and> c \<le> 8202)"

definition trimText :: "utext \<Rightarrow> utext" where
  "trimText t = rev (dropWhile trimmable (rev (dropWhile trimmable t)))"

section \<open>Numbers and headers\<close>

definition maxSafeInteger :: int where
  "maxSafeInteger = 9007199254740991"

definition octalDigits :: "utext \<Rightarrow> bool" where
  "octalDigits t \<longleftrightarrow> t \<noteq> [] \<and> list_all (\<lambda>c. 48 \<le> c \<and> c \<le> 55) t"

definition parseOctal :: "utext \<Rightarrow> int" where
  "parseOctal t = foldl (\<lambda>n c. n * 8 + int (c - 48)) 0 t"

definition bigEndian :: "int \<Rightarrow> byte list \<Rightarrow> int" where
  "bigEndian start bytes = foldl (\<lambda>n b. n * 256 + uint b) start bytes"

text \<open>
  A number field: base 256 when the top bit of the first byte is set, and not negative;
  octal text otherwise.
\<close>

definition parseTarNumber :: "byte list \<Rightarrow> int option" where
  "parseTarNumber bytes =
     (let first = uint (hd bytes) in
      if 128 \<le> first
      then if 64 \<le> first mod 128 then None
        else let value = bigEndian (first mod 64) (tl bytes) in if value \<le> maxSafeInteger then Some value else None
      else case decodeText bytes of
        None \<Rightarrow> None
      | Some t \<Rightarrow>
          let value = trimText (filter (\<lambda>c. c \<noteq> 0) t) in
          if value = [] then Some 0 else if octalDigits value then Some (parseOctal value) else None)"

record tar_header =
  hdName :: utext
  hdLinkName :: utext
  hdSize :: nat
  hdType :: nat

definition subarray :: "nat \<Rightarrow> nat \<Rightarrow> byte list \<Rightarrow> byte list" where
  "subarray from to bytes = take (to - from) (drop from bytes)"

text \<open>The sum of the bytes with the checksum field, bytes 148 to 155, taken as blanks.\<close>

definition checksumOf :: "byte list \<Rightarrow> int" where
  "checksumOf header = sum_list (map uint (take 148 header)) + 8 * 32 + sum_list (map uint (drop 156 header))"

definition parseHeader :: "byte list \<Rightarrow> tar_header option" where
  "parseHeader header =
     (case parseTarNumber (subarray 148 156 header) of
        None \<Rightarrow> None
      | Some expected \<Rightarrow>
          if checksumOf header \<noteq> expected then None
          else case (fieldText (subarray 0 100 header), fieldText (subarray 345 500 header),
                     fieldText (subarray 157 257 header), parseTarNumber (subarray 124 136 header)) of
            (Some name, Some pfx, Some link, Some sz) \<Rightarrow>
              Some \<lparr>hdName = (if pfx = [] then name else pfx @ slash # name), hdLinkName = link,
                hdSize = nat sz, hdType = unat (header ! 156)\<rparr>
          | _ \<Rightarrow> None)"

section \<open>Paths\<close>

text \<open>Whether some element satisfies a test together with the element after it, if there is one.\<close>

fun adjacent :: "('a \<Rightarrow> 'a \<Rightarrow> bool) \<Rightarrow> 'a list \<Rightarrow> bool" where
  "adjacent P (x # y # xs) \<longleftrightarrow> P x y \<or> adjacent P (y # xs)"
| "adjacent P _ \<longleftrightarrow> False"

definition forbiddenParts :: "utext list \<Rightarrow> bool" where
  "forbiddenParts parts \<longleftrightarrow>
     list_ex (\<lambda>p. p = ascii ''.git'' \<or> p = ascii ''.env'' \<or> startsWith p (ascii ''.env.'')) parts \<or>
     adjacent (\<lambda>p q. (p = ascii ''.agents'' \<and> q = ascii ''state'') \<or> (p = ascii ''.rika'' \<and> q = ascii ''secrets'')) parts \<or>
     (parts \<noteq> [] \<and> last parts \<in> set (map ascii [''.git-credentials'', ''.netrc'', ''.npmrc'', ''.pypirc'']))"

definition forbiddenPath :: "utext \<Rightarrow> bool" where
  "forbiddenPath path = forbiddenParts (splitOn slash path)"

definition dot :: utext where
  "dot = ascii ''.''"

definition dotdot :: utext where
  "dotdot = ascii ''..''"

function dropDotSlash :: "utext \<Rightarrow> utext" where
  "dropDotSlash t = (if startsWith t (ascii ''./'') then dropDotSlash (drop 2 t) else t)"
  by auto
termination
proof (relation "measure length")
  fix t :: utext assume "startsWith t (ascii ''./'')"
  then have "t \<noteq> []" by (auto simp: ascii_def)
  then show "(drop 2 t, t) \<in> measure length" by (cases t) simp_all
qed simp

definition dropTrailingSlashes :: "utext \<Rightarrow> utext" where
  "dropTrailingSlashes t = rev (dropWhile (\<lambda>c. c = slash) (rev t))"

definition plainPart :: "utext \<Rightarrow> bool" where
  "plainPart p \<longleftrightarrow> p \<noteq> [] \<and> p \<noteq> dot \<and> p \<noteq> dotdot"

definition normalizeEntryPath :: "utext \<Rightarrow> utext option" where
  "normalizeEntryPath input =
     (if input = [] \<or> startsWith input [slash] \<or> 0 \<in> set input \<or> utf16Length input > 4096 then None
      else let value = dropTrailingSlashes (dropDotSlash input) in
        if value = dot then Some []
        else if \<not> list_all plainPart (splitOn slash value) then None
        else if forbiddenPath value then None else Some value)"

datatype entry_type = TypeDirectory | TypeFile | TypeHardlink | TypeSymlink

fun resolveParts :: "utext list \<Rightarrow> utext list \<Rightarrow> utext list option" where
  "resolveParts parts [] = Some parts"
| "resolveParts parts (p # ps) =
     (if p = [] \<or> p = dot then resolveParts parts ps
      else if p = dotdot then (if parts = [] then None else resolveParts (butlast parts) ps)
      else resolveParts (parts @ [p]) ps)"

definition normalizeLinkTarget :: "utext \<Rightarrow> utext \<Rightarrow> entry_type \<Rightarrow> utext option" where
  "normalizeLinkTarget entryPath tgt type =
     (if tgt = [] \<or> startsWith tgt [slash] \<or> 0 \<in> set tgt \<or> utf16Length tgt > 4096 then None
      else let start = (if type = TypeSymlink then butlast (splitOn slash entryPath) else [])
        in case resolveParts start (splitOn slash tgt) of
             None \<Rightarrow> None
           | Some parts \<Rightarrow>
               let resolved = joinWith slash parts in
               if resolved = [] \<or> forbiddenPath resolved then None else Some resolved)"

section \<open>Pax records\<close>

record pax_values =
  pxLinkpath :: "utext option"
  pxPath :: "utext option"
  pxSize :: "nat option"

definition digit :: "nat \<Rightarrow> bool" where
  "digit c \<longleftrightarrow> 48 \<le> c \<and> c \<le> 57"

definition parseDecimal :: "utext \<Rightarrow> nat" where
  "parseDecimal t = foldl (\<lambda>n c. n * 10 + (c - 48)) 0 t"

definition invalidMetadata :: "archive_error + 'a" where
  "invalidMetadata = archiveFailure ''Workspace archive metadata is invalid''"

definition expandsTooFar :: "archive_error + 'a" where
  "expandsTooFar = sizeFailure ''Workspace archive expands beyond the allowed size''"

text \<open>
  One record at the head of the bytes: its length, key and value.  Offsets of the code are
  offsets from the head.
\<close>

definition parsePaxRecord :: "byte list \<Rightarrow> archive_error + (nat \<times> utext \<times> utext)" where
  "parsePaxRecord bytes =
     (let space = length (takeWhile (\<lambda>b. b \<noteq> 32) bytes) in
      if space = length bytes then invalidMetadata
      else case decodeText (take space bytes) of
        None \<Rightarrow> invalidMetadata
      | Some t \<Rightarrow>
          if \<not> (t \<noteq> [] \<and> 49 \<le> hd t \<and> hd t \<le> 57 \<and> list_all digit t) then invalidMetadata
          else let len = parseDecimal t in
            if int len > maxSafeInteger \<or> len > length bytes \<or> bytes ! (len - 1) \<noteq> 10 then invalidMetadata
            else let equals = space + 1 + length (takeWhile (\<lambda>b. b \<noteq> 61) (drop (space + 1) bytes)) in
              if equals = length bytes \<or> equals \<ge> len - 1 then invalidMetadata
              else case (metadataField (subarray (space + 1) equals bytes),
                         metadataField (subarray (equals + 1) (len - 1) bytes)) of
                (Some key, Some value) \<Rightarrow> Inr (len, key, value)
              | _ \<Rightarrow> invalidMetadata)"

definition parsePaxSize :: "utext \<Rightarrow> archive_error + nat" where
  "parsePaxSize value =
     (if \<not> (value = [48] \<or> (value \<noteq> [] \<and> 49 \<le> hd value \<and> hd value \<le> 57 \<and> list_all digit value))
      then invalidMetadata
      else if int (parseDecimal value) \<le> maxSafeInteger then Inr (parseDecimal value) else expandsTooFar)"

definition sparseRecord :: "utext \<Rightarrow> utext \<Rightarrow> bool" where
  "sparseRecord key value \<longleftrightarrow> startsWith key (ascii ''GNU.sparse.'') \<or> key = ascii ''SCHILY.realsize'' \<or>
     (key = ascii ''SCHILY.filetype'' \<and> value = ascii ''sparse'')"

definition applyPaxRecord :: "utext \<Rightarrow> utext \<Rightarrow> pax_values \<Rightarrow> archive_error + pax_values" where
  "applyPaxRecord key value px =
     (if sparseRecord key value then archiveFailure ''Workspace archive sparse entries are not allowed''
      else if key = ascii ''path'' then Inr (px\<lparr>pxPath := Some value\<rparr>)
      else if key = ascii ''linkpath'' then Inr (px\<lparr>pxLinkpath := Some value\<rparr>)
      else if key = ascii ''size'' then bindE (parsePaxSize value) (\<lambda>n. Inr (px\<lparr>pxSize := Some n\<rparr>))
      else Inr px)"

lemma parsePaxRecord_length: "parsePaxRecord bytes = Inr (len, key, value) \<Longrightarrow> 0 < len \<and> len \<le> length bytes"
  by (auto simp: parsePaxRecord_def Let_def invalidMetadata_def archiveFailure_def
      split: option.splits if_splits)

function parsePaxFrom :: "pax_values \<Rightarrow> byte list \<Rightarrow> archive_error + pax_values" where
  "parsePaxFrom px bytes =
     (if bytes = [] then Inr px
      else bindE (parsePaxRecord bytes) (\<lambda>rec. case rec of (len, key, value) \<Rightarrow>
        bindE (applyPaxRecord key value px) (\<lambda>px'. parsePaxFrom px' (drop len bytes))))"
  by auto
termination
  by (relation "measure (\<lambda>(px, bytes). length bytes)") (auto dest: parsePaxRecord_length)

declare parsePaxFrom.simps [simp del] dropDotSlash.simps [simp del]

definition parsePax :: "byte list \<Rightarrow> archive_error + pax_values" where
  "parsePax bytes = parsePaxFrom \<lparr>pxLinkpath = None, pxPath = None, pxSize = None\<rparr> bytes"

definition metadataText :: "byte list \<Rightarrow> utext option" where
  "metadataText bytes = map_option (\<lambda>t. rev (dropWhile (\<lambda>c. c = 0 \<or> c = 10) (rev t))) (fieldText bytes)"

end
