(* ===== verification/Tar_Stream.thy ===== *)
theory Tar_Stream
  imports Tar_Inspector
begin

text \<open>
  A reference for the inspector that takes one byte at a time, and the proof that the loop
  of \<open>feed\<close> computes it and always ends.
\<close>

definition feedByte :: "byte \<Rightarrow> tar_reader \<Rightarrow> archive_error + tar_reader" where
  "feedByte b s =
     (if inEnded s
      then (if b \<noteq> 0 then archiveFailure ''Workspace archive contains data after its terminator'' else Inr s)
      else if dataRemaining s > 0
      then let s1 = takeData [b] s in if dataRemaining s1 = 0 then finishMetadata s1 else Inr s1
      else let header = inHeader s @ [b] in
        if length header = blockSize then acceptHeader header (s\<lparr>inHeader := []\<rparr>) else Inr (s\<lparr>inHeader := header\<rparr>))"

fun feedBytes :: "byte list \<Rightarrow> tar_reader \<Rightarrow> archive_error + tar_reader" where
  "feedBytes [] s = Inr s"
| "feedBytes (b # bs) s = bindE (feedByte b s) (feedBytes bs)"

lemma feedBytes_append: "feedBytes (xs @ ys) s = bindE (feedBytes xs s) (feedBytes ys)"
proof (induction xs arbitrary: s)
  case (Cons b xs)
  then show ?case by (cases "feedByte b s") simp_all
qed simp

lemma feedBytes_Nil: "feedBytes [] = Inr"
  by (rule ext) simp

lemma bindE_return: "bindE m Inr = m"
  by (cases m) simp_all

section \<open>The invariant of the reader between bytes\<close>

definition readerOk :: "tar_reader \<Rightarrow> bool" where
  "readerOk s \<longleftrightarrow> length (inHeader s) < blockSize \<and> contentRemaining s \<le> dataRemaining s \<and>
     (dataRemaining s > 0 \<longrightarrow> inHeader s = [])"

lemma blockSize_pos [simp]: "0 < blockSize"
  by (simp add: blockSize_def)

lemma blocks_cover: "sz \<le> (sz + blockSize - 1) div blockSize * blockSize"
proof -
  have "(sz + blockSize - 1) div blockSize * blockSize + (sz + blockSize - 1) mod blockSize = sz + blockSize - 1"
    by simp
  moreover have "(sz + blockSize - 1) mod blockSize \<le> blockSize - 1"
    using mod_less_divisor [OF blockSize_pos, of "sz + blockSize - 1"] by linarith
  moreover have "1 \<le> blockSize" by (simp add: blockSize_def)
  ultimately show ?thesis by linarith
qed

lemma register_frame:
  assumes "register parsed s = Inr s'"
  shows "inHeader s' = inHeader s" "dataRemaining s' = dataRemaining s" "contentRemaining s' = contentRemaining s"
    "inEnded s' = inEnded s" "metadataBytes s' = metadataBytes s" "inMetadata s' = inMetadata s"
  using assms
  by (auto simp: register_def Let_def result_simps archiveFailure_def sizeFailure_def split: option.splits if_splits)

lemma beginData_ok: "inHeader s = [] \<Longrightarrow> readerOk (beginData sz kind s)"
  using blocks_cover [of sz] by (simp add: readerOk_def beginData_def Let_def)

lemma acceptHeader_ok:
  assumes "acceptHeader header s = Inr s'" "inHeader s = []" "dataRemaining s = 0" "contentRemaining s = 0"
  shows "readerOk s'"
  using assms
  by (auto simp: acceptHeader_def Let_def result_simps archiveFailure_def sizeFailure_def readerOk_def
      dest!: register_frame(1) intro!: beginData_ok [unfolded readerOk_def]
      split: if_splits option.splits)

lemma finishMetadata_frame:
  assumes "finishMetadata s = Inr s'"
  shows "inHeader s' = inHeader s" "dataRemaining s' = dataRemaining s" "contentRemaining s' = contentRemaining s"
    "inEnded s' = inEnded s" "inEntries s' = inEntries s" "contentBytes s' = contentBytes s"
  using assms
  by (auto simp: finishMetadata_def result_simps archiveFailure_def invalidMetadata_def split: option.splits if_splits)

lemma takeData_frame [simp]:
  "inHeader (takeData bs s) = inHeader s" "inEnded (takeData bs s) = inEnded s"
  "dataRemaining (takeData bs s) = dataRemaining s - length bs"
  "contentRemaining (takeData bs s) = contentRemaining s - length bs"
  "inEntries (takeData bs s) = inEntries s" "contentBytes (takeData bs s) = contentBytes s"
  "inMetadata (takeData bs s) = inMetadata s"
  by (simp_all add: takeData_def Let_def)

lemma takeData_append: "takeData (xs @ ys) s = takeData ys (takeData xs s)"
proof -
  have "take (min (contentRemaining s) (length (xs @ ys))) (xs @ ys) =
      take (min (contentRemaining s) (length xs)) xs @
      take (min (contentRemaining s - min (contentRemaining s) (length xs)) (length ys)) ys"
    by (auto simp: min_def)
  then show ?thesis
    by (cases "metadataBytes s") (auto simp: takeData_def Let_def intro!: tar_reader.equality)
qed

lemma feedByte_ok:
  assumes "readerOk s" "feedByte b s = Inr s'"
  shows "readerOk s'"
proof (cases "inEnded s")
  case True with assms show ?thesis by (auto simp: feedByte_def archiveFailure_def split: if_splits)
next
  case False
  show ?thesis
  proof (cases "dataRemaining s > 0")
    case True
    with False assms show ?thesis
      by (auto simp: feedByte_def Let_def readerOk_def finishMetadata_frame split: if_splits)
  next
    case False
    then have rest: "dataRemaining s = 0" "contentRemaining s = 0" using assms(1) by (simp_all add: readerOk_def)
    show ?thesis
    proof (cases "length (inHeader s @ [b]) = blockSize")
      case True
      with rest \<open>\<not> inEnded s\<close> assms(2) have "acceptHeader (inHeader s @ [b]) (s\<lparr>inHeader := []\<rparr>) = Inr s'"
        by (simp add: feedByte_def Let_def)
      then show ?thesis by (rule acceptHeader_ok) (simp_all add: rest)
    next
      case False
      with rest \<open>\<not> inEnded s\<close> assms show ?thesis by (auto simp: feedByte_def Let_def readerOk_def)
    qed
  qed
qed

lemma feedBytes_ok: "readerOk s \<Longrightarrow> feedBytes bs s = Inr s' \<Longrightarrow> readerOk s'"
  by (induction bs arbitrary: s) (auto simp: result_simps dest: feedByte_ok)

section \<open>The loop and the reference\<close>

lemma feedBytes_ended:
  assumes "inEnded s"
  shows "feedBytes bs s = (if list_ex (\<lambda>b. b \<noteq> 0) bs
    then archiveFailure ''Workspace archive contains data after its terminator'' else Inr s)"
  using assms by (induction bs) (auto simp: feedByte_def archiveFailure_def)

lemma feedBytes_data:
  assumes "bs \<noteq> []" "\<not> inEnded s" "length bs \<le> dataRemaining s"
  shows "feedBytes bs s =
    (if length bs = dataRemaining s then finishMetadata (takeData bs s) else Inr (takeData bs s))"
  using assms
proof (induction bs arbitrary: s)
  case (Cons b bs)
  show ?case
  proof (cases "bs = []")
    case True
    with Cons.prems show ?thesis by (auto simp: feedByte_def Let_def feedBytes_Nil bindE_return simp del: feedBytes.simps(1))
  next
    case False
    with Cons.prems have "feedByte b s = Inr (takeData [b] s)"
      by (cases bs) (auto simp: feedByte_def Let_def)
    moreover have "takeData (b # bs) s = takeData bs (takeData [b] s)"
      using takeData_append [of "[b]" bs s] by simp
    ultimately show ?thesis using Cons.IH [OF False, of "takeData [b] s"] Cons.prems by auto
  qed
qed simp

lemma feedBytes_header:
  assumes "bs \<noteq> []" "\<not> inEnded s" "dataRemaining s = 0" "length (inHeader s) + length bs \<le> blockSize"
  shows "feedBytes bs s =
    (if length (inHeader s) + length bs = blockSize then acceptHeader (inHeader s @ bs) (s\<lparr>inHeader := []\<rparr>)
     else Inr (s\<lparr>inHeader := inHeader s @ bs\<rparr>))"
  using assms
proof (induction bs arbitrary: s)
  case (Cons b bs)
  show ?case
  proof (cases "bs = []")
    case True
    with Cons.prems show ?thesis by (auto simp: feedByte_def Let_def feedBytes_Nil bindE_return simp del: feedBytes.simps(1))
  next
    case False
    with Cons.prems have "feedByte b s = Inr (s\<lparr>inHeader := inHeader s @ [b]\<rparr>)"
      by (cases bs) (auto simp: feedByte_def Let_def)
    then show ?thesis using Cons.IH [OF False, of "s\<lparr>inHeader := inHeader s @ [b]\<rparr>"] Cons.prems by auto
  qed
qed simp

lemma bindE_Inr_cases: "bindE m f = (case m of Inl e \<Rightarrow> Inl e | Inr x \<Rightarrow> f x)"
  by (cases m) simp_all

theorem feedLoop_feedBytes:
  assumes "length bs \<le> fuel" "readerOk s"
  shows "feedLoop fuel bs s = Some (feedBytes bs s)"
  using assms
proof (induction fuel bs s rule: feedLoop.induct)
  case (3 fuel b bs s)
  let ?rest = "b # bs"
  consider (ended) "inEnded s" | (data) "\<not> inEnded s" "dataRemaining s > 0" | (header) "\<not> inEnded s" "dataRemaining s = 0"
    by blast
  then show ?case
  proof cases
    case ended then show ?thesis by (simp add: feedBytes_ended Let_def del: feedBytes.simps)
  next
    case data
    let ?n = "min (dataRemaining s) (length ?rest)"
    let ?xs = "take ?n ?rest" and ?ys = "drop ?n ?rest"
    let ?s1 = "takeData ?xs s"
    have xs: "?xs \<noteq> []" "length ?xs = ?n" "length ?xs \<le> dataRemaining s" using data by auto
    have step: "feedBytes ?xs s = (if dataRemaining ?s1 = 0 then finishMetadata ?s1 else Inr ?s1)"
      using feedBytes_data [OF xs(1) data(1) xs(3)] xs(2) by auto
    have "0 < ?n" using data by simp
    then have short: "length ?ys \<le> fuel" using "3.prems"(1) by simp
    have split: "feedBytes ?rest s = bindE (feedBytes ?xs s) (feedBytes ?ys)"
      by (metis append_take_drop_id feedBytes_append)
    have ok: "feedBytes ?xs s = Inr s' \<Longrightarrow> readerOk s'" for s' using feedBytes_ok [OF "3.prems"(2)] .
    show ?thesis
    proof (cases "dataRemaining ?s1 = 0")
      case True
      with step ok "3.IH"(1) [OF refl _ _ refl refl] data short show ?thesis
        unfolding split by (auto simp: Let_def bindE_Inr_cases simp del: feedBytes.simps(2) split: sum.splits)
    next
      case False
      with step ok "3.IH"(2) [OF refl _ _ refl refl] data short show ?thesis
        unfolding split by (auto simp: Let_def feedBytes_Nil bindE_return simp del: feedBytes.simps(2))
    qed
  next
    case header
    let ?n = "min (blockSize - length (inHeader s)) (length ?rest)"
    let ?xs = "take ?n ?rest" and ?ys = "drop ?n ?rest"
    have xs: "?xs \<noteq> []" "length (inHeader s) + length ?xs \<le> blockSize"
      using "3.prems"(2) by (auto simp: readerOk_def)
    have step: "feedBytes ?xs s = (if length (inHeader s @ ?xs) = blockSize
        then acceptHeader (inHeader s @ ?xs) (s\<lparr>inHeader := []\<rparr>) else Inr (s\<lparr>inHeader := inHeader s @ ?xs\<rparr>))"
      using feedBytes_header [OF xs(1) header xs(2)] by (simp del: feedBytes.simps(2))
    have "0 < ?n" using "3.prems"(2) by (simp add: readerOk_def)
    then have short: "length ?ys \<le> fuel" using "3.prems"(1) by simp
    have split: "feedBytes ?rest s = bindE (feedBytes ?xs s) (feedBytes ?ys)"
      by (metis append_take_drop_id feedBytes_append)
    have ok: "feedBytes ?xs s = Inr s' \<Longrightarrow> readerOk s'" for s' using feedBytes_ok [OF "3.prems"(2)] .
    show ?thesis
    proof (cases "length (inHeader s @ ?xs) = blockSize")
      case True
      with step ok "3.IH"(3) [OF refl _ _ refl refl] header short show ?thesis
        unfolding split by (auto simp: Let_def bindE_Inr_cases simp del: feedBytes.simps(2) split: sum.splits)
    next
      case False
      with step ok "3.IH"(4) [OF refl _ _ refl refl] header short show ?thesis
        unfolding split by (auto simp: Let_def feedBytes_Nil bindE_return simp del: feedBytes.simps(2))
    qed
  qed
qed simp_all

end
