(* ===== verification/Tar_Invariant.thy ===== *)
theory Tar_Invariant
  imports Tar_Stream
begin

text \<open>
  What the inspector keeps of every entry it registers, and its bounds: the invariant of the
  reader over any bytes.
\<close>

section \<open>Paths and targets the inspector accepts\<close>

definition confinedPath :: "utext \<Rightarrow> bool" where
  "confinedPath p \<longleftrightarrow> list_all plainPart (splitOn slash p) \<and> \<not> forbiddenPath p"

lemma normalizeEntryPath_confined:
  assumes "normalizeEntryPath input = Some p" "p \<noteq> []"
  shows "confinedPath p"
  using assms by (auto simp: normalizeEntryPath_def Let_def confinedPath_def split: if_splits)

lemma resolveParts_plain:
  assumes "resolveParts parts ps = Some res" "list_all (\<lambda>p. plainPart p \<and> slash \<notin> set p) parts"
    "list_all (\<lambda>p. slash \<notin> set p) ps"
  shows "list_all (\<lambda>p. plainPart p \<and> slash \<notin> set p) res"
  using assms
proof (induction parts ps rule: resolveParts.induct)
  case (2 parts p ps)
  have ps: "list_all (\<lambda>p. slash \<notin> set p) ps" "slash \<notin> set p" using "2.prems"(3) by simp_all
  consider (skip) "p = [] \<or> p = dot" | (up) "p \<noteq> []" "p \<noteq> dot" "p = dotdot" | (down) "p \<noteq> []" "p \<noteq> dot" "p \<noteq> dotdot"
    by blast
  then show ?case
  proof cases
    case skip
    with "2.prems"(1) have "resolveParts parts ps = Some res" by (simp only: resolveParts.simps if_True)
    with "2.IH"(1) skip "2.prems"(2) ps(1) show ?thesis by blast
  next
    case up
    with "2.prems"(1) have run: "parts \<noteq> []" "resolveParts (butlast parts) ps = Some res"
      by (simp_all only: resolveParts.simps if_False simp_thms option.distinct split: if_splits)
    have "list_all (\<lambda>p. plainPart p \<and> slash \<notin> set p) (butlast parts)"
      using "2.prems"(2) by (auto simp: list_all_iff dest: in_set_butlastD)
    with "2.IH"(2) up run ps(1) show ?thesis by blast
  next
    case down
    with "2.prems"(1) have "resolveParts (parts @ [p]) ps = Some res" by (simp only: resolveParts.simps if_False simp_thms)
    moreover have "list_all (\<lambda>p. plainPart p \<and> slash \<notin> set p) (parts @ [p])"
      using "2.prems"(2) ps(2) down by (simp add: plainPart_def)
    ultimately show ?thesis using "2.IH"(3) down ps(1) by blast
  qed
qed simp

lemma normalizeLinkTarget_confined:
  assumes "normalizeLinkTarget path tgt type = Some t" "confinedPath path"
  shows "confinedPath t" "t \<noteq> []"
proof -
  let ?start = "if type = TypeSymlink then butlast (splitOn slash path) else []"
  from assms(1) obtain parts where parts: "resolveParts ?start (splitOn slash tgt) = Some parts"
      "t = joinWith slash parts" "t \<noteq> []" "\<not> forbiddenPath t"
    by (auto simp: normalizeLinkTarget_def Let_def split: if_splits option.splits)
  have "list_all (\<lambda>p. plainPart p \<and> slash \<notin> set p) ?start"
    using assms(2) by (auto simp: confinedPath_def list_all_iff dest: in_set_butlastD splitOn_no_sep)
  moreover have "list_all (\<lambda>p. slash \<notin> set p) (splitOn slash tgt)" by (auto simp: list_all_iff dest: splitOn_no_sep)
  ultimately have plain: "list_all (\<lambda>p. plainPart p \<and> slash \<notin> set p) parts" using resolveParts_plain [OF parts(1)] by blast
  have "parts \<noteq> []" using parts(2,3) by auto
  with plain have "splitOn slash t = parts" unfolding parts(2)
    by (intro splitOn_joinWith) (auto simp: list_all_iff)
  with plain parts(3,4) show "confinedPath t" "t \<noteq> []" by (auto simp: confinedPath_def list_all_iff)
qed

section \<open>The invariant\<close>

definition entryOk :: "utext \<times> tar_entry \<Rightarrow> bool" where
  "entryOk x \<longleftrightarrow> (case x of (p, e) \<Rightarrow> enPath e = p \<and> p \<noteq> [] \<and> confinedPath p \<and>
     (isLinkEntry (enType e) \<longleftrightarrow> enTarget e \<noteq> None) \<and>
     (\<forall>t. enTarget e = Some t \<longrightarrow> confinedPath t \<and> t \<noteq> []))"

definition entriesOk :: "tar_reader \<Rightarrow> bool" where
  "entriesOk s \<longleftrightarrow> list_all entryOk (inEntries s) \<and> distinct (map fst (inEntries s)) \<and>
     length (inEntries s) \<le> maximumArchiveEntries \<and> contentBytes s \<le> maximumArchiveUncompressedBytes"

definition metaOk :: "tar_reader \<Rightarrow> bool" where
  "metaOk s \<longleftrightarrow> (metadataBytes s \<noteq> None \<longleftrightarrow> inMetadata s \<noteq> None) \<and>
     (dataRemaining s = 0 \<longrightarrow> inMetadata s = None) \<and>
     (\<forall>m. metadataBytes s = Some m \<longrightarrow> length m + contentRemaining s \<le> maximumMetadataBytes)"

definition tarInv :: "tar_reader \<Rightarrow> bool" where
  "tarInv s \<longleftrightarrow> readerOk s \<and> entriesOk s \<and> metaOk s"

lemma makeEntry_ok:
  assumes "makeEntry path type sz link = Inr e" "path \<noteq> []" "confinedPath path"
  shows "entryOk (path, e)"
  using assms normalizeLinkTarget_confined [OF _ assms(3)]
  by (auto simp: makeEntry_def entryOk_def isLinkEntry_def archiveFailure_def split: if_splits option.splits)

lemma register_entries:
  assumes "register parsed s = Inr s'" "entriesOk s"
  shows "entriesOk s'"
proof -
  let ?sel = "headerValues parsed (nextPax s) (nextLongPath s) (nextLongLink s)"
  from assms(1) obtain type path total where
      path: "normalizeEntryPath (hvPath ?sel) = Some path"
      and total: "boundedContentBytes (contentBytes s) (hvSize ?sel) (hdSize parsed) = Inr total"
      and cases: "(inEntries s' = inEntries s \<and> contentBytes s' = total) \<or>
        (path \<noteq> [] \<and> map_of (inEntries s) path = None \<and> length (inEntries s) < maximumArchiveEntries \<and>
         (\<exists>e. makeEntry path type (hvSize ?sel) (hvLinkName ?sel) = Inr e \<and>
           inEntries s' = inEntries s @ [(path, e)] \<and> contentBytes s' = total))"
    by (auto simp: register_def Let_def result_simps archiveFailure_def sizeFailure_def split: option.splits if_splits)
  have bound: "total \<le> maximumArchiveUncompressedBytes"
    using total by (auto simp: boundedContentBytes_def Let_def expandsTooFar_def sizeFailure_def split: if_splits)
  from cases show ?thesis
  proof (elim disjE conjE exE)
    fix e
    assume new: "path \<noteq> []" "map_of (inEntries s) path = None" "length (inEntries s) < maximumArchiveEntries"
      "makeEntry path type (hvSize ?sel) (hvLinkName ?sel) = Inr e"
      "inEntries s' = inEntries s @ [(path, e)]" "contentBytes s' = total"
    have "entryOk (path, e)" using makeEntry_ok [OF new(4,1) normalizeEntryPath_confined [OF path new(1)]] .
    with new assms(2) bound show ?thesis by (auto simp: entriesOk_def map_of_eq_None_iff)
  qed (use assms(2) bound in \<open>simp add: entriesOk_def\<close>)
qed

lemma acceptHeader_inv:
  assumes run: "acceptHeader header s = Inr s'"
    and s: "inHeader s = []" "dataRemaining s = 0" "contentRemaining s = 0" "entriesOk s" "metaOk s"
  shows "tarInv s'"
proof -
  have none: "inMetadata s = None" "metadataBytes s = None" using s(2,5) by (auto simp: metaOk_def)
  have "entriesOk s' \<and> metaOk s'"
  proof (cases "list_all (\<lambda>b. b = 0) header")
    case True
    with run s none show ?thesis by (auto simp: acceptHeader_def Let_def entriesOk_def metaOk_def)
  next
    case False
    with run obtain parsed where parsed: "parseHeader header = Some parsed"
      by (auto simp: acceptHeader_def archiveFailure_def split: if_splits option.splits)
    show ?thesis
    proof (cases "metadataKind (hdType parsed)")
      case (Some kind)
      with False run parsed have s': "s' = beginData (hdSize parsed) (Some kind) s"
          and sz: "hdSize parsed \<noteq> 0" "hdSize parsed \<le> maximumMetadataBytes"
        by (auto simp: acceptHeader_def archiveFailure_def sizeFailure_def split: if_splits)
      have "0 < (hdSize parsed + blockSize - 1) div blockSize * blockSize"
        using blocks_cover [of "hdSize parsed"] sz(1) by linarith
      with s(4) sz(2) show ?thesis
        unfolding s' by (simp add: entriesOk_def metaOk_def beginData_def Let_def)
    next
      case None
      with False run parsed obtain s1 where s1: "register parsed s = Inr s1" "s' = beginData (hdSize parsed) None s1"
        by (auto simp: acceptHeader_def result_simps archiveFailure_def split: if_splits)
      with register_frame [OF s1(1)] register_entries [OF s1(1) s(4)] none show ?thesis
        by (simp add: entriesOk_def metaOk_def beginData_def Let_def)
    qed
  qed
  with acceptHeader_ok [OF run s(1-3)] show ?thesis by (simp add: tarInv_def)
qed

lemma finishMetadata_clears:
  assumes "finishMetadata s = Inr s'" "metaOk s"
  shows "inMetadata s' = None \<and> metadataBytes s' = None \<or> s' = s"
  using assms
  by (auto simp: finishMetadata_def result_simps split: option.splits)

lemma takeData_meta:
  assumes "metaOk s" "length bs < dataRemaining s" "contentRemaining s \<le> dataRemaining s"
  shows "metaOk (takeData bs s)"
  using assms by (auto simp: metaOk_def takeData_def Let_def min_def)

lemma feedByte_inv:
  assumes inv: "tarInv s" and run: "feedByte b s = Inr s'"
  shows "tarInv s'"
proof -
  have ok: "readerOk s'" using feedByte_ok run inv by (auto simp: tarInv_def)
  consider (ended) "inEnded s" | (data) "\<not> inEnded s" "dataRemaining s > 0" | (header) "\<not> inEnded s" "dataRemaining s = 0"
    by blast
  then show ?thesis
  proof cases
    case ended with inv run show ?thesis by (auto simp: feedByte_def archiveFailure_def split: if_splits)
  next
    case data
    let ?s = "takeData [b] s"
    show ?thesis
    proof (cases "dataRemaining ?s = 0")
      case True
      with data run have fin: "finishMetadata ?s = Inr s'" by (simp add: feedByte_def Let_def)
      note fr = finishMetadata_frame [OF fin]
      have "inMetadata s' = None \<and> metadataBytes s' = None"
        using fin inv by (cases "inMetadata s"; cases "metadataBytes s")
          (auto simp: finishMetadata_def result_simps takeData_def Let_def tarInv_def metaOk_def)
      with ok fr inv show ?thesis by (simp add: tarInv_def entriesOk_def metaOk_def)
    next
      case False
      with data run have "s' = ?s" by (simp add: feedByte_def Let_def)
      with ok inv False takeData_meta [of s "[b]"] show ?thesis
        by (simp add: tarInv_def entriesOk_def readerOk_def)
    qed
  next
    case header
    then have zero: "contentRemaining s = 0" using inv by (simp add: tarInv_def readerOk_def)
    show ?thesis
    proof (cases "length (inHeader s @ [b]) = blockSize")
      case True
      with header run have "acceptHeader (inHeader s @ [b]) (s\<lparr>inHeader := []\<rparr>) = Inr s'"
        by (simp add: feedByte_def Let_def)
      then show ?thesis
        by (rule acceptHeader_inv) (use header zero inv in \<open>simp_all add: tarInv_def entriesOk_def metaOk_def\<close>)
    next
      case False
      with header run have "s' = s\<lparr>inHeader := inHeader s @ [b]\<rparr>" by (simp add: feedByte_def Let_def)
      with ok inv show ?thesis by (simp add: tarInv_def entriesOk_def metaOk_def)
    qed
  qed
qed

lemma feedBytes_inv: "tarInv s \<Longrightarrow> feedBytes bs s = Inr s' \<Longrightarrow> tarInv s'"
  by (induction bs arbitrary: s) (auto simp: result_simps dest: feedByte_inv)

lemma makeInspector_inv: "tarInv (inReader makeInspector)"
  by (simp add: tarInv_def readerOk_def entriesOk_def metaOk_def makeInspector_def)

section \<open>Feeding chunks\<close>

lemma feed_eq:
  assumes "readerOk (inReader i)"
  shows "feed chunk i = Some (if tarBytes i + length chunk > maximumTarBytes then expandsTooFar
    else bindE (feedBytes chunk (inReader i)) (\<lambda>s. Inr \<lparr>inReader = s, tarBytes = tarBytes i + length chunk\<rparr>))"
  using feedLoop_feedBytes [OF order_refl assms] by (simp add: feed_def Let_def)

lemma feedAll_eq:
  assumes "readerOk (inReader i)" "tarBytes i \<le> maximumTarBytes"
  shows "\<exists>r. feedAll cs i = Some r \<and> (\<forall>i'. r = Inr i' \<longleftrightarrow>
    tarBytes i + length (concat cs) \<le> maximumTarBytes \<and> tarBytes i' = tarBytes i + length (concat cs) \<and>
    feedBytes (concat cs) (inReader i) = Inr (inReader i'))"
  using assms
proof (induction cs arbitrary: i)
  case Nil
  show ?case using Nil by auto
next
  case (Cons c cs)
  note step = feed_eq [OF Cons.prems(1), of c]
  show ?case
  proof (cases "tarBytes i + length c > maximumTarBytes")
    case True
    with step show ?thesis by (auto simp: expandsTooFar_def sizeFailure_def)
  next
    case False
    show ?thesis
    proof (cases "feedBytes c (inReader i)")
      case (Inl e)
      with step False show ?thesis by (auto simp: feedBytes_append)
    next
      case (Inr s)
      let ?i = "\<lparr>inReader = s, tarBytes = tarBytes i + length c\<rparr>"
      have "readerOk (inReader ?i)" using feedBytes_ok [OF Cons.prems(1) Inr] by simp
      from Cons.IH [OF this] False obtain r where "feedAll cs ?i = Some r"
        "\<forall>i'. r = Inr i' \<longleftrightarrow> tarBytes ?i + length (concat cs) \<le> maximumTarBytes \<and>
           tarBytes i' = tarBytes ?i + length (concat cs) \<and> feedBytes (concat cs) (inReader ?i) = Inr (inReader i')"
        by auto
      with step False Inr show ?thesis by (auto simp: feedBytes_append)
    qed
  qed
qed

lemma makeInspector_tarBytes: "tarBytes makeInspector = 0"
  by (simp add: makeInspector_def)

lemma inspectChunks_eq:
  "\<exists>r. inspectChunks cs = Some r \<and> (\<forall>es. r = Inr es \<longleftrightarrow>
     length (concat cs) \<le> maximumTarBytes \<and>
     (\<exists>s. feedBytes (concat cs) (inReader makeInspector) = Inr s \<and>
       finish \<lparr>inReader = s, tarBytes = length (concat cs)\<rparr> = Inr es))"
proof -
  have "readerOk (inReader makeInspector)" using makeInspector_inv by (simp add: tarInv_def)
  from feedAll_eq [OF this, of cs] obtain r where r: "feedAll cs makeInspector = Some r"
    "\<forall>i'. r = Inr i' \<longleftrightarrow> length (concat cs) \<le> maximumTarBytes \<and> tarBytes i' = length (concat cs) \<and>
      feedBytes (concat cs) (inReader makeInspector) = Inr (inReader i')"
    by (auto simp: makeInspector_tarBytes)
  have "bindE r finish = Inr es \<longleftrightarrow> length (concat cs) \<le> maximumTarBytes \<and>
     (\<exists>s. feedBytes (concat cs) (inReader makeInspector) = Inr s \<and>
       finish \<lparr>inReader = s, tarBytes = length (concat cs)\<rparr> = Inr es)" for es
  proof
    assume "bindE r finish = Inr es"
    then obtain i where i: "r = Inr i" "finish i = Inr es" by (auto simp: result_simps)
    with r(2) have facts: "length (concat cs) \<le> maximumTarBytes" "tarBytes i = length (concat cs)"
      "feedBytes (concat cs) (inReader makeInspector) = Inr (inReader i)" by blast+
    have "i = \<lparr>inReader = inReader i, tarBytes = length (concat cs)\<rparr>" using facts(2) by simp
    with facts i(2) show "length (concat cs) \<le> maximumTarBytes \<and>
      (\<exists>s. feedBytes (concat cs) (inReader makeInspector) = Inr s \<and>
        finish \<lparr>inReader = s, tarBytes = length (concat cs)\<rparr> = Inr es)" by metis
  next
    assume "length (concat cs) \<le> maximumTarBytes \<and>
      (\<exists>s. feedBytes (concat cs) (inReader makeInspector) = Inr s \<and>
        finish \<lparr>inReader = s, tarBytes = length (concat cs)\<rparr> = Inr es)"
    then obtain s where s: "length (concat cs) \<le> maximumTarBytes"
      "feedBytes (concat cs) (inReader makeInspector) = Inr s" "finish \<lparr>inReader = s, tarBytes = length (concat cs)\<rparr> = Inr es"
      by blast
    then have "r = Inr \<lparr>inReader = s, tarBytes = length (concat cs)\<rparr>" using r(2) by simp
    with s(3) show "bindE r finish = Inr es" by simp
  qed
  with r(1) show ?thesis by (auto simp: inspectChunks_def)
qed

lemma inspectTar_chunks:
  assumes "inspectTar decompress bytes = Some (Inr es)"
  shows "\<exists>chunks. inspectChunks chunks = Some (Inr es)"
proof (cases "archiveCompression bytes = CompressionNone")
  case True
  with assms show ?thesis by (auto simp: inspectTar_def)
next
  case False
  with assms obtain chunks i where "feedAll chunks makeInspector = Some (Inr i)" "finish i = Inr es"
    by (auto simp: inspectTar_def Let_def archiveFailure_def
        split: prod.splits option.splits sum.splits process_result.splits if_splits)
  then have "inspectChunks chunks = Some (Inr es)" by (simp add: inspectChunks_def)
  then show ?thesis by blast
qed

lemma inspectTar_answers: "inspectTar decompress bytes \<noteq> None"
proof -
  have ok: "readerOk (inReader makeInspector)" using makeInspector_inv by (simp add: tarInv_def)
  have "\<exists>r. feedAll chunks makeInspector = Some r" for chunks
    using feedAll_eq [OF ok, of chunks] by (auto simp: makeInspector_tarBytes)
  then obtain r where "feedAll (fst (decompress (archiveCompression bytes) bytes)) makeInspector = Some r" by blast
  moreover have "inspectChunks [bytes] \<noteq> None" using inspectChunks_eq [of "[bytes]"] by auto
  ultimately show ?thesis by (simp add: inspectTar_def Let_def case_prod_beta split: sum.splits)
qed

lemma finish_Inr:
  assumes "finish i = Inr es"
  shows "es = inEntries (inReader i)" "(p, e) \<in> set es \<Longrightarrow> validateEntry es e = Inr ()"
proof -
  show es: "es = inEntries (inReader i)"
    using assms by (auto simp: finish_def Let_def result_simps archiveFailure_def split: if_splits)
  from assms es obtain us where us: "traverseE (\<lambda>(_, e). validateEntry es e) es = Inr us"
    by (auto simp: finish_def Let_def result_simps archiveFailure_def validateLinks_def split: if_splits)
  assume mem: "(p, e) \<in> set es"
  have "map (\<lambda>(_, e). validateEntry es e) es = map Inr us" using us by (simp add: traverseE_Inr_iff)
  moreover have "validateEntry es e \<in> set (map (\<lambda>(_, e). validateEntry es e) es)" using mem by force
  ultimately obtain u where "validateEntry es e = Inr u" by auto
  then show "validateEntry es e = Inr ()" by simp
qed

end
