(* ===== verification/Tar_Properties.thy ===== *)
theory Tar_Properties
  imports Tar_Invariant
begin

text \<open>
  The properties of the archive inspector: it answers for any chunks what it answers for the
  whole archive, an accepted archive is confined to its directory, its memory is bounded,
  and where its reading of names is not that of the bytes.
\<close>

section \<open>Sample archives\<close>

text \<open>
  A header whose name and link name are one character each; \<open>check\<close> is the checksum field.
  The archive holds the file \<open>d\<close> and the symbolic link \<open>e\<close> to it.
\<close>

definition sampleHeader :: "byte \<Rightarrow> byte list \<Rightarrow> byte \<Rightarrow> byte \<Rightarrow> byte list" where
  "sampleHeader name check type link = name # replicate 147 0 @ check @ type # link # replicate 354 0"

definition fileHeader :: "byte list" where
  "fileHeader = sampleHeader 100 [48, 54, 50, 52, 0, 0, 0, 0] 48 0"

definition linkHeader :: "byte list" where
  "linkHeader = sampleHeader 101 [48, 55, 55, 51, 0, 0, 0, 0] 50 100"

definition zeroBlock :: "byte list" where
  "zeroBlock = replicate 512 0"

definition sampleEntries :: "(utext \<times> tar_entry) list" where
  "sampleEntries = [(ascii ''d'', \<lparr>enPath = ascii ''d'', enType = TypeFile, enTarget = None\<rparr>),
     (ascii ''e'', \<lparr>enPath = ascii ''e'', enType = TypeSymlink, enTarget = Some (ascii ''d'')\<rparr>)]"

lemma utf8_zeros: "utf8 (replicate n 0) = Some (replicate n 0)"
  by (induction n) simp_all

lemma decodeText_zeros: "decodeText (replicate n 0) = Some (replicate n 0)"
  by (cases n) (simp_all add: decodeText_def utf8_zeros)

lemma parseTarNumber_zeros: "0 < n \<Longrightarrow> parseTarNumber (replicate n 0) = Some 0"
  by (cases n) (simp_all add: parseTarNumber_def decodeText_zeros trimText_def Let_def flip: replicate_Suc)

lemma parse_checks:
  "parseTarNumber [48, 54, 50, 52, 0, 0, 0, 0] = Some 404" "parseTarNumber [48, 55, 55, 51, 0, 0, 0, 0] = Some 507"
  by (simp_all add: parseTarNumber_def decodeText_def trimText_def trimmable_def octalDigits_def parseOctal_def Let_def)

lemma field_texts:
  "fieldText (0 # bs) = Some []" "fieldText (replicate n 0) = Some []"
  "fieldText (100 # replicate n 0) = Some [100]" "fieldText (101 # replicate n 0) = Some [101]"
  by (simp_all add: fieldText_def decodeText_def replacement_def)

lemmas header_simps = parseHeader_def sampleHeader_def subarray_def checksumOf_def sum_list_replicate nth_append
  parse_checks parseTarNumber_zeros field_texts ascii_def

lemma parse_fileHeader:
  "parseHeader fileHeader = Some \<lparr>hdName = ascii ''d'', hdLinkName = [], hdSize = 0, hdType = 48\<rparr>"
  by (simp add: fileHeader_def header_simps)

lemma parse_linkHeader:
  "parseHeader linkHeader = Some \<lparr>hdName = ascii ''e'', hdLinkName = ascii ''d'', hdSize = 0, hdType = 50\<rparr>"
  by (simp add: linkHeader_def header_simps)

lemma feedBytes_block:
  assumes "length h = blockSize" "inHeader s = []" "\<not> inEnded s" "dataRemaining s = 0"
  shows "feedBytes (h @ t) s = bindE (acceptHeader h s) (feedBytes t)"
proof -
  have "h \<noteq> []" using assms(1) by (auto simp: blockSize_def)
  moreover have same: "s\<lparr>inHeader := []\<rparr> = s" using assms(2) by simp
  ultimately show ?thesis using feedBytes_header [of h s, unfolded same] assms by (simp add: feedBytes_append)
qed

definition sampleArchive :: "byte list" where
  "sampleArchive = fileHeader @ linkHeader @ zeroBlock @ zeroBlock @ []"

lemma sample_lengths: "length fileHeader = blockSize" "length linkHeader = blockSize" "length zeroBlock = blockSize"
  by (simp_all add: fileHeader_def linkHeader_def sampleHeader_def zeroBlock_def blockSize_def)

lemma accept_zeroBlock:
  "acceptHeader zeroBlock s = Inr (s\<lparr>zeroBlocks := zeroBlocks s + 1, inEnded := (zeroBlocks s + 1 = 2 \<or> inEnded s)\<rparr>)"
  by (simp add: acceptHeader_def zeroBlock_def list_all_iff Let_def)

lemma not_zero: "\<not> list_all (\<lambda>b. b = 0) fileHeader" "\<not> list_all (\<lambda>b. b = 0) linkHeader"
  by (simp_all add: fileHeader_def linkHeader_def sampleHeader_def)

definition afterEntry :: "(utext \<times> tar_entry) list \<Rightarrow> tar_reader" where
  "afterEntry es = (inReader makeInspector)\<lparr>inEntries := es\<rparr>"

lemma accept_fileHeader: "acceptHeader fileHeader (afterEntry []) = Inr (afterEntry (take 1 sampleEntries))"
  by (simp add: acceptHeader_def not_zero parse_fileHeader afterEntry_def makeInspector_def metadataKind_def register_def
      archiveEntryType_def headerValues_def normalizeEntryPath_def ascii_def slash_def utf16Length_def
      dropTrailingSlashes_def dropDotSlash.simps dot_def dotdot_def plainPart_def forbiddenPath_def forbiddenParts_def
      boundedContentBytes_def maximumArchiveUncompressedBytes_def maximumArchiveEntries_def makeEntry_def
      isLinkEntry_def beginData_def blockSize_def sampleEntries_def Let_def)

lemma accept_linkHeader: "acceptHeader linkHeader (afterEntry (take 1 sampleEntries)) = Inr (afterEntry sampleEntries)"
  by (simp add: acceptHeader_def not_zero parse_linkHeader afterEntry_def makeInspector_def metadataKind_def register_def
      archiveEntryType_def headerValues_def normalizeEntryPath_def ascii_def slash_def utf16Length_def
      dropTrailingSlashes_def dropDotSlash.simps dot_def dotdot_def plainPart_def forbiddenPath_def forbiddenParts_def
      boundedContentBytes_def maximumArchiveUncompressedBytes_def maximumArchiveEntries_def makeEntry_def
      isLinkEntry_def normalizeLinkTarget_def beginData_def blockSize_def sampleEntries_def Let_def)

lemma feed_sampleArchive:
  "feedBytes sampleArchive (inReader makeInspector) = Inr ((afterEntry sampleEntries)\<lparr>zeroBlocks := 2, inEnded := True\<rparr>)"
proof -
  have "inReader makeInspector = afterEntry []" by (simp add: afterEntry_def makeInspector_def)
  moreover have "inHeader (afterEntry es) = []" "\<not> inEnded (afterEntry es)" "dataRemaining (afterEntry es) = 0"
    "zeroBlocks (afterEntry es) = 0" for es
    by (simp_all add: afterEntry_def makeInspector_def)
  ultimately show ?thesis
    by (simp add: sampleArchive_def feedBytes_block sample_lengths accept_fileHeader accept_linkHeader accept_zeroBlock
        del: append_Nil2 One_nat_def)
qed

lemma sampleArchive_accepted: "inspectChunks [sampleArchive] = Some (Inr sampleEntries)"
proof -
  have "validateLinks sampleEntries = Inr ()" by code_simp
  then have "finish \<lparr>inReader = (afterEntry sampleEntries)\<lparr>zeroBlocks := 2, inEnded := True\<rparr>, tarBytes = n\<rparr> = Inr sampleEntries" for n
    by (simp add: finish_def Let_def afterEntry_def makeInspector_def)
  moreover have "length sampleArchive \<le> maximumTarBytes"
    by (simp add: sampleArchive_def sample_lengths blockSize_def maximumTarBytes_def)
  ultimately show ?thesis using inspectChunks_eq [of "[sampleArchive]"] feed_sampleArchive by auto
qed

lemma sampleArchive_inspected: "inspectTar decompress sampleArchive = Some (Inr sampleEntries)"
proof -
  have "archiveCompression sampleArchive = CompressionNone"
    by (simp add: archiveCompression_def sampleArchive_def fileHeader_def sampleHeader_def)
  then show ?thesis using sampleArchive_accepted by (simp add: inspectTar_def)
qed

section \<open>Chunks\<close>

text \<open>
  C24: the inspection always ends with an answer, and how the decompressed bytes are cut into chunks does not matter:
  an archive is accepted, with the same entries, for one cutting exactly when it is for
  any other.
\<close>

theorem chunking_is_irrelevant:
  "inspectTar decompress bytes \<noteq> None \<and> (\<exists>r r'. inspectChunks chunks = Some r \<and> inspectChunks [concat chunks] = Some r' \<and> (\<forall>es. r = Inr es \<longleftrightarrow> r' = Inr es))"
proof -
  obtain r where "inspectChunks chunks = Some r" "\<forall>es. r = Inr es \<longleftrightarrow> length (concat chunks) \<le> maximumTarBytes \<and>
     (\<exists>s. feedBytes (concat chunks) (inReader makeInspector) = Inr s \<and>
       finish \<lparr>inReader = s, tarBytes = length (concat chunks)\<rparr> = Inr es)"
    using inspectChunks_eq [of chunks] by blast
  moreover obtain r' where "inspectChunks [concat chunks] = Some r'" "\<forall>es. r' = Inr es \<longleftrightarrow> length (concat [concat chunks]) \<le> maximumTarBytes \<and>
     (\<exists>s. feedBytes (concat [concat chunks]) (inReader makeInspector) = Inr s \<and>
       finish \<lparr>inReader = s, tarBytes = length (concat [concat chunks])\<rparr> = Inr es)"
    using inspectChunks_eq [of "[concat chunks]"] by blast
  ultimately show ?thesis using inspectTar_answers by simp
qed

section \<open>Confinement\<close>

text \<open>
  C11: an accepted archive stays inside the directory it is extracted to and away from the
  places it must not write.  Every entry has a path of plain parts (no empty part, ".", or
  "..") that is not forbidden and does not pass through a symbolic link of the archive; the
  target of every link is such a path of the archive too; and a hard link names a file
  entry.
\<close>

theorem accepted_archive_is_confined:
  assumes "inspectTar decompress bytes = Some (Inr es)" "(p, e) \<in> set es"
  shows "confinedPath p \<and> \<not> throughSymlink (symlinkPaths es) p \<and>
    (isLinkEntry (enType e) \<longrightarrow> (\<exists>t. enTarget e = Some t \<and> confinedPath t \<and> \<not> throughSymlink (symlinkPaths es) t \<and>
      t \<in> set (knownPaths es) \<and>
      (enType e = TypeHardlink \<longrightarrow> (\<exists>f. map_of es t = Some f \<and> enType f = TypeFile))))"
proof -
  from inspectTar_chunks [OF assms(1)] obtain chunks where accepted: "inspectChunks chunks = Some (Inr es)" by blast
  obtain r where "inspectChunks chunks = Some r" "r = Inr es \<longleftrightarrow> length (concat chunks) \<le> maximumTarBytes \<and>
     (\<exists>s. feedBytes (concat chunks) (inReader makeInspector) = Inr s \<and>
       finish \<lparr>inReader = s, tarBytes = length (concat chunks)\<rparr> = Inr es)"
    using inspectChunks_eq [of chunks] by blast
  with accepted obtain s where s: "feedBytes (concat chunks) (inReader makeInspector) = Inr s"
    "finish \<lparr>inReader = s, tarBytes = length (concat chunks)\<rparr> = Inr es" by auto
  have "tarInv s" using feedBytes_inv [OF makeInspector_inv s(1)] .
  moreover have es: "es = inEntries s" using finish_Inr(1) [OF s(2)] by simp
  ultimately have entry: "entryOk (p, e)" using assms(2) by (auto simp: tarInv_def entriesOk_def list_all_iff)
  have valid: "validateEntry es e = Inr ()" using finish_Inr(2) [OF s(2) assms(2)] .
  have path: "enPath e = p" using entry by (simp add: entryOk_def)
  show ?thesis
  proof (cases "enTarget e")
    case None
    with entry valid path show ?thesis by (auto simp: entryOk_def validateEntry_def archiveFailure_def split: if_splits)
  next
    case (Some t)
    with entry valid path show ?thesis
      by (auto simp: entryOk_def validateEntry_def archiveFailure_def split: if_splits)
  qed
qed

theorem accepted_archive_is_confined_witness:
  "inspectTar (\<lambda>_ _. ([], ProcessFailed)) sampleArchive = Some (Inr sampleEntries) \<and> confinedPath (ascii ''e'') \<and>
     ascii ''d'' \<in> set (knownPaths sampleEntries)"
proof -
  let ?e = "\<lparr>enPath = ascii ''e'', enType = TypeSymlink, enTarget = Some (ascii ''d'')\<rparr>"
  have "(ascii ''e'', ?e) \<in> set sampleEntries" by (simp add: sampleEntries_def)
  from accepted_archive_is_confined [OF sampleArchive_inspected this] sampleArchive_inspected
  show ?thesis by (simp add: isLinkEntry_def)
qed

section \<open>Bounds\<close>

text \<open>
  whatever bytes the inspector has read, what it holds is bounded: less than one block
  of header, at most 64 KiB of metadata, at most ten thousand entries with distinct paths,
  and at most 256 MiB of announced content.
\<close>

theorem inspector_memory_is_bounded:
  assumes "feedAll chunks makeInspector = Some (Inr i)"
  shows "length (inHeader (inReader i)) < blockSize \<and>
    (\<forall>m. metadataBytes (inReader i) = Some m \<longrightarrow> length m \<le> maximumMetadataBytes) \<and>
    length (inEntries (inReader i)) \<le> maximumArchiveEntries \<and> distinct (map fst (inEntries (inReader i))) \<and>
    contentBytes (inReader i) \<le> maximumArchiveUncompressedBytes \<and> tarBytes i \<le> maximumTarBytes"
proof -
  have "readerOk (inReader makeInspector)" using makeInspector_inv by (simp add: tarInv_def)
  from feedAll_eq [OF this, of chunks] assms have
    "feedBytes (concat chunks) (inReader makeInspector) = Inr (inReader i)"
    "tarBytes i = length (concat chunks)" "length (concat chunks) \<le> maximumTarBytes"
    by (auto simp: makeInspector_tarBytes)
  with feedBytes_inv [OF makeInspector_inv] show ?thesis
    by (fastforce simp: tarInv_def readerOk_def entriesOk_def metaOk_def)
qed

theorem inspector_memory_is_bounded_witness:
  "\<exists>i. feedAll [[100, 0], [0]] makeInspector = Some (Inr i) \<and> length (inHeader (inReader i)) < blockSize"
proof -
  have "(case feedAll [[100, 0], [0]] makeInspector of Some (Inr i) \<Rightarrow> True | _ \<Rightarrow> False)"
    by (simp add: feed_def makeInspector_def maximumTarBytes_def maximumArchiveUncompressedBytes_def blockSize_def)
  then obtain i where "feedAll [[100, 0], [0]] makeInspector = Some (Inr i)"
    by (auto split: option.splits sum.splits)
  with inspector_memory_is_bounded [OF this] show ?thesis by blast
qed

section \<open>Names that are not read as they are written\<close>

definition byteOrderMark :: "byte list" where
  "byteOrderMark = [0xEF, 0xBB, 0xBF]"

lemma stored_readings:
  "fieldText [112] = Some [112]" "fieldText [0xEF, 0xBB, 0xBF, 120] = Some [120]"
  "metadataField [112, 47, 0xEF, 0xBB, 0xBF, 120] = Some [112, 47, 65279, 120]"
  by (simp_all add: fieldText_def metadataField_def decodeText_def continuation_def replacement_def)

lemma marked_path_normal: "normalizeEntryPath [112, 47, 65279, 120] = Some [112, 47, 65279, 120]"
  by (simp add: normalizeEntryPath_def utf16Length_def dropTrailingSlashes_def dropDotSlash.simps ascii_def slash_def
      dot_def dotdot_def plainPart_def forbiddenPath_def forbiddenParts_def Let_def)

lemma marked_prefixes:
  "splitOn slash [112, 47, 65279, 120, 47, 102] = [[112], [65279, 120], [102]]" "[1..<3] = [1, 2::nat]"
  by (simp_all add: slash_def upt_rec)


end
