(* ===== verification/Transcript_Order.thy ===== *)
theory Transcript_Order
  imports Prelude "HOL-Library.Word" "HOL-Library.List_Lexorder"
begin

text \<open>
  The order of transcript units (packages/transcript/src/ordering/unit-order.ts): orders as
  lists of segments, their encoding as text, and the comparison of the texts, which is the
  lexicographic order on segments.  A JavaScript string is the list of its UTF-16 code
  units; text compares by code units.
\<close>

type_synonym utf16 = "16 word list"

definition plainText :: "string \<Rightarrow> utf16" where
  "plainText s = map of_char s"

section \<open>Segments\<close>

datatype unit_order_segment = Segment (sgSequence: int) (sgPart: int) (sgKey: utf16)

type_synonym unit_order = "unit_order_segment list"

instantiation unit_order_segment :: linorder
begin

definition less_unit_order_segment :: "unit_order_segment \<Rightarrow> unit_order_segment \<Rightarrow> bool" where
  "s < t \<longleftrightarrow> sgSequence s < sgSequence t \<or> (sgSequence s = sgSequence t \<and>
     (sgPart s < sgPart t \<or> (sgPart s = sgPart t \<and> sgKey s < sgKey t)))"

definition less_eq_unit_order_segment :: "unit_order_segment \<Rightarrow> unit_order_segment \<Rightarrow> bool" where
  "s \<le> t \<longleftrightarrow> s < t \<or> s = (t :: unit_order_segment)"

instance
proof
  fix s t u :: unit_order_segment
  show "s < t \<longleftrightarrow> s \<le> t \<and> \<not> t \<le> s"
    by (auto simp: less_unit_order_segment_def less_eq_unit_order_segment_def)
  show "s \<le> s" by (simp add: less_eq_unit_order_segment_def)
  show "s \<le> u" if "s \<le> t" "t \<le> u"
    using that by (auto simp: less_unit_order_segment_def less_eq_unit_order_segment_def)
  show "s = t" if "s \<le> t" "t \<le> s"
    using that by (auto simp: less_unit_order_segment_def less_eq_unit_order_segment_def)
  show "s \<le> t \<or> t \<le> s"
    by (cases s; cases t) (auto simp: less_unit_order_segment_def less_eq_unit_order_segment_def)
qed

end

datatype range_error = RangeError string

definition maxSafe :: int where
  "maxSafe = 9007199254740991"

definition highSurrogate :: "16 word \<Rightarrow> bool" where
  "highSurrogate c \<longleftrightarrow> 0xD800 \<le> c \<and> c \<le> 0xDBFF"

definition lowSurrogate :: "16 word \<Rightarrow> bool" where
  "lowSurrogate c \<longleftrightarrow> 0xDC00 \<le> c \<and> c \<le> 0xDFFF"

fun wellFormedString :: "utf16 \<Rightarrow> bool" where
  "wellFormedString [] \<longleftrightarrow> True"
| "wellFormedString (c # cs) \<longleftrightarrow>
     (if highSurrogate c then (case cs of [] \<Rightarrow> False | d # ds \<Rightarrow> lowSurrogate d \<and> wellFormedString ds)
      else \<not> lowSurrogate c \<and> wellFormedString cs)"

definition assertKey :: "utf16 \<Rightarrow> range_error + unit" where
  "assertKey value =
     (if value = [] \<or> \<not> wellFormedString value then Inl (RangeError ''Unit order keys must be well-formed text'')
      else Inr ())"

text \<open>The minimum is -1 or 0 in every call.\<close>

definition assertNumber :: "int \<Rightarrow> int \<Rightarrow> range_error + unit" where
  "assertNumber value minimum =
     (if \<not> (- maxSafe \<le> value \<and> value \<le> maxSafe) \<or> value < minimum
      then Inl (RangeError (''Unit order numbers must be safe integers greater than or equal to '' @
        (if minimum = - 1 then ''-1'' else ''0'')))
      else Inr ())"

definition assertSegment :: "unit_order_segment \<Rightarrow> range_error + unit" where
  "assertSegment s =
     bindE (assertNumber (sgSequence s) (- 1)) (\<lambda>_. bindE (assertNumber (sgPart s) 0) (\<lambda>_. assertKey (sgKey s)))"

definition emptyOrder :: "range_error" where
  "emptyOrder = RangeError ''Unit orders must contain at least one segment''"

definition assertOrder :: "unit_order \<Rightarrow> range_error + unit" where
  "assertOrder segs = (if segs = [] then Inl emptyOrder else bindE (traverseE assertSegment segs) (\<lambda>_. Inr ()))"

section \<open>Orders\<close>

definition immutableOrder :: "unit_order \<Rightarrow> range_error + unit_order" where
  "immutableOrder segs = (if segs = [] then Inl emptyOrder else Inr segs)"

definition unitOrder :: "utf16 \<Rightarrow> int \<Rightarrow> int \<Rightarrow> range_error + unit_order" where
  "unitOrder key sequence part =
     (let s = Segment sequence part key in bindE (assertSegment s) (\<lambda>_. immutableOrder [s]))"

definition childOrder :: "unit_order \<Rightarrow> utf16 \<Rightarrow> unit_order \<Rightarrow> range_error + unit_order" where
  "childOrder parent subagentId local =
     bindE (assertOrder parent) (\<lambda>_. bindE (assertKey subagentId) (\<lambda>_. bindE (assertOrder local) (\<lambda>_.
       immutableOrder (parent @ [Segment 0 0 (plainText ''@child:'' @ subagentId)] @ local))))"

definition localOrder :: "unit_order \<Rightarrow> range_error + unit_order" where
  "localOrder segs = bindE (assertOrder segs) (\<lambda>_. immutableOrder [last segs])"

section \<open>Encoding\<close>

text \<open>\<open>toString\<close> of a number in a radix, and \<open>padStart\<close> with zeros.\<close>

function radixDigits :: "nat \<Rightarrow> nat \<Rightarrow> nat list" where
  "radixDigits b n = (if n < b \<or> b < 2 then [n] else radixDigits b (n div b) @ [n mod b])"
  by auto
termination by (relation "measure snd") auto

definition digitUnit :: "nat \<Rightarrow> 16 word" where
  "digitUnit d = of_nat (if d < 10 then 48 + d else 87 + d)"

definition padStart :: "nat \<Rightarrow> utf16 \<Rightarrow> utf16" where
  "padStart width t = replicate (width - length t) 48 @ t"

definition radixText :: "nat \<Rightarrow> nat \<Rightarrow> utf16" where
  "radixText b n = map digitUnit (radixDigits b n)"

definition numberWidth :: nat where
  "numberWidth = 16"

definition encodeNumber :: "int \<Rightarrow> int \<Rightarrow> utf16" where
  "encodeNumber value offset = padStart numberWidth (radixText 10 (nat (value + offset)))"

definition encodeKey :: "utf16 \<Rightarrow> utf16" where
  "encodeKey value = concat (map (\<lambda>c. padStart 4 (radixText 16 (unat c))) value) @ [47]"

definition encodeSegment :: "unit_order_segment \<Rightarrow> utf16" where
  "encodeSegment s = encodeNumber (sgSequence s) 1 @ encodeNumber (sgPart s) 0 @ encodeKey (sgKey s)"

definition encodeUnitOrder :: "unit_order \<Rightarrow> range_error + utf16" where
  "encodeUnitOrder segs = bindE (assertOrder segs) (\<lambda>_. Inr (concat (map encodeSegment segs)))"

definition compareUnitOrder :: "unit_order \<Rightarrow> unit_order \<Rightarrow> range_error + int" where
  "compareUnitOrder l r =
     bindE (encodeUnitOrder l) (\<lambda>encodedLeft. bindE (encodeUnitOrder r) (\<lambda>encodedRight.
       Inr (if encodedLeft < encodedRight then - 1 else if encodedRight < encodedLeft then 1 else 0)))"

declare radixDigits.simps [simp del]

section \<open>Digits of a fixed width\<close>

fun fixedDigits :: "nat \<Rightarrow> nat \<Rightarrow> nat \<Rightarrow> nat list" where
  "fixedDigits b 0 n = []"
| "fixedDigits b (Suc w) n = fixedDigits b w (n div b) @ [n mod b]"

lemma length_fixedDigits [simp]: "length (fixedDigits b w n) = w"
  by (induction w arbitrary: n) simp_all

lemma less_append_left [simp]: "xs @ ys < xs @ zs \<longleftrightarrow> ys < (zs :: 'a::linorder list)"
  by (induction xs) simp_all

lemma less_append: "xs < (ys :: 'a::linorder list) \<Longrightarrow> length xs = length ys \<Longrightarrow> xs @ us < ys @ vs"
proof (induction xs arbitrary: ys)
  case (Cons x xs)
  then show ?case by (cases ys) auto
qed simp

lemma fixedDigits_less:
  assumes "n < m" "m < b ^ w"
  shows "fixedDigits b w n < fixedDigits b w m"
  using assms
proof (induction w arbitrary: n m)
  case (Suc w)
  have b: "0 < b" using Suc.prems by (cases b) auto
  have "m div b < b ^ w" using Suc.prems(2) b by (simp add: less_mult_imp_div_less mult.commute)
  show ?case
  proof (cases "n div b < m div b")
    case True
    from Suc.IH [OF this \<open>m div b < b ^ w\<close>] show ?thesis by (auto intro: less_append)
  next
    case False
    with Suc.prems(1) have "n div b = m div b" by (simp add: div_le_mono nat_less_le order_antisym_conv)
    moreover from this have "n mod b < m mod b"
      using Suc.prems(1) by (metis div_mult_mod_eq nat_add_left_cancel_less)
    ultimately show ?thesis by simp
  qed
qed simp

lemma fixedDigits_zeros: "fixedDigits b w 0 = replicate w 0"
  by (induction w) (simp_all add: replicate_append_same)

lemma fixedDigits_radix:
  assumes "2 \<le> b" "n < b ^ w" "0 < w"
  shows "fixedDigits b w n = replicate (w - length (radixDigits b n)) 0 @ radixDigits b n \<and> length (radixDigits b n) \<le> w"
  using assms
proof (induction b n arbitrary: w rule: radixDigits.induct)
  case (1 b n)
  from "1.prems"(3) obtain v where w: "w = Suc v" by (cases w) auto
  show ?case
  proof (cases "n < b")
    case True
    with "1.prems"(1) w show ?thesis by (simp add: radixDigits.simps [of b n] fixedDigits_zeros)
  next
    case False
    have "n div b < b ^ v" using "1.prems"(1,2) w by (simp add: less_mult_imp_div_less mult.commute)
    moreover have "0 < v" using False "1.prems"(2) w by (cases v) auto
    ultimately show ?thesis
      using "1.IH" [of v] False "1.prems"(1) w by (simp add: radixDigits.simps [of b n])
  qed
qed

lemma fixedDigits_bound: "0 < b \<Longrightarrow> d \<in> set (fixedDigits b w n) \<Longrightarrow> d < b"
  by (induction w arbitrary: n) auto

lemma padStart_radix:
  assumes "2 \<le> b" "n < b ^ w" "0 < w"
  shows "padStart w (radixText b n) = map digitUnit (fixedDigits b w n)"
  using fixedDigits_radix [OF assms] by (simp add: padStart_def radixText_def digitUnit_def)

lemma digitUnit_less: "d < e \<Longrightarrow> e < 16 \<Longrightarrow> digitUnit d < digitUnit e"
  by (auto simp: digitUnit_def word_less_nat_alt unat_of_nat)

lemma digitUnit_above: "d < 16 \<Longrightarrow> 47 < digitUnit d"
  by (auto simp: digitUnit_def word_less_nat_alt unat_of_nat)

lemma map_less:
  assumes "xs < ys" "\<forall>x \<in> set xs. \<forall>y \<in> set ys. x < y \<longrightarrow> f x < f y"
  shows "map f xs < (map f ys :: 'b::linorder list)"
  using assms
proof (induction xs arbitrary: ys)
  case Nil then show ?case by (cases ys) auto
next
  case (Cons x xs)
  then show ?case by (cases ys) auto
qed

lemma padded_less:
  assumes "2 \<le> b" "b \<le> 16" "n < m" "m < b ^ w"
  shows "padStart w (radixText b n) < padStart w (radixText b m)"
    "length (padStart w (radixText b n)) = length (padStart w (radixText b m))"
proof -
  have w: "0 < w" using assms(3,4) by (cases w) auto
  have n: "n < b ^ w" using assms(3,4) by (rule less_trans)
  have bound: "d \<in> set (fixedDigits b w k) \<Longrightarrow> d < 16" for d k
    using fixedDigits_bound [of b d w k] assms(1,2) by linarith
  show "padStart w (radixText b n) < padStart w (radixText b m)"
    unfolding padStart_radix [OF assms(1) n w] padStart_radix [OF assms(1,4) w]
    by (rule map_less [OF fixedDigits_less [OF assms(3,4)]]) (auto intro: digitUnit_less bound)
  show "length (padStart w (radixText b n)) = length (padStart w (radixText b m))"
    unfolding padStart_radix [OF assms(1) n w] padStart_radix [OF assms(1,4) w] by simp
qed

section \<open>The encoding keeps the order\<close>

definition segmentOk :: "unit_order_segment \<Rightarrow> bool" where
  "segmentOk s \<longleftrightarrow> - 1 \<le> sgSequence s \<and> sgSequence s \<le> maxSafe \<and> 0 \<le> sgPart s \<and> sgPart s \<le> maxSafe \<and>
     sgKey s \<noteq> [] \<and> wellFormedString (sgKey s)"

lemma assertSegment_Inr: "assertSegment s = Inr u \<longleftrightarrow> segmentOk s"
  by (auto simp: assertSegment_def assertNumber_def assertKey_def segmentOk_def bindE_Inr_iff maxSafe_def split: if_splits)

lemma assertOrder_Inr: "assertOrder segs = Inr u \<longleftrightarrow> segs \<noteq> [] \<and> list_all segmentOk segs"
proof -
  have "(\<exists>us. traverseE assertSegment segs = Inr us) \<longleftrightarrow> list_all segmentOk segs"
    by (induction segs) (auto simp: bindE_Inr_iff assertSegment_Inr)
  then show ?thesis by (auto simp: assertOrder_def bindE_Inr_iff)
qed

lemma encodeNumber_less:
  assumes "n < m" "- off \<le> n" "m \<le> maxSafe" "0 \<le> off" "off \<le> 1"
  shows "encodeNumber n off @ xs < encodeNumber m off @ ys"
proof -
  have "nat (n + off) < nat (m + off)" "nat (m + off) < 10 ^ numberWidth"
    using assms by (auto simp: maxSafe_def numberWidth_def)
  from padded_less [OF _ _ this] show ?thesis unfolding encodeNumber_def by (intro less_append) simp_all
qed

lemma unat_code_unit: "unat (c :: 16 word) < 16 ^ 4"
proof -
  have "unat c < 2 ^ LENGTH(16)" by (rule unsigned_less)
  then show ?thesis by simp
qed

lemma encodeKey_less: "k < k' \<Longrightarrow> encodeKey k @ xs < encodeKey k' @ ys"
proof (induction k arbitrary: k')
  case Nil
  then obtain c cs where k': "k' = c # cs" by (cases k') auto
  have "unat c < 16 ^ 4" by (rule unat_code_unit)
  then have "padStart 4 (radixText 16 (unat c)) = map digitUnit (fixedDigits 16 4 (unat c))" by (intro padStart_radix) simp_all
  moreover obtain d ds where "fixedDigits 16 4 (unat c) = d # ds" using length_fixedDigits [of 16 4 "unat c"]
    by (cases "fixedDigits 16 4 (unat c)") auto
  moreover from this have "d < 16" using fixedDigits_bound [of 16 d 4 "unat c"] by simp
  ultimately show ?case using k' digitUnit_above by (simp add: encodeKey_def)
next
  case (Cons c cs)
  then obtain d ds where k': "k' = d # ds" by (cases k') auto
  show ?case
  proof (cases "c = d")
    case True
    with Cons k' show ?thesis by (simp add: encodeKey_def)
  next
    case False
    with Cons.prems k' have "unat c < unat d" by (simp add: word_less_nat_alt)
    moreover have "unat d < 16 ^ 4" by (rule unat_code_unit)
    ultimately show ?thesis using padded_less [of 16 "unat c" "unat d" 4] k'
      by (simp add: encodeKey_def less_append)
  qed
qed

lemma encodeSegment_less:
  assumes "s < t" "segmentOk s" "segmentOk t"
  shows "encodeSegment s @ xs < encodeSegment t @ ys"
  using assms encodeNumber_less [of "sgSequence s" "sgSequence t" 1] encodeNumber_less [of "sgPart s" "sgPart t" 0]
    encodeKey_less [of "sgKey s" "sgKey t"]
  by (auto simp: encodeSegment_def less_unit_order_segment_def segmentOk_def)

lemma encoded_less:
  assumes "l < r" "list_all segmentOk l" "list_all segmentOk r"
  shows "concat (map encodeSegment l) < concat (map encodeSegment r)"
  using assms
proof (induction l arbitrary: r)
  case Nil
  then obtain t ts where r: "r = t # ts" by (cases r) auto
  have "encodeSegment t \<noteq> []" by (simp add: encodeSegment_def encodeKey_def)
  then show ?case using r by (cases "encodeSegment t") simp_all
next
  case (Cons s l)
  then obtain t ts where r: "r = t # ts" by (cases r) auto
  show ?case
  proof (cases "s = t")
    case True with Cons r show ?thesis by simp
  next
    case False with Cons r encodeSegment_less show ?thesis by simp
  qed
qed

lemma encodeUnitOrder_Inr:
  "encodeUnitOrder segs = Inr e \<longleftrightarrow> segs \<noteq> [] \<and> list_all segmentOk segs \<and> e = concat (map encodeSegment segs)"
  by (auto simp: encodeUnitOrder_def bindE_Inr_iff assertOrder_Inr)

lemma encoded_linear:
  assumes "list_all segmentOk l" "list_all segmentOk r"
  shows "concat (map encodeSegment l) < concat (map encodeSegment r) \<longleftrightarrow> l < r"
  using encoded_less [OF _ assms] encoded_less [OF _ assms(2,1)] by (metis less_asym' linorder_less_linear order_less_irrefl)

lemma compareUnitOrder_Inr:
  "compareUnitOrder l r = Inr c \<longleftrightarrow> l \<noteq> [] \<and> r \<noteq> [] \<and> list_all segmentOk l \<and> list_all segmentOk r \<and>
     c = (if l < r then - 1 else if r < l then 1 else 0)"
proof (cases "l \<noteq> [] \<and> r \<noteq> [] \<and> list_all segmentOk l \<and> list_all segmentOk r")
  case True
  then have "concat (map encodeSegment l) < concat (map encodeSegment r) \<longleftrightarrow> l < r"
    "concat (map encodeSegment r) < concat (map encodeSegment l) \<longleftrightarrow> r < l"
    by (simp_all only: encoded_linear)
  with True show ?thesis by (simp only: compareUnitOrder_def bindE_Inr_iff encodeUnitOrder_Inr) auto
next
  case False
  then show ?thesis by (auto simp: compareUnitOrder_def bindE_Inr_iff encodeUnitOrder_Inr)
qed

section \<open>Positions of subagent units\<close>

lemma childOrder_Inr:
  "childOrder p i l = Inr c \<longleftrightarrow> p \<noteq> [] \<and> list_all segmentOk p \<and> i \<noteq> [] \<and> wellFormedString i \<and> l \<noteq> [] \<and> list_all segmentOk l \<and>
     c = p @ Segment 0 0 (plainText ''@child:'' @ i) # l"
  by (auto simp: childOrder_def bindE_Inr_iff assertOrder_Inr assertKey_def immutableOrder_def split: if_splits)

lemma wellFormed_append: "wellFormedString s \<Longrightarrow> wellFormedString t \<Longrightarrow> wellFormedString (s @ t)"
  by (induction s rule: wellFormedString.induct) (auto split: list.splits if_splits)

lemma childOrder_ok: "childOrder p i l = Inr c \<Longrightarrow> list_all segmentOk c \<and> c \<noteq> []"
  by (auto simp: childOrder_Inr segmentOk_def maxSafe_def plainText_def highSurrogate_def lowSurrogate_def)

lemma prefix_below: "p < (r :: 'a::linorder list) \<Longrightarrow> take (length p) r \<noteq> p \<Longrightarrow> p @ xs < r"
proof (induction p arbitrary: r)
  case (Cons y p)
  then show ?case by (cases r) auto
qed simp

end
