(* ===== verification/Transcript_Identity.thy ===== *)
theory Transcript_Identity
  imports Transcript_Order
begin

text \<open>
  Identities of transcript units (packages/transcript/src/ordering/unit-identity.ts): keys
  made of escaped components, and the scoped identities that are read back.
\<close>

definition percent :: "16 word" where
  "percent = 37"

definition colon :: "16 word" where
  "colon = 58"

definition replaceAll :: "16 word \<Rightarrow> utf16 \<Rightarrow> utf16 \<Rightarrow> utf16" where
  "replaceAll c w t = concat (map (\<lambda>x. if x = c then w else [x]) t)"

definition encodeString :: "utf16 \<Rightarrow> utf16" where
  "encodeString value = replaceAll colon (plainText ''%3A'') (replaceAll percent (plainText ''%25'') value)"

fun decodeString :: "utf16 \<Rightarrow> utf16 option" where
  "decodeString [] = Some []"
| "decodeString (c # cs) =
     (if c \<noteq> percent then map_option (Cons c) (decodeString cs)
      else case cs of
        d # e # ds \<Rightarrow>
          if [d, e] = plainText ''25'' then map_option (Cons percent) (decodeString ds)
          else if [d, e] = plainText ''3A'' then map_option (Cons colon) (decodeString ds)
          else None
      | _ \<Rightarrow> None)"

text \<open>Numbers are whole; \<open>String\<close> of one below 10 ^ 21 in absolute value is its decimal text.\<close>

datatype identity_number = Whole int | NegativeZero

datatype identity_component = TextComponent utf16 | NumberComponent identity_number

fun numberText :: "identity_number \<Rightarrow> utf16" where
  "numberText NegativeZero = plainText ''-0''"
| "numberText (Whole n) = (if n < 0 then plainText ''-'' else []) @ radixText 10 (nat \<bar>n\<bar>)"

fun encodeComponent :: "identity_component \<Rightarrow> utf16" where
  "encodeComponent (TextComponent value) = encodeString value"
| "encodeComponent (NumberComponent n) = plainText ''%n'' @ numberText n"

definition identityKey :: "utf16 \<Rightarrow> identity_component list \<Rightarrow> utf16" where
  "identityKey family components = joinWith colon (encodeString family # map encodeComponent components)"

definition scopedIdentity :: "utf16 \<Rightarrow> utf16 \<Rightarrow> utf16" where
  "scopedIdentity scope i = joinWith colon (map encodeString [scope, i])"

definition decodeScopedIdentity :: "utf16 \<Rightarrow> (utf16 \<times> utf16) option" where
  "decodeScopedIdentity value =
     (case splitOn colon value of
        [a, b] \<Rightarrow>
          (case (decodeString a, decodeString b) of
             (Some scope, Some i) \<Rightarrow> Some (scope, i)
           | _ \<Rightarrow> None)
      | _ \<Rightarrow> None)"

section \<open>Escaping\<close>

lemma encodeString_simps:
  "encodeString [] = []"
  "encodeString (c # cs) = (if c = percent then [37, 50, 53] else if c = colon then [37, 51, 65] else [c]) @ encodeString cs"
  by (simp_all add: encodeString_def replaceAll_def plainText_def percent_def colon_def)

lemma decode_encode: "decodeString (encodeString t) = Some t"
  by (induction t) (simp_all add: encodeString_simps percent_def colon_def plainText_def)

lemma encode_decode: "decodeString t = Some v \<Longrightarrow> colon \<notin> set t \<Longrightarrow> encodeString v = t"
proof (induction t arbitrary: v rule: decodeString.induct)
  case (2 c cs)
  show ?case
  proof (cases "c = percent")
    case False
    with "2.prems" "2.IH"(1) show ?thesis by (auto simp: encodeString_simps)
  next
    case True
    with "2.prems" obtain d e ds where cs: "cs = d # e # ds" by (auto split: list.splits)
    with True "2.prems" "2.IH"(2,3) [OF _ cs refl] show ?thesis
      by (auto simp: encodeString_simps plainText_def percent_def colon_def split: if_splits)
  qed
qed (simp add: encodeString_simps)

lemma encodeString_inj: "encodeString s = encodeString t \<longleftrightarrow> s = t"
  by (metis decode_encode option.inject)

lemma encodeString_no_colon: "colon \<notin> set (encodeString t)"
  by (induction t) (simp_all add: encodeString_simps colon_def)

section \<open>Numbers as text\<close>

lemma radixDigits_bound: "2 \<le> b \<Longrightarrow> d \<in> set (radixDigits b n) \<Longrightarrow> d < b"
proof (induction b n rule: radixDigits.induct)
  case (1 b n)
  then show ?case by (cases "n < b") (auto simp: radixDigits.simps [of b n])
qed

lemma radixDigits_value: "2 \<le> b \<Longrightarrow> foldl (\<lambda>v d. v * b + d) 0 (radixDigits b n) = n"
proof (induction b n rule: radixDigits.induct)
  case (1 b n)
  then show ?case by (cases "n < b") (auto simp: radixDigits.simps [of b n])
qed

lemma digitUnit_decimal: "d < 10 \<Longrightarrow> unat (digitUnit d) = 48 + d"
  unfolding digitUnit_def by (simp add: unat_of_nat del: of_nat_add)

lemma radixText_inj:
  assumes "radixText 10 n = radixText 10 m"
  shows "n = m"
proof -
  have digits: "map (\<lambda>c. unat c - 48) (radixText 10 k) = radixDigits 10 k" for k
    unfolding radixText_def map_map
    by (rule map_idI) (simp add: digitUnit_decimal radixDigits_bound)
  have "radixDigits 10 n = radixDigits 10 m" using assms digits by metis
  from arg_cong [OF this, of "foldl (\<lambda>v d. v * 10 + d) 0"] show ?thesis
    by (simp only: radixDigits_value numeral_le_iff semiring_norm)
qed

lemma radixText_range:
  assumes "c \<in> set (radixText 10 n)"
  shows "48 \<le> unat c \<and> unat c \<le> 57"
proof -
  from assms obtain d where "d \<in> set (radixDigits 10 n)" "c = digitUnit d" by (auto simp: radixText_def)
  moreover from this have "d < 10" using radixDigits_bound [of 10 d n] by simp
  ultimately show ?thesis using digitUnit_decimal [of d] by simp
qed

lemma radixText_nonempty: "radixText b n \<noteq> []"
  by (simp add: radixText_def radixDigits.simps [of b n])

lemma radixText_no_sign: "radixText 10 n \<noteq> 45 # cs" "45 # cs \<noteq> radixText 10 n"
  using radixText_range [of 45 n] by (auto dest: sym [of "45 # cs"])

lemma radixText_zero: "radixText 10 n = [48] \<longleftrightarrow> n = 0" "[48] = radixText 10 n \<longleftrightarrow> n = 0"
proof -
  have "radixText 10 0 = [48]" by (simp add: radixText_def radixDigits.simps [of 10 0] digitUnit_def)
  then show "radixText 10 n = [48] \<longleftrightarrow> n = 0" "[48] = radixText 10 n \<longleftrightarrow> n = 0"
    using radixText_inj [of n 0] by metis+
qed

lemma numberText_inj: "numberText m = numberText n \<Longrightarrow> m = n"
  by (cases m; cases n) (auto simp: plainText_def radixText_no_sign radixText_zero dest!: radixText_inj split: if_splits)

lemma numberText_no_colon: "colon \<notin> set (numberText n)"
proof (cases n)
  case (Whole k)
  have "colon \<notin> set (radixText 10 (nat \<bar>k\<bar>))"
    using radixText_range [of colon "nat \<bar>k\<bar>"] by (auto simp: colon_def)
  with Whole show ?thesis by (simp add: plainText_def colon_def)
qed (simp add: plainText_def colon_def)

section \<open>Keys\<close>

lemma encodeComponent_no_colon: "colon \<notin> set (encodeComponent c)"
  by (cases c) (use encodeString_no_colon numberText_no_colon in \<open>auto simp: plainText_def colon_def\<close>)

lemma number_not_text: "encodeString s \<noteq> plainText ''%n'' @ w"
proof
  assume "encodeString s = plainText ''%n'' @ w"
  then have "decodeString (plainText ''%n'' @ w) = Some s" using decode_encode by metis
  then show False by (cases w) (simp_all add: plainText_def percent_def)
qed

lemma encodeComponent_inj: "encodeComponent c = encodeComponent d \<Longrightarrow> c = d"
  by (cases c; cases d) (auto simp: encodeString_inj number_not_text number_not_text [symmetric] dest: numberText_inj)

lemma identityKey_parts: "splitOn colon (identityKey f cs) = encodeString f # map encodeComponent cs"
  unfolding identityKey_def using encodeString_no_colon encodeComponent_no_colon
  by (intro splitOn_joinWith) auto

lemma scopedIdentity_parts: "splitOn colon (scopedIdentity s i) = [encodeString s, encodeString i]"
  unfolding scopedIdentity_def using encodeString_no_colon by (subst splitOn_joinWith) auto

end
