(* ===== verification/Transcript_Properties.thy ===== *)
theory Transcript_Properties
  imports Transcript_Identity
begin

text \<open>
  The properties of transcript orders and identities: the encoded order is the
  lexicographic one, the units of a subagent stand directly behind their parent, and
  identities can be read back.
\<close>

section \<open>The order of units\<close>

definition sampleParent :: unit_order where
  "sampleParent = [Segment 3 1 (plainText ''tool'')]"

definition sampleLocal :: unit_order where
  "sampleLocal = [Segment (- 1) 0 (plainText ''user'')]"

definition sampleSibling :: unit_order where
  "sampleSibling = [Segment 3 10 (plainText ''tool'')]"

lemma sample_orders:
  "assertOrder sampleParent = Inr ()" "assertOrder sampleLocal = Inr ()" "assertOrder sampleSibling = Inr ()"
  by (simp_all add: assertOrder_Inr sampleParent_def sampleLocal_def sampleSibling_def segmentOk_def maxSafe_def plainText_def
      highSurrogate_def lowSurrogate_def)

text \<open>
  C23: comparing two orders by their encodings compares their segments in turn by sequence,
  part and key: numbers by value although the encodings compare as text, and a shorter order
  before its extensions.  Different orders have different encodings.
\<close>

theorem encoded_order_is_lexicographic:
  assumes "assertOrder l = Inr ()" "assertOrder r = Inr ()"
  shows "compareUnitOrder l r = Inr (if l < r then - 1 else if r < l then 1 else 0) \<and>
    (encodeUnitOrder l = encodeUnitOrder r \<longleftrightarrow> l = r)"
proof -
  have ok: "l \<noteq> [] \<and> list_all segmentOk l" "r \<noteq> [] \<and> list_all segmentOk r"
    using assms by (simp_all add: assertOrder_Inr)
  then have runs: "encodeUnitOrder l = Inr (concat (map encodeSegment l))"
    "encodeUnitOrder r = Inr (concat (map encodeSegment r))"
    by (simp_all add: encodeUnitOrder_Inr)
  have "concat (map encodeSegment l) = concat (map encodeSegment r) \<longleftrightarrow> l = r"
    using encoded_linear [of l r] encoded_linear [of r l] ok by (metis linorder_neq_iff)
  with runs ok show ?thesis by (simp add: compareUnitOrder_Inr)
qed

theorem encoded_order_is_lexicographic_witness:
  "compareUnitOrder sampleParent sampleSibling = Inr (- 1) \<and>
     encodeUnitOrder sampleParent \<noteq> encodeUnitOrder sampleSibling"
  using encoded_order_is_lexicographic [OF sample_orders(1,3)]
  by (simp add: sampleParent_def sampleSibling_def less_unit_order_segment_def)

text \<open>
  the units of a subagent stand directly behind the unit that started it: behind the
  unit itself, and before everything that follows it and is not below it.  Their order
  among themselves is their own, and can be recovered.
\<close>

theorem subagent_units_follow_parent:
  assumes "childOrder parent subagentId ord = Inr c"
  shows "compareUnitOrder parent c = Inr (- 1) \<and>
    (\<forall>r. compareUnitOrder parent r = Inr (- 1) \<and> take (length parent) r \<noteq> parent \<longrightarrow> compareUnitOrder c r = Inr (- 1)) \<and>
    (\<forall>ord' c'. childOrder parent subagentId ord' = Inr c' \<longrightarrow> compareUnitOrder c c' = compareUnitOrder ord ord') \<and>
    localOrder c = localOrder ord"
proof -
  note parts = assms [unfolded childOrder_Inr]
  note ok = childOrder_ok [OF assms]
  have below: "parent < c" using parts less_append_left [of parent "[]"] by simp
  have "compareUnitOrder c r = Inr (- 1)" if "compareUnitOrder parent r = Inr (- 1)" "take (length parent) r \<noteq> parent" for r
    using that parts ok prefix_below [of parent r] by (auto simp: compareUnitOrder_Inr split: if_splits)
  moreover have "compareUnitOrder c c' = compareUnitOrder ord ord'" if "childOrder parent subagentId ord' = Inr c'" for ord' c'
  proof -
    note parts' = that [unfolded childOrder_Inr]
    have "compareUnitOrder ord ord' = Inr (if ord < ord' then - 1 else if ord' < ord then 1 else 0)"
      using parts parts' by (simp add: compareUnitOrder_Inr)
    moreover have "compareUnitOrder c c' = Inr (if c < c' then - 1 else if c' < c then 1 else 0)"
      using ok childOrder_ok [OF that] by (simp add: compareUnitOrder_Inr)
    ultimately show ?thesis using parts parts' by simp
  qed
  moreover have "localOrder c = localOrder ord"
  proof -
    have "assertOrder c = Inr ()" "assertOrder ord = Inr ()" using ok parts by (simp_all add: assertOrder_Inr)
    with parts show ?thesis by (simp add: localOrder_def)
  qed
  ultimately show ?thesis using parts ok below by (simp add: compareUnitOrder_Inr)
qed

theorem subagent_units_follow_parent_witness:
  "\<exists>c. childOrder sampleParent (plainText ''a'') sampleLocal = Inr c \<and> compareUnitOrder sampleParent c = Inr (- 1) \<and>
     compareUnitOrder c sampleSibling = Inr (- 1)"
proof -
  have "\<exists>c. childOrder sampleParent (plainText ''a'') sampleLocal = Inr c"
    using sample_orders
    by (auto simp: childOrder_Inr assertOrder_Inr plainText_def highSurrogate_def lowSurrogate_def)
  then obtain c where c: "childOrder sampleParent (plainText ''a'') sampleLocal = Inr c" by blast
  have "take (length sampleParent) sampleSibling \<noteq> sampleParent" "sampleParent < sampleSibling"
    by (simp_all add: sampleParent_def sampleSibling_def less_unit_order_segment_def)
  moreover from this have "compareUnitOrder sampleParent sampleSibling = Inr (- 1)"
    using sample_orders by (simp add: compareUnitOrder_Inr assertOrder_Inr)
  ultimately show ?thesis using subagent_units_follow_parent [OF c] c by blast
qed

section \<open>Identities\<close>

text \<open>
  a scoped identity is read back to its scope and id, nothing else is accepted, and the
  keys of two identities are equal only when their families and components are.
\<close>

theorem identities_are_read_back:
  "(decodeScopedIdentity v = Some (scope, i) \<longleftrightarrow> v = scopedIdentity scope i) \<and>
   (identityKey f cs = identityKey g ds \<longleftrightarrow> f = g \<and> cs = ds)"
proof -
  have "v = scopedIdentity scope i" if "decodeScopedIdentity v = Some (scope, i)"
  proof -
    from that obtain a b where parts: "splitOn colon v = [a, b]" "decodeString a = Some scope" "decodeString b = Some i"
      by (auto simp: decodeScopedIdentity_def split: list.splits option.splits)
    then have "encodeString scope = a" "encodeString i = b"
      using splitOn_no_sep [of _ colon v] by (auto intro: encode_decode)
    with joinWith_splitOn [of colon v] parts(1) show ?thesis by (simp add: scopedIdentity_def)
  qed
  moreover have "decodeScopedIdentity (scopedIdentity scope i) = Some (scope, i)"
    by (simp add: decodeScopedIdentity_def scopedIdentity_parts decode_encode)
  moreover have "f = g \<and> cs = ds" if "identityKey f cs = identityKey g ds"
  proof -
    have "encodeString f # map encodeComponent cs = encodeString g # map encodeComponent ds"
      using that identityKey_parts by metis
    moreover have "inj encodeComponent" by (rule injI) (rule encodeComponent_inj)
    ultimately show ?thesis by (simp add: encodeString_inj inj_map_eq_map)
  qed
  ultimately show ?thesis by blast
qed

end
