(* ===== verification/View_Model.thy ===== *)
theory View_Model
  imports Turn_Model Transcript_Identity
begin

text \<open>
  The data of live thread views: usage and its arithmetic, transcript units, the view of a
  thread as snapshots, headers and patches, and projection changes
  (packages/product/src/thread/view, execution/projection, execution/usage and
  operation/interactive/view/usage.ts).  Identifiers of threads and turns are strings; keys of
  units are the code units of their texts.  Counts, revisions and times are integers.
  Documents that nothing here looks into are the strings of their texts.
\<close>

section \<open>Usage\<close>

record input_totals =
  inTotal :: "int option"
  inUncached :: "int option"
  inCacheRead :: "int option"
  inCacheWrite :: "int option"

record output_totals =
  outTotal :: "int option"
  outText :: "int option"
  outReasoning :: "int option"

record token_totals =
  tkTotal :: "int option"
  tkInput :: input_totals
  tkOutput :: output_totals
  tkFailedProvider :: "int option"

record cache_usage =
  cuReported :: int
  cuHit :: int
  cuInput :: int
  cuRead :: int

record context_reading =
  crOrdinal :: int
  crInputTokens :: int

datatype active_time = Unavailable | Available int "int option"

record usage_state =
  usCost :: "int option"
  usTokens :: "token_totals option"
  usCache :: "cache_usage option"
  usPriced :: int
  usUnpriced :: int
  usIncluded :: "int option"
  usCounted :: int
  usUncounted :: int
  usSourceComplete :: bool
  usContext :: "context_reading option"
  usContextPending :: bool
  usActive :: active_time

definition emptyUsageState :: usage_state where
  "emptyUsageState = \<lparr>usCost = None, usTokens = None, usCache = None, usPriced = 0, usUnpriced = 0, usIncluded = Some 0,
     usCounted = 0, usUncounted = 0, usSourceComplete = False, usContext = None, usContextPending = False,
     usActive = Unavailable\<rparr>"

fun orZero :: "int option \<Rightarrow> int" where
  "orZero None = 0"
| "orZero (Some n) = n"

definition addOptional :: "int option list \<Rightarrow> int option" where
  "addOptional vs = (if list_ex (\<lambda>v. v \<noteq> None) vs then Some (sum_list (map orZero vs)) else None)"

definition sumTokenTotals :: "token_totals option list \<Rightarrow> token_totals option" where
  "sumTokenTotals vs =
     (if \<not> list_ex (\<lambda>v. v \<noteq> None) vs then None
      else let part = (\<lambda>f. addOptional (map (\<lambda>v. Option.bind v f) vs)) in
        Some \<lparr>tkTotal = part tkTotal,
          tkInput = \<lparr>inTotal = part (inTotal \<circ> tkInput), inUncached = part (inUncached \<circ> tkInput),
            inCacheRead = part (inCacheRead \<circ> tkInput), inCacheWrite = part (inCacheWrite \<circ> tkInput)\<rparr>,
          tkOutput = \<lparr>outTotal = part (outTotal \<circ> tkOutput), outText = part (outText \<circ> tkOutput),
            outReasoning = part (outReasoning \<circ> tkOutput)\<rparr>,
          tkFailedProvider = part tkFailedProvider\<rparr>)"

definition sumCacheUsage :: "cache_usage list \<Rightarrow> cache_usage" where
  "sumCacheUsage vs = \<lparr>cuReported = sum_list (map cuReported vs), cuHit = sum_list (map cuHit vs),
     cuInput = sum_list (map cuInput vs), cuRead = sum_list (map cuRead vs)\<rparr>"

text \<open>The elements of a list of optional values, as \<open>flatMap\<close> collects them.\<close>

definition catOptions :: "'a option list \<Rightarrow> 'a list" where
  "catOptions vs = concat (map (\<lambda>v. case v of None \<Rightarrow> [] | Some x \<Rightarrow> [x]) vs)"

fun activeParts :: "active_time \<Rightarrow> (int \<times> int option) option" where
  "activeParts Unavailable = None"
| "activeParts (Available millis since) = Some (millis, since)"

definition aggregateActive :: "usage_state list \<Rightarrow> active_time" where
  "aggregateActive vs =
     (let available = catOptions (map (activeParts \<circ> usActive) vs) in
      if available = [] then Unavailable
      else let since = catOptions (map snd available) in
        Available (sum_list (map fst available)) (if since = [] then None else Some (Min (set since))))"

definition aggregateUsage :: "usage_state list \<Rightarrow> usage_state" where
  "aggregateUsage vs =
     (if vs = [] then emptyUsageState
      else let priced = sum_list (map usPriced vs); cache = catOptions (map usCache vs) in
        \<lparr>usCost = (if priced > 0 then addOptional (map usCost vs) else None),
         usTokens = sumTokenTotals (map usTokens vs),
         usCache = (if cache = [] then None else Some (sumCacheUsage cache)),
         usPriced = priced, usUnpriced = sum_list (map usUnpriced vs),
         usIncluded = Some (sum_list (map (orZero \<circ> usIncluded) vs)),
         usCounted = sum_list (map usCounted vs), usUncounted = sum_list (map usUncounted vs),
         usSourceComplete = list_all usSourceComplete vs,
         usContext = Option.bind (find (\<lambda>v. usContext v \<noteq> None) (rev vs)) usContext,
         usContextPending = usContextPending (last vs), usActive = aggregateActive vs\<rparr>)"

section \<open>The usage of a thread, kept up to date\<close>

record context_capacity =
  ccWindow :: int
  ccReserve :: int

record view_usage =
  vuState :: usage_state
  vuCapacity :: "context_capacity option"

definition difference :: "int option \<Rightarrow> int option \<Rightarrow> int option" where
  "difference new previous =
     (case new of
        None \<Rightarrow> (if previous = None then None else Some 0)
      | Some n \<Rightarrow> Some (max 0 (n - orZero previous)))"

definition tokenDifference :: "token_totals option \<Rightarrow> token_totals option \<Rightarrow> token_totals option" where
  "tokenDifference new previous =
     (case new of
        None \<Rightarrow> None
      | Some n \<Rightarrow>
          let part = (\<lambda>f. difference (f n) (Option.bind previous f)) in
          Some \<lparr>tkTotal = part tkTotal,
            tkInput = \<lparr>inTotal = part (inTotal \<circ> tkInput), inUncached = part (inUncached \<circ> tkInput),
              inCacheRead = part (inCacheRead \<circ> tkInput), inCacheWrite = part (inCacheWrite \<circ> tkInput)\<rparr>,
            tkOutput = \<lparr>outTotal = part (outTotal \<circ> tkOutput), outText = part (outText \<circ> tkOutput),
              outReasoning = part (outReasoning \<circ> tkOutput)\<rparr>,
            tkFailedProvider = part tkFailedProvider\<rparr>)"

fun activeMillis :: "active_time \<Rightarrow> int" where
  "activeMillis Unavailable = 0"
| "activeMillis (Available millis _) = millis"

definition usageDelta :: "usage_state option \<Rightarrow> usage_state \<Rightarrow> usage_state" where
  "usageDelta previous new =
     (let prior = (case previous of None \<Rightarrow> emptyUsageState | Some p \<Rightarrow> p) in
      \<lparr>usCost = difference (usCost new) (usCost prior), usTokens = tokenDifference (usTokens new) (usTokens prior),
       usCache = None, usPriced = max 0 (usPriced new - usPriced prior),
       usUnpriced = max 0 (usUnpriced new - usUnpriced prior),
       usIncluded = Some (max 0 (orZero (usIncluded new) - orZero (usIncluded prior))),
       usCounted = max 0 (usCounted new - usCounted prior), usUncounted = max 0 (usUncounted new - usUncounted prior),
       usSourceComplete = usSourceComplete new, usContext = None, usContextPending = usContextPending new,
       usActive = (case usActive new of
          Unavailable \<Rightarrow> Unavailable
        | Available millis _ \<Rightarrow> Available (max 0 (millis - activeMillis (usActive prior))) None)\<rparr>)"

definition currentActive :: "usage_state \<Rightarrow> usage_state \<Rightarrow> active_time" where
  "currentActive aggregate new =
     (case usActive aggregate of
        Unavailable \<Rightarrow> Unavailable
      | Available millis _ \<Rightarrow>
          (case usActive new of
             Available _ (Some since) \<Rightarrow> Available millis (Some since)
           | _ \<Rightarrow> Available millis None))"

text \<open>
  What the views take from the platform and from documents: how texts collate
  (\<open>localeCompare\<close>), and the compaction limits an execution route names for its main model.
\<close>

record view_library =
  libLocaleCompare :: "utf16 \<Rightarrow> utf16 \<Rightarrow> int"
  libCapacity :: "json \<Rightarrow> context_capacity"

definition nextUsage :: "view_library \<Rightarrow> view_usage \<Rightarrow> usage_state option \<Rightarrow> usage_state \<Rightarrow> turn option \<Rightarrow> view_usage" where
  "nextUsage lib current previous new t =
     (let aggregate = aggregateUsage [vuState current, usageDelta previous new];
          capacity = (case (usContext new, t) of
             (Some _, Some (AgentExecution a)) \<Rightarrow> Some (libCapacity lib (aExecutionRoute a))
           | _ \<Rightarrow> vuCapacity current);
          context = (if usContext new = None then usContext (vuState current) else usContext new)
      in \<lparr>vuState = aggregate\<lparr>usSourceComplete := usSourceComplete new, usContextPending := usContextPending new,
            usActive := currentActive aggregate new,
            usContext := (if context = None then usContext aggregate else context)\<rparr>,
          vuCapacity = capacity\<rparr>)"

end
