(* ===== verification/View_State.thy ===== *)
theory View_State
  imports View_Model "HOL-Library.AList"
begin

text \<open>
  Thread views: units, turns, headers, snapshots and patches
  (packages/product/src/thread/view/snapshot.ts, turn.ts, turn-record.ts, limits.ts), and the
  accumulator that indexes a view and applies patches to it (apply.ts).  A JavaScript Map is
  an association list: \<open>AList.update\<close> changes an entry in place or appends it, as \<open>set\<close> does.
  The snapshot an accumulator caches until the next patch is computed anew.
\<close>

section \<open>Units and turns\<close>

datatype entry_role = RoleUser | RoleAssistant | RoleNotice
datatype authorization_status = AuthPending | AuthApproved | AuthDenied | AuthCancelled | AuthExpired

datatype unit_content =
    EntryContent entry_role string
  | AuthorizationCard json authorization_status
  | OtherBlock json

record transcript_unit =
  unKey :: utf16
  unTurnId :: string
  unParentId :: "string option"
  unModelResponseId :: "string option"
  unOrder :: unit_order
  unRevision :: int
  unOutcome :: "json option"
  unContent :: unit_content

datatype view_turn_kind = ViewAgent | ViewShell string "shell_result option"

record view_turn_record =
  vtId :: turn_id
  vtThreadId :: thread_id
  vtPrompt :: string
  vtStatus :: status
  vtAuthor :: turn_author
  vtLineage :: turn_lineage
  vtCreatedAt :: time
  vtUpdatedAt :: time
  vtKind :: view_turn_kind

fun turnRecord :: "turn \<Rightarrow> view_turn_record" where
  "turnRecord (AgentExecution t) =
     \<lparr>vtId = aId t, vtThreadId = aThreadId t, vtPrompt = aPrompt t, vtStatus = aStatus t, vtAuthor = aAuthor t,
      vtLineage = aLineage t, vtCreatedAt = aCreatedAt t, vtUpdatedAt = aUpdatedAt t, vtKind = ViewAgent\<rparr>"
| "turnRecord (RecordedShell t) =
     \<lparr>vtId = sId t, vtThreadId = sThreadId t, vtPrompt = sPrompt t, vtStatus = sStatus t, vtAuthor = Human,
      vtLineage = Original, vtCreatedAt = sCreatedAt t, vtUpdatedAt = sUpdatedAt t,
      vtKind = ViewShell (sCommand t) (if sStatus t = StRunning then None else sResult t)\<rparr>"

record pending_steering =
  psRunId :: string
  psEntryId :: string
  psRequestId :: string
  psSequence :: int
  psText :: string

record steering_disposition =
  sdRunId :: string
  sdEntryId :: string
  sdRequestId :: string
  sdSequence :: int
  sdConsumed :: bool

record view_turn =
  etTurn :: view_turn_record
  etUnits :: "transcript_unit list"
  etRevision :: int
  etUsage :: usage_state
  etNeedsResolution :: "bool option"
  etPending :: "pending_steering list option"
  etSettled :: "steering_disposition list option"

section \<open>Headers, snapshots and patches\<close>

datatype thread_lineage = OriginalThread | ForkOf thread_id "turn_id option"

record thread_record =
  thId :: thread_id
  thWorkspace :: string
  thTitle :: string
  thLabels :: "string list"
  thPinned :: bool
  thArchived :: bool
  thLineage :: thread_lineage
  thCreatedAt :: time
  thUpdatedAt :: time

record transcript_cursor =
  tcCreatedAt :: time
  tcTurnId :: turn_id
  tcOrderKey :: utf16

record view_source =
  vsVersion :: int
  vsOldest :: "transcript_cursor option"
  vsNewest :: "transcript_cursor option"

record pending_turn =
  pdId :: turn_id
  pdPrompt :: string
  pdCreatedAt :: time

record view_header =
  vhThread :: thread_record
  vhSource :: view_source
  vhPending :: "pending_turn list"
  vhHasOlder :: bool
  vhHasNewer :: bool
  vhUsage :: view_usage

record view_snapshot =
  snHeader :: view_header
  snRevision :: int
  snTurns :: "view_turn list"

record turn_upsert =
  tuTurn :: view_turn_record
  tuRevision :: int
  tuUsage :: usage_state
  tuNeedsResolution :: "bool option"
  tuPending :: "pending_steering list option"
  tuSettled :: "steering_disposition list option"

datatype turn_change = UpsertTurn turn_upsert | RemoveTurn turn_id

record view_patch =
  vpThreadId :: thread_id
  vpBaseRevision :: int
  vpRevision :: int
  vpUpsert :: "transcript_unit list"
  vpRemove :: "utf16 list"
  vpTurnChanges :: "turn_change list"
  vpHeader :: "view_header option"

definition limitPending :: nat where
  "limitPending = 64"

definition limitPatchItems :: nat where
  "limitPatchItems = 120"

definition limitTurnChanges :: nat where
  "limitTurnChanges = 6"

fun duplicateFrom :: "'k list \<Rightarrow> 'k list \<Rightarrow> 'k option" where
  "duplicateFrom seen [] = None"
| "duplicateFrom seen (v # vs) = (if v \<in> set seen then Some v else duplicateFrom (v # seen) vs)"

definition duplicateKey :: "'k list \<Rightarrow> 'k option" where
  "duplicateKey vs = duplicateFrom [] vs"

section \<open>Errors\<close>

datatype duplicate_collection = SnapshotTurns | SnapshotUnits | PendingTurns | UpsertItems | RemoveItems | TurnChanges

datatype invalid_reason = ConflictingItemChange | MissingItem | MissingTurn | UnitTurnMismatch | UnitRevisionRegressed
  | TurnThreadMismatch | ProjectionRevisionRegressed | BoundsExceeded | InvalidHeader

record resync_required =
  rsThreadId :: thread_id
  rsExpectedRevision :: int
  rsReceivedBaseRevision :: int
  rsCurrentRevision :: int

text \<open>The key an error names: a turn's id or a unit's key.\<close>

datatype view_key = TurnKey string | UnitKey utf16

datatype apply_error =
    ResyncRequired resync_required
  | ForeignThread thread_id thread_id
  | NonMonotonicRevision thread_id int int
  | DuplicateItem thread_id duplicate_collection view_key
  | InvalidPatch thread_id invalid_reason "view_key option"

section \<open>The accumulator\<close>

record turn_state =
  tsTurn :: view_turn_record
  tsRevision :: int
  tsUsage :: usage_state
  tsNeedsResolution :: bool
  tsPending :: "pending_steering list"
  tsSettled :: "steering_disposition list"

record indexed_turn =
  itState :: turn_state
  itUnits :: "(utf16 \<times> transcript_unit) list"

record accumulator =
  currentHeader :: view_header
  currentRevision :: int
  turnsById :: "(turn_id \<times> indexed_turn) list"
  unitOwners :: "(utf16 \<times> turn_id) list"
  activeTurnIds :: "turn_id list"

definition orDefault :: "'a \<Rightarrow> 'a option \<Rightarrow> 'a" where
  "orDefault d v = (case v of None \<Rightarrow> d | Some x \<Rightarrow> x)"

definition turnState :: "view_turn \<Rightarrow> turn_state" where
  "turnState e = \<lparr>tsTurn = etTurn e, tsRevision = etRevision e, tsUsage = etUsage e,
     tsNeedsResolution = orDefault False (etNeedsResolution e), tsPending = orDefault [] (etPending e),
     tsSettled = orDefault [] (etSettled e)\<rparr>"

definition changedTurnState :: "turn_upsert \<Rightarrow> turn_state" where
  "changedTurnState c = \<lparr>tsTurn = tuTurn c, tsRevision = tuRevision c, tsUsage = tuUsage c,
     tsNeedsResolution = orDefault False (tuNeedsResolution c), tsPending = orDefault [] (tuPending c),
     tsSettled = orDefault [] (tuSettled c)\<rparr>"

text \<open>Sets of turn ids in insertion order.\<close>

definition addTo :: "'a \<Rightarrow> 'a list \<Rightarrow> 'a list" where
  "addTo x xs = (if x \<in> set xs then xs else xs @ [x])"

definition deleteFrom :: "'a \<Rightarrow> 'a list \<Rightarrow> 'a list" where
  "deleteFrom x xs = filter (\<lambda>y. y \<noteq> x) xs"

definition duplicateError :: "thread_id \<Rightarrow> duplicate_collection \<Rightarrow> view_key \<Rightarrow> apply_error" where
  "duplicateError t collection k = DuplicateItem t collection k"

definition invalidError :: "thread_id \<Rightarrow> invalid_reason \<Rightarrow> view_key option \<Rightarrow> apply_error" where
  "invalidError t reason k = InvalidPatch t reason k"

definition viewThreadId :: "accumulator \<Rightarrow> thread_id" where
  "viewThreadId a = thId (vhThread (currentHeader a))"

definition checkNone :: "'k option \<Rightarrow> ('k \<Rightarrow> 'e) \<Rightarrow> 'e + unit" where
  "checkNone found err = (case found of None \<Rightarrow> Inr () | Some k \<Rightarrow> Inl (err k))"

definition indexUnit :: "thread_id \<Rightarrow> turn_id \<Rightarrow> transcript_unit \<Rightarrow>
    (utf16 \<times> transcript_unit) list \<times> (utf16 \<times> turn_id) list \<Rightarrow>
    apply_error + (utf16 \<times> transcript_unit) list \<times> (utf16 \<times> turn_id) list" where
  "indexUnit thread turnId u st = (case st of (units, owners) \<Rightarrow>
     if unTurnId u \<noteq> turnId then Inl (invalidError thread UnitTurnMismatch (Some (UnitKey (unKey u))))
     else Inr (AList.update (unKey u) u units, AList.update (unKey u) turnId owners))"

fun foldE :: "('a \<Rightarrow> 's \<Rightarrow> 'e + 's) \<Rightarrow> 'a list \<Rightarrow> 's \<Rightarrow> 'e + 's" where
  "foldE f [] s = Inr s"
| "foldE f (x # xs) s = bindE (f x s) (foldE f xs)"

definition indexTurn :: "thread_id \<Rightarrow> view_turn \<Rightarrow> accumulator \<Rightarrow> apply_error + accumulator" where
  "indexTurn thread e a =
     (let turnId = vtId (etTurn e) in
      if vtThreadId (etTurn e) \<noteq> thread then Inl (invalidError thread TurnThreadMismatch (Some (TurnKey turnId)))
      else bindE (foldE (indexUnit thread turnId) (etUnits e) ([], unitOwners a)) (\<lambda>(units, owners).
        Inr (a\<lparr>turnsById := AList.update turnId \<lparr>itState = turnState e, itUnits = units\<rparr> (turnsById a),
          unitOwners := owners,
          activeTurnIds := (if isActiveStatus (vtStatus (tsTurn (turnState e))) then addTo turnId (activeTurnIds a)
            else activeTurnIds a)\<rparr>)))"

definition fromSnapshot :: "view_snapshot \<Rightarrow> apply_error + accumulator" where
  "fromSnapshot s =
     (let thread = thId (vhThread (snHeader s)) in
      bindE (checkNone (duplicateKey (map (vtId \<circ> etTurn) (snTurns s)))
        (\<lambda>k. duplicateError thread SnapshotTurns (TurnKey k))) (\<lambda>_.
      bindE (checkNone (duplicateKey (map unKey (concat (map etUnits (snTurns s)))))
        (\<lambda>k. duplicateError thread SnapshotUnits (UnitKey k))) (\<lambda>_.
      bindE (checkNone (duplicateKey (map pdId (vhPending (snHeader s))))
        (\<lambda>k. duplicateError thread PendingTurns (TurnKey k))) (\<lambda>_.
      if length (vhPending (snHeader s)) > limitPending then Inl (invalidError thread BoundsExceeded None)
      else foldE (indexTurn thread) (snTurns s)
        \<lparr>currentHeader = snHeader s, currentRevision = snRevision s, turnsById = [], unitOwners = [], activeTurnIds = []\<rparr>))))"

section \<open>Reading an accumulator\<close>

definition compareTurns :: "view_library \<Rightarrow> turn_state \<Rightarrow> turn_state \<Rightarrow> int" where
  "compareTurns lib l r =
     (let createdAt = vtCreatedAt (tsTurn l) - vtCreatedAt (tsTurn r) in
      if createdAt = 0 then libLocaleCompare lib (plainText (vtId (tsTurn l))) (plainText (vtId (tsTurn r))) else createdAt)"

text \<open>The schema of units admits only orders that can be compared: the error is not reached.\<close>

definition compareUnits :: "view_library \<Rightarrow> transcript_unit \<Rightarrow> transcript_unit \<Rightarrow> int" where
  "compareUnits lib l r =
     (case compareUnitOrder (unOrder l) (unOrder r) of
        Inl _ \<Rightarrow> 0
      | Inr ord \<Rightarrow> if ord = 0 then libLocaleCompare lib (unKey l) (unKey r) else ord)"

text \<open>\<open>toSorted\<close> sorts stably.\<close>

fun insertSorted :: "('a \<Rightarrow> 'a \<Rightarrow> int) \<Rightarrow> 'a \<Rightarrow> 'a list \<Rightarrow> 'a list" where
  "insertSorted cmp x [] = [x]"
| "insertSorted cmp x (y # ys) = (if cmp x y \<le> 0 then x # y # ys else y # insertSorted cmp x ys)"

definition toSorted :: "('a \<Rightarrow> 'a \<Rightarrow> int) \<Rightarrow> 'a list \<Rightarrow> 'a list" where
  "toSorted cmp xs = foldr (insertSorted cmp) xs []"

definition viewTurn :: "accumulator \<Rightarrow> turn_id \<Rightarrow> turn_state option" where
  "viewTurn a t = map_option itState (map_of (turnsById a) t)"

definition viewUnits :: "view_library \<Rightarrow> accumulator \<Rightarrow> turn_id \<Rightarrow> transcript_unit list" where
  "viewUnits lib a t =
     (case map_of (turnsById a) t of
        None \<Rightarrow> []
      | Some it \<Rightarrow> toSorted (compareUnits lib) (map snd (itUnits it)))"

definition activeTurn :: "view_library \<Rightarrow> accumulator \<Rightarrow> turn_state option" where
  "activeTurn lib a =
     foldl (\<lambda>selected t. case viewTurn a t of
         None \<Rightarrow> selected
       | Some candidate \<Rightarrow>
           (case selected of
              None \<Rightarrow> Some candidate
            | Some s \<Rightarrow> if compareTurns lib candidate s < 0 then Some candidate else selected))
       None (activeTurnIds a)"

definition entryOf :: "view_library \<Rightarrow> indexed_turn \<Rightarrow> view_turn" where
  "entryOf lib it =
     (let s = itState it in
      \<lparr>etTurn = tsTurn s, etUnits = toSorted (compareUnits lib) (map snd (itUnits it)), etRevision = tsRevision s,
       etUsage = tsUsage s, etNeedsResolution = Some (tsNeedsResolution s), etPending = Some (tsPending s),
       etSettled = Some (tsSettled s)\<rparr>)"

definition snapshotOf :: "view_library \<Rightarrow> accumulator \<Rightarrow> view_snapshot" where
  "snapshotOf lib a = \<lparr>snHeader = currentHeader a, snRevision = currentRevision a,
     snTurns = toSorted (\<lambda>l r. compareTurns lib (turnState l) (turnState r)) (map (entryOf lib \<circ> snd) (turnsById a))\<rparr>"

end
