(* ===== verification/View_Apply.thy ===== *)
theory View_Apply
  imports View_State
begin

text \<open>
  Applying a patch to a thread view (packages/product/src/thread/view/apply.ts, apply): the
  checks that refuse a patch, and the three phases that change the indexes and collect the
  delta for each turn.  The checks ensure that every lookup of the phases finds an entry.
\<close>

record turn_delta =
  tdPrevious :: "turn_state option"
  tdCurrent :: "turn_state option"
  tdUpsert :: "transcript_unit list"
  tdRemove :: "utf16 list"

record view_delta =
  vdRevision :: int
  vdHeaderChanged :: bool
  vdTurns :: "(turn_id \<times> turn_delta) list"

section \<open>Checks\<close>

fun changeKey :: "turn_change \<Rightarrow> turn_id" where
  "changeKey (UpsertTurn c) = vtId (tuTurn c)"
| "changeKey (RemoveTurn t) = t"

definition revisionError :: "accumulator \<Rightarrow> view_patch \<Rightarrow> apply_error + unit" where
  "revisionError a p =
     (let thread = viewThreadId a in
      if vpThreadId p \<noteq> thread then Inl (ForeignThread thread (vpThreadId p))
      else if vpRevision p \<le> vpBaseRevision p
      then Inl (NonMonotonicRevision thread (vpBaseRevision p) (vpRevision p))
      else if vpBaseRevision p \<noteq> currentRevision a \<or> vpRevision p \<noteq> vpBaseRevision p + 1
      then Inl (ResyncRequired \<lparr>rsThreadId = thread, rsExpectedRevision = currentRevision a + 1,
        rsReceivedBaseRevision = vpBaseRevision p, rsCurrentRevision = currentRevision a\<rparr>)
      else Inr ())"

definition collectionError :: "accumulator \<Rightarrow> view_patch \<Rightarrow> view_header \<Rightarrow> apply_error + unit" where
  "collectionError a p header =
     (let thread = viewThreadId a in
      bindE (checkNone (duplicateKey (map unKey (vpUpsert p))) (\<lambda>k. duplicateError thread UpsertItems (UnitKey k))) (\<lambda>_.
      bindE (checkNone (duplicateKey (vpRemove p)) (\<lambda>k. duplicateError thread RemoveItems (UnitKey k))) (\<lambda>_.
      bindE (checkNone (find (\<lambda>u. unKey u \<in> set (vpRemove p)) (vpUpsert p))
        (\<lambda>u. invalidError thread ConflictingItemChange (Some (UnitKey (unKey u))))) (\<lambda>_.
      bindE (checkNone (duplicateKey (map changeKey (vpTurnChanges p)))
        (\<lambda>k. duplicateError thread TurnChanges (TurnKey k))) (\<lambda>_.
      if thId (vhThread header) \<noteq> thread
      then Inl (invalidError thread InvalidHeader (Some (TurnKey (thId (vhThread header)))))
      else bindE (checkNone (duplicateKey (map pdId (vhPending header)))
        (\<lambda>k. duplicateError thread PendingTurns (TurnKey k))) (\<lambda>_.
      if length (vhPending header) > limitPending then Inl (invalidError thread BoundsExceeded None)
      else Inr ()))))))"

definition removeCheck :: "accumulator \<Rightarrow> utf16 \<Rightarrow> apply_error + unit" where
  "removeCheck a k =
     (if map_of (unitOwners a) k = None then Inl (invalidError (viewThreadId a) MissingItem (Some (UnitKey k)))
      else Inr ())"

definition upsertCheck :: "accumulator \<Rightarrow> transcript_unit \<Rightarrow> apply_error + unit" where
  "upsertCheck a u =
     (case map_of (unitOwners a) (unKey u) of
        None \<Rightarrow> Inr ()
      | Some owner \<Rightarrow>
          if owner \<noteq> unTurnId u
          then Inl (invalidError (viewThreadId a) UnitTurnMismatch (Some (UnitKey (unKey u))))
          else (case Option.bind (map_of (turnsById a) owner) (\<lambda>it. map_of (itUnits it) (unKey u)) of
             None \<Rightarrow> Inr ()
           | Some current \<Rightarrow>
               if unRevision u < unRevision current
               then Inl (invalidError (viewThreadId a) UnitRevisionRegressed (Some (UnitKey (unKey u))))
               else Inr ()))"

definition unitError :: "accumulator \<Rightarrow> view_patch \<Rightarrow> apply_error + unit" where
  "unitError a p =
     bindE (traverseE (removeCheck a) (vpRemove p)) (\<lambda>_.
     bindE (traverseE (upsertCheck a) (vpUpsert p)) (\<lambda>_. Inr ()))"

fun turnChangeCheck :: "accumulator \<Rightarrow> turn_change \<Rightarrow> apply_error + unit" where
  "turnChangeCheck a (RemoveTurn t) =
     (if map_of (turnsById a) t = None then Inl (invalidError (viewThreadId a) MissingTurn (Some (TurnKey t))) else Inr ())"
| "turnChangeCheck a (UpsertTurn c) =
     (let t = vtId (tuTurn c) in
      if vtThreadId (tuTurn c) \<noteq> viewThreadId a
      then Inl (invalidError (viewThreadId a) TurnThreadMismatch (Some (TurnKey t)))
      else (case map_of (turnsById a) t of
         None \<Rightarrow> Inr ()
       | Some it \<Rightarrow>
           if tuRevision c < tsRevision (itState it)
           then Inl (invalidError (viewThreadId a) ProjectionRevisionRegressed (Some (TurnKey t)))
           else Inr ()))"

definition changesOf :: "turn_change list \<Rightarrow> (turn_id \<times> turn_change) list" where
  "changesOf cs = foldl (\<lambda>m c. AList.update (changeKey c) c m) [] cs"

definition turnChangesError :: "accumulator \<Rightarrow> view_patch \<Rightarrow> apply_error + (turn_id \<times> turn_change) list" where
  "turnChangesError a p =
     bindE (traverseE (turnChangeCheck a) (vpTurnChanges p)) (\<lambda>_. Inr (changesOf (vpTurnChanges p)))"

definition upsertTurnCheck :: "accumulator \<Rightarrow> (turn_id \<times> turn_change) list \<Rightarrow> transcript_unit \<Rightarrow> apply_error + unit" where
  "upsertTurnCheck a changes u =
     (let present = (case map_of changes (unTurnId u) of
          Some (UpsertTurn _) \<Rightarrow> True
        | Some (RemoveTurn _) \<Rightarrow> False
        | None \<Rightarrow> map_of (turnsById a) (unTurnId u) \<noteq> None)
      in if present then Inr ()
         else Inl (invalidError (viewThreadId a) MissingTurn (Some (TurnKey (unTurnId u)))))"

definition upsertTurnError :: "accumulator \<Rightarrow> view_patch \<Rightarrow> (turn_id \<times> turn_change) list \<Rightarrow> apply_error + unit" where
  "upsertTurnError a p changes = bindE (traverseE (upsertTurnCheck a changes) (vpUpsert p)) (\<lambda>_. Inr ())"

section \<open>Phases\<close>

type_synonym progress = "accumulator \<times> (turn_id \<times> turn_delta) list"

definition deltaFor :: "accumulator \<Rightarrow> (turn_id \<times> turn_delta) list \<Rightarrow> turn_id \<Rightarrow> turn_delta" where
  "deltaFor a ds t =
     (case map_of ds t of
        Some d \<Rightarrow> d
      | None \<Rightarrow> \<lparr>tdPrevious = viewTurn a t, tdCurrent = viewTurn a t, tdUpsert = [], tdRemove = []\<rparr>)"

definition removeUnit :: "utf16 \<Rightarrow> progress \<Rightarrow> progress" where
  "removeUnit k st = (case st of (a, ds) \<Rightarrow>
     (case map_of (unitOwners a) k of
        None \<Rightarrow> (a, ds)
      | Some owner \<Rightarrow>
          (case map_of (turnsById a) owner of
             None \<Rightarrow> (a, ds)
           | Some it \<Rightarrow>
               let d = deltaFor a ds owner in
               (a\<lparr>turnsById := AList.update owner (it\<lparr>itUnits := AList.delete k (itUnits it)\<rparr>) (turnsById a),
                  unitOwners := AList.delete k (unitOwners a)\<rparr>,
                AList.update owner (d\<lparr>tdRemove := tdRemove d @ [k]\<rparr>) ds))))"

fun changeTurn :: "utf16 list \<Rightarrow> turn_change \<Rightarrow> progress \<Rightarrow> progress" where
  "changeTurn removed (RemoveTurn t) (a, ds) =
     (case map_of (turnsById a) t of
        None \<Rightarrow> (a, ds)
      | Some it \<Rightarrow>
          let d = deltaFor a ds t; keys = map fst (itUnits it) in
          (a\<lparr>unitOwners := fold AList.delete keys (unitOwners a), turnsById := AList.delete t (turnsById a),
             activeTurnIds := deleteFrom t (activeTurnIds a)\<rparr>,
           AList.update t (d\<lparr>tdRemove := tdRemove d @ filter (\<lambda>k. k \<notin> set removed) keys, tdCurrent := None\<rparr>) ds))"
| "changeTurn removed (UpsertTurn c) (a, ds) =
     (let t = vtId (tuTurn c); st = changedTurnState c; d = deltaFor a ds t;
          it = (case map_of (turnsById a) t of None \<Rightarrow> \<lparr>itState = st, itUnits = []\<rparr> | Some it \<Rightarrow> it\<lparr>itState := st\<rparr>)
      in (a\<lparr>turnsById := AList.update t it (turnsById a),
            activeTurnIds := (if isActiveStatus (vtStatus (tsTurn st)) then addTo t (activeTurnIds a)
              else deleteFrom t (activeTurnIds a))\<rparr>,
          AList.update t (d\<lparr>tdCurrent := Some st\<rparr>) ds))"

definition upsertUnit :: "transcript_unit \<Rightarrow> progress \<Rightarrow> progress" where
  "upsertUnit u st = (case st of (a, ds) \<Rightarrow>
     (case map_of (turnsById a) (unTurnId u) of
        None \<Rightarrow> (a, ds)
      | Some it \<Rightarrow>
          let d = deltaFor a ds (unTurnId u) in
          (a\<lparr>turnsById := AList.update (unTurnId u) (it\<lparr>itUnits := AList.update (unKey u) u (itUnits it)\<rparr>) (turnsById a),
             unitOwners := AList.update (unKey u) (unTurnId u) (unitOwners a)\<rparr>,
           AList.update (unTurnId u) (d\<lparr>tdUpsert := tdUpsert d @ [u]\<rparr>) ds)))"

definition applyPatch :: "view_patch \<Rightarrow> accumulator \<Rightarrow> apply_error + view_delta \<times> accumulator" where
  "applyPatch p a =
     bindE (revisionError a p) (\<lambda>_.
     let header = orDefault (currentHeader a) (vpHeader p) in
     bindE (collectionError a p header) (\<lambda>_.
     bindE (unitError a p) (\<lambda>_.
     bindE (turnChangesError a p) (\<lambda>changes.
     bindE (upsertTurnError a p changes) (\<lambda>_.
       case fold upsertUnit (vpUpsert p) (fold (changeTurn (vpRemove p)) (vpTurnChanges p)
           (fold removeUnit (vpRemove p) (a, []))) of
         (a', ds) \<Rightarrow>
           Inr (\<lparr>vdRevision = vpRevision p, vdHeaderChanged = (vpHeader p \<noteq> None), vdTurns = ds\<rparr>,
             a'\<lparr>currentHeader := header, currentRevision := vpRevision p\<rparr>))))))"

end
