(* ===== verification/View_Index.thy ===== *)
theory View_Index
  imports View_Apply
begin

text \<open>
  The indexes of an accumulator agree: the invariant that \<open>fromSnapshot\<close> establishes and
  patches keep, the effect of each phase on what can be looked up, and what the collected
  deltas say of it.
\<close>

section \<open>Lookups\<close>

definition unitAt :: "accumulator \<Rightarrow> turn_id \<Rightarrow> utf16 \<Rightarrow> transcript_unit option" where
  "unitAt a t k = (case map_of (turnsById a) t of None \<Rightarrow> None | Some it \<Rightarrow> map_of (itUnits it) k)"

lemma unitAt_Some: "map_of (turnsById a) t = Some it \<Longrightarrow> unitAt a t = map_of (itUnits it)"
  by (rule ext) (simp add: unitAt_def)

lemma viewTurn_Some: "map_of (turnsById a) t = Some it \<Longrightarrow> viewTurn a t = Some (itState it)"
  by (simp add: viewTurn_def)

lemma unitAt_None: "viewTurn a t = None \<Longrightarrow> unitAt a t k = None"
  by (simp add: viewTurn_def unitAt_def)

definition turnsOk :: "thread_id \<Rightarrow> accumulator \<Rightarrow> bool" where
  "turnsOk thread a \<longleftrightarrow> distinct (map fst (turnsById a)) \<and>
     (\<forall>t s. viewTurn a t = Some s \<longrightarrow> vtId (tsTurn s) = t \<and> vtThreadId (tsTurn s) = thread) \<and>
     (\<forall>t k u. unitAt a t k = Some u \<longrightarrow> unKey u = k \<and> unTurnId u = t)"

definition ownersOk :: "accumulator \<Rightarrow> bool" where
  "ownersOk a \<longleftrightarrow> (\<forall>k t. map_of (unitOwners a) k = Some t \<longleftrightarrow> unitAt a t k \<noteq> None)"

definition activeOk :: "accumulator \<Rightarrow> bool" where
  "activeOk a \<longleftrightarrow> distinct (activeTurnIds a) \<and>
     (\<forall>t. t \<in> set (activeTurnIds a) \<longleftrightarrow> (\<exists>s. viewTurn a t = Some s \<and> isActiveStatus (vtStatus (tsTurn s))))"

definition indexOk :: "thread_id \<Rightarrow> accumulator \<Rightarrow> bool" where
  "indexOk thread a \<longleftrightarrow> turnsOk thread a \<and> ownersOk a \<and> activeOk a"

definition pendingOk :: "view_header \<Rightarrow> bool" where
  "pendingOk h \<longleftrightarrow> distinct (map pdId (vhPending h)) \<and> length (vhPending h) \<le> limitPending"

definition accOk :: "accumulator \<Rightarrow> bool" where
  "accOk a \<longleftrightarrow> indexOk (viewThreadId a) a \<and> pendingOk (currentHeader a)"

text \<open>What the operations on the association lists do to the lookups.\<close>

lemma map_of_update [simp]: "map_of (AList.update k v al) = (map_of al)(k \<mapsto> v)"
  by (rule update_conv')

lemma map_of_delete [simp]: "map_of (AList.delete k al) = (map_of al)(k := None)"
  by (rule delete_conv')

lemma map_of_delete_all: "map_of (fold AList.delete ks al) = (\<lambda>k. if k \<in> set ks then None else map_of al k)"
  by (induction ks arbitrary: al) (auto simp: fun_eq_iff)

lemma distinct_keys [simp]: "distinct (map fst al) \<Longrightarrow> distinct (map fst (AList.update k v al))"
  "distinct (map fst al) \<Longrightarrow> distinct (map fst (AList.delete k al))"
  by (simp_all add: distinct_update distinct_delete)

lemma set_addTo [simp]: "set (addTo x xs) = insert x (set xs)" "distinct (addTo x xs) \<longleftrightarrow> distinct xs"
  by (auto simp: addTo_def)

lemma set_deleteFrom [simp]: "set (deleteFrom x xs) = set xs - {x}" "distinct xs \<Longrightarrow> distinct (deleteFrom x xs)"
  by (auto simp: deleteFrom_def)

section \<open>The effect of each step\<close>

lemma removeUnit_eff:
  assumes ok: "ownersOk a" and owner: "map_of (unitOwners a) k = Some t" and run: "removeUnit k (a, ds) = (a', ds')"
  shows "currentHeader a' = currentHeader a" "currentRevision a' = currentRevision a" "activeTurnIds a' = activeTurnIds a"
    "viewTurn a' = viewTurn a" "unitAt a' = (unitAt a)(t := (unitAt a t)(k := None))"
    "unitOwners a' = AList.delete k (unitOwners a)" "map fst (turnsById a') = map fst (turnsById a)"
    "ds' = AList.update t ((deltaFor a ds t)\<lparr>tdRemove := tdRemove (deltaFor a ds t) @ [k]\<rparr>) ds"
proof -
  have "unitAt a t k \<noteq> None" using ok owner by (auto simp: ownersOk_def)
  then obtain it where it: "map_of (turnsById a) t = Some it" by (auto simp: unitAt_def split: option.splits)
  from run owner it have a': "a' = a\<lparr>turnsById := AList.update t (it\<lparr>itUnits := AList.delete k (itUnits it)\<rparr>) (turnsById a),
      unitOwners := AList.delete k (unitOwners a)\<rparr>"
    and ds': "ds' = AList.update t ((deltaFor a ds t)\<lparr>tdRemove := tdRemove (deltaFor a ds t) @ [k]\<rparr>) ds"
    by (auto simp: removeUnit_def Let_def)
  show "currentHeader a' = currentHeader a" "currentRevision a' = currentRevision a" "activeTurnIds a' = activeTurnIds a"
    "unitOwners a' = AList.delete k (unitOwners a)" unfolding a' by simp_all
  show "viewTurn a' = viewTurn a" using it by (auto simp: a' viewTurn_def fun_eq_iff)
  show "unitAt a' = (unitAt a)(t := (unitAt a t)(k := None))" using it by (auto simp: a' unitAt_def fun_eq_iff)
  have "t \<in> fst ` set (turnsById a)" using it by (metis map_of_eq_None_iff option.distinct(1))
  then show "map fst (turnsById a') = map fst (turnsById a)" by (simp add: a' update_keys)
  show "ds' = AList.update t ((deltaFor a ds t)\<lparr>tdRemove := tdRemove (deltaFor a ds t) @ [k]\<rparr>) ds" by (rule ds')
qed

lemma upsertUnit_eff:
  assumes it: "viewTurn a t \<noteq> None" and t: "t = unTurnId u" and run: "upsertUnit u (a, ds) = (a', ds')"
  shows "currentHeader a' = currentHeader a" "currentRevision a' = currentRevision a" "activeTurnIds a' = activeTurnIds a"
    "viewTurn a' = viewTurn a" "unitAt a' = (unitAt a)(t := (unitAt a t)(unKey u \<mapsto> u))"
    "unitOwners a' = AList.update (unKey u) t (unitOwners a)" "map fst (turnsById a') = map fst (turnsById a)"
    "ds' = AList.update t ((deltaFor a ds t)\<lparr>tdUpsert := tdUpsert (deltaFor a ds t) @ [u]\<rparr>) ds"
proof -
  from it obtain it where it: "map_of (turnsById a) t = Some it" by (auto simp: viewTurn_def)
  from run it have a': "a' = a\<lparr>turnsById := AList.update t (it\<lparr>itUnits := AList.update (unKey u) u (itUnits it)\<rparr>) (turnsById a),
      unitOwners := AList.update (unKey u) t (unitOwners a)\<rparr>"
    and ds': "ds' = AList.update t ((deltaFor a ds t)\<lparr>tdUpsert := tdUpsert (deltaFor a ds t) @ [u]\<rparr>) ds"
    by (auto simp: upsertUnit_def Let_def t)
  show "currentHeader a' = currentHeader a" "currentRevision a' = currentRevision a" "activeTurnIds a' = activeTurnIds a"
    "unitOwners a' = AList.update (unKey u) t (unitOwners a)" unfolding a' by simp_all
  show "viewTurn a' = viewTurn a" using it by (auto simp: a' viewTurn_def fun_eq_iff)
  show "unitAt a' = (unitAt a)(t := (unitAt a t)(unKey u \<mapsto> u))" using it by (auto simp: a' unitAt_def fun_eq_iff)
  have "t \<in> fst ` set (turnsById a)" using it by (metis map_of_eq_None_iff option.distinct(1))
  then show "map fst (turnsById a') = map fst (turnsById a)" by (simp add: a' update_keys)
  show "ds' = AList.update t ((deltaFor a ds t)\<lparr>tdUpsert := tdUpsert (deltaFor a ds t) @ [u]\<rparr>) ds" by (rule ds')
qed

lemma upsertTurn_eff:
  assumes run: "changeTurn removed (UpsertTurn c) (a, ds) = (a', ds')" and t: "t = vtId (tuTurn c)"
    and st: "st = changedTurnState c"
  shows "currentHeader a' = currentHeader a" "currentRevision a' = currentRevision a"
    "activeTurnIds a' = (if isActiveStatus (vtStatus (tsTurn st)) then addTo t (activeTurnIds a) else deleteFrom t (activeTurnIds a))"
    "viewTurn a' = (viewTurn a)(t \<mapsto> st)" "unitAt a' = unitAt a" "unitOwners a' = unitOwners a"
    "distinct (map fst (turnsById a)) \<Longrightarrow> distinct (map fst (turnsById a'))"
    "ds' = AList.update t ((deltaFor a ds t)\<lparr>tdCurrent := Some st\<rparr>) ds"
  using run by (cases "map_of (turnsById a) t"; auto simp: Let_def t st viewTurn_def unitAt_def fun_eq_iff)+

lemma removeTurn_eff:
  assumes run: "changeTurn removed (RemoveTurn t) (a, ds) = (a', ds')" and it: "map_of (turnsById a) t = Some it"
  shows "currentHeader a' = currentHeader a" "currentRevision a' = currentRevision a"
    "activeTurnIds a' = deleteFrom t (activeTurnIds a)"
    "viewTurn a' = (viewTurn a)(t := None)" "unitAt a' = (unitAt a)(t := Map.empty)"
    "map_of (unitOwners a') = (\<lambda>k. if unitAt a t k \<noteq> None then None else map_of (unitOwners a) k)"
    "distinct (map fst (turnsById a)) \<Longrightarrow> distinct (map fst (turnsById a'))"
    "ds' = AList.update t ((deltaFor a ds t)\<lparr>tdRemove := tdRemove (deltaFor a ds t) @
       filter (\<lambda>k. k \<notin> set removed) (map fst (itUnits it)), tdCurrent := None\<rparr>) ds"
proof -
  from run it have a': "a' = a\<lparr>unitOwners := fold AList.delete (map fst (itUnits it)) (unitOwners a),
      turnsById := AList.delete t (turnsById a), activeTurnIds := deleteFrom t (activeTurnIds a)\<rparr>"
    and ds': "ds' = AList.update t ((deltaFor a ds t)\<lparr>tdRemove := tdRemove (deltaFor a ds t) @
       filter (\<lambda>k. k \<notin> set removed) (map fst (itUnits it)), tdCurrent := None\<rparr>) ds"
    by (auto simp: Let_def)
  show "currentHeader a' = currentHeader a" "currentRevision a' = currentRevision a"
    "activeTurnIds a' = deleteFrom t (activeTurnIds a)" unfolding a' by simp_all
  show "viewTurn a' = (viewTurn a)(t := None)" by (auto simp: a' viewTurn_def fun_eq_iff)
  show "unitAt a' = (unitAt a)(t := Map.empty)" by (auto simp: a' unitAt_def fun_eq_iff)
  have "k \<in> set (map fst (itUnits it)) \<longleftrightarrow> unitAt a t k \<noteq> None" for k
    using it by (simp add: unitAt_Some map_of_eq_None_iff)
  then show "map_of (unitOwners a') = (\<lambda>k. if unitAt a t k \<noteq> None then None else map_of (unitOwners a) k)"
    by (simp add: a' map_of_delete_all fun_eq_iff)
  show "distinct (map fst (turnsById a')) " if "distinct (map fst (turnsById a))" using that by (simp add: a')
  show "ds' = AList.update t ((deltaFor a ds t)\<lparr>tdRemove := tdRemove (deltaFor a ds t) @
       filter (\<lambda>k. k \<notin> set removed) (map fst (itUnits it)), tdCurrent := None\<rparr>) ds" by (rule ds')
qed

section \<open>The invariant\<close>

lemma owners_at: "ownersOk a \<Longrightarrow> unitAt a t k \<noteq> None \<longleftrightarrow> map_of (unitOwners a) k = Some t"
  by (simp add: ownersOk_def)

lemma removeUnit_ok:
  assumes "indexOk thread a" "map_of (unitOwners a) k = Some t" "removeUnit k (a, ds) = (a', ds')"
  shows "indexOk thread a'"
proof -
  have own: "ownersOk a" using assms(1) by (simp add: indexOk_def)
  note eff = removeUnit_eff [OF own assms(2,3)]
  have "map_of (unitOwners a') k' = Some t' \<longleftrightarrow> unitAt a' t' k' \<noteq> None" for k' t'
    using owners_at [OF own, of t' k'] assms(2) by (cases "k' = k"; cases "t' = t") (auto simp: eff)
  then have "ownersOk a'" by (simp add: ownersOk_def)
  with assms(1) eff show ?thesis by (auto simp: indexOk_def turnsOk_def activeOk_def)
qed

lemma upsertUnit_ok:
  assumes "indexOk thread a" "viewTurn a (unTurnId u) \<noteq> None" "upsertUnit u (a, ds) = (a', ds')"
    "map_of (unitOwners a) (unKey u) = None \<or> map_of (unitOwners a) (unKey u) = Some (unTurnId u)"
  shows "indexOk thread a'"
proof -
  note eff = upsertUnit_eff [OF assms(2) refl assms(3)]
  have "ownersOk a" using assms(1) by (simp add: indexOk_def)
  from owners_at [OF this] have look: "unitAt a t k \<noteq> None \<longleftrightarrow> map_of (unitOwners a) k = Some t" for t k .
  have "map_of (unitOwners a') k = Some t \<longleftrightarrow> unitAt a' t k \<noteq> None" for k t
    using look [of t k] assms(4) by (cases "k = unKey u"; cases "t = unTurnId u") (auto simp: eff)
  then have "ownersOk a'" by (simp add: ownersOk_def)
  with assms(1) eff show ?thesis by (auto simp: indexOk_def turnsOk_def activeOk_def)
qed

lemma upsertTurn_ok:
  assumes "indexOk thread a" "changeTurn removed (UpsertTurn c) (a, ds) = (a', ds')" "vtThreadId (tuTurn c) = thread"
  shows "indexOk thread a'"
  using assms(1,3) upsertTurn_eff [OF assms(2) refl refl]
  by (auto simp: indexOk_def turnsOk_def ownersOk_def activeOk_def changedTurnState_def)

lemma removeTurn_ok:
  assumes "indexOk thread a" "changeTurn removed (RemoveTurn t) (a, ds) = (a', ds')" "viewTurn a t \<noteq> None"
  shows "indexOk thread a'"
proof -
  from assms(3) obtain it where it: "map_of (turnsById a) t = Some it" by (auto simp: viewTurn_def)
  note eff = removeTurn_eff [OF assms(2) it]
  have "ownersOk a" using assms(1) by (simp add: indexOk_def)
  from owners_at [OF this] have look: "unitAt a t k \<noteq> None \<longleftrightarrow> map_of (unitOwners a) k = Some t" for t k .
  have "map_of (unitOwners a') k = Some t' \<longleftrightarrow> unitAt a' t' k \<noteq> None" for k t'
    using look [of t k] look [of t' k] by (cases "t' = t") (auto simp: eff)
  then have "ownersOk a'" by (simp add: ownersOk_def)
  with assms(1) eff show ?thesis by (auto simp: indexOk_def turnsOk_def activeOk_def)
qed

end
