(* ===== verification/View_Patch.thy ===== *)
theory View_Patch
  imports View_Index
begin

text \<open>
  The three phases of a patch together: what the view shows afterwards, and that the deltas
  describe exactly the difference.
\<close>

section \<open>Deltas\<close>

definition deltaUnits :: "(utf16 \<Rightarrow> transcript_unit option) \<Rightarrow> turn_delta \<Rightarrow> utf16 \<Rightarrow> transcript_unit option" where
  "deltaUnits m d = (m |` (- set (tdRemove d))) ++ map_of (rev (map (\<lambda>u. (unKey u, u)) (tdUpsert d)))"

definition describes :: "accumulator \<Rightarrow> accumulator \<Rightarrow> turn_id \<Rightarrow> turn_delta \<Rightarrow> bool" where
  "describes a0 a t d \<longleftrightarrow> tdPrevious d = viewTurn a0 t \<and> tdCurrent d = viewTurn a t \<and>
     unitAt a t = deltaUnits (unitAt a0 t) d"

definition deltasOk :: "accumulator \<Rightarrow> accumulator \<Rightarrow> (turn_id \<times> turn_delta) list \<Rightarrow> bool" where
  "deltasOk a0 a ds \<longleftrightarrow> distinct (map fst ds) \<and> (\<forall>t. describes a0 a t (deltaFor a ds t))"

definition noUpserts :: "accumulator \<Rightarrow> (turn_id \<times> turn_delta) list \<Rightarrow> bool" where
  "noUpserts a ds \<longleftrightarrow> (\<forall>t. tdUpsert (deltaFor a ds t) = [])"

lemma restrict_all [simp]: "m |` UNIV = m"
  by (simp add: restrict_map_def fun_eq_iff)

lemma deltasOk_start: "deltasOk a a [] \<and> noUpserts a []"
  by (simp add: deltasOk_def noUpserts_def describes_def deltaFor_def deltaUnits_def)

lemma deltaFor_update:
  assumes "\<And>t'. t' \<noteq> t \<Longrightarrow> viewTurn a' t' = viewTurn a t'"
  shows "deltaFor a' (AList.update t d ds) t' = (if t' = t then d else deltaFor a ds t')"
  using assms [of t'] by (cases "t' = t") (auto simp: deltaFor_def split: option.split)

lemma deltasOk_update:
  assumes "deltasOk a0 a ds" "describes a0 a' t d"
    "\<And>t'. t' \<noteq> t \<Longrightarrow> viewTurn a' t' = viewTurn a t' \<and> unitAt a' t' = unitAt a t'"
  shows "deltasOk a0 a' (AList.update t d ds)"
proof -
  have same: "\<And>t'. t' \<noteq> t \<Longrightarrow> viewTurn a' t' = viewTurn a t'" using assms(3) by blast
  have "describes a0 a' t' (deltaFor a' (AList.update t d ds) t')" for t'
    using assms deltaFor_update [of t a' a, OF same] by (cases "t' = t") (auto simp: deltasOk_def describes_def)
  with assms(1) show ?thesis by (simp add: deltasOk_def)
qed

lemma deltaUnits_remove:
  "tdUpsert d = [] \<Longrightarrow> (deltaUnits m d)(k := None) = deltaUnits m (d\<lparr>tdRemove := tdRemove d @ [k]\<rparr>)"
  by (auto simp: deltaUnits_def restrict_map_def fun_eq_iff)

lemma deltaUnits_clear:
  "tdUpsert d = [] \<Longrightarrow> dom (deltaUnits m d) \<subseteq> set ks \<Longrightarrow>
     deltaUnits m (d\<lparr>tdRemove := tdRemove d @ ks, tdCurrent := c\<rparr>) = Map.empty"
  by (auto simp: deltaUnits_def restrict_map_def fun_eq_iff dom_def split: if_splits)

lemma deltaUnits_upsert:
  "(deltaUnits m d)(unKey u \<mapsto> u) = deltaUnits m (d\<lparr>tdUpsert := tdUpsert d @ [u]\<rparr>)"
  by (simp add: deltaUnits_def)

section \<open>Removed units\<close>

definition framed :: "accumulator \<Rightarrow> accumulator \<Rightarrow> bool" where
  "framed a a' \<longleftrightarrow> currentHeader a' = currentHeader a \<and> currentRevision a' = currentRevision a"

lemma removeUnits_phase:
  assumes "indexOk thread a" "deltasOk a0 a ds" "noUpserts a ds" "distinct ks" "\<forall>k \<in> set ks. map_of (unitOwners a) k \<noteq> None"
    "fold removeUnit ks (a, ds) = (a', ds')"
  shows "indexOk thread a' \<and> deltasOk a0 a' ds' \<and> noUpserts a' ds' \<and> framed a a' \<and> viewTurn a' = viewTurn a \<and>
    (\<forall>t. unitAt a' t = unitAt a t |` (- set ks))"
  using assms
proof (induction ks arbitrary: a ds)
  case Nil
  then show ?case by (simp add: framed_def)
next
  case (Cons k ks)
  from Cons.prems(5) obtain t where t: "map_of (unitOwners a) k = Some t" by auto
  obtain a1 ds1 where run: "removeUnit k (a, ds) = (a1, ds1)" by fastforce
  have own: "ownersOk a" using Cons.prems(1) by (simp add: indexOk_def)
  note eff = removeUnit_eff [OF own t run]
  let ?d = "deltaFor a ds t"
  have up: "tdUpsert ?d = []" using Cons.prems(3) by (simp add: noUpserts_def)
  have "describes a0 a t ?d" using Cons.prems(2) by (simp add: deltasOk_def)
  then have "describes a0 a1 t (?d\<lparr>tdRemove := tdRemove ?d @ [k]\<rparr>)"
    using deltaUnits_remove [OF up] by (simp add: describes_def eff)
  with Cons.prems(2) have "deltasOk a0 a1 ds1"
    unfolding eff(8) by (rule deltasOk_update) (simp add: eff)
  moreover have "noUpserts a1 ds1"
    using Cons.prems(3) up deltaFor_update [of t a1 a] by (simp add: noUpserts_def eff)
  moreover have "indexOk thread a1" using removeUnit_ok [OF Cons.prems(1) t run] .
  moreover have "\<forall>k' \<in> set ks. map_of (unitOwners a1) k' \<noteq> None" using Cons.prems(4,5) by (auto simp: eff)
  moreover have "fold removeUnit ks (a1, ds1) = (a', ds')" using Cons.prems(6) run by simp
  ultimately have rest: "indexOk thread a' \<and> deltasOk a0 a' ds' \<and> noUpserts a' ds' \<and> framed a1 a' \<and>
      viewTurn a' = viewTurn a1 \<and> (\<forall>t. unitAt a' t = unitAt a1 t |` (- set ks))"
    using Cons.IH [of a1 ds1] Cons.prems(4) by simp
  have "unitAt a t' k = None" if "t' \<noteq> t" for t' using owners_at [OF own, of t' k] t that by simp
  then have "unitAt a1 t' |` (- set ks) = unitAt a t' |` (- set (k # ks))" for t'
    by (auto simp: eff restrict_map_def fun_eq_iff)
  with rest show ?case by (simp add: framed_def eff)
qed

section \<open>Changed turns\<close>

fun changedTo :: "turn_change option \<Rightarrow> turn_state option \<Rightarrow> turn_state option" where
  "changedTo None s = s"
| "changedTo (Some (UpsertTurn c)) s = Some (changedTurnState c)"
| "changedTo (Some (RemoveTurn _)) s = None"

fun removesTurn :: "turn_change option \<Rightarrow> bool" where
  "removesTurn (Some (RemoveTurn _)) \<longleftrightarrow> True"
| "removesTurn _ \<longleftrightarrow> False"

definition changeAt :: "turn_change list \<Rightarrow> turn_id \<Rightarrow> turn_change option" where
  "changeAt cs t = map_of (map (\<lambda>c. (changeKey c, c)) cs) t"

fun changeOk :: "accumulator \<Rightarrow> thread_id \<Rightarrow> turn_change \<Rightarrow> bool" where
  "changeOk a thread (UpsertTurn c) \<longleftrightarrow> vtThreadId (tuTurn c) = thread"
| "changeOk a thread (RemoveTurn t) \<longleftrightarrow> viewTurn a t \<noteq> None"

lemma changeTurn_step:
  assumes "indexOk thread a" "deltasOk a0 a ds" "noUpserts a ds" "\<forall>t. \<forall>k \<in> set removed. unitAt a t k = None"
    "changeOk a thread c" "changeTurn removed c (a, ds) = (a', ds')"
  shows "indexOk thread a' \<and> deltasOk a0 a' ds' \<and> noUpserts a' ds' \<and> framed a a' \<and>
    viewTurn a' = (viewTurn a)(changeKey c := changedTo (Some c) (viewTurn a (changeKey c))) \<and>
    unitAt a' = (if removesTurn (Some c) then (unitAt a)(changeKey c := Map.empty) else unitAt a)"
proof (cases c)
  case (UpsertTurn u)
  note run = assms(6) [unfolded UpsertTurn]
  note eff = upsertTurn_eff [OF run refl refl]
  let ?t = "vtId (tuTurn u)"
  let ?d = "deltaFor a ds ?t"
  have "describes a0 a ?t ?d" using assms(2) by (simp add: deltasOk_def)
  then have "describes a0 a' ?t (?d\<lparr>tdCurrent := Some (changedTurnState u)\<rparr>)"
    by (simp add: describes_def eff deltaUnits_def)
  with assms(2) have "deltasOk a0 a' ds'"
    unfolding eff(8) by (rule deltasOk_update) (simp add: eff)
  moreover have "noUpserts a' ds'" using assms(3) deltaFor_update [of ?t a' a] by (simp add: noUpserts_def eff)
  moreover have "indexOk thread a'" using upsertTurn_ok [OF assms(1) run] assms(5) UpsertTurn by simp
  ultimately show ?thesis using eff UpsertTurn by (simp add: framed_def)
next
  case (RemoveTurn t)
  note run = assms(6) [unfolded RemoveTurn]
  from assms(5) RemoveTurn obtain it where it: "map_of (turnsById a) t = Some it" by (auto simp: viewTurn_def)
  note eff = removeTurn_eff [OF run it]
  let ?d = "deltaFor a ds t"
  let ?ks = "filter (\<lambda>k. k \<notin> set removed) (map fst (itUnits it))"
  have up: "tdUpsert ?d = []" using assms(3) by (simp add: noUpserts_def)
  have d: "describes a0 a t ?d" using assms(2) by (simp add: deltasOk_def)
  have "dom (unitAt a t) \<subseteq> set ?ks"
  proof
    fix k assume "k \<in> dom (unitAt a t)"
    then have here: "unitAt a t k \<noteq> None" by auto
    then have "k \<notin> set removed" using assms(4) by metis
    moreover have "k \<in> set (map fst (itUnits it))" using here it by (simp add: unitAt_Some map_of_eq_None_iff)
    ultimately show "k \<in> set ?ks" by simp
  qed
  then have "deltaUnits (unitAt a0 t) (?d\<lparr>tdRemove := tdRemove ?d @ ?ks, tdCurrent := None\<rparr>) = Map.empty"
    using d by (intro deltaUnits_clear [OF up]) (simp add: describes_def)
  with d have "describes a0 a' t (?d\<lparr>tdRemove := tdRemove ?d @ ?ks, tdCurrent := None\<rparr>)"
    by (simp add: describes_def eff)
  with assms(2) have "deltasOk a0 a' ds'"
    unfolding eff(8) by (rule deltasOk_update) (simp add: eff)
  moreover have "noUpserts a' ds'" using assms(3) deltaFor_update [of t a' a] up by (simp add: noUpserts_def eff)
  moreover have "indexOk thread a'" using removeTurn_ok [OF assms(1) run] it by (simp add: viewTurn_def)
  ultimately show ?thesis using eff RemoveTurn by (simp add: framed_def)
qed

lemma changeTurns_phase:
  assumes "indexOk thread a" "deltasOk a0 a ds" "noUpserts a ds" "\<forall>t. \<forall>k \<in> set removed. unitAt a t k = None"
    "distinct (map changeKey cs)" "\<forall>c \<in> set cs. changeOk a thread c"
    "fold (changeTurn removed) cs (a, ds) = (a', ds')"
  shows "indexOk thread a' \<and> deltasOk a0 a' ds' \<and> noUpserts a' ds' \<and> framed a a' \<and>
    (\<forall>t. viewTurn a' t = changedTo (changeAt cs t) (viewTurn a t)) \<and>
    (\<forall>t. unitAt a' t = (if removesTurn (changeAt cs t) then Map.empty else unitAt a t))"
  using assms
proof (induction cs arbitrary: a ds)
  case Nil
  then show ?case by (simp add: framed_def changeAt_def)
next
  case (Cons c cs)
  obtain a1 ds1 where run: "changeTurn removed c (a, ds) = (a1, ds1)" by fastforce
  have step: "indexOk thread a1 \<and> deltasOk a0 a1 ds1 \<and> noUpserts a1 ds1 \<and> framed a a1 \<and>
    viewTurn a1 = (viewTurn a)(changeKey c := changedTo (Some c) (viewTurn a (changeKey c))) \<and>
    unitAt a1 = (if removesTurn (Some c) then (unitAt a)(changeKey c := Map.empty) else unitAt a)"
    using changeTurn_step [OF Cons.prems(1-4) _ run] Cons.prems(6) by simp
  have fresh: "changeAt cs (changeKey c) = None" using Cons.prems(5) by (simp add: changeAt_def map_of_eq_None_iff image_image)
  have "\<forall>t. \<forall>k \<in> set removed. unitAt a1 t k = None" using step Cons.prems(4) by simp
  moreover have "\<forall>c' \<in> set cs. changeOk a1 thread c'"
  proof
    fix c' assume c': "c' \<in> set cs"
    moreover have "changeKey c \<notin> changeKey ` set cs" using Cons.prems(5) by simp
    ultimately have "changeKey c' \<noteq> changeKey c" by (metis image_eqI)
    moreover have "changeOk a thread c'" using c' Cons.prems(6) by simp
    ultimately show "changeOk a1 thread c'" using step by (cases c') auto
  qed
  moreover have "fold (changeTurn removed) cs (a1, ds1) = (a', ds')" using Cons.prems(7) run by simp
  ultimately have rest: "indexOk thread a' \<and> deltasOk a0 a' ds' \<and> noUpserts a' ds' \<and> framed a1 a' \<and>
    (\<forall>t. viewTurn a' t = changedTo (changeAt cs t) (viewTurn a1 t)) \<and>
    (\<forall>t. unitAt a' t = (if removesTurn (changeAt cs t) then Map.empty else unitAt a1 t))"
    using Cons.IH [of a1 ds1] step Cons.prems(5) by simp
  have "changedTo (changeAt cs t) (viewTurn a1 t) = changedTo (changeAt (c # cs) t) (viewTurn a t)" for t
    using fresh step by (cases "t = changeKey c") (auto simp: changeAt_def)
  moreover have "(if removesTurn (changeAt cs t) then Map.empty else unitAt a1 t) =
      (if removesTurn (changeAt (c # cs) t) then Map.empty else unitAt a t)" for t
    using fresh step by (cases "t = changeKey c") (auto simp: changeAt_def)
  ultimately show ?case using rest step by (simp add: framed_def)
qed

section \<open>Changed units\<close>

definition unitIn :: "transcript_unit list \<Rightarrow> turn_id \<Rightarrow> utf16 \<Rightarrow> transcript_unit option" where
  "unitIn us t k = find (\<lambda>u. unTurnId u = t \<and> unKey u = k) us"

lemma upsertUnits_phase:
  assumes "indexOk thread a" "deltasOk a0 a ds" "distinct (map unKey us)"
    "\<forall>u \<in> set us. viewTurn a (unTurnId u) \<noteq> None \<and>
       (map_of (unitOwners a) (unKey u) = None \<or> map_of (unitOwners a) (unKey u) = Some (unTurnId u))"
    "fold upsertUnit us (a, ds) = (a', ds')"
  shows "indexOk thread a' \<and> deltasOk a0 a' ds' \<and> framed a a' \<and> viewTurn a' = viewTurn a \<and>
    (\<forall>t k. unitAt a' t k = (case unitIn us t k of None \<Rightarrow> unitAt a t k | Some u \<Rightarrow> Some u))"
  using assms
proof (induction us arbitrary: a ds)
  case Nil
  then show ?case by (simp add: framed_def unitIn_def)
next
  case (Cons u us)
  obtain a1 ds1 where run: "upsertUnit u (a, ds) = (a1, ds1)" by fastforce
  let ?t = "unTurnId u"
  have t: "viewTurn a ?t \<noteq> None" using Cons.prems(4) by simp
  note eff = upsertUnit_eff [OF t refl run]
  let ?d = "deltaFor a ds ?t"
  have "describes a0 a ?t ?d" using Cons.prems(2) by (simp add: deltasOk_def)
  then have "describes a0 a1 ?t (?d\<lparr>tdUpsert := tdUpsert ?d @ [u]\<rparr>)"
    using deltaUnits_upsert [of _ ?d u] by (simp add: describes_def eff)
  with Cons.prems(2) have "deltasOk a0 a1 ds1"
    unfolding eff(8) by (rule deltasOk_update) (simp add: eff)
  moreover have "indexOk thread a1" using upsertUnit_ok [OF Cons.prems(1) t run] Cons.prems(4) by simp
  moreover have "\<forall>v \<in> set us. viewTurn a1 (unTurnId v) \<noteq> None \<and>
       (map_of (unitOwners a1) (unKey v) = None \<or> map_of (unitOwners a1) (unKey v) = Some (unTurnId v))"
  proof
    fix v assume v: "v \<in> set us"
    moreover have "unKey u \<notin> unKey ` set us" using Cons.prems(3) by simp
    ultimately have "unKey v \<noteq> unKey u" by (metis image_eqI)
    with v Cons.prems(4) show "viewTurn a1 (unTurnId v) \<noteq> None \<and>
       (map_of (unitOwners a1) (unKey v) = None \<or> map_of (unitOwners a1) (unKey v) = Some (unTurnId v))"
      by (simp add: eff)
  qed
  moreover have "fold upsertUnit us (a1, ds1) = (a', ds')" using Cons.prems(5) run by simp
  ultimately have rest: "indexOk thread a' \<and> deltasOk a0 a' ds' \<and> framed a1 a' \<and> viewTurn a' = viewTurn a1 \<and>
    (\<forall>t k. unitAt a' t k = (case unitIn us t k of None \<Rightarrow> unitAt a1 t k | Some v \<Rightarrow> Some v))"
    using Cons.IH [of a1 ds1] Cons.prems(3) by simp
  have "unitIn us t (unKey u) = None" for t
  proof -
    have "unKey u \<notin> unKey ` set us" using Cons.prems(3) by simp
    then have "\<forall>x \<in> set us. unKey x \<noteq> unKey u" by (metis image_eqI)
    then show ?thesis by (simp add: unitIn_def find_None_iff)
  qed
  then have "(case unitIn us t k of None \<Rightarrow> unitAt a1 t k | Some v \<Rightarrow> Some v) =
      (case unitIn (u # us) t k of None \<Rightarrow> unitAt a t k | Some v \<Rightarrow> Some v)" for t k
    by (cases "k = unKey u") (auto simp: unitIn_def eff split: option.split)
  with rest show ?case by (simp add: framed_def eff)
qed

section \<open>A whole patch\<close>

lemma duplicateFrom_None: "duplicateFrom seen vs = None \<longleftrightarrow> distinct vs \<and> set vs \<inter> set seen = {}"
  by (induction vs arbitrary: seen) auto

lemma duplicateKey_None: "duplicateKey vs = None \<longleftrightarrow> distinct vs"
  by (simp add: duplicateKey_def duplicateFrom_None)

lemma checkNone_Inr: "checkNone found err = Inr u \<longleftrightarrow> found = None"
  by (simp add: checkNone_def split: option.split)

lemma traverse_ok: "(\<exists>us. traverseE f xs = Inr (us :: unit list)) \<longleftrightarrow> (\<forall>x \<in> set xs. f x = Inr ())"
  by (induction xs) (auto simp: bindE_Inr_iff)

lemma revisionError_Inr:
  "revisionError a p = Inr u \<longleftrightarrow> vpThreadId p = viewThreadId a \<and> vpBaseRevision p = currentRevision a \<and>
     vpRevision p = currentRevision a + 1"
  by (auto simp: revisionError_def Let_def)

lemma collectionError_Inr:
  "collectionError a p h = Inr u \<longleftrightarrow> distinct (map unKey (vpUpsert p)) \<and> distinct (vpRemove p) \<and>
     (\<forall>v \<in> set (vpUpsert p). unKey v \<notin> set (vpRemove p)) \<and> distinct (map changeKey (vpTurnChanges p)) \<and>
     thId (vhThread h) = viewThreadId a \<and> pendingOk h"
  by (auto simp: collectionError_def Let_def bindE_Inr_iff checkNone_Inr duplicateKey_None find_None_iff pendingOk_def
      split: if_splits)

lemma unitError_Inr:
  "unitError a p = Inr u \<longleftrightarrow> (\<forall>k \<in> set (vpRemove p). removeCheck a k = Inr ()) \<and>
     (\<forall>v \<in> set (vpUpsert p). upsertCheck a v = Inr ())"
  using traverse_ok [of "removeCheck a" "vpRemove p"] traverse_ok [of "upsertCheck a" "vpUpsert p"]
  by (simp add: unitError_def bindE_Inr_iff)

lemma changesOf_map: "distinct (map changeKey cs) \<Longrightarrow> map_of (changesOf cs) = changeAt cs"
proof -
  have "map_of (foldl (\<lambda>m c. AList.update (changeKey c) c m) m cs) = map_of m ++ changeAt cs"
    if "distinct (map changeKey cs)" for m
    using that
  proof (induction cs arbitrary: m)
    case (Cons c cs)
    then have "changeAt cs (changeKey c) = None"
      by (simp add: changeAt_def map_of_eq_None_iff image_image)
    with Cons show ?case by (auto simp: changeAt_def fun_eq_iff map_add_def split: option.splits)
  qed (simp add: changeAt_def [abs_def] fun_eq_iff)
  from this [of "[]"] show "distinct (map changeKey cs) \<Longrightarrow> map_of (changesOf cs) = changeAt cs"
    by (simp add: changesOf_def)
qed

definition accepted :: "view_patch \<Rightarrow> accumulator \<Rightarrow> bool" where
  "accepted p a \<longleftrightarrow> vpThreadId p = viewThreadId a \<and> vpBaseRevision p = currentRevision a \<and>
     vpRevision p = currentRevision a + 1 \<and>
     distinct (map unKey (vpUpsert p)) \<and> distinct (vpRemove p) \<and>
     (\<forall>v \<in> set (vpUpsert p). unKey v \<notin> set (vpRemove p)) \<and> distinct (map changeKey (vpTurnChanges p)) \<and>
     thId (vhThread (orDefault (currentHeader a) (vpHeader p))) = viewThreadId a \<and>
     pendingOk (orDefault (currentHeader a) (vpHeader p)) \<and>
     (\<forall>k \<in> set (vpRemove p). removeCheck a k = Inr ()) \<and> (\<forall>v \<in> set (vpUpsert p). upsertCheck a v = Inr ()) \<and>
     (\<forall>c \<in> set (vpTurnChanges p). turnChangeCheck a c = Inr ()) \<and>
     (\<forall>v \<in> set (vpUpsert p). upsertTurnCheck a (changesOf (vpTurnChanges p)) v = Inr ())"

definition phases :: "view_patch \<Rightarrow> accumulator \<Rightarrow> progress" where
  "phases p a = fold upsertUnit (vpUpsert p) (fold (changeTurn (vpRemove p)) (vpTurnChanges p)
     (fold removeUnit (vpRemove p) (a, [])))"

lemma applyPatch_Inr:
  "applyPatch p a = Inr r \<longleftrightarrow> accepted p a \<and> r =
     (\<lparr>vdRevision = vpRevision p, vdHeaderChanged = (vpHeader p \<noteq> None), vdTurns = snd (phases p a)\<rparr>,
      (fst (phases p a))\<lparr>currentHeader := orDefault (currentHeader a) (vpHeader p), currentRevision := vpRevision p\<rparr>)"
proof -
  have checks: "(\<exists>changes. turnChangesError a p = Inr changes \<and> upsertTurnError a p changes = Inr ()) \<longleftrightarrow>
     (\<forall>c \<in> set (vpTurnChanges p). turnChangeCheck a c = Inr ()) \<and>
     (\<forall>v \<in> set (vpUpsert p). upsertTurnCheck a (changesOf (vpTurnChanges p)) v = Inr ())"
    using traverse_ok [of "turnChangeCheck a" "vpTurnChanges p"]
      traverse_ok [of "upsertTurnCheck a (changesOf (vpTurnChanges p))" "vpUpsert p"]
    by (auto simp: turnChangesError_def upsertTurnError_def bindE_Inr_iff)
  show ?thesis
    unfolding applyPatch_def bindE_Inr_iff Let_def revisionError_Inr collectionError_Inr unitError_Inr accepted_def
    using checks by (cases "phases p a") (auto simp: phases_def)
qed

lemma view_present: "map_of (turnsById a) t = None \<longleftrightarrow> viewTurn a t = None"
  "(\<exists>y. map_of (turnsById a) t = Some y) \<longleftrightarrow> (\<exists>y. viewTurn a t = Some y)"
  "map_of (turnsById a) t = Some y \<Longrightarrow> \<exists>s. viewTurn a t = Some s"
  by (auto simp: viewTurn_def)

lemma phases_result:
  assumes ok: "accOk a" and acc: "accepted p a" and run: "phases p a = (b, ds)"
  shows "indexOk (viewThreadId a) b \<and> deltasOk a b ds \<and> framed a b \<and>
    (\<forall>t. viewTurn b t = changedTo (changeAt (vpTurnChanges p) t) (viewTurn a t)) \<and>
    (\<forall>t k. unitAt b t k = (case unitIn (vpUpsert p) t k of
       Some u \<Rightarrow> Some u
     | None \<Rightarrow> if k \<in> set (vpRemove p) \<or> removesTurn (changeAt (vpTurnChanges p) t) then None else unitAt a t k))"
proof -
  let ?thread = "viewThreadId a"
  obtain a1 ds1 where run1: "fold removeUnit (vpRemove p) (a, []) = (a1, ds1)" by fastforce
  obtain a2 ds2 where run2: "fold (changeTurn (vpRemove p)) (vpTurnChanges p) (a1, ds1) = (a2, ds2)" by fastforce
  have run3: "fold upsertUnit (vpUpsert p) (a2, ds2) = (b, ds)" using run run1 run2 by (simp add: phases_def)
  have start: "indexOk ?thread a" "deltasOk a a []" "noUpserts a []" using ok deltasOk_start by (simp_all add: accOk_def)
  have owned: "\<forall>k \<in> set (vpRemove p). map_of (unitOwners a) k \<noteq> None"
    using acc by (auto simp: accepted_def removeCheck_def split: if_splits)
  have dist: "distinct (vpRemove p)" "distinct (map changeKey (vpTurnChanges p))" "distinct (map unKey (vpUpsert p))"
    using acc by (simp_all add: accepted_def)
  have one: "indexOk ?thread a1" "deltasOk a a1 ds1" "noUpserts a1 ds1" "framed a a1" "viewTurn a1 = viewTurn a"
      "\<And>t. unitAt a1 t = unitAt a t |` (- set (vpRemove p))"
    using removeUnits_phase [OF start dist(1) owned run1] by simp_all
  have cs: "\<forall>c \<in> set (vpTurnChanges p). changeOk a1 ?thread c"
  proof
    fix c assume "c \<in> set (vpTurnChanges p)"
    then have "turnChangeCheck a c = Inr ()" using acc by (simp add: accepted_def)
    then show "changeOk a1 ?thread c" using one by (cases c) (auto simp: viewTurn_def Let_def split: if_splits)
  qed
  have none: "\<forall>t. \<forall>k \<in> set (vpRemove p). unitAt a1 t k = None" using one(6) by simp
  have two: "indexOk ?thread a2" "deltasOk a a2 ds2" "framed a1 a2"
      "\<And>t. viewTurn a2 t = changedTo (changeAt (vpTurnChanges p) t) (viewTurn a1 t)"
      "\<And>t. unitAt a2 t = (if removesTurn (changeAt (vpTurnChanges p) t) then Map.empty else unitAt a1 t)"
    using changeTurns_phase [OF one(1-3) none dist(2) cs run2] by simp_all
  have us: "\<forall>u \<in> set (vpUpsert p). viewTurn a2 (unTurnId u) \<noteq> None \<and>
      (map_of (unitOwners a2) (unKey u) = None \<or> map_of (unitOwners a2) (unKey u) = Some (unTurnId u))"
  proof
    fix u assume u: "u \<in> set (vpUpsert p)"
    have "upsertTurnCheck a (changesOf (vpTurnChanges p)) u = Inr ()" using acc u by (simp add: accepted_def)
    then have "viewTurn a2 (unTurnId u) \<noteq> None"
      by (auto simp: two(4) one(5) upsertTurnCheck_def changesOf_map [OF dist(2)] Let_def view_present
          split: option.splits turn_change.splits if_splits)
    moreover have "unTurnId u = t" if "map_of (unitOwners a2) (unKey u) = Some t" for t
    proof -
      have "unitAt a2 t (unKey u) \<noteq> None" using that two(1) owners_at [of a2 t "unKey u"] by (simp add: indexOk_def)
      then have "unitAt a t (unKey u) \<noteq> None" by (auto simp: two(5) one(6) restrict_map_def split: if_splits)
      then have "map_of (unitOwners a) (unKey u) = Some t" using start(1) owners_at [of a t "unKey u"] by (simp add: indexOk_def)
      moreover have "upsertCheck a u = Inr ()" using acc u by (simp add: accepted_def)
      ultimately show ?thesis by (auto simp: upsertCheck_def split: if_splits)
    qed
    ultimately show "viewTurn a2 (unTurnId u) \<noteq> None \<and>
      (map_of (unitOwners a2) (unKey u) = None \<or> map_of (unitOwners a2) (unKey u) = Some (unTurnId u))"
      by (cases "map_of (unitOwners a2) (unKey u)") auto
  qed
  have three: "indexOk ?thread b \<and> deltasOk a b ds \<and> framed a2 b \<and> viewTurn b = viewTurn a2 \<and>
      (\<forall>t k. unitAt b t k = (case unitIn (vpUpsert p) t k of None \<Rightarrow> unitAt a2 t k | Some u \<Rightarrow> Some u))"
    using upsertUnits_phase [OF two(1,2) dist(3) us run3] .
  have "unitAt a2 t k = (if k \<in> set (vpRemove p) \<or> removesTurn (changeAt (vpTurnChanges p) t) then None else unitAt a t k)" for t k
    by (simp add: two(5) one(6))
  with one(4,5) two(3,4) three show ?thesis by (simp add: framed_def split: option.split)
qed

section \<open>Views that can occur\<close>

lemma indexUnit_Inr:
  "indexUnit thread t u (units, owners) = Inr st \<longleftrightarrow>
     unTurnId u = t \<and> st = (AList.update (unKey u) u units, AList.update (unKey u) t owners)"
  by (auto simp: indexUnit_def)

lemma indexUnits:
  assumes "foldE (indexUnit thread t) us (units, owners) = Inr (units', owners')" "distinct (map unKey us)"
  shows "(\<forall>u \<in> set us. unTurnId u = t) \<and>
    (\<forall>k. map_of units' k = (case find (\<lambda>u. unKey u = k) us of None \<Rightarrow> map_of units k | Some u \<Rightarrow> Some u)) \<and>
    (\<forall>k. map_of owners' k = (if k \<in> unKey ` set us then Some t else map_of owners k))"
  using assms
proof (induction us arbitrary: units owners)
  case (Cons u us)
  from Cons.prems(1) have u: "unTurnId u = t"
    "foldE (indexUnit thread t) us (AList.update (unKey u) u units, AList.update (unKey u) t owners) = Inr (units', owners')"
    by (auto simp: bindE_Inr_iff indexUnit_Inr)
  have "unKey u \<notin> unKey ` set us" using Cons.prems(2) by simp
  then have "\<forall>x \<in> set us. unKey x \<noteq> unKey u" by (metis image_eqI)
  then have fresh: "find (\<lambda>x. unKey x = unKey u) us = None" by (simp add: find_None_iff)
  have "distinct (map unKey us)" using Cons.prems(2) by simp
  note rest = Cons.IH [OF u(2) this]
  show ?case
  proof (intro conjI allI)
    show "\<forall>v \<in> set (u # us). unTurnId v = t" using rest u(1) by simp
    show "map_of units' k = (case find (\<lambda>v. unKey v = k) (u # us) of None \<Rightarrow> map_of units k | Some v \<Rightarrow> Some v)" for k
      using rest fresh by (cases "unKey u = k") (auto split: option.split)
    show "map_of owners' k = (if k \<in> unKey ` set (u # us) then Some t else map_of owners k)" for k
      using rest by auto
  qed
qed simp

lemma find_key: "find (\<lambda>u. unKey u = k) us = None \<longleftrightarrow> k \<notin> unKey ` set us"
  by (auto simp: find_None_iff)

lemma find_keyD: "find (\<lambda>u. unKey u = k) us = Some u \<Longrightarrow> u \<in> set us \<and> unKey u = k"
  by (induction us) (auto split: if_splits)

definition unitsOf :: "view_turn list \<Rightarrow> transcript_unit list" where
  "unitsOf es = concat (map etUnits es)"

definition freshFor :: "view_turn list \<Rightarrow> accumulator \<Rightarrow> bool" where
  "freshFor es a \<longleftrightarrow> distinct (map (vtId \<circ> etTurn) es) \<and> distinct (map unKey (unitsOf es)) \<and>
     (\<forall>e \<in> set es. map_of (turnsById a) (vtId (etTurn e)) = None) \<and>
     (\<forall>u \<in> set (unitsOf es). map_of (unitOwners a) (unKey u) = None)"

lemma indexTurn_ok:
  assumes run: "indexTurn thread e a = Inr a'" and ok: "indexOk thread a" and fresh: "freshFor (e # es) a"
  shows "indexOk thread a' \<and> freshFor es a' \<and> framed a a'"
proof -
  let ?t = "vtId (etTurn e)"
  from run obtain units owners where thread: "vtThreadId (etTurn e) = thread"
    and idx: "foldE (indexUnit thread ?t) (etUnits e) ([], unitOwners a) = Inr (units, owners)"
    and a': "a' = a\<lparr>turnsById := AList.update ?t \<lparr>itState = turnState e, itUnits = units\<rparr> (turnsById a),
       unitOwners := owners,
       activeTurnIds := (if isActiveStatus (vtStatus (tsTurn (turnState e))) then addTo ?t (activeTurnIds a) else activeTurnIds a)\<rparr>"
    by (auto simp: indexTurn_def Let_def bindE_Inr_iff split: if_splits prod.splits)
  have distinct: "distinct (map unKey (etUnits e))" using fresh by (simp add: freshFor_def unitsOf_def)
  note units = indexUnits [OF idx distinct]
  have none: "map_of (turnsById a) ?t = None" using fresh by (simp add: freshFor_def)
  have views: "viewTurn a' = (viewTurn a)(?t \<mapsto> turnState e)" "unitAt a' = (unitAt a)(?t := map_of units)"
    by (auto simp: a' viewTurn_def unitAt_def fun_eq_iff)
  have here: "unitAt a' ?t k = None \<longleftrightarrow> k \<notin> unKey ` set (etUnits e)" for k
    using units find_key [of k "etUnits e"] by (auto simp: views split: option.split)
  have own: "map_of owners k = Some t \<longleftrightarrow> unitAt a' t k \<noteq> None" for k t
  proof (cases "t = ?t")
    case True
    have "map_of (unitOwners a) k \<noteq> Some ?t" using none ok owners_at [of a ?t k] by (auto simp: indexOk_def unitAt_def)
    with True units here [of k] show ?thesis by auto
  next
    case False
    have "unitAt a t k = None" if "k \<in> unKey ` set (etUnits e)"
      using that fresh ok owners_at [of a t k] by (auto simp: freshFor_def unitsOf_def indexOk_def)
    with False units ok owners_at [of a t k] show ?thesis by (auto simp: views indexOk_def)
  qed
  have entry: "unKey u = k \<and> unTurnId u = ?t" if "map_of units k = Some u" for k u
  proof -
    from that units have "find (\<lambda>u. unKey u = k) (etUnits e) = Some u" by (auto split: option.splits)
    then show ?thesis using find_keyD units by blast
  qed
  have "distinct (map fst (turnsById a'))" using ok by (simp add: a' indexOk_def turnsOk_def)
  then have "turnsOk thread a'" using ok thread entry by (simp add: indexOk_def turnsOk_def views turnState_def)
  moreover have "ownersOk a'" using own by (simp add: ownersOk_def a')
  moreover have "activeOk a'"
  proof -
    have "activeTurnIds a' = (if isActiveStatus (vtStatus (tsTurn (turnState e))) then addTo ?t (activeTurnIds a) else activeTurnIds a)"
      by (simp add: a')
    moreover have "viewTurn a ?t = None" using none by (simp add: viewTurn_def)
    ultimately show ?thesis using ok by (auto simp: indexOk_def activeOk_def views)
  qed
  moreover have "freshFor es a'"
  proof -
    have "unKey ` set (etUnits e) \<inter> unKey ` set (unitsOf es) = {}" using fresh by (auto simp: freshFor_def unitsOf_def)
    then have "\<forall>u \<in> set (unitsOf es). map_of (unitOwners a') (unKey u) = None"
      using fresh units by (auto simp: a' freshFor_def unitsOf_def)
    moreover have "\<forall>e' \<in> set es. map_of (turnsById a') (vtId (etTurn e')) = None"
    proof
      fix e' assume e': "e' \<in> set es"
      moreover have "?t \<notin> (vtId \<circ> etTurn) ` set es" using fresh by (simp add: freshFor_def)
      ultimately have "vtId (etTurn e') \<noteq> ?t" by (metis comp_apply image_eqI)
      with e' fresh show "map_of (turnsById a') (vtId (etTurn e')) = None" by (simp add: a' freshFor_def)
    qed
    ultimately show ?thesis using fresh by (simp add: freshFor_def unitsOf_def)
  qed
  ultimately show ?thesis by (simp add: indexOk_def framed_def a')
qed

lemma indexTurns_ok:
  "foldE (indexTurn thread) es a = Inr a' \<Longrightarrow> indexOk thread a \<Longrightarrow> freshFor es a \<Longrightarrow> indexOk thread a' \<and> framed a a'"
proof (induction es arbitrary: a)
  case (Cons e es)
  from Cons.prems(1) obtain b where b: "indexTurn thread e a = Inr b" "foldE (indexTurn thread) es b = Inr a'"
    by (auto simp: bindE_Inr_iff)
  from indexTurn_ok [OF b(1) Cons.prems(2,3)] Cons.IH [OF b(2)] show ?case by (simp add: framed_def)
qed (simp add: framed_def)

lemma fromSnapshot_ok:
  assumes "fromSnapshot s = Inr a"
  shows "accOk a \<and> currentHeader a = snHeader s \<and> currentRevision a = snRevision s"
proof -
  let ?thread = "thId (vhThread (snHeader s))"
  let ?start = "\<lparr>currentHeader = snHeader s, currentRevision = snRevision s, turnsById = [], unitOwners = [], activeTurnIds = []\<rparr>"
  from assms have run: "foldE (indexTurn ?thread) (snTurns s) ?start = Inr a"
    and distinct: "distinct (map (vtId \<circ> etTurn) (snTurns s))" "distinct (map unKey (unitsOf (snTurns s)))"
    and pending: "pendingOk (snHeader s)"
    by (auto simp: fromSnapshot_def Let_def bindE_Inr_iff checkNone_Inr duplicateKey_None pendingOk_def unitsOf_def split: if_splits)
  have "indexOk ?thread ?start"
    by (simp add: indexOk_def turnsOk_def ownersOk_def activeOk_def viewTurn_def unitAt_def)
  moreover have "freshFor (snTurns s) ?start" using distinct by (simp add: freshFor_def)
  ultimately have "indexOk ?thread a \<and> framed ?start a" using indexTurns_ok [OF run] by blast
  with pending show ?thesis by (simp add: accOk_def framed_def viewThreadId_def)
qed

lemma applyPatch_result:
  assumes ok: "accOk a" and run: "applyPatch p a = Inr (d, a')"
  shows "accOk a' \<and> currentRevision a' = currentRevision a + 1 \<and> viewThreadId a' = viewThreadId a \<and>
    deltasOk a a' (vdTurns d) \<and>
    (\<forall>t. viewTurn a' t = changedTo (changeAt (vpTurnChanges p) t) (viewTurn a t)) \<and>
    (\<forall>t k. unitAt a' t k = (case unitIn (vpUpsert p) t k of
       Some u \<Rightarrow> Some u
     | None \<Rightarrow> if k \<in> set (vpRemove p) \<or> removesTurn (changeAt (vpTurnChanges p) t) then None else unitAt a t k))"
proof -
  obtain b ds where phases: "phases p a = (b, ds)" by fastforce
  from run phases have acc: "accepted p a" and d: "vdTurns d = ds"
    and a': "a' = b\<lparr>currentHeader := orDefault (currentHeader a) (vpHeader p), currentRevision := vpRevision p\<rparr>"
    by (simp_all add: applyPatch_Inr)
  have same: "viewTurn a' = viewTurn b" "unitAt a' = unitAt b" by (simp_all add: a' viewTurn_def unitAt_def fun_eq_iff)
  have thread: "viewThreadId a' = viewThreadId a" using acc by (simp add: a' viewThreadId_def accepted_def)
  note result = phases_result [OF ok acc phases]
  then have "indexOk (viewThreadId a') a'"
    by (simp add: thread indexOk_def turnsOk_def ownersOk_def activeOk_def same) (simp add: a')
  moreover have "deltaFor a' ds t = deltaFor b ds t" for t by (simp add: deltaFor_def same split: option.split)
  then have "deltasOk a a' ds" using result by (simp add: deltasOk_def describes_def same)
  ultimately show ?thesis using result acc thread same d
    by (simp add: accOk_def accepted_def a')
qed

end
