(* ===== verification/View_Feed.thy ===== *)
theory View_Feed
  imports View_Patch
begin

text \<open>
  The feed that turns the events of a session into events for its client
  (packages/product/src/operation/interactive/view/thread.ts, thread-snapshot.ts,
  prompt-unit.ts).  The variables of the closure are the fields of a record; the clock is
  read at most once for an event and its reading is an argument.  Events that are only
  passed on carry their content as text, without the selection epoch the feed strips.
\<close>

section \<open>Projection changes\<close>

record projection_state =
  pjStatus :: status
  pjNeedsResolution :: "bool option"
  pjUsage :: usage_state
  pjPending :: "pending_steering list option"
  pjSettled :: "steering_disposition list option"

record projection_snapshot =
  pnBaseRevision :: "int option"
  pnRevision :: int
  pnCheckpoint :: "json option"
  pnUnits :: "transcript_unit list"
  pnHasOlder :: bool
  pnState :: projection_state

record projection_patch =
  ppBaseRevision :: int
  ppRevision :: int
  ppCheckpoint :: json
  ppUpsert :: "transcript_unit list"
  ppRemove :: "utf16 list"
  ppState :: projection_state

datatype projection_change = ProjectionSnapshot projection_snapshot | ProjectionPatch projection_patch

fun changedUnits :: "projection_change \<Rightarrow> transcript_unit list" where
  "changedUnits (ProjectionSnapshot s) = pnUnits s"
| "changedUnits (ProjectionPatch p) = ppUpsert p"

fun changeRevision :: "projection_change \<Rightarrow> int" where
  "changeRevision (ProjectionSnapshot s) = pnRevision s"
| "changeRevision (ProjectionPatch p) = ppRevision p"

fun changeCheckpoint :: "projection_change \<Rightarrow> json option" where
  "changeCheckpoint (ProjectionSnapshot s) = pnCheckpoint s"
| "changeCheckpoint (ProjectionPatch p) = Some (ppCheckpoint p)"

fun changeState :: "projection_change \<Rightarrow> projection_state" where
  "changeState (ProjectionSnapshot s) = pnState s"
| "changeState (ProjectionPatch p) = ppState p"

section \<open>Events\<close>

record page_entry =
  peTurn :: turn
  peUnit :: transcript_unit
  peRevision :: int
  peState :: projection_state

record selection =
  slThread :: thread_record
  slEntries :: "page_entry list"
  slHasOlder :: bool
  slHasNewer :: "bool option"
  slUsage :: view_usage
  slOldest :: "transcript_cursor option"
  slNewest :: "transcript_cursor option"
  slQueue :: "pending_turn list"
  slActiveTurn :: "turn option"
  slCheckpoints :: "(turn_id \<times> json) list"

datatype view_queue_change =
    QueueReset "pending_turn list"
  | QueueAdded pending_turn "nat option"
  | QueueEdited pending_turn
  | QueueRemoved turn_id
  | QueuePromoted turn

datatype notice = ContextDiagnostics | TurnRetryScheduled | ExecutionFailed | SubmissionRejected | ExecutionControlFailed
  | NoticeQueueFull | SubmissionAdmitted | ExecutionControlled | ThreadRefolding | ThreadsListed | AssistantCompleted
  | ShellCompleted | ThreadActivated | ThreadPreviewLoaded | ThreadPreviewFailed

datatype runtime_event =
    SelectionLoaded selection
  | ThreadTitled thread_id string
  | ExecutionProjectionChanged thread_id "turn option" projection_change
  | TurnStarted thread_id turn
  | TurnSettled thread_id turn_id status
  | QueueUpdated thread_id view_queue_change
  | ExecutionProjectionResyncRequired thread_id
  | ThreadViewResyncRequired thread_id
  | ExecutionModelPreviewChanged thread_id turn_id json
  | Notice notice "thread_id option" json

datatype client_event =
    ClientSnapshot view_snapshot
  | ClientPatch view_patch
  | ClientResync resync_required
  | ClientTitled thread_id string
  | ClientPreview thread_id turn_id json
  | ClientNotice notice "thread_id option" json

text \<open>The thread an event belongs to (operation/interactive/view/feed.ts).\<close>

fun runtimeEventThreadId :: "runtime_event \<Rightarrow> thread_id option" where
  "runtimeEventThreadId (SelectionLoaded e) = Some (thId (slThread e))"
| "runtimeEventThreadId (ThreadTitled thread _) = Some thread"
| "runtimeEventThreadId (ExecutionProjectionChanged thread _ _) = Some thread"
| "runtimeEventThreadId (TurnStarted thread _) = Some thread"
| "runtimeEventThreadId (TurnSettled thread _ _) = Some thread"
| "runtimeEventThreadId (QueueUpdated thread _) = Some thread"
| "runtimeEventThreadId (ExecutionProjectionResyncRequired thread) = Some thread"
| "runtimeEventThreadId (ThreadViewResyncRequired thread) = Some thread"
| "runtimeEventThreadId (ExecutionModelPreviewChanged thread _ _) = Some thread"
| "runtimeEventThreadId (Notice _ thread _) = thread"

section \<open>Snapshots of selections\<close>

fun turnId :: "turn \<Rightarrow> turn_id" where
  "turnId (AgentExecution t) = aId t"
| "turnId (RecordedShell t) = sId t"

fun turnPrompt :: "turn \<Rightarrow> string" where
  "turnPrompt (AgentExecution t) = aPrompt t"
| "turnPrompt (RecordedShell t) = sPrompt t"

definition promptUnit :: "turn \<Rightarrow> transcript_unit" where
  "promptUnit t =
     (let key = identityKey (plainText ''turn'') [TextComponent (plainText (turnId t)), TextComponent (plainText ''user'')]
      in \<lparr>unKey = key, unTurnId = turnId t, unParentId = None, unModelResponseId = None, unOrder = [Segment (- 1) 0 key],
          unRevision = 0, unOutcome = None, unContent = EntryContent RoleUser (turnPrompt t)\<rparr>)"

definition pendingItems :: "pending_turn list \<Rightarrow> pending_turn list" where
  "pendingItems items = take limitPending items"

definition firstEntry :: "page_entry \<Rightarrow> view_turn" where
  "firstEntry e = \<lparr>etTurn = (turnRecord (peTurn e))\<lparr>vtStatus := pjStatus (peState e)\<rparr>, etUnits = [peUnit e],
     etRevision = peRevision e, etUsage = pjUsage (peState e),
     etNeedsResolution = Some (pjNeedsResolution (peState e) = Some True),
     etPending = Some (orDefault [] (pjPending (peState e))), etSettled = Some (orDefault [] (pjSettled (peState e)))\<rparr>"

definition addEntry :: "page_entry \<Rightarrow> view_turn \<Rightarrow> view_turn" where
  "addEntry e g =
     (let g1 = g\<lparr>etUnits := etUnits g @ [peUnit e]\<rparr>;
          g2 = (if peRevision e \<ge> etRevision g
            then g1\<lparr>etUsage := pjUsage (peState e), etNeedsResolution := Some (pjNeedsResolution (peState e) = Some True),
              etPending := Some (orDefault [] (pjPending (peState e))), etSettled := Some (orDefault [] (pjSettled (peState e)))\<rparr>
            else g1)
      in g2\<lparr>etRevision := max (etRevision g) (peRevision e)\<rparr>)"

definition groupEntry :: "page_entry \<Rightarrow> (turn_id \<times> view_turn) list \<Rightarrow> (turn_id \<times> view_turn) list" where
  "groupEntry e grouped =
     (let t = turnId (peTurn e) in
      case map_of grouped t of
        None \<Rightarrow> AList.update t (firstEntry e) grouped
      | Some g \<Rightarrow> AList.update t (addEntry e g) grouped)"

definition activeEntry :: "turn \<Rightarrow> view_turn" where
  "activeEntry t = \<lparr>etTurn = turnRecord t, etUnits = [promptUnit t], etRevision = 0, etUsage = emptyUsageState,
     etNeedsResolution = Some False, etPending = Some [], etSettled = Some []\<rparr>"

definition orderedTurns :: "view_library \<Rightarrow> view_turn list \<Rightarrow> view_turn list" where
  "orderedTurns lib es = toSorted (\<lambda>l r. compareTurns lib (turnState l) (turnState r))
     (map (\<lambda>e. e\<lparr>etUnits := toSorted (compareUnits lib) (etUnits e)\<rparr>) es)"

text \<open>The schema of units admits only orders that can be encoded: the error is not reached.\<close>

definition unitOrderKey :: "transcript_unit \<Rightarrow> utf16" where
  "unitOrderKey u = (case encodeUnitOrder (unOrder u) of Inl _ \<Rightarrow> [] | Inr k \<Rightarrow> k)"

definition cursorAt :: "view_turn option \<Rightarrow> (transcript_unit list \<Rightarrow> transcript_unit) \<Rightarrow> transcript_cursor option" where
  "cursorAt e pick = map_option (\<lambda>e. \<lparr>tcCreatedAt = vtCreatedAt (etTurn e), tcTurnId = vtId (etTurn e),
     tcOrderKey = unitOrderKey (pick (etUnits e))\<rparr>) e"

definition projectionVersion :: int where
  "projectionVersion = 7"

definition sourceFor :: "view_turn list \<Rightarrow> transcript_cursor option \<Rightarrow> transcript_cursor option \<Rightarrow> view_source" where
  "sourceFor es oldest newest =
     (let filled = filter (\<lambda>e. etUnits e \<noteq> []) es;
          first = (if filled = [] then None else Some (hd filled)); final = (if filled = [] then None else Some (last filled))
      in \<lparr>vsVersion = projectionVersion, vsOldest = orElse oldest (cursorAt first hd),
          vsNewest = orElse newest (cursorAt final last)\<rparr>)"

definition snapshotFromSelection :: "view_library \<Rightarrow> selection \<Rightarrow> int \<Rightarrow> view_snapshot" where
  "snapshotFromSelection lib e numbered =
     (let grouped = fold groupEntry (slEntries e) [];
          grouped' = (case slActiveTurn e of
             Some t \<Rightarrow> if map_of grouped (turnId t) = None then AList.update (turnId t) (activeEntry t) grouped else grouped
           | None \<Rightarrow> grouped);
          entries = orderedTurns lib (map snd grouped')
      in \<lparr>snHeader = \<lparr>vhThread = slThread e, vhSource = sourceFor entries (slOldest e) (slNewest e),
            vhPending = pendingItems (slQueue e), vhHasOlder = slHasOlder e, vhHasNewer = orDefault False (slHasNewer e),
            vhUsage = slUsage e\<rparr>,
          snRevision = numbered, snTurns = entries\<rparr>)"

section \<open>The state of the feed\<close>

record view_feed =
  fdCurrent :: "accumulator option"
  fdSnapshotRequired :: bool
  fdKnownThread :: "thread_id option"
  fdRevisions :: "(turn_id \<times> int) list"
  fdUsage :: "(turn_id \<times> usage_state) list"
  fdCheckpoints :: "(turn_id \<times> json) list"
  fdTerminal :: "(turn_id \<times> status) list"

definition makeThreadViewFeed :: view_feed where
  "makeThreadViewFeed = \<lparr>fdCurrent = None, fdSnapshotRequired = False, fdKnownThread = None, fdRevisions = [], fdUsage = [],
     fdCheckpoints = [], fdTerminal = []\<rparr>"

definition trackedProjectionLimit :: nat where
  "trackedProjectionLimit = 64"

definition dropOldest :: "'a list \<Rightarrow> 'a list" where
  "dropOldest xs = drop (length xs - trackedProjectionLimit) xs"

definition rememberTerminal :: "turn_id \<Rightarrow> status \<Rightarrow> view_feed \<Rightarrow> view_feed" where
  "rememberTerminal t st fd = fd\<lparr>fdTerminal := dropOldest (AList.update t st (AList.delete t (fdTerminal fd)))\<rparr>"

fun evictProjections :: "(turn_id \<times> int) list \<Rightarrow> (turn_id \<times> usage_state) list \<Rightarrow>
    (turn_id \<times> int) list \<times> (turn_id \<times> usage_state) list" where
  "evictProjections [] us = ([], us)"
| "evictProjections ((t, r) # rs) us =
     (if length ((t, r) # rs) > trackedProjectionLimit then evictProjections rs (AList.delete t us) else ((t, r) # rs, us))"

definition rememberProjection :: "turn_id \<Rightarrow> int \<Rightarrow> usage_state \<Rightarrow> view_feed \<Rightarrow> view_feed" where
  "rememberProjection t r u fd =
     (case evictProjections (AList.update t r (AList.delete t (fdRevisions fd))) (AList.update t u (AList.delete t (fdUsage fd))) of
        (rs, us) \<Rightarrow> fd\<lparr>fdRevisions := rs, fdUsage := us\<rparr>)"

definition rememberEntry :: "view_turn \<Rightarrow> view_feed \<Rightarrow> view_feed" where
  "rememberEntry e fd =
     (let t = vtId (etTurn e); terminal = isTerminalStatus (vtStatus (etTurn e));
          fd1 = (if terminal then rememberTerminal t (vtStatus (etTurn e)) fd else fd);
          tracked = (map_of (fdRevisions fd1) t \<noteq> None \<or> \<not> terminal)
      in if \<not> tracked then fd1
         else case map_of (fdRevisions fd1) t of
           None \<Rightarrow> rememberProjection t (etRevision e) (etUsage e) fd1
         | Some r \<Rightarrow> if etRevision e \<ge> r then rememberProjection t (etRevision e) (etUsage e) fd1 else fd1)"

definition remember :: "view_snapshot \<Rightarrow> view_feed \<Rightarrow> view_feed" where
  "remember s fd =
     (let thread = thId (vhThread (snHeader s));
          fd1 = (if fdKnownThread fd \<noteq> Some thread
            then fd\<lparr>fdKnownThread := Some thread, fdRevisions := [], fdUsage := [], fdCheckpoints := [], fdTerminal := []\<rparr>
            else fd)
      in fold rememberEntry (snTurns s) fd1)"

definition resyncFor :: "thread_id \<Rightarrow> int \<Rightarrow> int \<Rightarrow> client_event" where
  "resyncFor thread held received = ClientResync \<lparr>rsThreadId = thread, rsExpectedRevision = held + 1,
     rsReceivedBaseRevision = received, rsCurrentRevision = held\<rparr>"

definition settleEntry :: "(turn_id \<times> status) list \<Rightarrow> view_turn \<Rightarrow> view_turn" where
  "settleEntry known e =
     (case map_of known (vtId (etTurn e)) of
        None \<Rightarrow> e
      | Some st \<Rightarrow> e\<lparr>etTurn := (etTurn e)\<lparr>vtStatus := st\<rparr>\<rparr>)"

definition replaceView :: "view_snapshot \<Rightarrow> view_feed \<Rightarrow> client_event list \<times> view_feed" where
  "replaceView incoming fd =
     (let s = incoming\<lparr>snTurns := map (settleEntry (fdTerminal fd)) (snTurns incoming)\<rparr> in
      case fromSnapshot s of
        Inl _ \<Rightarrow> ([resyncFor (thId (vhThread (snHeader s))) (snRevision s) (snRevision s)],
          fd\<lparr>fdCurrent := None, fdSnapshotRequired := True\<rparr>)
      | Inr a \<Rightarrow> ([ClientSnapshot s], (remember s (fd\<lparr>fdCurrent := Some a\<rparr>))\<lparr>fdSnapshotRequired := False\<rparr>))"

definition publishPatch :: "view_patch \<Rightarrow> view_feed \<Rightarrow> client_event list \<times> view_feed" where
  "publishPatch p fd =
     (case fdCurrent fd of
        None \<Rightarrow> ([], fd)
      | Some a \<Rightarrow>
          if fdSnapshotRequired fd then ([], fd)
          else (case applyPatch p a of
             Inl _ \<Rightarrow> ([resyncFor (viewThreadId a) (currentRevision a) (vpBaseRevision p)], fd\<lparr>fdSnapshotRequired := True\<rparr>)
           | Inr (_, a') \<Rightarrow> ([ClientPatch p], fd\<lparr>fdCurrent := Some a'\<rparr>)))"

definition nextPatch :: "transcript_unit list \<Rightarrow> utf16 list \<Rightarrow> turn_change list \<Rightarrow> view_header option \<Rightarrow> view_feed \<Rightarrow>
    client_event list \<times> view_feed" where
  "nextPatch upsert remove changes header fd =
     (case fdCurrent fd of
        None \<Rightarrow> ([], fd)
      | Some a \<Rightarrow>
          if fdSnapshotRequired fd then ([], fd)
          else publishPatch \<lparr>vpThreadId = viewThreadId a, vpBaseRevision = currentRevision a,
            vpRevision = currentRevision a + 1, vpUpsert = upsert, vpRemove = remove, vpTurnChanges = changes,
            vpHeader = header\<rparr> fd)"

section \<open>Projections\<close>

definition requiresProjectionCheckpoint :: "projection_change \<Rightarrow> transcript_unit list \<Rightarrow> bool" where
  "requiresProjectionCheckpoint change units \<longleftrightarrow> changeCheckpoint change = None \<and>
     list_ex (\<lambda>u. case unContent u of AuthorizationCard _ st \<Rightarrow> st = AuthPending | _ \<Rightarrow> False) units"

definition projectionTurnId :: "turn option \<Rightarrow> transcript_unit list \<Rightarrow> turn_id option" where
  "projectionTurnId t units =
     (case t of
        Some t \<Rightarrow> Some (turnId t)
      | None \<Rightarrow> if units = [] then None else Some (unTurnId (hd units)))"

definition resyncNow :: "accumulator \<Rightarrow> view_feed \<Rightarrow> client_event list \<times> view_feed" where
  "resyncNow a fd = ([resyncFor (viewThreadId a) (currentRevision a) (currentRevision a)], fd\<lparr>fdSnapshotRequired := True\<rparr>)"

definition projectionUpsert :: "view_turn_record \<Rightarrow> projection_change \<Rightarrow> turn_change" where
  "projectionUpsert record change = UpsertTurn \<lparr>tuTurn = record, tuRevision = changeRevision change,
     tuUsage = pjUsage (changeState change), tuNeedsResolution = Some (orDefault False (pjNeedsResolution (changeState change))),
     tuPending = Some (orDefault [] (pjPending (changeState change))),
     tuSettled = Some (orDefault [] (pjSettled (changeState change)))\<rparr>"

definition removedKeys :: "view_library \<Rightarrow> accumulator \<Rightarrow> turn_id \<Rightarrow> projection_change \<Rightarrow> utf16 list" where
  "removedKeys lib a t change =
     (case change of
        ProjectionSnapshot s \<Rightarrow>
          if pnHasOlder s then []
          else map unKey (filter (\<lambda>u. unKey u \<notin> unKey ` set (pnUnits s)) (viewUnits lib a t))
      | ProjectionPatch p \<Rightarrow> ppRemove p)"

definition acceptedProjection :: "turn_id \<Rightarrow> projection_change \<Rightarrow> client_event list \<times> view_feed \<Rightarrow> client_event list \<times> view_feed" where
  "acceptedProjection t change r = (case r of (events, fd) \<Rightarrow>
     if list_all (\<lambda>e. case e of ClientResync _ \<Rightarrow> False | _ \<Rightarrow> True) events
     then let fd1 = rememberProjection t (changeRevision change) (pjUsage (changeState change)) fd in
       (events, case changeCheckpoint change of
          None \<Rightarrow> fd1
        | Some c \<Rightarrow> fd1\<lparr>fdCheckpoints := AList.update t c (fdCheckpoints fd1)\<rparr>)
     else (events, fd))"

fun baseAccepted :: "projection_change \<Rightarrow> int option \<Rightarrow> bool" where
  "baseAccepted (ProjectionSnapshot _) known \<longleftrightarrow> True"
| "baseAccepted (ProjectionPatch p) known \<longleftrightarrow> known = Some (ppBaseRevision p)"

fun isProjectionSnapshot :: "projection_change \<Rightarrow> bool" where
  "isProjectionSnapshot (ProjectionSnapshot _) \<longleftrightarrow> True"
| "isProjectionSnapshot (ProjectionPatch _) \<longleftrightarrow> False"

text \<open>An unknown turn is inserted only when the event carries it: the last case is not reached.\<close>

fun projectedRecord :: "time \<Rightarrow> turn_state option \<Rightarrow> turn option \<Rightarrow> status \<Rightarrow> view_turn_record option" where
  "projectedRecord now existing (Some t) st = Some ((turnRecord t)\<lparr>vtStatus := st\<rparr>)"
| "projectedRecord now (Some s) None st = Some ((tsTurn s)\<lparr>vtStatus := st, vtUpdatedAt := now\<rparr>)"
| "projectedRecord now None None st = None"

definition projectionChanged :: "view_library \<Rightarrow> time \<Rightarrow> thread_id \<Rightarrow> turn option \<Rightarrow> projection_change \<Rightarrow> view_feed \<Rightarrow>
    client_event list \<times> view_feed" where
  "projectionChanged lib now thread t change fd =
     (case fdCurrent fd of
        None \<Rightarrow> ([], fd)
      | Some view \<Rightarrow>
          if thread \<noteq> viewThreadId view then ([], fd)
          else let units = changedUnits change in
          if requiresProjectionCheckpoint change units then resyncNow view fd
          else (case projectionTurnId t units of
             None \<Rightarrow> resyncNow view fd
           | Some key \<Rightarrow>
               let existing = viewTurn view key;
                   known = orElse (map_of (fdRevisions fd) key) (map_option tsRevision existing);
                   status = orDefault (pjStatus (changeState change)) (map_of (fdTerminal fd) key);
                   hasNewer = vhHasNewer (currentHeader view);
                   offWindow = (existing = None \<and> hasNewer \<and> known \<noteq> None);
                   canInsert = (existing = None \<and> \<not> hasNewer \<and> t \<noteq> None \<and> isProjectionSnapshot change)
               in if \<not> (existing \<noteq> None \<or> offWindow \<or> canInsert) then resyncNow view fd
               else if \<not> baseAccepted change known then resyncNow view fd
               else let previous = orElse (map_of (fdUsage fd) key) (map_option tsUsage existing);
                        header = (currentHeader view)\<lparr>vhUsage := nextUsage lib (vhUsage (currentHeader view)) previous
                          (pjUsage (changeState change)) t\<rparr>
               in if existing = None \<and> offWindow then acceptedProjection key change (nextPatch [] [] [] (Some header) fd)
               else (case projectedRecord now existing t status of
                  None \<Rightarrow> ([], fd)
                | Some record \<Rightarrow> acceptedProjection key change
                    (nextPatch units (if existing = None then [] else removedKeys lib view key change)
                      [projectionUpsert record change] (Some header) fd))))"

section \<open>The other events\<close>

definition startUpsert :: "turn \<Rightarrow> status \<Rightarrow> turn_change" where
  "startUpsert t st = UpsertTurn \<lparr>tuTurn = (turnRecord t)\<lparr>vtStatus := st\<rparr>, tuRevision = 0, tuUsage = emptyUsageState,
     tuNeedsResolution = None, tuPending = Some [], tuSettled = Some []\<rparr>"

definition startStatus :: "turn \<Rightarrow> view_feed \<Rightarrow> status" where
  "startStatus t fd = orDefault (vtStatus (turnRecord t)) (map_of (fdTerminal fd) (turnId t))"

definition turnStarted :: "thread_id \<Rightarrow> turn \<Rightarrow> view_feed \<Rightarrow> client_event list \<times> view_feed" where
  "turnStarted thread t fd =
     (case fdCurrent fd of
        None \<Rightarrow> ([], fd)
      | Some a \<Rightarrow>
          if thread \<noteq> viewThreadId a then ([], fd)
          else if viewTurn a (turnId t) \<noteq> None then ([], fd)
          else if vhHasNewer (currentHeader a) then ([], rememberProjection (turnId t) 0 emptyUsageState fd)
          else nextPatch [promptUnit t] [] [startUpsert t (startStatus t fd)] None fd)"

definition turnSettled :: "time \<Rightarrow> thread_id \<Rightarrow> turn_id \<Rightarrow> status \<Rightarrow> view_feed \<Rightarrow> client_event list \<times> view_feed" where
  "turnSettled now thread t st fd =
     (case fdCurrent fd of
        None \<Rightarrow> ([], fd)
      | Some a \<Rightarrow>
          if thread \<noteq> viewThreadId a then ([], fd)
          else let fd1 = rememberTerminal t st fd;
                   fd2 = fd1\<lparr>fdRevisions := AList.delete t (fdRevisions fd1), fdUsage := AList.delete t (fdUsage fd1)\<rparr>
          in case viewTurn a t of
               None \<Rightarrow> ([], fd2)
             | Some s \<Rightarrow> nextPatch [] []
                 [UpsertTurn \<lparr>tuTurn = (tsTurn s)\<lparr>vtStatus := st, vtUpdatedAt := now\<rparr>, tuRevision = tsRevision s,
                    tuUsage = tsUsage s, tuNeedsResolution = None, tuPending = Some (tsPending s),
                    tuSettled = Some (tsSettled s)\<rparr>] None fd2)"

definition insertAt :: "nat \<Rightarrow> 'a \<Rightarrow> 'a list \<Rightarrow> 'a list" where
  "insertAt n x xs = take n xs @ x # drop n xs"

fun changedQueue :: "view_queue_change \<Rightarrow> pending_turn list \<Rightarrow> pending_turn list" where
  "changedQueue (QueueReset items) _ = pendingItems items"
| "changedQueue (QueueAdded item position) items =
     pendingItems (insertAt (min (orDefault (length items) position) (length items)) item items)"
| "changedQueue (QueueEdited item) items = pendingItems (map (\<lambda>i. if pdId i = pdId item then item else i) items)"
| "changedQueue (QueueRemoved t) items = filter (\<lambda>i. pdId i \<noteq> t) items"
| "changedQueue (QueuePromoted t) items = filter (\<lambda>i. pdId i \<noteq> turnId t) items"

definition queueUpdated :: "thread_id \<Rightarrow> view_queue_change \<Rightarrow> view_feed \<Rightarrow> client_event list \<times> view_feed" where
  "queueUpdated thread change fd =
     (case fdCurrent fd of
        None \<Rightarrow> ([], fd)
      | Some a \<Rightarrow>
          if thread \<noteq> viewThreadId a then ([], fd)
          else let header = (currentHeader a)\<lparr>vhPending := changedQueue change (vhPending (currentHeader a))\<rparr> in
          (case change of
             QueuePromoted t \<Rightarrow>
               if vhHasNewer (currentHeader a)
               then nextPatch [] [] [] (Some header) (rememberProjection (turnId t) 0 emptyUsageState fd)
               else nextPatch [promptUnit t] [] [startUpsert t (startStatus t fd)] (Some header) fd
           | _ \<Rightarrow> nextPatch [] [] [] (Some header) fd))"

definition selectionLoaded :: "view_library \<Rightarrow> selection \<Rightarrow> view_feed \<Rightarrow> client_event list \<times> view_feed" where
  "selectionLoaded lib e fd =
     (let following = (case fdCurrent fd of
          Some a \<Rightarrow> if viewThreadId a = thId (slThread e) then currentRevision a + 1 else 0
        | None \<Rightarrow> 0)
      in case replaceView (snapshotFromSelection lib e following) fd of
           (events, fd1) \<Rightarrow>
             (events, if fdSnapshotRequired fd1 then fd1
               else fd1\<lparr>fdCheckpoints := fold (\<lambda>(t, c). AList.update t c) (slCheckpoints e) (fdCheckpoints fd1)\<rparr>))"

definition threadTitled :: "thread_id \<Rightarrow> string \<Rightarrow> view_feed \<Rightarrow> client_event list \<times> view_feed" where
  "threadTitled thread title fd =
     (case fdCurrent fd of
        None \<Rightarrow> ([ClientTitled thread title], fd)
      | Some a \<Rightarrow>
          if thread \<noteq> viewThreadId a then ([ClientTitled thread title], fd)
          else nextPatch [] [] [] (Some ((currentHeader a)\<lparr>vhThread := (vhThread (currentHeader a))\<lparr>thTitle := title\<rparr>\<rparr>)) fd)"

definition resyncRequested :: "thread_id \<Rightarrow> view_feed \<Rightarrow> client_event list \<times> view_feed" where
  "resyncRequested thread fd =
     (case fdCurrent fd of
        None \<Rightarrow> ([], fd)
      | Some a \<Rightarrow> if thread \<noteq> viewThreadId a then ([], fd) else resyncNow a fd)"

definition previewChanged :: "thread_id \<Rightarrow> turn_id \<Rightarrow> json \<Rightarrow> view_feed \<Rightarrow> client_event list" where
  "previewChanged thread t content fd =
     (case fdCurrent fd of
        None \<Rightarrow> []
      | Some a \<Rightarrow> if thread = viewThreadId a then [ClientPreview thread t content] else [])"

fun publish :: "view_library \<Rightarrow> time \<Rightarrow> runtime_event \<Rightarrow> view_feed \<Rightarrow> client_event list \<times> view_feed" where
  "publish lib now (SelectionLoaded e) fd = selectionLoaded lib e fd"
| "publish lib now (ThreadTitled thread title) fd = threadTitled thread title fd"
| "publish lib now (ExecutionProjectionChanged thread t change) fd = projectionChanged lib now thread t change fd"
| "publish lib now (TurnStarted thread t) fd = turnStarted thread t fd"
| "publish lib now (TurnSettled thread t st) fd = turnSettled now thread t st fd"
| "publish lib now (QueueUpdated thread change) fd = queueUpdated thread change fd"
| "publish lib now (ExecutionProjectionResyncRequired thread) fd = resyncRequested thread fd"
| "publish lib now (ThreadViewResyncRequired thread) fd = resyncRequested thread fd"
| "publish lib now (ExecutionModelPreviewChanged thread t content) fd = (previewChanged thread t content fd, fd)"
| "publish lib now (Notice n thread content) fd = ([ClientNotice n thread content], fd)"

definition currentView :: "view_library \<Rightarrow> view_feed \<Rightarrow> view_snapshot option" where
  "currentView lib fd = map_option (snapshotOf lib) (fdCurrent fd)"

end
