(* ===== verification/View_Mirror.thy ===== *)
theory View_Mirror
  imports View_Feed "HOL-Library.Multiset"
begin

text \<open>
  Copies of a view: what a view shows does not depend on the order of its indexes, a view that
  was taken down as a snapshot and loaded again shows the same, and patches act alike on views
  that show the same.
\<close>

section \<open>Units are listed once\<close>

definition unitsDistinct :: "accumulator \<Rightarrow> bool" where
  "unitsDistinct a \<longleftrightarrow> (\<forall>t it. map_of (turnsById a) t = Some it \<longrightarrow> distinct (map fst (itUnits it)))"

lemma removeUnit_distinct: "unitsDistinct (fst st) \<Longrightarrow> unitsDistinct (fst (removeUnit k st))"
  by (cases st) (auto simp: removeUnit_def unitsDistinct_def Let_def split: option.splits)

lemma changeTurn_distinct: "unitsDistinct (fst st) \<Longrightarrow> unitsDistinct (fst (changeTurn removed c st))"
  by (cases st; cases c) (auto simp: unitsDistinct_def Let_def split: option.splits)

lemma upsertUnit_distinct: "unitsDistinct (fst st) \<Longrightarrow> unitsDistinct (fst (upsertUnit u st))"
  by (cases st) (auto simp: upsertUnit_def unitsDistinct_def Let_def split: option.splits)

lemma fold_keeps: "(\<And>x st. P (fst st) \<Longrightarrow> P (fst (f x st))) \<Longrightarrow> P (fst st) \<Longrightarrow> P (fst (fold f xs st))"
  by (induction xs arbitrary: st) auto

lemma phases_distinct: "unitsDistinct a \<Longrightarrow> unitsDistinct (fst (phases p a))"
  unfolding phases_def
  by (intro fold_keeps [where P = unitsDistinct] removeUnit_distinct changeTurn_distinct upsertUnit_distinct) simp_all

lemma indexUnits_distinct:
  "foldE (indexUnit thread t) us (units, owners) = Inr (units', owners') \<Longrightarrow> distinct (map fst units) \<Longrightarrow>
     distinct (map fst units')"
  by (induction us arbitrary: units owners) (auto simp: bindE_Inr_iff indexUnit_Inr)

lemma indexTurns_distinct:
  "foldE (indexTurn thread) es a = Inr a' \<Longrightarrow> unitsDistinct a \<Longrightarrow> unitsDistinct a'"
proof (induction es arbitrary: a)
  case (Cons e es)
  from Cons.prems(1) obtain b where b: "indexTurn thread e a = Inr b" "foldE (indexTurn thread) es b = Inr a'"
    by (auto simp: bindE_Inr_iff)
  from b(1) Cons.prems(2) have "unitsDistinct b"
    by (auto simp: indexTurn_def Let_def bindE_Inr_iff unitsDistinct_def split: if_splits prod.splits
        dest!: indexUnits_distinct)
  with Cons.IH [OF b(2)] show ?case .
qed simp

definition viewOk :: "accumulator \<Rightarrow> bool" where
  "viewOk a \<longleftrightarrow> accOk a \<and> unitsDistinct a"

lemma viewOk_load: "fromSnapshot s = Inr a \<Longrightarrow> viewOk a"
  using fromSnapshot_ok [of s a]
  by (auto simp: viewOk_def fromSnapshot_def Let_def bindE_Inr_iff unitsDistinct_def split: if_splits
      dest: indexTurns_distinct)

lemma viewOk_patch: "viewOk a \<Longrightarrow> applyPatch p a = Inr (d, a') \<Longrightarrow> viewOk a'"
  using applyPatch_result [of a p d a'] phases_distinct [of a p]
  by (auto simp: viewOk_def applyPatch_Inr unitsDistinct_def)

section \<open>Views that show the same\<close>

definition sameView :: "accumulator \<Rightarrow> accumulator \<Rightarrow> bool" where
  "sameView a b \<longleftrightarrow> currentHeader a = currentHeader b \<and> currentRevision a = currentRevision b \<and>
     viewTurn a = viewTurn b \<and> unitAt a = unitAt b"

lemma owner_view: "ownersOk a \<Longrightarrow> map_of (unitOwners a) k = Some t \<longleftrightarrow> unitAt a t k \<noteq> None"
  by (simp add: ownersOk_def)

lemma owners_same:
  assumes "ownersOk a" "ownersOk b" "unitAt a = unitAt b"
  shows "map_of (unitOwners a) k = map_of (unitOwners b) k"
proof -
  have "map_of (unitOwners a) k = Some t \<longleftrightarrow> map_of (unitOwners b) k = Some t" for t
    using assms by (simp add: owner_view)
  then show ?thesis by (metis not_Some_eq)
qed

lemma bind_unitAt: "Option.bind (map_of (turnsById a) t) (\<lambda>it. map_of (itUnits it) k) = unitAt a t k"
  by (simp add: unitAt_def split: option.split)

lemma turnChangeCheck_view:
  "turnChangeCheck a c = (case c of
     RemoveTurn t \<Rightarrow> if viewTurn a t = None then Inl (invalidError (viewThreadId a) MissingTurn (Some (TurnKey t))) else Inr ()
   | UpsertTurn c \<Rightarrow>
       if vtThreadId (tuTurn c) \<noteq> viewThreadId a
       then Inl (invalidError (viewThreadId a) TurnThreadMismatch (Some (TurnKey (vtId (tuTurn c)))))
       else (case viewTurn a (vtId (tuTurn c)) of
          None \<Rightarrow> Inr ()
        | Some s \<Rightarrow> if tuRevision c < tsRevision s
            then Inl (invalidError (viewThreadId a) ProjectionRevisionRegressed (Some (TurnKey (vtId (tuTurn c)))))
            else Inr ()))"
  by (cases c) (auto simp: viewTurn_def Let_def split: option.split)

lemma accepted_same:
  assumes "accOk a" "accOk b" "sameView a b"
  shows "accepted p a = accepted p b"
proof -
  have own: "map_of (unitOwners a) k = map_of (unitOwners b) k" for k
    using assms owners_same by (simp add: accOk_def indexOk_def sameView_def)
  have thread: "viewThreadId a = viewThreadId b" using assms(3) by (simp add: sameView_def viewThreadId_def)
  have units: "unitAt a = unitAt b" and turns: "viewTurn a = viewTurn b"
    and "currentHeader a = currentHeader b" "currentRevision a = currentRevision b" using assms(3) by (simp_all add: sameView_def)
  moreover have "removeCheck a = removeCheck b" by (simp add: removeCheck_def fun_eq_iff own thread)
  moreover have "upsertCheck a = upsertCheck b"
  proof
    fix u show "upsertCheck a u = upsertCheck b u"
      by (cases "map_of (unitOwners b) (unKey u)") (simp_all add: upsertCheck_def own thread bind_unitAt units split: option.split)
  qed
  moreover have "turnChangeCheck a = turnChangeCheck b"
  proof
    fix c show "turnChangeCheck a c = turnChangeCheck b c"
      by (cases c) (simp_all add: turnChangeCheck_view thread turns split: option.split)
  qed
  moreover have "upsertTurnCheck a cs = upsertTurnCheck b cs" for cs
  proof -
    have none: "map_of (turnsById a) t = None \<longleftrightarrow> map_of (turnsById b) t = None" for t
      using turns by (simp add: view_present(1))
    show ?thesis by (rule ext) (simp only: upsertTurnCheck_def none thread)
  qed
  ultimately show ?thesis by (simp add: accepted_def thread)
qed

lemma applyPatch_same:
  assumes a: "accOk a" and b: "accOk b" and same: "sameView a b" and run: "applyPatch p a = Inr (d, a')"
  shows "\<exists>d' b'. applyPatch p b = Inr (d', b') \<and> sameView a' b'"
proof -
  have acc: "accepted p a" using run by (simp add: applyPatch_Inr)
  then have "accepted p b" using accepted_same [OF a b same] by simp
  then obtain d' b' where run': "applyPatch p b = Inr (d', b')" by (simp add: applyPatch_Inr)
  have turns: "viewTurn a = viewTurn b" "unitAt a = unitAt b" using same by (simp_all add: sameView_def)
  have "currentHeader a' = currentHeader b'" "currentRevision a' = currentRevision b'"
    using run run' same by (simp_all add: applyPatch_Inr sameView_def)
  moreover have "viewTurn a' t = viewTurn b' t" for t
    using applyPatch_result [OF a run] applyPatch_result [OF b run'] turns(1) by simp
  moreover have "unitAt a' t k = unitAt b' t k" for t k
    using applyPatch_result [OF a run] applyPatch_result [OF b run'] turns(2) by (simp split: option.split)
  ultimately have "sameView a' b'" by (simp add: sameView_def fun_eq_iff)
  with run' show ?thesis by blast
qed

section \<open>Loading a snapshot\<close>

definition snapshotWell :: "view_snapshot \<Rightarrow> bool" where
  "snapshotWell s \<longleftrightarrow> distinct (map (vtId \<circ> etTurn) (snTurns s)) \<and> distinct (map unKey (unitsOf (snTurns s))) \<and>
     pendingOk (snHeader s) \<and>
     (\<forall>e \<in> set (snTurns s). vtThreadId (etTurn e) = thId (vhThread (snHeader s)) \<and>
        (\<forall>u \<in> set (etUnits e). unTurnId u = vtId (etTurn e)))"

lemma indexUnits_total: "\<forall>u \<in> set us. unTurnId u = t \<Longrightarrow> \<exists>st'. foldE (indexUnit thread t) us st = Inr st'"
  by (induction us arbitrary: st) (auto simp: bindE_Inr_iff indexUnit_def split_def)

lemma indexTurns_total:
  "\<forall>e \<in> set es. vtThreadId (etTurn e) = thread \<and> (\<forall>u \<in> set (etUnits e). unTurnId u = vtId (etTurn e)) \<Longrightarrow>
     \<exists>a'. foldE (indexTurn thread) es a = Inr a'"
proof (induction es arbitrary: a)
  case (Cons e es)
  then obtain units owners where
    "foldE (indexUnit thread (vtId (etTurn e))) (etUnits e) ([], unitOwners a) = Inr (units, owners)"
    using indexUnits_total [of "etUnits e" "vtId (etTurn e)" thread "([], unitOwners a)"] by auto
  with Cons.prems obtain b where "indexTurn thread e a = Inr b" by (auto simp: indexTurn_def bindE_Inr_iff Let_def)
  with Cons show ?case by (auto simp: bindE_Inr_iff)
qed simp

lemma fromSnapshot_total: "snapshotWell s \<Longrightarrow> \<exists>a. fromSnapshot s = Inr a"
  using indexTurns_total [of "snTurns s" "thId (vhThread (snHeader s))"]
  by (simp add: fromSnapshot_def Let_def bindE_Inr_iff checkNone_Inr duplicateKey_None snapshotWell_def pendingOk_def
      unitsOf_def comp_def)

definition entryFor :: "view_turn list \<Rightarrow> turn_id \<Rightarrow> view_turn option" where
  "entryFor es t = find (\<lambda>e. vtId (etTurn e) = t) es"

definition entryUnit :: "view_turn \<Rightarrow> utf16 \<Rightarrow> transcript_unit option" where
  "entryUnit e k = find (\<lambda>u. unKey u = k) (etUnits e)"

lemma indexTurn_lookup:
  assumes run: "indexTurn thread e a = Inr a'" and distinct: "distinct (map unKey (etUnits e))"
  shows "viewTurn a' = (viewTurn a)(vtId (etTurn e) \<mapsto> turnState e)"
    "unitAt a' = (unitAt a)(vtId (etTurn e) := entryUnit e)"
proof -
  from run obtain units owners where
    idx: "foldE (indexUnit thread (vtId (etTurn e))) (etUnits e) ([], unitOwners a) = Inr (units, owners)"
    and a': "turnsById a' = AList.update (vtId (etTurn e)) \<lparr>itState = turnState e, itUnits = units\<rparr> (turnsById a)"
    by (auto simp: indexTurn_def Let_def bindE_Inr_iff split: if_splits prod.splits)
  show "viewTurn a' = (viewTurn a)(vtId (etTurn e) \<mapsto> turnState e)" by (simp add: viewTurn_def a' fun_eq_iff)
  have "map_of units k = entryUnit e k" for k
    using indexUnits [OF idx distinct] by (simp add: entryUnit_def split: option.split)
  then show "unitAt a' = (unitAt a)(vtId (etTurn e) := entryUnit e)" by (simp add: unitAt_def a' fun_eq_iff)
qed

lemma indexTurns_lookup:
  assumes "foldE (indexTurn thread) es a = Inr a'" "distinct (map (vtId \<circ> etTurn) es)"
    "\<forall>e \<in> set es. distinct (map unKey (etUnits e))"
  shows "(\<forall>t. viewTurn a' t = (case entryFor es t of None \<Rightarrow> viewTurn a t | Some e \<Rightarrow> Some (turnState e))) \<and>
    (\<forall>t. unitAt a' t = (case entryFor es t of None \<Rightarrow> unitAt a t | Some e \<Rightarrow> entryUnit e))"
  using assms
proof (induction es arbitrary: a)
  case (Cons e es)
  from Cons.prems(1) obtain b where b: "indexTurn thread e a = Inr b" "foldE (indexTurn thread) es b = Inr a'"
    by (auto simp: bindE_Inr_iff)
  have "distinct (map unKey (etUnits e))" using Cons.prems(3) by simp
  note look = indexTurn_lookup [OF b(1) this]
  have "vtId (etTurn e) \<notin> (vtId \<circ> etTurn) ` set es" using Cons.prems(2) by simp
  then have "\<forall>x \<in> set es. vtId (etTurn x) \<noteq> vtId (etTurn e)" by (metis comp_apply image_eqI)
  then have "entryFor es (vtId (etTurn e)) = None" by (simp add: entryFor_def find_None_iff)
  with Cons.IH [OF b(2)] Cons.prems(2,3) show ?case by (auto simp: look entryFor_def split: option.split)
qed (simp add: entryFor_def)

lemma fromSnapshot_lookup:
  assumes "fromSnapshot s = Inr a"
  shows "viewTurn a t = map_option turnState (entryFor (snTurns s) t)"
    "unitAt a t k = (case entryFor (snTurns s) t of None \<Rightarrow> None | Some e \<Rightarrow> entryUnit e k)"
proof -
  let ?start = "\<lparr>currentHeader = snHeader s, currentRevision = snRevision s, turnsById = [], unitOwners = [], activeTurnIds = []\<rparr>"
  from assms have run: "foldE (indexTurn (thId (vhThread (snHeader s)))) (snTurns s) ?start = Inr a"
    and ids: "distinct (map (vtId \<circ> etTurn) (snTurns s))" and keys: "distinct (map unKey (concat (map etUnits (snTurns s))))"
    by (auto simp: fromSnapshot_def Let_def bindE_Inr_iff checkNone_Inr duplicateKey_None split: if_splits)
  have "distinct (map unKey (concat (map etUnits es))) \<Longrightarrow> \<forall>e \<in> set es. distinct (map unKey (etUnits e))" for es
    by (induction es) auto
  then have units: "\<forall>e \<in> set (snTurns s). distinct (map unKey (etUnits e))" using keys by blast
  have "viewTurn ?start t = None" "unitAt ?start t k = None" by (simp_all add: viewTurn_def unitAt_def)
  with indexTurns_lookup [OF run ids units]
  show "viewTurn a t = map_option turnState (entryFor (snTurns s) t)"
    "unitAt a t k = (case entryFor (snTurns s) t of None \<Rightarrow> None | Some e \<Rightarrow> entryUnit e k)"
    by (simp_all split: option.split)
qed

section \<open>Taking a snapshot and loading it\<close>

lemma mset_insertSorted [simp]: "mset (insertSorted cmp x ys) = add_mset x (mset ys)"
  by (induction ys) auto

lemma mset_toSorted [simp]: "mset (toSorted cmp xs) = mset xs"
  unfolding toSorted_def by (induction xs) simp_all

lemma set_toSorted [simp]: "set (toSorted cmp xs) = set xs"
  by (rule mset_eq_setD) simp

lemma distinct_toSorted [simp]: "distinct (map f (toSorted cmp xs)) \<longleftrightarrow> distinct (map f xs)"
  by (rule mset_eq_imp_distinct_iff) simp

lemma distinct_parts:
  assumes "distinct (map i xs)" "\<forall>x \<in> set xs. distinct (map f (g x))"
    "\<forall>x \<in> set xs. \<forall>y \<in> set xs. \<forall>u \<in> set (g x). \<forall>v \<in> set (g y). f u = f v \<longrightarrow> i x = i y"
  shows "distinct (map f (concat (map g xs)))"
  using assms
proof (induction xs)
  case (Cons x xs)
  have "f ` set (g x) \<inter> f ` set (concat (map g xs)) = {}"
  proof (rule ccontr)
    assume "f ` set (g x) \<inter> f ` set (concat (map g xs)) \<noteq> {}"
    then obtain y u v where y: "y \<in> set xs" and "u \<in> set (g x)" "v \<in> set (g y)" "f u = f v" by auto
    with Cons.prems(3) have "i x = i y" by (metis list.set_intros)
    moreover have "i x \<notin> i ` set xs" using Cons.prems(1) by simp
    ultimately show False using y by (metis image_eqI)
  qed
  with Cons show ?case by simp
qed simp

lemma find_distinct: "distinct (map f xs) \<Longrightarrow> x \<in> set xs \<Longrightarrow> find (\<lambda>y. f y = f x) xs = Some x"
  by (induction xs) (auto simp: image_iff split: if_splits)

text \<open>What the entries of a snapshot are.\<close>

lemma snapshot_entries:
  assumes ok: "viewOk a"
  shows "set (snTurns (snapshotOf lib a)) = {entryOf lib it | t it. map_of (turnsById a) t = Some it}"
    "map_of (turnsById a) t = Some it \<Longrightarrow> vtId (etTurn (entryOf lib it)) = t"
    "map_of (turnsById a) t = Some it \<Longrightarrow> vtThreadId (etTurn (entryOf lib it)) = viewThreadId a"
    "map_of (turnsById a) t = Some it \<Longrightarrow> u \<in> set (etUnits (entryOf lib it)) \<longleftrightarrow> unitAt a t (unKey u) = Some u"
    "map_of (turnsById a) t = Some it \<Longrightarrow> distinct (map unKey (etUnits (entryOf lib it)))"
proof -
  have turns: "turnsOk (viewThreadId a) a" using ok by (simp add: viewOk_def accOk_def indexOk_def)
  have dist: "distinct (map fst (turnsById a))" using turns by (simp add: turnsOk_def)
  have mem: "(t, it) \<in> set (turnsById a) \<longleftrightarrow> map_of (turnsById a) t = Some it" for t it
    using dist by (simp add: map_of_eq_Some_iff)
  then show "set (snTurns (snapshotOf lib a)) = {entryOf lib it | t it. map_of (turnsById a) t = Some it}"
    by (force simp: snapshotOf_def)
  show "vtId (etTurn (entryOf lib it)) = t" "vtThreadId (etTurn (entryOf lib it)) = viewThreadId a"
    if "map_of (turnsById a) t = Some it"
    using turns viewTurn_Some [OF that] by (simp_all add: turnsOk_def entryOf_def Let_def)
  have units: "distinct (map fst (itUnits it))" "unitAt a t = map_of (itUnits it)"
      "\<forall>k u. (k, u) \<in> set (itUnits it) \<longrightarrow> unKey u = k"
    if it: "map_of (turnsById a) t = Some it" for t it
  proof -
    show "distinct (map fst (itUnits it))" using ok it by (auto simp: viewOk_def unitsDistinct_def)
    then have "unitAt a t k = Some u" if "(k, u) \<in> set (itUnits it)" for k u
      using that unitAt_Some [OF it] by (simp add: map_of_is_SomeI)
    then show "\<forall>k u. (k, u) \<in> set (itUnits it) \<longrightarrow> unKey u = k" using turns by (simp add: turnsOk_def) blast
  qed (rule unitAt_Some [OF it])
  show "u \<in> set (etUnits (entryOf lib it)) \<longleftrightarrow> unitAt a t (unKey u) = Some u" if it: "map_of (turnsById a) t = Some it"
  proof
    assume "u \<in> set (etUnits (entryOf lib it))"
    then obtain k where k: "(k, u) \<in> set (itUnits it)" by (auto simp: entryOf_def Let_def)
    then have "unKey u = k" using units(3) [OF it] by blast
    with k show "unitAt a t (unKey u) = Some u" using units(1,2) [OF it] by (simp add: map_of_eq_Some_iff)
  next
    assume "unitAt a t (unKey u) = Some u"
    then have "(unKey u, u) \<in> set (itUnits it)" using units(1,2) [OF it] by (simp add: map_of_eq_Some_iff)
    then show "u \<in> set (etUnits (entryOf lib it))" by (force simp: entryOf_def Let_def)
  qed
  show "distinct (map unKey (etUnits (entryOf lib it)))" if it: "map_of (turnsById a) t = Some it"
  proof -
    have "map (unKey \<circ> snd) (itUnits it) = map fst (itUnits it)" using units(3) [OF it] by auto
    then have "distinct (map (unKey \<circ> snd) (itUnits it))" using units(1) [OF it] by (simp only:)
    then show ?thesis by (simp add: entryOf_def Let_def)
  qed
qed

lemma snapshot_ids:
  assumes "viewOk a" shows "distinct (map (vtId \<circ> etTurn) (snTurns (snapshotOf lib a)))"
proof -
  have dist: "distinct (map fst (turnsById a))" using assms by (simp add: viewOk_def accOk_def indexOk_def turnsOk_def)
  then have "vtId (etTurn (entryOf lib (snd p))) = fst p" if "p \<in> set (turnsById a)" for p
    using that snapshot_entries(2) [OF assms, of "fst p" "snd p"] by (simp add: map_of_eq_Some_iff)
  then have "map (vtId \<circ> etTurn) (map (entryOf lib \<circ> snd) (turnsById a)) = map fst (turnsById a)"
    by (simp add: comp_def)
  with dist show ?thesis by (simp add: snapshotOf_def del: map_map)
qed

lemma snapshot_well:
  assumes ok: "viewOk a" shows "snapshotWell (snapshotOf lib a)"
proof -
  let ?es = "snTurns (snapshotOf lib a)"
  note entries = snapshot_entries [OF ok, where lib = lib]
  have head: "snHeader (snapshotOf lib a) = currentHeader a" by (simp add: snapshotOf_def)
  have turns: "turnsOk (viewThreadId a) a" and own: "ownersOk a"
    using ok by (simp_all add: viewOk_def accOk_def indexOk_def)
  have "distinct (map unKey (concat (map etUnits ?es)))"
  proof (rule distinct_parts [where i = "vtId \<circ> etTurn", OF snapshot_ids [OF ok]])
    show "\<forall>x \<in> set ?es. distinct (map unKey (etUnits x))" using entries(1,5) by auto
    show "\<forall>x \<in> set ?es. \<forall>y \<in> set ?es. \<forall>u \<in> set (etUnits x). \<forall>v \<in> set (etUnits y). unKey u = unKey v \<longrightarrow>
        (vtId \<circ> etTurn) x = (vtId \<circ> etTurn) y"
    proof (intro ballI impI)
      fix x y u v assume xy: "x \<in> set ?es" "y \<in> set ?es" "u \<in> set (etUnits x)" "v \<in> set (etUnits y)" "unKey u = unKey v"
      then obtain t it t' it' where x: "map_of (turnsById a) t = Some it" "x = entryOf lib it"
        and y: "map_of (turnsById a) t' = Some it'" "y = entryOf lib it'" using entries(1) by auto
      have "unitAt a t (unKey u) = Some u" "unitAt a t' (unKey u) = Some v"
        using xy entries(4) [OF x(1)] entries(4) [OF y(1)] x y by auto
      then have "t = t'" using owners_at [OF own, of t "unKey u"] owners_at [OF own, of t' "unKey u"] by auto
      with x y entries(2) show "(vtId \<circ> etTurn) x = (vtId \<circ> etTurn) y" by simp
    qed
  qed
  moreover have "unTurnId u = vtId (etTurn e)" if e: "e \<in> set ?es" "u \<in> set (etUnits e)" for e u
  proof -
    from e(1) obtain t it where it: "map_of (turnsById a) t = Some it" "e = entryOf lib it" using entries(1) by auto
    with e have "unitAt a t (unKey u) = Some u" using entries(4) [OF it(1)] by simp
    with turns entries(2) [OF it(1)] it show ?thesis by (simp add: turnsOk_def)
  qed
  moreover have "vtThreadId (etTurn e) = viewThreadId a" if "e \<in> set ?es" for e using that entries(1,3) by auto
  moreover have "pendingOk (currentHeader a)" using ok by (simp add: viewOk_def accOk_def)
  ultimately show ?thesis
    using snapshot_ids [OF ok] by (simp add: snapshotWell_def head viewThreadId_def unitsOf_def)
qed

lemma snapshot_load:
  assumes ok: "viewOk a"
  shows "\<exists>b. fromSnapshot (snapshotOf lib a) = Inr b \<and> sameView a b"
proof -
  let ?es = "snTurns (snapshotOf lib a)"
  note entries = snapshot_entries [OF ok, where lib = lib]
  from fromSnapshot_total [OF snapshot_well [OF ok]] obtain b where b: "fromSnapshot (snapshotOf lib a) = Inr b" ..
  have entry: "entryFor ?es t = map_option (entryOf lib) (map_of (turnsById a) t)" for t
  proof (cases "map_of (turnsById a) t")
    case None
    then have "vtId (etTurn e) \<noteq> t" if "e \<in> set ?es" for e using that entries(1,2) by auto
    with None show ?thesis by (auto simp: entryFor_def find_None_iff)
  next
    case (Some it)
    then have "entryOf lib it \<in> set ?es" using entries(1) by auto
    with find_distinct [OF snapshot_ids [OF ok, of lib] this] Some entries(2) [OF Some]
    show ?thesis by (simp add: entryFor_def)
  qed
  have "turnState (entryOf lib it) = itState it" for it
    by (simp add: turnState_def entryOf_def Let_def orDefault_def)
  then have "viewTurn b t = viewTurn a t" for t
    unfolding fromSnapshot_lookup(1) [OF b] entry by (simp add: viewTurn_def option.map_comp comp_def)
  moreover have "unitAt b t k = unitAt a t k" for t k
  proof (cases "map_of (turnsById a) t")
    case None
    then show ?thesis unfolding fromSnapshot_lookup(2) [OF b] entry by (simp add: unitAt_def)
  next
    case (Some it)
    have "entryUnit (entryOf lib it) k = unitAt a t k"
    proof (cases "unitAt a t k")
      case None
      then have "unKey u \<noteq> k" if "u \<in> set (etUnits (entryOf lib it))" for u
        using that entries(4) [OF Some, of u] by auto
      with None show ?thesis by (auto simp: entryUnit_def find_None_iff)
    next
      case found: (Some u)
      have "unKey u = k" using found ok by (simp add: viewOk_def accOk_def indexOk_def turnsOk_def)
      with found have "u \<in> set (etUnits (entryOf lib it))" using entries(4) [OF Some] by simp
      with find_distinct [OF entries(5) [OF Some] this] found \<open>unKey u = k\<close> show ?thesis by (simp add: entryUnit_def)
    qed
    with Some show ?thesis by (simp add: fromSnapshot_lookup [OF b] entry)
  qed
  moreover have "currentHeader b = currentHeader a" "currentRevision b = currentRevision a"
    using fromSnapshot_ok [OF b] by (simp_all add: snapshotOf_def)
  ultimately have "sameView a b" by (simp add: sameView_def fun_eq_iff)
  with b show ?thesis by blast
qed

section \<open>Replicas\<close>

text \<open>
  A view that is loaded from snapshots and changed by patches, and can be taken down as a
  snapshot: two copies that are sent the same snapshots and patches go on showing the same,
  and a copy made through a snapshot is as good as the original.
\<close>

locale replicated_view =
  fixes load :: "'s \<Rightarrow> 'e + 'v" and patch :: "'p \<Rightarrow> 'v \<Rightarrow> 'e + 'd \<times> 'v" and take_down :: "'v \<Rightarrow> 's"
    and ok :: "'v \<Rightarrow> bool" and same :: "'v \<Rightarrow> 'v \<Rightarrow> bool"
  assumes load_ok: "load s = Inr v \<Longrightarrow> ok v"
    and patch_ok: "ok v \<Longrightarrow> patch p v = Inr (d, v') \<Longrightarrow> ok v'"
    and take_down_load: "ok v \<Longrightarrow> \<exists>w. load (take_down v) = Inr w \<and> same v w"
    and patch_same: "ok v \<Longrightarrow> ok w \<Longrightarrow> same v w \<Longrightarrow> patch p v = Inr (d, v') \<Longrightarrow>
      \<exists>d' w'. patch p w = Inr (d', w') \<and> same v' w'"
    and same_refl: "same v v"
    and same_trans: "same u v \<Longrightarrow> same v w \<Longrightarrow> same u w"
begin

text \<open>A copy taken through a snapshot accepts the patches the original of its peer accepts.\<close>

lemma copy_patch:
  assumes "ok v" "ok w" "same v w" "patch p v = Inr (d, v')"
  obtains c d' w' where "load (take_down w) = Inr c" "patch p c = Inr (d', w')" "same v' w'" "ok w'" "ok v'"
proof -
  obtain c where c: "load (take_down w) = Inr c" "same w c" using take_down_load [OF assms(2)] by blast
  then obtain d' w' where "patch p c = Inr (d', w')" "same v' w'"
    using patch_same [OF assms(1) load_ok [OF c(1)] same_trans [OF assms(3) c(2)] assms(4)] by blast
  with that c load_ok patch_ok assms(1,4) show ?thesis by meson
qed

lemma copy_same:
  assumes "ok w" "same v w"
  obtains c where "load (take_down w) = Inr c" "same v c" "ok c"
  using take_down_load [OF assms(1)] assms(2) load_ok same_trans by meson

end

interpretation threadView: replicated_view fromSnapshot applyPatch "snapshotOf lib" viewOk sameView
proof
  show "viewOk v" if "fromSnapshot s = Inr v" for s v using that by (rule viewOk_load)
  show "viewOk v'" if "viewOk v" "applyPatch p v = Inr (d, v')" for p v d v' using that by (rule viewOk_patch)
  show "\<exists>w. fromSnapshot (snapshotOf lib v) = Inr w \<and> sameView v w" if "viewOk v" for v using that by (rule snapshot_load)
  show "\<exists>d' w'. applyPatch p w = Inr (d', w') \<and> sameView v' w'"
    if "viewOk v" "viewOk w" "sameView v w" "applyPatch p v = Inr (d, v')" for p v w d v'
    using that applyPatch_same by (simp add: viewOk_def) blast
qed (simp_all add: sameView_def)

end
