(* ===== verification/View_Settled.thy ===== *)
theory View_Settled
  imports View_Mirror
begin

text \<open>
  What a published event does to the view of a feed, and why a turn the feed knows as settled
  is never shown in another state.
\<close>

section \<open>Moves\<close>

fun isViewEvent :: "client_event \<Rightarrow> bool" where
  "isViewEvent (ClientSnapshot _) \<longleftrightarrow> True"
| "isViewEvent (ClientPatch _) \<longleftrightarrow> True"
| "isViewEvent _ \<longleftrightarrow> False"

inductive feedMove :: "view_feed \<Rightarrow> client_event list \<Rightarrow> view_feed \<Rightarrow> bool" where
  Unmoved: "fdCurrent fd' = fdCurrent fd \<Longrightarrow> \<forall>e \<in> set out. \<not> isViewEvent e \<Longrightarrow> feedMove fd out fd'"
| Patched: "fdCurrent fd = Some a \<Longrightarrow> applyPatch p a = Inr (d, a') \<Longrightarrow> fdCurrent fd' = Some a' \<Longrightarrow>
    feedMove fd [ClientPatch p] fd'"
| Replaced: "fromSnapshot s = Inr a \<Longrightarrow> fdCurrent fd' = Some a \<Longrightarrow> feedMove fd [ClientSnapshot s] fd'"
| Dropped: "fdCurrent fd' = None \<Longrightarrow> \<forall>e \<in> set out. \<not> isViewEvent e \<Longrightarrow> feedMove fd out fd'"

inductive_cases feedMoveE: "feedMove fd out fd'"

definition moves :: "view_feed \<Rightarrow> client_event list \<times> view_feed \<Rightarrow> bool" where
  "moves fd r \<longleftrightarrow> feedMove fd (fst r) (snd r)"

named_theorems feed_frames \<open>what the bookkeeping of the feed leaves alone\<close>

lemma rememberTerminal_frame [feed_frames]:
  "fdCurrent (rememberTerminal t st fd) = fdCurrent fd" "fdSnapshotRequired (rememberTerminal t st fd) = fdSnapshotRequired fd"
  by (simp_all add: rememberTerminal_def)

lemma rememberProjection_frame [feed_frames]:
  "fdCurrent (rememberProjection t r u fd) = fdCurrent fd"
  "fdSnapshotRequired (rememberProjection t r u fd) = fdSnapshotRequired fd"
  "fdTerminal (rememberProjection t r u fd) = fdTerminal fd"
  by (simp_all add: rememberProjection_def split: prod.split)

lemma rememberEntry_frame [feed_frames]:
  "fdCurrent (rememberEntry e fd) = fdCurrent fd" "fdSnapshotRequired (rememberEntry e fd) = fdSnapshotRequired fd"
  by (simp_all add: rememberEntry_def Let_def feed_frames split: option.split)

lemma rememberEntries_frame [feed_frames]:
  "fdCurrent (fold rememberEntry es fd) = fdCurrent fd" "fdSnapshotRequired (fold rememberEntry es fd) = fdSnapshotRequired fd"
  by (induction es arbitrary: fd) (simp_all add: feed_frames)

lemma remember_frame [feed_frames]: "fdCurrent (remember s fd) = fdCurrent fd"
  by (simp add: remember_def Let_def feed_frames)

lemma publishPatch_moves: "moves fd (publishPatch p fd)"
  by (auto simp: moves_def publishPatch_def resyncFor_def intro: feedMove.intros split: option.split sum.split prod.split)

lemma nextPatch_moves: "moves fd (nextPatch upsert remove cs header fd)"
  using publishPatch_moves by (auto simp: nextPatch_def moves_def intro: feedMove.intros split: option.split)

lemma feedMove_from: "feedMove fd1 out fd' \<Longrightarrow> fdCurrent fd1 = fdCurrent fd \<Longrightarrow> feedMove fd out fd'"
  by (induction rule: feedMove.induct) (simp_all add: feedMove.intros)

lemma nextPatch_moves_from: "fdCurrent fd1 = fdCurrent fd \<Longrightarrow> moves fd (nextPatch upsert remove cs header fd1)"
  using feedMove_from nextPatch_moves unfolding moves_def by blast

lemma acceptedProjection_moves: "moves fd r \<Longrightarrow> moves fd (acceptedProjection t change r)"
  by (cases r) (auto simp: moves_def acceptedProjection_def Let_def feed_frames elim!: feedMoveE intro: feedMove.intros
      split: option.split)

lemma resyncNow_moves: "moves fd (resyncNow a fd)"
  by (simp add: moves_def resyncNow_def resyncFor_def feedMove.Unmoved)

lemma quiet_moves: "fdCurrent fd' = fdCurrent fd \<Longrightarrow> moves fd ([], fd')"
  by (simp add: moves_def feedMove.Unmoved)

lemmas feed_moves = nextPatch_moves_from acceptedProjection_moves resyncNow_moves quiet_moves

lemma projectionChanged_moves: "moves fd (projectionChanged lib now thread t change fd)"
  by (simp add: projectionChanged_def Let_def feed_moves split: option.split)

lemma queueUpdated_moves: "moves fd (queueUpdated thread change fd)"
  by (simp add: queueUpdated_def Let_def feed_moves feed_frames split: option.split view_queue_change.split)

lemma selectionLoaded_moves: "moves fd (selectionLoaded lib e fd)"
  by (auto simp: selectionLoaded_def replaceView_def Let_def moves_def feed_frames resyncFor_def split_def
      intro: feedMove.intros split: sum.split option.split)

lemma threadTitled_moves: "moves fd (threadTitled thread title fd)"
proof (cases "fdCurrent fd")
  case None
  then show ?thesis by (simp add: threadTitled_def moves_def feedMove.Unmoved)
next
  case (Some a)
  have "moves fd ([ClientTitled thread title], fd)" by (simp add: moves_def feedMove.Unmoved)
  with Some show ?thesis by (simp add: threadTitled_def feed_moves)
qed

lemma turnSettled_moves: "moves fd (turnSettled now thread t st fd)"
  by (simp add: turnSettled_def Let_def feed_moves feed_frames split: option.split)

lemma publish_moves: "moves fd (publish lib now ev fd)"
proof (cases ev)
  case (TurnStarted thread t)
  then show ?thesis by (simp add: turnStarted_def feed_moves feed_frames split: option.split)
next
  case (ExecutionModelPreviewChanged thread t content)
  then show ?thesis by (auto simp: previewChanged_def moves_def intro!: feedMove.Unmoved split: option.split)
next
  case (Notice n thread content)
  then show ?thesis by (simp add: moves_def feedMove.Unmoved)
qed (simp_all add: projectionChanged_moves queueUpdated_moves selectionLoaded_moves turnSettled_moves threadTitled_moves
    resyncRequested_def feed_moves split: option.split)

section \<open>Runs\<close>

fun feedStep :: "view_library \<Rightarrow> time \<times> runtime_event \<Rightarrow> view_feed \<Rightarrow> unit + view_feed" where
  "feedStep lib (now, ev) fd = Inr (snd (publish lib now ev fd))"

definition viewsOk :: "view_feed \<Rightarrow> bool" where
  "viewsOk fd \<longleftrightarrow> (\<forall>a. fdCurrent fd = Some a \<longrightarrow> viewOk a)"

lemma feedMove_ok: "feedMove fd out fd' \<Longrightarrow> viewsOk fd \<Longrightarrow> viewsOk fd'"
  by (induction rule: feedMove.induct) (auto simp: viewsOk_def viewOk_load viewOk_patch)

section \<open>Terminal states\<close>

definition settledIn :: "(turn_id \<times> status) list \<Rightarrow> (turn_id \<Rightarrow> turn_state option) \<Rightarrow> bool" where
  "settledIn known view \<longleftrightarrow> (\<forall>t st s. map_of known t = Some st \<longrightarrow> view t = Some s \<longrightarrow> vtStatus (tsTurn s) = st)"

definition settledOk :: "view_feed \<Rightarrow> bool" where
  "settledOk fd \<longleftrightarrow> distinct (map fst (fdTerminal fd)) \<and>
     (\<forall>a. \<not> fdSnapshotRequired fd \<longrightarrow> fdCurrent fd = Some a \<longrightarrow> settledIn (fdTerminal fd) (viewTurn a))"

definition feedOk :: "view_feed \<Rightarrow> bool" where
  "feedOk fd \<longleftrightarrow> viewsOk fd \<and> settledOk fd"

lemma settledOk_frame:
  "fdTerminal fd' = fdTerminal fd \<Longrightarrow> fdCurrent fd' = fdCurrent fd \<Longrightarrow> fdSnapshotRequired fd' = fdSnapshotRequired fd \<Longrightarrow>
     settledOk fd' = settledOk fd"
  by (simp add: settledOk_def)

lemma settledOk_required: "distinct (map fst (fdTerminal fd)) \<Longrightarrow> fdSnapshotRequired fd \<Longrightarrow> settledOk fd"
  by (simp add: settledOk_def)

lemma map_of_drop:
  assumes "distinct (map fst xs)" "map_of (drop n xs) t = Some v" shows "map_of xs t = Some v"
proof -
  have "(t, v) \<in> set (drop n xs)" using assms(2) by (rule map_of_SomeD)
  then have "(t, v) \<in> set xs" by (rule in_set_dropD)
  with assms(1) show ?thesis by simp
qed

lemma update_delete: "AList.update t v (AList.delete t al) = AList.delete t al @ [(t, v)]"
  by (induction al) auto

lemma rememberTerminal_known:
  assumes "distinct (map fst (fdTerminal fd))"
  shows "distinct (map fst (fdTerminal (rememberTerminal t st fd)))"
    "map_of (fdTerminal (rememberTerminal t st fd)) t = Some st"
    "map_of (fdTerminal (rememberTerminal t st fd)) t' = Some st' \<Longrightarrow> t' \<noteq> t \<Longrightarrow> map_of (fdTerminal fd) t' = Some st'"
proof -
  let ?xs = "AList.update t st (AList.delete t (fdTerminal fd))"
  have dist: "distinct (map fst ?xs)" using assms by simp
  have new: "fdTerminal (rememberTerminal t st fd) = dropOldest ?xs" by (simp add: rememberTerminal_def)
  show kept: "distinct (map fst (fdTerminal (rememberTerminal t st fd)))"
    using dist by (simp add: new dropOldest_def drop_map [symmetric] distinct_drop del: distinct_keys)
  have "(t, st) \<in> set (dropOldest ?xs)" by (simp add: dropOldest_def update_delete trackedProjectionLimit_def)
  with kept show "map_of (fdTerminal (rememberTerminal t st fd)) t = Some st" by (simp add: new)
  assume "map_of (fdTerminal (rememberTerminal t st fd)) t' = Some st'" "t' \<noteq> t"
  then have "map_of ?xs t' = Some st'" unfolding new dropOldest_def by (intro map_of_drop [OF dist])
  with \<open>t' \<noteq> t\<close> show "map_of (fdTerminal fd) t' = Some st'" by simp
qed

lemma changedTo_settled:
  assumes "settledIn known (viewTurn a)" "cs = [] \<or> (\<exists>c. cs = [UpsertTurn c] \<and>
    (\<forall>st. map_of known (vtId (tuTurn c)) = Some st \<longrightarrow> vtStatus (tuTurn c) = st))"
  shows "settledIn known (\<lambda>t. changedTo (changeAt cs t) (viewTurn a t))"
  using assms by (auto simp: settledIn_def changeAt_def changedTurnState_def split: if_splits)

lemma nextPatch_settled:
  assumes views: "viewsOk fd" and dist: "distinct (map fst (fdTerminal fd))"
    and new: "\<And>a. fdCurrent fd = Some a \<Longrightarrow> \<not> fdSnapshotRequired fd \<Longrightarrow>
      settledIn (fdTerminal fd) (\<lambda>t. changedTo (changeAt cs t) (viewTurn a t))"
  shows "settledOk (snd (nextPatch upsert remove cs header fd))"
proof (cases "fdCurrent fd = None \<or> fdSnapshotRequired fd")
  case True
  with dist show ?thesis by (auto simp: nextPatch_def settledOk_def split: option.split)
next
  case False
  then obtain a where a: "fdCurrent fd = Some a" "\<not> fdSnapshotRequired fd" by auto
  have ok: "accOk a" using views a by (simp add: viewsOk_def viewOk_def)
  have "viewTurn a' = (\<lambda>t. changedTo (changeAt (vpTurnChanges p) t) (viewTurn a t))" if "applyPatch p a = Inr (d, a')" for p d a'
    using applyPatch_result [OF ok that] by (simp add: fun_eq_iff)
  with a dist new show ?thesis
    by (auto simp: nextPatch_def publishPatch_def settledOk_def split: sum.split)
qed

lemma nextPatch_terminal [feed_frames]: "fdTerminal (snd (nextPatch upsert remove cs header fd)) = fdTerminal fd"
  by (simp add: nextPatch_def publishPatch_def split: option.split sum.split prod.split)

lemma acceptedProjection_terminal [feed_frames]: "fdTerminal (snd (acceptedProjection t change r)) = fdTerminal (snd r)"
  by (cases r) (simp add: acceptedProjection_def Let_def feed_frames split: option.split)

lemma acceptedProjection_settled: "settledOk (snd (acceptedProjection t change r)) = settledOk (snd r)"
  by (rule settledOk_frame; cases r) (simp_all add: acceptedProjection_def Let_def feed_frames split: option.split)

lemma resyncNow_settled: "settledOk fd \<Longrightarrow> settledOk (snd (resyncNow a fd))"
  by (simp add: resyncNow_def settledOk_def)

section \<open>Every event keeps them\<close>

lemma feedOk_current: "feedOk fd \<Longrightarrow> fdCurrent fd = Some a \<Longrightarrow> \<not> fdSnapshotRequired fd \<Longrightarrow> settledIn (fdTerminal fd) (viewTurn a)"
  by (simp add: feedOk_def settledOk_def)

lemma patch_keeps_settled:
  assumes ok: "feedOk fd" and same: "fdCurrent fd1 = fdCurrent fd" "fdSnapshotRequired fd1 = fdSnapshotRequired fd"
      "fdTerminal fd1 = fdTerminal fd"
    and cs: "cs = [] \<or> (\<exists>c. cs = [UpsertTurn c] \<and>
      (\<forall>st. map_of (fdTerminal fd) (vtId (tuTurn c)) = Some st \<longrightarrow> vtStatus (tuTurn c) = st))"
  shows "settledOk (snd (nextPatch upsert remove cs header fd1))"
proof (rule nextPatch_settled)
  show "viewsOk fd1" "distinct (map fst (fdTerminal fd1))"
    using ok same by (simp_all add: feedOk_def viewsOk_def settledOk_def)
  show "settledIn (fdTerminal fd1) (\<lambda>t. changedTo (changeAt cs t) (viewTurn a t))"
    if "fdCurrent fd1 = Some a" "\<not> fdSnapshotRequired fd1" for a
    using feedOk_current [OF ok, of a] that same cs by (intro changedTo_settled) auto
qed

lemma turnRecord_id [simp]: "vtId (turnRecord t) = turnId t"
  by (cases t) simp_all

lemma startUpsert_known:
  "\<exists>c. [startUpsert t (startStatus t fd)] = [UpsertTurn c] \<and>
     (\<forall>st. map_of (fdTerminal fd) (vtId (tuTurn c)) = Some st \<longrightarrow> vtStatus (tuTurn c) = st)"
  by (simp add: startUpsert_def startStatus_def orDefault_def)

lemma projectionUpsert_known:
  assumes "projectedRecord now existing t (orDefault st (map_of known key)) = Some r" "vtId r = key"
  shows "\<exists>c. [projectionUpsert r change] = [UpsertTurn c] \<and>
     (\<forall>st. map_of known (vtId (tuTurn c)) = Some st \<longrightarrow> vtStatus (tuTurn c) = st)"
  using assms
  by (cases "(now, existing, t, st)" rule: projectedRecord.cases) (auto simp: projectionUpsert_def orDefault_def)

lemma projectedRecord_id:
  assumes "projectedRecord now (viewTurn a key) t st = Some r" "projectionTurnId t units = Some key" "viewOk a"
  shows "vtId r = key"
proof (cases t)
  case None
  with assms(1) obtain s where "viewTurn a key = Some s" "r = (tsTurn s)\<lparr>vtStatus := st, vtUpdatedAt := now\<rparr>"
    by (cases "viewTurn a key") auto
  with assms(3) show ?thesis by (simp add: viewOk_def accOk_def indexOk_def turnsOk_def)
qed (use assms(1,2) in \<open>auto simp: projectionTurnId_def\<close>)

lemma projectionChanged_settled:
  assumes ok: "feedOk fd" shows "settledOk (snd (projectionChanged lib now thread t change fd))"
proof -
  have settled: "settledOk fd" using ok by (simp add: feedOk_def)
  have views: "viewOk a" if "fdCurrent fd = Some a" for a using ok that by (simp add: feedOk_def viewsOk_def)
  note patch = patch_keeps_settled [OF ok refl refl refl]
  have "settledOk (snd (nextPatch units ks [projectionUpsert r change] header fd))"
    if "fdCurrent fd = Some a" "projectionTurnId t us = Some key"
      "projectedRecord now (viewTurn a key) t (orDefault st (map_of (fdTerminal fd) key)) = Some r"
    for a us key st r units ks header
    by (rule patch, rule disjI2, rule projectionUpsert_known [OF that(3) projectedRecord_id [OF that(3,2) views [OF that(1)]]])
  moreover have "settledOk (snd (nextPatch [] [] [] header fd))" for header by (rule patch) simp
  ultimately show ?thesis
    using settled by (auto simp: projectionChanged_def Let_def acceptedProjection_settled resyncNow_settled split: option.split)
qed

lemma queueUpdated_settled:
  assumes ok: "feedOk fd" shows "settledOk (snd (queueUpdated thread change fd))"
proof -
  have settled: "settledOk fd" using ok by (simp add: feedOk_def)
  have plain: "settledOk (snd (nextPatch [] [] [] header fd))" for header by (rule patch_keeps_settled [OF ok]) simp_all
  have off: "settledOk (snd (nextPatch [] [] [] header (rememberProjection t r u fd)))" for header t r u
    by (rule patch_keeps_settled [OF ok]) (simp_all add: feed_frames)
  have start: "settledOk (snd (nextPatch [u] [] [startUpsert t (startStatus t fd)] header fd))" for u t header
    by (rule patch_keeps_settled [OF ok refl refl refl]) (rule disjI2, rule startUpsert_known)
  show ?thesis
    using settled plain off start by (simp add: queueUpdated_def Let_def split: option.split view_queue_change.split)
qed

lemma turnSettled_settled:
  assumes ok: "feedOk fd" shows "settledOk (snd (turnSettled now thread t st fd))"
proof (cases "\<exists>a. fdCurrent fd = Some a \<and> thread = viewThreadId a")
  case False
  with ok show ?thesis by (auto simp: turnSettled_def feedOk_def split: option.split)
next
  case True
  then obtain a where a: "fdCurrent fd = Some a" "thread = viewThreadId a" by blast
  let ?fd1 = "rememberTerminal t st fd"
  let ?fd2 = "?fd1\<lparr>fdRevisions := AList.delete t (fdRevisions ?fd1), fdUsage := AList.delete t (fdUsage ?fd1)\<rparr>"
  have dist: "distinct (map fst (fdTerminal fd))" using ok by (simp add: feedOk_def settledOk_def)
  note known = rememberTerminal_known [OF dist, of t st]
  have view: "viewOk a" using ok a by (simp add: feedOk_def viewsOk_def)
  have old: "settledIn (fdTerminal fd) (viewTurn a)" if "\<not> fdSnapshotRequired fd" using feedOk_current [OF ok a(1) that] .
  show ?thesis
  proof (cases "viewTurn a t")
    case None
    have "settledIn (fdTerminal ?fd1) (viewTurn a)" if "\<not> fdSnapshotRequired fd"
      unfolding settledIn_def
    proof (intro allI impI)
      fix t' st' s assume that': "map_of (fdTerminal ?fd1) t' = Some st'" "viewTurn a t' = Some s"
      then have "t' \<noteq> t" using None by auto
      then have "map_of (fdTerminal fd) t' = Some st'" by (rule known(3) [OF that'(1)])
      with that'(2) old [OF that] show "vtStatus (tsTurn s) = st'" by (simp add: settledIn_def)
    qed
    with a None known(1) show ?thesis by (simp add: turnSettled_def Let_def settledOk_def feed_frames)
  next
    case (Some s)
    then have id: "vtId (tsTurn s) = t" using view by (simp add: viewOk_def accOk_def indexOk_def turnsOk_def)
    let ?c = "\<lparr>tuTurn = (tsTurn s)\<lparr>vtStatus := st, vtUpdatedAt := now\<rparr>, tuRevision = tsRevision s, tuUsage = tsUsage s,
      tuNeedsResolution = None, tuPending = Some (tsPending s), tuSettled = Some (tsSettled s)\<rparr>"
    have "settledOk (snd (nextPatch [] [] [UpsertTurn ?c] None ?fd2))"
    proof (rule nextPatch_settled)
      show "viewsOk ?fd2" using ok by (simp add: feedOk_def viewsOk_def feed_frames)
      show "distinct (map fst (fdTerminal ?fd2))" using known(1) by simp
      show "settledIn (fdTerminal ?fd2) (\<lambda>t. changedTo (changeAt [UpsertTurn ?c] t) (viewTurn b t))"
        if "fdCurrent ?fd2 = Some b" "\<not> fdSnapshotRequired ?fd2" for b
        unfolding settledIn_def
      proof (intro allI impI)
        fix t' st' s' assume s': "map_of (fdTerminal ?fd2) t' = Some st'"
          "changedTo (changeAt [UpsertTurn ?c] t') (viewTurn b t') = Some s'"
        have b: "b = a" "\<not> fdSnapshotRequired fd" using that a by (simp_all add: feed_frames)
        show "vtStatus (tsTurn s') = st'"
        proof (cases "t' = t")
          case True
          with s' known(2) id show ?thesis by (auto simp: changeAt_def changedTurnState_def)
        next
          case False
          then have "map_of (fdTerminal fd) t' = Some st'" using known(3) s'(1) by simp
          moreover have "viewTurn a t' = Some s'" using s'(2) False id b by (simp add: changeAt_def)
          ultimately show ?thesis using old [OF b(2)] by (simp add: settledIn_def)
        qed
      qed
    qed
    with a Some show ?thesis by (simp add: turnSettled_def Let_def)
  qed
qed

definition terminalsIn :: "view_turn list \<Rightarrow> view_feed \<Rightarrow> bool" where
  "terminalsIn es fd \<longleftrightarrow> distinct (map fst (fdTerminal fd)) \<and>
     (\<forall>t st. map_of (fdTerminal fd) t = Some st \<longrightarrow> (\<forall>e \<in> set es. vtId (etTurn e) = t \<longrightarrow> vtStatus (etTurn e) = st))"

lemma rememberEntry_terminal:
  "fdTerminal (rememberEntry e fd) = (if isTerminalStatus (vtStatus (etTurn e))
     then fdTerminal (rememberTerminal (vtId (etTurn e)) (vtStatus (etTurn e)) fd) else fdTerminal fd)"
  by (simp add: rememberEntry_def Let_def feed_frames split: option.split)

lemma rememberEntry_terminalsIn:
  assumes "terminalsIn es fd" "e \<in> set es" "distinct (map (vtId \<circ> etTurn) es)"
  shows "terminalsIn es (rememberEntry e fd)"
proof (cases "isTerminalStatus (vtStatus (etTurn e))")
  case True
  have dist: "distinct (map fst (fdTerminal fd))" using assms(1) by (simp add: terminalsIn_def)
  note known = rememberTerminal_known [OF dist, of "vtId (etTurn e)" "vtStatus (etTurn e)"]
  have "vtStatus (etTurn e') = st"
    if "map_of (fdTerminal (rememberEntry e fd)) t = Some st" "e' \<in> set es" "vtId (etTurn e') = t" for t st e'
  proof (cases "t = vtId (etTurn e)")
    case same: True
    then have "e' = e" using that(2,3) assms(2,3) by (auto simp: distinct_map inj_on_def)
    with that(1) known(2) True same show ?thesis by (simp add: rememberEntry_terminal)
  next
    case False
    have "map_of (fdTerminal (rememberTerminal (vtId (etTurn e)) (vtStatus (etTurn e)) fd)) t = Some st"
      using that(1) True by (simp add: rememberEntry_terminal)
    then have "map_of (fdTerminal fd) t = Some st" by (rule known(3)) (rule False)
    with that(2,3) assms(1) show ?thesis unfolding terminalsIn_def by blast
  qed
  moreover have "distinct (map fst (fdTerminal (rememberEntry e fd)))" using known(1) True by (simp add: rememberEntry_terminal)
  ultimately show ?thesis unfolding terminalsIn_def by blast
qed (use assms(1) in \<open>simp add: terminalsIn_def rememberEntry_terminal\<close>)

lemma rememberEntries_terminalsIn:
  "set xs \<subseteq> set es \<Longrightarrow> distinct (map (vtId \<circ> etTurn) es) \<Longrightarrow> terminalsIn es fd \<Longrightarrow> terminalsIn es (fold rememberEntry xs fd)"
  by (induction xs arbitrary: fd) (simp_all add: rememberEntry_terminalsIn)

lemma settleEntry_status:
  "vtId (etTurn (settleEntry known e)) = vtId (etTurn e)"
  "map_of known (vtId (etTurn e)) = Some st \<Longrightarrow> vtStatus (etTurn (settleEntry known e)) = st"
  by (simp_all add: settleEntry_def split: option.split)

lemma replaceView_settled:
  assumes dist: "distinct (map fst (fdTerminal fd))"
  shows "settledOk (snd (replaceView s fd))"
proof -
  define t where "t = s\<lparr>snTurns := map (settleEntry (fdTerminal fd)) (snTurns s)\<rparr>"
  show ?thesis
  proof (cases "fromSnapshot t")
    case (Inl e)
    with dist show ?thesis by (simp add: replaceView_def Let_def t_def [symmetric] settledOk_required)
  next
    case (Inr a)
    let ?fd1 = "fd\<lparr>fdCurrent := Some a\<rparr>"
    let ?fd2 = "remember t ?fd1"
    have ids: "distinct (map (vtId \<circ> etTurn) (snTurns t))"
      using Inr by (auto simp: fromSnapshot_def Let_def bindE_Inr_iff checkNone_Inr duplicateKey_None comp_def)
    have "terminalsIn (snTurns t) ?fd1" using dist by (auto simp: terminalsIn_def t_def settleEntry_status)
    moreover have "terminalsIn (snTurns t) (?fd1\<lparr>fdKnownThread := k, fdRevisions := [], fdUsage := [], fdCheckpoints := [],
        fdTerminal := []\<rparr>)" for k by (simp add: terminalsIn_def)
    ultimately have terminals: "terminalsIn (snTurns t) ?fd2"
      using rememberEntries_terminalsIn [OF subset_refl ids] by (simp add: remember_def Let_def)
    have "settledIn (fdTerminal ?fd2) (viewTurn a)"
      unfolding settledIn_def
    proof (intro allI impI)
      fix k st x assume k: "map_of (fdTerminal ?fd2) k = Some st" "viewTurn a k = Some x"
      then obtain e where e: "entryFor (snTurns t) k = Some e" "x = turnState e"
        using fromSnapshot_lookup(1) [OF Inr, of k] by auto
      then have "e \<in> set (snTurns t)" "vtId (etTurn e) = k" by (auto simp: entryFor_def find_Some_iff)
      with k(1) terminals e(2) show "vtStatus (tsTurn x) = st" by (simp add: terminalsIn_def turnState_def)
    qed
    moreover have "distinct (map fst (fdTerminal ?fd2))" using terminals by (simp add: terminalsIn_def)
    ultimately show ?thesis using Inr by (simp add: replaceView_def Let_def t_def [symmetric] settledOk_def feed_frames)
  qed
qed

lemma selectionLoaded_settled:
  assumes "feedOk fd" shows "settledOk (snd (selectionLoaded lib e fd))"
proof -
  have "distinct (map fst (fdTerminal fd))" using assms by (simp add: feedOk_def settledOk_def)
  then have "settledOk (snd (replaceView s fd))" for s by (rule replaceView_settled)
  moreover have "settledOk (f\<lparr>fdCheckpoints := c\<rparr>) = settledOk f" for f c by (rule settledOk_frame) simp_all
  ultimately show ?thesis by (simp add: selectionLoaded_def Let_def split_def)
qed

lemma publish_settled:
  assumes ok: "feedOk fd" shows "settledOk (snd (publish lib now ev fd))"
proof -
  have settled: "settledOk fd" using ok by (simp add: feedOk_def)
  have frame: "settledOk (rememberProjection t r u fd)" for t r u
    using settled settledOk_frame [of "rememberProjection t r u fd" fd] by (simp add: feed_frames)
  have plain: "settledOk (snd (nextPatch [] [] [] header fd))" for header by (rule patch_keeps_settled [OF ok]) simp_all
  have start: "settledOk (snd (nextPatch [u] [] [startUpsert t (startStatus t fd)] header fd))" for u t header
    by (rule patch_keeps_settled [OF ok refl refl refl]) (rule disjI2, rule startUpsert_known)
  show ?thesis
    using settled frame plain start
    by (cases ev)
      (simp_all add: ok projectionChanged_settled queueUpdated_settled selectionLoaded_settled turnSettled_settled
        turnStarted_def threadTitled_def resyncRequested_def resyncNow_settled split: option.split)
qed

lemma publish_ok: "feedOk fd \<Longrightarrow> feedOk (snd (publish lib now ev fd))"
  using publish_settled feedMove_ok [OF publish_moves [unfolded moves_def]] by (simp add: feedOk_def)

interpretation liveFeed: fallible_store "feedStep lib" always feedOk
  by unfold_locales (auto simp: publish_ok)

lemma feedOk_start: "feedOk makeThreadViewFeed"
  by (simp add: feedOk_def viewsOk_def settledOk_def makeThreadViewFeed_def)

text \<open>The feed after a list of events, each with the reading of the clock.\<close>

definition feedAfter :: "view_library \<Rightarrow> (time \<times> runtime_event) list \<Rightarrow> view_feed \<Rightarrow> view_feed" where
  "feedAfter lib evs fd = runOps (feedStep lib) evs fd"

lemma feedAfter_simps [simp]:
  "feedAfter lib [] fd = fd"
  "feedAfter lib ((now, ev) # evs) fd = feedAfter lib evs (snd (publish lib now ev fd))"
  by (simp_all add: feedAfter_def settle_def)

lemma feedAfter_ok: "feedOk fd \<Longrightarrow> feedOk (feedAfter lib evs fd)"
  unfolding feedAfter_def by (rule liveFeed.run_keeps) simp_all

lemma feedAfter_append: "feedAfter lib (xs @ ys) fd = feedAfter lib ys (feedAfter lib xs fd)"
  by (simp add: feedAfter_def runOps_append)

section \<open>Late events\<close>

text \<open>Events that start, project, queue or name: they do not change what is known as settled.\<close>

fun isLateEvent :: "runtime_event \<Rightarrow> bool" where
  "isLateEvent (SelectionLoaded _) \<longleftrightarrow> False"
| "isLateEvent (TurnSettled _ _ _) \<longleftrightarrow> False"
| "isLateEvent _ \<longleftrightarrow> True"

lemma late_terminal:
  assumes "isLateEvent ev" shows "fdTerminal (snd (publish lib now ev fd)) = fdTerminal fd"
  using assms
  by (cases ev)
    (auto simp: projectionChanged_def queueUpdated_def turnStarted_def threadTitled_def resyncRequested_def resyncNow_def
      Let_def feed_frames split: option.split view_queue_change.split)

lemma late_run: "\<forall>(now, ev) \<in> set evs. isLateEvent ev \<Longrightarrow> fdTerminal (feedAfter lib evs fd) = fdTerminal fd"
  by (induction evs arbitrary: fd) (auto simp: late_terminal)

lemma turnSettled_tracked:
  assumes "feedOk fd" "fdCurrent fd = Some a" "thread = viewThreadId a"
  shows "map_of (fdTerminal (snd (publish lib now (TurnSettled thread t st) fd))) t = Some st"
  using rememberTerminal_known(2) [of fd t st] assms
  by (simp add: feedOk_def settledOk_def turnSettled_def Let_def feed_frames split: option.split)

end
