(* ===== verification/View_Client.thy ===== *)
theory View_Client
  imports View_Settled
begin

text \<open>
  The view a browser keeps of the thread it is attached to
  (apps/web/src/client/thread-socket.ts).  The module's variables are the fields of a record;
  connections, their generations and the dispatch of frames to the page are left out.
\<close>

section \<open>Frames\<close>

record thread_event =
  teThreadId :: thread_id
  teCursor :: int
  teVersion :: int
  teEvent :: client_event

record hosted_snapshot =
  hsView :: view_snapshot
  hsAuthorizations :: "thread_id list"

record checkpoint_frame =
  cpVersion :: int
  cpCursor :: int
  cpSnapshot :: hosted_snapshot

record snapshot_frame =
  sfThreadId :: thread_id
  sfVersion :: int
  sfCursor :: int
  sfSnapshot :: hosted_snapshot

record attachment =
  atThreadId :: thread_id
  atBaseCursor :: int
  atCursor :: int
  atVersion :: int
  atCheckpoint :: "checkpoint_frame option"
  atEvents :: "thread_event list"

text \<open>A frame of another kind has the thread it names and whether a foreign one closes the socket.\<close>

datatype server_frame = ThreadEventFrame thread_event | ThreadSnapshotFrame snapshot_frame | OtherFrame "thread_id option" bool

fun frameThreadId :: "server_frame \<Rightarrow> thread_id option" where
  "frameThreadId (ThreadEventFrame e) = Some (teThreadId e)"
| "frameThreadId (ThreadSnapshotFrame s) = Some (sfThreadId s)"
| "frameThreadId (OtherFrame thread _) = thread"

fun quarantinesForeignFrame :: "server_frame \<Rightarrow> bool" where
  "quarantinesForeignFrame (ThreadEventFrame _) \<longleftrightarrow> True"
| "quarantinesForeignFrame (ThreadSnapshotFrame _) \<longleftrightarrow> True"
| "quarantinesForeignFrame (OtherFrame _ q) \<longleftrightarrow> q"

fun eventThreadId :: "client_event \<Rightarrow> thread_id option" where
  "eventThreadId (ClientSnapshot s) = Some (thId (vhThread (snHeader s)))"
| "eventThreadId (ClientPatch p) = Some (vpThreadId p)"
| "eventThreadId (ClientResync r) = Some (rsThreadId r)"
| "eventThreadId (ClientTitled thread _) = Some thread"
| "eventThreadId (ClientPreview thread _ _) = Some thread"
| "eventThreadId (ClientNotice _ thread _) = thread"

definition foreign :: "thread_id option \<Rightarrow> thread_id \<Rightarrow> bool" where
  "foreign named thread \<longleftrightarrow> named \<noteq> None \<and> named \<noteq> Some thread"

definition hostedThreadSnapshotMatches :: "hosted_snapshot \<Rightarrow> thread_id \<Rightarrow> bool" where
  "hostedThreadSnapshotMatches s thread \<longleftrightarrow>
     thId (vhThread (snHeader (hsView s))) = thread \<and> list_all (\<lambda>t. t = thread) (hsAuthorizations s)"

section \<open>Attaching\<close>

record thread_socket =
  skThreadId :: "thread_id option"
  skCursor :: int
  skCheckpointCursor :: int
  skVersion :: int
  skView :: "accumulator option"

definition attachmentHasForeignIdentity :: "attachment \<Rightarrow> thread_id \<Rightarrow> bool" where
  "attachmentHasForeignIdentity payload thread \<longleftrightarrow>
     atThreadId payload \<noteq> thread \<or>
     (case atCheckpoint payload of None \<Rightarrow> False | Some c \<Rightarrow> \<not> hostedThreadSnapshotMatches (cpSnapshot c) thread) \<or>
     list_ex (\<lambda>e. teThreadId e \<noteq> thread \<or> foreign (eventThreadId (teEvent e)) thread) (atEvents payload)"

fun rightOption :: "'e + 'a \<Rightarrow> 'a option" where
  "rightOption (Inl _) = None"
| "rightOption (Inr x) = Some x"

definition attachmentBaseView :: "view_library \<Rightarrow> attachment \<Rightarrow> thread_id \<Rightarrow> thread_socket \<Rightarrow> accumulator option" where
  "attachmentBaseView lib payload thread sk =
     (case atCheckpoint payload of
        Some c \<Rightarrow>
          if cpCursor c \<noteq> atBaseCursor payload then None else rightOption (fromSnapshot (hsView (cpSnapshot c)))
      | None \<Rightarrow>
          if skThreadId sk \<noteq> Some thread \<or> skCursor sk \<noteq> atBaseCursor payload then None
          else (case skView sk of None \<Rightarrow> None | Some v \<Rightarrow> rightOption (fromSnapshot (snapshotOf lib v))))"

definition followEvent :: "client_event \<Rightarrow> accumulator \<Rightarrow> apply_error + accumulator" where
  "followEvent e view =
     (case e of
        ClientSnapshot s \<Rightarrow> fromSnapshot s
      | ClientPatch p \<Rightarrow> (case applyPatch p view of Inl err \<Rightarrow> Inl err | Inr (_, view') \<Rightarrow> Inr view')
      | _ \<Rightarrow> Inr view)"

fun replayEvents :: "thread_event list \<Rightarrow> int \<times> int \<times> accumulator \<Rightarrow> (int \<times> int \<times> accumulator) option" where
  "replayEvents [] st = Some st"
| "replayEvents (e # es) (expected, represented, view) =
     (if teCursor e \<noteq> expected \<or> teVersion e < represented then None
      else (case followEvent (teEvent e) view of
         Inl _ \<Rightarrow> None
       | Inr view' \<Rightarrow> replayEvents es (expected + 1, teVersion e, view')))"

definition replayAttachment :: "attachment \<Rightarrow> thread_socket \<Rightarrow> accumulator \<Rightarrow> accumulator option" where
  "replayAttachment payload sk initial =
     (case replayEvents (atEvents payload) (atBaseCursor payload + 1,
         (case atCheckpoint payload of None \<Rightarrow> skVersion sk | Some c \<Rightarrow> cpVersion c), initial) of
        None \<Rightarrow> None
      | Some (expected, represented, view) \<Rightarrow>
          if expected - 1 = atCursor payload \<and> represented = atVersion payload then Some view else None)"

definition validateAttachment :: "view_library \<Rightarrow> attachment \<Rightarrow> thread_id \<Rightarrow> thread_socket \<Rightarrow> accumulator option" where
  "validateAttachment lib payload thread sk =
     (if attachmentHasForeignIdentity payload thread then None
      else (case attachmentBaseView lib payload thread sk of
         None \<Rightarrow> None
       | Some view \<Rightarrow> replayAttachment payload sk view))"

text \<open>The checkpoint the client named when it asked to attach is an argument.\<close>

definition receiveAttachment :: "view_library \<Rightarrow> thread_id \<Rightarrow> int option \<Rightarrow> attachment \<Rightarrow> thread_socket \<Rightarrow>
    string + thread_socket" where
  "receiveAttachment lib thread afterCheckpointCursor payload sk =
     (case validateAttachment lib payload thread sk of
        None \<Rightarrow> Inl ''The Thread attachment response identity did not match its request''
      | Some view \<Rightarrow>
          if skThreadId sk = Some thread \<and> atCursor payload < skCursor sk
          then Inl ''The Thread attachment response was behind the committed cursor''
          else Inr \<lparr>skThreadId = Some thread, skCursor = atCursor payload,
            skCheckpointCursor = (case atCheckpoint payload of
               None \<Rightarrow> orDefault 0 afterCheckpointCursor
             | Some c \<Rightarrow> cpCursor c),
            skVersion = atVersion payload, skView = Some view\<rparr>)"

section \<open>Live frames\<close>

datatype frame_outcome = Ignored | Quarantined string | Emitted

definition applyThreadEvent :: "view_library \<Rightarrow> thread_event \<Rightarrow> thread_socket \<Rightarrow> frame_outcome \<times> thread_socket" where
  "applyThreadEvent lib e sk =
     (let committed = (\<lambda>view. (Emitted, sk\<lparr>skView := Some view, skCursor := teCursor e, skVersion := teVersion e\<rparr>)) in
      if teCursor e \<le> skCursor sk then (Ignored, sk)
      else (case skView sk of
         None \<Rightarrow> (Quarantined ''non-contiguous Thread event'', sk)
       | Some view \<Rightarrow>
           if teCursor e \<noteq> skCursor sk + 1 \<or> teVersion e < skVersion sk
           then (Quarantined ''non-contiguous Thread event'', sk)
           else if eventThreadId (teEvent e) \<noteq> None \<and> eventThreadId (teEvent e) \<noteq> skThreadId sk
           then (Quarantined ''foreign Thread event'', sk)
           else (case fromSnapshot (snapshotOf lib view) of
              Inl _ \<Rightarrow> (Quarantined ''invalid Thread view'', sk)
            | Inr candidate \<Rightarrow>
                (case teEvent e of
                   ClientSnapshot s \<Rightarrow>
                     (case fromSnapshot s of
                        Inl _ \<Rightarrow> (Quarantined ''invalid Thread view snapshot'', sk)
                      | Inr view' \<Rightarrow> committed view')
                 | ClientPatch p \<Rightarrow>
                     (case applyPatch p candidate of
                        Inl _ \<Rightarrow> (Quarantined ''invalid Thread view patch'', sk)
                      | Inr (_, view') \<Rightarrow> committed view')
                 | _ \<Rightarrow> committed view))))"

definition applyThreadSnapshot :: "snapshot_frame \<Rightarrow> thread_socket \<Rightarrow> frame_outcome \<times> thread_socket" where
  "applyThreadSnapshot f sk =
     (case fromSnapshot (hsView (sfSnapshot f)) of
        Inl _ \<Rightarrow> (Quarantined ''invalid Thread snapshot'', sk)
      | Inr view \<Rightarrow>
          if sfCursor f < skCursor sk \<or> sfVersion f < skVersion sk \<or>
            (case skThreadId sk of None \<Rightarrow> True | Some t \<Rightarrow> \<not> hostedThreadSnapshotMatches (sfSnapshot f) t)
          then (Quarantined ''invalid Thread snapshot'', sk)
          else (Emitted, sk\<lparr>skCursor := sfCursor f, skCheckpointCursor := sfCursor f, skVersion := sfVersion f,
            skView := Some view\<rparr>))"

definition applyActiveFrame :: "view_library \<Rightarrow> server_frame \<Rightarrow> thread_socket \<Rightarrow> frame_outcome \<times> thread_socket" where
  "applyActiveFrame lib f sk =
     (if frameThreadId f \<noteq> None \<and> frameThreadId f \<noteq> skThreadId sk
      then (if quarantinesForeignFrame f then Quarantined ''foreign Thread frame'' else Ignored, sk)
      else (case f of
         ThreadEventFrame e \<Rightarrow> applyThreadEvent lib e sk
       | ThreadSnapshotFrame s \<Rightarrow> applyThreadSnapshot s sk
       | OtherFrame _ _ \<Rightarrow> (Emitted, sk)))"

end
