(* ===== verification/View_Follow.thy ===== *)
theory View_Follow
  imports View_Client
begin

text \<open>
  A browser that receives what a feed publishes shows what the feed shows: the events of each
  step are accepted, and feed and browser stay replicas of one view.
\<close>

section \<open>Published events stay in their thread\<close>

definition inThread :: "thread_id \<Rightarrow> thread_id option \<Rightarrow> bool" where
  "inThread thread named \<longleftrightarrow> named = None \<or> named = Some thread"

definition concerns :: "thread_id \<Rightarrow> client_event list \<times> view_feed \<Rightarrow> bool" where
  "concerns thread r \<longleftrightarrow> (\<forall>e \<in> set (fst r). inThread thread (eventThreadId e))"

definition feedIn :: "thread_id \<Rightarrow> view_feed \<Rightarrow> bool" where
  "feedIn thread fd \<longleftrightarrow> (\<forall>a. fdCurrent fd = Some a \<longrightarrow> viewThreadId a = thread)"

lemma nextPatch_concerns: "feedIn thread fd \<Longrightarrow> concerns thread (nextPatch upsert remove cs header fd)"
  by (auto simp: nextPatch_def publishPatch_def concerns_def feedIn_def resyncFor_def inThread_def
      split: option.split sum.split prod.split)

lemma acceptedProjection_concerns: "concerns thread r \<Longrightarrow> concerns thread (acceptedProjection t change r)"
  by (cases r) (simp add: concerns_def acceptedProjection_def Let_def)

lemma resyncNow_concerns: "viewThreadId a = thread \<Longrightarrow> concerns thread (resyncNow a fd)"
  by (simp add: concerns_def resyncNow_def resyncFor_def inThread_def)

lemma quiet_concerns: "concerns thread ([], fd)"
  by (simp add: concerns_def)

lemma feedIn_frame: "fdCurrent fd' = fdCurrent fd \<Longrightarrow> feedIn thread fd \<Longrightarrow> feedIn thread fd'"
  by (simp add: feedIn_def)

lemma projectionChanged_concerns:
  assumes "feedIn thread fd" shows "concerns thread (projectionChanged lib now t' t change fd)"
proof (cases "fdCurrent fd")
  case (Some a)
  with assms have "viewThreadId a = thread" by (simp add: feedIn_def)
  with Some assms show ?thesis
    by (simp add: projectionChanged_def Let_def nextPatch_concerns acceptedProjection_concerns resyncNow_concerns
        quiet_concerns split: option.split)
qed (simp add: projectionChanged_def quiet_concerns)

lemma queueUpdated_concerns:
  assumes "feedIn thread fd" shows "concerns thread (queueUpdated t' change fd)"
proof -
  have "feedIn thread (rememberProjection t r u fd)" for t r u
    using assms by (rule feedIn_frame [rotated]) (simp add: feed_frames)
  with assms show ?thesis
    by (simp add: queueUpdated_def Let_def nextPatch_concerns quiet_concerns split: option.split view_queue_change.split)
qed

lemma turnSettled_concerns:
  assumes "feedIn thread fd" shows "concerns thread (turnSettled now t' t st fd)"
proof -
  have "feedIn thread (rememberTerminal t st fd\<lparr>fdRevisions := r, fdUsage := u\<rparr>)" for r u
    using assms by (rule feedIn_frame [rotated]) (simp add: feed_frames)
  with assms show ?thesis by (simp add: turnSettled_def Let_def nextPatch_concerns quiet_concerns split: option.split)
qed

lemma selectionLoaded_concerns: "concerns (thId (slThread e)) (selectionLoaded lib e fd)"
  by (simp add: selectionLoaded_def replaceView_def Let_def concerns_def split_def snapshotFromSelection_def inThread_def
      resyncFor_def split: sum.split)

lemma publish_concerns:
  assumes feed: "feedIn thread fd" and ev: "inThread thread (runtimeEventThreadId ev)"
  shows "concerns thread (publish lib now ev fd)"
proof (cases ev)
  case (SelectionLoaded e)
  with ev have "thId (slThread e) = thread" by (simp add: inThread_def)
  with SelectionLoaded selectionLoaded_concerns [of e lib fd] show ?thesis by simp
next
  case (ThreadTitled t' title)
  with ev feed show ?thesis
    by (simp add: threadTitled_def nextPatch_concerns split: option.split) (simp add: concerns_def inThread_def)
next
  case (TurnStarted t' t)
  with feed show ?thesis by (simp add: turnStarted_def nextPatch_concerns quiet_concerns split: option.split)
next
  case (ExecutionModelPreviewChanged t' t content)
  with ev show ?thesis by (auto simp: previewChanged_def concerns_def inThread_def split: option.split)
next
  case (Notice n t content)
  with ev show ?thesis by (simp add: concerns_def)
next
  case (ExecutionProjectionResyncRequired t')
  with feed show ?thesis
    by (simp add: resyncRequested_def quiet_concerns resyncNow_concerns feedIn_def split: option.split)
next
  case (ThreadViewResyncRequired t')
  with feed show ?thesis
    by (simp add: resyncRequested_def quiet_concerns resyncNow_concerns feedIn_def split: option.split)
qed (simp_all add: feed projectionChanged_concerns queueUpdated_concerns turnSettled_concerns)

section \<open>Receiving\<close>

fun receiveFrames :: "view_library \<Rightarrow> server_frame list \<Rightarrow> thread_socket \<Rightarrow> frame_outcome list \<times> thread_socket" where
  "receiveFrames lib [] sk = ([], sk)"
| "receiveFrames lib (f # fs) sk =
     (case applyActiveFrame lib f sk of (first, sk1) \<Rightarrow>
        (case receiveFrames lib fs sk1 of (others, sk2) \<Rightarrow> (first # others, sk2)))"

text \<open>Events as the log numbers them: one cursor each, under the version of their write.\<close>

fun framesFrom :: "thread_id \<Rightarrow> int \<Rightarrow> int \<Rightarrow> client_event list \<Rightarrow> server_frame list" where
  "framesFrom thread cursor version [] = []"
| "framesFrom thread cursor version (e # es) =
     ThreadEventFrame \<lparr>teThreadId = thread, teCursor = cursor + 1, teVersion = version, teEvent = e\<rparr> #
     framesFrom thread (cursor + 1) version es"

definition mirrors :: "thread_id \<Rightarrow> view_feed \<Rightarrow> thread_socket \<Rightarrow> bool" where
  "mirrors thread fd sk \<longleftrightarrow> feedIn thread fd \<and> skThreadId sk = Some thread \<and>
     (\<exists>v. skView sk = Some v \<and> viewOk v \<and> (\<forall>a. fdCurrent fd = Some a \<longrightarrow> sameView a v))"

lemma receive_quiet:
  assumes "skThreadId sk = Some thread" "skView sk = Some v" "viewOk v" "skVersion sk \<le> version"
    "\<forall>e \<in> set es. \<not> isViewEvent e \<and> inThread thread (eventThreadId e)"
    "receiveFrames lib (framesFrom thread (skCursor sk) version es) sk = (os, sk')"
  shows "list_all (\<lambda>o'. o' = Emitted) os \<and> length os = length es \<and> skThreadId sk' = Some thread \<and> skView sk' = Some v \<and>
    skVersion sk' \<le> version \<and> skCursor sk' = skCursor sk + int (length es)"
  using assms
proof (induction es arbitrary: sk os)
  case (Cons e es)
  obtain c where c: "fromSnapshot (snapshotOf lib v) = Inr c"
    using threadView.take_down_load [OF Cons.prems(3), of lib] by blast
  let ?f = "\<lparr>teThreadId = thread, teCursor = skCursor sk + 1, teVersion = version, teEvent = e\<rparr>"
  let ?sk = "sk\<lparr>skCursor := skCursor sk + 1, skVersion := version\<rparr>"
  have same: "sk\<lparr>skView := Some v\<rparr> = sk" using Cons.prems(2) by (cases sk) simp
  have step: "applyActiveFrame lib (ThreadEventFrame ?f) sk = (Emitted, ?sk)"
    using Cons.prems(1-5) c same
    by (cases e) (auto simp: applyActiveFrame_def applyThreadEvent_def Let_def inThread_def)
  obtain os' where os: "os = Emitted # os'" "receiveFrames lib (framesFrom thread (skCursor ?sk) version es) ?sk = (os', sk')"
    using Cons.prems(6) step by (auto split: prod.splits)
  have "list_all (\<lambda>o'. o' = Emitted) os' \<and> length os' = length es \<and> skThreadId sk' = Some thread \<and> skView sk' = Some v \<and>
    skVersion sk' \<le> version \<and> skCursor sk' = skCursor ?sk + int (length es)"
    by (rule Cons.IH [OF _ _ _ _ _ os(2)]) (use Cons.prems in auto)
  then show ?case by (simp add: os(1))
qed simp

lemma receive_snapshot:
  assumes "skThreadId sk = Some thread" "skView sk = Some v" "viewOk v" "skVersion sk \<le> version"
    "thId (vhThread (snHeader s)) = thread" "fromSnapshot s = Inr a"
  shows "receiveFrames lib (framesFrom thread (skCursor sk) version [ClientSnapshot s]) sk =
    ([Emitted], sk\<lparr>skView := Some a, skCursor := skCursor sk + 1, skVersion := version\<rparr>)"
proof -
  obtain c where "fromSnapshot (snapshotOf lib v) = Inr c" using threadView.take_down_load [OF assms(3), of lib] by blast
  with assms show ?thesis by (simp add: applyActiveFrame_def applyThreadEvent_def)
qed

lemma receive_patch:
  assumes "skThreadId sk = Some thread" "skView sk = Some v" "viewOk v" "skVersion sk \<le> version" "viewOk a" "sameView a v"
    "vpThreadId p = thread" "applyPatch p a = Inr (d, a')"
  obtains v' where "receiveFrames lib (framesFrom thread (skCursor sk) version [ClientPatch p]) sk =
    ([Emitted], sk\<lparr>skView := Some v', skCursor := skCursor sk + 1, skVersion := version\<rparr>)" "sameView a' v'" "viewOk v'"
proof -
  obtain c d' v' where c: "fromSnapshot (snapshotOf lib v) = Inr c" "applyPatch p c = Inr (d', v')" "sameView a' v'"
    using threadView.copy_patch [OF assms(5,3,6,8)] by metis
  moreover have "viewOk v'" using c viewOk_patch viewOk_load by metis
  ultimately show ?thesis using assms that [of v'] by (simp add: applyActiveFrame_def applyThreadEvent_def)
qed

lemma patch_thread:
  assumes run: "applyPatch p a = Inr (d, a')" and ok: "accOk a"
  shows "vpThreadId p = viewThreadId a" "viewThreadId a' = viewThreadId a"
proof -
  show "vpThreadId p = viewThreadId a" using run by (simp add: applyPatch_Inr accepted_def)
  from applyPatch_result [OF ok run] show "viewThreadId a' = viewThreadId a" by blast
qed

lemma follow_step:
  assumes ok: "feedOk fd" and mir: "mirrors thread fd sk" and ev: "inThread thread (runtimeEventThreadId ev)"
    and ver: "skVersion sk \<le> version" and pub: "publish lib now ev fd = (out, fd')"
    and recv: "receiveFrames lib (framesFrom thread (skCursor sk) version out) sk = (os, sk')"
  shows "list_all (\<lambda>o'. o' = Emitted) os \<and> length os = length out \<and> mirrors thread fd' sk' \<and> skVersion sk' \<le> version \<and>
    skCursor sk' = skCursor sk + int (length out)"
proof -
  have feed: "feedIn thread fd" and sk: "skThreadId sk = Some thread" using mir by (simp_all add: mirrors_def)
  from mir obtain v where v: "skView sk = Some v" "viewOk v" "\<And>a. fdCurrent fd = Some a \<Longrightarrow> sameView a v"
    by (auto simp: mirrors_def)
  have own: "\<forall>e \<in> set out. inThread thread (eventThreadId e)"
    using publish_concerns [OF feed ev, of lib now] by (simp add: concerns_def pub)
  have "feedMove fd out fd'" using publish_moves [of fd lib now ev] by (simp add: moves_def pub)
  then show ?thesis
  proof cases
    case Unmoved
    with own have "\<forall>e \<in> set out. \<not> isViewEvent e \<and> inThread thread (eventThreadId e)" by blast
    from receive_quiet [OF sk v(1,2) ver this recv] Unmoved(1) feed v
    show ?thesis by (simp add: mirrors_def feedIn_def)
  next
    case Dropped
    with own have "\<forall>e \<in> set out. \<not> isViewEvent e \<and> inThread thread (eventThreadId e)" by blast
    from receive_quiet [OF sk v(1,2) ver this recv] Dropped(1) feed v
    show ?thesis by (simp add: mirrors_def feedIn_def)
  next
    case (Replaced s a)
    have s: "thId (vhThread (snHeader s)) = thread" using own Replaced(1) by (simp add: inThread_def)
    from receive_snapshot [OF sk v(1,2) ver s Replaced(2)] recv Replaced(1)
    have r: "os = [Emitted]" "sk' = sk\<lparr>skView := Some a, skCursor := skCursor sk + 1, skVersion := version\<rparr>"
      by (simp_all del: receiveFrames.simps framesFrom.simps)
    have "viewThreadId a = thread" using fromSnapshot_ok [OF Replaced(2)] s by (simp add: viewThreadId_def)
    with r Replaced sk viewOk_load [OF Replaced(2)] show ?thesis
      by (simp add: mirrors_def feedIn_def threadView.same_refl)
  next
    case (Patched a p d a')
    have a: "viewOk a" "sameView a v" using ok Patched(2) v(3) by (simp_all add: feedOk_def viewsOk_def)
    have p: "vpThreadId p = thread" "viewThreadId a' = thread"
      using patch_thread [OF Patched(3)] a(1) feed Patched(2) by (simp_all add: viewOk_def feedIn_def)
    from receive_patch [OF sk v(1,2) ver a p(1) Patched(3)] obtain v' where
      r: "receiveFrames lib (framesFrom thread (skCursor sk) version [ClientPatch p]) sk =
        ([Emitted], sk\<lparr>skView := Some v', skCursor := skCursor sk + 1, skVersion := version\<rparr>)" "sameView a' v'" "viewOk v'"
      by metis
    from r(1) recv Patched(1)
    have "os = [Emitted]" "sk' = sk\<lparr>skView := Some v', skCursor := skCursor sk + 1, skVersion := version\<rparr>"
      by (simp_all del: receiveFrames.simps framesFrom.simps)
    with r(2,3) p(2) Patched sk show ?thesis by (simp add: mirrors_def feedIn_def)
  qed
qed

section \<open>Following a feed\<close>

text \<open>Each step has the clock, the event and the version its events are written under.\<close>

fun followFeed :: "view_library \<Rightarrow> thread_id \<Rightarrow> (time \<times> runtime_event \<times> int) list \<Rightarrow> view_feed \<Rightarrow> thread_socket \<Rightarrow>
    frame_outcome list \<times> view_feed \<times> thread_socket" where
  "followFeed lib thread [] fd sk = ([], fd, sk)"
| "followFeed lib thread ((now, ev, version) # steps) fd sk =
     (case publish lib now ev fd of (out, fd1) \<Rightarrow>
        (case receiveFrames lib (framesFrom thread (skCursor sk) version out) sk of (os, sk1) \<Rightarrow>
           (case followFeed lib thread steps fd1 sk1 of (os', r) \<Rightarrow> (os @ os', r))))"

lemma follow_run:
  assumes "feedOk fd" "mirrors thread fd sk" "\<forall>(now, ev, version) \<in> set steps. inThread thread (runtimeEventThreadId ev)"
    "sorted (skVersion sk # map (\<lambda>s. snd (snd s)) steps)" "followFeed lib thread steps fd sk = (os, fd', sk')"
  shows "list_all (\<lambda>o'. o' = Emitted) os \<and> mirrors thread fd' sk'"
  using assms
proof (induction steps arbitrary: fd sk os)
  case (Cons step steps)
  obtain now ev version where step: "step = (now, ev, version)" by (cases step)
  obtain out fd1 where pub: "publish lib now ev fd = (out, fd1)" by fastforce
  obtain os1 sk1 where recv: "receiveFrames lib (framesFrom thread (skCursor sk) version out) sk = (os1, sk1)" by fastforce
  obtain os2 where os: "os = os1 @ os2" "followFeed lib thread steps fd1 sk1 = (os2, fd', sk')"
    using Cons.prems(5) by (auto simp: step pub recv split: prod.splits)
  have ev: "inThread thread (runtimeEventThreadId ev)" "skVersion sk \<le> version" using Cons.prems(3,4) by (auto simp: step)
  note first = follow_step [OF Cons.prems(1,2) ev pub recv]
  have "feedOk fd1" using publish_ok [OF Cons.prems(1), of lib now ev] by (simp add: pub)
  moreover have "sorted (skVersion sk1 # map (\<lambda>s. snd (snd s)) steps)" using first Cons.prems(4) by (auto simp: step)
  ultimately have "list_all (\<lambda>o'. o' = Emitted) os2 \<and> mirrors thread fd' sk'"
    using first Cons.prems(3) by (intro Cons.IH [OF _ _ _ _ os(2)]) auto
  with first show ?case by (simp add: os(1))
qed simp

lemma followFeed_feed:
  "followFeed lib thread steps fd sk = (os, fd', sk') \<Longrightarrow> fd' = feedAfter lib (map (\<lambda>(now, ev, written). (now, ev)) steps) fd"
  by (induction steps arbitrary: fd sk os) (auto split: prod.splits)

text \<open>Attaching with a checkpoint of what the feed shows.\<close>

definition attachAtCheckpoint :: "view_snapshot \<Rightarrow> thread_id \<Rightarrow> int \<Rightarrow> int \<Rightarrow> attachment" where
  "attachAtCheckpoint s thread cursor version = \<lparr>atThreadId = thread, atBaseCursor = cursor, atCursor = cursor, atVersion = version,
     atCheckpoint = Some \<lparr>cpVersion = version, cpCursor = cursor, cpSnapshot = \<lparr>hsView = s, hsAuthorizations = []\<rparr>\<rparr>,
     atEvents = []\<rparr>"

lemma attach_mirrors:
  assumes ok: "feedOk fd" and view: "fdCurrent fd = Some a" and thread: "thread = viewThreadId a"
    and fresh: "skThreadId sk \<noteq> Some thread \<or> skCursor sk \<le> cursor"
  obtains sk' where "receiveAttachment lib thread after (attachAtCheckpoint (snapshotOf lib a) thread cursor version) sk = Inr sk'"
    "mirrors thread fd sk'" "skVersion sk' = version" "skCursor sk' = cursor"
proof -
  have a: "viewOk a" using ok view by (simp add: feedOk_def viewsOk_def)
  obtain c where c: "fromSnapshot (snapshotOf lib a) = Inr c" "sameView a c" using threadView.take_down_load [OF a, of lib] by blast
  have "thId (vhThread (snHeader (snapshotOf lib a))) = thread" by (simp add: snapshotOf_def thread viewThreadId_def)
  then have "validateAttachment lib (attachAtCheckpoint (snapshotOf lib a) thread cursor version) thread sk = Some c"
    using c(1) by (simp add: validateAttachment_def attachmentHasForeignIdentity_def hostedThreadSnapshotMatches_def
        attachmentBaseView_def replayAttachment_def attachAtCheckpoint_def)
  with fresh that view c viewOk_load [OF c(1)] thread show ?thesis
    by (auto simp: receiveAttachment_def mirrors_def feedIn_def attachAtCheckpoint_def)
qed

end
