(* ===== verification/View_Properties.thy ===== *)
theory View_Properties
  imports View_Follow
begin

text \<open>
  Properties of live thread views: applying patches, taking and loading snapshots, the feed,
  and browsers that follow it.
\<close>

section \<open>Views that can be built\<close>

inductive liveView :: "accumulator \<Rightarrow> bool" where
  Loaded: "fromSnapshot s = Inr a \<Longrightarrow> liveView a"
| Changed: "liveView a \<Longrightarrow> applyPatch p a = Inr (d, a') \<Longrightarrow> liveView a'"

lemma liveView_ok: "liveView a \<Longrightarrow> viewOk a"
  by (induction rule: liveView.induct) (auto intro: viewOk_load viewOk_patch)

text \<open>A thread with one running turn, and what happens to it.\<close>

definition sampleLibrary :: view_library where
  "sampleLibrary = \<lparr>libLocaleCompare = (\<lambda>l r. 0), libCapacity = (\<lambda>route. \<lparr>ccWindow = 200000, ccReserve = 0\<rparr>)\<rparr>"

definition sampleAgent :: agent_turn where
  "sampleAgent = \<lparr>aId = ''t'', aThreadId = ''th'', aPrompt = ''hi'', aPromptParts = None, aStatus = StRunning,
     aExecutionRoute = ''{}'', aExecutionLink = None, aAuthor = Human, aLineage = Original, aCreatedAt = 1, aUpdatedAt = 1\<rparr>"

definition sampleViewThread :: thread_record where
  "sampleViewThread = \<lparr>thId = ''th'', thWorkspace = ''w'', thTitle = ''T'', thLabels = [], thPinned = False, thArchived = False,
     thLineage = OriginalThread, thCreatedAt = 0, thUpdatedAt = 0\<rparr>"

definition sampleSelection :: selection where
  "sampleSelection = \<lparr>slThread = sampleViewThread, slEntries = [], slHasOlder = False, slHasNewer = None,
     slUsage = \<lparr>vuState = emptyUsageState, vuCapacity = None\<rparr>, slOldest = None, slNewest = None, slQueue = [],
     slActiveTurn = Some (AgentExecution sampleAgent), slCheckpoints = []\<rparr>"

definition sampleProjection :: projection_change where
  "sampleProjection = ProjectionPatch \<lparr>ppBaseRevision = 0, ppRevision = 1, ppCheckpoint = ''{}'', ppUpsert = [], ppRemove = [],
     ppState = \<lparr>pjStatus = StRunning, pjNeedsResolution = None, pjUsage = emptyUsageState, pjPending = None, pjSettled = None\<rparr>\<rparr>"

definition sampleUnit :: transcript_unit where
  "sampleUnit = promptUnit (AgentExecution sampleAgent)"

definition sampleEntry :: view_turn where
  "sampleEntry = activeEntry (AgentExecution sampleAgent)"

definition sampleViewHeader :: view_header where
  "sampleViewHeader = \<lparr>vhThread = sampleViewThread, vhSource = sourceFor [sampleEntry] None None, vhPending = [], vhHasOlder = False,
     vhHasNewer = False, vhUsage = \<lparr>vuState = emptyUsageState, vuCapacity = None\<rparr>\<rparr>"

definition sampleSnapshot :: view_snapshot where
  "sampleSnapshot = \<lparr>snHeader = sampleViewHeader, snRevision = 0, snTurns = [sampleEntry]\<rparr>"

definition sampleView :: accumulator where
  "sampleView = \<lparr>currentHeader = sampleViewHeader, currentRevision = 0,
     turnsById = [(''t'', \<lparr>itState = turnState sampleEntry, itUnits = [(unKey sampleUnit, sampleUnit)]\<rparr>)],
     unitOwners = [(unKey sampleUnit, ''t'')], activeTurnIds = [''t'']\<rparr>"

lemmas sample_view_defs = sampleLibrary_def sampleAgent_def sampleViewThread_def sampleSelection_def sampleProjection_def

lemma sampleEntry_simps:
  "vtId (etTurn sampleEntry) = ''t''" "vtThreadId (etTurn sampleEntry) = ''th''" "etUnits sampleEntry = [sampleUnit]"
  "vtStatus (tsTurn (turnState sampleEntry)) = StRunning" "unTurnId sampleUnit = ''t''"
  by (simp_all add: sampleEntry_def sampleUnit_def activeEntry_def sampleAgent_def promptUnit_def Let_def turnState_def)

lemma sampleView_load: "fromSnapshot sampleSnapshot = Inr sampleView"
  by (simp add: fromSnapshot_def sampleSnapshot_def sampleViewHeader_def sampleViewThread_def duplicateKey_def checkNone_def
      limitPending_def indexTurn_def indexUnit_def sampleEntry_simps sampleView_def Let_def addTo_def
      isActiveStatus_def)

lemma sampleSelection_snapshot: "snapshotFromSelection sampleLibrary sampleSelection 0 = sampleSnapshot"
  by (simp add: snapshotFromSelection_def sampleSelection_def sampleSnapshot_def sampleViewHeader_def pendingItems_def
      orderedTurns_def toSorted_def sampleEntry_def activeEntry_def sampleAgent_def orDefault_def Let_def)

definition sampleFeed :: view_feed where
  "sampleFeed = \<lparr>fdCurrent = Some sampleView, fdSnapshotRequired = False, fdKnownThread = Some ''th'',
     fdRevisions = [(''t'', 0)], fdUsage = [(''t'', emptyUsageState)], fdCheckpoints = [], fdTerminal = []\<rparr>"

lemma sampleFeed_run: "publish sampleLibrary 0 (SelectionLoaded sampleSelection) makeThreadViewFeed = ([ClientSnapshot sampleSnapshot], sampleFeed)"
proof -
  have same: "sampleSnapshot\<lparr>snTurns := map (settleEntry []) (snTurns sampleSnapshot)\<rparr> = sampleSnapshot"
    by (simp add: settleEntry_def sampleSnapshot_def)
  have "remember sampleSnapshot (makeThreadViewFeed\<lparr>fdCurrent := Some sampleView\<rparr>) = sampleFeed"
    by (simp add: remember_def sampleSnapshot_def sampleViewHeader_def sampleViewThread_def makeThreadViewFeed_def rememberEntry_def
        sampleEntry_simps rememberProjection_def trackedProjectionLimit_def sampleFeed_def
        sampleEntry_def activeEntry_def sampleAgent_def Let_def)
  then have "replaceView sampleSnapshot makeThreadViewFeed = ([ClientSnapshot sampleSnapshot], sampleFeed)"
    using same by (simp add: replaceView_def makeThreadViewFeed_def sampleView_load Let_def sampleFeed_def)
  moreover have "slCheckpoints sampleSelection = []" by (simp add: sampleSelection_def)
  ultimately show ?thesis
    by (simp add: selectionLoaded_def sampleSelection_snapshot Let_def)
      (simp add: makeThreadViewFeed_def sampleFeed_def sampleSelection_snapshot)
qed

lemma sampleView_fields:
  "viewThreadId sampleView = ''th''" "currentRevision sampleView = 0" "currentHeader sampleView = sampleViewHeader"
  "viewTurn sampleView ''t'' = Some (turnState sampleEntry)"
  "turnsById sampleView = [(''t'', \<lparr>itState = turnState sampleEntry, itUnits = [(unKey sampleUnit, sampleUnit)]\<rparr>)]"
  "unitOwners sampleView = [(unKey sampleUnit, ''t'')]" "activeTurnIds sampleView = [''t'']"
  by (simp_all add: sampleView_def viewThreadId_def sampleViewHeader_def sampleViewThread_def viewTurn_def)

lemma sampleViewHeader_fields: "thId (vhThread sampleViewHeader) = ''th''" "vhPending sampleViewHeader = []" "\<not> vhHasNewer sampleViewHeader"
  by (simp_all add: sampleViewHeader_def sampleViewThread_def)

lemma sampleState_fields: "vtId (tsTurn (turnState sampleEntry)) = ''t''" "vtThreadId (tsTurn (turnState sampleEntry)) = ''th''"
  "tsRevision (turnState sampleEntry) = 0"
  by (simp_all add: sampleEntry_def activeEntry_def sampleAgent_def turnState_def)

text \<open>A patch that changes one turn of the sample.\<close>

definition sampleChanged :: "turn_upsert \<Rightarrow> accumulator" where
  "sampleChanged c = sampleView\<lparr>currentRevision := 1,
     turnsById := [(''t'', \<lparr>itState = changedTurnState c, itUnits = [(unKey sampleUnit, sampleUnit)]\<rparr>)],
     activeTurnIds := (if isActiveStatus (vtStatus (tuTurn c)) then [''t''] else [])\<rparr>"

lemma samplePatch:
  assumes "vtId (tuTurn c) = ''t''" "vtThreadId (tuTurn c) = ''th''" "0 \<le> tuRevision c"
  shows "applyPatch \<lparr>vpThreadId = ''th'', vpBaseRevision = 0, vpRevision = 1, vpUpsert = [], vpRemove = [],
      vpTurnChanges = [UpsertTurn c], vpHeader = None\<rparr> sampleView =
    Inr (\<lparr>vdRevision = 1, vdHeaderChanged = False, vdTurns = [(''t'', \<lparr>tdPrevious = Some (turnState sampleEntry),
      tdCurrent = Some (changedTurnState c), tdUpsert = [], tdRemove = []\<rparr>)]\<rparr>, sampleChanged c)"
proof -
  have state: "tsTurn (changedTurnState c) = tuTurn c" by (simp add: changedTurnState_def)
  have checks: "revisionError sampleView p = Inr ()" "collectionError sampleView p sampleViewHeader = Inr ()" "unitError sampleView p = Inr ()"
      "turnChangesError sampleView p = Inr [(''t'', UpsertTurn c)]" "upsertTurnError sampleView p cs = Inr ()"
    if "p = \<lparr>vpThreadId = ''th'', vpBaseRevision = 0, vpRevision = 1, vpUpsert = [], vpRemove = [],
      vpTurnChanges = [UpsertTurn c], vpHeader = None\<rparr>" for p cs
    using assms unfolding that
    by (simp_all add: revisionError_def collectionError_def unitError_def turnChangesError_def upsertTurnError_def
        sampleView_fields sampleViewHeader_fields sampleState_fields duplicateKey_def checkNone_def limitPending_def changesOf_def Let_def)
  show ?thesis
    using assms
    by (simp add: applyPatch_def checks orDefault_def sampleView_fields deltaFor_def state deleteFrom_def addTo_def
        sampleChanged_def Let_def)
qed

section \<open>Properties\<close>

text \<open>
  C13: applying a patch to a thread view changes exactly what the patch says.  On success the
  revision advances by one, every turn is what the patch makes of it, every unit is what the
  patch upserts, removes or leaves, and the collected delta of a turn holds its state before
  and after and turns the old units into the new ones; a turn without a delta is unchanged.
\<close>

theorem patch_applies_exactly:
  assumes live: "liveView a" and run: "applyPatch p a = Inr (d, a')"
  shows "currentRevision a' = currentRevision a + 1 \<and> currentHeader a' = orDefault (currentHeader a) (vpHeader p) \<and>
    (\<forall>t. viewTurn a' t = changedTo (changeAt (vpTurnChanges p) t) (viewTurn a t)) \<and>
    (\<forall>t k. unitAt a' t k = (case unitIn (vpUpsert p) t k of
       Some u \<Rightarrow> Some u
     | None \<Rightarrow> if k \<in> set (vpRemove p) \<or> removesTurn (changeAt (vpTurnChanges p) t) then None else unitAt a t k)) \<and>
    (\<forall>t. case map_of (vdTurns d) t of
       None \<Rightarrow> viewTurn a' t = viewTurn a t \<and> unitAt a' t = unitAt a t
     | Some td \<Rightarrow> tdPrevious td = viewTurn a t \<and> tdCurrent td = viewTurn a' t \<and> unitAt a' t = deltaUnits (unitAt a t) td)"
proof -
  have ok: "accOk a" using liveView_ok [OF live] by (simp add: viewOk_def)
  note result = applyPatch_result [OF ok run]
  have delta: "describes a a' t (deltaFor a' (vdTurns d) t)" for t using result by (simp add: deltasOk_def)
  have "case map_of (vdTurns d) t of
       None \<Rightarrow> viewTurn a' t = viewTurn a t \<and> unitAt a' t = unitAt a t
     | Some td \<Rightarrow> tdPrevious td = viewTurn a t \<and> tdCurrent td = viewTurn a' t \<and> unitAt a' t = deltaUnits (unitAt a t) td" for t
    using delta [of t] by (cases "map_of (vdTurns d) t") (simp_all add: describes_def deltaFor_def deltaUnits_def)
  moreover have "currentHeader a' = orDefault (currentHeader a) (vpHeader p)" using run by (simp add: applyPatch_Inr)
  ultimately show ?thesis using result by blast
qed

definition sampleSettle :: turn_upsert where
  "sampleSettle = \<lparr>tuTurn = (turnRecord (AgentExecution sampleAgent))\<lparr>vtStatus := StCompleted, vtUpdatedAt := 5\<rparr>, tuRevision = 0,
     tuUsage = emptyUsageState, tuNeedsResolution = None, tuPending = Some [], tuSettled = Some []\<rparr>"

lemma sampleSettle_fields: "vtId (tuTurn sampleSettle) = ''t''" "vtThreadId (tuTurn sampleSettle) = ''th''" "tuRevision sampleSettle = 0"
  "vtStatus (tuTurn sampleSettle) = StCompleted"
  by (simp_all add: sampleSettle_def sampleAgent_def)

lemma sampleView_live: "liveView sampleView"
  by (rule liveView.Loaded) (rule sampleView_load)

text \<open>A running turn is completed by a patch.\<close>

theorem patch_applies_exactly_witness:
  "viewTurn (sampleChanged sampleSettle) ''t'' = Some (changedTurnState sampleSettle) \<and>
   unitAt (sampleChanged sampleSettle) ''t'' (unKey sampleUnit) = Some sampleUnit \<and>
   activeTurnIds (sampleChanged sampleSettle) = []"
proof -
  have run: "applyPatch \<lparr>vpThreadId = ''th'', vpBaseRevision = 0, vpRevision = 1, vpUpsert = [], vpRemove = [],
      vpTurnChanges = [UpsertTurn sampleSettle], vpHeader = None\<rparr> sampleView =
    Inr (\<lparr>vdRevision = 1, vdHeaderChanged = False, vdTurns = [(''t'', \<lparr>tdPrevious = Some (turnState sampleEntry),
      tdCurrent = Some (changedTurnState sampleSettle), tdUpsert = [], tdRemove = []\<rparr>)]\<rparr>, sampleChanged sampleSettle)"
    by (rule samplePatch) (simp_all add: sampleSettle_fields)
  have "unitAt sampleView ''t'' (unKey sampleUnit) = Some sampleUnit" by (simp add: unitAt_def sampleView_fields)
  moreover have "activeTurnIds (sampleChanged sampleSettle) = []"
    by (simp add: sampleChanged_def sampleSettle_fields isActiveStatus_def)
  ultimately show ?thesis
    using patch_applies_exactly [OF sampleView_live run] by (simp add: changeAt_def sampleSettle_fields unitIn_def)
qed

text \<open>
  C31: a thread view survives being taken down as a snapshot and loaded again: the load
  succeeds, and header, revision, turns and units are as before, whatever the order in which
  the snapshot lists them.
\<close>

theorem view_survives_snapshot:
  assumes "liveView a"
  shows "\<exists>b. fromSnapshot (snapshotOf lib a) = Inr b \<and> currentHeader b = currentHeader a \<and>
    currentRevision b = currentRevision a \<and> viewTurn b = viewTurn a \<and> unitAt b = unitAt a \<and>
    set (activeTurnIds b) = set (activeTurnIds a)"
proof -
  have ok: "viewOk a" using assms by (rule liveView_ok)
  obtain b where b: "fromSnapshot (snapshotOf lib a) = Inr b" "sameView a b"
    using threadView.take_down_load [OF ok, of lib] by blast
  have "activeOk a" "activeOk b"
    using ok viewOk_load [OF b(1)] by (simp_all add: viewOk_def accOk_def indexOk_def)
  then have "set (activeTurnIds b) = set (activeTurnIds a)" using b(2) by (auto simp: activeOk_def sameView_def)
  with b show ?thesis by (intro exI [of _ b]) (simp add: sameView_def)
qed

theorem view_survives_snapshot_witness:
  "\<exists>b. fromSnapshot (snapshotOf sampleLibrary sampleView) = Inr b \<and> viewTurn b ''t'' = Some (turnState sampleEntry)"
proof -
  obtain b where "fromSnapshot (snapshotOf sampleLibrary sampleView) = Inr b" "viewTurn b = viewTurn sampleView"
    using view_survives_snapshot [OF sampleView_live, of sampleLibrary] by blast
  then show ?thesis by (intro exI [of _ b]) (simp add: sampleView_fields)
qed

text \<open>
  C14: once a turn was reported as settled, no late start, projection, queue change or title
  shows it in another state: whenever the feed shows the turn afterwards, it has the status it
  settled with.
\<close>

theorem settled_turn_stays_settled:
  assumes view: "fdCurrent (feedAfter lib evs makeThreadViewFeed) = Some a"
    and late: "\<forall>(now', ev) \<in> set late. isLateEvent ev"
    and fd: "fd = feedAfter lib (evs @ (now, TurnSettled (viewThreadId a) t st) # late) makeThreadViewFeed"
    and shown: "\<not> fdSnapshotRequired fd" "fdCurrent fd = Some a'" "viewTurn a' t = Some s"
  shows "vtStatus (tsTurn s) = st"
proof -
  let ?fd0 = "feedAfter lib evs makeThreadViewFeed"
  let ?fd1 = "snd (publish lib now (TurnSettled (viewThreadId a) t st) ?fd0)"
  have ok: "feedOk ?fd0" by (rule feedAfter_ok) (rule feedOk_start)
  have run: "fd = feedAfter lib late ?fd1" by (simp add: fd feedAfter_append)
  have "map_of (fdTerminal fd) t = Some st"
    unfolding run late_run [OF late] by (rule turnSettled_tracked [OF ok view refl])
  moreover have "feedOk fd" unfolding fd by (rule feedAfter_ok) (rule feedOk_start)
  ultimately show ?thesis using feedOk_current [OF _ shown(2,1)] shown(3) by (simp add: settledIn_def)
qed

definition sampleSettledFeed :: view_feed where
  "sampleSettledFeed = \<lparr>fdCurrent = Some (sampleChanged sampleSettle), fdSnapshotRequired = False, fdKnownThread = Some ''th'',
     fdRevisions = [], fdUsage = [], fdCheckpoints = [], fdTerminal = [(''t'', StCompleted)]\<rparr>"

lemma sampleFeed_settled:
  "publish sampleLibrary 5 (TurnSettled ''th'' ''t'' StCompleted) sampleFeed =
    ([ClientPatch \<lparr>vpThreadId = ''th'', vpBaseRevision = 0, vpRevision = 1, vpUpsert = [], vpRemove = [],
       vpTurnChanges = [UpsertTurn sampleSettle], vpHeader = None\<rparr>],
     sampleSettledFeed)"
proof -
  have c: "\<lparr>tuTurn = (tsTurn (turnState sampleEntry))\<lparr>vtStatus := StCompleted, vtUpdatedAt := 5\<rparr>,
      tuRevision = tsRevision (turnState sampleEntry), tuUsage = tsUsage (turnState sampleEntry), tuNeedsResolution = None,
      tuPending = Some (tsPending (turnState sampleEntry)), tuSettled = Some (tsSettled (turnState sampleEntry))\<rparr> = sampleSettle"
    by (simp add: sampleSettle_def turnState_def sampleEntry_def activeEntry_def orDefault_def)
  have run: "applyPatch \<lparr>vpThreadId = ''th'', vpBaseRevision = 0, vpRevision = 1, vpUpsert = [], vpRemove = [],
      vpTurnChanges = [UpsertTurn sampleSettle], vpHeader = None\<rparr> sampleView =
    Inr (\<lparr>vdRevision = 1, vdHeaderChanged = False, vdTurns = [(''t'', \<lparr>tdPrevious = Some (turnState sampleEntry),
      tdCurrent = Some (changedTurnState sampleSettle), tdUpsert = [], tdRemove = []\<rparr>)]\<rparr>, sampleChanged sampleSettle)"
    by (rule samplePatch) (simp_all add: sampleSettle_fields)
  show ?thesis
    by (simp add: turnSettled_def sampleFeed_def sampleView_fields c nextPatch_def publishPatch_def run rememberTerminal_def
        dropOldest_def trackedProjectionLimit_def sampleSettledFeed_def Let_def)
qed

text \<open>The turn settles, and a late start still says that it runs.\<close>

theorem settled_turn_stays_settled_witness:
  "map_option (vtStatus \<circ> tsTurn) (viewTurn (sampleChanged sampleSettle) ''t'') = Some StCompleted"
proof -
  let ?late = "[(6, TurnStarted ''th'' (AgentExecution sampleAgent))] :: (time \<times> runtime_event) list"
  let ?a = "sampleChanged sampleSettle"
  have view: "fdCurrent (feedAfter sampleLibrary [(0, SelectionLoaded sampleSelection)] makeThreadViewFeed) = Some sampleView"
    using sampleFeed_run by (simp add: sampleFeed_def del: publish.simps)
  have turn: "viewTurn ?a ''t'' = Some (changedTurnState sampleSettle)" by (simp add: viewTurn_def sampleChanged_def)
  have "viewThreadId ?a = ''th''" by (simp add: sampleChanged_def viewThreadId_def sampleView_fields sampleViewHeader_fields)
  then have "publish sampleLibrary 6 (TurnStarted ''th'' (AgentExecution sampleAgent)) sampleSettledFeed = ([], sampleSettledFeed)"
    by (simp add: turnStarted_def sampleAgent_def turn sampleSettledFeed_def)
  then have after: "feedAfter sampleLibrary ([(0, SelectionLoaded sampleSelection)] @
      (5, TurnSettled (viewThreadId sampleView) ''t'' StCompleted) # ?late) makeThreadViewFeed = sampleSettledFeed"
    by (simp add: sampleView_fields sampleFeed_run sampleFeed_settled del: publish.simps)
  have "vtStatus (tsTurn (changedTurnState sampleSettle)) = StCompleted"
    by (rule settled_turn_stays_settled [OF view _ after [symmetric] _ _ turn]) (simp_all add: sampleSettledFeed_def)
  with turn show ?thesis by simp
qed



end
