(* ===== verification/View_Limits.thy ===== *)
theory View_Limits
  imports View_Properties
begin

text \<open>
  Two limits of live views: a projection may change more units than a published patch may
  hold (execution/projection/checkpoint.ts, thread/view/limits.ts), and the usage a view keeps
  does not advance its cache counts.
\<close>

definition limitProjectionUnits :: nat where
  "limitProjectionUnits = 128"

definition wideUnits :: "transcript_unit list" where
  "wideUnits = map (\<lambda>i. sampleUnit\<lparr>unKey := [word_of_nat i]\<rparr>) [0..<121]"

definition wideProjection :: projection_change where
  "wideProjection = ProjectionPatch \<lparr>ppBaseRevision = 0, ppRevision = 1, ppCheckpoint = ''{}'', ppUpsert = wideUnits,
     ppRemove = [], ppState = \<lparr>pjStatus = StRunning, pjNeedsResolution = None, pjUsage = emptyUsageState, pjPending = None,
       pjSettled = None\<rparr>\<rparr>"

lemma wideUnits_distinct: "distinct (map unKey wideUnits)"
proof -
  have "inj_on (\<lambda>i. [word_of_nat i :: 16 word]) {0..<121}"
  proof (rule inj_onI)
    fix i j :: nat assume "i \<in> {0..<121}" "j \<in> {0..<121}" "[word_of_nat i :: 16 word] = [word_of_nat j]"
    then show "i = j" by (simp add: word_of_nat_eq_iff take_bit_nat_eq_self)
  qed
  then show ?thesis by (simp add: wideUnits_def distinct_map comp_def inj_on_def)
qed

lemma wideUnits_units: "u \<in> set wideUnits \<Longrightarrow> unTurnId u = ''t'' \<and> unRevision u = unRevision sampleUnit"
  by (auto simp: wideUnits_def sampleEntry_simps)

text \<open>A projection within its limit becomes a patch beyond the limit of patches.\<close>

lemma projection_outgrows_patch:
  "length wideUnits \<le> limitProjectionUnits \<and>
   (\<exists>p fd'. publish sampleLibrary 5 (ExecutionProjectionChanged ''th'' None wideProjection) sampleFeed = ([ClientPatch p], fd') \<and>
      length (vpUpsert p) > limitPatchItems)"
proof -
  define header where "header = sampleViewHeader\<lparr>vhUsage := nextUsage sampleLibrary (vhUsage sampleViewHeader) (Some emptyUsageState) emptyUsageState None\<rparr>"
  define r where "r = (tsTurn (turnState sampleEntry))\<lparr>vtStatus := StRunning, vtUpdatedAt := 5\<rparr>"
  define p where "p = \<lparr>vpThreadId = ''th'', vpBaseRevision = 0, vpRevision = 1, vpUpsert = wideUnits, vpRemove = [],
    vpTurnChanges = [projectionUpsert r wideProjection], vpHeader = Some header\<rparr>"
  have size: "length wideUnits = 121" by (simp add: wideUnits_def)
  obtain u us where cons: "wideUnits = u # us" using size by (cases wideUnits) auto
  then have "u \<in> set wideUnits" by (metis list.set_intros(1))
  then have u: "unTurnId u = ''t''" using wideUnits_units by blast
  have change: "projectionUpsert r wideProjection = UpsertTurn c \<Longrightarrow> vtId (tuTurn c) = ''t'' \<and> vtThreadId (tuTurn c) = ''th'' \<and> tuRevision c = 1" for c
    by (auto simp: projectionUpsert_def wideProjection_def r_def sampleState_fields)
  obtain c where c: "projectionUpsert r wideProjection = UpsertTurn c" by (simp add: projectionUpsert_def)
  have "upsertCheck sampleView v = Inr ()" if "v \<in> set wideUnits" for v
    using wideUnits_units [OF that] by (simp add: upsertCheck_def sampleView_fields)
  moreover have "upsertTurnCheck sampleView (changesOf [UpsertTurn c]) v = Inr ()" if "v \<in> set wideUnits" for v
    using wideUnits_units [OF that] change [OF c] by (simp add: upsertTurnCheck_def changesOf_def)
  ultimately have "accepted p sampleView"
    using change [OF c] wideUnits_distinct
    by (simp add: accepted_def p_def c sampleView_fields orDefault_def header_def sampleViewHeader_fields pendingOk_def
        sampleState_fields)
  then obtain d a' where run: "applyPatch p sampleView = Inr (d, a')" by (simp add: applyPatch_Inr)
  have block: "\<not> requiresProjectionCheckpoint wideProjection us" for us by (simp add: requiresProjectionCheckpoint_def wideProjection_def)
  have "nextPatch wideUnits [] [projectionUpsert r wideProjection] (Some header) sampleFeed =
      ([ClientPatch p], sampleFeed\<lparr>fdCurrent := Some a'\<rparr>)"
    using run by (simp add: nextPatch_def publishPatch_def sampleFeed_def sampleView_fields p_def)
  moreover have "changedUnits wideProjection = wideUnits" "pjStatus (changeState wideProjection) = StRunning"
      "baseAccepted wideProjection (Some 0)" "pjUsage (changeState wideProjection) = emptyUsageState"
      "removedKeys lib a t wideProjection = []" for lib a t
    by (simp_all add: wideProjection_def removedKeys_def)
  ultimately have "fst (publish sampleLibrary 5 (ExecutionProjectionChanged ''th'' None wideProjection) sampleFeed) = [ClientPatch p]"
    by (simp add: projectionChanged_def sampleFeed_def sampleView_fields block projectionTurnId_def cons u orDefault_def
        sampleState_fields acceptedProjection_def header_def [symmetric] r_def [symmetric] Let_def)
  then show ?thesis
    using size by (cases "publish sampleLibrary 5 (ExecutionProjectionChanged ''th'' None wideProjection) sampleFeed")
      (simp add: limitProjectionUnits_def limitPatchItems_def p_def del: publish.simps)
qed

text \<open>Whatever a turn reports, the cache counts of the thread's usage stay as they were.\<close>

lemma live_usage_keeps_cache:
  "usCache (vuState (nextUsage lib current previous new t)) = usCache (vuState current)"
  by (cases "usCache (vuState current)")
    (simp_all add: nextUsage_def aggregateUsage_def usageDelta_def catOptions_def sumCacheUsage_def Let_def)

end
