(* ===== verification/Client_Model.thy ===== *)
theory Client_Model
  imports Transcript_Identity "HOL-Library.AList"
begin

text \<open>
  What a client shows of a hosted session (packages/client/src/projection.ts): the snapshot of
  a session with the fields the projection reads, and the items, queue and activity it is
  projected to.  All texts are lists of UTF-16 code units, as offsets into previews count
  them.  A JSON value (the parameters and results of tools) is held as the text it is rendered
  to.  A Map is an association list in insertion order.
\<close>

section \<open>Sessions\<close>

datatype prompt_value = TextValue utf16 | JsonValue utf16

datatype prompt_part =
    TextPart utf16
  | ReasoningPart utf16
  | FilePart "utf16 option" utf16
  | ToolCallPart utf16 utf16
  | ToolResultPart utf16 prompt_value
  | ApprovalRequestPart utf16
  | ApprovalResponsePart utf16

datatype message_content = WholeContent utf16 | PartContent "prompt_part list"

datatype message_role = UserMessage | AssistantMessage | ToolMessage

type_synonym role_message = "message_role \<times> message_content"

datatype prompt_message = SystemMessage utf16 | RoleMessage message_role message_content

record conversation_entry =
  ceId :: utf16
  ceMessages :: "role_message list"

record conversation =
  cvLeafId :: "utf16 option"
  cvEntries :: "conversation_entry list"
  cvNextLeafId :: "utf16 option option"

record host_run =
  hrRunId :: utf16
  hrStatus :: utf16
  hrApproval :: bool
  hrParent :: "utf16 option"
  hrRoot :: utf16

record queued_prompt =
  qpId :: utf16
  qpPrompt :: "prompt_message list"
  qpRevision :: int

record host_session =
  seId :: utf16
  seTitle :: "utf16 option"
  seLifecycle :: utf16
  seActiveRun :: "utf16 option"
  seQueue :: "queued_prompt list"

record session_snapshot =
  ssSession :: host_session
  ssCursor :: int
  ssRuns :: "host_run list"
  ssConversation :: conversation

section \<open>What is shown\<close>

datatype projection_activity = Idle | Working | Waiting | ActivityCancelled | ActivityFailed

datatype item_kind = KindUser | KindAssistant | KindReasoning | KindToolItem | KindChild | KindNotice | KindError | KindImage

record projection_item =
  piId :: utf16
  piKind :: item_kind
  piTitle :: utf16
  piText :: utf16
  piStatus :: "projection_activity option"
  piChild :: "utf16 option"

record retained_session =
  reId :: utf16
  reParent :: "utf16 option"
  reInitialRun :: utf16
  reDepth :: int

record family_projection =
  faRoot :: utf16
  faAt :: int
  faSessions :: "retained_session list"
  faNextBefore :: "int option"

record collaborator_projection =
  coSession :: utf16
  coDepth :: int
  coLoaded :: bool

record prompt_image =
  imMediaType :: utf16
  imFileName :: "utf16 option"

record projection_pending =
  ppId :: utf16
  ppPrompt :: utf16
  ppTurnRevision :: int
  ppImages :: "prompt_image list"

datatype projection_target = RunnerTarget | OrbTarget

record projection_thread =
  ptId :: utf16
  ptTitle :: utf16
  ptTarget :: projection_target
  ptActivity :: projection_activity
  ptItems :: "projection_item list"
  ptPending :: "projection_pending list"
  ptActiveRun :: "utf16 option"
  ptCollaborators :: "collaborator_projection list option"

record preview_projection =
  prRunId :: utf16
  prAttemptFence :: int
  prModelCallId :: utf16
  prModelAttemptId :: utf16
  prAttempt :: int
  prGeneration :: int
  prSequence :: int
  prReasoning :: utf16
  prText :: utf16
  prCursor :: int

record preview_fence =
  fnAttemptFence :: int
  fnGeneration :: int
  fnModelCallId :: utf16
  fnModelAttemptId :: utf16

record client_state =
  csSessionId :: utf16
  csSnapshot :: session_snapshot
  csThread :: projection_thread
  csPreviews :: "(utf16 \<times> preview_projection) list"
  csFences :: "(utf16 \<times> preview_fence) list"
  csEpoch :: int
  csCursor :: int
  csNeedsSnapshot :: bool
  csFamily :: "family_projection option"

section \<open>Items\<close>

fun valueText :: "prompt_value \<Rightarrow> utf16" where
  "valueText (TextValue t) = t"
| "valueText (JsonValue t) = t"

fun textOfPart :: "prompt_part \<Rightarrow> utf16" where
  "textOfPart (TextPart t) = t"
| "textOfPart (ReasoningPart t) = t"
| "textOfPart (FilePart fileName mediaType) =
     plainText ''['' @ (case fileName of None \<Rightarrow> mediaType | Some n \<Rightarrow> n) @ plainText '']''"
| "textOfPart (ToolCallPart tool params) = tool @ plainText '' '' @ params"
| "textOfPart (ToolResultPart _ result) = valueText result"
| "textOfPart (ApprovalRequestPart call) = plainText ''Approval requested: '' @ call"
| "textOfPart (ApprovalResponsePart approval) = plainText ''Approval response: '' @ approval"

fun messageTexts :: "prompt_message \<Rightarrow> utf16 list" where
  "messageTexts (SystemMessage _) = []"
| "messageTexts (RoleMessage _ (WholeContent t)) = [t]"
| "messageTexts (RoleMessage _ (PartContent ps)) = map textOfPart ps"

text \<open>\<open>join\<close> with a separator of one code unit.\<close>

definition promptText :: "prompt_message list \<Rightarrow> utf16" where
  "promptText ms = joinWith 10 (concat (map messageTexts ms))"

definition runStatus :: "host_run \<Rightarrow> projection_activity" where
  "runStatus r =
     (if hrStatus r = plainText ''succeeded'' then Idle
      else if hrStatus r = plainText ''failed'' then ActivityFailed
      else if hrStatus r = plainText ''cancelled'' then ActivityCancelled
      else if hrApproval r then Waiting
      else Working)"

definition itemStatus :: "session_snapshot \<Rightarrow> utf16 \<Rightarrow> projection_activity" where
  "itemStatus s runId = (case find (\<lambda>r. hrRunId r = runId) (ssRuns s) of None \<Rightarrow> Working | Some r \<Rightarrow> runStatus r)"

fun roleKind :: "message_role \<Rightarrow> item_kind" where
  "roleKind UserMessage = KindUser"
| "roleKind AssistantMessage = KindAssistant"
| "roleKind ToolMessage = KindToolItem"

fun roleTitle :: "message_role \<Rightarrow> utf16" where
  "roleTitle UserMessage = plainText ''user''"
| "roleTitle AssistantMessage = plainText ''assistant''"
| "roleTitle ToolMessage = plainText ''tool''"

definition shownItem :: "utf16 \<Rightarrow> item_kind \<Rightarrow> utf16 \<Rightarrow> utf16 \<Rightarrow> projection_activity \<Rightarrow> projection_item" where
  "shownItem i kind title t st =
     \<lparr>piId = i, piKind = kind, piTitle = title, piText = t, piStatus = Some st, piChild = None\<rparr>"

fun partItem :: "utf16 \<Rightarrow> message_role \<Rightarrow> projection_activity \<Rightarrow> prompt_part \<Rightarrow> projection_item" where
  "partItem i role st (ReasoningPart t) = shownItem i KindReasoning (plainText ''Reasoning'') t st"
| "partItem i role st (TextPart t) = shownItem i (roleKind role) (roleTitle role) t st"
| "partItem i role st (FilePart fileName mediaType) =
     shownItem i KindImage (case fileName of None \<Rightarrow> mediaType | Some n \<Rightarrow> n) mediaType st"
| "partItem i role st (ToolCallPart tool params) = shownItem i KindToolItem tool (textOfPart (ToolCallPart tool params)) st"
| "partItem i role st (ToolResultPart tool result) = shownItem i KindToolItem tool (textOfPart (ToolResultPart tool result)) st"
| "partItem i role st (ApprovalRequestPart call) =
     shownItem i KindToolItem (plainText ''Authorization required'') (textOfPart (ApprovalRequestPart call)) Waiting"
| "partItem i role st (ApprovalResponsePart approval) =
     shownItem i KindToolItem (plainText ''Authorization'') (textOfPart (ApprovalResponsePart approval)) st"

definition indexText :: "nat \<Rightarrow> utf16" where
  "indexText n = numberText (Whole (int n))"

definition messageId :: "utf16 \<Rightarrow> nat \<Rightarrow> utf16" where
  "messageId entryId n = entryId @ plainText '':message:'' @ indexText n"

fun messageItem :: "utf16 \<Rightarrow> nat \<Rightarrow> role_message \<Rightarrow> projection_activity \<Rightarrow> projection_item list" where
  "messageItem entryId n (role, WholeContent t) st = [shownItem (messageId entryId n) (roleKind role) (roleTitle role) t st]"
| "messageItem entryId n (role, PartContent ps) st =
     map (\<lambda>(k, p). partItem (messageId entryId n @ plainText '':part:'' @ indexText k) role st p) (enumerate 0 ps)"

definition entryItems :: "session_snapshot \<Rightarrow> conversation_entry \<Rightarrow> projection_item list" where
  "entryItems s e = concat (map (\<lambda>(n, m). messageItem (ceId e) n m (itemStatus s (ceId e))) (enumerate 0 (ceMessages e)))"

definition childStatus :: "utf16 \<Rightarrow> projection_activity" where
  "childStatus st =
     (if st = plainText ''succeeded'' then Idle else if st = plainText ''failed'' then ActivityFailed else Working)"

definition familySessions :: "family_projection option \<Rightarrow> retained_session list" where
  "familySessions f = (case f of None \<Rightarrow> [] | Some f \<Rightarrow> faSessions f)"

text \<open>The last session of a family that began with a run: a later key of a Map replaces an earlier one.\<close>

definition sessionByInitialRun :: "family_projection option \<Rightarrow> utf16 \<Rightarrow> retained_session option" where
  "sessionByInitialRun f run = find (\<lambda>x. reInitialRun x = run) (rev (familySessions f))"

fun childItem :: "host_run \<Rightarrow> retained_session option \<Rightarrow> projection_item" where
  "childItem r None = \<lparr>piId = plainText ''child:'' @ hrRunId r, piKind = KindChild, piTitle = hrRunId r, piText = hrStatus r,
     piStatus = Some (childStatus (hrStatus r)), piChild = None\<rparr>"
| "childItem r (Some x) = \<lparr>piId = plainText ''child-session:'' @ reId x, piKind = KindChild, piTitle = reId x,
     piText = hrStatus r, piStatus = Some (childStatus (hrStatus r)), piChild = Some (reId x)\<rparr>"

fun runItems :: "family_projection option \<Rightarrow> host_run list \<Rightarrow> utf16 list \<Rightarrow> projection_item list \<times> utf16 list" where
  "runItems f [] emitted = ([], emitted)"
| "runItems f (r # rs) emitted =
     (if hrParent r = None then runItems f rs emitted
      else let x = orElse (sessionByInitialRun f (hrRunId r)) (sessionByInitialRun f (hrRoot r)) in
        case x of
          None \<Rightarrow> (case runItems f rs emitted of (items, em) \<Rightarrow> (childItem r None # items, em))
        | Some s \<Rightarrow>
            if reId s \<in> set emitted then runItems f rs emitted
            else (case runItems f rs (reId s # emitted) of (items, em) \<Rightarrow> (childItem r (Some s) # items, em)))"

fun sessionItems :: "family_projection option \<Rightarrow> retained_session list \<Rightarrow> utf16 list \<Rightarrow> projection_item list" where
  "sessionItems f [] emitted = []"
| "sessionItems f (x # xs) emitted =
     (if Some (reId x) = map_option faRoot f \<or> reId x \<in> set emitted then sessionItems f xs emitted
      else \<lparr>piId = plainText ''child-session:'' @ reId x, piKind = KindChild, piTitle = reId x, piText = [],
          piStatus = None, piChild = Some (reId x)\<rparr> # sessionItems f xs (reId x # emitted))"

definition previewItems :: "preview_projection \<Rightarrow> projection_item list" where
  "previewItems p =
     (if prReasoning p = [] then []
      else [shownItem (plainText ''preview:'' @ prRunId p @ plainText '':reasoning'') KindReasoning
        (plainText ''Reasoning preview'') (prReasoning p) Working]) @
     (if prText p = [] then []
      else [shownItem (plainText ''preview:'' @ prRunId p @ plainText '':text'') KindAssistant
        (plainText ''Rika preview'') (prText p) Working])"

definition itemsFromSnapshot :: "session_snapshot \<Rightarrow> (utf16 \<times> preview_projection) list \<Rightarrow> family_projection option \<Rightarrow>
    projection_item list" where
  "itemsFromSnapshot s previews f =
     (case runItems f (ssRuns s) [] of
        (children, emitted) \<Rightarrow>
          concat (map (entryItems s) (cvEntries (ssConversation s))) @ children @
          sessionItems f (familySessions f) emitted @ concat (map (previewItems \<circ> snd) previews))"

section \<open>Threads\<close>

fun partImage :: "prompt_part \<Rightarrow> prompt_image list" where
  "partImage (FilePart fileName mediaType) = [\<lparr>imMediaType = mediaType, imFileName = fileName\<rparr>]"
| "partImage _ = []"

fun messageImages :: "prompt_message \<Rightarrow> prompt_image list" where
  "messageImages (RoleMessage UserMessage (PartContent ps)) = concat (map partImage ps)"
| "messageImages _ = []"

definition pendingFromSnapshot :: "session_snapshot \<Rightarrow> projection_pending list" where
  "pendingFromSnapshot s = map (\<lambda>q. \<lparr>ppId = qpId q, ppPrompt = promptText (qpPrompt q), ppTurnRevision = qpRevision q,
     ppImages = concat (map messageImages (qpPrompt q))\<rparr>) (seQueue (ssSession s))"

definition activityFromSnapshot :: "session_snapshot \<Rightarrow> projection_activity" where
  "activityFromSnapshot s =
     (if seLifecycle (ssSession s) = plainText ''closed'' \<or> seLifecycle (ssSession s) = plainText ''stopped''
      then ActivityCancelled
      else case seActiveRun (ssSession s) of None \<Rightarrow> Idle | Some r \<Rightarrow> itemStatus s r)"

definition fenceOf :: "preview_projection \<Rightarrow> preview_fence" where
  "fenceOf p = \<lparr>fnAttemptFence = prAttemptFence p, fnGeneration = prGeneration p, fnModelCallId = prModelCallId p,
     fnModelAttemptId = prModelAttemptId p\<rparr>"

definition collaborators :: "session_snapshot \<Rightarrow> family_projection \<Rightarrow> collaborator_projection list" where
  "collaborators s f = map (\<lambda>x. \<lparr>coSession = reId x, coDepth = reDepth x,
       coLoaded = list_ex (\<lambda>r. hrRunId r = reInitialRun x \<or> hrRoot r = reInitialRun x) (ssRuns s)\<rparr>)
     (filter (\<lambda>x. reId x \<noteq> faRoot f) (faSessions f))"

definition projectThread :: "utf16 \<Rightarrow> utf16 option \<Rightarrow> session_snapshot \<Rightarrow> projection_target \<Rightarrow>
    (utf16 \<times> preview_projection) list \<Rightarrow> family_projection option \<Rightarrow> projection_thread" where
  "projectThread sessionId threadId s target previews f =
     \<lparr>ptId = (case threadId of None \<Rightarrow> sessionId | Some t \<Rightarrow> t),
      ptTitle = (case seTitle (ssSession s) of None \<Rightarrow> plainText ''Thread '' @ sessionId | Some t \<Rightarrow> t),
      ptTarget = target, ptActivity = activityFromSnapshot s, ptItems = itemsFromSnapshot s previews f,
      ptPending = pendingFromSnapshot s, ptActiveRun = seActiveRun (ssSession s),
      ptCollaborators = map_option (collaborators s) f\<rparr>"

text \<open>Absent arguments are None.\<close>

definition projectSnapshot :: "utf16 \<Rightarrow> utf16 option \<Rightarrow> session_snapshot \<Rightarrow> projection_target option \<Rightarrow>
    (utf16 \<times> preview_projection) list option \<Rightarrow> (utf16 \<times> preview_fence) list option \<Rightarrow> family_projection option \<Rightarrow>
    client_state" where
  "projectSnapshot sessionId threadId s target previews fences f =
     (let shown = (case previews of None \<Rightarrow> [] | Some ps \<Rightarrow> ps) in
      \<lparr>csSessionId = sessionId, csSnapshot = s,
       csThread = projectThread sessionId threadId s (case target of None \<Rightarrow> RunnerTarget | Some t \<Rightarrow> t) shown f,
       csPreviews = shown,
       csFences = (case fences of
          Some fs \<Rightarrow> fs
        | None \<Rightarrow> foldl (\<lambda>fs (run, p). AList.update run (fenceOf p) fs) [] shown),
       csEpoch = 0, csCursor = ssCursor s, csNeedsSnapshot = False, csFamily = f\<rparr>)"

end
