(* ===== verification/Client_Projection.thy ===== *)
theory Client_Projection
  imports Client_Model
begin

text \<open>
  The events of a connection to a hosted session and how the client applies them
  (packages/client/src/projection.ts, from applyConversation on): committed events in the order
  of their cursor, previews of a model's answer fenced by attempt and generation, and
  replacement snapshots with the epoch of their connection.
\<close>

section \<open>Events\<close>

datatype preview_channel = ReasoningChannel | TextChannel

record preview_change =
  chChannel :: preview_channel
  chOffset :: nat
  chDelta :: utf16

datatype preview_body =
    ModelPreview
      (pbModelCallId: utf16) (pbModelAttemptId: utf16) (pbAttempt: int) (pbGeneration: int)
      (pbSequence: int) (pbChanges: "preview_change list")
  | PreviewCleared (pbGeneration: int)

record preview_delivery =
  pdSessionId :: utf16
  pdRunId :: utf16
  pdAttemptFence :: int
  pdEventRunId :: utf16
  pdEvent :: preview_body

record conversation_update =
  cuPreviousLeafId :: "utf16 option"
  cuLeafId :: "utf16 option"
  cuNextLeafId :: "utf16 option option"
  cuReset :: bool
  cuAfterEntryId :: "utf16 option"
  cuEntries :: "conversation_entry list"

datatype committed_body = ConversationEvent conversation_update | OtherCommitted

datatype connection_event =
    ConnectionSnapshot int session_snapshot
  | PreviewDelivery preview_delivery
  | Committed utf16 int committed_body

datatype connection_status = Connecting | Connected | Retrying | Disconnected

datatype rejection =
    PreviewOfAnotherRun
  | PreviewOffsetExceeded
  | SnapshotOfAnotherSession
  | EventOfAnotherSession
  | CursorNotContiguous
  | LeafMismatch

datatype projection_result =
    ProjectionApplied (resultState: client_state)
  | ProjectionIgnored (resultState: client_state)
  | ProjectionRejected (resultState: client_state) rejection

section \<open>Committed events\<close>

text \<open>
  The number of entries kept before an update: \<open>findIndex\<close> is -1 for an entry that is
  not there, and then nothing is kept.
\<close>

fun keptEntries :: "conversation_entry list \<Rightarrow> utf16 option \<Rightarrow> nat" where
  "keptEntries es None = 0"
| "keptEntries es (Some after) =
     (let n = length (takeWhile (\<lambda>e. ceId e \<noteq> after) es) in if n < length es then n + 1 else 0)"

definition updatedEntries :: "conversation_entry list \<Rightarrow> conversation_update \<Rightarrow> conversation_entry list" where
  "updatedEntries es u = (if cuReset u then cuEntries u else take (keptEntries es (cuAfterEntryId u)) es @ cuEntries u)"

definition applyConversation :: "session_snapshot \<Rightarrow> conversation_update \<Rightarrow> session_snapshot option" where
  "applyConversation s u =
     (if cuPreviousLeafId u \<noteq> cvLeafId (ssConversation s) then None
      else Some (s\<lparr>ssConversation := (ssConversation s)\<lparr>
        cvLeafId := cuLeafId u,
        cvEntries := updatedEntries (cvEntries (ssConversation s)) u,
        cvNextLeafId := (case cuNextLeafId u of None \<Rightarrow> cvNextLeafId (ssConversation s) | Some l \<Rightarrow> Some l)\<rparr>\<rparr>))"

definition withSnapshot :: "client_state \<Rightarrow> session_snapshot \<Rightarrow> (utf16 \<times> preview_projection) list \<Rightarrow>
    (utf16 \<times> preview_fence) list \<Rightarrow> int \<Rightarrow> client_state" where
  "withSnapshot st s previews fences epoch =
     (projectSnapshot (csSessionId st) (Some (ptId (csThread st))) s (Some (ptTarget (csThread st)))
        (Some previews) (Some fences) (csFamily st))\<lparr>csFences := fences, csEpoch := epoch\<rparr>"

fun assistantMessage :: "role_message \<Rightarrow> bool" where
  "assistantMessage (role, _) = (role = AssistantMessage)"

fun answers :: "committed_body \<Rightarrow> bool" where
  "answers (ConversationEvent u) = list_ex (\<lambda>e. list_ex assistantMessage (ceMessages e)) (cuEntries u)"
| "answers OtherCommitted = False"

fun committedSnapshot :: "session_snapshot \<Rightarrow> committed_body \<Rightarrow> session_snapshot option" where
  "committedSnapshot s (ConversationEvent u) = applyConversation s u"
| "committedSnapshot s OtherCommitted = Some s"

definition applyCommitted :: "client_state \<Rightarrow> utf16 \<Rightarrow> int \<Rightarrow> committed_body \<Rightarrow> projection_result" where
  "applyCommitted st sessionId cursor b =
     (if sessionId \<noteq> csSessionId st then ProjectionRejected st EventOfAnotherSession
      else if cursor \<le> csCursor st then ProjectionIgnored st
      else if cursor \<noteq> csCursor st + 1 then ProjectionRejected (st\<lparr>csNeedsSnapshot := True\<rparr>) CursorNotContiguous
      else case committedSnapshot (csSnapshot st) b of
          None \<Rightarrow> ProjectionRejected (st\<lparr>csNeedsSnapshot := True\<rparr>) LeafMismatch
        | Some s \<Rightarrow>
            let snapshot = s\<lparr>ssCursor := cursor\<rparr>;
                previews = (if answers b then [] else csPreviews st) in
            ProjectionApplied (withSnapshot (st\<lparr>csSnapshot := snapshot, csCursor := cursor\<rparr>) snapshot previews
              (csFences st) (csEpoch st)))"

section \<open>Previews\<close>

definition previewEvent :: "preview_delivery \<Rightarrow> preview_projection" where
  "previewEvent d =
     (case pdEvent d of
        ModelPreview call attemptId attempt generation sequence _ \<Rightarrow>
          \<lparr>prRunId = pdRunId d, prAttemptFence = pdAttemptFence d, prModelCallId = call, prModelAttemptId = attemptId,
           prAttempt = attempt, prGeneration = generation, prSequence = sequence, prReasoning = [], prText = [],
           prCursor = -1\<rparr>
      | PreviewCleared generation \<Rightarrow>
          \<lparr>prRunId = pdRunId d, prAttemptFence = pdAttemptFence d, prModelCallId = [], prModelAttemptId = [],
           prAttempt = 0, prGeneration = generation, prSequence = -1, prReasoning = [], prText = [], prCursor = -1\<rparr>)"

text \<open>The attempt or the generation is older than the one last seen.\<close>

definition olderThan :: "int \<Rightarrow> int \<Rightarrow> int \<Rightarrow> int \<Rightarrow> bool" where
  "olderThan fence generation knownFence knownGeneration \<longleftrightarrow>
     fence < knownFence \<or> fence = knownFence \<and> generation < knownGeneration"

definition ignoredByFence :: "preview_projection \<Rightarrow> preview_fence \<Rightarrow> bool" where
  "ignoredByFence p f \<longleftrightarrow>
     olderThan (prAttemptFence p) (prGeneration p) (fnAttemptFence f) (fnGeneration f) \<or>
     prAttemptFence p = fnAttemptFence f \<and> prGeneration p = fnGeneration f \<and>
       (prModelCallId p \<noteq> fnModelCallId f \<or> prModelAttemptId p \<noteq> fnModelAttemptId f)"

definition ignoredByCurrent :: "preview_projection \<Rightarrow> preview_projection \<Rightarrow> bool" where
  "ignoredByCurrent p c \<longleftrightarrow>
     olderThan (prAttemptFence p) (prGeneration p) (prAttemptFence c) (prGeneration c) \<or>
     prAttemptFence p = prAttemptFence c \<and> prGeneration p = prGeneration c \<and> prSequence p \<le> prSequence c \<or>
     prModelCallId p \<noteq> prModelCallId c \<or> prModelAttemptId p \<noteq> prModelAttemptId c"

fun ignoredBy :: "('a \<Rightarrow> bool) \<Rightarrow> 'a option \<Rightarrow> bool" where
  "ignoredBy P None = False"
| "ignoredBy P (Some x) = P x"

text \<open>The reasoning and the text after the changes of a preview, unless an offset lies beyond its channel.\<close>

fun applyChanges :: "utf16 \<Rightarrow> utf16 \<Rightarrow> preview_change list \<Rightarrow> (utf16 \<times> utf16) option" where
  "applyChanges reasoning shown [] = Some (reasoning, shown)"
| "applyChanges reasoning shown (c # cs) =
     (let source = (if chChannel c = ReasoningChannel then reasoning else shown) in
      if length source < chOffset c then None
      else let changed = take (chOffset c) source @ chDelta c in
        if chChannel c = ReasoningChannel then applyChanges changed shown cs
        else applyChanges reasoning changed cs)"

definition clearingIgnored :: "preview_projection \<Rightarrow> preview_fence option \<Rightarrow> preview_projection option \<Rightarrow> bool" where
  "clearingIgnored p fence current \<longleftrightarrow>
     ignoredBy (\<lambda>f. olderThan (prAttemptFence p) (prGeneration p) (fnAttemptFence f) (fnGeneration f)) fence \<or>
     ignoredBy (\<lambda>c. olderThan (prAttemptFence p) (prGeneration p) (prAttemptFence c) (prGeneration c)) current"

definition applyPreview :: "client_state \<Rightarrow> preview_delivery \<Rightarrow> projection_result" where
  "applyPreview st d =
     (if pdSessionId d \<noteq> csSessionId st \<or> pdRunId d \<noteq> pdEventRunId d then ProjectionRejected st PreviewOfAnotherRun
      else let incoming = previewEvent d;
               current = map_of (csPreviews st) (pdRunId d);
               fence = map_of (csFences st) (pdRunId d) in
        case pdEvent d of
          ModelPreview _ _ _ _ _ changes \<Rightarrow>
            if ignoredBy (ignoredByFence incoming) fence \<or> ignoredBy (ignoredByCurrent incoming) current
            then ProjectionIgnored st
            else (case applyChanges (case current of None \<Rightarrow> [] | Some c \<Rightarrow> prReasoning c)
                (case current of None \<Rightarrow> [] | Some c \<Rightarrow> prText c) changes of
              None \<Rightarrow> ProjectionRejected st PreviewOffsetExceeded
            | Some (reasoning, shown) \<Rightarrow>
                let p = incoming\<lparr>prReasoning := reasoning, prText := shown, prCursor := csCursor st\<rparr>;
                    previews = AList.update (pdRunId d) p (csPreviews st);
                    fences = AList.update (pdRunId d) (fenceOf p) (csFences st) in
                ProjectionApplied (st\<lparr>csPreviews := previews, csFences := fences,
                  csThread := csThread (projectSnapshot (csSessionId st) (Some (ptId (csThread st))) (csSnapshot st)
                    (Some (ptTarget (csThread st))) (Some previews) (Some fences) (csFamily st))\<rparr>))
        | PreviewCleared _ \<Rightarrow>
            if clearingIgnored incoming fence current then ProjectionIgnored st
            else ProjectionApplied (st\<lparr>csPreviews := AList.delete (pdRunId d) (csPreviews st)\<rparr>))"

section \<open>Events of the connection\<close>

fun applyConnectionStatus :: "client_state \<Rightarrow> connection_status \<Rightarrow> client_state" where
  "applyConnectionStatus st Connected =
     st\<lparr>csThread := (csThread st)\<lparr>ptActivity := activityFromSnapshot (csSnapshot st)\<rparr>\<rparr>"
| "applyConnectionStatus st _ = st\<lparr>csThread := (csThread st)\<lparr>ptActivity := Waiting\<rparr>\<rparr>"

definition replaceSnapshot :: "client_state \<Rightarrow> int \<Rightarrow> session_snapshot \<Rightarrow> projection_result" where
  "replaceSnapshot st epoch s =
     (if seId (ssSession s) \<noteq> csSessionId st then ProjectionRejected st SnapshotOfAnotherSession
      else if epoch < csEpoch st then ProjectionIgnored st
      else ProjectionApplied ((projectSnapshot (csSessionId st) (Some (ptId (csThread st))) s
        (Some (ptTarget (csThread st))) None None (csFamily st))\<lparr>csFences := csFences st, csEpoch := epoch\<rparr>))"

fun applyConnectionEvent :: "client_state \<Rightarrow> connection_event \<Rightarrow> projection_result" where
  "applyConnectionEvent st (ConnectionSnapshot epoch s) = replaceSnapshot st epoch s"
| "applyConnectionEvent st (PreviewDelivery d) = applyPreview st d"
| "applyConnectionEvent st (Committed sessionId cursor b) = applyCommitted st sessionId cursor b"

text \<open>The state after a list of events, kept whatever the result (thread.ts, observeEvent).\<close>

fun afterEvents :: "client_state \<Rightarrow> connection_event list \<Rightarrow> client_state" where
  "afterEvents st [] = st"
| "afterEvents st (e # es) = afterEvents (resultState (applyConnectionEvent st e)) es"

end
