(* ===== verification/Client_Threads.thy ===== *)
theory Client_Threads
  imports Client_Projection
begin

text \<open>
  The thread client (packages/client/src/thread.ts): its public state, the variables of
  makeThreadClient, and its operations cut at their awaits.  An operation starts in one
  definition and goes on, with the answer it waited for, in another; what it had captured
  before is passed as arguments (a selection's epoch, a page's cursor).  The handle of an
  execution client is a type parameter.  Catalog metadata, sessions, snapshots, pages and
  receipts are the answers of services.
\<close>

section \<open>State\<close>

datatype client_connection = ConnectionConnecting | ConnectionConnected | ConnectionReconnecting | ConnectionDisconnected

datatype receipt_status = ReceiptActive | ReceiptQueued | ReceiptAccepted

record client_receipt =
  crCommandId :: utf16
  crId :: "utf16 option"
  crRevision :: "int option"
  crStatus :: receipt_status

record client_conflict =
  ccCommandId :: utf16
  ccReason :: utf16
  ccMessage :: utf16

record client_view =
  cvwEpoch :: int
  cvwThread :: "utf16 option"
  cvwSession :: "utf16 option"
  cvwFocused :: "utf16 option"
  cvwThreads :: "projection_thread list"
  cvwPreviews :: "(utf16 \<times> projection_item list) list"
  cvwProjection :: "client_state option"
  cvwConnection :: client_connection
  cvwNotice :: utf16
  cvwReceipt :: "client_receipt option"
  cvwConflict :: "client_conflict option"

record thread_metadata =
  tmId :: utf16
  tmTitle :: utf16
  tmTarget :: projection_target
  tmSessionId :: "utf16 option"

text \<open>
  \<open>tcFamilyTag\<close> stands for the identity of the object in \<open>rootFamily\<close>: each assignment of a new
  object counts it up.  A connection is known by a number (its fiber).
\<close>

record 'x thread_client =
  tcCurrent :: client_view
  tcSerial :: nat
  tcRefreshRevision :: nat
  tcDisposed :: bool
  tcFibers :: "(utf16 \<times> nat) list"
  tcNextFiber :: nat
  tcExecution :: "'x option"
  tcHistoryInFlight :: bool
  tcFamilyInFlight :: bool
  tcFocused :: "utf16 option"
  tcChildSerial :: nat
  tcConnected :: "utf16 list"
  tcFamily :: "family_projection option"
  tcFamilyTag :: nat
  tcProjections :: "(utf16 \<times> 'x \<times> client_state) list"
  tcCatalog :: "(utf16 \<times> thread_metadata) list"
  tcPreviewInFlight :: "utf16 list"

definition initialView :: client_view where
  "initialView = \<lparr>cvwEpoch = 0, cvwThread = None, cvwSession = None, cvwFocused = None, cvwThreads = [], cvwPreviews = [],
     cvwProjection = None, cvwConnection = ConnectionDisconnected, cvwNotice = [], cvwReceipt = None, cvwConflict = None\<rparr>"

definition makeThreadClient :: "'x thread_client" where
  "makeThreadClient = \<lparr>tcCurrent = initialView, tcSerial = 0, tcRefreshRevision = 0, tcDisposed = False, tcFibers = [],
     tcNextFiber = 0, tcExecution = None, tcHistoryInFlight = False, tcFamilyInFlight = False, tcFocused = None,
     tcChildSerial = 0, tcConnected = [], tcFamily = None, tcFamilyTag = 0, tcProjections = [], tcCatalog = [],
     tcPreviewInFlight = []\<rparr>"

section \<open>Errors\<close>

datatype client_error_kind =
  ClientNetwork | ClientProtocol | ClientUnauthorized | ClientForbidden | ClientConflict | ClientSelection | ClientClosed

record client_error =
  cxKind :: client_error_kind
  cxOperation :: utf16
  cxMessage :: utf16
  cxReason :: "utf16 option"

text \<open>An error of a service, as far as it decodes: its kind, its message and its rendering as text.\<close>

datatype service_error =
    QueueConflict (conflictReason: utf16) (conflictHint: utf16)
  | ServiceError (serviceKind: "utf16 option") (serviceMessage: "utf16 option") (serviceText: utf16)

definition errorKind :: "utf16 option \<Rightarrow> client_error_kind" where
  "errorKind k =
     (if k = Some (plainText ''unauthorized'') then ClientUnauthorized
      else if k = Some (plainText ''forbidden'') then ClientForbidden
      else if k = Some (plainText ''network'') then ClientNetwork
      else ClientProtocol)"

fun mapError :: "utf16 \<Rightarrow> service_error \<Rightarrow> client_error" where
  "mapError op (QueueConflict reason hint) =
     \<lparr>cxKind = ClientConflict, cxOperation = op, cxMessage = hint, cxReason = Some reason\<rparr>"
| "mapError op (ServiceError k m t) =
     \<lparr>cxKind = errorKind k, cxOperation = op, cxMessage = (case m of None \<Rightarrow> t | Some m \<Rightarrow> m), cxReason = None\<rparr>"

definition selectionError :: "utf16 \<Rightarrow> utf16 \<Rightarrow> client_error" where
  "selectionError op m = \<lparr>cxKind = ClientSelection, cxOperation = op, cxMessage = m, cxReason = None\<rparr>"

definition staleSelection :: "utf16 \<Rightarrow> client_error" where
  "staleSelection op = selectionError op (plainText ''The selected Thread changed before this command committed'')"

definition closedError :: "utf16 \<Rightarrow> client_error" where
  "closedError op = \<lparr>cxKind = ClientClosed, cxOperation = op, cxMessage = plainText ''Client is closed'', cxReason = None\<rparr>"

section \<open>Shared steps\<close>

definition nextCommandId :: "utf16 \<Rightarrow> utf16 option \<Rightarrow> 'x thread_client \<Rightarrow> utf16 \<times> 'x thread_client" where
  "nextCommandId op provided tc =
     (case provided of
        Some c \<Rightarrow> if c \<noteq> [] then (c, tc) else
          (plainText ''tui-v2:'' @ op @ plainText '':'' @ indexText (tcSerial tc + 1), tc\<lparr>tcSerial := tcSerial tc + 1\<rparr>)
      | None \<Rightarrow>
          (plainText ''tui-v2:'' @ op @ plainText '':'' @ indexText (tcSerial tc + 1), tc\<lparr>tcSerial := tcSerial tc + 1\<rparr>))"

definition publishView :: "client_view \<Rightarrow> 'x thread_client \<Rightarrow> 'x thread_client" where
  "publishView v tc = (if tcDisposed tc then tc else tc\<lparr>tcCurrent := v\<rparr>)"

definition replaceThread :: "projection_thread \<Rightarrow> projection_thread list \<Rightarrow> projection_thread list" where
  "replaceThread t ts = map (\<lambda>c. if ptId c = ptId t then t else c) ts"

definition withThread :: "projection_thread \<Rightarrow> projection_thread list \<Rightarrow> projection_thread list" where
  "withThread t ts = (if list_ex (\<lambda>c. ptId c = ptId t) ts then replaceThread t ts else ts @ [t])"

definition updateProjection :: "client_state \<Rightarrow> 'x thread_client \<Rightarrow> 'x thread_client" where
  "updateProjection p tc =
     (let tc1 = (case tcExecution tc of
            None \<Rightarrow> tc
          | Some x \<Rightarrow> tc\<lparr>tcProjections := AList.update (csSessionId p) (x, p) (tcProjections tc)\<rparr>);
          v = tcCurrent tc1 in
      publishView (v\<lparr>cvwProjection := Some p, cvwSession := Some (csSessionId p),
        cvwThreads := withThread (csThread p) (cvwThreads v),
        cvwThread := (case cvwThread v of None \<Rightarrow> Some (ptId (csThread p)) | Some t \<Rightarrow> Some t)\<rparr>) tc1)"

definition cachedProjection :: "'x thread_client \<Rightarrow> utf16 \<Rightarrow> client_state option" where
  "cachedProjection tc s =
     (case map_of (tcProjections tc) s of
        Some (x, p) \<Rightarrow> Some p
      | None \<Rightarrow>
          (case cvwProjection (tcCurrent tc) of
             Some p \<Rightarrow> if csSessionId p = s then Some p else None
           | None \<Rightarrow> None))"

definition executionOf :: "'x thread_client \<Rightarrow> utf16 \<Rightarrow> 'x option" where
  "executionOf tc s = (case map_of (tcProjections tc) s of Some (x, p) \<Rightarrow> Some x | None \<Rightarrow> tcExecution tc)"

definition storeProjection :: "utf16 \<Rightarrow> client_state \<Rightarrow> 'x thread_client \<Rightarrow> 'x thread_client" where
  "storeProjection s p tc =
     (case executionOf tc s of None \<Rightarrow> tc | Some x \<Rightarrow> tc\<lparr>tcProjections := AList.update s (x, p) (tcProjections tc)\<rparr>)"

definition showsSession :: "'x thread_client \<Rightarrow> utf16 \<Rightarrow> bool" where
  "showsSession tc s = (map_option csSessionId (cvwProjection (tcCurrent tc)) = Some s)"

definition staleEpoch :: "'x thread_client \<Rightarrow> int \<Rightarrow> bool" where
  "staleEpoch tc epoch \<longleftrightarrow> tcDisposed tc \<or> epoch \<noteq> cvwEpoch (tcCurrent tc)"

definition noticeView :: "utf16 \<Rightarrow> 'x thread_client \<Rightarrow> 'x thread_client" where
  "noticeView n tc = publishView ((tcCurrent tc)\<lparr>cvwNotice := n\<rparr>) tc"

text \<open>A projection made anew from its own snapshot, as after a change of the family.\<close>

definition reproject :: "session_snapshot \<Rightarrow> family_projection option \<Rightarrow> client_state \<Rightarrow> client_state" where
  "reproject s f p = projectSnapshot (csSessionId p) (Some (ptId (csThread p))) s (Some (ptTarget (csThread p)))
     (Some (csPreviews p)) (Some (csFences p)) f"

section \<open>Events and status of a connection\<close>

fun rejectionText :: "rejection \<Rightarrow> utf16" where
  "rejectionText PreviewOfAnotherRun = plainText ''Preview belongs to another Session or Run''"
| "rejectionText PreviewOffsetExceeded = plainText ''Preview offset exceeded current source''"
| "rejectionText SnapshotOfAnotherSession = plainText ''Replacement snapshot belongs to another Session''"
| "rejectionText EventOfAnotherSession = plainText ''Event belongs to another Session''"
| "rejectionText CursorNotContiguous = plainText ''Committed cursor is not contiguous''"
| "rejectionText LeafMismatch = plainText ''Conversation leaf did not match''"

fun eventSession :: "connection_event \<Rightarrow> utf16" where
  "eventSession (ConnectionSnapshot _ s) = seId (ssSession s)"
| "eventSession (PreviewDelivery d) = pdSessionId d"
| "eventSession (Committed s _ _) = s"

definition observeEvent :: "connection_event \<Rightarrow> int \<Rightarrow> 'x thread_client \<Rightarrow> 'x thread_client" where
  "observeEvent e epoch tc =
     (if staleEpoch tc epoch then tc
      else case cachedProjection tc (eventSession e) of
          None \<Rightarrow> tc
        | Some p \<Rightarrow>
            let r = applyConnectionEvent p e;
                tc1 = storeProjection (eventSession e) (resultState r) tc in
            if \<not> showsSession tc1 (eventSession e) then tc1
            else case r of
                ProjectionRejected p' why \<Rightarrow>
                  publishView ((tcCurrent tc1)\<lparr>cvwProjection := Some p', cvwNotice := rejectionText why\<rparr>) tc1
              | _ \<Rightarrow> updateProjection (resultState r) tc1)"

fun connectionOf :: "connection_status \<Rightarrow> client_connection" where
  "connectionOf Connected = ConnectionConnected"
| "connectionOf Retrying = ConnectionReconnecting"
| "connectionOf Disconnected = ConnectionDisconnected"
| "connectionOf Connecting = ConnectionConnecting"

definition observeStatus :: "connection_status \<Rightarrow> int \<Rightarrow> utf16 \<Rightarrow> 'x thread_client \<Rightarrow> 'x thread_client" where
  "observeStatus status epoch s tc =
     (if staleEpoch tc epoch then tc
      else let shown = map_option (\<lambda>p. applyConnectionStatus p status) (cachedProjection tc s);
               tc1 = (case shown of None \<Rightarrow> tc | Some p \<Rightarrow> storeProjection s p tc);
               v = (tcCurrent tc1)\<lparr>cvwConnection := connectionOf status\<rparr> in
        publishView (case shown of
            None \<Rightarrow> v
          | Some p \<Rightarrow>
              if showsSession tc1 s
              then v\<lparr>cvwProjection := Some p, cvwThreads := replaceThread (csThread p) (cvwThreads v)\<rparr>
              else v) tc1)"

text \<open>
  After a status the family is read again when the connection comes back: the session to read it
  of, if it is.  The first connection of a session is only noted.
\<close>

definition statusRefresh :: "connection_status \<Rightarrow> int \<Rightarrow> utf16 \<Rightarrow> 'x thread_client \<Rightarrow>
    ('x \<times> utf16) option \<times> 'x thread_client" where
  "statusRefresh status epoch s tc =
     (if (status \<noteq> Retrying \<and> status \<noteq> Connected) \<or> staleEpoch tc epoch then (None, tc)
      else case (tcFamily tc, tcExecution tc) of
          (Some f, Some x) \<Rightarrow>
            if status = Connected
            then (if s \<in> set (tcConnected tc) then Some (x, faRoot f) else None, tc\<lparr>tcConnected := List.insert s (tcConnected tc)\<rparr>)
            else (Some (x, faRoot f), tc)
        | _ \<Rightarrow> (None, tc))"

definition connectionFailed :: "int \<Rightarrow> service_error \<Rightarrow> 'x thread_client \<Rightarrow> 'x thread_client" where
  "connectionFailed epoch err tc =
     (if staleEpoch tc epoch then tc
      else publishView ((tcCurrent tc)\<lparr>cvwConnection := ConnectionDisconnected,
        cvwNotice := cxMessage (mapError (plainText ''events.connect'') err)\<rparr>) tc)"

definition stopConnection :: "utf16 option \<Rightarrow> 'x thread_client \<Rightarrow> 'x thread_client" where
  "stopConnection s tc =
     tc\<lparr>tcFibers := (case s of None \<Rightarrow> [] | Some s \<Rightarrow> AList.delete s (tcFibers tc))\<rparr>"

text \<open>A forked connection is registered while its selection is the current one, otherwise interrupted.\<close>

definition connectForSelection :: "utf16 \<Rightarrow> int \<Rightarrow> 'x thread_client \<Rightarrow> 'x thread_client" where
  "connectForSelection s epoch tc =
     (let tc1 = tc\<lparr>tcNextFiber := tcNextFiber tc + 1\<rparr> in
      if staleEpoch tc epoch then tc1 else tc1\<lparr>tcFibers := AList.update s (tcNextFiber tc) (tcFibers tc)\<rparr>)"

end
