(* ===== verification/Client_Selection.thy ===== *)
theory Client_Selection
  imports Client_Threads
begin

text \<open>
  Selecting a thread, its catalog, its family of sessions and its history
  (packages/client/src/thread.ts).  Each definition is the code between two awaits.
\<close>

section \<open>The catalog\<close>

definition placeholderThread :: "thread_metadata \<Rightarrow> projection_thread" where
  "placeholderThread m = \<lparr>ptId = tmId m, ptTitle = tmTitle m, ptTarget = tmTarget m, ptActivity = Idle, ptItems = [],
     ptPending = [], ptActiveRun = None, ptCollaborators = None\<rparr>"

definition refreshThreads :: "'x thread_client \<Rightarrow> nat \<times> 'x thread_client" where
  "refreshThreads tc = (tcRefreshRevision tc + 1, tc\<lparr>tcRefreshRevision := tcRefreshRevision tc + 1\<rparr>)"

definition catalogThread :: "projection_thread list \<Rightarrow> thread_metadata \<Rightarrow> projection_thread" where
  "catalogThread ts m =
     (case find (\<lambda>t. ptId t = tmId m) (rev ts) of
        None \<Rightarrow> placeholderThread m
      | Some t \<Rightarrow> t\<lparr>ptTitle := tmTitle m\<rparr>)"

definition threadsListed :: "nat \<Rightarrow> thread_metadata list \<Rightarrow> 'x thread_client \<Rightarrow> 'x thread_client" where
  "threadsListed revision page tc =
     (if tcDisposed tc \<or> revision \<noteq> tcRefreshRevision tc then tc
      else let tc1 = tc\<lparr>tcCatalog := foldl (\<lambda>c m. AList.update (tmId m) m c) (tcCatalog tc) page\<rparr>;
               v = tcCurrent tc1 in
        publishView (v\<lparr>cvwThreads := map (catalogThread (cvwThreads v)) page, cvwNotice := []\<rparr>) tc1)"

section \<open>Selecting\<close>

text \<open>The epoch of the new selection.\<close>

definition selectThread :: "utf16 \<Rightarrow> 'x thread_client \<Rightarrow> client_error + int \<times> 'x thread_client" where
  "selectThread threadId tc =
     (if tcDisposed tc then Inl (closedError (plainText ''thread.select''))
      else let epoch = cvwEpoch (tcCurrent tc) + 1;
               tc1 = tc\<lparr>tcSerial := tcSerial tc + 1, tcConnected := [], tcChildSerial := tcChildSerial tc + 1,
                 tcFamily := None, tcFocused := None, tcExecution := None, tcProjections := []\<rparr>;
               v = tcCurrent tc1 in
        Inr (epoch, stopConnection None (publishView (v\<lparr>cvwEpoch := epoch, cvwThread := Some threadId, cvwSession := None,
          cvwProjection := None, cvwConnection := ConnectionConnecting, cvwNotice := plainText ''Loading Thread'' @ [8230]\<rparr>) tc1)))"

definition metadataRead :: "int \<Rightarrow> utf16 \<Rightarrow> thread_metadata \<Rightarrow> 'x thread_client \<Rightarrow> 'x thread_client" where
  "metadataRead epoch threadId m tc =
     (if staleEpoch tc epoch then tc else tc\<lparr>tcCatalog := AList.update threadId m (tcCatalog tc)\<rparr>)"

text \<open>The command that makes sure of the session, when the selection is still the current one.\<close>

definition ensureSession :: "int \<Rightarrow> 'x thread_client \<Rightarrow> utf16 option \<times> 'x thread_client" where
  "ensureSession epoch tc =
     (if staleEpoch tc epoch then (None, tc)
      else case nextCommandId (plainText ''session'') None tc of (c, tc1) \<Rightarrow> (Some c, tc1))"

definition familyProjection :: "family_projection \<Rightarrow> family_projection option \<Rightarrow> bool \<Rightarrow> family_projection" where
  "familyProjection page previous preserveAt =
     \<lparr>faRoot = faRoot page,
      faAt = (if preserveAt then (case previous of None \<Rightarrow> faAt page | Some f \<Rightarrow> faAt f) else faAt page),
      faSessions = map snd (foldl (\<lambda>m x. AList.update (reId x) x m) []
        ((case previous of None \<Rightarrow> [] | Some f \<Rightarrow> faSessions f) @ faSessions page)),
      faNextBefore = faNextBefore page\<rparr>"

definition setFamily :: "family_projection \<Rightarrow> 'x thread_client \<Rightarrow> 'x thread_client" where
  "setFamily f tc = tc\<lparr>tcFamily := Some f, tcFamilyTag := tcFamilyTag tc + 1\<rparr>"

text \<open>The session, its snapshot and its family have been read for the thread of a selection.\<close>

definition selectionRead :: "int \<Rightarrow> utf16 \<Rightarrow> projection_target \<Rightarrow> 'x \<Rightarrow> utf16 \<Rightarrow> session_snapshot \<Rightarrow> family_projection \<Rightarrow>
    'x thread_client \<Rightarrow> 'x thread_client" where
  "selectionRead epoch threadId target x sessionId s page tc =
     (if staleEpoch tc epoch then tc
      else let f = familyProjection page None True;
               p = projectSnapshot sessionId (Some threadId) s (Some target) None None (Some f);
               tc1 = setFamily f (tc\<lparr>tcExecution := Some x, tcProjections := [(sessionId, x, p)]\<rparr>);
               tc2 = updateProjection p tc1 in
        connectForSelection sessionId epoch (publishView ((tcCurrent tc2)\<lparr>cvwConnection := ConnectionConnecting,
          cvwNotice := [], cvwFocused := None\<rparr>) tc2))"

section \<open>Previews of threads\<close>

text \<open>The metadata of a thread whose preview has to be read.\<close>

definition previewThread :: "utf16 \<Rightarrow> 'x thread_client \<Rightarrow> (thread_metadata \<times> utf16) option \<times> 'x thread_client" where
  "previewThread threadId tc =
     (if tcDisposed tc \<or> threadId \<in> set (tcPreviewInFlight tc) \<or> map_of (cvwPreviews (tcCurrent tc)) threadId \<noteq> None \<or>
         map_option (\<lambda>p. ptId (csThread p)) (cvwProjection (tcCurrent tc)) = Some threadId
      then (None, tc)
      else case map_of (tcCatalog tc) threadId of
          None \<Rightarrow> (None, tc)
        | Some m \<Rightarrow>
            (case tmSessionId m of
               None \<Rightarrow> (None, tc)
             | Some s \<Rightarrow>
                 (case map_of (tcProjections tc) s of
                    Some (x, p) \<Rightarrow> (None, publishView ((tcCurrent tc)\<lparr>cvwPreviews :=
                      AList.update threadId (ptItems (csThread p)) (cvwPreviews (tcCurrent tc))\<rparr>) tc)
                  | None \<Rightarrow> (Some (m, s), tc\<lparr>tcPreviewInFlight := threadId # tcPreviewInFlight tc\<rparr>))))"

definition previewRead :: "utf16 \<Rightarrow> utf16 \<Rightarrow> projection_target \<Rightarrow> session_snapshot \<Rightarrow> 'x thread_client \<Rightarrow> 'x thread_client" where
  "previewRead threadId sessionId target s tc =
     (let p = projectSnapshot sessionId (Some threadId) s (Some target) None None None;
          tc1 = publishView ((tcCurrent tc)\<lparr>cvwPreviews := AList.update threadId (ptItems (csThread p)) (cvwPreviews (tcCurrent tc))\<rparr>) tc in
      tc1\<lparr>tcPreviewInFlight := removeAll threadId (tcPreviewInFlight tc1)\<rparr>)"

definition previewFailed :: "utf16 \<Rightarrow> 'x thread_client \<Rightarrow> 'x thread_client" where
  "previewFailed threadId tc = tc\<lparr>tcPreviewInFlight := removeAll threadId (tcPreviewInFlight tc)\<rparr>"

section \<open>The family\<close>

text \<open>A reading of the family begins, unless one is under way.\<close>

definition refreshFamily :: "'x thread_client \<Rightarrow> bool \<times> 'x thread_client" where
  "refreshFamily tc = (if tcFamilyInFlight tc then (False, tc) else (True, tc\<lparr>tcFamilyInFlight := True\<rparr>))"

definition withFamily :: "family_projection option \<Rightarrow> 'x \<times> client_state \<Rightarrow> 'x \<times> client_state" where
  "withFamily f = (\<lambda>(x, p). (x, reproject (csSnapshot p) f p))"

definition familyRefreshed :: "int \<Rightarrow> family_projection \<Rightarrow> 'x thread_client \<Rightarrow> 'x thread_client" where
  "familyRefreshed epoch page tc =
     (let tc' =
        (if staleEpoch tc epoch then tc
         else let f = familyProjection page (tcFamily tc) False;
                  tc1 = setFamily f tc;
                  tc2 = tc1\<lparr>tcProjections := map (\<lambda>(s, c). (s, withFamily (Some f) c)) (tcProjections tc1),
                    tcFocused := (case tcFocused tc1 of None \<Rightarrow> None
                      | Some s \<Rightarrow> if list_ex (\<lambda>x. reId x = s) (faSessions f) then Some s else None)\<rparr>;
                  active = (case tcFocused tc2 of None \<Rightarrow> faRoot f | Some s \<Rightarrow> s);
                  tc3 = (case map_of (tcProjections tc2) active of None \<Rightarrow> tc2 | Some (x, p) \<Rightarrow> updateProjection p tc2) in
           publishView ((tcCurrent tc3)\<lparr>cvwFocused := tcFocused tc3, cvwNotice := []\<rparr>) tc3) in
      tc'\<lparr>tcFamilyInFlight := False\<rparr>)"

text \<open>A reading begun by a status tells its failure to the user of the current selection.\<close>

definition familyRefreshFailed :: "int \<Rightarrow> service_error \<Rightarrow> 'x thread_client \<Rightarrow> 'x thread_client" where
  "familyRefreshFailed epoch err tc =
     (let tc1 = tc\<lparr>tcFamilyInFlight := False\<rparr> in
      if staleEpoch tc1 epoch then tc1
      else noticeView (cxMessage (mapError (plainText ''session.family'') err)) tc1)"

text \<open>The request for more collaborators: the root session, the time of the family and the place to go on.\<close>

definition loadMoreCollaborators :: "'x thread_client \<Rightarrow> client_error + (int \<times> utf16 \<times> int \<times> int) option \<times> 'x thread_client" where
  "loadMoreCollaborators tc =
     (case tcFamily tc of
        None \<Rightarrow> Inr (None, tc)
      | Some f \<Rightarrow>
          (case faNextBefore f of
             None \<Rightarrow> Inr (None, tc)
           | Some before \<Rightarrow>
               if tcFamilyInFlight tc then Inr (None, tc)
               else if map_of (tcProjections tc) (faRoot f) = None then Inl (staleSelection (plainText ''session.family''))
               else Inr (Some (cvwEpoch (tcCurrent tc), faRoot f, faAt f, before), tc\<lparr>tcFamilyInFlight := True\<rparr>)))"

definition collaboratorsLoaded :: "int \<Rightarrow> family_projection \<Rightarrow> 'x thread_client \<Rightarrow> 'x thread_client" where
  "collaboratorsLoaded epoch page tc =
     (let tc' =
        (if staleEpoch tc epoch \<or> tcFamily tc = None then tc
         else let f = familyProjection page (tcFamily tc) True;
                  tc1 = setFamily f tc in
           case map_of (tcProjections tc1) (faRoot f) of
             None \<Rightarrow> tc1
           | Some (x, p) \<Rightarrow>
               let q = reproject (csSnapshot p) (Some f) p;
                   tc2 = tc1\<lparr>tcProjections := AList.update (csSessionId p) (x, q) (tcProjections tc1)\<rparr> in
               if tcFocused tc2 = None then updateProjection q tc2 else tc2) in
      tc'\<lparr>tcFamilyInFlight := False\<rparr>)"

definition collaboratorsFailed :: "'x thread_client \<Rightarrow> 'x thread_client" where
  "collaboratorsFailed tc = tc\<lparr>tcFamilyInFlight := False\<rparr>"

end
