(* ===== verification/Client_Commands.thy ===== *)
theory Client_Commands
  imports Client_Selection
begin

text \<open>
  Commands on the selected session, older pages of its history and its child sessions
  (packages/client/src/thread.ts).  Each definition is the code between two awaits.
\<close>

section \<open>The selection of a command\<close>

record 'x selection_context =
  scEpoch :: int
  scSession :: utf16
  scExecution :: 'x
  scProjection :: client_state

definition selectionOf :: "'x thread_client \<Rightarrow> 'x selection_context option" where
  "selectionOf tc =
     (case (cvwSession (tcCurrent tc), cvwProjection (tcCurrent tc), tcExecution tc) of
        (Some s, Some p, Some x) \<Rightarrow>
          Some \<lparr>scEpoch = cvwEpoch (tcCurrent tc), scSession = s, scExecution = x, scProjection = p\<rparr>
      | _ \<Rightarrow> None)"

definition sameSelection :: "'x selection_context \<Rightarrow> 'x thread_client \<Rightarrow> bool" where
  "sameSelection c tc \<longleftrightarrow> cvwEpoch (tcCurrent tc) = scEpoch c \<and> cvwSession (tcCurrent tc) = Some (scSession c)"

definition failCommand :: "utf16 \<Rightarrow> utf16 \<Rightarrow> service_error \<Rightarrow> 'x thread_client \<Rightarrow> client_error \<times> 'x thread_client" where
  "failCommand op command err tc =
     (let e = mapError op err; v = tcCurrent tc in
      (e, case cxReason e of
            Some r \<Rightarrow>
              (if cxKind e = ClientConflict
               then publishView (v\<lparr>cvwConflict := Some \<lparr>ccCommandId = command, ccReason = r, ccMessage = cxMessage e\<rparr>,
                 cvwNotice := cxMessage e\<rparr>) tc
               else noticeView (cxMessage e) tc)
          | None \<Rightarrow> noticeView (cxMessage e) tc))"

definition withReceipt :: "client_receipt \<Rightarrow> 'x thread_client \<Rightarrow> 'x thread_client" where
  "withReceipt r tc = publishView ((tcCurrent tc)\<lparr>cvwReceipt := Some r, cvwConflict := None\<rparr>) tc"

section \<open>Commands\<close>

datatype control_action = ControlStop | ControlClose | ControlResume

text \<open>What an execution client is asked to do.\<close>

datatype execution_request =
    SubmitInput utf16 (rqCommand: utf16) utf16
  | UpdateInput utf16 utf16 (rqCommand: utf16) int utf16
  | RemoveInput utf16 utf16 (rqCommand: utf16) int
  | SteerRun utf16 (rqCommand: utf16) utf16
  | CancelRun utf16 (rqCommand: utf16) "utf16 option"
  | ControlSession utf16 (rqCommand: utf16) control_action

text \<open>A command under way: its operation, its selection, its request and the status of its receipt.\<close>

record 'x client_command =
  cmOperation :: utf16
  cmSelection :: "'x selection_context"
  cmRequest :: execution_request
  cmStatus :: receipt_status

type_synonym 'x command_start = "client_error + 'x client_command \<times> 'x thread_client"

definition startCommand :: "utf16 \<Rightarrow> utf16 \<Rightarrow> utf16 option \<Rightarrow> 'x selection_context \<Rightarrow> (utf16 \<Rightarrow> execution_request) \<Rightarrow>
    receipt_status \<Rightarrow> 'x thread_client \<Rightarrow> 'x command_start" where
  "startCommand op idName provided c request st tc =
     (case nextCommandId idName provided tc of
        (command, tc1) \<Rightarrow> Inr (\<lparr>cmOperation = op, cmSelection = c, cmRequest = request command, cmStatus = st\<rparr>, tc1))"

definition submitPrompt :: "utf16 \<Rightarrow> utf16 option \<Rightarrow> 'x thread_client \<Rightarrow> 'x command_start" where
  "submitPrompt prompt provided tc =
     (case selectionOf tc of
        None \<Rightarrow> Inl (selectionError (plainText ''submit'') (plainText ''Select a Thread first''))
      | Some c \<Rightarrow> startCommand (plainText ''queue.submit'') (plainText ''submit'') provided c
          (\<lambda>command. SubmitInput (scSession c) command prompt)
          (if seActiveRun (ssSession (csSnapshot (scProjection c))) = None then ReceiptActive else ReceiptQueued) tc)"

definition pendingOf :: "utf16 \<Rightarrow> 'x selection_context \<Rightarrow> queued_prompt option" where
  "pendingOf i c = find (\<lambda>q. qpId q = i) (seQueue (ssSession (csSnapshot (scProjection c))))"

definition notLoaded :: "utf16 \<Rightarrow> client_error" where
  "notLoaded op = selectionError op (plainText ''Pending instruction is no longer loaded'')"

definition editPending :: "utf16 \<Rightarrow> utf16 \<Rightarrow> utf16 option \<Rightarrow> 'x thread_client \<Rightarrow> 'x command_start" where
  "editPending i prompt provided tc =
     (case selectionOf tc of
        None \<Rightarrow> Inl (notLoaded (plainText ''queue.edit''))
      | Some c \<Rightarrow>
          (case pendingOf i c of
             None \<Rightarrow> Inl (notLoaded (plainText ''queue.edit''))
           | Some q \<Rightarrow> startCommand (plainText ''queue.edit'') (plainText ''queue-edit'') provided c
               (\<lambda>command. UpdateInput (scSession c) i command (qpRevision q) prompt) ReceiptAccepted tc))"

definition removePending :: "utf16 \<Rightarrow> utf16 option \<Rightarrow> 'x thread_client \<Rightarrow> 'x command_start" where
  "removePending i provided tc =
     (case selectionOf tc of
        None \<Rightarrow> Inl (notLoaded (plainText ''queue.remove''))
      | Some c \<Rightarrow>
          (case pendingOf i c of
             None \<Rightarrow> Inl (notLoaded (plainText ''queue.remove''))
           | Some q \<Rightarrow> startCommand (plainText ''queue.remove'') (plainText ''queue-remove'') provided c
               (\<lambda>command. RemoveInput (scSession c) i command (qpRevision q)) ReceiptAccepted tc))"

definition activeRun :: "client_state \<Rightarrow> utf16 option \<Rightarrow> utf16 option" where
  "activeRun p target = orElse target (seActiveRun (ssSession (csSnapshot p)))"

definition steerRun :: "utf16 \<Rightarrow> utf16 option \<Rightarrow> utf16 option \<Rightarrow> 'x thread_client \<Rightarrow> 'x command_start" where
  "steerRun prompt provided target tc =
     (case selectionOf tc of
        None \<Rightarrow> Inl (selectionError (plainText ''run.steer'') (plainText ''Select a Thread first''))
      | Some c \<Rightarrow>
          (case activeRun (scProjection c) target of
             None \<Rightarrow> Inl (selectionError (plainText ''run.steer'') (plainText ''No active Run is available''))
           | Some r \<Rightarrow> startCommand (plainText ''run.steer'') (plainText ''steer'') provided c
               (\<lambda>command. SteerRun r command prompt) ReceiptAccepted tc))"

definition cancelRun :: "utf16 option \<Rightarrow> utf16 option \<Rightarrow> utf16 option \<Rightarrow> 'x thread_client \<Rightarrow> 'x command_start" where
  "cancelRun provided reason target tc =
     (case selectionOf tc of
        None \<Rightarrow> Inl (selectionError (plainText ''run.cancel'') (plainText ''Select a Thread first''))
      | Some c \<Rightarrow>
          (case activeRun (scProjection c) target of
             None \<Rightarrow> Inl (selectionError (plainText ''run.cancel'') (plainText ''No active Run is available''))
           | Some r \<Rightarrow> startCommand (plainText ''run.cancel'') (plainText ''cancel'') provided c
               (\<lambda>command. CancelRun r command reason) ReceiptAccepted tc))"

definition familyHas :: "'x thread_client \<Rightarrow> utf16 \<Rightarrow> bool" where
  "familyHas tc s = list_ex (\<lambda>x. reId x = s) (familySessions (tcFamily tc))"

definition followUp :: "utf16 \<Rightarrow> utf16 option \<Rightarrow> utf16 option \<Rightarrow> 'x thread_client \<Rightarrow> 'x command_start" where
  "followUp prompt child provided tc =
     (let op = plainText ''follow-up''; selected = selectionOf tc;
          requested = orElse child (orElse (tcFocused tc) (map_option scSession selected)) in
      if child \<noteq> None \<and> child \<noteq> tcFocused tc
      then Inl (selectionError op (plainText ''Open that collaborator before sending a follow-up''))
      else if requested \<noteq> None \<and> requested \<noteq> map_option scSession selected \<and> \<not> familyHas tc (the requested)
      then Inl (selectionError op (plainText ''Collaborator is not available''))
      else case (requested, selected) of
          (Some s, Some c) \<Rightarrow> startCommand op op provided c (\<lambda>command. SubmitInput s command prompt) ReceiptAccepted tc
        | _ \<Rightarrow> Inl (selectionError op (plainText ''No retained Session is selected'')))"

fun controlOperation :: "control_action \<Rightarrow> utf16" where
  "controlOperation ControlStop = plainText ''session.stop''"
| "controlOperation ControlClose = plainText ''session.close''"
| "controlOperation ControlResume = plainText ''session.resume''"

definition controlSession :: "control_action \<Rightarrow> utf16 option \<Rightarrow> 'x thread_client \<Rightarrow> 'x command_start" where
  "controlSession action provided tc =
     (case selectionOf tc of
        None \<Rightarrow> Inl (selectionError (controlOperation action) (plainText ''Select a Thread first''))
      | Some c \<Rightarrow> startCommand (controlOperation action) (controlOperation action) provided c
          (\<lambda>command. ControlSession (scSession c) command action) ReceiptAccepted tc)"

text \<open>The receipt shows the id and the revision that were answered for a queued input.\<close>

fun queuesInput :: "execution_request \<Rightarrow> bool" where
  "queuesInput (SubmitInput _ _ _) = True"
| "queuesInput (UpdateInput _ _ _ _ _) = True"
| "queuesInput (RemoveInput _ _ _ _) = True"
| "queuesInput _ = False"

definition commandAnswered :: "'x client_command \<Rightarrow> service_error + utf16 \<times> int \<Rightarrow> 'x thread_client \<Rightarrow>
    (client_error + client_receipt) \<times> 'x thread_client" where
  "commandAnswered m answer tc =
     (case answer of
        Inl err \<Rightarrow> (case failCommand (cmOperation m) (rqCommand (cmRequest m)) err tc of (e, tc1) \<Rightarrow> (Inl e, tc1))
      | Inr (i, n) \<Rightarrow>
          if \<not> sameSelection (cmSelection m) tc then (Inl (staleSelection (cmOperation m)), tc)
          else let queued = queuesInput (cmRequest m);
                   r = \<lparr>crCommandId = rqCommand (cmRequest m), crId = (if queued then Some i else None),
                     crRevision = (if queued then Some n else None), crStatus = cmStatus m\<rparr> in
            (Inr r, withReceipt r tc))"

section \<open>Older history\<close>

record history_page =
  hpLeafId :: "utf16 option"
  hpEntries :: "conversation_entry list"
  hpNextLeafId :: "utf16 option"

text \<open>The selection and the cursor to read before, unless a page is on its way or all is loaded.\<close>

definition loadOlder :: "'x thread_client \<Rightarrow> ('x selection_context \<times> utf16 option) option \<times> 'x thread_client" where
  "loadOlder tc =
     (if tcHistoryInFlight tc then (None, tc)
      else case selectionOf tc of
          None \<Rightarrow> (None, tc)
        | Some c \<Rightarrow>
            (case cvNextLeafId (ssConversation (csSnapshot (scProjection c))) of
               None \<Rightarrow> (None, tc)
             | Some leaf \<Rightarrow> (Some (c, leaf), tc\<lparr>tcHistoryInFlight := True\<rparr>)))"

definition olderEntries :: "conversation_entry list \<Rightarrow> conversation_entry list \<Rightarrow> conversation_entry list" where
  "olderEntries page entries = filter (\<lambda>e. ceId e \<notin> ceId ` set entries) page @ entries"

definition withOlder :: "history_page \<Rightarrow> conversation \<Rightarrow> conversation" where
  "withOlder page v = v\<lparr>cvEntries := olderEntries (hpEntries page) (cvEntries v),
     cvNextLeafId := (case hpNextLeafId page of None \<Rightarrow> None | Some l \<Rightarrow> Some (Some l))\<rparr>"

definition historyRead :: "'x selection_context \<Rightarrow> utf16 option \<Rightarrow> service_error + history_page \<Rightarrow> 'x thread_client \<Rightarrow>
    client_error option \<times> 'x thread_client" where
  "historyRead c leaf answer tc =
     (let op = plainText ''session.history'';
          (r, tc1) =
        (case answer of
           Inl err \<Rightarrow> (Some (mapError op err), tc)
         | Inr page \<Rightarrow>
             if \<not> sameSelection c tc then (Some (staleSelection op), tc)
             else case cvwProjection (tcCurrent tc) of
                 None \<Rightarrow> (Some (staleSelection op), tc)
               | Some p \<Rightarrow>
                   let s = csSnapshot p; v = ssConversation s in
                   if csSessionId p \<noteq> scSession c \<or> cvNextLeafId v \<noteq> Some leaf \<or> hpLeafId page \<noteq> leaf
                   then (Some (staleSelection op), tc)
                   else (None, updateProjection (reproject (s\<lparr>ssConversation := withOlder page v\<rparr>) (tcFamily tc) p) tc)) in
      (r, tc1\<lparr>tcHistoryInFlight := False\<rparr>))"

section \<open>Child sessions\<close>

text \<open>What openChildSession has captured before it waits for the snapshot of a child.\<close>

record 'x child_opening =
  kdSession :: utf16
  kdEpoch :: int
  kdSerial :: nat
  kdFamilyTag :: nat
  kdFamily :: family_projection
  kdExecution :: 'x
  kdThread :: utf16
  kdTarget :: projection_target
  kdCached :: "client_state option"

definition openChildSession :: "utf16 \<Rightarrow> 'x thread_client \<Rightarrow> client_error + 'x child_opening \<times> 'x thread_client" where
  "openChildSession s tc =
     (let op = plainText ''session.open'' in
      if tcDisposed tc then Inl (closedError op)
      else case tcFamily tc of
          None \<Rightarrow> Inl (selectionError op (plainText ''Collaborator is not available''))
        | Some f \<Rightarrow>
            if \<not> familyHas tc s \<or> faRoot f = s then Inl (selectionError op (plainText ''Collaborator is not available''))
            else case map_of (tcProjections tc) (faRoot f) of
                None \<Rightarrow> Inl (staleSelection op)
              | Some (x, root) \<Rightarrow>
                  Inr (\<lparr>kdSession = s, kdEpoch = cvwEpoch (tcCurrent tc), kdSerial = tcChildSerial tc + 1,
                    kdFamilyTag = tcFamilyTag tc, kdFamily = f, kdExecution = x, kdThread = ptId (csThread root),
                    kdTarget = ptTarget (csThread root), kdCached = map_option snd (map_of (tcProjections tc) s)\<rparr>,
                    tc\<lparr>tcChildSerial := tcChildSerial tc + 1\<rparr>))"

text \<open>The projection of the child: the cached one, or one of the snapshot that was read.\<close>

definition childProjection :: "'x child_opening \<Rightarrow> session_snapshot \<Rightarrow> client_state" where
  "childProjection k s =
     (case kdCached k of
        Some p \<Rightarrow> p
      | None \<Rightarrow> projectSnapshot (kdSession k) (Some (kdThread k)) s (Some (kdTarget k)) None None (Some (kdFamily k)))"

text \<open>
  With the snapshot at hand the opening goes on if nothing has changed.  The connection of
  another child that was open is stopped, which is awaited: then the second component is true.
\<close>

definition childRead :: "'x child_opening \<Rightarrow> 'x thread_client \<Rightarrow> client_error + bool \<times> 'x thread_client" where
  "childRead k tc =
     (if staleEpoch tc (kdEpoch k) \<or> kdSerial k \<noteq> tcChildSerial tc \<or> tcFamilyTag tc \<noteq> kdFamilyTag k \<or>
         tcFamily tc = None \<or> cvwThread (tcCurrent tc) \<noteq> Some (kdThread k)
      then Inl (staleSelection (plainText ''session.open''))
      else case tcFocused tc of
          None \<Rightarrow> Inr (False, tc)
        | Some previous \<Rightarrow> if previous = kdSession k then Inr (False, tc) else Inr (True, stopConnection (Some previous) tc))"

definition childOpened :: "'x child_opening \<Rightarrow> session_snapshot \<Rightarrow> utf16 option \<Rightarrow> 'x thread_client \<Rightarrow> 'x thread_client" where
  "childOpened k s stopped tc =
     (let p = childProjection k s;
          tc1 = tc\<lparr>tcConnected := (case stopped of None \<Rightarrow> tcConnected tc | Some previous \<Rightarrow> removeAll previous (tcConnected tc)),
            tcProjections := AList.update (kdSession k) (kdExecution k, p) (tcProjections tc),
            tcFocused := Some (kdSession k)\<rparr>;
          tc2 = updateProjection p tc1 in
      connectForSelection (kdSession k) (kdEpoch k)
        (publishView ((tcCurrent tc2)\<lparr>cvwFocused := Some (kdSession k), cvwNotice := []\<rparr>) tc2))"

text \<open>Going back stops the child's connection, which is awaited, and then shows the root session.\<close>

definition backToThread :: "'x thread_client \<Rightarrow> utf16 option \<times> 'x thread_client" where
  "backToThread tc =
     (case tcFocused tc of
        None \<Rightarrow> (None, tc)
      | Some s \<Rightarrow> (Some s, stopConnection (Some s) (tc\<lparr>tcChildSerial := tcChildSerial tc + 1\<rparr>)))"

definition wentBack :: "utf16 \<Rightarrow> 'x thread_client \<Rightarrow> client_error option \<times> 'x thread_client" where
  "wentBack previous tc =
     (let tc1 = tc\<lparr>tcConnected := removeAll previous (tcConnected tc)\<rparr> in
      case tcFamily tc1 of
        None \<Rightarrow> (Some (staleSelection (plainText ''session.back'')), tc1)
      | Some f \<Rightarrow>
          (case map_of (tcProjections tc1) (faRoot f) of
             None \<Rightarrow> (Some (staleSelection (plainText ''session.back'')), tc1)
           | Some (x, p) \<Rightarrow>
               let tc2 = updateProjection p (tc1\<lparr>tcFocused := None\<rparr>) in
               (None, publishView ((tcCurrent tc2)\<lparr>cvwFocused := None, cvwNotice := []\<rparr>) tc2)))"

definition disposeClient :: "'x thread_client \<Rightarrow> 'x thread_client" where
  "disposeClient tc =
     stopConnection None (if tcDisposed tc then tc else tc\<lparr>tcDisposed := True, tcChildSerial := tcChildSerial tc + 1\<rparr>)"

end
