(* ===== verification/Client_Steps.thy ===== *)
theory Client_Steps
  imports Client_Commands
begin

text \<open>
  Runs of the thread client.  What an operation waits for is a continuation that holds what it
  captured; a step starts an operation, lets one continuation go on with some answer, delivers
  an event or a status of a connection, or disposes of the client.  Continuations go on in any
  order, so every interleaving of the code at its awaits is a run.  A connection goes on
  delivering after it was stopped, until its interruption takes effect.
\<close>

datatype 'x awaited =
    AwaitThreads nat
  | AwaitMetadata int utf16
  | AwaitExecution int utf16 thread_metadata
  | AwaitSession int utf16 projection_target 'x
  | AwaitPreview utf16 utf16 projection_target
  | AwaitFamily int
  | AwaitCollaborators int
  | AwaitChild "'x child_opening"
  | AwaitChildStop "'x child_opening" session_snapshot utf16
  | AwaitBack utf16
  | AwaitHistory "'x selection_context" "utf16 option"
  | AwaitCommand "'x client_command"
  | Delivering utf16 int

type_synonym 'x client_run = "'x thread_client \<times> 'x awaited list"

text \<open>The operations that start a command.\<close>

datatype command_call =
    CallSubmit utf16
  | CallEdit utf16 utf16
  | CallRemove utf16
  | CallSteer utf16 "utf16 option"
  | CallCancel "utf16 option" "utf16 option"
  | CallFollowUp utf16 "utf16 option"
  | CallControl control_action

fun callCommand :: "command_call \<Rightarrow> utf16 option \<Rightarrow> 'x thread_client \<Rightarrow> 'x command_start" where
  "callCommand (CallSubmit t) provided tc = submitPrompt t provided tc"
| "callCommand (CallEdit i t) provided tc = editPending i t provided tc"
| "callCommand (CallRemove i) provided tc = removePending i provided tc"
| "callCommand (CallSteer t run) provided tc = steerRun t provided run tc"
| "callCommand (CallCancel reason run) provided tc = cancelRun provided reason run tc"
| "callCommand (CallFollowUp t child) provided tc = followUp t child provided tc"
| "callCommand (CallControl a) provided tc = controlSession a provided tc"

text \<open>The first parameter is the target of a thread, as the options of the client give it.\<close>

inductive client_step :: "(thread_metadata \<Rightarrow> projection_target) \<Rightarrow> 'x client_run \<Rightarrow> 'x client_run \<Rightarrow> bool" for target where
  refresh: "refreshThreads tc = (revision, tc') \<Longrightarrow> client_step target (tc, ks) (tc', AwaitThreads revision # ks)"
| listed: "AwaitThreads revision \<in> set ks \<Longrightarrow>
    client_step target (tc, ks) (threadsListed revision page tc, remove1 (AwaitThreads revision) ks)"
| selects: "selectThread threadId tc = Inr (epoch, tc') \<Longrightarrow> client_step target (tc, ks) (tc', AwaitMetadata epoch threadId # ks)"
| metadata: "AwaitMetadata epoch threadId \<in> set ks \<Longrightarrow>
    client_step target (tc, ks) (metadataRead epoch threadId m tc, AwaitExecution epoch threadId m # remove1 (AwaitMetadata epoch threadId) ks)"
| ensures: "\<lbrakk> AwaitExecution epoch threadId m \<in> set ks; ensureSession epoch tc = (Some command, tc') \<rbrakk> \<Longrightarrow>
    client_step target (tc, ks) (tc', AwaitSession epoch threadId (target m) x # remove1 (AwaitExecution epoch threadId m) ks)"
| loaded: "AwaitSession epoch threadId tg x \<in> set ks \<Longrightarrow>
    client_step target (tc, ks) (selectionRead epoch threadId tg x sessionId s page tc,
      Delivering sessionId epoch # remove1 (AwaitSession epoch threadId tg x) ks)"
| previews: "previewThread threadId tc = (Some (m, sessionId), tc') \<Longrightarrow>
    client_step target (tc, ks) (tc', AwaitPreview threadId sessionId (target m) # ks)"
| previews_cached: "previewThread threadId tc = (None, tc') \<Longrightarrow> client_step target (tc, ks) (tc', ks)"
| previewed: "AwaitPreview threadId sessionId tg \<in> set ks \<Longrightarrow>
    client_step target (tc, ks) (previewRead threadId sessionId tg s tc, remove1 (AwaitPreview threadId sessionId tg) ks)"
| preview_fails: "AwaitPreview threadId sessionId tg \<in> set ks \<Longrightarrow>
    client_step target (tc, ks) (previewFailed threadId tc, remove1 (AwaitPreview threadId sessionId tg) ks)"
| event: "Delivering sessionId epoch \<in> set ks \<Longrightarrow> client_step target (tc, ks) (observeEvent e epoch tc, ks)"
| status: "\<lbrakk> Delivering sessionId epoch \<in> set ks; statusRefresh st epoch sessionId (observeStatus st epoch sessionId tc) = (None, tc') \<rbrakk> \<Longrightarrow>
    client_step target (tc, ks) (tc', ks)"
| status_refresh: "\<lbrakk> Delivering sessionId epoch \<in> set ks;
      statusRefresh st epoch sessionId (observeStatus st epoch sessionId tc) = (Some r, tc1); refreshFamily tc1 = (begun, tc') \<rbrakk> \<Longrightarrow>
    client_step target (tc, ks) (tc', (if begun then [AwaitFamily epoch] else []) @ ks)"
| connection_fails: "Delivering sessionId epoch \<in> set ks \<Longrightarrow>
    client_step target (tc, ks) (connectionFailed epoch err tc, remove1 (Delivering sessionId epoch) ks)"
| interrupted: "Delivering sessionId epoch \<in> set ks \<Longrightarrow> client_step target (tc, ks) (tc, remove1 (Delivering sessionId epoch) ks)"
| family: "AwaitFamily epoch \<in> set ks \<Longrightarrow>
    client_step target (tc, ks) (familyRefreshed epoch page tc, remove1 (AwaitFamily epoch) ks)"
| family_fails: "AwaitFamily epoch \<in> set ks \<Longrightarrow>
    client_step target (tc, ks) (familyRefreshFailed epoch err tc, remove1 (AwaitFamily epoch) ks)"
| more: "loadMoreCollaborators tc = Inr (Some (epoch, root, at, before), tc') \<Longrightarrow>
    client_step target (tc, ks) (tc', AwaitCollaborators epoch # ks)"
| more_read: "AwaitCollaborators epoch \<in> set ks \<Longrightarrow>
    client_step target (tc, ks) (collaboratorsLoaded epoch page tc, remove1 (AwaitCollaborators epoch) ks)"
| more_fails: "AwaitCollaborators epoch \<in> set ks \<Longrightarrow>
    client_step target (tc, ks) (collaboratorsFailed tc, remove1 (AwaitCollaborators epoch) ks)"
| opens: "openChildSession s tc = Inr (k, tc') \<Longrightarrow> client_step target (tc, ks) (tc', AwaitChild k # ks)"
| opened: "\<lbrakk> AwaitChild k \<in> set ks; childRead k tc = Inr (False, tc') \<rbrakk> \<Longrightarrow>
    client_step target (tc, ks) (childOpened k s None tc', Delivering (kdSession k) (kdEpoch k) # remove1 (AwaitChild k) ks)"
| open_stops: "\<lbrakk> AwaitChild k \<in> set ks; childRead k tc = Inr (True, tc'); tcFocused tc = Some previous \<rbrakk> \<Longrightarrow>
    client_step target (tc, ks) (tc', AwaitChildStop k s previous # remove1 (AwaitChild k) ks)"
| open_stopped: "\<lbrakk> AwaitChildStop k s previous \<in> set ks; cvwEpoch (tcCurrent tc) = kdEpoch k \<rbrakk> \<Longrightarrow>
    client_step target (tc, ks) (childOpened k s (Some previous) tc,
      Delivering (kdSession k) (kdEpoch k) # remove1 (AwaitChildStop k s previous) ks)"
| open_stale: "\<lbrakk> AwaitChild k \<in> set ks; childRead k tc = Inl err \<rbrakk> \<Longrightarrow> client_step target (tc, ks) (tc, remove1 (AwaitChild k) ks)"
| goes_back: "backToThread tc = (Some previous, tc') \<Longrightarrow> client_step target (tc, ks) (tc', AwaitBack previous # ks)"
| went_back: "\<lbrakk> AwaitBack previous \<in> set ks; wentBack previous tc = (r, tc') \<rbrakk> \<Longrightarrow>
    client_step target (tc, ks) (tc', remove1 (AwaitBack previous) ks)"
| older: "loadOlder tc = (Some (c, leaf), tc') \<Longrightarrow> client_step target (tc, ks) (tc', AwaitHistory c leaf # ks)"
| older_read: "\<lbrakk> AwaitHistory c leaf \<in> set ks; historyRead c leaf answer tc = (r, tc') \<rbrakk> \<Longrightarrow>
    client_step target (tc, ks) (tc', remove1 (AwaitHistory c leaf) ks)"
| commands: "callCommand call provided tc = Inr (m, tc') \<Longrightarrow> client_step target (tc, ks) (tc', AwaitCommand m # ks)"
| answered: "\<lbrakk> AwaitCommand m \<in> set ks; commandAnswered m answer tc = (r, tc') \<rbrakk> \<Longrightarrow>
    client_step target (tc, ks) (tc', remove1 (AwaitCommand m) ks)"
| fails: "k \<in> set ks \<Longrightarrow> (case k of AwaitThreads _ \<Rightarrow> True | AwaitMetadata _ _ \<Rightarrow> True | AwaitExecution _ _ _ \<Rightarrow> True
      | AwaitSession _ _ _ _ \<Rightarrow> True | AwaitChild _ \<Rightarrow> True | _ \<Rightarrow> False) \<Longrightarrow> client_step target (tc, ks) (tc, remove1 k ks)"
| disposes: "client_step target (tc, ks) (disposeClient tc, ks)"

inductive client_steps :: "(thread_metadata \<Rightarrow> projection_target) \<Rightarrow> 'x client_run \<Rightarrow> 'x client_run \<Rightarrow> bool" for target where
  none: "client_steps target r r"
| more: "\<lbrakk> client_steps target r r'; client_step target r' r'' \<rbrakk> \<Longrightarrow> client_steps target r r''"

text \<open>
  The one continuation the code does not check again: the opening of a child that was overtaken
  by another selection while it waited for the previous child's connection to stop.
\<close>

inductive overtaken_step :: "'x client_run \<Rightarrow> 'x client_run \<Rightarrow> bool" where
  overtaken: "\<lbrakk> AwaitChildStop k s previous \<in> set ks; cvwEpoch (tcCurrent tc) \<noteq> kdEpoch k \<rbrakk> \<Longrightarrow>
    overtaken_step (tc, ks) (childOpened k s (Some previous) tc,
      Delivering (kdSession k) (kdEpoch k) # remove1 (AwaitChildStop k s previous) ks)"

end
