(* ===== verification/Client_Run.thy ===== *)
theory Client_Run
  imports Client_Projection "HOL-Library.Sublist"
begin

text \<open>
  Runs of the client's projection: the preview fences along a run, and the snapshot against the
  log of committed events of the server.  A server log gives every cursor one body; a run may
  repeat, drop and reorder its events.
\<close>

section \<open>Fences\<close>

text \<open>A fence follows another when its attempt or its generation is later, or it is the same fence.\<close>

definition fenceFollows :: "preview_fence \<Rightarrow> preview_fence \<Rightarrow> bool" where
  "fenceFollows f g \<longleftrightarrow> f = g \<or> olderThan (fnAttemptFence f) (fnGeneration f) (fnAttemptFence g) (fnGeneration g)"

text \<open>What is shown of a run comes from the model call its fence names.\<close>

definition previewsFenced :: "client_state \<Rightarrow> bool" where
  "previewsFenced st \<longleftrightarrow> distinct (map fst (csPreviews st)) \<and>
     (\<forall>(run, p) \<in> set (csPreviews st). prRunId p = run \<and> map_of (csFences st) run = Some (fenceOf p))"

lemma olderThan_trans:
  assumes "olderThan a b c d" "olderThan c d e f"
  shows "olderThan a b e f"
  using assms unfolding olderThan_def by auto

lemma fenceFollows_trans:
  assumes "fenceFollows f g" "fenceFollows g h"
  shows "fenceFollows f h"
  using assms olderThan_trans unfolding fenceFollows_def by blast

lemma fenceFollows_refl [simp]: "fenceFollows f f"
  unfolding fenceFollows_def by simp

lemma acceptedFence_follows:
  assumes "\<not> ignoredByFence p f"
  shows "fenceFollows f (fenceOf p)"
  using assms unfolding ignoredByFence_def fenceFollows_def olderThan_def fenceOf_def
  by (cases f) (auto simp: not_less)

definition fencesAdvance :: "client_state \<Rightarrow> client_state \<Rightarrow> bool" where
  "fencesAdvance st st' \<longleftrightarrow> (\<forall>run f. map_of (csFences st) run = Some f \<longrightarrow>
     (\<exists>g. map_of (csFences st') run = Some g \<and> fenceFollows f g))"

lemma fencesAdvance_same: "csFences st' = csFences st \<Longrightarrow> fencesAdvance st st'"
  unfolding fencesAdvance_def by simp

lemma fencesAdvance_trans:
  assumes "fencesAdvance a b" "fencesAdvance b c"
  shows "fencesAdvance a c"
  using assms fenceFollows_trans unfolding fencesAdvance_def by meson

text \<open>An applied preview, as one description of the state it leaves.\<close>

inductive previewShown :: "client_state \<Rightarrow> preview_projection \<Rightarrow> client_state \<Rightarrow> bool" for st where
  shown: "\<lbrakk> \<not> ignoredBy (ignoredByFence p) (map_of (csFences st) (prRunId p));
       csPreviews st' = AList.update (prRunId p) p (csPreviews st);
       csFences st' = AList.update (prRunId p) (fenceOf p) (csFences st);
       csSnapshot st' = csSnapshot st; csCursor st' = csCursor st; csEpoch st' = csEpoch st;
       csSessionId st' = csSessionId st \<rbrakk> \<Longrightarrow> previewShown st p st'"

lemma ignoredByFence_text [simp]:
  "ignoredByFence (p\<lparr>prReasoning := r, prText := t, prCursor := c\<rparr>) = ignoredByFence p"
  unfolding ignoredByFence_def by (intro ext) simp

text \<open>What applying a preview can do: keep the state, remove what is shown of the run, or show more of it.\<close>

lemma applyPreview_cases:
  obtains (kept) "resultState (applyPreview st d) = st"
    | (cleared) "resultState (applyPreview st d) = st\<lparr>csPreviews := AList.delete (pdRunId d) (csPreviews st)\<rparr>"
    | (shown) p where "previewShown st p (resultState (applyPreview st d))"
proof (cases "pdSessionId d \<noteq> csSessionId st \<or> pdRunId d \<noteq> pdEventRunId d")
  case True
  then show thesis by (intro kept) (simp add: applyPreview_def)
next
  case here: False
  show thesis
  proof (cases "pdEvent d")
    case (PreviewCleared g)
    show thesis
    proof (cases "clearingIgnored (previewEvent d) (map_of (csFences st) (pdRunId d)) (map_of (csPreviews st) (pdRunId d))")
      case True
      then show thesis using here PreviewCleared by (intro kept) (simp add: applyPreview_def Let_def)
    next
      case False
      then show thesis using here PreviewCleared by (intro cleared) (simp add: applyPreview_def Let_def)
    qed
  next
    case body: (ModelPreview call attemptId attempt generation sequence changes)
    let ?i = "previewEvent d"
    let ?c = "map_of (csPreviews st) (pdRunId d)" and ?f = "map_of (csFences st) (pdRunId d)"
    let ?r = "case ?c of None \<Rightarrow> [] | Some c \<Rightarrow> prReasoning c"
    let ?t = "case ?c of None \<Rightarrow> [] | Some c \<Rightarrow> prText c"
    show thesis
    proof (cases "ignoredBy (ignoredByFence ?i) ?f \<or> ignoredBy (ignoredByCurrent ?i) ?c")
      case True
      then show thesis using here body by (intro kept) (simp add: applyPreview_def Let_def)
    next
      case fresh: False
      show thesis
      proof (cases "applyChanges ?r ?t changes")
        case None
        then show thesis using here body fresh by (intro kept) (simp add: applyPreview_def Let_def)
      next
        case (Some rt)
        obtain r t where rt: "rt = (r, t)" by fastforce
        let ?p = "?i\<lparr>prReasoning := r, prText := t, prCursor := csCursor st\<rparr>"
        have "prRunId ?p = pdRunId d" by (simp add: previewEvent_def body)
        then have "previewShown st ?p (resultState (applyPreview st d))"
          using here body fresh Some rt by (intro previewShown.shown) (simp_all add: applyPreview_def Let_def)
        then show thesis by (rule shown)
      qed
    qed
  qed
qed

lemma previewShown_fenced:
  assumes "previewShown st p st'" and "previewsFenced st"
  shows "previewsFenced st' \<and> fencesAdvance st st'"
  using assms(1)
proof cases
  case shown
  have dist: "distinct (map fst (csPreviews st'))"
    using assms(2) shown(2) by (simp add: previewsFenced_def distinct_update)
  have each: "prRunId q = run \<and> map_of (csFences st') run = Some (fenceOf q)" if q: "(run, q) \<in> set (csPreviews st')" for run q
  proof (cases "run = prRunId p")
    case True
    then have "q = p" using q dist shown(2) by (metis map_of_eq_Some_iff update_Some_unfold)
    then show ?thesis using True shown(3) by (simp add: update_conv)
  next
    case False
    have "map_of (csPreviews st') run = Some q" using q dist by simp
    then have "map_of (csPreviews st) run = Some q" using False shown(2) by (simp add: update_conv)
    then have "(run, q) \<in> set (csPreviews st)" by (rule map_of_SomeD)
    then show ?thesis using assms(2) False shown(3) by (auto simp: previewsFenced_def update_conv)
  qed
  have "fenceFollows f (fenceOf p)" if "map_of (csFences st) (prRunId p) = Some f" for f
    using shown(1) that by (intro acceptedFence_follows) simp
  then have "fencesAdvance st st'"
    unfolding fencesAdvance_def shown(3) by (auto simp: update_conv)
  then show ?thesis using dist each unfolding previewsFenced_def by blast
qed

lemma projected_fields [simp]:
  "csPreviews (withSnapshot st s ps fs ep) = ps" "csFences (withSnapshot st s ps fs ep) = fs"
  "csSnapshot (withSnapshot st s ps fs ep) = s" "csCursor (withSnapshot st s ps fs ep) = ssCursor s"
  "csSessionId (withSnapshot st s ps fs ep) = csSessionId st" "csEpoch (withSnapshot st s ps fs ep) = ep"
  "csNeedsSnapshot (withSnapshot st s ps fs ep) = False" "csFamily (withSnapshot st s ps fs ep) = csFamily st"
  by (simp_all add: withSnapshot_def projectSnapshot_def Let_def)

lemma event_fenced:
  assumes "previewsFenced st"
  shows "previewsFenced (resultState (applyConnectionEvent st e)) \<and> fencesAdvance st (resultState (applyConnectionEvent st e))"
proof (cases e)
  case (ConnectionSnapshot ep s)
  then show ?thesis using assms
    by (auto simp: replaceSnapshot_def projectSnapshot_def Let_def previewsFenced_def intro: fencesAdvance_same)
next
  case e: (PreviewDelivery d)
  show ?thesis
  proof (cases rule: applyPreview_cases [of st d])
    case kept
    then show ?thesis using assms e by (simp add: fencesAdvance_same)
  next
    case cleared
    have "previewsFenced (st\<lparr>csPreviews := AList.delete (pdRunId d) (csPreviews st)\<rparr>)"
      using assms by (auto simp: previewsFenced_def AList.delete_eq intro: distinct_map_filter)
    then show ?thesis using cleared e by (simp add: fencesAdvance_same)
  next
    case (shown p)
    then show ?thesis using previewShown_fenced [OF shown assms] e by simp
  qed
next
  case (Committed sid c b)
  then show ?thesis using assms
    by (auto simp: applyCommitted_def Let_def previewsFenced_def intro: fencesAdvance_same split: option.splits)
qed

lemma run_fenced:
  assumes "previewsFenced st"
  shows "previewsFenced (afterEvents st es) \<and> fencesAdvance st (afterEvents st es)"
  using assms
proof (induction es arbitrary: st)
  case Nil
  then show ?case by (simp add: fencesAdvance_same)
next
  case (Cons e es)
  then show ?case using event_fenced [OF Cons.prems, of e] fencesAdvance_trans by (simp) blast
qed

section \<open>The server's log\<close>

definition committedNext :: "(int \<Rightarrow> committed_body) \<Rightarrow> session_snapshot \<Rightarrow> session_snapshot option" where
  "committedNext log s = map_option (\<lambda>s'. s'\<lparr>ssCursor := ssCursor s + 1\<rparr>) (committedSnapshot s (log (ssCursor s + 1)))"

text \<open>The snapshot after the next n events of a log.\<close>

fun replayLog :: "(int \<Rightarrow> committed_body) \<Rightarrow> session_snapshot \<Rightarrow> nat \<Rightarrow> session_snapshot option" where
  "replayLog log s 0 = Some s"
| "replayLog log s (Suc n) = (case replayLog log s n of None \<Rightarrow> None | Some s' \<Rightarrow> committedNext log s')"

text \<open>An event of this session carries what the log holds at its cursor.\<close>

fun ofLog :: "utf16 \<Rightarrow> (int \<Rightarrow> committed_body) \<Rightarrow> connection_event \<Rightarrow> bool" where
  "ofLog sid log (Committed sessionId cursor b) = (sessionId = sid \<longrightarrow> b = log cursor)"
| "ofLog sid log _ = True"

fun isSnapshot :: "connection_event \<Rightarrow> bool" where
  "isSnapshot (ConnectionSnapshot _ _) = True"
| "isSnapshot _ = False"

text \<open>The snapshots a view can be based on: the one it began with and those that replaced it.\<close>

definition bases :: "session_snapshot \<Rightarrow> connection_event list \<Rightarrow> session_snapshot set" where
  "bases s es = insert s {s'. \<exists>ep. ConnectionSnapshot ep s' \<in> set es}"

definition atPrefix :: "(int \<Rightarrow> committed_body) \<Rightarrow> session_snapshot set \<Rightarrow> client_state \<Rightarrow> bool" where
  "atPrefix log bs st \<longleftrightarrow> csCursor st = ssCursor (csSnapshot st) \<and>
     (\<exists>b \<in> bs. \<exists>n. replayLog log b n = Some (csSnapshot st))"

lemma applyPreview_snapshot [simp]:
  "csSnapshot (resultState (applyPreview st d)) = csSnapshot st" "csCursor (resultState (applyPreview st d)) = csCursor st"
  "csSessionId (resultState (applyPreview st d)) = csSessionId st"
  by (cases rule: applyPreview_cases [of st d]; auto elim: previewShown.cases)+

lemma event_session [simp]: "csSessionId (resultState (applyConnectionEvent st e)) = csSessionId st"
  by (cases e) (auto simp: applyCommitted_def replaceSnapshot_def projectSnapshot_def Let_def split: option.split)

text \<open>A committed event either leaves the snapshot or takes the next event of the log.\<close>

lemma committed_step:
  assumes "sid = csSessionId st \<longrightarrow> b = log c" and "csCursor st = ssCursor (csSnapshot st)"
  obtains (kept) "csSnapshot (resultState (applyCommitted st sid c b)) = csSnapshot st"
      "csCursor (resultState (applyCommitted st sid c b)) = csCursor st"
    | (taken) s where "committedNext log (csSnapshot st) = Some s"
      "csSnapshot (resultState (applyCommitted st sid c b)) = s" "csCursor (resultState (applyCommitted st sid c b)) = ssCursor s"
      "sid = csSessionId st" "c = csCursor st + 1"
proof (cases "sid \<noteq> csSessionId st \<or> c \<le> csCursor st \<or> c \<noteq> csCursor st + 1 \<or> committedSnapshot (csSnapshot st) b = None")
  case True
  then show thesis by (intro kept) (auto simp: applyCommitted_def)
next
  case False
  then obtain s where s: "committedSnapshot (csSnapshot st) b = Some s" by auto
  then show thesis using False assms
    by (intro taken [of "s\<lparr>ssCursor := c\<rparr>"]) (auto simp: applyCommitted_def committedNext_def Let_def)
qed

lemma event_atPrefix:
  assumes "ofLog (csSessionId st) log e" and "atPrefix log bs st" and "\<And>ep s. e = ConnectionSnapshot ep s \<Longrightarrow> s \<in> bs"
  shows "atPrefix log bs (resultState (applyConnectionEvent st e))"
proof (cases e)
  case (ConnectionSnapshot ep s)
  have "replayLog log s 0 = Some s" by simp
  then show ?thesis using assms ConnectionSnapshot unfolding atPrefix_def
    by (auto simp: replaceSnapshot_def projectSnapshot_def Let_def simp del: replayLog.simps)
next
  case (PreviewDelivery d)
  then show ?thesis using assms(2) by (simp add: atPrefix_def)
next
  case e: (Committed sid c b)
  have at: "csCursor st = ssCursor (csSnapshot st)" using assms(2) by (simp add: atPrefix_def)
  have b: "sid = csSessionId st \<longrightarrow> b = log c" using assms(1) e by simp
  from b at show ?thesis
  proof (cases rule: committed_step)
    case kept
    then show ?thesis using assms(2) e by (simp add: atPrefix_def)
  next
    case (taken s)
    obtain base n where "base \<in> bs" "replayLog log base n = Some (csSnapshot st)" using assms(2) by (auto simp: atPrefix_def)
    then have "replayLog log base (Suc n) = Some s" using taken(1) by simp
    then have "\<exists>b \<in> bs. \<exists>n. replayLog log b n = Some s" using \<open>base \<in> bs\<close> by blast
    then show ?thesis using taken(2,3) e unfolding atPrefix_def by simp
  qed
qed

lemma run_atPrefix:
  assumes "list_all (ofLog (csSessionId st) log) es" and "atPrefix log bs st"
    and "{s. \<exists>ep. ConnectionSnapshot ep s \<in> set es} \<subseteq> bs"
  shows "atPrefix log bs (afterEvents st es)"
  using assms
proof (induction es arbitrary: st)
  case (Cons e es)
  have "atPrefix log bs (resultState (applyConnectionEvent st e))"
    using Cons.prems by (intro event_atPrefix) auto
  then show ?case using Cons.prems by (auto intro!: Cons.IH)
qed simp

text \<open>The events of a log from a cursor on.\<close>

fun logEvents :: "utf16 \<Rightarrow> (int \<Rightarrow> committed_body) \<Rightarrow> int \<Rightarrow> nat \<Rightarrow> connection_event list" where
  "logEvents sid log c 0 = []"
| "logEvents sid log c (Suc n) = Committed sid (c + 1) (log (c + 1)) # logEvents sid log (c + 1) n"

text \<open>A client that is at a cursor takes the next events of the log, whatever else arrives between them.\<close>

lemma event_forward:
  assumes "ofLog (csSessionId st) log e" "\<not> isSnapshot e" and "csCursor st = ssCursor (csSnapshot st)"
  shows "\<exists>n \<le> 1. replayLog log (csSnapshot st) n = Some (csSnapshot (resultState (applyConnectionEvent st e))) \<and>
    csCursor (resultState (applyConnectionEvent st e)) = csCursor st + int n \<and>
    csCursor (resultState (applyConnectionEvent st e)) = ssCursor (csSnapshot (resultState (applyConnectionEvent st e)))"
proof (cases e)
  case (ConnectionSnapshot ep s)
  then show ?thesis using assms(2) by simp
next
  case (PreviewDelivery d)
  then show ?thesis using assms(3) by (intro exI [of _ 0]) simp
next
  case e: (Committed sid c b)
  have b: "sid = csSessionId st \<longrightarrow> b = log c" using assms(1) e by simp
  from b assms(3) show ?thesis
  proof (cases rule: committed_step)
    case kept
    then show ?thesis using e assms(3) by (intro exI [of _ 0]) simp
  next
    case (taken s)
    have "ssCursor s = ssCursor (csSnapshot st) + 1" using taken(1) by (auto simp: committedNext_def)
    moreover have "replayLog log (csSnapshot st) 1 = Some s" using taken(1) by simp
    ultimately show ?thesis using taken(2,3) e assms(3) by (intro exI [of _ 1]) simp
  qed
qed

lemma replayLog_add:
  "replayLog log s (m + n) = (case replayLog log s m of None \<Rightarrow> None | Some s' \<Rightarrow> replayLog log s' n)"
  by (induction n) (auto split: option.split)

lemma replayLog_cursor:
  assumes "replayLog log s n = Some s'"
  shows "ssCursor s' = ssCursor s + int n"
  using assms by (induction n arbitrary: s') (auto simp: committedNext_def split: option.splits)

lemma committed_next_applies:
  assumes "csCursor st = ssCursor (csSnapshot st)" and "committedNext log (csSnapshot st) = Some s"
  shows "csSnapshot (resultState (applyCommitted st (csSessionId st) (csCursor st + 1) (log (csCursor st + 1)))) = s"
  using assms by (auto simp: applyCommitted_def committedNext_def Let_def)

lemma replayLog_Suc_left:
  "replayLog log s (Suc n) = (case committedNext log s of None \<Rightarrow> None | Some s' \<Rightarrow> replayLog log s' n)"
  using replayLog_add [of log s 1 n] by simp

text \<open>
  At least as far as the events that are still to come reach: a state at or past a cursor, from
  which every snapshot of the log up to the end can be replayed.
\<close>

lemma run_forward:
  assumes "list_all (ofLog (csSessionId st) log) es" "\<not> list_ex isSnapshot es" "csCursor st = ssCursor (csSnapshot st)"
  shows "\<exists>n. replayLog log (csSnapshot st) n = Some (csSnapshot (afterEvents st es)) \<and>
    csCursor (afterEvents st es) = csCursor st + int n"
  using assms
proof (induction es arbitrary: st)
  case Nil
  then show ?case by (intro exI [of _ 0]) simp
next
  case (Cons e es)
  let ?st = "resultState (applyConnectionEvent st e)"
  obtain m where m: "replayLog log (csSnapshot st) m = Some (csSnapshot ?st)" "csCursor ?st = csCursor st + int m"
      "csCursor ?st = ssCursor (csSnapshot ?st)"
    using event_forward [of st log e] Cons.prems by auto
  obtain n where "replayLog log (csSnapshot ?st) n = Some (csSnapshot (afterEvents ?st es))"
      "csCursor (afterEvents ?st es) = csCursor ?st + int n"
    using Cons.IH [of ?st] Cons.prems m(3) by auto
  then show ?case using m by (intro exI [of _ "m + n"]) (simp add: replayLog_add)
qed

lemma run_catches_up:
  assumes "subseq (logEvents (csSessionId st) log c n) es"
    and "list_all (ofLog (csSessionId st) log) es" "\<not> list_ex isSnapshot es" "csCursor st = ssCursor (csSnapshot st)"
    and "c \<le> csCursor st" and "replayLog log (csSnapshot st) (nat (c + int n - csCursor st)) \<noteq> None"
  shows "c + int n \<le> csCursor (afterEvents st es)"
  using assms
proof (induction es arbitrary: st c n rule: list.induct)
  case Nil
  then show ?case by (cases n) auto
next
  case (Cons e es)
  let ?st = "resultState (applyConnectionEvent st e)"
  obtain m where m: "m \<le> 1" "replayLog log (csSnapshot st) m = Some (csSnapshot ?st)" "csCursor ?st = csCursor st + int m"
      "csCursor ?st = ssCursor (csSnapshot ?st)"
    using event_forward [of st log e] Cons.prems by auto
  have rest: "replayLog log (csSnapshot ?st) (nat (c + int n - csCursor ?st)) \<noteq> None" if "m \<le> nat (c + int n - csCursor st)"
  proof -
    have "nat (c + int n - csCursor st) = m + nat (c + int n - csCursor ?st)" using that m(3) by linarith
    then show ?thesis using Cons.prems(6) m(2) by (auto simp: replayLog_add)
  qed
  show ?case
  proof (cases "c + int n \<le> csCursor st")
    case True
    then have "c + int n \<le> csCursor ?st" using m(3) by simp
    moreover obtain k where "csCursor (afterEvents ?st es) = csCursor ?st + int k"
      using run_forward [of ?st log es] Cons.prems m(4) by auto
    ultimately show ?thesis by simp
  next
    case ahead: False
    then have "m \<le> nat (c + int n - csCursor st)" using m(1) by linarith
    note rest = rest [OF this]
    show ?thesis
    proof (cases "subseq (logEvents (csSessionId ?st) log c n) es")
      case True
      then show ?thesis using Cons.IH [OF True] Cons.prems rest m by simp
    next
      case False
      then obtain n' where n: "n = Suc n'" using Cons.prems(1) by (cases n) auto
      then have e: "e = Committed (csSessionId st) (c + 1) (log (c + 1))"
        and sub: "subseq (logEvents (csSessionId ?st) log (c + 1) n') es"
        using Cons.prems(1) False by (auto split: if_splits)
      have "c + 1 \<le> csCursor ?st"
      proof (cases "c = csCursor st")
        case True
        then have "nat (c + int n - csCursor st) = Suc n'" using n by simp
        then have "replayLog log (csSnapshot st) (Suc n') \<noteq> None" using Cons.prems(6) by (simp del: replayLog.simps)
        then obtain s where s: "committedNext log (csSnapshot st) = Some s"
          by (auto simp: replayLog_Suc_left simp del: replayLog.simps split: option.splits)
        then have "csSnapshot ?st = s"
          using committed_next_applies [OF Cons.prems(4) s] True by (simp add: e)
        moreover have "ssCursor s = ssCursor (csSnapshot st) + 1" using s by (auto simp: committedNext_def)
        ultimately show ?thesis using m(4) Cons.prems(4) True by simp
      next
        case False
        then show ?thesis using Cons.prems(5) m(3) by simp
      qed
      moreover have whole: "c + int n = c + 1 + int n'" using n by simp
      ultimately have "c + 1 + int n' \<le> csCursor (afterEvents ?st es)"
        using Cons.IH [OF sub] Cons.prems(2-4) rest [unfolded whole] m(4) by simp
      then show ?thesis unfolding whole by simp
    qed
  qed
qed

end
