(* ===== verification/Client_Selected.thy ===== *)
theory Client_Selected
  imports Client_Steps Client_Run
begin

text \<open>
  What the thread client shows belongs to what is selected: the projection shown and every
  cached projection carry the id of the selected thread, and cached projections are filed under
  their own session.  A continuation of a selection knows the thread of its epoch.
\<close>

definition clientShows :: "'x thread_client \<Rightarrow> bool" where
  "clientShows tc \<longleftrightarrow>
     (\<forall>(s, x, p) \<in> set (tcProjections tc). csSessionId p = s \<and> cvwThread (tcCurrent tc) = Some (ptId (csThread p))) \<and>
     (\<forall>p. cvwProjection (tcCurrent tc) = Some p \<longrightarrow>
       cvwSession (tcCurrent tc) = Some (csSessionId p) \<and> cvwThread (tcCurrent tc) = Some (ptId (csThread p)))"

definition sameSelected :: "'x thread_client \<Rightarrow> 'x thread_client \<Rightarrow> bool" where
  "sameSelected tc tc' \<longleftrightarrow>
     cvwEpoch (tcCurrent tc') = cvwEpoch (tcCurrent tc) \<and> cvwThread (tcCurrent tc') = cvwThread (tcCurrent tc)"

text \<open>An operation that keeps the selection, and what is shown of it.\<close>

definition keepsSelected :: "'x thread_client \<Rightarrow> 'x thread_client \<Rightarrow> bool" where
  "keepsSelected tc tc' \<longleftrightarrow> (clientShows tc \<longrightarrow> sameSelected tc tc' \<and> clientShows tc')"

lemma keepsSelected_refl [simp, intro]: "keepsSelected tc tc"
  unfolding keepsSelected_def sameSelected_def by simp

lemma keepsSelected_trans:
  assumes "keepsSelected a b" "keepsSelected b c"
  shows "keepsSelected a c"
  using assms unfolding keepsSelected_def sameSelected_def by simp

lemma keepsSelected_shows: "keepsSelected tc tc' \<Longrightarrow> clientShows tc \<Longrightarrow> clientShows tc'"
  unfolding keepsSelected_def by simp

text \<open>Fields that do not matter.\<close>

lemma keepsSelected_same:
  assumes "tcCurrent tc' = tcCurrent tc" "tcProjections tc' = tcProjections tc"
  shows "keepsSelected tc tc'"
  using assms unfolding keepsSelected_def sameSelected_def clientShows_def by simp

lemma publishView_simps [simp]:
  "tcProjections (publishView v tc) = tcProjections tc" "tcExecution (publishView v tc) = tcExecution tc"
  "tcFocused (publishView v tc) = tcFocused tc" "tcFamily (publishView v tc) = tcFamily tc"
  "tcDisposed (publishView v tc) = tcDisposed tc"
  "tcCurrent (publishView v tc) = (if tcDisposed tc then tcCurrent tc else v)"
  by (simp_all add: publishView_def)

lemma keepsSelected_publish:
  assumes "cvwEpoch v = cvwEpoch (tcCurrent tc)" "cvwThread v = cvwThread (tcCurrent tc)"
    and "cvwSession v = cvwSession (tcCurrent tc)" "cvwProjection v = cvwProjection (tcCurrent tc)"
  shows "keepsSelected tc (publishView v tc)"
  using assms unfolding keepsSelected_def sameSelected_def clientShows_def by simp

lemma in_update: "(a, b) \<in> set (AList.update k v xs) \<Longrightarrow> a = k \<and> b = v \<or> (a, b) \<in> set xs"
  by (induction xs) (auto split: if_splits)

lemma keepsSelected_cache:
  assumes "clientShows tc \<Longrightarrow> csSessionId p = s \<and> cvwThread (tcCurrent tc) = Some (ptId (csThread p))"
    and "tcCurrent tc' = tcCurrent tc" "tcProjections tc' = AList.update s (x, p) (tcProjections tc)"
  shows "keepsSelected tc tc'"
  unfolding keepsSelected_def sameSelected_def clientShows_def assms(2,3)
  using assms(1) by (auto simp: clientShows_def dest: in_update)

lemma keepsSelected_show:
  assumes "clientShows tc \<Longrightarrow> cvwThread (tcCurrent tc) = Some (ptId (csThread p))"
    and "cvwThread v = cvwThread (tcCurrent tc)" "cvwEpoch v = cvwEpoch (tcCurrent tc)"
    and "cvwSession v = Some (csSessionId p)" "cvwProjection v = Some p"
  shows "keepsSelected tc (publishView v tc)"
  unfolding keepsSelected_def sameSelected_def using assms by (auto simp: clientShows_def)

lemma clientShows_cached:
  assumes "clientShows tc" "cachedProjection tc s = Some p"
  shows "csSessionId p = s \<and> cvwThread (tcCurrent tc) = Some (ptId (csThread p))"
  using assms unfolding cachedProjection_def clientShows_def
  by (auto split: option.splits if_splits dest!: map_of_SomeD)

lemma clientShows_map_of:
  assumes "clientShows tc" "map_of (tcProjections tc) s = Some (x, p)"
  shows "csSessionId p = s \<and> cvwThread (tcCurrent tc) = Some (ptId (csThread p))"
  using assms unfolding clientShows_def by (auto dest!: map_of_SomeD)

lemma keepsSelected_update:
  assumes "clientShows tc \<Longrightarrow> cvwThread (tcCurrent tc) = Some (ptId (csThread p))"
  shows "keepsSelected tc (updateProjection p tc)"
proof -
  let ?tc = "case tcExecution tc of None \<Rightarrow> tc
    | Some x \<Rightarrow> tc\<lparr>tcProjections := AList.update (csSessionId p) (x, p) (tcProjections tc)\<rparr>"
  have same: "tcCurrent ?tc = tcCurrent tc" by (simp split: option.split)
  have kept: "keepsSelected tc ?tc"
  proof (cases "tcExecution tc")
    case (Some x)
    show ?thesis by (rule keepsSelected_cache [where p = p and s = "csSessionId p" and x = x]) (use Some assms in auto)
  qed simp
  have "keepsSelected ?tc (updateProjection p tc)" if "clientShows tc"
  proof -
    have "cvwThread (tcCurrent ?tc) = Some (ptId (csThread p))" using assms that same by simp
    then show ?thesis unfolding updateProjection_def Let_def
      by (intro keepsSelected_show [where p = p]) simp_all
  qed
  then show ?thesis using kept keepsSelected_trans unfolding keepsSelected_def by blast
qed

lemma keepsSelected_if: "(clientShows tc \<Longrightarrow> keepsSelected tc tc') \<Longrightarrow> keepsSelected tc tc'"
  unfolding keepsSelected_def by blast

lemma keepsSelected_store:
  assumes "clientShows tc \<Longrightarrow> csSessionId p = s \<and> cvwThread (tcCurrent tc) = Some (ptId (csThread p))"
  shows "keepsSelected tc (storeProjection s p tc)"
proof (cases "executionOf tc s")
  case (Some x)
  show ?thesis by (rule keepsSelected_cache [where p = p and s = s and x = x]) (use Some assms in \<open>auto simp: storeProjection_def\<close>)
qed (simp add: storeProjection_def)

section \<open>Projections keep their session and thread\<close>

lemma projected_ids [simp]:
  "ptId (csThread (projectSnapshot s (Some t) snap tg ps fs f)) = t"
  "csSessionId (projectSnapshot s t' snap tg ps fs f) = s"
  by (simp_all add: projectSnapshot_def projectThread_def Let_def)

lemma withSnapshot_thread [simp]: "ptId (csThread (withSnapshot st s ps fs ep)) = ptId (csThread st)"
  by (simp add: withSnapshot_def projectSnapshot_def projectThread_def Let_def)

lemma applyPreview_thread [simp]: "ptId (csThread (resultState (applyPreview st d))) = ptId (csThread st)"
  by (simp add: applyPreview_def Let_def split: preview_body.split option.split prod.split)

lemma event_thread [simp]: "ptId (csThread (resultState (applyConnectionEvent st e))) = ptId (csThread st)"
  by (cases e) (auto simp: applyCommitted_def replaceSnapshot_def Let_def split: option.split)

lemma status_ids [simp]:
  "csSessionId (applyConnectionStatus p st) = csSessionId p" "ptId (csThread (applyConnectionStatus p st)) = ptId (csThread p)"
  by (cases st; simp)+

lemma reproject_ids [simp]:
  "csSessionId (reproject s f p) = csSessionId p" "ptId (csThread (reproject s f p)) = ptId (csThread p)"
  by (simp_all add: reproject_def)

section \<open>Operations keep the selection\<close>

lemma observeEvent_keeps: "keepsSelected tc (observeEvent e epoch tc)"
proof (rule keepsSelected_if)
  assume shows1: "clientShows tc"
  show "keepsSelected tc (observeEvent e epoch tc)"
  proof (cases "staleEpoch tc epoch \<or> cachedProjection tc (eventSession e) = None")
    case True
    then show ?thesis by (auto simp: observeEvent_def)
  next
    case False
    then obtain p where p: "cachedProjection tc (eventSession e) = Some p" by auto
    let ?r = "applyConnectionEvent p e" and ?s = "eventSession e"
    let ?tc = "storeProjection ?s (resultState ?r) tc"
    have ids: "csSessionId p = ?s" "cvwThread (tcCurrent tc) = Some (ptId (csThread p))"
      using clientShows_cached [OF shows1 p] by auto
    have cur: "tcCurrent ?tc = tcCurrent tc" by (simp add: storeProjection_def split: option.split)
    have stored: "keepsSelected tc ?tc" using ids by (intro keepsSelected_store) simp
    have upd: "keepsSelected ?tc (updateProjection (resultState ?r) ?tc)"
      using ids cur by (intro keepsSelected_update) simp
    have rej: "keepsSelected ?tc (publishView ((tcCurrent ?tc)\<lparr>cvwProjection := Some (resultState ?r), cvwNotice := n\<rparr>) ?tc)"
      if "showsSession ?tc ?s" for n
    proof (rule keepsSelected_show [where p = "resultState ?r"])
      have "cvwSession (tcCurrent tc) = Some ?s"
        using that shows1 by (auto simp: showsSession_def cur clientShows_def)
      then show "cvwSession ((tcCurrent ?tc)\<lparr>cvwProjection := Some (resultState ?r), cvwNotice := n\<rparr>) = Some (csSessionId (resultState ?r))"
        using cur ids by simp
    qed (use ids cur in simp_all)
    have "keepsSelected ?tc (observeEvent e epoch tc)"
      using False p upd rej by (auto simp: observeEvent_def Let_def split: projection_result.split)
    then show ?thesis using stored keepsSelected_trans by blast
  qed
qed

lemma observeStatus_keeps: "keepsSelected tc (observeStatus st epoch s tc)"
proof (rule keepsSelected_if)
  assume shows1: "clientShows tc"
  show "keepsSelected tc (observeStatus st epoch s tc)"
  proof (cases "cachedProjection tc s")
    case None
    show ?thesis
    proof (cases "staleEpoch tc epoch")
      case False
      then show ?thesis using None by (auto simp: observeStatus_def Let_def intro!: keepsSelected_publish)
    qed (simp add: observeStatus_def)
  next
    case (Some p)
    let ?p = "applyConnectionStatus p st"
    let ?tc = "storeProjection s ?p tc"
    have ids: "csSessionId p = s" "cvwThread (tcCurrent tc) = Some (ptId (csThread p))"
      using clientShows_cached [OF shows1 Some] by auto
    have cur: "tcCurrent ?tc = tcCurrent tc" by (simp add: storeProjection_def split: option.split)
    have stored: "keepsSelected tc ?tc" using ids by (intro keepsSelected_store) simp
    have "keepsSelected ?tc (observeStatus st epoch s tc)" if "\<not> staleEpoch tc epoch"
    proof (cases "showsSession ?tc s")
      case True
      have "cvwSession (tcCurrent tc) = Some s" using True shows1 by (auto simp: showsSession_def cur clientShows_def)
      then show ?thesis using that Some True ids cur
        by (auto simp: observeStatus_def Let_def intro!: keepsSelected_show [where p = ?p])
    next
      case False
      then show ?thesis using that Some
        by (auto simp: observeStatus_def Let_def intro!: keepsSelected_publish)
    qed
    then show ?thesis using stored keepsSelected_trans by (cases "staleEpoch tc epoch") (auto simp: observeStatus_def)
  qed
qed

lemma keepsSelected_flags [simp]:
  "keepsSelected tc (tc\<lparr>tcFamilyInFlight := b\<rparr>)" "keepsSelected tc (tc\<lparr>tcHistoryInFlight := b\<rparr>)"
  "keepsSelected tc (tc\<lparr>tcSerial := n\<rparr>)" "keepsSelected tc (tc\<lparr>tcChildSerial := n\<rparr>)"
  "keepsSelected tc (tc\<lparr>tcConnected := ss\<rparr>)" "keepsSelected tc (tc\<lparr>tcFocused := fo\<rparr>)"
  "keepsSelected tc (tc\<lparr>tcConnected := ss, tcFocused := fo\<rparr>)"
  "keepsSelected tc (tc\<lparr>tcCatalog := c\<rparr>)" "keepsSelected tc (tc\<lparr>tcRefreshRevision := n\<rparr>)"
  "keepsSelected tc (tc\<lparr>tcPreviewInFlight := ss\<rparr>)" "keepsSelected tc (setFamily f tc)"
  "keepsSelected tc (stopConnection so tc)" "keepsSelected tc (connectForSelection s epoch tc)"
  "keepsSelected tc (disposeClient tc)"
  by (rule keepsSelected_same; simp add: setFamily_def stopConnection_def connectForSelection_def disposeClient_def Let_def)+

lemma keepsSelected_notice [simp]: "keepsSelected tc (noticeView n tc)"
  unfolding noticeView_def by (rule keepsSelected_publish) simp_all

lemmas keeps_then = keepsSelected_trans [rotated]

lemma statusRefresh_keeps: "keepsSelected tc (snd (statusRefresh st epoch s tc))"
  by (auto simp: statusRefresh_def split: option.split)

lemma connectionFailed_keeps: "keepsSelected tc (connectionFailed epoch err tc)"
  by (auto simp: connectionFailed_def intro!: keepsSelected_publish)

lemma threadsListed_keeps: "keepsSelected tc (threadsListed revision page tc)"
  unfolding threadsListed_def Let_def
  by (auto intro!: keeps_then [OF keepsSelected_publish])

lemma metadataRead_keeps: "keepsSelected tc (metadataRead epoch t m tc)"
  by (simp add: metadataRead_def)

lemma nextCommandId_keeps: "keepsSelected tc (snd (nextCommandId op provided tc))"
  by (auto simp: nextCommandId_def split: option.split)

lemma ensureSession_keeps: "keepsSelected tc (snd (ensureSession epoch tc))"
  using nextCommandId_keeps [of tc] by (auto simp: ensureSession_def split: prod.split) (metis snd_conv)

lemma keepsSelected_single:
  assumes "tcCurrent tc' = tcCurrent tc" "tcProjections tc' = [(s, x, p)]"
    and "csSessionId p = s" "cvwThread (tcCurrent tc) = Some (ptId (csThread p))"
  shows "keepsSelected tc tc'"
  unfolding keepsSelected_def sameSelected_def clientShows_def assms(1,2) using assms(3,4) by simp

lemma selectionRead_keeps:
  assumes "\<not> staleEpoch tc epoch \<Longrightarrow> cvwThread (tcCurrent tc) = Some t"
  shows "keepsSelected tc (selectionRead epoch t tg x s snap page tc)"
proof (cases "staleEpoch tc epoch")
  case False
  let ?f = "familyProjection page None True"
  let ?p = "projectSnapshot s (Some t) snap (Some tg) None None (Some ?f)"
  let ?tc = "setFamily ?f (tc\<lparr>tcExecution := Some x, tcProjections := [(s, x, ?p)]\<rparr>)"
  have cur: "tcCurrent ?tc = tcCurrent tc" "tcProjections ?tc = [(s, x, ?p)]" by (simp_all add: setFamily_def)
  have first: "keepsSelected tc ?tc"
    by (rule keepsSelected_single [where p = ?p, OF cur]) (use assms False in simp_all)
  moreover have "keepsSelected ?tc (updateProjection ?p ?tc)"
    using assms False cur by (intro keepsSelected_update) simp
  moreover have "keepsSelected (updateProjection ?p ?tc) (selectionRead epoch t tg x s snap page tc)"
    using False unfolding selectionRead_def Let_def
    by (auto intro!: keeps_then [OF keepsSelected_flags(13)] keepsSelected_publish)
  ultimately show ?thesis using keepsSelected_trans by blast
qed (simp add: selectionRead_def)

lemma previewThread_keeps: "keepsSelected tc (snd (previewThread t tc))"
  by (auto simp: previewThread_def intro!: keepsSelected_publish split: option.split)

lemma previewRead_keeps: "keepsSelected tc (previewRead t s tg snap tc)"
  unfolding previewRead_def Let_def by (rule keeps_then [OF keepsSelected_flags(10)]) (auto intro!: keepsSelected_publish)

lemma refreshFamily_keeps: "keepsSelected tc (snd (refreshFamily tc))"
  by (simp add: refreshFamily_def)

lemma keepsSelected_map:
  assumes "tcCurrent tc' = tcCurrent tc" "tcProjections tc' = map (\<lambda>(s, c). (s, withFamily f c)) (tcProjections tc)"
  shows "keepsSelected tc tc'"
  unfolding keepsSelected_def sameSelected_def clientShows_def assms by (auto simp: withFamily_def)

lemma familyRefreshed_keeps: "keepsSelected tc (familyRefreshed epoch page tc)"
proof (cases "staleEpoch tc epoch")
  case True
  then show ?thesis by (simp add: familyRefreshed_def)
next
  case False
  let ?f = "familyProjection page (tcFamily tc) False"
  let ?tc1 = "setFamily ?f tc"
  let ?tc2 = "?tc1\<lparr>tcProjections := map (\<lambda>(s, c). (s, withFamily (Some ?f) c)) (tcProjections ?tc1),
     tcFocused := (case tcFocused ?tc1 of None \<Rightarrow> None | Some s \<Rightarrow> if list_ex (\<lambda>x. reId x = s) (faSessions ?f) then Some s else None)\<rparr>"
  let ?tc3 = "\<lambda>active. case map_of (tcProjections ?tc2) active of None \<Rightarrow> ?tc2 | Some (x, p) \<Rightarrow> updateProjection p ?tc2"
  have two: "keepsSelected tc ?tc2" by (rule keepsSelected_map [where f = "Some ?f"]) (simp_all add: setFamily_def)
  have upd: "keepsSelected ?tc2 (updateProjection p ?tc2)" if "map_of (tcProjections ?tc2) active = Some (x, p)" for active x p
    by (rule keepsSelected_update) (use clientShows_map_of [OF _ that] in blast)
  have three: "keepsSelected ?tc2 (?tc3 active)" for active
    using upd [of active] by (simp split: option.split)
  have four: "keepsSelected t4 (publishView ((tcCurrent t4)\<lparr>cvwFocused := fo, cvwNotice := []\<rparr>) t4\<lparr>tcFamilyInFlight := False\<rparr>)" for t4 :: "'a thread_client" and fo
    by (rule keeps_then [OF keepsSelected_flags(1)]) (auto intro!: keepsSelected_publish)
  have "familyRefreshed epoch page tc = (let active = (case tcFocused ?tc2 of None \<Rightarrow> faRoot ?f | Some s \<Rightarrow> s) in
      publishView ((tcCurrent (?tc3 active))\<lparr>cvwFocused := tcFocused (?tc3 active), cvwNotice := []\<rparr>) (?tc3 active)\<lparr>tcFamilyInFlight := False\<rparr>)"
    using False by (simp only: familyRefreshed_def Let_def if_False)
  then show ?thesis unfolding Let_def using keepsSelected_trans [OF two keepsSelected_trans [OF three four]] by (simp only:)
qed

lemma familyRefreshFailed_keeps: "keepsSelected tc (familyRefreshFailed epoch err tc)"
  unfolding familyRefreshFailed_def Let_def by (auto intro: keeps_then [OF keepsSelected_notice])

lemma collaboratorsLoaded_keeps: "keepsSelected tc (collaboratorsLoaded epoch page tc)"
proof (cases "staleEpoch tc epoch \<or> tcFamily tc = None")
  case True
  then show ?thesis by (auto simp: collaboratorsLoaded_def)
next
  case False
  let ?f = "familyProjection page (tcFamily tc) True"
  let ?tc1 = "setFamily ?f tc"
  have one: "keepsSelected tc ?tc1" by simp
  have cur: "tcProjections ?tc1 = tcProjections tc" "tcCurrent ?tc1 = tcCurrent tc" by (simp_all add: setFamily_def)
  show ?thesis
  proof (cases "map_of (tcProjections ?tc1) (faRoot ?f)")
    case None
    then show ?thesis using False by (auto simp: collaboratorsLoaded_def Let_def intro: keeps_then [OF keepsSelected_flags(1)])
  next
    case (Some c)
    obtain x p where c: "c = (x, p)" by fastforce
    let ?q = "reproject (csSnapshot p) (Some ?f) p"
    let ?tc2 = "?tc1\<lparr>tcProjections := AList.update (csSessionId p) (x, ?q) (tcProjections ?tc1)\<rparr>"
    have ids: "clientShows ?tc1 \<Longrightarrow> cvwThread (tcCurrent ?tc1) = Some (ptId (csThread p))"
      using clientShows_map_of [OF _ Some [unfolded c]] by blast
    have two: "keepsSelected ?tc1 ?tc2"
      by (rule keepsSelected_cache [where p = ?q and s = "csSessionId p" and x = x]) (use ids in simp_all)
    have three: "keepsSelected ?tc2 (updateProjection ?q ?tc2)"
    proof (rule keepsSelected_update)
      assume "clientShows ?tc2"
      then have "cvwThread (tcCurrent ?tc2) = Some (ptId (csThread ?q))"
        using clientShows_map_of [of ?tc2 "csSessionId p" x ?q] by (simp add: update_conv)
      then show "cvwThread (tcCurrent ?tc2) = Some (ptId (csThread ?q))" .
    qed
    have "keepsSelected tc (if tcFocused ?tc2 = None then updateProjection ?q ?tc2 else ?tc2)"
    proof (cases "tcFocused ?tc2 = None")
      case True
      show ?thesis unfolding if_P [OF True] by (rule keepsSelected_trans [OF one keepsSelected_trans [OF two three]])
    next
      case False
      show ?thesis unfolding if_not_P [OF False] by (rule keepsSelected_trans [OF one two])
    qed
    moreover have "collaboratorsLoaded epoch page tc =
        (if tcFocused ?tc2 = None then updateProjection ?q ?tc2 else ?tc2)\<lparr>tcFamilyInFlight := False\<rparr>"
      using False Some c by (simp only: collaboratorsLoaded_def Let_def if_False option.case prod.case)
    ultimately show ?thesis using keepsSelected_trans [OF _ keepsSelected_flags(1)] by (simp only:)
  qed
qed

lemma failCommand_keeps: "keepsSelected tc (snd (failCommand op c err tc))"
  by (auto simp: failCommand_def Let_def intro!: keepsSelected_publish split: option.split)

lemma commandAnswered_keeps: "keepsSelected tc (snd (commandAnswered m answer tc))"
  using failCommand_keeps [of tc "cmOperation m" "rqCommand (cmRequest m)"]
  by (auto simp: commandAnswered_def withReceipt_def Let_def intro!: keepsSelected_publish split: sum.split prod.split) (metis snd_conv)

lemma startCommand_keeps: "startCommand op i provided c rq st tc = Inr (m, tc') \<Longrightarrow> keepsSelected tc tc'"
  using nextCommandId_keeps [of tc i provided] by (auto simp: startCommand_def split: prod.splits)

lemma callCommand_keeps: "callCommand call provided tc = Inr (m, tc') \<Longrightarrow> keepsSelected tc tc'"
  by (cases call) (auto simp: submitPrompt_def editPending_def removePending_def steerRun_def cancelRun_def followUp_def
    controlSession_def Let_def dest!: startCommand_keeps split: option.splits if_splits)

lemma loadOlder_keeps: "keepsSelected tc (snd (loadOlder tc))"
  by (auto simp: loadOlder_def split: option.split)

lemma historyRead_keeps: "keepsSelected tc (snd (historyRead c leaf answer tc))"
proof -
  have upd: "keepsSelected tc (updateProjection (reproject s f p) tc)" if "cvwProjection (tcCurrent tc) = Some p" for s f p
    by (rule keepsSelected_update) (use that in \<open>auto simp: clientShows_def\<close>)
  then show ?thesis unfolding historyRead_def Let_def
    by (auto intro: keeps_then [OF keepsSelected_flags(2)] split: sum.split option.split)
qed

lemma openChildSession_keeps: "openChildSession s tc = Inr (k, tc') \<Longrightarrow> keepsSelected tc tc'"
  by (auto simp: openChildSession_def Let_def split: option.splits if_splits prod.splits)

lemma childRead_keeps: "childRead k tc = Inr (b, tc') \<Longrightarrow> keepsSelected tc tc'"
  by (auto simp: childRead_def split: option.splits if_splits)

lemma childOpened_keeps:
  assumes "clientShows tc \<Longrightarrow> csSessionId (childProjection k s) = kdSession k \<and> cvwThread (tcCurrent tc) = Some (ptId (csThread (childProjection k s)))"
  shows "keepsSelected tc (childOpened k s stopped tc)"
proof -
  let ?p = "childProjection k s"
  let ?tc1 = "tc\<lparr>tcConnected := (case stopped of None \<Rightarrow> tcConnected tc | Some previous \<Rightarrow> removeAll previous (tcConnected tc)),
     tcProjections := AList.update (kdSession k) (kdExecution k, ?p) (tcProjections tc), tcFocused := Some (kdSession k)\<rparr>"
  have one: "keepsSelected tc ?tc1"
    by (rule keepsSelected_cache [where p = ?p and s = "kdSession k" and x = "kdExecution k"]) (use assms in simp_all)
  have two: "keepsSelected ?tc1 (updateProjection ?p ?tc1)"
    by (rule keepsSelected_update, drule clientShows_map_of [where s = "kdSession k" and x = "kdExecution k" and p = ?p])
      (simp_all add: update_conv)
  have three: "keepsSelected t (connectForSelection a b (publishView ((tcCurrent t)\<lparr>cvwFocused := fo, cvwNotice := []\<rparr>) t))"
    for t :: "'a thread_client" and a b fo
    by (rule keeps_then [OF keepsSelected_flags(13)]) (auto intro!: keepsSelected_publish)
  show ?thesis unfolding childOpened_def Let_def
    using keepsSelected_trans [OF one keepsSelected_trans [OF two three]] by blast
qed

lemma backToThread_keeps: "keepsSelected tc (snd (backToThread tc))"
  by (auto simp: backToThread_def intro: keeps_then [OF keepsSelected_flags(12)] split: option.split)

lemma wentBack_keeps: "keepsSelected tc (snd (wentBack previous tc))"
proof -
  let ?tc1 = "tc\<lparr>tcConnected := removeAll previous (tcConnected tc)\<rparr>"
  let ?tc2 = "?tc1\<lparr>tcFocused := None\<rparr>"
  have two: "keepsSelected tc ?tc2" by simp
  have upd: "keepsSelected ?tc2 (updateProjection p ?tc2)" if "map_of (tcProjections ?tc1) r = Some (x, p)" for r x p
    by (rule keepsSelected_update) (use clientShows_map_of [of ?tc2 r x p] that in simp)
  have three: "keepsSelected t (publishView ((tcCurrent t)\<lparr>cvwFocused := None, cvwNotice := []\<rparr>) t)" for t :: "'a thread_client"
    by (auto intro!: keepsSelected_publish)
  have "keepsSelected tc (publishView ((tcCurrent (updateProjection p ?tc2))\<lparr>cvwFocused := None, cvwNotice := []\<rparr>) (updateProjection p ?tc2))"
    if "map_of (tcProjections ?tc1) r = Some (x, p)" for r x p
    using keepsSelected_trans [OF two keepsSelected_trans [OF upd [OF that] three]] .
  then show ?thesis unfolding wentBack_def Let_def by (auto split: option.split)
qed

section \<open>Runs\<close>

fun continuationSelection :: "'x awaited \<Rightarrow> (int \<times> utf16) option" where
  "continuationSelection (AwaitMetadata e t) = Some (e, t)"
| "continuationSelection (AwaitExecution e t m) = Some (e, t)"
| "continuationSelection (AwaitSession e t tg x) = Some (e, t)"
| "continuationSelection (AwaitChild k) = Some (kdEpoch k, kdThread k)"
| "continuationSelection (AwaitChildStop k s previous) = Some (kdEpoch k, kdThread k)"
| "continuationSelection _ = None"

fun openingOf :: "'x awaited \<Rightarrow> 'x child_opening option" where
  "openingOf (AwaitChild k) = Some k"
| "openingOf (AwaitChildStop k s previous) = Some k"
| "openingOf _ = None"

definition fitsSelection :: "'x thread_client \<Rightarrow> 'x awaited \<Rightarrow> bool" where
  "fitsSelection tc c \<longleftrightarrow>
     (case continuationSelection c of None \<Rightarrow> True | Some (e, t) \<Rightarrow>
        e \<le> cvwEpoch (tcCurrent tc) \<and> (e = cvwEpoch (tcCurrent tc) \<longrightarrow> cvwThread (tcCurrent tc) = Some t)) \<and>
     (case openingOf c of None \<Rightarrow> True | Some k \<Rightarrow>
        (\<forall>p. kdCached k = Some p \<longrightarrow> csSessionId p = kdSession k \<and> ptId (csThread p) = kdThread k))"

definition runShows :: "'x client_run \<Rightarrow> bool" where
  "runShows r \<longleftrightarrow> clientShows (fst r) \<and> (\<forall>c \<in> set (snd r). fitsSelection (fst r) c)"

lemma fits_sameSelected:
  assumes "fitsSelection tc c" "sameSelected tc tc'" "continuationSelection d = continuationSelection c" "openingOf d = openingOf c"
  shows "fitsSelection tc' d"
  using assms by (simp add: fitsSelection_def sameSelected_def split: option.splits prod.splits)

lemma runShows_keeps:
  assumes "runShows (tc, ks)" "keepsSelected tc tc'"
    and "\<And>c. c \<in> set ks' \<Longrightarrow> c \<in> set ks \<or> fitsSelection tc' c"
  shows "runShows (tc', ks')"
proof -
  have "clientShows tc'" "sameSelected tc tc'" using assms(1,2) by (auto simp: runShows_def keepsSelected_def)
  moreover have "fitsSelection tc' c" if "c \<in> set ks" for c
    using assms(1) that \<open>sameSelected tc tc'\<close> fits_sameSelected [of tc c tc' c] by (auto simp: runShows_def)
  ultimately show ?thesis using assms(3) unfolding runShows_def by auto
qed

lemma fitsSelection_free:
  assumes "continuationSelection c = None" "openingOf c = None"
  shows "fitsSelection tc c"
  using assms by (simp add: fitsSelection_def)

text \<open>A step whose operation keeps the selection and leaves no more than one continuation, which fits.\<close>

lemma runShows_step:
  assumes "runShows (tc, ks)" "keepsSelected tc tc'" "fitsSelection tc' c"
  shows "runShows (tc', c # ks)" "runShows (tc', c # remove1 d ks)"
  using assms(3) set_remove1_subset [of d ks] by (auto intro!: runShows_keeps [OF assms(1,2)])

lemma runShows_drop:
  assumes "runShows (tc, ks)" "keepsSelected tc tc'"
  shows "runShows (tc', ks)" "runShows (tc', remove1 d ks)"
  using set_remove1_subset [of d ks] by (auto intro!: runShows_keeps [OF assms])

lemma runShows_fits: "runShows (tc, ks) \<Longrightarrow> c \<in> set ks \<Longrightarrow> fitsSelection tc c"
  by (simp add: runShows_def)

lemma keeps_of_snd: "p = (r, tc') \<Longrightarrow> keepsSelected tc (snd p) \<Longrightarrow> keepsSelected tc tc'"
  by simp

lemma runShows_select:
  assumes "runShows (tc, ks)" "selectThread t tc = Inr (epoch, tc')"
  shows "runShows (tc', AwaitMetadata epoch t # ks)"
proof -
  have now: "tcProjections tc' = []" "cvwProjection (tcCurrent tc') = None" "cvwThread (tcCurrent tc') = Some t"
      "cvwEpoch (tcCurrent tc') = cvwEpoch (tcCurrent tc) + 1" "epoch = cvwEpoch (tcCurrent tc) + 1"
    using assms(2) by (auto simp: selectThread_def stopConnection_def Let_def split: if_splits)
  have "fitsSelection tc' c" if "fitsSelection tc c" for c
    using that now by (auto simp: fitsSelection_def split: option.splits prod.splits)
  then show ?thesis using assms(1) now by (auto simp: runShows_def clientShows_def fitsSelection_def)
qed

lemma childProjection_fits:
  assumes "fitsSelection tc c" "openingOf c = Some k"
  shows "csSessionId (childProjection k s) = kdSession k" "ptId (csThread (childProjection k s)) = kdThread k"
  using assms by (auto simp: fitsSelection_def childProjection_def split: option.splits)

lemma openChildSession_fits:
  assumes "clientShows tc" "openChildSession s tc = Inr (k, tc')"
  shows "fitsSelection tc' (AwaitChild k)"
proof -
  obtain f x root where "tcFamily tc = Some f" and root: "map_of (tcProjections tc) (faRoot f) = Some (x, root)"
    and k: "kdEpoch k = cvwEpoch (tcCurrent tc)" "kdThread k = ptId (csThread root)" "kdSession k = s"
      "kdCached k = map_option snd (map_of (tcProjections tc) s)" "tcCurrent tc' = tcCurrent tc"
    using assms(2) by (auto simp: openChildSession_def Let_def split: option.splits if_splits prod.splits)
  have "cvwThread (tcCurrent tc) = Some (kdThread k)" using clientShows_map_of [OF assms(1) root] k(2) by simp
  moreover have "csSessionId p = s \<and> ptId (csThread p) = kdThread k" if "map_of (tcProjections tc) s = Some (y, p)" for y p
    using clientShows_map_of [OF assms(1) that] calculation by simp
  ultimately show ?thesis using k by (auto simp: fitsSelection_def)
qed

lemma childRead_thread:
  assumes "childRead k tc = Inr (b, tc')"
  shows "cvwThread (tcCurrent tc') = Some (kdThread k)" "tcCurrent tc' = tcCurrent tc" "kdEpoch k = cvwEpoch (tcCurrent tc)"
  using assms by (auto simp: childRead_def staleEpoch_def stopConnection_def split: if_splits option.splits)

lemma client_step_shows:
  assumes "client_step target r r'" "runShows r"
  shows "runShows r'"
  using assms
proof (induction rule: client_step.induct)
  case (refresh tc revision tc' ks)
  then have "keepsSelected tc tc'" by (auto simp: refreshThreads_def)
  then show ?case using refresh.prems by (intro runShows_step fitsSelection_free) auto
next
  case (listed revision ks tc page)
  show ?case by (rule runShows_drop(2) [OF listed.prems threadsListed_keeps])
next
  case (selects threadId tc epoch tc' ks)
  then show ?case by (intro runShows_select)
next
  case (metadata epoch threadId ks tc m)
  have keeps: "keepsSelected tc (metadataRead epoch threadId m tc)" by (rule metadataRead_keeps)
  then have "sameSelected tc (metadataRead epoch threadId m tc)" using metadata.prems by (simp add: keepsSelected_def runShows_def)
  then have "fitsSelection (metadataRead epoch threadId m tc) (AwaitExecution epoch threadId m)"
    by (rule fits_sameSelected [OF runShows_fits [OF metadata.prems metadata.hyps]]) simp_all
  then show ?case using metadata.prems keeps by (intro runShows_step)
next
  case (ensures epoch threadId m ks tc command tc' x)
  have keeps: "keepsSelected tc tc'" by (rule keeps_of_snd [OF ensures.hyps(2) ensureSession_keeps])
  then have "sameSelected tc tc'" using ensures.prems by (simp add: keepsSelected_def runShows_def)
  then have "fitsSelection tc' (AwaitSession epoch threadId (target m) x)"
    by (rule fits_sameSelected [OF runShows_fits [OF ensures.prems ensures.hyps(1)]]) simp_all
  then show ?case using ensures.prems keeps by (intro runShows_step)
next
  case (loaded epoch threadId tg x ks tc sessionId s page)
  have "keepsSelected tc (selectionRead epoch threadId tg x sessionId s page tc)"
    using runShows_fits [OF loaded.prems loaded.hyps] by (intro selectionRead_keeps) (auto simp: fitsSelection_def staleEpoch_def)
  then show ?case using loaded.prems by (intro runShows_step fitsSelection_free) auto
next
  case (previews threadId tc m sessionId tc' ks)
  then show ?case using keeps_of_snd [OF previews.hyps previewThread_keeps] by (intro runShows_step fitsSelection_free) auto
next
  case (previews_cached threadId tc tc' ks)
  show ?case by (rule runShows_drop(1) [OF previews_cached.prems keeps_of_snd [OF previews_cached.hyps previewThread_keeps]])
next
  case (previewed threadId sessionId tg ks tc s)
  show ?case by (rule runShows_drop(2) [OF previewed.prems previewRead_keeps])
next
  case (preview_fails threadId sessionId tg ks tc)
  have "keepsSelected tc (previewFailed threadId tc)" by (simp add: previewFailed_def)
  then show ?case by (rule runShows_drop(2) [OF preview_fails.prems])
next
  case (event sessionId epoch ks tc e)
  show ?case by (rule runShows_drop(1) [OF event.prems observeEvent_keeps])
next
  case (status sessionId epoch ks st tc tc')
  have "keepsSelected tc tc'"
    using keepsSelected_trans [OF observeStatus_keeps keeps_of_snd [OF status.hyps(2) statusRefresh_keeps]] .
  then show ?case by (rule runShows_drop(1) [OF status.prems])
next
  case (status_refresh sessionId epoch ks st tc r tc1 begun tc')
  have "keepsSelected tc tc'"
    using keepsSelected_trans [OF observeStatus_keeps keepsSelected_trans [OF keeps_of_snd [OF status_refresh.hyps(2) statusRefresh_keeps]
      keeps_of_snd [OF status_refresh.hyps(3) refreshFamily_keeps]]] .
  then show ?case using runShows_drop(1) [OF status_refresh.prems] runShows_step(1) [OF status_refresh.prems, of tc' "AwaitFamily epoch"]
    by (simp add: fitsSelection_free)
next
  case (connection_fails sessionId epoch ks tc err)
  show ?case by (rule runShows_drop(2) [OF connection_fails.prems connectionFailed_keeps])
next
  case (interrupted sessionId epoch ks tc)
  show ?case by (rule runShows_drop(2) [OF interrupted.prems keepsSelected_refl])
next
  case (family epoch ks tc page)
  show ?case by (rule runShows_drop(2) [OF family.prems familyRefreshed_keeps])
next
  case (family_fails epoch ks tc err)
  show ?case by (rule runShows_drop(2) [OF family_fails.prems familyRefreshFailed_keeps])
next
  case (more tc epoch root pat before tc' ks)
  then have "keepsSelected tc tc'" by (auto simp: loadMoreCollaborators_def split: option.splits if_splits)
  then show ?case using more.prems by (intro runShows_step fitsSelection_free) auto
next
  case (more_read epoch ks tc page)
  show ?case by (rule runShows_drop(2) [OF more_read.prems collaboratorsLoaded_keeps])
next
  case (more_fails epoch ks tc)
  have "keepsSelected tc (collaboratorsFailed tc)" by (simp add: collaboratorsFailed_def)
  then show ?case by (rule runShows_drop(2) [OF more_fails.prems])
next
  case (opens s tc k tc' ks)
  have "fitsSelection tc' (AwaitChild k)" using opens openChildSession_fits by (auto simp: runShows_def)
  then show ?case using opens openChildSession_keeps by (intro runShows_step) auto
next
  case (opened k ks tc tc' s)
  have fit: "fitsSelection tc (AwaitChild k)" using opened by (intro runShows_fits)
  have "keepsSelected tc' (childOpened k s None tc')"
    using childProjection_fits [OF fit] childRead_thread [OF opened.hyps(2)] by (intro childOpened_keeps) simp
  then have "keepsSelected tc (childOpened k s None tc')"
    using keepsSelected_trans [OF childRead_keeps [OF opened.hyps(2)]] by blast
  then show ?case using opened.prems by (intro runShows_step fitsSelection_free) auto
next
  case (open_stops k ks tc tc' previous s)
  have fit: "fitsSelection tc (AwaitChild k)" using open_stops by (intro runShows_fits)
  have keeps: "keepsSelected tc tc'" using open_stops by (intro childRead_keeps)
  then have "sameSelected tc tc'" using open_stops.prems by (simp add: keepsSelected_def runShows_def)
  then have "fitsSelection tc' (AwaitChildStop k s previous)" by (rule fits_sameSelected [OF fit]) simp_all
  then show ?case using open_stops.prems keeps by (intro runShows_step)
next
  case (open_stopped k s previous ks tc)
  have fit: "fitsSelection tc (AwaitChildStop k s previous)" using open_stopped by (intro runShows_fits)
  then have "cvwThread (tcCurrent tc) = Some (kdThread k)" using open_stopped.hyps(2) by (simp add: fitsSelection_def)
  then have "keepsSelected tc (childOpened k s (Some previous) tc)"
    using childProjection_fits [OF fit] by (intro childOpened_keeps) simp
  then show ?case using open_stopped.prems by (intro runShows_step fitsSelection_free) auto
next
  case (open_stale k ks tc err)
  show ?case by (rule runShows_drop(2) [OF open_stale.prems keepsSelected_refl])
next
  case (goes_back tc previous tc' ks)
  then show ?case using keeps_of_snd [OF goes_back.hyps backToThread_keeps] by (intro runShows_step fitsSelection_free) auto
next
  case (went_back previous ks tc r tc')
  show ?case by (rule runShows_drop(2) [OF went_back.prems keeps_of_snd [OF went_back.hyps(2) wentBack_keeps]])
next
  case (older tc c leaf tc' ks)
  then show ?case using keeps_of_snd [OF older.hyps loadOlder_keeps] by (intro runShows_step fitsSelection_free) auto
next
  case (older_read c leaf ks answer tc r tc')
  show ?case by (rule runShows_drop(2) [OF older_read.prems keeps_of_snd [OF older_read.hyps(2) historyRead_keeps]])
next
  case (commands call provided tc m tc' ks)
  then show ?case using callCommand_keeps by (intro runShows_step fitsSelection_free) auto
next
  case (answered m ks answer tc r tc')
  show ?case by (rule runShows_drop(2) [OF answered.prems keeps_of_snd [OF answered.hyps(2) commandAnswered_keeps]])
next
  case (fails k ks tc)
  show ?case by (rule runShows_drop(2) [OF fails.prems keepsSelected_refl])
next
  case (disposes tc ks)
  show ?case by (rule runShows_drop(1) [OF disposes.prems]) simp
qed

lemma client_steps_show: "client_steps target r r' \<Longrightarrow> runShows r \<Longrightarrow> runShows r'"
  by (induction rule: client_steps.induct) (auto intro: client_step_shows)

lemma makeThreadClient_shows: "runShows (makeThreadClient, [])"
  by (simp add: runShows_def clientShows_def makeThreadClient_def initialView_def)

end
