(* ===== verification/Client_History.thy ===== *)
theory Client_History
  imports Client_Selected
begin

text \<open>
  Loading older history until nothing is left: each page brings entries before those that are
  shown, so the walk ends with the whole history in order.  The server's pages are a parameter
  with what they promise: a page of the entries up to the one asked for, at least one, and the
  entry before them as the place to go on.
\<close>

definition servesHistory :: "conversation_entry list \<Rightarrow> (utf16 option \<Rightarrow> history_page) \<Rightarrow> bool" where
  "servesHistory full page \<longleftrightarrow>
     (\<forall>i < length full. \<exists>k. 0 < k \<and> k \<le> Suc i \<and>
        page (Some (ceId (full ! i))) =
          \<lparr>hpLeafId = Some (ceId (full ! i)), hpEntries = take k (drop (Suc i - k) full),
           hpNextLeafId = (if k = Suc i then None else Some (ceId (full ! (i - k))))\<rparr>)"

text \<open>Loading one page and applying the answer.\<close>

definition loadPage :: "(utf16 option \<Rightarrow> history_page) \<Rightarrow> 'x thread_client \<Rightarrow> 'x thread_client" where
  "loadPage page tc =
     (case loadOlder tc of
        (None, tc') \<Rightarrow> tc'
      | (Some (c, leaf), tc') \<Rightarrow> snd (historyRead c leaf (Inr (page leaf)) tc'))"

text \<open>The conversation shown holds the entries from a position on and asks for those before it.\<close>

definition showsFrom :: "conversation_entry list \<Rightarrow> nat \<Rightarrow> 'x thread_client \<Rightarrow> bool" where
  "showsFrom full j tc \<longleftrightarrow> \<not> tcDisposed tc \<and> \<not> tcHistoryInFlight tc \<and> tcExecution tc \<noteq> None \<and>
     (\<exists>p. cvwProjection (tcCurrent tc) = Some p \<and> cvwSession (tcCurrent tc) = Some (csSessionId p) \<and>
        cvEntries (ssConversation (csSnapshot p)) = drop j full \<and>
        cvNextLeafId (ssConversation (csSnapshot p)) = (if j = 0 then None else Some (Some (ceId (full ! (j - 1))))))"

lemma older_page:
  assumes "distinct (map ceId full)" "k \<le> j" "j \<le> length full"
  shows "olderEntries (take k (drop (j - k) full)) (drop j full) = drop (j - k) full"
proof -
  have split: "drop (j - k) full = take k (drop (j - k) full) @ drop j full"
    using append_take_drop_id [of k "drop (j - k) full"] assms(2) by simp
  have "distinct (map ceId (take k (drop (j - k) full)) @ map ceId (drop j full))"
    using assms(1) split by (metis distinct_drop drop_map map_append)
  then have "filter (\<lambda>e. ceId e \<notin> ceId ` set (drop j full)) (take k (drop (j - k) full)) = take k (drop (j - k) full)"
    by (auto simp: filter_id_conv)
  then show ?thesis unfolding olderEntries_def using split by simp
qed

lemma updateProjection_shown:
  assumes "\<not> tcDisposed tc"
  shows "cvwProjection (tcCurrent (updateProjection p tc)) = Some p"
    "cvwSession (tcCurrent (updateProjection p tc)) = Some (csSessionId p)"
    "tcDisposed (updateProjection p tc) = False" "tcExecution (updateProjection p tc) = tcExecution tc"
  using assms by (auto simp: updateProjection_def Let_def split: option.split)

lemma reproject_snapshot [simp]: "csSnapshot (reproject s f p) = s"
  by (simp add: reproject_def projectSnapshot_def Let_def)

lemma loadPage_done:
  assumes "showsFrom full 0 tc"
  shows "loadPage page tc = tc"
  using assms by (auto simp: showsFrom_def loadPage_def loadOlder_def selectionOf_def)

lemma loadPage_step:
  assumes "showsFrom full j tc" "0 < j" "j \<le> length full" "distinct (map ceId full)" "servesHistory full page"
  shows "\<exists>j' < j. showsFrom full j' (loadPage page tc)"
proof -
  obtain p x where p: "cvwProjection (tcCurrent tc) = Some p" "cvwSession (tcCurrent tc) = Some (csSessionId p)"
      "cvEntries (ssConversation (csSnapshot p)) = drop j full"
      "cvNextLeafId (ssConversation (csSnapshot p)) = Some (Some (ceId (full ! (j - 1))))"
      "tcExecution tc = Some x" "\<not> tcDisposed tc" "\<not> tcHistoryInFlight tc"
    using assms(1,2) by (auto simp: showsFrom_def)
  let ?leaf = "Some (ceId (full ! (j - 1)))"
  have "j - 1 < length full" "Suc (j - 1) = j" using assms(2,3) by auto
  then obtain k where k: "0 < k" "k \<le> j"
      "page ?leaf = \<lparr>hpLeafId = ?leaf, hpEntries = take k (drop (j - k) full),
        hpNextLeafId = (if k = j then None else Some (ceId (full ! (j - 1 - k))))\<rparr>"
    using assms(5) unfolding servesHistory_def by metis
  let ?c = "\<lparr>scEpoch = cvwEpoch (tcCurrent tc), scSession = csSessionId p, scExecution = x, scProjection = p\<rparr>"
  let ?tc = "tc\<lparr>tcHistoryInFlight := True\<rparr>"
  let ?v = "withOlder (page ?leaf) (ssConversation (csSnapshot p))"
  let ?p = "reproject ((csSnapshot p)\<lparr>ssConversation := ?v\<rparr>) (tcFamily tc) p"
  have older: "loadOlder tc = (Some (?c, ?leaf), ?tc)" using p by (simp add: loadOlder_def selectionOf_def)
  have read: "snd (historyRead ?c ?leaf (Inr (page ?leaf)) ?tc) = updateProjection ?p ?tc\<lparr>tcHistoryInFlight := False\<rparr>"
    using p k(3) by (simp add: historyRead_def sameSelection_def Let_def)
  have load: "loadPage page tc = updateProjection ?p ?tc\<lparr>tcHistoryInFlight := False\<rparr>"
    unfolding loadPage_def older using read by simp
  have "cvEntries ?v = drop (j - k) full" using p(3) k older_page [OF assms(4) k(2) assms(3)] by (simp add: withOlder_def)
  moreover have "cvNextLeafId ?v = (if j - k = 0 then None else Some (Some (ceId (full ! (j - k - 1)))))"
    using k by (auto simp: withOlder_def diff_commute)
  ultimately have "showsFrom full (j - k) (loadPage page tc)"
    unfolding load showsFrom_def using p updateProjection_shown [of ?tc ?p] by simp
  moreover have "j - k < j" using k(1) assms(2) by simp
  ultimately show ?thesis by blast
qed

lemma history_walk:
  assumes "showsFrom full j tc" "j \<le> length full" "distinct (map ceId full)" "servesHistory full page"
  shows "showsFrom full 0 ((loadPage page ^^ j) tc)"
  using assms
proof (induction j arbitrary: tc rule: less_induct)
  case (less j)
  have stay: "(loadPage page ^^ n) t = t" if "showsFrom full 0 t" for n and t :: "'a thread_client"
    using that by (induction n) (simp_all add: loadPage_done)
  show ?case
  proof (cases "j = 0")
    case False
    then obtain j' where j': "j' < j" "showsFrom full j' (loadPage page tc)" using loadPage_step less.prems by blast
    have "(loadPage page ^^ j) tc = (loadPage page ^^ (j - Suc j')) ((loadPage page ^^ j') (loadPage page tc))"
    proof -
      have "j = (j - Suc j') + Suc j'" using j'(1) by simp
      then have "(loadPage page ^^ j) tc = (loadPage page ^^ (j - Suc j')) ((loadPage page ^^ Suc j') tc)"
        by (metis comp_apply funpow_add)
      then show ?thesis by (simp add: funpow_swap1)
    qed
    moreover have "showsFrom full 0 ((loadPage page ^^ j') (loadPage page tc))"
      using less.IH [OF j'(1) j'(2)] j'(1) less.prems by simp
    ultimately show ?thesis using stay by simp
  qed (use less.prems in simp)
qed

section \<open>Commands\<close>

text \<open>No step takes the serial number of commands back, and every generated id has its own.\<close>

lemma publishView_serial [simp]: "tcSerial (publishView v tc) = tcSerial tc"
  by (simp add: publishView_def)

lemma generated_id:
  assumes "nextCommandId op None tc = (c, tc')"
  shows "c = plainText ''tui-v2:'' @ op @ [colon] @ indexText (tcSerial tc')" "tcSerial tc' = tcSerial tc + 1"
  using assms by (auto simp: nextCommandId_def plainText_def colon_def)

lemma generated_ids_differ:
  assumes "plainText ''tui-v2:'' @ op @ [colon] @ indexText m = plainText ''tui-v2:'' @ op' @ [colon] @ indexText n"
  shows "m = n"
proof -
  have end1: "rev (takeWhile (\<lambda>x. x \<noteq> colon) (rev (a @ [colon] @ indexText k))) = indexText k" for a k
  proof -
    have "colon \<notin> set (indexText k)" unfolding indexText_def by (rule numberText_no_colon)
    then have "takeWhile (\<lambda>x. x \<noteq> colon) (rev (indexText k) @ colon # rev a) = rev (indexText k)"
      by (intro takeWhile_tail [THEN trans]) (auto simp: takeWhile_eq_all_conv)
    then show ?thesis by simp
  qed
  have "op @ [colon] @ indexText m = op' @ [colon] @ indexText n" using assms by simp
  with end1 [of op m] end1 [of op' n] have "indexText m = indexText n" by (simp only:)
  then have "Whole (int m) = Whole (int n)" unfolding indexText_def by (rule numberText_inj)
  then show ?thesis by simp
qed

lemma serial_kept [simp]:
  "tcSerial (updateProjection p tc) = tcSerial tc" "tcSerial (storeProjection s p tc) = tcSerial tc"
  "tcSerial (setFamily f tc) = tcSerial tc" "tcSerial (stopConnection so tc) = tcSerial tc"
  "tcSerial (connectForSelection s epoch tc) = tcSerial tc" "tcSerial (noticeView n tc) = tcSerial tc"
  "tcSerial (disposeClient tc) = tcSerial tc" "tcSerial (observeStatus st epoch s tc) = tcSerial tc"
  "tcSerial (observeEvent e epoch tc) = tcSerial tc"
  by (auto simp: updateProjection_def storeProjection_def setFamily_def stopConnection_def connectForSelection_def
    noticeView_def disposeClient_def observeStatus_def observeEvent_def Let_def split: option.split projection_result.split)

lemma nextCommandId_serial: "nextCommandId op provided tc = (c, tc') \<Longrightarrow> tcSerial tc \<le> tcSerial tc'"
  by (auto simp: nextCommandId_def split: option.splits if_splits)

lemma callCommand_serial: "callCommand call provided tc = Inr (m, tc') \<Longrightarrow> tcSerial tc \<le> tcSerial tc'"
  by (cases call) (auto simp: submitPrompt_def editPending_def removePending_def steerRun_def cancelRun_def followUp_def
    controlSession_def startCommand_def Let_def dest: nextCommandId_serial split: option.splits if_splits prod.splits)

lemma answers_serial [simp]:
  "tcSerial (selectionRead epoch t tg x s snap page tc) = tcSerial tc" "tcSerial (familyRefreshed epoch page tc) = tcSerial tc"
  "tcSerial (collaboratorsLoaded epoch page tc) = tcSerial tc" "tcSerial (childOpened k snap so tc) = tcSerial tc"
  "tcSerial (previewRead t s tg snap tc) = tcSerial tc" "tcSerial (threadsListed revision metas tc) = tcSerial tc"
  "tcSerial (metadataRead epoch t m tc) = tcSerial tc" "tcSerial (connectionFailed epoch err tc) = tcSerial tc"
  "tcSerial (familyRefreshFailed epoch err tc) = tcSerial tc" "tcSerial (collaboratorsFailed tc) = tcSerial tc"
  "tcSerial (previewFailed t tc) = tcSerial tc"
  by (simp_all add: selectionRead_def familyRefreshed_def collaboratorsLoaded_def childOpened_def previewRead_def threadsListed_def
    metadataRead_def connectionFailed_def familyRefreshFailed_def collaboratorsFailed_def previewFailed_def Let_def
    split: option.split prod.split)

lemma pairs_serial [simp]:
  "tcSerial (snd (statusRefresh st epoch s tc)) = tcSerial tc" "tcSerial (snd (refreshFamily tc)) = tcSerial tc"
  "tcSerial (snd (previewThread t tc)) = tcSerial tc" "tcSerial (snd (loadOlder tc)) = tcSerial tc"
  "tcSerial (snd (historyRead c leaf answer tc)) = tcSerial tc" "tcSerial (snd (backToThread tc)) = tcSerial tc"
  "tcSerial (snd (wentBack previous tc)) = tcSerial tc" "tcSerial (snd (commandAnswered m answer' tc)) = tcSerial tc"
  by (auto simp: statusRefresh_def refreshFamily_def previewThread_def loadOlder_def historyRead_def backToThread_def wentBack_def
    commandAnswered_def failCommand_def withReceipt_def Let_def split: option.split prod.split sum.split)

lemma of_snd: "p = (r, tc') \<Longrightarrow> tcSerial (snd p) = n \<Longrightarrow> tcSerial tc' = n"
  by simp

lemma client_step_serial: "client_step target r r' \<Longrightarrow> tcSerial (fst r) \<le> tcSerial (fst r')"
proof (induction rule: client_step.induct)
  case (ensures epoch threadId m ks tc command tc' x)
  then show ?case by (auto simp: ensureSession_def dest: nextCommandId_serial split: if_splits prod.splits)
next
  case (commands call provided tc m tc' ks)
  then show ?case by (auto dest: callCommand_serial)
next
  case (status sessionId epoch ks st tc tc')
  show ?case using of_snd [OF status(2) pairs_serial(1)] by simp
next
  case (status_refresh sessionId epoch ks st tc r tc1 begun tc')
  show ?case using of_snd [OF status_refresh(2) pairs_serial(1)] of_snd [OF status_refresh(3) pairs_serial(2)] by simp
qed (auto simp: refreshThreads_def selectThread_def loadMoreCollaborators_def openChildSession_def childRead_def Let_def
    dest: of_snd [OF _ pairs_serial(3)] of_snd [OF _ pairs_serial(4)] of_snd [OF _ pairs_serial(5)]
      of_snd [OF _ pairs_serial(6)] of_snd [OF _ pairs_serial(7)] of_snd [OF _ pairs_serial(8)]
    split: if_splits option.splits prod.splits)

lemma client_steps_serial: "client_steps target r r' \<Longrightarrow> tcSerial (fst r) \<le> tcSerial (fst r')"
  by (induction rule: client_steps.induct) (auto dest: client_step_serial)

end
