(* ===== verification/Client_Properties.thy ===== *)
theory Client_Properties
  imports Client_History
begin

text \<open>
  The properties of the client's projection of a hosted session and of the thread client, with
  samples: a session whose answer arrives too early, previews that come late and again, a client
  that selects a thread, pages of its history, and a child that is opened while another thread
  is selected.
\<close>

section \<open>A sample session\<close>

definition sampleSession :: session_snapshot where
  "sampleSession = \<lparr>ssSession = \<lparr>seId = [1], seTitle = None, seLifecycle = plainText ''open'', seActiveRun = Some [2], seQueue = []\<rparr>,
     ssCursor = 4, ssRuns = [\<lparr>hrRunId = [2], hrStatus = plainText ''running'', hrApproval = False, hrParent = None, hrRoot = [2]\<rparr>],
     ssConversation = \<lparr>cvLeafId = Some [2], cvEntries = [\<lparr>ceId = [2], ceMessages = [(UserMessage, WholeContent [10])]\<rparr>],
       cvNextLeafId = None\<rparr>\<rparr>"

definition sampleClient :: client_state where
  "sampleClient = projectSnapshot [1] None sampleSession None None None None"

definition sampleAnswer :: conversation_update where
  "sampleAnswer = \<lparr>cuPreviousLeafId = Some [2], cuLeafId = Some [3], cuNextLeafId = None, cuReset = False,
     cuAfterEntryId = Some [2], cuEntries = [\<lparr>ceId = [3], ceMessages = [(AssistantMessage, WholeContent [11])]\<rparr>]\<rparr>"

definition sampleLog :: "int \<Rightarrow> committed_body" where
  "sampleLog c = (if c = 6 then ConversationEvent sampleAnswer else OtherCommitted)"

definition samplePreview :: "int \<Rightarrow> utf16 \<Rightarrow> preview_delivery" where
  "samplePreview n t = \<lparr>pdSessionId = [1], pdRunId = [2], pdAttemptFence = 1, pdEventRunId = [2],
     pdEvent = ModelPreview [20] [21] 1 0 n [\<lparr>chChannel = TextChannel, chOffset = 0, chDelta = t\<rparr>]\<rparr>"

definition sampleCleared :: preview_delivery where
  "sampleCleared = \<lparr>pdSessionId = [1], pdRunId = [2], pdAttemptFence = 1, pdEventRunId = [2], pdEvent = PreviewCleared 0\<rparr>"

text \<open>The answer comes too early, the events before it come twice, a preview comes late and again.\<close>

definition sampleEvents :: "connection_event list" where
  "sampleEvents =
     [PreviewDelivery (samplePreview 1 [30]), Committed [1] 6 (ConversationEvent sampleAnswer), Committed [1] 5 OtherCommitted,
      PreviewDelivery (samplePreview 2 [31]), PreviewDelivery (samplePreview 1 [30]), Committed [9] 6 OtherCommitted,
      Committed [1] 5 OtherCommitted, Committed [1] 6 (ConversationEvent sampleAnswer)]"

lemmas sample_run = sampleEvents_def sampleClient_def sampleSession_def sampleAnswer_def samplePreview_def
  projectSnapshot_def projectThread_def withSnapshot_def applyCommitted_def applyPreview_def applyConversation_def
  updatedEntries_def previewEvent_def olderThan_def ignoredByFence_def ignoredByCurrent_def fenceOf_def Let_def

section \<open>Fences\<close>

text \<open>
  Along every run of events, whatever their order, each preview that is shown comes from
  the model call that the fence of its run names, there is at most one per run, and fences only
  advance: a fence is never lost, never goes back to an older attempt or generation, and keeps
  naming the same model call while attempt and generation stay.
\<close>

theorem preview_fences_advance:
  assumes "previewsFenced st"
  shows "previewsFenced (afterEvents st es) \<and>
    (\<forall>run f. map_of (csFences st) run = Some f \<longrightarrow>
      (\<exists>g. map_of (csFences (afterEvents st es)) run = Some g \<and> fenceFollows f g))"
  using run_fenced [OF assms, of es] unfolding fencesAdvance_def .

lemma sample_fenced: "previewsFenced sampleClient"
  by (simp add: previewsFenced_def sampleClient_def projectSnapshot_def Let_def)

theorem preview_fences_advance_witness: "previewsFenced (afterEvents sampleClient sampleEvents)"
  using preview_fences_advance [OF sample_fenced] by simp

section \<open>The server's log\<close>

text \<open>
  C6: Deliver the events of a session's log in any order, with gaps, repetitions, previews
  and events of other sessions between them.  The client's snapshot is then always one that the
  server had: a snapshot the client was given (the first one or a replacement), followed by the
  next events of the log without a gap, and the client's cursor is the cursor of that snapshot.
\<close>

theorem client_shows_log_prefix:
  assumes "list_all (ofLog (csSessionId st) log) es" and "csCursor st = ssCursor (csSnapshot st)"
  shows "csCursor (afterEvents st es) = ssCursor (csSnapshot (afterEvents st es)) \<and>
    (\<exists>b \<in> bases (csSnapshot st) es. \<exists>n. replayLog log b n = Some (csSnapshot (afterEvents st es)))"
proof -
  have "replayLog log (csSnapshot st) 0 = Some (csSnapshot st)" by simp
  then have "atPrefix log (bases (csSnapshot st) es) st"
    using assms(2) unfolding atPrefix_def bases_def by blast
  then show ?thesis using run_atPrefix [OF assms(1)] unfolding atPrefix_def bases_def by blast
qed

lemma sample_client: "csSessionId sampleClient = [1]" "csCursor sampleClient = 4" "csSnapshot sampleClient = sampleSession"
  by (simp_all add: sampleClient_def projectSnapshot_def Let_def sampleSession_def)

lemma sample_of_log: "list_all (ofLog (csSessionId sampleClient) sampleLog) sampleEvents"
  by (simp add: sample_client sampleEvents_def sampleLog_def)

theorem client_shows_log_prefix_witness:
  "\<exists>b \<in> bases sampleSession sampleEvents. \<exists>n. replayLog sampleLog b n = Some (csSnapshot (afterEvents sampleClient sampleEvents))"
  using client_shows_log_prefix [OF sample_of_log] sample_client by (simp add: sampleSession_def)

text \<open>
  Every event of the log that arrives in order is taken: if the events after some cursor
  the client has passed are delivered in order, with anything but replacement snapshots between
  them, and they apply to the client's snapshot, the client ends at or behind the last of them.
  A gap, a repetition or a late preview costs nothing.
\<close>

theorem client_catches_up:
  assumes "subseq (logEvents (csSessionId st) log c n) es" and "list_all (ofLog (csSessionId st) log) es"
    and "\<not> list_ex isSnapshot es" and "csCursor st = ssCursor (csSnapshot st)" and "c \<le> csCursor st"
    and "replayLog log (csSnapshot st) (nat (c + int n - csCursor st)) \<noteq> None"
  shows "c + int n \<le> csCursor (afterEvents st es)"
  using assms by (rule run_catches_up)

lemma sample_applies: "replayLog sampleLog sampleSession 2 \<noteq> None"
  by (simp add: numeral_2_eq_2 committedNext_def sampleLog_def sampleAnswer_def sampleSession_def applyConversation_def)

lemma sample_in_order: "subseq (logEvents [1] sampleLog 4 2) sampleEvents"
  by (simp add: numeral_2_eq_2 sampleLog_def sampleEvents_def sampleAnswer_def)

theorem client_catches_up_witness: "6 \<le> csCursor (afterEvents sampleClient sampleEvents)"
proof -
  have "subseq (logEvents (csSessionId sampleClient) sampleLog 4 2) sampleEvents"
    using sample_in_order by (simp add: sample_client)
  moreover have "\<not> list_ex isSnapshot sampleEvents" by (simp add: sampleEvents_def)
  moreover have "csCursor sampleClient = ssCursor (csSnapshot sampleClient)" by (simp add: sample_client sampleSession_def)
  moreover have "replayLog sampleLog (csSnapshot sampleClient) (nat (4 + int 2 - csCursor sampleClient)) \<noteq> None"
    using sample_applies by (simp add: sample_client)
  ultimately show ?thesis
    using client_catches_up [of sampleClient sampleLog 4 2 sampleEvents] sample_of_log by (simp add: sample_client)
qed

section \<open>A cleared preview\<close>

text \<open>
  Clearing a preview removes it from the previews but not from the items of the thread, which
  keep showing it until the next event that projects the thread.
\<close>

lemma cleared_preview_stays_shown:
  assumes "resultState (applyPreview st d) = st\<lparr>csPreviews := AList.delete (pdRunId d) (csPreviews st)\<rparr>"
  shows "csThread (resultState (applyConnectionEvent st (PreviewDelivery d))) = csThread st"
  using assms by simp

section \<open>Selecting threads\<close>


definition sampleMetadata :: thread_metadata where
  "sampleMetadata = \<lparr>tmId = [50], tmTitle = [51], tmTarget = RunnerTarget, tmSessionId = None\<rparr>"

definition sampleFamily :: family_projection where
  "sampleFamily = \<lparr>faRoot = [1], faAt = 0, faSessions = [\<lparr>reId = [7], reParent = Some [1], reInitialRun = [8], reDepth = 1\<rparr>,
     \<lparr>reId = [9], reParent = Some [1], reInitialRun = [10], reDepth = 1\<rparr>], faNextBefore = None\<rparr>"

definition selectedClient :: "nat thread_client" where
  "selectedClient = (case selectThread [50] makeThreadClient of Inl err \<Rightarrow> makeThreadClient | Inr (epoch, tc) \<Rightarrow> tc)"

definition loadingClient :: "nat thread_client" where
  "loadingClient = snd (ensureSession 1 (metadataRead 1 [50] sampleMetadata selectedClient))"

definition loadedClient :: "nat thread_client" where
  "loadedClient = selectionRead 1 [50] RunnerTarget 0 [1] sampleSession sampleFamily loadingClient"

lemma selected_client: "selectThread [50] makeThreadClient = Inr (1, selectedClient)"
  "cvwEpoch (tcCurrent selectedClient) = 1" "tcDisposed selectedClient = False"
  by (simp_all add: selectedClient_def selectThread_def makeThreadClient_def initialView_def stopConnection_def Let_def)

lemma loading_client:
  "\<exists>c. ensureSession 1 (metadataRead 1 [50] sampleMetadata selectedClient) = (Some c, loadingClient)"
  "cvwEpoch (tcCurrent loadingClient) = 1" "tcDisposed loadingClient = False"
  using selected_client(2,3)
  by (auto simp: loadingClient_def ensureSession_def metadataRead_def staleEpoch_def nextCommandId_def)

lemma loaded_client_run:
  "client_steps tmTarget (makeThreadClient, []) (loadedClient, [Delivering [1] 1])"
proof -
  obtain c where c: "ensureSession 1 (metadataRead 1 [50] sampleMetadata selectedClient) = (Some c, loadingClient)"
    using loading_client(1) by blast
  have 1: "client_step tmTarget (makeThreadClient, []) (selectedClient, [AwaitMetadata 1 [50]])"
    using selected_client(1) by (rule client_step.selects)
  have 2: "client_step tmTarget (selectedClient, [AwaitMetadata 1 [50]])
      (metadataRead 1 [50] sampleMetadata selectedClient, [AwaitExecution 1 [50] sampleMetadata])"
    using client_step.metadata [of 1 "[50]" "[AwaitMetadata 1 [50]]" tmTarget selectedClient sampleMetadata] by simp
  have 3: "client_step tmTarget (metadataRead 1 [50] sampleMetadata selectedClient, [AwaitExecution 1 [50] sampleMetadata])
      (loadingClient, [AwaitSession 1 [50] RunnerTarget 0])"
    using client_step.ensures [OF _ c, of "[50]" sampleMetadata "[AwaitExecution 1 [50] sampleMetadata]" tmTarget 0]
    by (simp add: sampleMetadata_def)
  have 4: "client_step tmTarget (loadingClient, [AwaitSession 1 [50] RunnerTarget 0]) (loadedClient, [Delivering [1] 1])"
    using client_step.loaded [of 1 "[50]" RunnerTarget 0 "[AwaitSession 1 [50] RunnerTarget 0]" tmTarget loadingClient "[1]" sampleSession sampleFamily]
    by (simp add: loadedClient_def)
  show ?thesis
    by (rule client_steps.more [OF client_steps.more [OF client_steps.more [OF client_steps.more [OF client_steps.none 1] 2] 3] 4])
qed

lemma loaded_client_shows: "\<exists>p. cvwProjection (tcCurrent loadedClient) = Some p"
  using loading_client(2,3)
  by (simp add: loadedClient_def selectionRead_def staleEpoch_def connectForSelection_def updateProjection_def setFamily_def Let_def)


text \<open>
  C33: The opening of a child session is not checked again after it waited for the previous
  child's connection to stop: when another thread is selected meanwhile, the child of the old
  thread is shown, and its session selected, under the new thread.
\<close>

theorem overtaken_child_shows_in_new_thread:
  assumes "childRead k tc = Inr (True, tc1)" and "selectThread t tc1 = Inr (epoch, tc2)"
    and "t \<noteq> kdThread k" and "kdCached k = None"
  shows "\<exists>tc3 ks'. overtaken_step (tc2, AwaitChildStop k s previous # ks) (tc3, ks') \<and> cvwThread (tcCurrent tc3) = Some t \<and>
    cvwEpoch (tcCurrent tc3) = epoch \<and> cvwSession (tcCurrent tc3) = Some (kdSession k) \<and>
    (\<exists>p. cvwProjection (tcCurrent tc3) = Some p \<and> ptId (csThread p) \<noteq> t)"
proof -
  have tc2: "cvwThread (tcCurrent tc2) = Some t" "cvwEpoch (tcCurrent tc2) = epoch" "\<not> tcDisposed tc2" "tcExecution tc2 = None"
    and "epoch = cvwEpoch (tcCurrent tc1) + 1"
    using assms(2) by (auto simp: selectThread_def stopConnection_def Let_def split: if_splits)
  then have stale: "cvwEpoch (tcCurrent tc2) \<noteq> kdEpoch k" using childRead_thread(2,3) [OF assms(1)] by simp
  have step: "overtaken_step (tc2, AwaitChildStop k s previous # ks) (childOpened k s (Some previous) tc2, Delivering (kdSession k) (kdEpoch k) # ks)"
    using overtaken [of k s previous "AwaitChildStop k s previous # ks" tc2] stale by simp
  have "ptId (csThread (childProjection k s)) \<noteq> t" "csSessionId (childProjection k s) = kdSession k"
    using assms(3,4) by (simp_all add: childProjection_def)
  then show ?thesis using step tc2
    by (intro exI [of _ "childOpened k s (Some previous) tc2"] exI [of _ "Delivering (kdSession k) (kdEpoch k) # ks"])
      (simp add: childOpened_def updateProjection_def connectForSelection_def Let_def)
qed

definition sampleOpening :: "nat child_opening" where
  "sampleOpening = \<lparr>kdSession = [9], kdEpoch = 1, kdSerial = 2, kdFamilyTag = 1, kdFamily = sampleFamily, kdExecution = 0,
     kdThread = [50], kdTarget = RunnerTarget, kdCached = None\<rparr>"

text \<open>A client with the child [7] open, which opens the child [9].\<close>

definition openingClient :: "nat thread_client" where
  "openingClient = makeThreadClient\<lparr>tcCurrent := initialView\<lparr>cvwEpoch := 1, cvwThread := Some [50]\<rparr>, tcFocused := Some [7],
     tcChildSerial := 2, tcFamily := Some sampleFamily, tcFamilyTag := 1\<rparr>"

lemma opening_client: "childRead sampleOpening openingClient = Inr (True, stopConnection (Some [7]) openingClient)"
  by (simp add: childRead_def staleEpoch_def sampleOpening_def openingClient_def makeThreadClient_def initialView_def)

lemma opening_selects: "\<exists>tc2. selectThread [60] (stopConnection (Some [7]) openingClient) = Inr (2, tc2)"
  by (simp add: selectThread_def stopConnection_def openingClient_def makeThreadClient_def initialView_def Let_def)

theorem overtaken_child_shows_in_new_thread_witness:
  "\<exists>tc2 tc3 ks'. selectThread [60] (stopConnection (Some [7]) openingClient) = Inr (2, tc2) \<and>
    overtaken_step (tc2, [AwaitChildStop sampleOpening sampleSession [7]]) (tc3, ks') \<and> cvwThread (tcCurrent tc3) = Some [60] \<and>
    (\<exists>p. cvwProjection (tcCurrent tc3) = Some p \<and> ptId (csThread p) \<noteq> [60])"
proof -
  obtain tc2 where tc2: "selectThread [60] (stopConnection (Some [7]) openingClient) = Inr (2, tc2)" using opening_selects by blast
  have "[60] \<noteq> kdThread sampleOpening" "kdCached sampleOpening = None" by (simp_all add: sampleOpening_def)
  from overtaken_child_shows_in_new_thread [OF opening_client tc2 this, of sampleSession "[7]" "[]"] tc2
  show ?thesis by blast
qed

section \<open>History and commands\<close>


definition sampleHistory :: "conversation_entry list" where
  "sampleHistory = [\<lparr>ceId = [1], ceMessages = []\<rparr>, \<lparr>ceId = [2], ceMessages = []\<rparr>, \<lparr>ceId = [3], ceMessages = []\<rparr>]"

definition sampleOlderPage :: "utf16 option \<Rightarrow> history_page" where
  "sampleOlderPage leaf =
     (if leaf = Some [2] then \<lparr>hpLeafId = Some [2], hpEntries = [\<lparr>ceId = [2], ceMessages = []\<rparr>], hpNextLeafId = Some [1]\<rparr>
      else if leaf = Some [3] then \<lparr>hpLeafId = Some [3], hpEntries = [\<lparr>ceId = [3], ceMessages = []\<rparr>], hpNextLeafId = Some [2]\<rparr>
      else \<lparr>hpLeafId = Some [1], hpEntries = [\<lparr>ceId = [1], ceMessages = []\<rparr>], hpNextLeafId = None\<rparr>)"

lemma sample_serves: "servesHistory sampleHistory sampleOlderPage"
proof -
  let ?one = "\<lambda>i. \<exists>k. 0 < k \<and> k \<le> Suc i \<and> sampleOlderPage (Some (ceId (sampleHistory ! i))) =
    \<lparr>hpLeafId = Some (ceId (sampleHistory ! i)), hpEntries = take k (drop (Suc i - k) sampleHistory),
     hpNextLeafId = (if k = Suc i then None else Some (ceId (sampleHistory ! (i - k))))\<rparr>"
  have "?one 0" "?one 1" "?one 2"
    by (intro exI [of _ 1]; simp add: sampleHistory_def sampleOlderPage_def numeral_2_eq_2)+
  moreover have "i = 0 \<or> i = 1 \<or> i = 2" if "i < length sampleHistory" for i
    using that by (auto simp: sampleHistory_def)
  ultimately show ?thesis unfolding servesHistory_def by blast
qed

definition pagingClient :: "nat thread_client" where
  "pagingClient =
     (let s = sampleSession\<lparr>ssConversation := \<lparr>cvLeafId = Some [3], cvEntries = drop 2 sampleHistory, cvNextLeafId = Some (Some [2])\<rparr>\<rparr>;
          p = projectSnapshot [1] (Some [50]) s None None None None in
      makeThreadClient\<lparr>tcExecution := Some 0, tcProjections := [([1], 0, p)],
        tcCurrent := initialView\<lparr>cvwThread := Some [50], cvwSession := Some [1], cvwProjection := Some p\<rparr>\<rparr>)"

lemma paging_client: "showsFrom sampleHistory 2 pagingClient"
  by (simp add: showsFrom_def pagingClient_def makeThreadClient_def initialView_def projectSnapshot_def Let_def sampleHistory_def)


text \<open>
  No two commands of a client share a generated id: whatever happens between them, a
  command started later, with the same or another operation, is given another id.
\<close>

theorem command_ids_are_distinct:
  assumes "nextCommandId op None tc = (c, tc1)" and "client_steps target (tc1, ks) (tc2, ks')"
    and "nextCommandId op' None tc2 = (c', tc3)"
  shows "c \<noteq> c'"
proof
  assume "c = c'"
  then have "tcSerial tc1 = tcSerial tc3"
    using generated_id [OF assms(1)] generated_id [OF assms(3)] generated_ids_differ by metis
  moreover have "tcSerial tc1 \<le> tcSerial tc2" using client_steps_serial [OF assms(2)] by simp
  ultimately show False using generated_id(2) [OF assms(3)] by simp
qed

theorem command_ids_are_distinct_witness:
  "fst (nextCommandId [1] None pagingClient) \<noteq> fst (nextCommandId [1] None (disposeClient (snd (nextCommandId [1] None pagingClient))))"
proof -
  let ?a = "nextCommandId [1] None pagingClient" and ?t = "RunnerTarget"
  have 1: "nextCommandId [1] None pagingClient = (fst ?a, snd ?a)" by simp
  have 2: "client_steps (\<lambda>m. ?t) (snd ?a, []) (disposeClient (snd ?a), [])"
    by (rule client_steps.more [OF client_steps.none client_step.disposes])
  have 3: "nextCommandId [1] None (disposeClient (snd ?a)) =
      (fst (nextCommandId [1] None (disposeClient (snd ?a))), snd (nextCommandId [1] None (disposeClient (snd ?a))))" by simp
  show ?thesis by (rule command_ids_are_distinct [OF 1 2 3])
qed

section \<open>Epochs\<close>

text \<open>
  A projection that is made anew (after a change of the family or a page of history) forgets the
  epoch of its connection, so that a replacement snapshot of an older epoch is taken again.
\<close>

lemma reprojected_epoch: "csEpoch (reproject s f p) = 0"
  by (simp add: reproject_def projectSnapshot_def Let_def)

lemma reprojection_takes_old_snapshot:
  assumes "seId (ssSession s') = csSessionId p" "0 \<le> epoch"
  shows "csSnapshot (resultState (applyConnectionEvent (reproject s f p) (ConnectionSnapshot epoch s'))) = s'"
  using assms by (simp add: replaceSnapshot_def reprojected_epoch) (simp add: projectSnapshot_def Let_def)

end
