(* ===== verification/Protocol_Authority.thy ===== *)
theory Protocol_Authority
  imports Prelude
begin

text \<open>
  Who may act on a hosted thread (packages/product-store/src/hosted/authority.ts and
  packages/product/src/hosted/identity/authorization.ts): a client that is still active for the
  owner, and a role on the thread or, for orb threads that inherit them, on its project.  Row
  locks (\<open>for key share\<close>) keep the rows as they were read until the transaction ends.
\<close>

section \<open>Actors and tables\<close>

text \<open>The owner's user or organization, the user, the membership, the client and the device.\<close>

datatype actor =
    PersonalActor (actorOwner: string) (actorUser: string) (actorClient: string) (actorDevice: string)
  | OrganizationActor (actorOwner: string) (actorUser: string) (actorMembership: string) (actorClient: string) (actorDevice: string)

datatype thread_reader = ActingReader actor | BrowserRead string

datatype owner_kind = PersonalKind string | OrganizationKind string

record owner_row =
  owId :: string
  owKind :: owner_kind

record client_row =
  clId :: string
  clUser :: string
  clDevice :: string
  clExpiresAt :: int
  clRevoked :: bool

record device_row =
  dvId :: string
  dvUser :: string
  dvRevoked :: bool

record client_authority_row =
  caClient :: string
  caOwner :: string
  caExpiresAt :: int
  caRevoked :: bool

record member_row =
  meId :: string
  meOrganization :: string
  meUser :: string

datatype grant_role = Viewer | Controller | Operator | OwnerRole

record grant_row =
  grOwner :: string
  grResource :: string
  grMember :: string
  grRole :: grant_role

datatype thread_executor = OrbExecutor | RunnerExecutor

record hosted_thread_row =
  htId :: string
  htOwner :: string
  htProject :: "string option"
  htCreator :: string
  htExecutor :: thread_executor
  htInherits :: bool

record authority_db =
  adOwners :: "owner_row list"
  adClients :: "client_row list"
  adDevices :: "device_row list"
  adAuthorities :: "client_authority_row list"
  adMembers :: "member_row list"
  adThreads :: "hosted_thread_row list"
  adThreadGrants :: "grant_row list"
  adProjectGrants :: "grant_row list"

section \<open>Errors\<close>

datatype persistence_reason = ReasonDatabase | ReasonConflict | ReasonNotFound | ReasonStaleVersion | ReasonInvalidAuthority | ReasonLeaseUnavailable | ReasonStaleFence

datatype persistence_error = PersistenceError (failureReason: persistence_reason) string

definition authorityFailure :: "string \<Rightarrow> persistence_error" where
  "authorityFailure m = PersistenceError ReasonInvalidAuthority m"

section \<open>Roles\<close>

datatype authorization_action =
    ProjectView | ProjectUpdate | ProjectGrant | ThreadView | ThreadControl | ThreadOperate | ThreadGrant
  | TerminalView | TerminalInput | PresenceView | PresenceUpdate | WorkspaceFileView | WorkspaceBrowserControl
  | WorkspaceServiceControl

fun roleRank :: "grant_role \<Rightarrow> nat" where
  "roleRank Viewer = 1"
| "roleRank Controller = 2"
| "roleRank Operator = 3"
| "roleRank OwnerRole = 4"

fun requiredRank :: "authorization_action \<Rightarrow> nat" where
  "requiredRank ProjectView = 1"
| "requiredRank ProjectUpdate = 3"
| "requiredRank ProjectGrant = 4"
| "requiredRank ThreadView = 1"
| "requiredRank ThreadControl = 2"
| "requiredRank ThreadOperate = 3"
| "requiredRank ThreadGrant = 4"
| "requiredRank TerminalView = 1"
| "requiredRank TerminalInput = 2"
| "requiredRank PresenceView = 1"
| "requiredRank PresenceUpdate = 1"
| "requiredRank WorkspaceFileView = 1"
| "requiredRank WorkspaceBrowserControl = 2"
| "requiredRank WorkspaceServiceControl = 2"

fun projectAction :: "authorization_action \<Rightarrow> bool" where
  "projectAction ProjectView = True"
| "projectAction ProjectUpdate = True"
| "projectAction ProjectGrant = True"
| "projectAction _ = False"

record authorization_subject =
  asMember :: string
  asCreator :: "string option"
  asExecutor :: "thread_executor option"
  asInherits :: "bool option"
  asProjectRole :: "grant_role option"
  asThreadRole :: "grant_role option"

definition rankOf :: "grant_role option \<Rightarrow> nat" where
  "rankOf r = (case r of None \<Rightarrow> 0 | Some r \<Rightarrow> roleRank r)"

definition effectiveThreadRank :: "authorization_subject \<Rightarrow> nat" where
  "effectiveThreadRank s =
     (if asCreator s = Some (asMember s) then roleRank OwnerRole
      else max (rankOf (asThreadRole s))
        (if asExecutor s = Some OrbExecutor \<and> asInherits s = Some True then rankOf (asProjectRole s) else 0))"

definition isAuthorized :: "authorization_subject \<Rightarrow> authorization_action \<Rightarrow> bool" where
  "isAuthorized s a =
     (if \<not> projectAction a then requiredRank a \<le> effectiveThreadRank s else requiredRank a \<le> rankOf (asProjectRole s))"

section \<open>Active clients\<close>

definition memberRow :: "authority_db \<Rightarrow> string \<Rightarrow> string \<Rightarrow> string \<Rightarrow> bool" where
  "memberRow d i organization user =
     exists_row (\<lambda>m. meId m = i \<and> meOrganization m = organization \<and> meUser m = user) (adMembers d)"

fun ownerMatches :: "owner_row \<Rightarrow> client_row \<Rightarrow> authority_db \<Rightarrow> actor \<Rightarrow> bool" where
  "ownerMatches ow c d (PersonalActor owner user client device) =
     (owKind ow = PersonalKind (clUser c) \<and> owKind ow = PersonalKind owner)"
| "ownerMatches ow c d (OrganizationActor organization user membership client device) =
     (owKind ow = OrganizationKind organization \<and> memberRow d membership organization (clUser c))"

definition activeClient :: "authority_db \<Rightarrow> string \<Rightarrow> actor \<Rightarrow> int \<Rightarrow> bool" where
  "activeClient d ownerId a at1 =
     exists_row (\<lambda>ow. owId ow = ownerId \<and>
       exists_row (\<lambda>ca. caOwner ca = owId ow \<and> \<not> caRevoked ca \<and> at1 < caExpiresAt ca \<and>
         exists_row (\<lambda>c. clId c = caClient ca \<and> clUser c = actorUser a \<and> clId c = actorClient a \<and> \<not> clRevoked c \<and>
             at1 < clExpiresAt c \<and> ownerMatches ow c d a \<and>
             exists_row (\<lambda>v. dvId v = clDevice c \<and> dvUser v = clUser c \<and> dvId v = actorDevice a \<and> \<not> dvRevoked v)
               (adDevices d))
           (adClients d))
         (adAuthorities d))
       (adOwners d)"

fun membershipOf :: "actor \<Rightarrow> string option" where
  "membershipOf (PersonalActor _ _ _ _) = None"
| "membershipOf (OrganizationActor _ _ membership _ _) = Some membership"

fun membershipActive :: "authority_db \<Rightarrow> actor \<Rightarrow> bool" where
  "membershipActive d (PersonalActor _ _ _ _) = True"
| "membershipActive d (OrganizationActor organization user membership _ _) = memberRow d membership organization user"

definition requireActiveClient :: "authority_db \<Rightarrow> string \<Rightarrow> actor \<Rightarrow> int \<Rightarrow> persistence_error + unit" where
  "requireActiveClient d ownerId a at1 =
     (if \<not> membershipActive d a then Inl (authorityFailure ''The organization membership is inactive or foreign'')
      else if \<not> activeClient d ownerId a at1
      then Inl (authorityFailure ''The authenticated client authority is inactive or foreign'')
      else Inr ())"

section \<open>Threads\<close>

definition grantOf :: "grant_row list \<Rightarrow> string \<Rightarrow> string \<Rightarrow> string \<Rightarrow> grant_role option" where
  "grantOf gs ownerId resource member =
     map_option grRole (find (\<lambda>g. grOwner g = ownerId \<and> grResource g = resource \<and> grMember g = member) gs)"

definition inheritedRole :: "authority_db \<Rightarrow> string \<Rightarrow> hosted_thread_row \<Rightarrow> string \<Rightarrow> grant_role option" where
  "inheritedRole d ownerId t member =
     (if htExecutor t = OrbExecutor \<and> htInherits t
      then (case htProject t of None \<Rightarrow> None | Some p \<Rightarrow> grantOf (adProjectGrants d) ownerId p member)
      else None)"

definition requireThreadGrant :: "authority_db \<Rightarrow> string \<Rightarrow> string \<Rightarrow> string \<Rightarrow> string option \<Rightarrow> authorization_action \<Rightarrow>
    persistence_error + unit" where
  "requireThreadGrant d ownerId threadId user membership a =
     (case find (\<lambda>t. htOwner t = ownerId \<and> htId t = threadId) (adThreads d) of
        None \<Rightarrow> Inl (authorityFailure ''Resource is unavailable'')
      | Some t \<Rightarrow>
          (case membership of
             None \<Rightarrow> Inr ()
           | Some m \<Rightarrow>
               if htCreator t = user then Inr ()
               else if isAuthorized \<lparr>asMember = m, asCreator = None, asExecutor = Some (htExecutor t),
                   asInherits = Some (htInherits t), asProjectRole = inheritedRole d ownerId t m,
                   asThreadRole = grantOf (adThreadGrants d) ownerId threadId m\<rparr> a
               then Inr ()
               else Inl (authorityFailure ''Resource is unavailable'')))"

definition requireThreadAccess :: "authority_db \<Rightarrow> string \<Rightarrow> string \<Rightarrow> actor \<Rightarrow> authorization_action \<Rightarrow> int \<Rightarrow>
    persistence_error + unit" where
  "requireThreadAccess d ownerId threadId a action at1 =
     bindE (requireActiveClient d ownerId a at1)
       (\<lambda>_. requireThreadGrant d ownerId threadId (actorUser a) (membershipOf a) action)"

fun requireThreadReadAccess :: "authority_db \<Rightarrow> string \<Rightarrow> string \<Rightarrow> thread_reader \<Rightarrow> int \<Rightarrow> persistence_error + unit" where
  "requireThreadReadAccess d ownerId threadId (ActingReader a) now = requireThreadAccess d ownerId threadId a ThreadView now"
| "requireThreadReadAccess d ownerId threadId (BrowserRead user) now =
     (case find (\<lambda>ow. owId ow = ownerId) (adOwners d) of
        None \<Rightarrow> Inl (authorityFailure ''Resource is unavailable'')
      | Some ow \<Rightarrow>
          (case owKind ow of
             PersonalKind u \<Rightarrow>
               if u \<noteq> user then Inl (authorityFailure ''Resource is unavailable'')
               else requireThreadGrant d ownerId threadId user None ThreadView
           | OrganizationKind organization \<Rightarrow>
               (case find (\<lambda>m. meOrganization m = organization \<and> meUser m = user) (adMembers d) of
                  None \<Rightarrow> Inl (authorityFailure ''Resource is unavailable'')
                | Some m \<Rightarrow> requireThreadGrant d ownerId threadId user (Some (meId m)) ThreadView)))"

end
