(* ===== verification/Protocol_Model.thy ===== *)
theory Protocol_Model
  imports Protocol_Authority Turn_Database
begin

text \<open>
  The tables of the hosted thread protocol (packages/product-store/src/hosted/thread-protocol,
  database/schema/hosted-thread.ts, hosted-authority.ts, hosted-product.ts): the state of a
  thread's command lane and event log, its commands, events, snapshots and acknowledged
  cursors, socket tickets and the counters of commit cursors, beside the turn tables that
  applyPrompt writes.  Versions, sequences and cursors are integers (bigint columns), instants
  milliseconds.  Events and snapshots are type parameters: a codec says what a stored value
  decodes to under the current schema, what is overlaid at publication from process
  observations, and which authorizations a snapshot shows pending.
\<close>

section \<open>Commands\<close>

text \<open>
  A command is a JSON object; the code reads its tag, and of a Cancel its target.  The text is
  the rest of the object.
\<close>

datatype command_body =
    SubmitPromptBody string
  | CancelCommandBody string string
  | OtherBody string

fun isSubmit :: "command_body \<Rightarrow> bool" where
  "isSubmit (SubmitPromptBody _) = True"
| "isSubmit _ = False"

fun cancelTarget :: "command_body \<Rightarrow> string option" where
  "cancelTarget (CancelCommandBody i _) = Some i"
| "cancelTarget _ = None"

datatype command_state = CommandAdmitted | CommandCompleted

datatype work_state = ActivationPending | ActivationRequested

datatype admission_status = AdmissionAccepted | AdmissionQueued

text \<open>The result of a command: its tag and the rest of the object.\<close>

datatype command_result = AppliedResult string | PromptAdmitted admission_status | OtherResult string

fun appliedTag :: "command_result option \<Rightarrow> bool" where
  "appliedTag (Some (AppliedResult _)) = True"
| "appliedTag _ = False"

record command_row =
  cdOwner :: string
  cdThread :: string
  cdId :: string
  cdKey :: string
  cdExpected :: int
  cdVersion :: int
  cdCommit :: int
  cdActor :: actor
  cdBody :: command_body
  cdState :: command_state
  cdWork :: "work_state option"
  cdPrepared :: "string option"
  cdResult :: "command_result option"
  cdCursor :: "int option"
  cdAdmittedAt :: int
  cdCompletedAt :: "int option"
  cdClaim :: "(string \<times> int) option"
  cdTurn :: "turn_id option"
  cdAdmission :: "admission_status option"
  cdCancelledBy :: "string option"

section \<open>The log\<close>

record state_row =
  srOwner :: string
  srThread :: string
  srVersion :: int
  srCursor :: int

record 'e event_row =
  erwOwner :: string
  erwThread :: string
  erwSequence :: int
  erwCursor :: int
  erwVersion :: int
  erwEvent :: 'e
  erwCreatedAt :: int

record 's snapshot_row =
  swOwner :: string
  swThread :: string
  swVersion :: int
  swCursor :: int
  swSnapshot :: 's
  swRequired :: bool
  swCreatedAt :: int

record cursor_row =
  cwOwner :: string
  cwThread :: string
  cwClient :: string
  cwCursor :: int
  cwAcknowledgedAt :: int

record ticket_row =
  tkId :: string
  tkDigest :: string
  tkUser :: string
  tkClient :: string
  tkDevice :: string
  tkAudience :: string
  tkExpiresAt :: int
  tkIssuedAt :: int
  tkConsumedAt :: "int option"
  tkRevokedAt :: "int option"

record product_thread_row =
  ptrId :: string
  ptrOwner :: string
  ptrTitle :: string
  ptrUpdatedAt :: int

record counter_row =
  ocOwner :: string
  ocNext :: int

record ('e, 's) protocol_db =
  pbAuthority :: authority_db
  pbStates :: "state_row list"
  pbCommands :: "command_row list"
  pbEvents :: "'e event_row list"
  pbSnapshots :: "'s snapshot_row list"
  pbCursors :: "cursor_row list"
  pbTickets :: "ticket_row list"
  pbCounters :: "counter_row list"
  pbTurns :: db
  pbProductThreads :: "product_thread_row list"

text \<open>
  Decoding a stored event or snapshot, the overlay of process observations, the pending
  authorizations of a snapshot, as text, and the events that tell of an admitted submission
  (whether it is active) and of a new title.
\<close>

record ('e, 's) codec =
  codEvent :: "'e \<Rightarrow> 'e option"
  codSnapshot :: "'s \<Rightarrow> 's option"
  codOverlayEvent :: "'e \<Rightarrow> 'e"
  codOverlaySnapshot :: "'s \<Rightarrow> 's"
  codPending :: "'s \<Rightarrow> string"
  codSubmission :: "string \<Rightarrow> turn_id \<Rightarrow> bool \<Rightarrow> string \<Rightarrow> 'e"
  codTitled :: "string \<Rightarrow> string \<Rightarrow> 'e"

section \<open>Constraints\<close>

definition commandCheck :: "command_row \<Rightarrow> bool" where
  "commandCheck c \<longleftrightarrow>
     1 \<le> cdCommit c \<and> (case cdCursor c of None \<Rightarrow> True | Some n \<Rightarrow> 0 \<le> n) \<and> 0 \<le> cdExpected c \<and> 0 < cdVersion c \<and>
     (case cdState c of
        CommandAdmitted \<Rightarrow> cdResult c = None \<and> cdCursor c = None \<and> cdCompletedAt c = None \<and> cdWork c = None \<and>
          cdAdmission c = None \<and> cdCancelledBy c = None
      | CommandCompleted \<Rightarrow> cdResult c \<noteq> None \<and> cdCursor c \<noteq> None \<and> cdCompletedAt c \<noteq> None) \<and>
     (cdState c = CommandAdmitted \<or> cdWork c \<noteq> None \<or> cdClaim c = None) \<and>
     (cdWork c = None \<or> cdState c = CommandCompleted \<and> cdTurn c \<noteq> None \<and> cdAdmission c \<noteq> None \<and> cdPrepared c \<noteq> None) \<and>
     (cdCancelledBy c = None \<or> cdState c = CommandCompleted \<and> cdCancelledBy c \<noteq> Some (cdId c))"

definition stateOf :: "string \<Rightarrow> string \<Rightarrow> state_row list \<Rightarrow> state_row option" where
  "stateOf owner thread ss = find (\<lambda>s. srOwner s = owner \<and> srThread s = thread) ss"

definition ownsThread :: "state_row list \<Rightarrow> string \<Rightarrow> string \<Rightarrow> bool" where
  "ownsThread ss owner thread = exists_row (\<lambda>s. srOwner s = owner \<and> srThread s = thread) ss"

definition commandsConsistent :: "state_row list \<Rightarrow> command_row list \<Rightarrow> bool" where
  "commandsConsistent ss cs \<longleftrightarrow>
     distinct (map (\<lambda>c. (cdThread c, cdId c)) cs) \<and> distinct (map (\<lambda>c. (cdThread c, cdKey c)) cs) \<and>
     distinct (map (\<lambda>c. (cdThread c, cdVersion c)) cs) \<and> distinct (map (\<lambda>c. (cdOwner c, cdCommit c)) cs) \<and>
     distinct (map cdTurn (filter (\<lambda>c. cdTurn c \<noteq> None) cs)) \<and>
     list_all commandCheck cs \<and> list_all (\<lambda>c. ownsThread ss (cdOwner c) (cdThread c)) cs"

definition statesConsistent :: "state_row list \<Rightarrow> bool" where
  "statesConsistent ss \<longleftrightarrow> distinct (map srThread ss) \<and> list_all (\<lambda>s. 0 \<le> srVersion s \<and> 0 \<le> srCursor s) ss"

definition eventsConsistent :: "state_row list \<Rightarrow> 'e event_row list \<Rightarrow> bool" where
  "eventsConsistent ss es \<longleftrightarrow>
     distinct (map (\<lambda>e. (erwThread e, erwSequence e)) es) \<and> distinct (map (\<lambda>e. (erwThread e, erwCursor e)) es) \<and>
     list_all (\<lambda>e. 0 < erwCursor e \<and> 0 < erwSequence e \<and> 0 \<le> erwVersion e) es \<and>
     list_all (\<lambda>e. ownsThread ss (erwOwner e) (erwThread e)) es"

definition snapshotsConsistent :: "state_row list \<Rightarrow> 's snapshot_row list \<Rightarrow> bool" where
  "snapshotsConsistent ss ws \<longleftrightarrow> distinct (map (\<lambda>w. (swThread w, swVersion w)) ws) \<and>
     list_all (\<lambda>w. 0 \<le> swCursor w \<and> 0 \<le> swVersion w) ws \<and> list_all (\<lambda>w. ownsThread ss (swOwner w) (swThread w)) ws"

definition cursorsConsistent :: "authority_db \<Rightarrow> state_row list \<Rightarrow> cursor_row list \<Rightarrow> bool" where
  "cursorsConsistent a ss ws \<longleftrightarrow> distinct (map (\<lambda>w. (cwThread w, cwClient w)) ws) \<and> list_all (\<lambda>w. 0 \<le> cwCursor w) ws \<and>
     list_all (\<lambda>w. ownsThread ss (cwOwner w) (cwThread w)) ws \<and> list_all (\<lambda>w. cwClient w \<in> clId ` set (adClients a)) ws"

definition ticketCheck :: "ticket_row \<Rightarrow> bool" where
  "ticketCheck k \<longleftrightarrow> tkAudience k \<noteq> [] \<and> tkIssuedAt k < tkExpiresAt k \<and>
     (case tkConsumedAt k of None \<Rightarrow> True | Some n \<Rightarrow> tkIssuedAt k \<le> n) \<and> (case tkRevokedAt k of None \<Rightarrow> True | Some n \<Rightarrow> tkIssuedAt k \<le> n)"

definition ticketsConsistent :: "authority_db \<Rightarrow> ticket_row list \<Rightarrow> bool" where
  "ticketsConsistent a ks \<longleftrightarrow> distinct (map tkId ks) \<and> distinct (map tkDigest ks) \<and> list_all ticketCheck ks \<and>
     list_all (\<lambda>k. exists_row (\<lambda>c. clId c = tkClient k \<and> clUser c = tkUser k) (adClients a) \<and>
       exists_row (\<lambda>v. dvId v = tkDevice k \<and> dvUser v = tkUser k) (adDevices a)) ks"

definition protocolConsistent :: "('e, 's) protocol_db \<Rightarrow> bool" where
  "protocolConsistent d \<longleftrightarrow> statesConsistent (pbStates d) \<and> commandsConsistent (pbStates d) (pbCommands d) \<and>
     eventsConsistent (pbStates d) (pbEvents d) \<and> snapshotsConsistent (pbStates d) (pbSnapshots d) \<and>
     cursorsConsistent (pbAuthority d) (pbStates d) (pbCursors d) \<and> ticketsConsistent (pbAuthority d) (pbTickets d)"

definition databaseError :: persistence_error where
  "databaseError = PersistenceError ReasonDatabase ''Thread protocol PostgreSQL operation failed''"

text \<open>After a statement the constraints hold or the transaction fails.\<close>

definition enforceProtocol :: "('e, 's) protocol_db \<Rightarrow> persistence_error + ('e, 's) protocol_db" where
  "enforceProtocol d = (if protocolConsistent d then Inr d else Inl databaseError)"

lemma enforceProtocol_Inr [result_simps]: "enforceProtocol d = Inr d' \<longleftrightarrow> protocolConsistent d \<and> d' = d"
  by (auto simp: enforceProtocol_def)

definition protocolFailure :: "persistence_reason \<Rightarrow> string \<Rightarrow> persistence_error" where
  "protocolFailure r m = PersistenceError r m"

definition stateUnavailable :: persistence_error where
  "stateUnavailable = protocolFailure ReasonNotFound ''Thread protocol state is unavailable''"

definition setCursor :: "string \<Rightarrow> string \<Rightarrow> int \<Rightarrow> ('e, 's) protocol_db \<Rightarrow> persistence_error + ('e, 's) protocol_db" where
  "setCursor owner thread n d =
     enforceProtocol (d\<lparr>pbStates := update_where (\<lambda>s. srOwner s = owner \<and> srThread s = thread) (\<lambda>s. s\<lparr>srCursor := n\<rparr>) (pbStates d)\<rparr>)"

definition commandOf :: "string \<Rightarrow> string \<Rightarrow> ('e, 's) protocol_db \<Rightarrow> command_row option" where
  "commandOf thread i d = find (\<lambda>c. cdThread c = thread \<and> cdId c = i) (pbCommands d)"

definition updateCommand :: "string \<Rightarrow> string \<Rightarrow> (command_row \<Rightarrow> command_row) \<Rightarrow> ('e, 's) protocol_db \<Rightarrow>
    persistence_error + ('e, 's) protocol_db" where
  "updateCommand thread i f d =
     enforceProtocol (d\<lparr>pbCommands := update_where (\<lambda>c. cdThread c = thread \<and> cdId c = i) f (pbCommands d)\<rparr>)"

section \<open>Initialization\<close>

definition initializeThread :: "string \<Rightarrow> string \<Rightarrow> thread_reader \<Rightarrow> int \<Rightarrow> ('e, 's) protocol_db \<Rightarrow>
    persistence_error + ('e, 's) protocol_db" where
  "initializeThread owner thread reader now d =
     bindE (requireThreadReadAccess (pbAuthority d) owner thread reader now) (\<lambda>_.
       if \<not> exists_row (\<lambda>t. htOwner t = owner \<and> htId t = thread) (adThreads (pbAuthority d))
       then Inl (protocolFailure ReasonNotFound ''Thread is unavailable'')
       else case row_by srThread thread (pbStates d) of
           Some s \<Rightarrow> if srOwner s = owner then Inr d else Inl (protocolFailure ReasonNotFound ''Thread is unavailable'')
         | None \<Rightarrow> enforceProtocol (d\<lparr>pbStates := pbStates d @
             [\<lparr>srOwner = owner, srThread = thread, srVersion = 0, srCursor = 0\<rparr>]\<rparr>))"

end
