(* ===== verification/Protocol_Log.thy ===== *)
theory Protocol_Log
  imports Protocol_Model
begin

text \<open>
  The event log of a thread and its checkpoints
  (packages/product-store/src/hosted/thread-protocol/events.ts): appending events under the row
  lock of the thread's state, writing a snapshot when one is due, and replaying the log from a
  cursor with a snapshot where the log alone would leave a gap.
\<close>

section \<open>Writing\<close>

definition checkpointInterval :: int where
  "checkpointInterval = 64"

definition stateForUpdate :: "string \<Rightarrow> string \<Rightarrow> ('e, 's) protocol_db \<Rightarrow> state_row option" where
  "stateForUpdate owner thread d = stateOf owner thread (pbStates d)"

fun eventRows :: "string \<Rightarrow> string \<Rightarrow> int \<Rightarrow> int \<Rightarrow> int \<Rightarrow> 'e list \<Rightarrow> 'e event_row list" where
  "eventRows owner thread version at1 first [] = []"
| "eventRows owner thread version at1 first (e # es) =
     \<lparr>erwOwner = owner, erwThread = thread, erwSequence = first, erwCursor = first, erwVersion = version, erwEvent = e,
      erwCreatedAt = at1\<rparr> # eventRows owner thread version at1 (first + 1) es"

text \<open>The rows that were written, and the database.\<close>

definition writeEvents :: "('e, 's) codec \<Rightarrow> string \<Rightarrow> string \<Rightarrow> int \<Rightarrow> int \<Rightarrow> 'e list \<Rightarrow> int \<Rightarrow> ('e, 's) protocol_db \<Rightarrow>
    persistence_error + 'e event_row list \<times> ('e, 's) protocol_db" where
  "writeEvents cod owner thread version first events at1 d =
     (let rows = eventRows owner thread version at1 first (map (codOverlayEvent cod) events) in
      if rows = [] then Inr ([], d)
      else bindE (enforceProtocol (d\<lparr>pbEvents := pbEvents d @ rows\<rparr>)) (\<lambda>d'. Inr (rows, d')))"

definition sameCheckpoint :: "string \<Rightarrow> int \<Rightarrow> 's snapshot_row \<Rightarrow> bool" where
  "sameCheckpoint thread version w \<longleftrightarrow> swThread w = thread \<and> swVersion w = version"

text \<open>One snapshot per version: a later cursor replaces an earlier one and keeps what was required.\<close>

definition writeSnapshot :: "('e, 's) codec \<Rightarrow> string \<Rightarrow> string \<Rightarrow> int \<Rightarrow> int \<Rightarrow> 's \<Rightarrow> int \<Rightarrow> bool \<Rightarrow> ('e, 's) protocol_db \<Rightarrow>
    persistence_error + ('e, 's) protocol_db" where
  "writeSnapshot cod owner thread version cursor snapshot at1 required d =
     (let s = codOverlaySnapshot cod snapshot in
      enforceProtocol (d\<lparr>pbSnapshots :=
        (if exists_row (sameCheckpoint thread version) (pbSnapshots d)
         then update_where (\<lambda>w. sameCheckpoint thread version w \<and> swCursor w \<le> cursor)
           (\<lambda>w. w\<lparr>swCursor := cursor, swSnapshot := s, swRequired := (swRequired w \<or> required), swCreatedAt := at1\<rparr>)
           (pbSnapshots d)
         else pbSnapshots d @ [\<lparr>swOwner = owner, swThread = thread, swVersion = version, swCursor = cursor, swSnapshot = s,
           swRequired = required, swCreatedAt = at1\<rparr>])\<rparr>))"

text \<open>\<open>ORDER BY cursor DESC LIMIT 1\<close>.\<close>

definition newestSnapshot :: "('s snapshot_row \<Rightarrow> bool) \<Rightarrow> 's snapshot_row list \<Rightarrow> 's snapshot_row option" where
  "newestSnapshot P ws = (case sort_key (\<lambda>w. - swCursor w) (filter P ws) of [] \<Rightarrow> None | w # _ \<Rightarrow> Some w)"

definition snapshotOf1 :: "string \<Rightarrow> string \<Rightarrow> 's snapshot_row \<Rightarrow> bool" where
  "snapshotOf1 owner thread w \<longleftrightarrow> swOwner w = owner \<and> swThread w = thread"

text \<open>Whether a checkpoint is due, and whether a replay has to show it.\<close>

definition checkpointDue :: "('e, 's) codec \<Rightarrow> string \<Rightarrow> string \<Rightarrow> int \<Rightarrow> 's \<Rightarrow> ('e, 's) protocol_db \<Rightarrow> bool \<times> bool" where
  "checkpointDue cod owner thread cursor snapshot d =
     (case newestSnapshot (snapshotOf1 owner thread) (pbSnapshots d) of
        None \<Rightarrow> (True, False)
      | Some latest \<Rightarrow>
          (case codSnapshot cod (swSnapshot latest) of
             None \<Rightarrow> (True, True)
           | Some stored \<Rightarrow>
               let changed = codPending cod stored \<noteq> codPending cod snapshot in
               (changed \<or> checkpointInterval \<le> cursor - swCursor latest, changed \<or> swRequired latest)))"

definition writeDueSnapshot :: "('e, 's) codec \<Rightarrow> string \<Rightarrow> string \<Rightarrow> int \<Rightarrow> int \<Rightarrow> 's option \<Rightarrow> int \<Rightarrow> ('e, 's) protocol_db \<Rightarrow>
    persistence_error + ('e, 's) protocol_db" where
  "writeDueSnapshot cod owner thread version cursor snapshot at1 d =
     (case snapshot of
        None \<Rightarrow> Inr d
      | Some s \<Rightarrow>
          (case checkpointDue cod owner thread cursor s d of
             (due, required) \<Rightarrow>
               if due then writeSnapshot cod owner thread version cursor s at1 required d else Inr d))"

definition appendEvents :: "('e, 's) codec \<Rightarrow> string \<Rightarrow> string \<Rightarrow> 'e list \<Rightarrow> 's option \<Rightarrow> int \<Rightarrow> ('e, 's) protocol_db \<Rightarrow>
    persistence_error + 'e event_row list \<times> ('e, 's) protocol_db" where
  "appendEvents cod owner thread events snapshot at1 d =
     (if events = [] then Inr ([], d)
      else case stateForUpdate owner thread d of
          None \<Rightarrow> Inl stateUnavailable
        | Some st \<Rightarrow>
            bindE (writeEvents cod owner thread (srVersion st) (srCursor st + 1) events at1 d) (\<lambda>(rows, d1).
              let cursor = erwCursor (last rows) in
              bindE (setCursor owner thread cursor d1) (\<lambda>d2.
                bindE (writeDueSnapshot cod owner thread (srVersion st) cursor snapshot at1 d2) (\<lambda>d3.
                  Inr (rows, d3)))))"

definition checkpoint :: "('e, 's) codec \<Rightarrow> string \<Rightarrow> string \<Rightarrow> int \<Rightarrow> int \<Rightarrow> 's \<Rightarrow> int \<Rightarrow> ('e, 's) protocol_db \<Rightarrow>
    persistence_error + bool \<times> ('e, 's) protocol_db" where
  "checkpoint cod owner thread version cursor snapshot at1 d =
     (case stateForUpdate owner thread d of
        None \<Rightarrow> Inl stateUnavailable
      | Some st \<Rightarrow>
          if srVersion st \<noteq> version \<or> srCursor st \<noteq> cursor
          then Inl (protocolFailure ReasonConflict ''Thread protocol state advanced before its checkpoint was persisted'')
          else (case checkpointDue cod owner thread cursor snapshot d of
              (due, required) \<Rightarrow>
                if \<not> due then Inr (False, d)
                else bindE (writeSnapshot cod owner thread version cursor snapshot at1 required d) (\<lambda>d'. Inr (True, d'))))"

definition saveSnapshot :: "('e, 's) codec \<Rightarrow> string \<Rightarrow> string \<Rightarrow> int \<Rightarrow> int \<Rightarrow> 's \<Rightarrow> int \<Rightarrow> ('e, 's) protocol_db \<Rightarrow>
    persistence_error + ('e, 's) protocol_db" where
  "saveSnapshot cod owner thread version cursor snapshot at1 d =
     (if exists_row (\<lambda>s. srOwner s = owner \<and> srThread s = thread \<and> srVersion s = version \<and> srCursor s = cursor) (pbStates d)
      then writeSnapshot cod owner thread version cursor snapshot at1 False d
      else Inl (protocolFailure ReasonConflict ''Thread protocol state advanced before its snapshot was persisted''))"

section \<open>Replay\<close>

record replay_input =
  riOwner :: string
  riThread :: string
  riReader :: thread_reader
  riAfter :: int
  riAfterCheckpoint :: "int option"
  riThrough :: "int option"
  riIncludeSnapshot :: "bool option"
  riLimit :: int

record ('e, 's) replay_result =
  rrVersion :: int
  rrCursor :: int
  rrEvents :: "'e event_row list"
  rrHasMore :: bool
  rrSnapshot :: "'s snapshot_row option"

definition targetCursor :: "replay_input \<Rightarrow> int \<Rightarrow> int" where
  "targetCursor i head = (case riThrough i of None \<Rightarrow> head | Some through \<Rightarrow> min through head)"

definition replayLimit :: "int \<Rightarrow> int" where
  "replayLimit n = min (max n 1) 1000"

definition readEvents :: "replay_input \<Rightarrow> int \<Rightarrow> int \<Rightarrow> ('e, 's) protocol_db \<Rightarrow> 'e event_row list" where
  "readEvents i bound after d =
     take (nat (replayLimit (riLimit i)) + 1) (sort_key erwSequence
       (filter (\<lambda>e. erwOwner e = riOwner i \<and> erwThread e = riThread i \<and> after < erwCursor e \<and> erwCursor e \<le> bound) (pbEvents d)))"

definition isDirectReplayTail :: "int \<Rightarrow> int \<Rightarrow> 'e event_row list \<Rightarrow> bool" where
  "isDirectReplayTail after bound rows \<longleftrightarrow> after = bound \<or> (rows \<noteq> [] \<and> erwCursor (hd rows) = after + 1)"

definition isRetainedReplayTail :: "replay_input \<Rightarrow> bool \<Rightarrow> bool" where
  "isRetainedReplayTail i direct \<longleftrightarrow> direct \<and> (riAfter i \<noteq> 0 \<or> riAfterCheckpoint i \<noteq> None)"

definition requiredCheckpoint :: "replay_input \<Rightarrow> int \<Rightarrow> 's snapshot_row \<Rightarrow> bool" where
  "requiredCheckpoint i bound w \<longleftrightarrow> swRequired w \<and>
     (case riAfterCheckpoint i of None \<Rightarrow> riAfter i \<le> swCursor w | Some c \<Rightarrow> c < swCursor w) \<and> swCursor w \<le> bound"

definition replaySnapshotCondition :: "int \<Rightarrow> int \<Rightarrow> 's snapshot_row \<Rightarrow> bool" where
  "replaySnapshotCondition after bound w \<longleftrightarrow>
     (if after = 0 then swCursor w \<le> bound else after < swCursor w \<and> swCursor w \<le> bound)"

definition decodeReplaySnapshot :: "('e, 's) codec \<Rightarrow> 's snapshot_row option \<Rightarrow> 's snapshot_row option" where
  "decodeReplaySnapshot cod row =
     (case row of None \<Rightarrow> None | Some w \<Rightarrow> map_option (\<lambda>s. w\<lparr>swSnapshot := s\<rparr>) (codSnapshot cod (swSnapshot w)))"

text \<open>Events that no longer decode are left out.\<close>

definition decodeReplayEvents :: "('e, 's) codec \<Rightarrow> 'e event_row list \<Rightarrow> 'e event_row list" where
  "decodeReplayEvents cod rows =
     List.map_filter (\<lambda>r. map_option (\<lambda>e. r\<lparr>erwEvent := e\<rparr>) (codEvent cod (erwEvent r))) rows"

definition replaySnapshotRow :: "replay_input \<Rightarrow> int \<Rightarrow> int \<Rightarrow> bool \<Rightarrow> ('e, 's) protocol_db \<Rightarrow> 's snapshot_row option" where
  "replaySnapshotRow i bound version retained d =
     (if riIncludeSnapshot i = Some False then None
      else newestSnapshot (\<lambda>w. snapshotOf1 (riOwner i) (riThread i) w \<and>
          (if retained then requiredCheckpoint i bound w else replaySnapshotCondition (riAfter i) bound w) \<and>
          swVersion w \<le> version) (pbSnapshots d))"

definition replay :: "('e, 's) codec \<Rightarrow> replay_input \<Rightarrow> int \<Rightarrow> ('e, 's) protocol_db \<Rightarrow>
    persistence_error + ('e, 's) replay_result" where
  "replay cod i now d =
     bindE (requireThreadReadAccess (pbAuthority d) (riOwner i) (riThread i) (riReader i) now) (\<lambda>_.
       case stateOf (riOwner i) (riThread i) (pbStates d) of
         None \<Rightarrow> Inl stateUnavailable
       | Some st \<Rightarrow>
           let bound = targetCursor i (srCursor st) in
           if bound < riAfter i then Inl (protocolFailure ReasonConflict ''Replay cursor is ahead of the committed Thread log'')
           else if (case riAfterCheckpoint i of None \<Rightarrow> False | Some c \<Rightarrow> riAfter i < c)
           then Inl (protocolFailure ReasonConflict ''Replay checkpoint cursor is ahead of its event cursor'')
           else let first = readEvents i bound (riAfter i) d;
                    retained = isRetainedReplayTail i (isDirectReplayTail (riAfter i) bound first);
                    decoded = decodeReplaySnapshot cod (replaySnapshotRow i bound (srVersion st) retained d);
                    rows = (case decoded of None \<Rightarrow> first | Some w \<Rightarrow> readEvents i bound (swCursor w) d);
                    limit = nat (replayLimit (riLimit i)) in
             Inr \<lparr>rrVersion = srVersion st, rrCursor = srCursor st, rrEvents = decodeReplayEvents cod (take limit rows),
               rrHasMore = (limit < length rows), rrSnapshot = decoded\<rparr>)"

end
