(* ===== verification/Protocol_Commands.thy ===== *)
theory Protocol_Commands
  imports Protocol_Log
begin

text \<open>
  The command lane of a thread (packages/product-store/src/hosted/thread-protocol/commands.ts):
  commands are admitted under consecutive versions, claimed by workers in that order (a
  cancellation of a prompt may overtake it), and completed under a claim that has not expired.
\<close>

section \<open>Admission\<close>

record command_input =
  ciOwner :: string
  ciThread :: string
  ciCommand :: string
  ciTurn :: "turn_id option"
  ciKey :: string
  ciActor :: actor
  ciBody :: command_body
  ciAdmittedAt :: int

datatype command_admission = Admitted command_row | DuplicateAdmission command_row

definition existingCommands :: "command_input \<Rightarrow> ('e, 's) protocol_db \<Rightarrow> command_row list" where
  "existingCommands i d =
     filter (\<lambda>c. cdThread c = ciThread i \<and> (cdId c = ciCommand i \<or> cdKey c = ciKey i)) (pbCommands d)"

definition sameCommand :: "command_input \<Rightarrow> int option \<Rightarrow> command_row \<Rightarrow> bool" where
  "sameCommand i expected c \<longleftrightarrow> cdId c = ciCommand i \<and> cdKey c = ciKey i \<and>
     (case expected of None \<Rightarrow> True | Some v \<Rightarrow> cdExpected c = v) \<and> cdActor c = ciActor i \<and> cdBody c = ciBody i"

text \<open>The command that was admitted under these identities before, if any.\<close>

definition readExisting :: "command_input \<Rightarrow> int option \<Rightarrow> ('e, 's) protocol_db \<Rightarrow> persistence_error + command_row option" where
  "readExisting i expected d =
     (case existingCommands i d of
        [] \<Rightarrow> Inr None
      | [c] \<Rightarrow>
          if sameCommand i expected c then Inr (Some c)
          else Inl (protocolFailure ReasonConflict ''Command identity was reused with incompatible input'')
      | _ \<Rightarrow> Inl (protocolFailure ReasonConflict ''Command identities refer to different commands''))"

definition admittedRow :: "command_input \<Rightarrow> int \<Rightarrow> int \<Rightarrow> command_row" where
  "admittedRow i version commit =
     \<lparr>cdOwner = ciOwner i, cdThread = ciThread i, cdId = ciCommand i, cdKey = ciKey i, cdExpected = version,
      cdVersion = version + 1, cdCommit = commit, cdActor = ciActor i, cdBody = ciBody i, cdState = CommandAdmitted,
      cdWork = None, cdPrepared = None, cdResult = None, cdCursor = None, cdAdmittedAt = ciAdmittedAt i,
      cdCompletedAt = None, cdClaim = None, cdTurn = ciTurn i, cdAdmission = None, cdCancelledBy = None\<rparr>"

text \<open>
  Under the row lock of the state the identities are read once more; with serial transactions
  that reading agrees with the first.
\<close>

definition admit :: "command_input \<Rightarrow> int option \<Rightarrow> ('e, 's) protocol_db \<Rightarrow>
    persistence_error + command_admission \<times> ('e, 's) protocol_db" where
  "admit i expected d =
     bindE (requireThreadAccess (pbAuthority d) (ciOwner i) (ciThread i) (ciActor i) ThreadControl (ciAdmittedAt i)) (\<lambda>_.
     bindE (readExisting i expected d) (\<lambda>existing.
       case existing of
         Some c \<Rightarrow> Inr (DuplicateAdmission c, d)
       | None \<Rightarrow>
           (case stateForUpdate (ciOwner i) (ciThread i) d of
              None \<Rightarrow> Inl stateUnavailable
            | Some st \<Rightarrow>
                if (case expected of None \<Rightarrow> False | Some v \<Rightarrow> srVersion st \<noteq> v)
                then Inl (protocolFailure ReasonStaleVersion (''Expected Thread version '' @ showInt (case expected of None \<Rightarrow> 0 | Some v \<Rightarrow> v) @
                  ''; current is '' @ showInt (srVersion st)))
                else case row_by ocOwner (ciOwner i) (pbCounters d) of
                    None \<Rightarrow> Inl (protocolFailure ReasonInvalidAuthority ''Owner authority is not initialized'')
                  | Some oc \<Rightarrow>
                      let row = admittedRow i (srVersion st) (ocNext oc);
                          d1 = d\<lparr>pbCounters := update_where (\<lambda>c. ocOwner c = ciOwner i) (\<lambda>c. c\<lparr>ocNext := ocNext c + 1\<rparr>) (pbCounters d)\<rparr> in
                      bindE (enforceProtocol (d1\<lparr>pbCommands := pbCommands d1 @ [row]\<rparr>)) (\<lambda>d2.
                      bindE (enforceProtocol (d2\<lparr>pbStates := update_where (\<lambda>s. srOwner s = ciOwner i \<and> srThread s = ciThread i)
                          (\<lambda>s. s\<lparr>srVersion := srVersion st + 1\<rparr>) (pbStates d2)\<rparr>)) (\<lambda>d3.
                        Inr (Admitted row, d3))))))"

definition admitCommand :: "command_input \<Rightarrow> int \<Rightarrow> ('e, 's) protocol_db \<Rightarrow>
    persistence_error + command_admission \<times> ('e, 's) protocol_db" where
  "admitCommand i expected = admit i (Some expected)"

definition admitServerCommand :: "command_input \<Rightarrow> ('e, 's) protocol_db \<Rightarrow>
    persistence_error + command_admission \<times> ('e, 's) protocol_db" where
  "admitServerCommand i = admit i None"

section \<open>Claims\<close>

definition claimFree :: "int \<Rightarrow> command_row \<Rightarrow> bool" where
  "claimFree now c \<longleftrightarrow> (case cdClaim c of None \<Rightarrow> True | Some (token, expires) \<Rightarrow> expires \<le> now)"

text \<open>A command that is still to be done before another: not the prompt that the other cancels.\<close>

definition precedes :: "command_row \<Rightarrow> command_row \<Rightarrow> bool" where
  "precedes p c \<longleftrightarrow> cdThread p = cdThread c \<and> cdVersion p < cdVersion c \<and> cdState p = CommandAdmitted \<and>
     \<not> (cancelTarget (cdBody c) = Some (cdId p) \<and> isSubmit (cdBody p))"

definition runnableCommand :: "int \<Rightarrow> ('e, 's) protocol_db \<Rightarrow> command_row \<Rightarrow> bool" where
  "runnableCommand now d c \<longleftrightarrow> cdState c = CommandAdmitted \<and> claimFree now c \<and> \<not> exists_row (\<lambda>p. precedes p c) (pbCommands d)"

text \<open>The first runnable command of a thread, the oldest of these over all threads that are not locked.\<close>

definition commandCandidate :: "int \<Rightarrow> ('e, 's) protocol_db \<Rightarrow> string \<Rightarrow> command_row option" where
  "commandCandidate now d thread =
     (case sort_key cdVersion (filter (\<lambda>c. cdThread c = thread \<and> runnableCommand now d c) (pbCommands d)) of
        [] \<Rightarrow> None | c # _ \<Rightarrow> Some c)"

definition commandOrder :: "command_row \<Rightarrow> int \<times> string \<times> int" where
  "commandOrder c = (cdAdmittedAt c, cdThread c, cdVersion c)"

definition selectCommand :: "(string \<Rightarrow> bool) \<Rightarrow> int \<Rightarrow> ('e, 's) protocol_db \<Rightarrow> command_row option" where
  "selectCommand locked now d =
     (case sort_key commandOrder (List.map_filter (\<lambda>s. if locked (srThread s) then None else commandCandidate now d (srThread s))
        (pbStates d)) of
        [] \<Rightarrow> None | c # _ \<Rightarrow> Some c)"

definition claimNextCommand :: "(string \<Rightarrow> bool) \<Rightarrow> string \<Rightarrow> int \<Rightarrow> int \<Rightarrow> ('e, 's) protocol_db \<Rightarrow>
    persistence_error + command_row option \<times> ('e, 's) protocol_db" where
  "claimNextCommand locked token millis now d =
     (case selectCommand locked now d of
        None \<Rightarrow> Inr (None, d)
      | Some c \<Rightarrow>
          bindE (updateCommand (cdThread c) (cdId c) (\<lambda>c. c\<lparr>cdClaim := Some (token, now + millis)\<rparr>) d)
            (\<lambda>d'. Inr (commandOf (cdThread c) (cdId c) d', d')))"

definition oldestRunnableCommandAt :: "int \<Rightarrow> ('e, 's) protocol_db \<Rightarrow> int option" where
  "oldestRunnableCommandAt now d =
     (case sort_key commandOrder (filter (runnableCommand now d) (pbCommands d)) of [] \<Rightarrow> None | c # _ \<Rightarrow> Some (cdAdmittedAt c))"

text \<open>A claim holds while it carries the token and has not expired.\<close>

definition claimActive :: "string option \<Rightarrow> int \<Rightarrow> command_row \<Rightarrow> bool" where
  "claimActive token now c \<longleftrightarrow> (case cdClaim c of None \<Rightarrow> False | Some (t, expires) \<Rightarrow> token = Some t \<and> now < expires)"

definition ownedCommand :: "string \<Rightarrow> string \<Rightarrow> string \<Rightarrow> command_row \<Rightarrow> bool" where
  "ownedCommand owner thread i c \<longleftrightarrow> cdOwner c = owner \<and> cdThread c = thread \<and> cdId c = i"

definition renewCommandClaim :: "string \<Rightarrow> string \<Rightarrow> string \<Rightarrow> string \<Rightarrow> int \<Rightarrow> int \<Rightarrow> ('e, 's) protocol_db \<Rightarrow>
    persistence_error + bool \<times> ('e, 's) protocol_db" where
  "renewCommandClaim owner thread i token millis now d =
     (let hit = (\<lambda>c. ownedCommand owner thread i c \<and> cdState c = CommandAdmitted \<and> claimActive (Some token) now c) in
      bindE (enforceProtocol (d\<lparr>pbCommands := update_where hit (\<lambda>c. c\<lparr>cdClaim := Some (token, now + millis)\<rparr>) (pbCommands d)\<rparr>))
        (\<lambda>d'. Inr (exists_row hit (pbCommands d), d')))"

definition releaseCommandClaim :: "string \<Rightarrow> string \<Rightarrow> string \<Rightarrow> string \<Rightarrow> ('e, 's) protocol_db \<Rightarrow>
    persistence_error + ('e, 's) protocol_db" where
  "releaseCommandClaim owner thread i token d =
     enforceProtocol (d\<lparr>pbCommands := update_where
       (\<lambda>c. ownedCommand owner thread i c \<and> cdState c = CommandAdmitted \<and> map_option fst (cdClaim c) = Some token)
       (\<lambda>c. c\<lparr>cdClaim := None\<rparr>) (pbCommands d)\<rparr>)"

section \<open>Completion\<close>

datatype completion = Completed command_row | DuplicateCompletion command_row

definition staleClaim :: "string \<Rightarrow> persistence_error" where
  "staleClaim m = protocolFailure ReasonStaleFence m"

definition completedRow :: "command_result \<Rightarrow> int \<Rightarrow> int \<Rightarrow> command_row \<Rightarrow> command_row" where
  "completedRow result cursor completedAt c =
     c\<lparr>cdState := CommandCompleted, cdResult := Some result, cdCursor := Some cursor, cdCompletedAt := Some completedAt,
       cdClaim := None\<rparr>"

definition completeCommand :: "('e, 's) codec \<Rightarrow> string \<Rightarrow> string \<Rightarrow> string \<Rightarrow> string \<Rightarrow> command_result \<Rightarrow> 'e list \<Rightarrow> 's option \<Rightarrow>
    int \<Rightarrow> int \<Rightarrow> ('e, 's) protocol_db \<Rightarrow> persistence_error + completion \<times> ('e, 's) protocol_db" where
  "completeCommand cod owner thread i token result events snapshot completedAt now d =
     (case stateForUpdate owner thread d of
        None \<Rightarrow> Inl stateUnavailable
      | Some st \<Rightarrow>
          (case find (ownedCommand owner thread i) (pbCommands d) of
             None \<Rightarrow> Inl (protocolFailure ReasonNotFound ''Command is unavailable'')
           | Some c \<Rightarrow>
               if cdState c = CommandCompleted then Inr (DuplicateCompletion c, d)
               else if \<not> claimActive (Some token) now c then Inl (staleClaim ''Command application claim is expired or fenced'')
               else
                 bindE (writeEvents cod owner thread (srVersion st) (srCursor st + 1) events completedAt d) (\<lambda>(rows, d1).
                   let cursor = (if rows = [] then srCursor st else erwCursor (last rows)) in
                   bindE (if events = [] then Inr d1 else setCursor owner thread cursor d1) (\<lambda>d2.
                   bindE (writeDueSnapshot cod owner thread (srVersion st) cursor snapshot completedAt d2) (\<lambda>d3.
                   bindE (updateCommand thread i (completedRow result cursor completedAt) d3) (\<lambda>d4.
                     Inr (Completed (completedRow result cursor completedAt c), d4)))))))"

end
