(* ===== verification/Protocol_Prompt.thy ===== *)
theory Protocol_Prompt
  imports Protocol_Commands
begin

text \<open>
  Applying and cancelling prompts
  (packages/product-store/src/hosted/thread-protocol/command-application.ts): a prompt command
  becomes a turn of the thread, accepted or queued, in one transaction with its events and its
  completion, unless it is cancelled.  The staging of the turn at the runtime is a parameter:
  its execution link or its error.  Timestamps are valid instants, so the branch for one that
  does not parse is not reached.
\<close>

record prepared_turn =
  pnThread :: string
  pnTurn :: turn_id
  pnTitle :: "string option"
  pnText :: string

record apply_input =
  apOwner :: string
  apThread :: string
  apCommand :: string
  apClaim :: "string option"
  apTurn :: turn_id
  apActor :: actor
  apPrompt :: string
  apParts :: "string option"
  apRoute :: string
  apPrepared :: prepared_turn
  apSubmission :: string
  apCompletedAt :: int
  apCapacity :: int
  apReady :: bool

datatype prompt_application =
    PromptApplied command_row turn_id admission_status execution_link
  | PromptCancelled command_row

definition conflict :: "string \<Rightarrow> persistence_error" where
  "conflict m = protocolFailure ReasonConflict m"

text \<open>An error of the turn tables is an error of the database.\<close>

definition inTurns :: "(db \<Rightarrow> store_error + 'a \<times> db) \<Rightarrow> ('e, 's) protocol_db \<Rightarrow> persistence_error + 'a \<times> ('e, 's) protocol_db" where
  "inTurns f d = (case f (pbTurns d) of Inl _ \<Rightarrow> Inl databaseError | Inr (x, t) \<Rightarrow> Inr (x, d\<lparr>pbTurns := t\<rparr>))"

definition intoTurns :: "(db \<Rightarrow> store_error + db) \<Rightarrow> ('e, 's) protocol_db \<Rightarrow> persistence_error + ('e, 's) protocol_db" where
  "intoTurns f d = (case f (pbTurns d) of Inl _ \<Rightarrow> Inl databaseError | Inr t \<Rightarrow> Inr (d\<lparr>pbTurns := t\<rparr>))"

section \<open>Applying\<close>

text \<open>A command that was completed before answers what it was completed with.\<close>

definition completedApplication :: "apply_input \<Rightarrow> command_row \<Rightarrow> ('e, 's) protocol_db \<Rightarrow> persistence_error + prompt_application" where
  "completedApplication i c d =
     (if cdCancelledBy c \<noteq> None then Inr (PromptCancelled c)
      else case (find (\<lambda>r. rowId r = apTurn i \<and> threadId r = apThread i) (turns (pbTurns d)), cdAdmission c) of
          (Some r, Some st) \<Rightarrow>
            (case executionLink r of
               None \<Rightarrow> Inl (conflict ''Completed prompt command has no durable Runtime admission'')
             | Some l \<Rightarrow> Inr (PromptApplied c (apTurn i) st l))
        | _ \<Rightarrow> Inl (conflict ''Completed prompt command has no durable Runtime admission''))"

text \<open>The first cancellation of a command that stands: admitted, or completed as applied.\<close>

definition cancellationOf :: "string \<Rightarrow> string \<Rightarrow> string \<Rightarrow> ('e, 's) protocol_db \<Rightarrow> command_row option" where
  "cancellationOf owner thread i d =
     (case sort_key cdVersion (filter (\<lambda>c. cdOwner c = owner \<and> cdThread c = thread \<and> cancelTarget (cdBody c) = Some i \<and>
         (cdState c = CommandAdmitted \<or> cdState c = CommandCompleted \<and> appliedTag (cdResult c))) (pbCommands d)) of
        [] \<Rightarrow> None | c # _ \<Rightarrow> Some c)"

definition cancelledRow :: "string \<Rightarrow> int \<Rightarrow> int \<Rightarrow> command_row \<Rightarrow> command_row" where
  "cancelledRow by1 cursor at1 c =
     c\<lparr>cdState := CommandCompleted, cdResult := Some (AppliedResult []), cdCursor := Some cursor, cdCompletedAt := Some at1,
       cdCancelledBy := Some by1, cdClaim := None\<rparr>"

definition newThreadTitle :: string where
  "newThreadTitle = ''New thread''"

text \<open>A thread without turns and without a title of its own takes the title the runtime expects.\<close>

definition renameProvisionalTitle :: "apply_input \<Rightarrow> ('e, 's) protocol_db \<Rightarrow> string option \<times> ('e, 's) protocol_db" where
  "renameProvisionalTitle i d =
     (case pnTitle (apPrepared i) of
        None \<Rightarrow> (None, d)
      | Some t \<Rightarrow>
          let hit = (\<lambda>p. ptrId p = apThread i \<and> ptrOwner p = apOwner i \<and> ptrTitle p = newThreadTitle \<and>
                \<not> exists_row (\<lambda>r. threadId r = apThread i) (turns (pbTurns d))) in
          if t = newThreadTitle \<or> \<not> exists_row hit (pbProductThreads d) then (None, d)
          else (Some t, d\<lparr>pbProductThreads := update_where hit (\<lambda>p. p\<lparr>ptrTitle := t, ptrUpdatedAt := apCompletedAt i\<rparr>)
            (pbProductThreads d)\<rparr>))"

definition promptRow :: "apply_input \<Rightarrow> admission_status \<Rightarrow> turn_row" where
  "promptRow i st =
     \<lparr>rowId = apTurn i, threadId = apThread i, turnKind = KindAgent, prompt = apPrompt i,
      status = (case st of AdmissionAccepted \<Rightarrow> StAccepted | AdmissionQueued \<Rightarrow> StQueued),
      createdAt = apCompletedAt i, updatedAt = apCompletedAt i, promptParts = apParts i, executionRoute = Some (apRoute i),
      executionLink = None, queueClaimToken = None, author = Human, lineage = Original, shellCommand = None,
      shellResultText = None, shellResultTruncated = None, shellResultExitCode = None\<rparr>"

definition occupies :: "string \<Rightarrow> turn_row \<Rightarrow> bool" where
  "occupies thread r \<longleftrightarrow> threadId r = thread \<and> turnKind r = KindAgent \<and> status r \<in> set nonterminal_statuses"

text \<open>The turn is accepted when nothing occupies the thread, and queued within the capacity otherwise.\<close>

definition admitTurn :: "apply_input \<Rightarrow> ('e, 's) protocol_db \<Rightarrow> persistence_error + admission_status \<times> ('e, 's) protocol_db" where
  "admitTurn i d =
     (let st = (if exists_row (occupies (apThread i)) (turns (pbTurns d)) then AdmissionQueued else AdmissionAccepted) in
      bindE (inTurns (insertTurn (promptRow i st)) d) (\<lambda>(row, d1).
      bindE (intoTurns (insertQueueIfMissing (apThread i)) d1) (\<lambda>d2.
        if st = AdmissionAccepted then Inr (st, d2)
        else bindE (inTurns (updateQueue (\<lambda>q. queuedCount q < apCapacity i) (apThread i) (addQueued 1)) d2) (\<lambda>(q, d3).
          case q of None \<Rightarrow> Inl (conflict ''Thread prompt queue is full'') | Some _ \<Rightarrow> Inr (st, d3)))))"

definition admittedPrompt :: "apply_input \<Rightarrow> admission_status \<Rightarrow> int \<Rightarrow> command_row \<Rightarrow> command_row" where
  "admittedPrompt i st cursor c =
     c\<lparr>cdState := CommandCompleted, cdResult := Some (PromptAdmitted st), cdCursor := Some cursor,
       cdCompletedAt := Some (apCompletedAt i), cdTurn := Some (apTurn i), cdAdmission := Some st,
       cdWork := Some ActivationPending, cdPrepared := Some (pnText (apPrepared i)), cdClaim := None\<rparr>"

definition promptEvents :: "('e, 's) codec \<Rightarrow> apply_input \<Rightarrow> admission_status \<Rightarrow> string option \<Rightarrow> 'e list" where
  "promptEvents cod i st renamed =
     (case renamed of None \<Rightarrow> [] | Some t \<Rightarrow> [codTitled cod (apThread i) t]) @
     [codSubmission cod (apThread i) (apTurn i) (st = AdmissionAccepted) (apSubmission i)]"

definition stagePrompt :: "('e, 's) codec \<Rightarrow> apply_input \<Rightarrow> persistence_error + execution_link \<Rightarrow> state_row \<Rightarrow> command_row \<Rightarrow>
    ('e, 's) protocol_db \<Rightarrow> persistence_error + prompt_application \<times> ('e, 's) protocol_db" where
  "stagePrompt cod i stage st c d =
     (case renameProvisionalTitle i d of
        (renamed, d1) \<Rightarrow>
          if exists_row (\<lambda>r. rowId r = apTurn i) (turns (pbTurns d1)) then Inl (conflict ''Turn identity is already in use'')
          else
            bindE (admitTurn i d1) (\<lambda>(adm, d2).
            bindE stage (\<lambda>link.
              if linkTurnId link \<noteq> apTurn i \<or> linkThreadId link \<noteq> apThread i
              then Inl (conflict ''Runtime admission identifies a different Turn'')
              else
                bindE (intoTurns (updateTurns (\<lambda>r. rowId r = apTurn i) (\<lambda>r. r\<lparr>executionLink := Some link\<rparr>)) d2) (\<lambda>d3.
                bindE (writeEvents cod (apOwner i) (apThread i) (srVersion st) (srCursor st + 1) (promptEvents cod i adm renamed)
                    (apCompletedAt i) d3) (\<lambda>(rows, d4).
                  let cursor = erwCursor (last rows) in
                  bindE (setCursor (apOwner i) (apThread i) cursor d4) (\<lambda>d5.
                  bindE (updateCommand (apThread i) (apCommand i) (admittedPrompt i adm cursor) d5) (\<lambda>d6.
                    Inr (PromptApplied (admittedPrompt i adm cursor c) (apTurn i) adm link, d6))))))))"

definition applyPrompt :: "('e, 's) codec \<Rightarrow> apply_input \<Rightarrow> persistence_error + execution_link \<Rightarrow> int \<Rightarrow> ('e, 's) protocol_db \<Rightarrow>
    persistence_error + prompt_application \<times> ('e, 's) protocol_db" where
  "applyPrompt cod i stage now d =
     (if apPrompt i = [] then Inl (conflict ''Prompt cannot be empty'')
      else if pnThread (apPrepared i) \<noteq> apThread i \<or> pnTurn (apPrepared i) \<noteq> apTurn i
      then Inl (conflict ''Prepared Runtime admission identifies a different Turn'')
      else if apCapacity i < 1 then Inl (conflict ''Prompt queue capacity must be positive'')
      else case stateForUpdate (apOwner i) (apThread i) d of
          None \<Rightarrow> Inl stateUnavailable
        | Some st \<Rightarrow>
            (case find (ownedCommand (apOwner i) (apThread i) (apCommand i)) (pbCommands d) of
               None \<Rightarrow> Inl (protocolFailure ReasonNotFound ''Command is unavailable'')
             | Some c \<Rightarrow>
                 if cdActor c \<noteq> apActor i then Inl (conflict ''Command actor does not match its durable admission'')
                 else if cdTurn c \<noteq> None \<and> cdTurn c \<noteq> Some (apTurn i) then Inl (conflict ''Command identifies a different Turn'')
                 else if cdState c = CommandCompleted
                 then bindE (completedApplication i c d) (\<lambda>r. Inr (r, d))
                 else if apClaim i \<noteq> None \<and> \<not> claimActive (apClaim i) now c
                 then Inl (staleClaim ''Command application claim is expired or fenced'')
                 else if \<not> isSubmit (cdBody c) then Inl (conflict ''Command is not a prompt submission'')
                 else case cancellationOf (apOwner i) (apThread i) (apCommand i) d of
                     Some x \<Rightarrow>
                       bindE (updateCommand (apThread i) (apCommand i) (cancelledRow (cdId x) (srCursor st) (apCompletedAt i)) d) (\<lambda>d'.
                         Inr (PromptCancelled (cancelledRow (cdId x) (srCursor st) (apCompletedAt i) c), d'))
                   | None \<Rightarrow>
                       if \<not> apReady i then Inl (protocolFailure ReasonDatabase ''Prompt admission workers are unavailable'')
                       else if \<not> exists_row (\<lambda>p. ptrId p = apThread i \<and> ptrOwner p = apOwner i) (pbProductThreads d)
                       then Inl (protocolFailure ReasonInvalidAuthority ''Thread has no product state for the owner'')
                       else stagePrompt cod i stage st c d))"

section \<open>Cancelling\<close>

record cancel_input =
  cnOwner :: string
  cnThread :: string
  cnCommand :: string
  cnTarget :: string
  cnActor :: actor
  cnAt :: int
  cnClaim :: "string option"

datatype prompt_cancellation = CancellationPending string | CancellationTurn string turn_id

text \<open>Applied without a claim, a cancellation that is still admitted is completed here.\<close>

definition appliedCancel :: "int \<Rightarrow> int \<Rightarrow> command_row \<Rightarrow> command_row" where
  "appliedCancel cursor at1 c =
     c\<lparr>cdState := CommandCompleted, cdResult := Some (AppliedResult []), cdCursor := Some cursor, cdCompletedAt := Some at1\<rparr>"

definition cancelTargetCommand :: "cancel_input \<Rightarrow> state_row \<Rightarrow> ('e, 's) protocol_db \<Rightarrow>
    persistence_error + prompt_cancellation \<times> ('e, 's) protocol_db" where
  "cancelTargetCommand i st d =
     (case commandOf (cnThread i) (cnTarget i) d of
        None \<Rightarrow> Inr (CancellationPending (cnTarget i), d)
      | Some t \<Rightarrow>
          if \<not> isSubmit (cdBody t) then Inl (conflict ''Cancellation target is not a prompt submission'')
          else
            bindE (if cdState t = CommandAdmitted
                then updateCommand (cnThread i) (cnTarget i) (cancelledRow (cnCommand i) (srCursor st) (cnAt i)) d
                else Inr d) (\<lambda>d'.
              Inr (case (cdTurn t, cdState t, cdAdmission t) of
                  (Some turn, CommandCompleted, Some _) \<Rightarrow> CancellationTurn (cnTarget i) turn
                | _ \<Rightarrow> CancellationPending (cnTarget i), d')))"

definition cancelPrompt :: "cancel_input \<Rightarrow> int \<Rightarrow> ('e, 's) protocol_db \<Rightarrow>
    persistence_error + prompt_cancellation \<times> ('e, 's) protocol_db" where
  "cancelPrompt i now d =
     bindE (requireThreadAccess (pbAuthority d) (cnOwner i) (cnThread i) (cnActor i) ThreadControl (cnAt i)) (\<lambda>_.
       case stateForUpdate (cnOwner i) (cnThread i) d of
         None \<Rightarrow> Inl stateUnavailable
       | Some st \<Rightarrow>
           (case commandOf (cnThread i) (cnCommand i) d of
              None \<Rightarrow> Inl (conflict ''Cancellation command does not identify the target'')
            | Some c \<Rightarrow>
                if cancelTarget (cdBody c) \<noteq> Some (cnTarget i)
                then Inl (conflict ''Cancellation command does not identify the target'')
                else if cdActor c \<noteq> cnActor i
                then Inl (conflict ''Cancellation actor does not match its durable admission'')
                else if cdState c = CommandCompleted \<and> \<not> appliedTag (cdResult c)
                then Inl (conflict ''Rejected cancellation cannot be applied'')
                else if cnClaim i \<noteq> None \<and> \<not> claimActive (cnClaim i) now c
                then Inl (staleClaim ''Cancellation command claim is expired or fenced'')
                else
                  bindE (if cnClaim i = None \<and> cdState c = CommandAdmitted
                      then updateCommand (cnThread i) (cnCommand i) (appliedCancel (srCursor st) (cnAt i)) d
                      else Inr d) (cancelTargetCommand i st)))"

end
