(* ===== verification/Protocol_Connections.thy ===== *)
theory Protocol_Connections
  imports Protocol_Log
begin

text \<open>
  Acknowledged cursors, compaction and socket tickets
  (packages/product-store/src/hosted/thread-protocol/connections.ts).
\<close>

section \<open>Acknowledgement and compaction\<close>

definition acknowledge :: "string \<Rightarrow> string \<Rightarrow> string \<Rightarrow> int \<Rightarrow> int \<Rightarrow> cursor_row list \<Rightarrow> cursor_row list" where
  "acknowledge owner thread client cursor at1 ws =
     (let hit = (\<lambda>w. cwThread w = thread \<and> cwClient w = client) in
      if exists_row hit ws
      then update_where hit (\<lambda>w. w\<lparr>cwCursor := max (cwCursor w) cursor, cwAcknowledgedAt := at1\<rparr>) ws
      else ws @ [\<lparr>cwOwner = owner, cwThread = thread, cwClient = client, cwCursor = cursor, cwAcknowledgedAt = at1\<rparr>])"

definition acknowledgedMinimum :: "string \<Rightarrow> string \<Rightarrow> ('e, 's) protocol_db \<Rightarrow> int option" where
  "acknowledgedMinimum owner thread d =
     (case map cwCursor (filter (\<lambda>w. cwOwner w = owner \<and> cwThread w = thread) (pbCursors d)) of
        [] \<Rightarrow> None | n # ns \<Rightarrow> Some (foldl min n ns))"

text \<open>The newest snapshot every acknowledged cursor has passed.\<close>

definition compactCursor :: "string \<Rightarrow> string \<Rightarrow> ('e, 's) protocol_db \<Rightarrow> int option" where
  "compactCursor owner thread d =
     (case acknowledgedMinimum owner thread d of
        None \<Rightarrow> None
      | Some least \<Rightarrow>
          map_option swCursor (newestSnapshot (\<lambda>w. snapshotOf1 owner thread w \<and> swCursor w \<le> least) (pbSnapshots d)))"

definition compact :: "string \<Rightarrow> string \<Rightarrow> ('e, 's) protocol_db \<Rightarrow> ('e, 's) protocol_db" where
  "compact owner thread d =
     (case compactCursor owner thread d of
        None \<Rightarrow> d
      | Some n \<Rightarrow> d\<lparr>
          pbEvents := delete_where (\<lambda>e. erwOwner e = owner \<and> erwThread e = thread \<and> erwCursor e \<le> n) (pbEvents d),
          pbSnapshots := delete_where (\<lambda>w. snapshotOf1 owner thread w \<and> swCursor w < n) (pbSnapshots d)\<rparr>)"

record acknowledgement =
  akCursor :: int
  akHead :: int
  akVersion :: int

definition acknowledgeCursor :: "string \<Rightarrow> string \<Rightarrow> actor \<Rightarrow> int \<Rightarrow> int \<Rightarrow> ('e, 's) protocol_db \<Rightarrow>
    persistence_error + acknowledgement \<times> ('e, 's) protocol_db" where
  "acknowledgeCursor owner thread a cursor at1 d =
     bindE (requireThreadAccess (pbAuthority d) owner thread a ThreadView at1) (\<lambda>_.
       case find (\<lambda>s. srOwner s = owner \<and> srThread s = thread \<and> cursor \<le> srCursor s) (pbStates d) of
         None \<Rightarrow> Inl (protocolFailure ReasonConflict ''Cursor is ahead of the committed Thread log'')
       | Some st \<Rightarrow>
           bindE (enforceProtocol (d\<lparr>pbCursors := acknowledge owner thread (actorClient a) cursor at1 (pbCursors d)\<rparr>)) (\<lambda>d1.
             case find (\<lambda>w. cwThread w = thread \<and> cwClient w = actorClient a) (pbCursors d1) of
               None \<Rightarrow> Inl databaseError
             | Some w \<Rightarrow>
                 bindE (enforceProtocol (compact owner thread d1)) (\<lambda>d2.
                   Inr (\<lparr>akCursor = cwCursor w, akHead = srCursor st, akVersion = srVersion st\<rparr>, d2))))"

section \<open>Socket tickets\<close>

record ticket_binding =
  tbTicket :: string
  tbUser :: string
  tbClient :: string
  tbDevice :: string
  tbAudience :: string
  tbExpiresAt :: int

definition issueTicket :: "ticket_binding \<Rightarrow> string \<Rightarrow> int \<Rightarrow> ('e, 's) protocol_db \<Rightarrow> persistence_error + ('e, 's) protocol_db" where
  "issueTicket b digest issuedAt d =
     enforceProtocol (d\<lparr>pbTickets := pbTickets d @ [\<lparr>tkId = tbTicket b, tkDigest = digest, tkUser = tbUser b, tkClient = tbClient b,
       tkDevice = tbDevice b, tkAudience = tbAudience b, tkExpiresAt = tbExpiresAt b, tkIssuedAt = issuedAt, tkConsumedAt = None,
       tkRevokedAt = None\<rparr>]\<rparr>)"

definition ticketUsable :: "authority_db \<Rightarrow> string \<Rightarrow> string \<Rightarrow> int \<Rightarrow> ticket_row \<Rightarrow> bool" where
  "ticketUsable a digest audience at1 k \<longleftrightarrow>
     tkDigest k = digest \<and> tkAudience k = audience \<and> tkConsumedAt k = None \<and> tkRevokedAt k = None \<and> at1 < tkExpiresAt k \<and>
     exists_row (\<lambda>c. clId c = tkClient k \<and> clUser c = tkUser k \<and> clDevice c = tkDevice k \<and> \<not> clRevoked c \<and> at1 < clExpiresAt c \<and>
         exists_row (\<lambda>v. dvId v = clDevice c \<and> dvUser v = clUser c \<and> \<not> dvRevoked v) (adDevices a))
       (adClients a)"

definition redeemTicket :: "string \<Rightarrow> string \<Rightarrow> int \<Rightarrow> ('e, 's) protocol_db \<Rightarrow>
    persistence_error + ticket_binding \<times> ('e, 's) protocol_db" where
  "redeemTicket digest audience at1 d =
     (let hit = ticketUsable (pbAuthority d) digest audience at1 in
      bindE (enforceProtocol (d\<lparr>pbTickets := update_where hit (\<lambda>k. k\<lparr>tkConsumedAt := Some at1\<rparr>) (pbTickets d)\<rparr>)) (\<lambda>d'.
        case find hit (pbTickets d) of
          None \<Rightarrow> Inl (authorityFailure ''WebSocket ticket is invalid or expired'')
        | Some k \<Rightarrow> Inr (\<lparr>tbTicket = tkId k, tbUser = tkUser k, tbClient = tkClient k, tbDevice = tkDevice k,
            tbAudience = tkAudience k, tbExpiresAt = tkExpiresAt k\<rparr>, d')))"

definition revokeTicket :: "string \<Rightarrow> int \<Rightarrow> ('e, 's) protocol_db \<Rightarrow> persistence_error + ('e, 's) protocol_db" where
  "revokeTicket i now d =
     enforceProtocol (d\<lparr>pbTickets := update_where (\<lambda>k. tkId k = i \<and> tkConsumedAt k = None \<and> tkRevokedAt k = None)
       (\<lambda>k. k\<lparr>tkRevokedAt := Some now\<rparr>) (pbTickets d)\<rparr>)"

end
