(* ===== verification/Protocol_Moves.thy ===== *)
theory Protocol_Moves
  imports Protocol_Prompt Protocol_Connections
begin

text \<open>
  The operations of the thread protocol as one store, and the moves every operation is made of:
  what one statement, or a few that belong together, changes in the protocol's tables.
\<close>

section \<open>The store\<close>

datatype ('e, 's) protocol_op =
    OpInitialize string string thread_reader
  | OpAdmit command_input "int option"
  | OpClaim "string \<Rightarrow> bool" string int
  | OpRenew string string string string int
  | OpRelease string string string string
  | OpComplete string string string string command_result "'e list" "'s option" int
  | OpApply apply_input "persistence_error + execution_link"
  | OpCancel cancel_input
  | OpAppend string string "'e list" "'s option" int
  | OpCheckpoint string string int int 's int
  | OpSave string string int int 's int
  | OpAcknowledge string string actor int int
  | OpIssue ticket_binding string int
  | OpRedeem string string int
  | OpRevoke string

text \<open>An operation at an instant, without its answer.\<close>

definition dropAnswer :: "'er + 'a \<times> 'd \<Rightarrow> 'er + 'd" where
  "dropAnswer r = bindE r (\<lambda>(x, d). Inr d)"

lemma dropAnswer_Inr [result_simps]: "dropAnswer r = Inr d \<longleftrightarrow> (\<exists>x. r = Inr (x, d))"
  by (cases r) (auto simp: dropAnswer_def)

fun protocolStep :: "('e, 's) codec \<Rightarrow> int \<times> ('e, 's) protocol_op \<Rightarrow> ('e, 's) protocol_db \<Rightarrow>
    persistence_error + ('e, 's) protocol_db" where
  "protocolStep cod (now, OpInitialize owner thread reader) d = initializeThread owner thread reader now d"
| "protocolStep cod (now, OpAdmit i expected) d = dropAnswer (admit i expected d)"
| "protocolStep cod (now, OpClaim locked token millis) d = dropAnswer (claimNextCommand locked token millis now d)"
| "protocolStep cod (now, OpRenew owner thread i token millis) d = dropAnswer (renewCommandClaim owner thread i token millis now d)"
| "protocolStep cod (now, OpRelease owner thread i token) d = releaseCommandClaim owner thread i token d"
| "protocolStep cod (now, OpComplete owner thread i token result events snapshot at1) d =
     dropAnswer (completeCommand cod owner thread i token result events snapshot at1 now d)"
| "protocolStep cod (now, OpApply i stage) d = dropAnswer (applyPrompt cod i stage now d)"
| "protocolStep cod (now, OpCancel i) d = dropAnswer (cancelPrompt i now d)"
| "protocolStep cod (now, OpAppend owner thread events snapshot at1) d = dropAnswer (appendEvents cod owner thread events snapshot at1 d)"
| "protocolStep cod (now, OpCheckpoint owner thread version cursor snapshot at1) d =
     dropAnswer (checkpoint cod owner thread version cursor snapshot at1 d)"
| "protocolStep cod (now, OpSave owner thread version cursor snapshot at1) d = saveSnapshot cod owner thread version cursor snapshot at1 d"
| "protocolStep cod (now, OpAcknowledge owner thread a cursor at1) d = dropAnswer (acknowledgeCursor owner thread a cursor at1 d)"
| "protocolStep cod (now, OpIssue b digest at1) d = issueTicket b digest at1 d"
| "protocolStep cod (now, OpRedeem digest audience at1) d = dropAnswer (redeemTicket digest audience at1 d)"
| "protocolStep cod (now, OpRevoke i) d = revokeTicket i now d"

section \<open>Moves\<close>

text \<open>
  What happens to a command: nothing; while it is admitted its claim is given, only when no
  command precedes it or it is claimed already, or taken; or it is completed.
\<close>

definition sameCommandKey :: "command_row \<Rightarrow> command_row \<Rightarrow> bool" where
  "sameCommandKey c c' \<longleftrightarrow> cdOwner c' = cdOwner c \<and> cdThread c' = cdThread c \<and> cdId c' = cdId c \<and> cdKey c' = cdKey c \<and>
     cdExpected c' = cdExpected c \<and> cdVersion c' = cdVersion c \<and> cdCommit c' = cdCommit c \<and> cdActor c' = cdActor c \<and>
     cdBody c' = cdBody c \<and> cdAdmittedAt c' = cdAdmittedAt c"

definition commandMoves :: "('e, 's) protocol_db \<Rightarrow> command_row \<Rightarrow> command_row \<Rightarrow> bool" where
  "commandMoves d c c' \<longleftrightarrow> c' = c \<or>
     cdState c = CommandAdmitted \<and> sameCommandKey c c' \<and>
     (cdState c' = CommandCompleted \<or>
      cdState c' = CommandAdmitted \<and> (cdClaim c' \<noteq> None \<longrightarrow> cdClaim c \<noteq> None \<or> \<not> exists_row (\<lambda>p. precedes p c) (pbCommands d)))"

text \<open>Tickets stay under their digest, used ones used.\<close>

definition ticketsFollow :: "ticket_row list \<Rightarrow> ticket_row list \<Rightarrow> bool" where
  "ticketsFollow ks ks' \<longleftrightarrow> (\<forall>k \<in> set ks. \<exists>k' \<in> set ks'. tkDigest k' = tkDigest k \<and> (tkConsumedAt k \<noteq> None \<longrightarrow> tkConsumedAt k' \<noteq> None))"

lemma ticketsFollow_more: "set ks \<subseteq> set ks' \<Longrightarrow> ticketsFollow ks ks'"
  unfolding ticketsFollow_def by blast

lemma ticketsFollow_trans: "ticketsFollow a b \<Longrightarrow> ticketsFollow b c \<Longrightarrow> ticketsFollow a c"
  unfolding ticketsFollow_def by (metis (no_types, lifting))

lemma ticketsFollow_update:
  assumes "\<And>k. tkDigest (f k) = tkDigest k \<and> (tkConsumedAt k \<noteq> None \<longrightarrow> tkConsumedAt (f k) \<noteq> None)"
  shows "ticketsFollow ks (update_where P f ks)"
  unfolding ticketsFollow_def
proof
  fix k assume k: "k \<in> set ks"
  show "\<exists>k' \<in> set (update_where P f ks). tkDigest k' = tkDigest k \<and> (tkConsumedAt k \<noteq> None \<longrightarrow> tkConsumedAt k' \<noteq> None)"
    by (rule bexI [of _ "if P k then f k else k"]) (use assms [of k] k in \<open>auto simp: update_where_def\<close>)
qed

inductive protocolMove :: "('e, 's) protocol_db \<Rightarrow> ('e, 's) protocol_db \<Rightarrow> bool" where
  opened: "\<lbrakk> thread \<notin> srThread ` set (pbStates d);
      d' = d\<lparr>pbStates := pbStates d @ [\<lparr>srOwner = owner, srThread = thread, srVersion = 0, srCursor = 0\<rparr>]\<rparr>;
      protocolConsistent d' \<rbrakk> \<Longrightarrow> protocolMove d d'"
| admitted: "\<lbrakk> stateOf (ciOwner i) (ciThread i) (pbStates d) = Some st; row_by ocOwner (ciOwner i) (pbCounters d) = Some oc;
      d' = d\<lparr>pbCounters := update_where (\<lambda>c. ocOwner c = ciOwner i) (\<lambda>c. c\<lparr>ocNext := ocNext c + 1\<rparr>) (pbCounters d),
        pbCommands := pbCommands d @ [admittedRow i (srVersion st) (ocNext oc)],
        pbStates := update_where (\<lambda>s. srOwner s = ciOwner i \<and> srThread s = ciThread i) (\<lambda>s. s\<lparr>srVersion := srVersion st + 1\<rparr>) (pbStates d)\<rparr>;
      protocolConsistent d' \<rbrakk> \<Longrightarrow> protocolMove d d'"
| changed: "\<lbrakk> \<forall>c \<in> set (pbCommands d). commandMoves d c (g c); d' = d\<lparr>pbCommands := map g (pbCommands d)\<rparr>;
      protocolConsistent d' \<rbrakk> \<Longrightarrow> protocolMove d d'"
| appended: "\<lbrakk> stateOf owner thread (pbStates d) = Some st; es \<noteq> [];
      rows = eventRows owner thread version at1 (srCursor st + 1) es;
      d' = d\<lparr>pbEvents := pbEvents d @ rows,
        pbStates := update_where (\<lambda>s. srOwner s = owner \<and> srThread s = thread) (\<lambda>s. s\<lparr>srCursor := erwCursor (last rows)\<rparr>) (pbStates d)\<rparr>;
      protocolConsistent d' \<rbrakk> \<Longrightarrow> protocolMove d d'"
| snapshotted: "\<lbrakk> stateOf owner thread (pbStates d) = Some st;
      writeSnapshot cod owner thread (srVersion st) (srCursor st) snap at1 required d = Inr d' \<rbrakk> \<Longrightarrow> protocolMove d d'"
| acknowledged: "\<lbrakk> st \<in> set (pbStates d); srOwner st = owner; srThread st = thread; cursor \<le> srCursor st;
      d' = d\<lparr>pbCursors := acknowledge owner thread client cursor at1 (pbCursors d)\<rparr>; protocolConsistent d' \<rbrakk> \<Longrightarrow> protocolMove d d'"
| compacted: "\<lbrakk> d' = compact owner thread d; protocolConsistent d' \<rbrakk> \<Longrightarrow> protocolMove d d'"
| elsewhere: "\<lbrakk> ticketsFollow (pbTickets d) ks; d' = d\<lparr>pbTickets := ks, pbTurns := ts, pbProductThreads := ps\<rparr>; protocolConsistent d' \<rbrakk> \<Longrightarrow> protocolMove d d'"

definition protocolMoves :: "('e, 's) protocol_db \<Rightarrow> ('e, 's) protocol_db \<Rightarrow> bool" where
  "protocolMoves = protocolMove\<^sup>*\<^sup>*"

lemma protocolMoves_refl [simp, intro]: "protocolMoves d d"
  by (simp add: protocolMoves_def)

lemma protocolMoves_trans: "protocolMoves a b \<Longrightarrow> protocolMoves b c \<Longrightarrow> protocolMoves a c"
  unfolding protocolMoves_def by simp

lemma protocolMoves_one: "protocolMove a b \<Longrightarrow> protocolMoves a b"
  unfolding protocolMoves_def by blast

lemma stateOf_Some:
  assumes "stateOf owner thread ss = Some st"
  shows "st \<in> set ss" "srOwner st = owner" "srThread st = thread"
  using assms by (auto simp: stateOf_def find_Some_iff)

lemma consistent_states: "protocolConsistent d \<Longrightarrow> statesConsistent (pbStates d)"
  by (simp add: protocolConsistent_def)

section \<open>Operations are moves\<close>

lemma initializeThread_moves: "initializeThread owner thread reader now d = Inr d' \<Longrightarrow> protocolMoves d d'"
  by (auto simp: initializeThread_def row_by_None result_simps split: if_splits option.splits
      intro!: protocolMoves_one protocolMove.opened)

lemma consistent_append_command:
  "protocolConsistent (d\<lparr>pbCommands := cs, pbStates := ss, pbCounters := oc\<rparr>) = protocolConsistent (d\<lparr>pbCommands := cs, pbStates := ss\<rparr>)"
  by (simp add: protocolConsistent_def)

lemma admit_moves:
  assumes "admit i expected d = Inr (r, d')"
  shows "protocolMoves d d'"
proof (cases "readExisting i expected d = Inr None")
  case False
  then have "d' = d" using assms by (auto simp: admit_def result_simps split: option.splits)
  then show ?thesis by simp
next
  case True
  obtain st where st: "stateOf (ciOwner i) (ciThread i) (pbStates d) = Some st"
    using assms True by (auto simp: admit_def stateForUpdate_def result_simps split: option.splits)
  obtain oc where oc: "row_by ocOwner (ciOwner i) (pbCounters d) = Some oc"
    using assms True st by (auto simp: admit_def stateForUpdate_def result_simps split: if_splits option.splits)
  let ?d1 = "d\<lparr>pbCounters := update_where (\<lambda>c. ocOwner c = ciOwner i) (\<lambda>c. c\<lparr>ocNext := ocNext c + 1\<rparr>) (pbCounters d)\<rparr>"
  let ?d2 = "?d1\<lparr>pbCommands := pbCommands ?d1 @ [admittedRow i (srVersion st) (ocNext oc)]\<rparr>"
  have "enforceProtocol (?d2\<lparr>pbStates := update_where (\<lambda>s. srOwner s = ciOwner i \<and> srThread s = ciThread i)
      (\<lambda>s. s\<lparr>srVersion := srVersion st + 1\<rparr>) (pbStates ?d2)\<rparr>) = Inr d'"
    using assms unfolding admit_def Let_def True
    by (auto simp: stateForUpdate_def st oc result_simps split: if_splits)
  then show ?thesis
    by (intro protocolMoves_one protocolMove.admitted [OF st oc]) (simp_all add: enforceProtocol_Inr)
qed

lemma updateCommand_map:
  "update_where P f cs = map (\<lambda>c. if P c then f c else c) cs"
  by (simp add: update_where_def)

lemma changed_moves:
  assumes "\<And>c. c \<in> set (pbCommands d) \<Longrightarrow> P c \<Longrightarrow> commandMoves d c (f c)"
    and "enforceProtocol (d\<lparr>pbCommands := update_where P f (pbCommands d)\<rparr>) = Inr d'"
  shows "protocolMoves d d'"
proof -
  let ?g = "\<lambda>c. if P c then f c else c"
  have "\<forall>c \<in> set (pbCommands d). commandMoves d c (?g c)" using assms(1) by (simp add: commandMoves_def)
  then show ?thesis using assms(2)
    by (intro protocolMoves_one protocolMove.changed [of d ?g]) (auto simp: result_simps updateCommand_map)
qed

lemma updateCommand_moves:
  assumes "\<And>c. c \<in> set (pbCommands d) \<Longrightarrow> cdThread c = thread \<Longrightarrow> cdId c = i \<Longrightarrow> commandMoves d c (f c)"
    and "updateCommand thread i f d = Inr d'"
  shows "protocolMoves d d'"
  using assms unfolding updateCommand_def by (intro changed_moves) auto

lemma command_unique:
  assumes "protocolConsistent d" "c \<in> set (pbCommands d)" "c' \<in> set (pbCommands d)" "cdThread c = cdThread c'" "cdId c = cdId c'"
  shows "c = c'"
proof -
  have "distinct (map (\<lambda>c. (cdThread c, cdId c)) (pbCommands d))"
    using assms(1) by (simp add: protocolConsistent_def commandsConsistent_def)
  then show ?thesis using keys_inj [of "\<lambda>c. (cdThread c, cdId c)"] assms(2-5) by blast
qed

lemma first_in: "(case sort_key f xs of [] \<Rightarrow> None | c # _ \<Rightarrow> Some c) = Some c \<Longrightarrow> c \<in> set xs"
  by (cases "sort_key f xs") (auto simp flip: set_sort [of f xs])

lemma first_least:
  assumes "(case sort_key f xs of [] \<Rightarrow> None | c # _ \<Rightarrow> Some c) = Some c" "x \<in> set xs"
  shows "f c \<le> f x"
proof (cases "sort_key f xs")
  case Nil
  then show ?thesis using assms(1) by simp
next
  case (Cons a as)
  have "sorted (map f (a # as))" using sorted_sort_key [of f xs] Cons by simp
  moreover have "x \<in> set (a # as)" using assms(2) Cons set_sort [of f xs] by metis
  ultimately show ?thesis using assms(1) Cons by auto
qed

lemma first_None: "(case sort_key f xs of [] \<Rightarrow> None | c # _ \<Rightarrow> Some c) = None \<longleftrightarrow> xs = []"
  by (metis list.case(2) list.exhaust list.simps(4) option.distinct(1) set_empty set_sort)

lemma selectCommand_runnable:
  assumes "selectCommand locked now d = Some c"
  shows "c \<in> set (pbCommands d)" "runnableCommand now d c"
proof -
  let ?cs = "List.map_filter (\<lambda>s. if locked (srThread s) then None else commandCandidate now d (srThread s)) (pbStates d)"
  have "c \<in> set ?cs" using assms unfolding selectCommand_def by (rule first_in)
  then have "\<exists>s :: state_row. commandCandidate now d (srThread s) = Some c"
    by (auto simp: List.map_filter_def split: if_splits)
  then obtain s :: state_row where "commandCandidate now d (srThread s) = Some c" ..
  then have "c \<in> set (filter (\<lambda>x. cdThread x = srThread s \<and> runnableCommand now d x) (pbCommands d))"
    unfolding commandCandidate_def by (rule first_in)
  then show "c \<in> set (pbCommands d)" "runnableCommand now d c" by simp_all
qed

lemma claimNextCommand_moves:
  assumes "protocolConsistent d" "claimNextCommand locked token millis now d = Inr (r, d')"
  shows "protocolMoves d d'"
proof (cases "selectCommand locked now d")
  case None
  then show ?thesis using assms(2) by (simp add: claimNextCommand_def)
next
  case (Some c)
  then have upd: "updateCommand (cdThread c) (cdId c) (\<lambda>c. c\<lparr>cdClaim := Some (token, now + millis)\<rparr>) d = Inr d'"
    using assms(2) by (auto simp: claimNextCommand_def result_simps)
  have "commandMoves d x (x\<lparr>cdClaim := Some (token, now + millis)\<rparr>)"
    if "x \<in> set (pbCommands d)" "cdThread x = cdThread c" "cdId x = cdId c" for x
  proof -
    have "x = c" using command_unique [OF assms(1)] selectCommand_runnable(1) [OF Some] that by blast
    then show ?thesis using selectCommand_runnable(2) [OF Some] by (simp add: commandMoves_def runnableCommand_def sameCommandKey_def)
  qed
  then show ?thesis using upd by (rule updateCommand_moves)
qed

lemma renewCommandClaim_moves:
  assumes "renewCommandClaim owner thread i token millis now d = Inr (r, d')"
  shows "protocolMoves d d'"
proof (rule changed_moves)
  let ?hit = "\<lambda>c. ownedCommand owner thread i c \<and> cdState c = CommandAdmitted \<and> claimActive (Some token) now c"
  show "enforceProtocol (d\<lparr>pbCommands := update_where ?hit (\<lambda>c. c\<lparr>cdClaim := Some (token, now + millis)\<rparr>) (pbCommands d)\<rparr>) = Inr d'"
    using assms by (simp add: renewCommandClaim_def Let_def bindE_Inr_iff)
  fix c
  assume "c \<in> set (pbCommands d)" "?hit c"
  then show "commandMoves d c (c\<lparr>cdClaim := Some (token, now + millis)\<rparr>)"
    by (simp add: commandMoves_def sameCommandKey_def claimActive_def split: option.splits)
qed

lemma releaseCommandClaim_moves: "releaseCommandClaim owner thread i token d = Inr d' \<Longrightarrow> protocolMoves d d'"
  unfolding releaseCommandClaim_def
  by (rule changed_moves) (auto simp: commandMoves_def sameCommandKey_def)

subsection \<open>The log\<close>

lemma eventRows_Nil [simp]: "eventRows owner thread version at1 n es = [] \<longleftrightarrow> es = []"
  by (cases es) auto

lemma writeEvents_Inr:
  assumes "writeEvents cod owner thread version n events at1 d = Inr (rows, d')"
  shows "rows = eventRows owner thread version at1 n (map (codOverlayEvent cod) events)" "d' = d\<lparr>pbEvents := pbEvents d @ rows\<rparr>"
  using assms by (auto simp: writeEvents_def Let_def bindE_Inr_iff enforceProtocol_Inr split: if_splits)

lemma stateOf_setCursor:
  "stateOf owner thread (update_where (\<lambda>s. srOwner s = owner \<and> srThread s = thread) (\<lambda>s. s\<lparr>srCursor := n\<rparr>) ss) =
    map_option (\<lambda>s. s\<lparr>srCursor := n\<rparr>) (stateOf owner thread ss)"
  by (induction ss) (auto simp: stateOf_def update_where_def)

lemma appended_moves:
  assumes "stateOf owner thread (pbStates d) = Some st" "events \<noteq> []"
    and "writeEvents cod owner thread version (srCursor st + 1) events at1 d = Inr (rows, d1)"
    and "setCursor owner thread (erwCursor (last rows)) d1 = Inr d2"
  shows "protocolMoves d d2" "stateOf owner thread (pbStates d2) = Some (st\<lparr>srCursor := erwCursor (last rows)\<rparr>)"
    "pbCommands d2 = pbCommands d"
proof -
  note w = writeEvents_Inr [OF assms(3)]
  have d2: "d2 = d1\<lparr>pbStates := update_where (\<lambda>s. srOwner s = owner \<and> srThread s = thread)
      (\<lambda>s. s\<lparr>srCursor := erwCursor (last rows)\<rparr>) (pbStates d1)\<rparr>" "protocolConsistent d2"
    using assms(4) by (auto simp: setCursor_def enforceProtocol_Inr)
  have "protocolMove d d2"
    using assms(2) w(2) d2 by (intro protocolMove.appended [OF assms(1) _ w(1)]) simp_all
  then show "protocolMoves d d2" by (rule protocolMoves_one)
  show "stateOf owner thread (pbStates d2) = Some (st\<lparr>srCursor := erwCursor (last rows)\<rparr>)" "pbCommands d2 = pbCommands d"
    using assms(1) w(2) d2(1) by (simp_all add: stateOf_setCursor)
qed

lemma writeSnapshot_frame:
  assumes "writeSnapshot cod owner thread version cursor s at1 required d = Inr d'"
  shows "protocolConsistent d'" "\<exists>ws. d' = d\<lparr>pbSnapshots := ws\<rparr>"
  using assms by (auto simp: writeSnapshot_def Let_def enforceProtocol_Inr)

lemma writeDue_moves:
  assumes "stateOf owner thread (pbStates d) = Some st"
    and "writeDueSnapshot cod owner thread (srVersion st) (srCursor st) snapshot at1 d = Inr d'"
  shows "protocolMoves d d'" "pbCommands d' = pbCommands d"
proof -
  have "d' = d \<or> (\<exists>s required. writeSnapshot cod owner thread (srVersion st) (srCursor st) s at1 required d = Inr d')"
    using assms(2) by (auto simp: writeDueSnapshot_def split: option.splits if_splits prod.splits)
  then have "protocolMoves d d' \<and> pbCommands d' = pbCommands d"
  proof (elim disjE exE)
    fix s required
    assume w: "writeSnapshot cod owner thread (srVersion st) (srCursor st) s at1 required d = Inr d'"
    from writeSnapshot_frame(2) [OF w] obtain ws where "d' = d\<lparr>pbSnapshots := ws\<rparr>" ..
    then show ?thesis using protocolMoves_one [OF protocolMove.snapshotted [OF assms(1) w]] by simp
  qed simp
  then show "protocolMoves d d'" "pbCommands d' = pbCommands d" by simp_all
qed

text \<open>Writing events, the new cursor and a snapshot that is due, as three operations do.\<close>

lemma logged_moves:
  assumes st: "stateOf owner thread (pbStates d) = Some st"
    and w: "writeEvents cod owner thread (srVersion st) (srCursor st + 1) events at1 d = Inr (rows, d1)"
    and cursor: "cursor = (if rows = [] then srCursor st else erwCursor (last rows))"
    and d2: "(if events = [] then Inr d1 else setCursor owner thread cursor d1) = Inr d2"
    and d3: "writeDueSnapshot cod owner thread (srVersion st) cursor snapshot at1 d2 = Inr d3"
  shows "protocolMoves d d3 \<and> pbCommands d3 = pbCommands d"
proof (cases "events = []")
  case True
  then have "d2 = d" "cursor = srCursor st" using w cursor d2 by (auto simp: writeEvents_def)
  then show ?thesis using writeDue_moves [OF st] d3 by simp
next
  case False
  then have "rows \<noteq> []" using writeEvents_Inr(1) [OF w] by simp
  then have "setCursor owner thread (erwCursor (last rows)) d1 = Inr d2" and [simp]: "cursor = erwCursor (last rows)"
    using d2 cursor False by simp_all
  note a = appended_moves [OF st False w this(1)]
  have "writeDueSnapshot cod owner thread (srVersion (st\<lparr>srCursor := cursor\<rparr>)) (srCursor (st\<lparr>srCursor := cursor\<rparr>)) snapshot at1 d2 = Inr d3"
    using d3 by simp
  note b = writeDue_moves [OF _ this]
  show ?thesis using protocolMoves_trans [OF a(1)] b a(2,3) by simp
qed

lemma appendEvents_moves:
  assumes "appendEvents cod owner thread events snapshot at1 d = Inr (r, d')"
  shows "protocolMoves d d'"
proof (cases "events = []")
  case True
  then show ?thesis using assms by (simp add: appendEvents_def)
next
  case False
  then obtain st rows d1 d2 where st: "stateOf owner thread (pbStates d) = Some st"
    and w: "writeEvents cod owner thread (srVersion st) (srCursor st + 1) events at1 d = Inr (rows, d1)"
    and d2: "setCursor owner thread (erwCursor (last rows)) d1 = Inr d2"
    and d3: "writeDueSnapshot cod owner thread (srVersion st) (erwCursor (last rows)) snapshot at1 d2 = Inr d'"
    using assms by (auto simp: appendEvents_def stateForUpdate_def Let_def bindE_Inr_iff split: option.splits)
  have "rows \<noteq> []" using writeEvents_Inr(1) [OF w] False by simp
  then show ?thesis using logged_moves [OF st w refl, of d2 snapshot d'] d2 d3 False by simp
qed

lemma checkpoint_moves:
  assumes "checkpoint cod owner thread version cursor snapshot at1 d = Inr (r, d')"
  shows "protocolMoves d d'"
proof -
  obtain st where st: "stateOf owner thread (pbStates d) = Some st" and v: "version = srVersion st" "cursor = srCursor st"
    using assms by (auto simp: checkpoint_def stateForUpdate_def split: option.splits if_splits)
  have "d' = d \<or> (\<exists>required. writeSnapshot cod owner thread (srVersion st) (srCursor st) snapshot at1 required d = Inr d')"
    using assms by (auto simp: checkpoint_def stateForUpdate_def st v bindE_Inr_iff split: prod.splits if_splits)
  then show ?thesis using protocolMove.snapshotted [OF st] by (auto intro: protocolMoves_one)
qed

lemma stateOf_row:
  assumes "statesConsistent ss" "s \<in> set ss"
  shows "stateOf (srOwner s) (srThread s) ss = Some s"
proof (cases "stateOf (srOwner s) (srThread s) ss")
  case None
  then show ?thesis using assms(2) by (auto simp: stateOf_def find_None_iff)
next
  case (Some s')
  then show ?thesis using stateOf_Some [OF Some] assms keys_inj [of srThread ss s' s] by (simp add: statesConsistent_def)
qed

lemma saveSnapshot_moves:
  assumes "protocolConsistent d" "saveSnapshot cod owner thread version cursor snapshot at1 d = Inr d'"
  shows "protocolMoves d d'"
proof -
  obtain s where s: "s \<in> set (pbStates d)" "srOwner s = owner" "srThread s = thread" "srVersion s = version" "srCursor s = cursor"
    and w: "writeSnapshot cod owner thread version cursor snapshot at1 False d = Inr d'"
    using assms(2) by (auto simp: saveSnapshot_def exists_row_iff split: if_splits)
  have "stateOf owner thread (pbStates d) = Some s" using stateOf_row [OF consistent_states [OF assms(1)] s(1)] s by simp
  from protocolMove.snapshotted [OF this] w s show ?thesis by (auto intro: protocolMoves_one)
qed

subsection \<open>Completion\<close>

text \<open>Completing the command a transaction read: it is the only row the update touches.\<close>

lemma complete_moves:
  assumes "protocolConsistent d" "c \<in> set (pbCommands d)" "cdThread c = thread" "cdId c = i" "cdState c = CommandAdmitted"
    and "\<And>x. sameCommandKey x (f x) \<and> cdState (f x) = CommandCompleted"
    and "updateCommand thread i f d = Inr d'"
  shows "protocolMoves d d'"
proof (rule updateCommand_moves [OF _ assms(7)])
  fix x
  assume "x \<in> set (pbCommands d)" "cdThread x = thread" "cdId x = i"
  then have "x = c" using command_unique [OF assms(1)] assms(2,3,4) by blast
  then show "commandMoves d x (f x)" using assms(5,6) by (simp add: commandMoves_def)
qed

lemma protocolMoves_consistent:
  assumes "protocolConsistent d" "protocolMoves d d'"
  shows "protocolConsistent d'"
proof -
  have step: "protocolMove a b \<Longrightarrow> protocolConsistent b" for a b :: "('a, 'b) protocol_db"
    by (induction rule: protocolMove.induct) (auto dest: writeSnapshot_frame(1))
  from assms(2) show ?thesis unfolding protocolMoves_def
    by (induction rule: rtranclp_induct) (use assms(1) step in auto)
qed

lemma find_ownedD:
  assumes "find (ownedCommand owner thread i) cs = Some c"
  shows "c \<in> set cs" "cdOwner c = owner" "cdThread c = thread" "cdId c = i"
  using assms by (auto simp: find_Some_iff ownedCommand_def)

lemma completeCommand_moves:
  assumes ok: "protocolConsistent d"
    and run: "completeCommand cod owner thread i token result events snapshot at1 now d = Inr (r, d')"
  shows "protocolMoves d d'"
proof -
  obtain st where st: "stateOf owner thread (pbStates d) = Some st"
    using run by (auto simp: completeCommand_def stateForUpdate_def split: option.splits)
  obtain c where c: "find (ownedCommand owner thread i) (pbCommands d) = Some c"
    using run st by (auto simp: completeCommand_def stateForUpdate_def split: option.splits)
  show ?thesis
  proof (cases "cdState c = CommandCompleted")
    case True
    then show ?thesis using run st c by (simp add: completeCommand_def stateForUpdate_def)
  next
    case False
    have act: "claimActive (Some token) now c"
      using run False by (rule_tac ccontr) (simp add: completeCommand_def stateForUpdate_def st c)
    obtain rows d1 d2 d3 cursor where w: "writeEvents cod owner thread (srVersion st) (srCursor st + 1) events at1 d = Inr (rows, d1)"
      and cursor: "cursor = (if rows = [] then srCursor st else erwCursor (last rows))"
      and d2: "(if events = [] then Inr d1 else setCursor owner thread cursor d1) = Inr d2"
      and d3: "writeDueSnapshot cod owner thread (srVersion st) cursor snapshot at1 d2 = Inr d3"
      and d4: "updateCommand thread i (completedRow result cursor at1) d3 = Inr d'"
      using run
      by (simp only: completeCommand_def stateForUpdate_def st c option.case False act if_False not_True_eq_False Let_def
          bindE_Inr_iff split_paired_Ex prod.case) blast
    have m: "protocolMoves d d3" "pbCommands d3 = pbCommands d" using logged_moves [OF st w cursor d2 d3] by simp_all
    have "protocolMoves d3 d'"
    proof (rule complete_moves [OF protocolMoves_consistent [OF ok m(1)] _ _ _ _ _ d4])
      show "c \<in> set (pbCommands d3)" "cdThread c = thread" "cdId c = i" using find_ownedD [OF c] m(2) by simp_all
      show "cdState c = CommandAdmitted" using False by (cases "cdState c") simp_all
    qed (simp add: sameCommandKey_def completedRow_def)
    then show ?thesis by (rule protocolMoves_trans [OF m(1)])
  qed
qed

subsection \<open>Prompts\<close>

lemma elsewhere_moves:
  assumes "protocolConsistent d"
  shows "protocolMoves d (d\<lparr>pbTurns := ts, pbProductThreads := ps\<rparr>)"
proof (rule protocolMoves_one, rule protocolMove.elsewhere [OF ticketsFollow_more [OF subset_refl]])
  show "d\<lparr>pbTurns := ts, pbProductThreads := ps\<rparr> = d\<lparr>pbTickets := pbTickets d, pbTurns := ts, pbProductThreads := ps\<rparr>" by simp
  show "protocolConsistent (d\<lparr>pbTurns := ts, pbProductThreads := ps\<rparr>)" using assms by (simp add: protocolConsistent_def)
qed

lemma inTurns_frame: "inTurns f d = Inr (x, d') \<Longrightarrow> d' = d\<lparr>pbTurns := pbTurns d'\<rparr>"
  by (auto simp: inTurns_def split: sum.splits)

lemma intoTurns_frame: "intoTurns f d = Inr d' \<Longrightarrow> d' = d\<lparr>pbTurns := pbTurns d'\<rparr>"
  by (auto simp: intoTurns_def split: sum.splits)

text \<open>The tables of the protocol are left alone.\<close>

definition onlyTurns :: "('e, 's) protocol_db \<Rightarrow> ('e, 's) protocol_db \<Rightarrow> bool" where
  "onlyTurns d d' \<longleftrightarrow> d' = d\<lparr>pbTurns := pbTurns d', pbProductThreads := pbProductThreads d'\<rparr>"

lemma onlyTurns_turns: "d' = d\<lparr>pbTurns := pbTurns d'\<rparr> \<Longrightarrow> onlyTurns d d'"
  unfolding onlyTurns_def by (metis protocol_db.surjective protocol_db.update_convs(9,10))

lemma onlyTurns_trans: "onlyTurns a b \<Longrightarrow> onlyTurns b c \<Longrightarrow> onlyTurns a c"
  unfolding onlyTurns_def by (cases a; cases b; cases c) simp

lemma onlyTurns_moves: "protocolConsistent d \<Longrightarrow> onlyTurns d d' \<Longrightarrow> protocolMoves d d'"
  unfolding onlyTurns_def using elsewhere_moves by metis

lemma onlyTurns_same:
  assumes "onlyTurns d d'"
  shows "pbStates d' = pbStates d" "pbCommands d' = pbCommands d" "pbAuthority d' = pbAuthority d"
proof -
  have d': "d' = d\<lparr>pbTurns := pbTurns d', pbProductThreads := pbProductThreads d'\<rparr>" using assms by (simp only: onlyTurns_def)
  show "pbStates d' = pbStates d" "pbCommands d' = pbCommands d" "pbAuthority d' = pbAuthority d" by (subst d', simp)+
qed

lemma admitTurn_frame:
  assumes "admitTurn i d = Inr (adm, d')"
  shows "onlyTurns d d'"
proof -
  let ?st = "if exists_row (occupies (apThread i)) (turns (pbTurns d)) then AdmissionQueued else AdmissionAccepted"
  obtain row d1 where d1: "inTurns (insertTurn (promptRow i ?st)) d = Inr (row, d1)"
    using assms by (simp only: admitTurn_def Let_def bindE_Inr_iff split_paired_Ex prod.case) blast
  obtain d2 where d2: "intoTurns (insertQueueIfMissing (apThread i)) d1 = Inr d2"
    using assms by (simp only: admitTurn_def Let_def d1 bindE.simps prod.case bindE_Inr_iff) blast
  have b: "onlyTurns d d2"
    using onlyTurns_trans [OF onlyTurns_turns [OF inTurns_frame [OF d1]] onlyTurns_turns [OF intoTurns_frame [OF d2]]] .
  show ?thesis
  proof (cases "?st = AdmissionAccepted")
    case True
    then have "d' = d2" using assms unfolding admitTurn_def Let_def d1 bindE.simps prod.case d2 by (simp split: if_splits)
    then show ?thesis using b by simp
  next
    case False
    then obtain q d3 where d3: "inTurns (updateQueue (\<lambda>q. queuedCount q < apCapacity i) (apThread i) (addQueued 1)) d2 = Inr (q, d3)"
      and "d' = d3"
      using assms unfolding admitTurn_def Let_def d1 bindE.simps prod.case d2
      by (auto simp: bindE_Inr_iff split: option.splits if_splits)
    then show ?thesis using onlyTurns_trans [OF b onlyTurns_turns [OF inTurns_frame [OF d3]]] by simp
  qed
qed

lemma renameProvisionalTitle_frame:
  assumes "renameProvisionalTitle i d = (r, d')"
  shows "onlyTurns d d'"
  using assms by (auto simp: renameProvisionalTitle_def onlyTurns_def Let_def split: option.splits if_splits)

lemma stagePrompt_moves:
  assumes ok: "protocolConsistent d" and st: "stateOf (apOwner i) (apThread i) (pbStates d) = Some st"
    and c: "c \<in> set (pbCommands d)" "cdThread c = apThread i" "cdId c = apCommand i" "cdState c = CommandAdmitted"
    and run: "stagePrompt cod i stage st c d = Inr (r, d')"
  shows "protocolMoves d d'"
proof -
  obtain renamed d1 where d1: "renameProvisionalTitle i d = (renamed, d1)" by (cases "renameProvisionalTitle i d")
  have fresh: "\<not> exists_row (\<lambda>r. rowId r = apTurn i) (turns (pbTurns d1))"
    using run by (rule_tac notI) (simp add: stagePrompt_def d1)
  obtain adm d2 where d2: "admitTurn i d1 = Inr (adm, d2)"
    using run by (simp only: stagePrompt_def d1 fresh if_False prod.case bindE_Inr_iff split_paired_Ex) blast
  obtain link where link: "stage = Inr link"
    using run by (simp only: stagePrompt_def d1 d2 fresh if_False prod.case bindE_Inr_iff split_paired_Ex) blast
  have named: "\<not> (linkTurnId link \<noteq> apTurn i \<or> linkThreadId link \<noteq> apThread i)"
    using run by (rule_tac notI) (simp only: stagePrompt_def d1 d2 link fresh if_False if_True prod.case bindE.simps sum.distinct)
  obtain d3 rows d4 d5 where d3: "intoTurns (updateTurns (\<lambda>r. rowId r = apTurn i) (\<lambda>r. r\<lparr>executionLink := Some link\<rparr>)) d2 = Inr d3"
    and w: "writeEvents cod (apOwner i) (apThread i) (srVersion st) (srCursor st + 1) (promptEvents cod i adm renamed)
        (apCompletedAt i) d3 = Inr (rows, d4)"
    and d5: "setCursor (apOwner i) (apThread i) (erwCursor (last rows)) d4 = Inr d5"
    and d6: "updateCommand (apThread i) (apCommand i) (admittedPrompt i adm (erwCursor (last rows))) d5 = Inr d'"
    using run
    by (simp only: stagePrompt_def d1 d2 link named fresh if_False prod.case bindE.simps Let_def bindE_Inr_iff split_paired_Ex) blast
  have turns: "onlyTurns d d3"
    using onlyTurns_trans [OF onlyTurns_trans [OF renameProvisionalTitle_frame [OF d1] admitTurn_frame [OF d2]]
        onlyTurns_turns [OF intoTurns_frame [OF d3]]] .
  note same = onlyTurns_same [OF turns]
  have "promptEvents cod i adm renamed \<noteq> []" by (simp add: promptEvents_def)
  moreover have "stateOf (apOwner i) (apThread i) (pbStates d3) = Some st" using st same by simp
  ultimately have m: "protocolMoves d3 d5" "pbCommands d5 = pbCommands d3" using appended_moves [OF _ _ w d5] by simp_all
  have m: "protocolMoves d d5" "pbCommands d5 = pbCommands d" using protocolMoves_trans [OF onlyTurns_moves [OF ok turns] m(1)] m(2) same by simp_all
  have "protocolMoves d5 d'"
    by (rule complete_moves [OF protocolMoves_consistent [OF ok m(1)] _ c(2-4) _ d6])
      (simp_all add: c m(2) sameCommandKey_def admittedPrompt_def)
  then show ?thesis by (rule protocolMoves_trans [OF m(1)])
qed

lemma applyPrompt_moves:
  assumes ok: "protocolConsistent d" and run: "applyPrompt cod i stage now d = Inr (r, d')"
  shows "protocolMoves d d'"
proof -
  obtain st where st: "stateOf (apOwner i) (apThread i) (pbStates d) = Some st"
    using run by (auto simp: applyPrompt_def stateForUpdate_def split: if_splits option.splits)
  obtain c where c: "find (ownedCommand (apOwner i) (apThread i) (apCommand i)) (pbCommands d) = Some c"
    using run st by (auto simp: applyPrompt_def stateForUpdate_def split: if_splits option.splits)
  note found = find_ownedD [OF c]
  show ?thesis
  proof (cases "cdState c = CommandCompleted")
    case True
    then have "d' = d" using run st c by (auto simp: applyPrompt_def stateForUpdate_def bindE_Inr_iff split: if_splits)
    then show ?thesis by simp
  next
    case False
    then have adm: "cdState c = CommandAdmitted" by (cases "cdState c") simp_all
    show ?thesis
    proof (cases "cancellationOf (apOwner i) (apThread i) (apCommand i) d")
      case (Some x)
      then have upd: "updateCommand (apThread i) (apCommand i) (cancelledRow (cdId x) (srCursor st) (apCompletedAt i)) d = Inr d'"
        using run st c False by (auto simp: applyPrompt_def stateForUpdate_def bindE_Inr_iff split: if_splits)
      show ?thesis
        by (rule complete_moves [OF ok found(1,3,4) adm _ upd]) (simp add: sameCommandKey_def cancelledRow_def)
    next
      case None
      then have "stagePrompt cod i stage st c d = Inr (r, d')"
        using run st c False by (auto simp: applyPrompt_def stateForUpdate_def split: if_splits)
      then show ?thesis by (rule stagePrompt_moves [OF ok st found(1,3,4) adm])
    qed
  qed
qed

lemma commandOfD: "commandOf thread i d = Some c \<Longrightarrow> c \<in> set (pbCommands d) \<and> cdThread c = thread \<and> cdId c = i"
  by (auto simp: commandOf_def find_Some_iff)

lemma cancelTargetCommand_moves:
  assumes ok: "protocolConsistent d" and run: "cancelTargetCommand i st d = Inr (r, d')"
  shows "protocolMoves d d'"
proof (cases "commandOf (cnThread i) (cnTarget i) d")
  case None
  then show ?thesis using run by (simp add: cancelTargetCommand_def)
next
  case (Some t)
  note found = commandOfD [OF Some]
  show ?thesis
  proof (cases "cdState t")
    case CommandCompleted
    then have "d' = d" using run Some by (auto simp: cancelTargetCommand_def split: if_splits)
    then show ?thesis by simp
  next
    case CommandAdmitted
    then have upd: "updateCommand (cnThread i) (cnTarget i) (cancelledRow (cnCommand i) (srCursor st) (cnAt i)) d = Inr d'"
      using run Some by (auto simp: cancelTargetCommand_def bindE_Inr_iff split: if_splits)
    show ?thesis
      by (rule complete_moves [OF ok _ _ _ CommandAdmitted _ upd]) (use found in \<open>simp_all add: sameCommandKey_def cancelledRow_def\<close>)
  qed
qed

lemma guard_Inr: "(if b then Inl e else m) = Inr y \<longleftrightarrow> \<not> b \<and> m = Inr y"
  by simp

lemma cancelPrompt_moves:
  assumes ok: "protocolConsistent d" and run: "cancelPrompt i now d = Inr (r, d')"
  shows "protocolMoves d d'"
proof -
  have access: "requireThreadAccess (pbAuthority d) (cnOwner i) (cnThread i) (cnActor i) ThreadControl (cnAt i) = Inr ()"
    using run by (cases "requireThreadAccess (pbAuthority d) (cnOwner i) (cnThread i) (cnActor i) ThreadControl (cnAt i)")
      (simp_all add: cancelPrompt_def)
  obtain st where st: "stateOf (cnOwner i) (cnThread i) (pbStates d) = Some st"
    using run access by (auto simp: cancelPrompt_def stateForUpdate_def split: option.splits)
  obtain c where c: "commandOf (cnThread i) (cnCommand i) d = Some c"
    using run access st by (auto simp: cancelPrompt_def stateForUpdate_def split: option.splits)
  let ?own = "cnClaim i = None \<and> cdState c = CommandAdmitted"
  obtain d1 where d1: "(if ?own then updateCommand (cnThread i) (cnCommand i) (appliedCancel (srCursor st) (cnAt i)) d else Inr d) = Inr d1"
    and rest: "cancelTargetCommand i st d1 = Inr (r, d')"
    using run
    by (simp only: cancelPrompt_def access bindE.simps stateForUpdate_def st c option.case guard_Inr bindE_Inr_iff) blast
  have "protocolMoves d d1"
  proof (cases ?own)
    case True
    then have upd: "updateCommand (cnThread i) (cnCommand i) (appliedCancel (srCursor st) (cnAt i)) d = Inr d1" using d1 by simp
    show ?thesis
      by (rule complete_moves [OF ok, where c = c, OF _ _ _ _ _ upd])
        (use commandOfD [OF c] True in \<open>simp_all add: sameCommandKey_def appliedCancel_def\<close>)
  next
    case False
    then have "(Inr d :: persistence_error + ('a, 'b) protocol_db) = Inr d1" using d1 by (simp only: if_False)
    then show ?thesis by simp
  qed
  then show ?thesis using protocolMoves_trans cancelTargetCommand_moves [OF protocolMoves_consistent [OF ok] rest] by blast
qed

subsection \<open>Connections\<close>

lemma acknowledgeCursor_moves:
  assumes "acknowledgeCursor owner thread a cursor at1 d = Inr (r, d')"
  shows "protocolMoves d d'"
proof -
  have access: "requireThreadAccess (pbAuthority d) owner thread a ThreadView at1 = Inr ()"
    using assms by (cases "requireThreadAccess (pbAuthority d) owner thread a ThreadView at1") (simp_all add: acknowledgeCursor_def)
  obtain st where st: "find (\<lambda>s. srOwner s = owner \<and> srThread s = thread \<and> cursor \<le> srCursor s) (pbStates d) = Some st"
    using assms access by (auto simp: acknowledgeCursor_def split: option.splits)
  obtain d1 where d1: "enforceProtocol (d\<lparr>pbCursors := acknowledge owner thread (actorClient a) cursor at1 (pbCursors d)\<rparr>) = Inr d1"
    using assms by (simp only: acknowledgeCursor_def access bindE.simps st option.case bindE_Inr_iff) blast
  have d2: "enforceProtocol (compact owner thread d1) = Inr d'"
    using assms by (auto simp: acknowledgeCursor_def access st d1 bindE_Inr_iff split: option.splits)
  have "protocolMove d d1"
  proof (rule protocolMove.acknowledged)
    show "st \<in> set (pbStates d)" "srOwner st = owner" "srThread st = thread" "cursor \<le> srCursor st"
      using st by (auto simp: find_Some_iff)
  qed (use d1 in \<open>auto simp: enforceProtocol_Inr\<close>)
  moreover have "protocolMove d1 d'" using d2 by (intro protocolMove.compacted) (auto simp: enforceProtocol_Inr)
  ultimately show ?thesis using protocolMoves_trans protocolMoves_one by blast
qed

lemma ticket_moves:
  assumes "enforceProtocol (d\<lparr>pbTickets := ks\<rparr>) = Inr d'" "ticketsFollow (pbTickets d) ks"
  shows "protocolMoves d d'"
proof (rule protocolMoves_one, rule protocolMove.elsewhere [OF assms(2)])
  show "d' = d\<lparr>pbTickets := ks, pbTurns := pbTurns d, pbProductThreads := pbProductThreads d\<rparr>" "protocolConsistent d'"
    using assms(1) by (auto simp: enforceProtocol_Inr)
qed

lemma issueTicket_moves: "issueTicket b digest at1 d = Inr d' \<Longrightarrow> protocolMoves d d'"
  unfolding issueTicket_def by (rule ticket_moves) (auto intro: ticketsFollow_more)

lemma redeemTicket_moves:
  assumes "redeemTicket digest audience at1 d = Inr (r, d')"
  shows "protocolMoves d d'"
proof -
  have "enforceProtocol (d\<lparr>pbTickets := update_where (ticketUsable (pbAuthority d) digest audience at1)
      (\<lambda>k. k\<lparr>tkConsumedAt := Some at1\<rparr>) (pbTickets d)\<rparr>) = Inr d'"
    using assms by (auto simp: redeemTicket_def Let_def bindE_Inr_iff split: option.splits)
  then show ?thesis by (rule ticket_moves) (simp add: ticketsFollow_update)
qed

lemma revokeTicket_moves: "revokeTicket i now d = Inr d' \<Longrightarrow> protocolMoves d d'"
  unfolding revokeTicket_def by (erule ticket_moves, rule ticketsFollow_update) simp

text \<open>Every operation of the store is a sequence of moves.\<close>

lemma protocolStep_moves:
  assumes ok: "protocolConsistent d" and run: "protocolStep cod opn d = Inr d'"
  shows "protocolMoves d d'"
proof -
  obtain now p where opn: "opn = (now, p)" by (cases opn)
  show ?thesis
    using run unfolding opn
    by (cases p)
      (auto simp: dropAnswer_Inr dest: initializeThread_moves admit_moves claimNextCommand_moves [OF ok]
        renewCommandClaim_moves releaseCommandClaim_moves completeCommand_moves [OF ok] applyPrompt_moves [OF ok]
        cancelPrompt_moves [OF ok] appendEvents_moves checkpoint_moves saveSnapshot_moves [OF ok] acknowledgeCursor_moves
        issueTicket_moves redeemTicket_moves revokeTicket_moves)
qed

end
