(* ===== verification/Protocol_Invariant.thy ===== *)
theory Protocol_Invariant
  imports Protocol_Moves
begin

text \<open>
  What every move of the thread protocol keeps: the log of a thread has no holes from where it
  was compacted up to its cursor and is covered by a snapshot below; the commands of a thread
  have consecutive versions; and a claim is only given in the order of the lane.
\<close>

section \<open>The invariant\<close>

definition logOf :: "state_row \<Rightarrow> ('e, 's) protocol_db \<Rightarrow> 'e event_row set" where
  "logOf st d = {e \<in> set (pbEvents d). erwOwner e = srOwner st \<and> erwThread e = srThread st}"

definition snapshotsOf :: "state_row \<Rightarrow> ('e, 's) protocol_db \<Rightarrow> 's snapshot_row set" where
  "snapshotsOf st d = {w \<in> set (pbSnapshots d). swOwner w = srOwner st \<and> swThread w = srThread st}"

definition commandsOf :: "state_row \<Rightarrow> ('e, 's) protocol_db \<Rightarrow> command_row set" where
  "commandsOf st d = {c \<in> set (pbCommands d). cdOwner c = srOwner st \<and> cdThread c = srThread st}"

text \<open>The log was compacted up to a floor: the events are those above it, and a snapshot covers it.\<close>

definition logAbove :: "int \<Rightarrow> state_row \<Rightarrow> ('e, 's) protocol_db \<Rightarrow> bool" where
  "logAbove f st d \<longleftrightarrow> 0 \<le> f \<and> f \<le> srCursor st \<and> erwCursor ` logOf st d = {f<..srCursor st} \<and>
     (\<forall>e \<in> logOf st d. erwSequence e = erwCursor e) \<and> (f = 0 \<or> snapshotsOf st d \<noteq> {}) \<and>
     (\<forall>w \<in> snapshotsOf st d. f \<le> swCursor w \<and> swCursor w \<le> srCursor st \<and> swVersion w \<le> srVersion st)"

definition laneOk :: "state_row \<Rightarrow> ('e, 's) protocol_db \<Rightarrow> bool" where
  "laneOk st d \<longleftrightarrow> cdVersion ` commandsOf st d = {0<..srVersion st}"

definition claimsOk1 :: "('e, 's) protocol_db \<Rightarrow> bool" where
  "claimsOk1 d \<longleftrightarrow> (\<forall>c \<in> set (pbCommands d). cdState c = CommandAdmitted \<and> cdClaim c \<noteq> None \<longrightarrow>
     (\<forall>p \<in> set (pbCommands d). \<not> precedes p c))"

definition protocolOk :: "('e, 's) protocol_db \<Rightarrow> bool" where
  "protocolOk d \<longleftrightarrow> protocolConsistent d \<and> (\<forall>st \<in> set (pbStates d). (\<exists>f. logAbove f st d) \<and> laneOk st d) \<and> claimsOk1 d"

lemma protocolOkD:
  assumes "protocolOk d"
  shows "protocolConsistent d" "\<And>st. st \<in> set (pbStates d) \<Longrightarrow> \<exists>f. logAbove f st d" "\<And>st. st \<in> set (pbStates d) \<Longrightarrow> laneOk st d"
    "claimsOk1 d"
  using assms by (auto simp: protocolOk_def)

text \<open>A thread has one state.\<close>

lemma state_unique:
  assumes "protocolConsistent d" "s \<in> set (pbStates d)" "s' \<in> set (pbStates d)" "srThread s = srThread s'"
  shows "s = s'"
  using assms keys_inj [of srThread "pbStates d"] by (simp add: protocolConsistent_def statesConsistent_def)

lemma stateOf_iff:
  assumes "protocolConsistent d"
  shows "stateOf owner thread (pbStates d) = Some st \<longleftrightarrow> st \<in> set (pbStates d) \<and> srOwner st = owner \<and> srThread st = thread"
  using stateOf_Some [of owner thread "pbStates d" st] stateOf_row [OF consistent_states [OF assms], of st] by blast

text \<open>Rows of a thread that is not open do not exist.\<close>

lemma unopened_rows:
  assumes "protocolConsistent d" "srThread st \<notin> srThread ` set (pbStates d)"
  shows "logOf st d = {}" "snapshotsOf st d = {}" "commandsOf st d = {}"
proof -
  have own: "\<not> ownsThread (pbStates d) x (srThread st)" for x
    using assms(2) by (auto simp: ownsThread_def exists_row_iff image_iff)
  show "logOf st d = {}" "snapshotsOf st d = {}" "commandsOf st d = {}"
    using assms(1) own
    by (auto simp: protocolConsistent_def logOf_def eventsConsistent_def snapshotsOf_def snapshotsConsistent_def
        commandsOf_def commandsConsistent_def list_all_iff)
qed

section \<open>Frames\<close>

text \<open>A move that changes none of a thread's rows keeps what is known of it.\<close>

lemma logAbove_frame:
  "logOf st d' = logOf st d \<Longrightarrow> snapshotsOf st d' = snapshotsOf st d \<Longrightarrow> logAbove f st d' = logAbove f st d"
  by (simp add: logAbove_def)

lemma laneOk_frame: "commandsOf st d' = commandsOf st d \<Longrightarrow> laneOk st d' = laneOk st d"
  by (simp add: laneOk_def)

lemma rows_frame:
  "pbEvents d' = pbEvents d \<Longrightarrow> logOf st d' = logOf st d"
  "pbSnapshots d' = pbSnapshots d \<Longrightarrow> snapshotsOf st d' = snapshotsOf st d"
  "pbCommands d' = pbCommands d \<Longrightarrow> commandsOf st d' = commandsOf st d"
  by (simp_all add: logOf_def snapshotsOf_def commandsOf_def)

lemma claimsOk1_frame: "pbCommands d' = pbCommands d \<Longrightarrow> claimsOk1 d' = claimsOk1 d"
  by (simp add: claimsOk1_def)

section \<open>Moves\<close>

lemma opened_ok:
  assumes ok: "protocolOk d" and fresh: "thread \<notin> srThread ` set (pbStates d)"
    and d': "d' = d\<lparr>pbStates := pbStates d @ [\<lparr>srOwner = owner, srThread = thread, srVersion = 0, srCursor = 0\<rparr>]\<rparr>"
    and "protocolConsistent d'"
  shows "protocolOk d'"
proof -
  let ?new = "\<lparr>srOwner = owner, srThread = thread, srVersion = 0, srCursor = 0\<rparr>"
  have none: "logOf ?new d = {}" "snapshotsOf ?new d = {}" "commandsOf ?new d = {}"
    using unopened_rows [OF protocolOkD(1) [OF ok], of ?new] fresh by simp_all
  have rows: "logOf st d' = logOf st d" "snapshotsOf st d' = snapshotsOf st d" "commandsOf st d' = commandsOf st d" for st
    by (rule rows_frame, simp add: d')+
  have "\<exists>f. logAbove f st d'" "laneOk st d'" if "st \<in> set (pbStates d')" for st
  proof -
    have "set (pbStates d') = insert ?new (set (pbStates d))" by (simp add: d')
    with that consider "st \<in> set (pbStates d)" | "st = ?new" by blast
    then have "(\<exists>f. logAbove f st d') \<and> laneOk st d'"
    proof cases
      case 1
      then show ?thesis using protocolOkD(2,3) [OF ok 1] by (simp add: logAbove_frame [OF rows(1,2)] laneOk_frame [OF rows(3)])
    next
      case 2
      then have "logAbove 0 st d'" "laneOk st d'" using none by (simp_all add: logAbove_def laneOk_def rows)
      then show ?thesis by blast
    qed
    then show "\<exists>f. logAbove f st d'" "laneOk st d'" by simp_all
  qed
  then show ?thesis
    using assms(4) protocolOkD(4) [OF ok] claimsOk1_frame [of d' d] d' by (simp add: protocolOk_def)
qed

text \<open>Changing a state row in its version or cursor only.\<close>

lemma changed_state:
  assumes "st' \<in> set (update_where (\<lambda>s. srOwner s = owner \<and> srThread s = thread) f ss)"
    and "\<And>s. srOwner (f s) = srOwner s \<and> srThread (f s) = srThread s"
  obtains s where "s \<in> set ss" "srOwner st' = srOwner s" "srThread st' = srThread s"
    "st' = (if srOwner s = owner \<and> srThread s = thread then f s else s)"
proof -
  from assms(1) obtain s where "s \<in> set ss" "st' = (if srOwner s = owner \<and> srThread s = thread then f s else s)"
    by (auto simp: update_where_def)
  then show ?thesis using that assms(2) by (simp split: if_splits)
qed

lemma rows_same:
  assumes "srOwner s = srOwner t" "srThread s = srThread t"
  shows "logOf s d = logOf t d" "snapshotsOf s d = snapshotsOf t d" "commandsOf s d = commandsOf t d"
  using assms by (simp_all add: logOf_def snapshotsOf_def commandsOf_def)

lemma owned_command:
  assumes "protocolConsistent d" "c \<in> set (pbCommands d)"
  obtains s where "s \<in> set (pbStates d)" "c \<in> commandsOf s d"
  using assms by (auto simp: protocolConsistent_def commandsConsistent_def list_all_iff ownsThread_def exists_row_iff commandsOf_def)

lemma command_version:
  assumes "protocolOk d" "c \<in> set (pbCommands d)" "s \<in> set (pbStates d)" "srThread s = cdThread c"
  shows "0 < cdVersion c" "cdVersion c \<le> srVersion s"
proof -
  obtain t where t: "t \<in> set (pbStates d)" "c \<in> commandsOf t d" using owned_command [OF protocolOkD(1) [OF assms(1)] assms(2)] .
  then have "t = s" using state_unique [OF protocolOkD(1) [OF assms(1)] t(1) assms(3)] assms(4) by (simp add: commandsOf_def)
  then have "cdVersion c \<in> {0<..srVersion s}" using protocolOkD(3) [OF assms(1,3)] t(2) by (auto simp: laneOk_def)
  then show "0 < cdVersion c" "cdVersion c \<le> srVersion s" by simp_all
qed

lemma admitted_ok:
  assumes ok: "protocolOk d" and st: "stateOf (ciOwner i) (ciThread i) (pbStates d) = Some st"
    and d': "d' = d\<lparr>pbCounters := oc', pbCommands := pbCommands d @ [admittedRow i (srVersion st) n],
        pbStates := update_where (\<lambda>s. srOwner s = ciOwner i \<and> srThread s = ciThread i) (\<lambda>s. s\<lparr>srVersion := srVersion st + 1\<rparr>) (pbStates d)\<rparr>"
    and "protocolConsistent d'"
  shows "protocolOk d'"
proof -
  let ?row = "admittedRow i (srVersion st) n"
  note found = stateOf_Some [OF st]
  have v: "0 \<le> srVersion st"
    using consistent_states [OF protocolOkD(1) [OF ok]] found(1) by (auto simp: statesConsistent_def list_all_iff)
  have states: "(\<exists>f. logAbove f s' d') \<and> laneOk s' d'" if "s' \<in> set (pbStates d')" for s'
  proof -
    from that have "s' \<in> set (update_where (\<lambda>s. srOwner s = ciOwner i \<and> srThread s = ciThread i) (\<lambda>s. s\<lparr>srVersion := srVersion st + 1\<rparr>) (pbStates d))"
      by (simp add: d')
    then obtain s where s: "s \<in> set (pbStates d)" "srOwner s' = srOwner s" "srThread s' = srThread s"
      "s' = (if srOwner s = ciOwner i \<and> srThread s = ciThread i then s\<lparr>srVersion := srVersion st + 1\<rparr> else s)"
      by (rule changed_state) simp
    have rows: "logOf s' d' = logOf s d" "snapshotsOf s' d' = snapshotsOf s d" using s(2,3) by (simp_all add: logOf_def snapshotsOf_def d')
    obtain f where "logAbove f s d" using protocolOkD(2) [OF ok s(1)] ..
    moreover have "srCursor s' = srCursor s \<and> srVersion s \<le> srVersion s'"
      using s(4) state_unique [OF protocolOkD(1) [OF ok] s(1) found(1)] found(3) by auto
    ultimately have "logAbove f s' d'" by (auto simp: logAbove_def rows)
    moreover have "laneOk s' d'"
    proof (cases "srOwner s = ciOwner i \<and> srThread s = ciThread i")
      case True
      then have "s = st" using state_unique [OF protocolOkD(1) [OF ok] s(1) found(1)] found(3) by simp
      moreover have "commandsOf s' d' = insert ?row (commandsOf s d)"
        using True s(2,3) by (auto simp: commandsOf_def d' admittedRow_def)
      ultimately show ?thesis using protocolOkD(3) [OF ok s(1)] True s(4) v by (auto simp: laneOk_def admittedRow_def)
    next
      case False
      then have "commandsOf s' d' = commandsOf s d" using s(2,3) by (auto simp: commandsOf_def d' admittedRow_def)
      moreover have "s' = s" using s(4) False by (simp only: if_False)
      ultimately show ?thesis using protocolOkD(3) [OF ok s(1)] by (simp add: laneOk_def)
    qed
    ultimately show ?thesis by blast
  qed
  have "claimsOk1 d'"
    unfolding claimsOk1_def
  proof (intro ballI impI, elim conjE)
    fix c p
    assume c: "c \<in> set (pbCommands d')" "cdState c = CommandAdmitted" "cdClaim c \<noteq> None" and p: "p \<in> set (pbCommands d')"
    have cs: "set (pbCommands d') = insert ?row (set (pbCommands d))" by (simp add: d')
    have c1: "c \<in> set (pbCommands d)" using c(1,3) cs by (auto simp: admittedRow_def)
    show "\<not> precedes p c"
    proof (cases "p = ?row")
      case True
      show ?thesis
      proof
        assume pre: "precedes p c"
        then have "srThread st = cdThread c" using True found(3) by (simp add: precedes_def admittedRow_def)
        from command_version(2) [OF ok c1 found(1) this] show False using pre True by (simp add: precedes_def admittedRow_def)
      qed
    next
      case False
      then show ?thesis using protocolOkD(4) [OF ok] c1 c(2,3) p cs by (auto simp: claimsOk1_def)
    qed
  qed
  then show ?thesis using states assms(4) by (simp add: protocolOk_def)
qed

lemma commandMoves_same: "commandMoves d c c' \<Longrightarrow> sameCommandKey c c'"
  by (auto simp: commandMoves_def sameCommandKey_def)

lemma changed_ok:
  assumes ok: "protocolOk d" and g: "\<forall>c \<in> set (pbCommands d). commandMoves d c (g c)"
    and d': "d' = d\<lparr>pbCommands := map g (pbCommands d)\<rparr>" and "protocolConsistent d'"
  shows "protocolOk d'"
proof -
  have same: "sameCommandKey c (g c)" if "c \<in> set (pbCommands d)" for c using g that commandMoves_same by blast
  have lane: "laneOk st d'" if "st \<in> set (pbStates d)" for st
  proof -
    have "commandsOf st d' = g ` commandsOf st d" using same by (auto simp: commandsOf_def d' sameCommandKey_def)
    then have "cdVersion ` commandsOf st d' = cdVersion ` commandsOf st d"
      using same by (force simp: commandsOf_def sameCommandKey_def image_iff)
    then show ?thesis using protocolOkD(3) [OF ok that] by (simp add: laneOk_def)
  qed
  have "claimsOk1 d'"
    unfolding claimsOk1_def
  proof (intro ballI impI, elim conjE)
    fix c' p'
    assume c': "c' \<in> set (pbCommands d')" "cdState c' = CommandAdmitted" "cdClaim c' \<noteq> None" and p': "p' \<in> set (pbCommands d')"
    obtain c p where c: "c \<in> set (pbCommands d)" "c' = g c" and p: "p \<in> set (pbCommands d)" "p' = g p" using c'(1) p' by (auto simp: d')
    have m: "commandMoves d c (g c)" "commandMoves d p (g p)" using g c(1) p(1) by auto
    have none: "\<not> precedes p c"
    proof (cases "cdClaim c = None")
      case True
      then have "\<not> exists_row (\<lambda>p. precedes p c) (pbCommands d)" using m(1) c' c(2) by (auto simp: commandMoves_def)
      then show ?thesis using p(1) by (auto simp: exists_row_iff)
    next
      case False
      moreover have "cdState c = CommandAdmitted" using m(1) c' c(2) by (auto simp: commandMoves_def)
      ultimately show ?thesis using protocolOkD(4) [OF ok] c(1) p(1) by (auto simp: claimsOk1_def)
    qed
    have "cdState (g p) = CommandAdmitted \<Longrightarrow> cdState p = CommandAdmitted" using m(2) by (auto simp: commandMoves_def)
    then show "\<not> precedes p' c'"
      using none same [OF c(1)] same [OF p(1)] c(2) p(2) by (auto simp: precedes_def sameCommandKey_def)
  qed
  moreover have "(\<exists>f. logAbove f st d') \<and> laneOk st d'" if "st \<in> set (pbStates d)" for st
    using protocolOkD(2) [OF ok that] lane [OF that] logAbove_frame [OF rows_frame(1,2), of d' d] by (simp add: d')
  ultimately show ?thesis using assms(4) by (simp add: protocolOk_def d')
qed

lemma eventRows_set:
  "e \<in> set (eventRows owner thread version at1 n es) \<Longrightarrow>
    erwOwner e = owner \<and> erwThread e = thread \<and> erwSequence e = erwCursor e"
  by (induction es arbitrary: n) auto

lemma eventRows_cursors: "erwCursor ` set (eventRows owner thread version at1 n es) = {n..<n + int (length es)}"
proof (induction es arbitrary: n)
  case (Cons e es)
  have "{n..<n + int (length (e # es))} = insert n {n + 1..<n + 1 + int (length es)}" by auto
  then show ?case using Cons.IH by simp
qed simp

lemma eventRows_last: "es \<noteq> [] \<Longrightarrow> erwCursor (last (eventRows owner thread version at1 n es)) = n + int (length es) - 1"
proof (induction es arbitrary: n)
  case (Cons e es)
  then show ?case using Cons.IH [of "n + 1"] by (cases "es = []") simp_all
qed simp

lemma appended_ok:
  assumes ok: "protocolOk d" and st: "stateOf owner thread (pbStates d) = Some st" and "es \<noteq> []"
    and rows: "rows = eventRows owner thread version at1 (srCursor st + 1) es"
    and d': "d' = d\<lparr>pbEvents := pbEvents d @ rows,
        pbStates := update_where (\<lambda>s. srOwner s = owner \<and> srThread s = thread) (\<lambda>s. s\<lparr>srCursor := erwCursor (last rows)\<rparr>) (pbStates d)\<rparr>"
    and "protocolConsistent d'"
  shows "protocolOk d'"
proof -
  note found = stateOf_Some [OF st]
  have head: "erwCursor (last rows) = srCursor st + int (length es)" using eventRows_last [OF assms(3)] by (simp add: rows)
  have cursors: "erwCursor ` set rows = {srCursor st<..srCursor st + int (length es)}"
    using eventRows_cursors [of owner thread version at1 "srCursor st + 1" es] by (auto simp: rows)
  have "(\<exists>f. logAbove f s' d') \<and> laneOk s' d'" if "s' \<in> set (pbStates d')" for s'
  proof -
    from that have "s' \<in> set (update_where (\<lambda>s. srOwner s = owner \<and> srThread s = thread) (\<lambda>s. s\<lparr>srCursor := erwCursor (last rows)\<rparr>) (pbStates d))"
      by (simp add: d')
    then obtain s where s: "s \<in> set (pbStates d)" "srOwner s' = srOwner s" "srThread s' = srThread s"
      "s' = (if srOwner s = owner \<and> srThread s = thread then s\<lparr>srCursor := erwCursor (last rows)\<rparr> else s)"
      by (rule changed_state) simp
    obtain f where f: "logAbove f s d" using protocolOkD(2) [OF ok s(1)] ..
    have same: "snapshotsOf s' d' = snapshotsOf s d" "commandsOf s' d' = commandsOf s d"
      using s(2,3) by (simp_all add: snapshotsOf_def commandsOf_def d')
    have lane: "laneOk s' d'" using protocolOkD(3) [OF ok s(1)] s(4) same(2) by (simp add: laneOk_def split: if_splits)
    have "logAbove f s' d'"
    proof (cases "srOwner s = owner \<and> srThread s = thread")
      case True
      then have "s = st" using state_unique [OF protocolOkD(1) [OF ok] s(1) found(1)] found(3) by simp
      moreover have log: "logOf s' d' = logOf s d \<union> set rows"
        using True s(2,3) eventRows_set by (fastforce simp: logOf_def d' rows)
      moreover have "\<forall>e \<in> set rows. erwSequence e = erwCursor e" using eventRows_set by (fastforce simp: rows)
      moreover have "srCursor s' = srCursor st + int (length es)" "srVersion s' = srVersion st" using True s(4) head \<open>s = st\<close> by simp_all
      moreover have "{f<..srCursor st} \<union> {srCursor st<..srCursor st + int (length es)} = {f<..srCursor st + int (length es)}"
        using f \<open>s = st\<close> by (auto simp: logAbove_def)
      moreover have "swCursor w \<le> srCursor st + int (length es)" if "w \<in> snapshotsOf s d" for w
        using f that \<open>s = st\<close> by (force simp: logAbove_def)
      ultimately show ?thesis
        using f cursors unfolding logAbove_def same log image_Un by auto
    next
      case False
      then have "logOf s' d' = logOf s d" using s(2,3) eventRows_set by (fastforce simp: logOf_def d' rows)
      moreover have "s' = s" using s(4) False by (simp only: if_False)
      ultimately show ?thesis using f same(1) by (simp add: logAbove_def)
    qed
    then show ?thesis using lane by blast
  qed
  then show ?thesis
    using assms(6) protocolOkD(4) [OF ok] claimsOk1_frame [of d' d] d' by (simp add: protocolOk_def)
qed

text \<open>What a written snapshot leaves: old rows, or rows at the cursor and version it was written for.\<close>

lemma writeSnapshot_rows:
  assumes "writeSnapshot cod owner thread version cursor s at1 required d = Inr d'" "w' \<in> set (pbSnapshots d')"
  shows "w' \<in> set (pbSnapshots d) \<or> swThread w' = thread \<and> swCursor w' = cursor \<and> swVersion w' = version"
  using assms by (auto simp: writeSnapshot_def Let_def enforceProtocol_Inr set_update_where sameCheckpoint_def split: if_splits)

lemma writeSnapshot_some:
  assumes "writeSnapshot cod owner thread version cursor s at1 required d = Inr d'" "snapshotsOf st d \<noteq> {}"
  shows "snapshotsOf st d' \<noteq> {}"
proof -
  let ?key = "\<lambda>w. (swOwner w, swThread w)"
  have "set (map ?key (pbSnapshots d)) \<subseteq> set (map ?key (pbSnapshots d'))"
  proof (cases "exists_row (sameCheckpoint thread version) (pbSnapshots d)")
    case True
    then have "map ?key (pbSnapshots d') = map ?key (pbSnapshots d)"
      using assms(1) by (auto simp: writeSnapshot_def Let_def enforceProtocol_Inr intro!: map_update_where)
    then show ?thesis by simp
  next
    case False
    then show ?thesis using assms(1) by (auto simp: writeSnapshot_def Let_def enforceProtocol_Inr)
  qed
  moreover have "(srOwner st, srThread st) \<in> set (map ?key (pbSnapshots d))" using assms(2) by (force simp: snapshotsOf_def)
  ultimately have "(srOwner st, srThread st) \<in> set (map ?key (pbSnapshots d'))" by blast
  then show ?thesis by (auto simp: snapshotsOf_def)
qed

lemma snapshotted_ok:
  assumes ok: "protocolOk d" and st: "stateOf owner thread (pbStates d) = Some st"
    and w: "writeSnapshot cod owner thread (srVersion st) (srCursor st) snap at1 required d = Inr d'"
  shows "protocolOk d'"
proof -
  note found = stateOf_Some [OF st]
  obtain ws where d': "d' = d\<lparr>pbSnapshots := ws\<rparr>" using writeSnapshot_frame(2) [OF w] ..
  have "(\<exists>f. logAbove f s d') \<and> laneOk s d'" if s: "s \<in> set (pbStates d)" for s
  proof -
    obtain f where f: "logAbove f s d" using protocolOkD(2) [OF ok s] ..
    have "f \<le> swCursor w' \<and> swCursor w' \<le> srCursor s \<and> swVersion w' \<le> srVersion s" if w': "w' \<in> snapshotsOf s d'" for w'
    proof -
      have "w' \<in> set (pbSnapshots d')" using w' by (simp add: snapshotsOf_def)
      from writeSnapshot_rows [OF w this]
      consider "w' \<in> set (pbSnapshots d)" | "swThread w' = thread" "swCursor w' = srCursor st" "swVersion w' = srVersion st"
        by blast
      then show ?thesis
      proof cases
        case 1
        then show ?thesis using f w' by (auto simp: logAbove_def snapshotsOf_def)
      next
        case 2
        then have "s = st" using state_unique [OF protocolOkD(1) [OF ok] s found(1)] found(3) w' by (simp add: snapshotsOf_def)
        then show ?thesis using 2 f by (simp add: logAbove_def)
      qed
    qed
    moreover have "logOf s d' = logOf s d" "commandsOf s d' = commandsOf s d" by (simp_all add: d' logOf_def commandsOf_def)
    ultimately have "logAbove f s d'" using f writeSnapshot_some [OF w, of s] by (auto simp: logAbove_def)
    then show ?thesis using protocolOkD(3) [OF ok s] laneOk_frame [OF \<open>commandsOf s d' = commandsOf s d\<close>] by blast
  qed
  then show ?thesis
    using writeSnapshot_frame(1) [OF w] protocolOkD(4) [OF ok] claimsOk1_frame [of d' d] d' by (simp add: protocolOk_def)
qed

lemma compactCursor_Some:
  assumes "compactCursor owner thread d = Some n"
  obtains w where "w \<in> set (pbSnapshots d)" "swOwner w = owner" "swThread w = thread" "swCursor w = n"
proof -
  obtain least w where "newestSnapshot (\<lambda>w. snapshotOf1 owner thread w \<and> swCursor w \<le> least) (pbSnapshots d) = Some w" "swCursor w = n"
    using assms by (auto simp: compactCursor_def split: option.splits)
  moreover from this(1) have "w \<in> set (filter (\<lambda>w. snapshotOf1 owner thread w \<and> swCursor w \<le> least) (pbSnapshots d))"
    unfolding newestSnapshot_def by (rule first_in)
  ultimately show ?thesis using that [of w] by (simp add: snapshotOf1_def)
qed

lemma compacted_ok:
  assumes ok: "protocolOk d" and d': "d' = compact owner thread d" and "protocolConsistent d'"
  shows "protocolOk d'"
proof (cases "compactCursor owner thread d")
  case None
  then show ?thesis using ok d' by (simp add: compact_def)
next
  case (Some n)
  obtain w where w: "w \<in> set (pbSnapshots d)" "swOwner w = owner" "swThread w = thread" "swCursor w = n"
    using compactCursor_Some [OF Some] .
  have same: "pbStates d' = pbStates d" "pbCommands d' = pbCommands d" by (simp_all add: d' compact_def Some)
  have "\<exists>f. logAbove f s d'" if s: "s \<in> set (pbStates d)" for s
  proof -
    obtain f where f: "logAbove f s d" using protocolOkD(2) [OF ok s] ..
    show ?thesis
    proof (cases "srOwner s = owner \<and> srThread s = thread")
      case True
      have log: "logOf s d' = {e \<in> logOf s d. n < erwCursor e}"
        using True by (auto simp: logOf_def d' compact_def Some set_delete_where)
      have snaps: "snapshotsOf s d' = {w \<in> snapshotsOf s d. n \<le> swCursor w}"
        using True by (auto simp: snapshotsOf_def snapshotOf1_def d' compact_def Some set_delete_where)
      have in1: "w \<in> snapshotsOf s d" using w True by (simp add: snapshotsOf_def)
      then have n: "f \<le> n" "n \<le> srCursor s" using f w(4) by (auto simp: logAbove_def)
      have "erwCursor ` logOf s d' = {n<..srCursor s}"
      proof -
        have "erwCursor ` logOf s d' = erwCursor ` logOf s d \<inter> {n<..}" by (auto simp: log)
        also have "\<dots> = {n<..srCursor s}" using f n(1) by (auto simp: logAbove_def)
        finally show ?thesis .
      qed
      then have "logAbove n s d'" using f n in1 w(4) by (auto simp: logAbove_def log snaps)
      then show ?thesis ..
    next
      case False
      then have "logOf s d' = logOf s d" "snapshotsOf s d' = snapshotsOf s d"
        by (auto simp: logOf_def snapshotsOf_def snapshotOf1_def d' compact_def Some set_delete_where)
      then show ?thesis using f logAbove_frame [of s d' d f] by blast
    qed
  qed
  moreover have "laneOk s d'" if "s \<in> set (pbStates d)" for s
    using protocolOkD(3) [OF ok that] laneOk_frame [OF rows_frame(3) [OF same(2)]] by simp
  ultimately show ?thesis
    using assms(3) protocolOkD(4) [OF ok] claimsOk1_frame [OF same(2)] same(1) by (simp add: protocolOk_def)
qed

text \<open>Moves that touch neither the lane nor the log.\<close>

lemma elsewhere_ok:
  assumes "protocolOk d" "pbStates d' = pbStates d" "pbCommands d' = pbCommands d" "pbEvents d' = pbEvents d"
    "pbSnapshots d' = pbSnapshots d" "protocolConsistent d'"
  shows "protocolOk d'"
  using assms logAbove_frame [OF rows_frame(1) [OF assms(4)] rows_frame(2) [OF assms(5)]] laneOk_frame [OF rows_frame(3) [OF assms(3)]]
    claimsOk1_frame [OF assms(3)]
  by (simp add: protocolOk_def)

lemma protocolMove_ok:
  assumes "protocolMove d d'" "protocolOk d"
  shows "protocolOk d'"
  using assms
proof (induction rule: protocolMove.induct)
  case (opened thread d d' owner)
  then show ?case using opened_ok [of d thread d' owner] by simp
next
  case (admitted i d st oc d')
  then show ?case using admitted_ok [OF _ admitted(1) admitted(3)] by simp
next
  case (changed d g d')
  then show ?case using changed_ok [of d g d'] by simp
next
  case (appended owner thread d st es rows version at1 d')
  then show ?case using appended_ok [of d owner thread st es rows version at1 d'] by simp
next
  case (snapshotted owner thread d st cod snap at1 required d')
  then show ?case using snapshotted_ok [of d owner thread st cod snap at1 required d'] by simp
next
  case (acknowledged st d owner thread cursor d' client at1)
  then show ?case using elsewhere_ok [of d d'] by simp
next
  case (compacted d' owner thread d)
  then show ?case using compacted_ok [of d d' owner thread] by simp
next
  case (elsewhere d ks d' ts ps)
  then show ?case using elsewhere_ok [of d d'] by simp
qed

lemma protocolMoves_ok: "protocolMoves d d' \<Longrightarrow> protocolOk d \<Longrightarrow> protocolOk d'"
  unfolding protocolMoves_def by (induction rule: rtranclp_induct) (auto intro: protocolMove_ok)

section \<open>What operations leave\<close>

text \<open>
  Commands stay under their identity, completed ones as they are; versions and cursors of a
  thread never fall; and no event is ever written at a cursor that was reached before.
\<close>

definition keepsCommands :: "('e, 's) protocol_db \<Rightarrow> ('e, 's) protocol_db \<Rightarrow> bool" where
  "keepsCommands d d' \<longleftrightarrow> (\<forall>c \<in> set (pbCommands d). \<exists>c' \<in> set (pbCommands d').
     sameCommandKey c c' \<and> (cdState c = CommandCompleted \<longrightarrow> c' = c))"

definition keepsLog :: "('e, 's) protocol_db \<Rightarrow> ('e, 's) protocol_db \<Rightarrow> bool" where
  "keepsLog d d' \<longleftrightarrow> (\<forall>st \<in> set (pbStates d). \<exists>st' \<in> set (pbStates d').
     srOwner st' = srOwner st \<and> srThread st' = srThread st \<and> srVersion st \<le> srVersion st' \<and> srCursor st \<le> srCursor st' \<and>
     (\<forall>e \<in> logOf st' d'. erwCursor e \<le> srCursor st \<longrightarrow> e \<in> logOf st d))"

definition protocolFollows :: "('e, 's) protocol_db \<Rightarrow> ('e, 's) protocol_db \<Rightarrow> bool" where
  "protocolFollows d d' \<longleftrightarrow> keepsCommands d d' \<and> keepsLog d d' \<and> ticketsFollow (pbTickets d) (pbTickets d')"

lemma sameCommandKey_trans: "sameCommandKey a b \<Longrightarrow> sameCommandKey b c \<Longrightarrow> sameCommandKey a c"
  by (simp add: sameCommandKey_def)

lemma sameCommandKey_refl [simp]: "sameCommandKey a a"
  by (simp add: sameCommandKey_def)

lemma keepsCommands_more: "set (pbCommands d) \<subseteq> set (pbCommands d') \<Longrightarrow> keepsCommands d d'"
  unfolding keepsCommands_def by (metis sameCommandKey_refl subsetD)

lemma keepsCommands_same: "pbCommands d' = pbCommands d \<Longrightarrow> keepsCommands d d'"
  unfolding keepsCommands_def by (metis sameCommandKey_refl)

lemma keepsCommands_trans:
  assumes "keepsCommands a b" "keepsCommands b c"
  shows "keepsCommands a c"
  unfolding keepsCommands_def
proof
  fix x assume "x \<in> set (pbCommands a)"
  then obtain y where y: "y \<in> set (pbCommands b)" "sameCommandKey x y" "cdState x = CommandCompleted \<longrightarrow> y = x"
    using assms(1) unfolding keepsCommands_def by blast
  then obtain z where "z \<in> set (pbCommands c)" "sameCommandKey y z" "cdState y = CommandCompleted \<longrightarrow> z = y"
    using assms(2) unfolding keepsCommands_def by blast
  then show "\<exists>z \<in> set (pbCommands c). sameCommandKey x z \<and> (cdState x = CommandCompleted \<longrightarrow> z = x)"
    using y sameCommandKey_trans by blast
qed

lemma keepsLog_trans:
  assumes "keepsLog a b" "keepsLog b c"
  shows "keepsLog a c"
  unfolding keepsLog_def
proof
  fix s assume "s \<in> set (pbStates a)"
  then obtain t where t: "t \<in> set (pbStates b)" "srOwner t = srOwner s" "srThread t = srThread s" "srVersion s \<le> srVersion t"
    "srCursor s \<le> srCursor t" "\<forall>e \<in> logOf t b. erwCursor e \<le> srCursor s \<longrightarrow> e \<in> logOf s a"
    using assms(1) unfolding keepsLog_def by blast
  then obtain u where u: "u \<in> set (pbStates c)" "srOwner u = srOwner t" "srThread u = srThread t" "srVersion t \<le> srVersion u"
    "srCursor t \<le> srCursor u" "\<forall>e \<in> logOf u c. erwCursor e \<le> srCursor t \<longrightarrow> e \<in> logOf t b"
    using assms(2) unfolding keepsLog_def by blast
  have "e \<in> logOf s a" if "e \<in> logOf u c" "erwCursor e \<le> srCursor s" for e
    using that t(5,6) u(6) by (meson order_trans)
  then show "\<exists>u \<in> set (pbStates c). srOwner u = srOwner s \<and> srThread u = srThread s \<and> srVersion s \<le> srVersion u \<and>
      srCursor s \<le> srCursor u \<and> (\<forall>e \<in> logOf u c. erwCursor e \<le> srCursor s \<longrightarrow> e \<in> logOf s a)"
    using t u by (intro bexI [of _ u]) auto
qed

lemma protocolFollows_refl: "protocolFollows d d"
  using keepsCommands_same [of d d] by (auto simp: protocolFollows_def keepsLog_def ticketsFollow_more)

lemma protocolFollows_trans: "protocolFollows a b \<Longrightarrow> protocolFollows b c \<Longrightarrow> protocolFollows a c"
  unfolding protocolFollows_def using keepsCommands_trans keepsLog_trans ticketsFollow_trans by blast

lemma keepsLog_states:
  assumes "pbStates d' = update_where (\<lambda>s. srOwner s = owner \<and> srThread s = thread) f (pbStates d) @ extra"
    and "\<And>s. s \<in> set (pbStates d) \<Longrightarrow> srOwner s = owner \<and> srThread s = thread \<Longrightarrow>
      srOwner (f s) = srOwner s \<and> srThread (f s) = srThread s \<and> srVersion s \<le> srVersion (f s) \<and> srCursor s \<le> srCursor (f s)"
    and "\<And>s e. s \<in> set (pbStates d) \<Longrightarrow> e \<in> logOf s d' \<Longrightarrow> erwCursor e \<le> srCursor s \<Longrightarrow> e \<in> logOf s d"
  shows "keepsLog d d'"
  unfolding keepsLog_def
proof
  fix s assume s: "s \<in> set (pbStates d)"
  let ?t = "if srOwner s = owner \<and> srThread s = thread then f s else s"
  have "?t \<in> set (pbStates d')" using s by (auto simp: assms(1) update_where_def)
  moreover have "srOwner ?t = srOwner s" "srThread ?t = srThread s" "srVersion s \<le> srVersion ?t" "srCursor s \<le> srCursor ?t"
    using assms(2) [OF s] by auto
  moreover from this(1,2) have "logOf ?t d' = logOf s d'" by (rule rows_same)
  ultimately show "\<exists>t \<in> set (pbStates d'). srOwner t = srOwner s \<and> srThread t = srThread s \<and> srVersion s \<le> srVersion t \<and>
      srCursor s \<le> srCursor t \<and> (\<forall>e \<in> logOf t d'. erwCursor e \<le> srCursor s \<longrightarrow> e \<in> logOf s d)"
    using assms(3) [OF s] by (intro bexI [of _ ?t]) auto
qed

lemma keepsLog_quiet: "pbStates d' = pbStates d \<Longrightarrow> set (pbEvents d') \<subseteq> set (pbEvents d) \<Longrightarrow> keepsLog d d'"
  by (force simp: keepsLog_def logOf_def)

lemma snapshotted_frame:
  assumes "writeSnapshot cod owner thread version cursor snap at1 required d = Inr d'"
  shows "pbCommands d' = pbCommands d" "pbStates d' = pbStates d" "pbEvents d' = pbEvents d" "pbTickets d' = pbTickets d"
  using writeSnapshot_frame(2) [OF assms] by auto

lemma compact_frame:
  shows "pbCommands (compact owner thread d) = pbCommands d" "pbStates (compact owner thread d) = pbStates d"
    "set (pbEvents (compact owner thread d)) \<subseteq> set (pbEvents d)" "pbTickets (compact owner thread d) = pbTickets d"
  by (auto simp: compact_def set_delete_where split: option.splits)

lemma appended_follows:
  assumes ok: "protocolOk d" and st: "stateOf owner thread (pbStates d) = Some st" and "es \<noteq> []"
    and rows: "rows = eventRows owner thread version at1 (srCursor st + 1) es"
    and d': "d' = d\<lparr>pbEvents := pbEvents d @ rows,
        pbStates := update_where (\<lambda>s. srOwner s = owner \<and> srThread s = thread) (\<lambda>s. s\<lparr>srCursor := erwCursor (last rows)\<rparr>) (pbStates d)\<rparr>"
  shows "protocolFollows d d'"
proof -
  note found = stateOf_Some [OF st]
  have one: "s = st" if "s \<in> set (pbStates d)" "srThread s = thread" for s
    using state_unique [OF protocolOkD(1) [OF ok] that(1) found(1)] that(2) found(3) by simp
  have above: "srCursor st < erwCursor e" if "e \<in> set rows" for e
  proof -
    have "erwCursor e \<in> erwCursor ` set rows" using that by simp
    then show ?thesis unfolding rows eventRows_cursors by simp
  qed
  have "keepsLog d d'"
  proof (rule keepsLog_states)
    show "pbStates d' = update_where (\<lambda>s. srOwner s = owner \<and> srThread s = thread) (\<lambda>s. s\<lparr>srCursor := erwCursor (last rows)\<rparr>) (pbStates d) @ []"
      by (simp add: d')
    show "srOwner (s\<lparr>srCursor := erwCursor (last rows)\<rparr>) = srOwner s \<and> srThread (s\<lparr>srCursor := erwCursor (last rows)\<rparr>) = srThread s \<and>
        srVersion s \<le> srVersion (s\<lparr>srCursor := erwCursor (last rows)\<rparr>) \<and> srCursor s \<le> srCursor (s\<lparr>srCursor := erwCursor (last rows)\<rparr>)"
      if "s \<in> set (pbStates d)" "srOwner s = owner \<and> srThread s = thread" for s
      using one [OF that(1)] that(2) eventRows_last [OF assms(3)] by (simp add: rows)
    show "e \<in> logOf s d" if "s \<in> set (pbStates d)" "e \<in> logOf s d'" "erwCursor e \<le> srCursor s" for s e
    proof (cases "e \<in> set rows")
      case True
      then have "erwThread e = thread" using eventRows_set rows by blast
      then have "s = st" using one [OF that(1)] that(2) by (simp add: logOf_def)
      then show ?thesis using above [OF True] that(3) by simp
    next
      case False
      then show ?thesis using that(2) by (auto simp: logOf_def d')
    qed
  qed
  then show ?thesis using keepsCommands_same [of d' d] d' by (simp add: protocolFollows_def ticketsFollow_more)
qed

lemma protocolMove_follows:
  assumes "protocolMove d d'" "protocolOk d"
  shows "protocolFollows d d'"
  using assms
proof (induction rule: protocolMove.induct)
  case (opened thread d d' owner)
  have "keepsLog d d'"
    by (rule keepsLog_states [where owner = owner and thread = thread and f = "\<lambda>s. s"]) (auto simp: opened(2) update_where_def logOf_def)
  then show ?case using keepsCommands_same [of d' d] opened(2) by (simp add: protocolFollows_def ticketsFollow_more)
next
  case (admitted i d st oc d')
  have one: "s = st" if "s \<in> set (pbStates d)" "srThread s = ciThread i" for s
    using state_unique [OF protocolOkD(1) [OF admitted(5)] that(1) stateOf_Some(1) [OF admitted(1)]] that(2)
      stateOf_Some(3) [OF admitted(1)] by simp
  have "keepsLog d d'"
    by (rule keepsLog_states [where owner = "ciOwner i" and thread = "ciThread i" and f = "\<lambda>s. s\<lparr>srVersion := srVersion st + 1\<rparr>"])
      (use one in \<open>auto simp: admitted(3) logOf_def\<close>)
  moreover have "keepsCommands d d'" by (rule keepsCommands_more) (auto simp: admitted(3))
  moreover have "pbTickets d' = pbTickets d" by (simp add: admitted(3))
  ultimately show ?case by (simp add: protocolFollows_def ticketsFollow_more)
next
  case (changed d g d')
  have "\<exists>c' \<in> set (pbCommands d'). sameCommandKey c c' \<and> (cdState c = CommandCompleted \<longrightarrow> c' = c)" if "c \<in> set (pbCommands d)" for c
  proof (rule bexI [of _ "g c"])
    show "sameCommandKey c (g c) \<and> (cdState c = CommandCompleted \<longrightarrow> g c = c)" using changed(1) that by (auto simp: commandMoves_def)
    show "g c \<in> set (pbCommands d')" using that by (simp add: changed(2))
  qed
  then show ?case using keepsLog_quiet [of d' d] changed(2) by (simp add: protocolFollows_def ticketsFollow_more keepsCommands_def)
next
  case (appended owner thread d st es rows version at1 d')
  then show ?case using appended_follows [of d owner thread st es rows version at1 d'] by simp
next
  case (snapshotted owner thread d st cod snap at1 required d')
  note f = snapshotted_frame [OF snapshotted(2)]
  then show ?case using keepsLog_quiet [OF f(2)] keepsCommands_same [OF f(1)] f(4) by (simp add: protocolFollows_def ticketsFollow_more)
next
  case (acknowledged st d owner thread cursor d' client at1)
  then show ?case using keepsLog_quiet [of d' d] keepsCommands_same [of d' d] by (simp add: protocolFollows_def ticketsFollow_more)
next
  case (compacted d' owner thread d)
  note f = compact_frame [of owner thread d, folded compacted(1)]
  then show ?case using keepsLog_quiet [OF f(2,3)] keepsCommands_same [OF f(1)] f(4) by (simp add: protocolFollows_def ticketsFollow_more)
next
  case (elsewhere d ks d' ts ps)
  then show ?case using keepsLog_quiet [of d' d] keepsCommands_same [of d' d] by (simp add: protocolFollows_def ticketsFollow_more)
qed

lemma protocolMoves_follow:
  assumes "protocolMoves d d'" "protocolOk d"
  shows "protocolFollows d d'"
  using assms(1) unfolding protocolMoves_def
proof (induction rule: rtranclp_induct)
  case base
  show ?case by (rule protocolFollows_refl)
next
  case (step b c)
  have "protocolOk b" using protocolMoves_ok [of d b] step(1) assms(2) by (simp add: protocolMoves_def)
  then show ?case using protocolFollows_trans [OF step.IH protocolMove_follows [OF step(2)]] by simp
qed

section \<open>The store\<close>

interpretation protocol_store: evolving_store "protocolStep cod" always protocolOk protocolFollows for cod
proof unfold_locales
  fix opn and d d' :: "('a, 'b) protocol_db"
  assume ok: "protocolOk d" and run: "protocolStep cod opn d = Inr d'"
  have m: "protocolMoves d d'" using protocolStep_moves [OF protocolOkD(1) [OF ok] run] .
  show "protocolOk d'" using protocolMoves_ok [OF m ok] .
  show "protocolFollows d d'" using protocolMoves_follow [OF m ok] .
qed (auto intro: protocolFollows_refl protocolFollows_trans)

text \<open>A store without a thread of its own: any authority, counters and turn tables.\<close>

definition emptyProtocol :: "authority_db \<Rightarrow> counter_row list \<Rightarrow> db \<Rightarrow> product_thread_row list \<Rightarrow> ('e, 's) protocol_db" where
  "emptyProtocol a cs ts ps = \<lparr>pbAuthority = a, pbStates = [], pbCommands = [], pbEvents = [], pbSnapshots = [], pbCursors = [],
     pbTickets = [], pbCounters = cs, pbTurns = ts, pbProductThreads = ps\<rparr>"

definition protocolReachable :: "('e, 's) codec \<Rightarrow> ('e, 's) protocol_db \<Rightarrow> bool" where
  "protocolReachable cod d \<longleftrightarrow> (\<exists>a cs ts ps ops. d = runOps (protocolStep cod) ops (emptyProtocol a cs ts ps))"

lemma emptyProtocol_ok: "protocolOk (emptyProtocol a cs ts ps)"
  by (simp add: protocolOk_def protocolConsistent_def statesConsistent_def commandsConsistent_def eventsConsistent_def
      snapshotsConsistent_def cursorsConsistent_def ticketsConsistent_def claimsOk1_def emptyProtocol_def)

lemma protocolReachable_ok: "protocolReachable cod d \<Longrightarrow> protocolOk d"
  unfolding protocolReachable_def using protocol_store.run_keeps [OF emptyProtocol_ok] by fastforce

end
