(* ===== verification/Protocol_Samples.thy ===== *)
theory Protocol_Samples
  imports Protocol_Invariant
begin

text \<open>
  One thread of a personal owner, with a client of the owner, on which the properties of the
  thread protocol are tried out.  Events and snapshots are texts that always decode.
\<close>

definition sampleCodec :: "(string, string) codec" where
  "sampleCodec = \<lparr>codEvent = Some, codSnapshot = Some, codOverlayEvent = (\<lambda>e. e), codOverlaySnapshot = (\<lambda>s. s),
     codPending = (\<lambda>s. []), codSubmission = (\<lambda>t i active s. s), codTitled = (\<lambda>t x. x)\<rparr>"

definition sampleActor :: actor where
  "sampleActor = PersonalActor ''u'' ''u'' ''c'' ''v''"

definition sampleAuthority :: authority_db where
  "sampleAuthority = \<lparr>adOwners = [\<lparr>owId = ''o'', owKind = PersonalKind ''u''\<rparr>],
     adClients = [\<lparr>clId = ''c'', clUser = ''u'', clDevice = ''v'', clExpiresAt = 1000, clRevoked = False\<rparr>],
     adDevices = [\<lparr>dvId = ''v'', dvUser = ''u'', dvRevoked = False\<rparr>],
     adAuthorities = [\<lparr>caClient = ''c'', caOwner = ''o'', caExpiresAt = 1000, caRevoked = False\<rparr>], adMembers = [],
     adThreads = [\<lparr>htId = ''T'', htOwner = ''o'', htProject = None, htCreator = ''u'', htExecutor = OrbExecutor, htInherits = False\<rparr>],
     adThreadGrants = [], adProjectGrants = []\<rparr>"

definition noTurns :: db where
  "noTurns = \<lparr>threads = [''T''], deletionOutbox = [], turns = [], queues = [], admissions = [], steering = []\<rparr>"

definition openThread :: "(string, string) protocol_db" where
  "openThread = runOps (protocolStep sampleCodec) [(1, OpInitialize ''o'' ''T'' (ActingReader sampleActor))]
     (emptyProtocol sampleAuthority [\<lparr>ocOwner = ''o'', ocNext = 1\<rparr>] noTurns [\<lparr>ptrId = ''T'', ptrOwner = ''o'', ptrTitle = ''New thread'', ptrUpdatedAt = 0\<rparr>])"

lemma openThread_reachable: "protocolReachable sampleCodec openThread"
  unfolding protocolReachable_def openThread_def by blast

lemma protocolReachable_run:
  assumes "protocolReachable cod d"
  shows "protocolReachable cod (runOps (protocolStep cod) ops d)"
proof -
  obtain a cs ts ps before where "d = runOps (protocolStep cod) before (emptyProtocol a cs ts ps)"
    using assms unfolding protocolReachable_def by blast
  then have "runOps (protocolStep cod) ops d = runOps (protocolStep cod) (before @ ops) (emptyProtocol a cs ts ps)"
    by (simp add: runOps_append)
  then show ?thesis unfolding protocolReachable_def by blast
qed

text \<open>Four events with a snapshot behind the third, which the client of the owner has acknowledged.\<close>

definition logRun :: "(int \<times> (string, string) protocol_op) list" where
  "logRun = [(2, OpAppend ''o'' ''T'' [''a'', ''b'', ''c''] (Some ''s'') 2), (3, OpAppend ''o'' ''T'' [''d''] None 3)]"

definition logThread :: "(string, string) protocol_db" where
  "logThread = runOps (protocolStep sampleCodec) logRun openThread"

definition cutThread :: "(string, string) protocol_db" where
  "cutThread = runOps (protocolStep sampleCodec) [(4, OpAcknowledge ''o'' ''T'' sampleActor 3 4)] logThread"

lemma cutThread_reachable: "protocolReachable sampleCodec cutThread"
  unfolding cutThread_def logThread_def by (intro protocolReachable_run openThread_reachable)

lemma cutThread_events: "map erwCursor (pbEvents cutThread) = [4] \<and> map swCursor (pbSnapshots cutThread) = [3]"
  by code_simp

end
