(* ===== verification/Protocol_Lane.thy ===== *)
theory Protocol_Lane
  imports Protocol_Samples
begin

text \<open>
  The command lane: commands are claimed in the order of their versions, a lane with work never
  stalls, an admission that is repeated finds its command, and what is completed or published
  stays.
\<close>

section \<open>Order\<close>

text \<open>
  C7: the lane of a thread is worked in order.  Its commands have the versions from one to the
  version of the thread, each once; and of two commands that are claimed at the same time, the
  later can only be the cancellation of the earlier, a prompt.
\<close>

theorem claims_follow_lane:
  assumes "protocolReachable cod d" "st \<in> set (pbStates d)"
  shows "cdVersion ` commandsOf st d = {0<..srVersion st} \<and> inj_on cdVersion (commandsOf st d) \<and>
    (\<forall>c \<in> commandsOf st d. \<forall>c' \<in> commandsOf st d. cdVersion c < cdVersion c' \<and> cdState c = CommandAdmitted \<and>
       cdState c' = CommandAdmitted \<and> cdClaim c' \<noteq> None \<longrightarrow> cancelTarget (cdBody c') = Some (cdId c) \<and> isSubmit (cdBody c))"
proof -
  have ok: "protocolOk d" using assms(1) by (rule protocolReachable_ok)
  have "distinct (map (\<lambda>c. (cdThread c, cdVersion c)) (pbCommands d))"
    using protocolOkD(1) [OF ok] by (simp add: protocolConsistent_def commandsConsistent_def)
  then have "inj_on (\<lambda>c. (cdThread c, cdVersion c)) (set (pbCommands d))" by (simp add: distinct_map)
  then have "inj_on cdVersion (commandsOf st d)" by (auto simp: inj_on_def commandsOf_def)
  moreover have "\<not> precedes c c'" if "c \<in> commandsOf st d" "c' \<in> commandsOf st d" "cdState c' = CommandAdmitted" "cdClaim c' \<noteq> None" for c c'
    using protocolOkD(4) [OF ok] that by (auto simp: claimsOk1_def commandsOf_def)
  then have "\<forall>c \<in> commandsOf st d. \<forall>c' \<in> commandsOf st d. cdVersion c < cdVersion c' \<and> cdState c = CommandAdmitted \<and>
       cdState c' = CommandAdmitted \<and> cdClaim c' \<noteq> None \<longrightarrow> cancelTarget (cdBody c') = Some (cdId c) \<and> isSubmit (cdBody c)"
    by (auto simp: precedes_def commandsOf_def)
  ultimately show ?thesis using protocolOkD(3) [OF ok assms(2)] by (simp add: laneOk_def)
qed

text \<open>A prompt, its cancellation and another prompt; two workers claim, and hold the first two.\<close>

definition sampleCommand :: "string \<Rightarrow> command_body \<Rightarrow> int \<Rightarrow> command_input" where
  "sampleCommand i body at1 = \<lparr>ciOwner = ''o'', ciThread = ''T'', ciCommand = i, ciTurn = None, ciKey = i, ciActor = sampleActor,
     ciBody = body, ciAdmittedAt = at1\<rparr>"

definition laneRun :: "(int \<times> (string, string) protocol_op) list" where
  "laneRun = [(2, OpAdmit (sampleCommand ''p'' (SubmitPromptBody ''hi'') 2) None), (3, OpAdmit (sampleCommand ''x'' (CancelCommandBody ''p'' []) 3) (Some 1)),
     (4, OpAdmit (sampleCommand ''q'' (SubmitPromptBody ''ho'') 4) None), (5, OpClaim (\<lambda>_. False) ''w'' 10), (6, OpClaim (\<lambda>_. False) ''v'' 10)]"

definition laneThread :: "(string, string) protocol_db" where
  "laneThread = runOps (protocolStep sampleCodec) laneRun openThread"

lemma laneThread_reachable: "protocolReachable sampleCodec laneThread"
  unfolding laneThread_def by (rule protocolReachable_run [OF openThread_reachable])

lemma laneThread_state: "pbStates laneThread = [\<lparr>srOwner = ''o'', srThread = ''T'', srVersion = 3, srCursor = 0\<rparr>]"
  by code_simp

theorem claims_follow_lane_witness:
  "\<exists>c \<in> set (pbCommands laneThread). \<exists>c' \<in> set (pbCommands laneThread). cdVersion c < cdVersion c' \<and> cdClaim c = Some (''w'', 15) \<and>
    cdClaim c' = Some (''v'', 16) \<and> cancelTarget (cdBody c') = Some (cdId c)"
proof -
  let ?st = "\<lparr>srOwner = ''o'', srThread = ''T'', srVersion = 3, srCursor = 0\<rparr>"
  have st: "?st \<in> set (pbStates laneThread)" by (simp add: laneThread_state)
  have "exists_row (\<lambda>c. exists_row (\<lambda>c'. cdVersion c < cdVersion c' \<and> cdClaim c = Some (''w'', 15) \<and> cdClaim c' = Some (''v'', 16) \<and>
      cdState c = CommandAdmitted \<and> cdState c' = CommandAdmitted \<and> cdOwner c = ''o'' \<and> cdOwner c' = ''o'' \<and> cdThread c = ''T'' \<and> cdThread c' = ''T'')
      (pbCommands laneThread)) (pbCommands laneThread)" by code_simp
  then obtain c c' where c: "c \<in> set (pbCommands laneThread)" "c' \<in> set (pbCommands laneThread)" "cdVersion c < cdVersion c'"
    "cdClaim c = Some (''w'', 15)" "cdClaim c' = Some (''v'', 16)" "cdState c = CommandAdmitted" "cdState c' = CommandAdmitted"
    "c \<in> commandsOf ?st laneThread" "c' \<in> commandsOf ?st laneThread"
    unfolding exists_row_iff commandsOf_def by auto
  then have "cancelTarget (cdBody c') = Some (cdId c)" using claims_follow_lane [OF laneThread_reachable st] by auto
  then show ?thesis using c by blast
qed

section \<open>Progress\<close>

lemma claimed_commandCheck: "cdState c = CommandAdmitted \<Longrightarrow> commandCheck (c\<lparr>cdClaim := k\<rparr>) = commandCheck c"
  by (simp add: commandCheck_def)

lemma update_filter_map:
  assumes "\<And>c. key (f c) = key c"
  shows "map key (filter (\<lambda>c. key c \<noteq> None) (update_where P f cs)) = map key (filter (\<lambda>c. key c \<noteq> None) cs)"
  using assms by (induction cs) (auto simp: update_where_def)

text \<open>Setting the claim of an admitted command keeps every constraint.\<close>

lemma claim_consistent:
  assumes ok: "protocolConsistent d" and adm: "\<And>x. x \<in> set (pbCommands d) \<Longrightarrow> P x \<Longrightarrow> cdState x = CommandAdmitted"
  shows "protocolConsistent (d\<lparr>pbCommands := update_where P (\<lambda>c. c\<lparr>cdClaim := k\<rparr>) (pbCommands d)\<rparr>)"
proof -
  let ?cs = "update_where P (\<lambda>c. c\<lparr>cdClaim := k\<rparr>) (pbCommands d)"
  have cs: "commandsConsistent (pbStates d) (pbCommands d)" using ok by (simp add: protocolConsistent_def)
  have "list_all commandCheck ?cs"
    using cs adm claimed_commandCheck unfolding commandsConsistent_def list_all_iff update_where_def by force
  moreover have "list_all (\<lambda>c. ownsThread (pbStates d) (cdOwner c) (cdThread c)) ?cs"
    using cs unfolding commandsConsistent_def list_all_iff update_where_def by force
  moreover have "map (\<lambda>c. (cdThread c, cdId c)) ?cs = map (\<lambda>c. (cdThread c, cdId c)) (pbCommands d)"
      "map (\<lambda>c. (cdThread c, cdKey c)) ?cs = map (\<lambda>c. (cdThread c, cdKey c)) (pbCommands d)"
      "map (\<lambda>c. (cdThread c, cdVersion c)) ?cs = map (\<lambda>c. (cdThread c, cdVersion c)) (pbCommands d)"
      "map (\<lambda>c. (cdOwner c, cdCommit c)) ?cs = map (\<lambda>c. (cdOwner c, cdCommit c)) (pbCommands d)"
    by (rule map_update_where, simp)+
  ultimately have "commandsConsistent (pbStates d) ?cs"
    using cs update_filter_map [of cdTurn "\<lambda>c. c\<lparr>cdClaim := k\<rparr>" P "pbCommands d"] by (simp add: commandsConsistent_def)
  then show ?thesis using ok by (simp add: protocolConsistent_def)
qed

lemma selectCommand_some:
  assumes ok: "protocolOk d" and c: "c \<in> set (pbCommands d)" "cdState c = CommandAdmitted" "\<not> locked (cdThread c)"
    and free: "\<And>x. x \<in> set (pbCommands d) \<Longrightarrow> cdThread x = cdThread c \<Longrightarrow> claimFree now x"
  shows "selectCommand locked now d \<noteq> None"
proof
  assume none: "selectCommand locked now d = None"
  obtain s where s: "s \<in> set (pbStates d)" "c \<in> commandsOf s d" using owned_command [OF protocolOkD(1) [OF ok] c(1)] .
  then have thread: "srThread s = cdThread c" by (simp add: commandsOf_def)
  let ?waiting = "{x \<in> set (pbCommands d). cdThread x = cdThread c \<and> cdState x = CommandAdmitted}"
  obtain m where m: "m \<in> ?waiting" "\<And>x. x \<in> ?waiting \<Longrightarrow> cdVersion m \<le> cdVersion x"
    using ex_min_if_finite [of "cdVersion ` ?waiting"] c by (auto simp: not_less)
  have "\<not> precedes p m" if "p \<in> set (pbCommands d)" for p using m(2) [of p] m(1) that by (auto simp: precedes_def)
  then have "runnableCommand now d m" using m(1) free by (auto simp: runnableCommand_def exists_row_iff)
  then have "commandCandidate now d (srThread s) \<noteq> None"
    using m(1) thread unfolding commandCandidate_def first_None by (auto simp: filter_empty_conv)
  then obtain x where "commandCandidate now d (srThread s) = Some x" by blast
  then have "x \<in> set (List.map_filter (\<lambda>s. if locked (srThread s) then None else commandCandidate now d (srThread s)) (pbStates d))"
    using s(1) c(3) thread by (force simp: List.map_filter_def)
  then show False using none unfolding selectCommand_def first_None by simp
qed

lemma commandOf_update:
  assumes "protocolConsistent d" "c \<in> set (pbCommands d)"
    and "\<And>x. cdThread (f x) = cdThread x \<and> cdId (f x) = cdId x"
    and "d' = d\<lparr>pbCommands := update_where (\<lambda>x. cdThread x = cdThread c \<and> cdId x = cdId c) f (pbCommands d)\<rparr>"
  shows "commandOf (cdThread c) (cdId c) d' = Some (f c)"
proof -
  have "commandOf (cdThread c) (cdId c) d' = map_option f (commandOf (cdThread c) (cdId c) d)"
  proof -
    have "find P (update_where P f cs) = map_option f (find P cs)" if "P = (\<lambda>x. cdThread x = t \<and> cdId x = i)" for P t i cs
      using assms(3) that by (induction cs) (auto simp: update_where_def)
    then show ?thesis by (simp add: commandOf_def assms(4))
  qed
  moreover have "commandOf (cdThread c) (cdId c) d = Some c"
  proof (cases "commandOf (cdThread c) (cdId c) d")
    case None
    then show ?thesis using assms(2) by (auto simp: commandOf_def find_None_iff)
  next
    case (Some x)
    then show ?thesis using commandOfD [OF Some] command_unique [OF assms(1) _ assms(2)] by simp
  qed
  ultimately show ?thesis by simp
qed

text \<open>
  C25: a lane with work never stalls.  When a thread that no one has locked has an admitted command,
  and no claim in the thread is alive, then a claim succeeds: it takes, for the time that was
  asked for, a command that nothing precedes, the oldest among the first ones of all threads.
\<close>

theorem lane_never_stalls:
  assumes "protocolReachable cod d" "c \<in> set (pbCommands d)" "cdState c = CommandAdmitted" "\<not> locked (cdThread c)"
    and "\<forall>x \<in> set (pbCommands d). cdThread x = cdThread c \<longrightarrow> claimFree now x"
  shows "\<exists>x d'. claimNextCommand locked token millis now d = Inr (Some (x\<lparr>cdClaim := Some (token, now + millis)\<rparr>), d') \<and>
    x \<in> set (pbCommands d) \<and> runnableCommand now d x \<and>
    (\<forall>s \<in> set (pbStates d). \<not> locked (srThread s) \<longrightarrow>
       (\<forall>y. commandCandidate now d (srThread s) = Some y \<longrightarrow> commandOrder x \<le> commandOrder y))"
proof -
  have ok: "protocolOk d" using assms(1) by (rule protocolReachable_ok)
  have "selectCommand locked now d \<noteq> None" by (rule selectCommand_some [where locked = locked, OF ok assms(2-4)]) (use assms(5) in blast)
  then obtain x where x: "selectCommand locked now d = Some x" by blast
  note run = selectCommand_runnable [OF x]
  let ?P = "\<lambda>y. cdThread y = cdThread x \<and> cdId y = cdId x"
  let ?d' = "d\<lparr>pbCommands := update_where ?P (\<lambda>y. y\<lparr>cdClaim := Some (token, now + millis)\<rparr>) (pbCommands d)\<rparr>"
  have "protocolConsistent ?d'"
  proof (rule claim_consistent [OF protocolOkD(1) [OF ok]])
    show "cdState y = CommandAdmitted" if "y \<in> set (pbCommands d)" "?P y" for y
      using command_unique [OF protocolOkD(1) [OF ok] that(1) run(1)] that(2) run(2) by (simp add: runnableCommand_def)
  qed
  moreover have "commandOf (cdThread x) (cdId x) ?d' = Some (x\<lparr>cdClaim := Some (token, now + millis)\<rparr>)"
    by (rule commandOf_update [OF protocolOkD(1) [OF ok] run(1) _ refl]) simp
  ultimately have "claimNextCommand locked token millis now d = Inr (Some (x\<lparr>cdClaim := Some (token, now + millis)\<rparr>), ?d')"
    by (simp add: claimNextCommand_def x updateCommand_def enforceProtocol_def)
  moreover have "commandOrder x \<le> commandOrder y"
    if "s \<in> set (pbStates d)" "\<not> locked (srThread s)" "commandCandidate now d (srThread s) = Some y" for s y
    using x unfolding selectCommand_def by (rule first_least) (use that in \<open>force simp: List.map_filter_def\<close>)
  ultimately show ?thesis using run by blast
qed

text \<open>At the instant both claims have run out, the lane goes on.\<close>

theorem lane_never_stalls_witness:
  "\<exists>x d'. claimNextCommand (\<lambda>_. False) ''v'' 10 16 laneThread = Inr (Some (x\<lparr>cdClaim := Some (''v'', 26)\<rparr>), d') \<and> x \<in> set (pbCommands laneThread)"
proof -
  obtain c where c: "c \<in> set (pbCommands laneThread)" "cdState c = CommandAdmitted"
  proof -
    have "exists_row (\<lambda>c. cdState c = CommandAdmitted) (pbCommands laneThread)" by code_simp
    then show ?thesis using that by (auto simp: exists_row_iff)
  qed
  have "list_all (claimFree 16) (pbCommands laneThread)" by code_simp
  then have "\<forall>x \<in> set (pbCommands laneThread). cdThread x = cdThread c \<longrightarrow> claimFree 16 x" by (simp add: list_all_iff)
  from lane_never_stalls [OF laneThread_reachable c, of "\<lambda>_. False", OF _ this, of "''v''" 10] show ?thesis by auto
qed

end
