(* ===== verification/Protocol_Replay.thy ===== *)
theory Protocol_Replay
  imports Protocol_Samples
begin

text \<open>
  What a reader of a thread's log is given: a snapshot where the log was compacted, and the
  events behind it without a gap.
\<close>

section \<open>Reading the log\<close>

text \<open>Everything stored decodes under the current schema.\<close>

definition logDecodes :: "('e, 's) codec \<Rightarrow> ('e, 's) protocol_db \<Rightarrow> bool" where
  "logDecodes cod d \<longleftrightarrow> (\<forall>e \<in> set (pbEvents d). codEvent cod (erwEvent e) \<noteq> None) \<and>
     (\<forall>w \<in> set (pbSnapshots d). codSnapshot cod (swSnapshot w) \<noteq> None)"

lemma decodes_cursors:
  assumes "\<And>e. e \<in> set rows \<Longrightarrow> codEvent cod (erwEvent e) \<noteq> None"
  shows "map erwCursor (decodeReplayEvents cod rows) = map erwCursor rows"
  using assms by (induction rows) (auto simp: decodeReplayEvents_def List.map_filter_simps split: option.splits)

lemma decoded_stored:
  assumes "e \<in> set (decodeReplayEvents cod rows)"
  shows "\<exists>s \<in> set rows. e = s\<lparr>erwEvent := erwEvent e\<rparr> \<and> codEvent cod (erwEvent s) = Some (erwEvent e)"
  using assms
proof (induction rows)
  case (Cons s rows)
  then show ?case by (cases "codEvent cod (erwEvent s)") (auto simp: decodeReplayEvents_def List.map_filter_simps)
qed (simp add: decodeReplayEvents_def List.map_filter_def)

text \<open>Above the floor, the events of a thread between two cursors are one for each cursor.\<close>

lemma readEvents_cursors:
  assumes ok: "protocolOk d" and st: "stateOf (riOwner i) (riThread i) (pbStates d) = Some st"
    and f: "logAbove f st d" and "f \<le> after" and "bound \<le> srCursor st"
  shows "map erwCursor (readEvents i bound after d) = take (nat (replayLimit (riLimit i)) + 1) [after + 1..bound]"
proof -
  let ?P = "\<lambda>e. erwOwner e = riOwner i \<and> erwThread e = riThread i \<and> after < erwCursor e \<and> erwCursor e \<le> bound"
  let ?rows = "filter ?P (pbEvents d)"
  note found = stateOf_Some [OF st]
  have rows: "set ?rows = {e \<in> logOf st d. after < erwCursor e \<and> erwCursor e \<le> bound}" using found by (auto simp: logOf_def)
  have seq: "map erwCursor (sort_key erwSequence ?rows) = map erwSequence (sort_key erwSequence ?rows)"
    using f rows by (auto simp: logAbove_def)
  have "sorted (map erwCursor (sort_key erwSequence ?rows))" unfolding seq by simp
  moreover have "distinct (map erwCursor (sort_key erwSequence ?rows))"
  proof -
    have "distinct (map (\<lambda>e. (erwThread e, erwCursor e)) ?rows)"
      using protocolOkD(1) [OF ok] by (simp add: protocolConsistent_def eventsConsistent_def distinct_map_filter)
    then have "distinct ?rows" "inj_on erwCursor (set ?rows)" by (auto simp: distinct_map inj_on_def)
    then show ?thesis by (simp add: distinct_map)
  qed
  moreover have "set (map erwCursor (sort_key erwSequence ?rows)) = set [after + 1..bound]"
  proof -
    have "erwCursor ` set ?rows = erwCursor ` logOf st d \<inter> {after<..bound}" unfolding rows by auto
    also have "\<dots> = {after<..bound}" using f assms(4,5) by (auto simp: logAbove_def)
    finally show ?thesis by auto
  qed
  ultimately have "map erwCursor (sort_key erwSequence ?rows) = [after + 1..bound]"
    by (intro sorted_distinct_set_unique) simp_all
  then show ?thesis by (simp add: readEvents_def take_map [symmetric])
qed

lemma newestSnapshot_SomeD: "newestSnapshot P ws = Some w \<Longrightarrow> w \<in> set ws \<and> P w"
  unfolding newestSnapshot_def by (drule first_in) simp

lemma newestSnapshot_None: "newestSnapshot P ws = None \<longleftrightarrow> (\<forall>w \<in> set ws. \<not> P w)"
  unfolding newestSnapshot_def first_None by (simp add: filter_empty_conv)

section \<open>A replay has no gap\<close>

text \<open>Where the events of an answer start: behind its snapshot, or behind the cursor that was asked for.\<close>

definition replayBase :: "replay_input \<Rightarrow> ('e, 's) replay_result \<Rightarrow> int" where
  "replayBase i r = (case rrSnapshot r of None \<Rightarrow> riAfter i | Some w \<Rightarrow> swCursor w)"

lemma replay_Inr:
  assumes "replay cod i now d = Inr r"
  obtains st bound first retained decoded rows where
    "stateOf (riOwner i) (riThread i) (pbStates d) = Some st" "bound = targetCursor i (srCursor st)" "riAfter i \<le> bound"
    "first = readEvents i bound (riAfter i) d" "retained = isRetainedReplayTail i (isDirectReplayTail (riAfter i) bound first)"
    "decoded = decodeReplaySnapshot cod (replaySnapshotRow i bound (srVersion st) retained d)"
    "rows = (case decoded of None \<Rightarrow> first | Some w \<Rightarrow> readEvents i bound (swCursor w) d)"
    "r = \<lparr>rrVersion = srVersion st, rrCursor = srCursor st,
       rrEvents = decodeReplayEvents cod (take (nat (replayLimit (riLimit i))) rows),
       rrHasMore = (nat (replayLimit (riLimit i)) < length rows), rrSnapshot = decoded\<rparr>"
  using assms that by (auto simp: replay_def Let_def bindE_Inr_iff split: option.splits if_splits)

lemma replaySnapshotRow_SomeD:
  assumes "replaySnapshotRow i bound version retained d = Some w"
  shows "w \<in> set (pbSnapshots d)" "snapshotOf1 (riOwner i) (riThread i) w" "swVersion w \<le> version" "swCursor w \<le> bound"
  using assms
  by (auto simp: replaySnapshotRow_def requiredCheckpoint_def replaySnapshotCondition_def dest!: newestSnapshot_SomeD split: if_splits)

lemma decodeReplaySnapshot_SomeD:
  "decodeReplaySnapshot cod row = Some w \<Longrightarrow> \<exists>w0. row = Some w0 \<and> swCursor w = swCursor w0"
  by (auto simp: decodeReplaySnapshot_def split: option.splits)

text \<open>
  Without a snapshot in the answer the log was not compacted behind the cursor that was asked
  for: a cut would have left a snapshot above it, and the first event would not follow.
\<close>

lemma no_snapshot_no_cut:
  assumes ok: "protocolOk d" and st: "stateOf (riOwner i) (riThread i) (pbStates d) = Some st" and f: "logAbove f st d"
    and logDecodes: "logDecodes cod d" and i: "0 \<le> riAfter i" "riAfter i \<le> srCursor st" "riIncludeSnapshot i \<noteq> Some False"
    and retained: "retained = isRetainedReplayTail i (isDirectReplayTail (riAfter i) (srCursor st) (readEvents i (srCursor st) (riAfter i) d))"
    and none: "decodeReplaySnapshot cod (replaySnapshotRow i (srCursor st) (srVersion st) retained d) = None"
  shows "f \<le> riAfter i"
proof (rule ccontr)
  assume "\<not> f \<le> riAfter i"
  then have cut: "riAfter i < f" by simp
  note found = stateOf_Some [OF st]
  from f cut i(1) obtain w where w: "w \<in> snapshotsOf st d" by (auto simp: logAbove_def)
  then have w': "f \<le> swCursor w" "swCursor w \<le> srCursor st" "swVersion w \<le> srVersion st" "w \<in> set (pbSnapshots d)"
    "snapshotOf1 (riOwner i) (riThread i) w"
    using f found by (auto simp: logAbove_def snapshotsOf_def snapshotOf1_def)
  have "replaySnapshotRow i (srCursor st) (srVersion st) retained d = None"
  proof (rule ccontr)
    assume "replaySnapshotRow i (srCursor st) (srVersion st) retained d \<noteq> None"
    then obtain x where x: "replaySnapshotRow i (srCursor st) (srVersion st) retained d = Some x" by blast
    then have "codSnapshot cod (swSnapshot x) \<noteq> None" using replaySnapshotRow_SomeD(1) [OF x] logDecodes by (simp add: logDecodes_def)
    then show False using none x by (auto simp: decodeReplaySnapshot_def)
  qed
  then have "\<not> (if retained then requiredCheckpoint i (srCursor st) w else replaySnapshotCondition (riAfter i) (srCursor st) w)"
    using i(3) w'(3-5) unfolding replaySnapshotRow_def by (simp only: if_False newestSnapshot_None) blast
  moreover have "replaySnapshotCondition (riAfter i) (srCursor st) w" using w'(1,2) cut by (simp add: replaySnapshotCondition_def)
  ultimately have "isDirectReplayTail (riAfter i) (srCursor st) (readEvents i (srCursor st) (riAfter i) d)"
    using retained by (auto simp: isRetainedReplayTail_def split: if_splits)
  moreover have "f \<le> srCursor st" using f by (simp add: logAbove_def)
  moreover have "erwCursor e \<noteq> riAfter i + 1" if "e \<in> set (readEvents i (srCursor st) (riAfter i) d)" for e
  proof -
    have "e \<in> logOf st d" using in_set_takeD [OF that [unfolded readEvents_def]] found by (simp add: logOf_def)
    then have "erwCursor e \<in> {f<..srCursor st}" using f by (auto simp: logAbove_def)
    then show ?thesis using cut by simp
  qed
  ultimately show False using cut by (auto simp: isDirectReplayTail_def)
qed


definition sampleReplay :: replay_input where
  "sampleReplay = \<lparr>riOwner = ''o'', riThread = ''T'', riReader = BrowserRead ''u'', riAfter = 1, riAfterCheckpoint = None,
     riThrough = None, riIncludeSnapshot = None, riLimit = 10\<rparr>"


text \<open>
  A replay that is pinned below a compacted snapshot finds neither events nor a snapshot: its
  answer is empty although the log had an event for it.
\<close>

lemma pinned_replay_is_empty:
  "replay sampleCodec (sampleReplay\<lparr>riThrough := Some 2\<rparr>) 5 cutThread =
     Inr \<lparr>rrVersion = 0, rrCursor = 4, rrEvents = [], rrHasMore = False, rrSnapshot = None\<rparr>"
  by code_simp

end
