(* ===== verification/Protocol_Properties.thy ===== *)
theory Protocol_Properties
  imports Protocol_Lane Protocol_Replay
begin

text \<open>
  What holds between two states of the thread protocol store: nothing that was completed,
  published or used is taken back, and a repeated admission is recognised.
\<close>

section \<open>History\<close>

lemma protocolReachable_follows:
  "protocolReachable cod d \<Longrightarrow> protocolFollows d (runOps (protocolStep cod) ops d)"
  using protocol_store.run_rel [OF protocolReachable_ok [of cod d]] by simp

text \<open>
  C15: history is final.  Over any run, every command stays under its identity and version, and a
  completed one with its result; an event at the cursor of an earlier event is that event; and
  the version and the cursor of a thread never fall.
\<close>

theorem protocol_history_is_final:
  assumes "protocolReachable cod d" and d': "d' = runOps (protocolStep cod) ops d"
  shows "(\<forall>c \<in> set (pbCommands d). \<exists>c' \<in> set (pbCommands d'). sameCommandKey c c' \<and> (cdState c = CommandCompleted \<longrightarrow> c' = c)) \<and>
    (\<forall>e \<in> set (pbEvents d). \<forall>e' \<in> set (pbEvents d'). erwThread e' = erwThread e \<and> erwCursor e' = erwCursor e \<longrightarrow> e' = e) \<and>
    (\<forall>s \<in> set (pbStates d). \<exists>s' \<in> set (pbStates d'). srThread s' = srThread s \<and> srVersion s \<le> srVersion s' \<and> srCursor s \<le> srCursor s')"
proof -
  have ok: "protocolOk d" using assms(1) by (rule protocolReachable_ok)
  have ok': "protocolOk d'" unfolding d' by (rule protocolReachable_ok [OF protocolReachable_run [OF assms(1)]])
  have f: "keepsCommands d d'" "keepsLog d d'"
    using protocolReachable_follows [OF assms(1)] by (simp_all add: protocolFollows_def d')
  have event: "e' = e" if e: "e \<in> set (pbEvents d)" "e' \<in> set (pbEvents d')" "erwThread e' = erwThread e" "erwCursor e' = erwCursor e" for e e'
  proof -
    obtain s where s: "s \<in> set (pbStates d)" "e \<in> logOf s d"
      using protocolOkD(1) [OF ok] e(1)
      by (auto simp: protocolConsistent_def eventsConsistent_def list_all_iff ownsThread_def exists_row_iff logOf_def)
    obtain s' where s': "s' \<in> set (pbStates d')" "e' \<in> logOf s' d'"
      using protocolOkD(1) [OF ok'] e(2)
      by (auto simp: protocolConsistent_def eventsConsistent_def list_all_iff ownsThread_def exists_row_iff logOf_def)
    obtain t where t: "t \<in> set (pbStates d')" "srThread t = srThread s" "\<forall>e \<in> logOf t d'. erwCursor e \<le> srCursor s \<longrightarrow> e \<in> logOf s d"
      using f(2) s(1) unfolding keepsLog_def by blast
    have "t = s'" using state_unique [OF protocolOkD(1) [OF ok'] t(1) s'(1)] t(2) s(2) s'(2) e(3) by (simp add: logOf_def)
    moreover have "erwCursor e \<le> srCursor s"
    proof -
      obtain f where "logAbove f s d" using protocolOkD(2) [OF ok s(1)] ..
      then have "erwCursor e \<in> {f<..srCursor s}" using s(2) by (auto simp: logAbove_def)
      then show ?thesis by simp
    qed
    ultimately have "e' \<in> logOf s d" using t(3) s'(2) e(4) by simp
    then have "e' \<in> set (pbEvents d)" by (simp add: logOf_def)
    then show ?thesis
      using keys_inj [of "\<lambda>e. (erwThread e, erwCursor e)" "pbEvents d" e' e] e protocolOkD(1) [OF ok]
      by (simp add: protocolConsistent_def eventsConsistent_def)
  qed
  have "\<forall>e \<in> set (pbEvents d). \<forall>e' \<in> set (pbEvents d'). erwThread e' = erwThread e \<and> erwCursor e' = erwCursor e \<longrightarrow> e' = e"
    using event by blast
  moreover have "\<forall>s \<in> set (pbStates d). \<exists>s' \<in> set (pbStates d'). srThread s' = srThread s \<and> srVersion s \<le> srVersion s' \<and> srCursor s \<le> srCursor s'"
    using f(2) unfolding keepsLog_def by blast
  ultimately show ?thesis using f(1) unfolding keepsCommands_def by blast
qed

theorem protocol_history_is_final_witness:
  "\<exists>s' \<in> set (pbStates cutThread). srThread s' = ''T'' \<and> 4 \<le> srCursor s'"
proof -
  have "exists_row (\<lambda>s. srThread s = ''T'' \<and> srCursor s = 4) (pbStates logThread)" by code_simp
  then obtain s where s: "s \<in> set (pbStates logThread)" "srThread s = ''T''" "srCursor s = 4" by (auto simp: exists_row_iff)
  have "protocolReachable sampleCodec logThread" unfolding logThread_def by (rule protocolReachable_run [OF openThread_reachable])
  from protocol_history_is_final [OF this cutThread_def] s show ?thesis by metis
qed

section \<open>Admission\<close>

lemma only_one:
  assumes "c \<in> set xs" "distinct xs" "\<And>x. x \<in> set xs \<Longrightarrow> x = c"
  shows "xs = [c]"
proof (cases xs)
  case (Cons x ys)
  have "y = c \<and> x = c" if "y \<in> set ys" for y using assms(3) that Cons by simp
  then have "ys = []" using assms(2) Cons by (cases ys) auto
  then show ?thesis using assms(3) Cons by simp
qed (use assms(1) in simp)

lemma admit_Admitted:
  assumes "admit i expected d = Inr (Admitted row, d')"
  obtains v n where "row = admittedRow i v n" "pbCommands d' = pbCommands d @ [row]" "case expected of None \<Rightarrow> True | Some e \<Rightarrow> v = e"
  using assms that
  by (auto simp: admit_def stateForUpdate_def Let_def bindE_Inr_iff enforceProtocol_Inr split: if_splits option.splits)

text \<open>
  admission is idempotent.  When a command was admitted, then in every later state the same
  admission, with the same expected version or none, is answered with the command that was
  admitted, as it is by then, and changes nothing, unless the actor has lost the right to ask.
\<close>

theorem admission_is_idempotent:
  assumes "protocolReachable cod d" "admit i expected d = Inr (Admitted row, d1)" "d2 = runOps (protocolStep cod) ops d1"
    and "requireThreadAccess (pbAuthority d2) (ciOwner i) (ciThread i) (ciActor i) ThreadControl (ciAdmittedAt i) = Inr ()"
  shows "\<exists>c. admit i expected d2 = Inr (DuplicateAdmission c, d2) \<and> c \<in> set (pbCommands d2) \<and> sameCommandKey row c"
proof -
  have "d1 = runOps (protocolStep cod) [(0, OpAdmit i expected)] d" using assms(2) by (simp add: settle_def dropAnswer_def)
  then have r1: "protocolReachable cod d1" using protocolReachable_run [OF assms(1), of "[(0, OpAdmit i expected)]"] by simp
  have ok: "protocolOk d2" unfolding assms(3) by (rule protocolReachable_ok [OF protocolReachable_run [OF r1]])
  obtain v n where row: "row = admittedRow i v n" "pbCommands d1 = pbCommands d @ [row]"
    "case expected of None \<Rightarrow> True | Some e \<Rightarrow> v = e"
    using assms(2) by (rule admit_Admitted)
  have "keepsCommands d1 d2" using protocolReachable_follows [OF r1] by (simp add: protocolFollows_def assms(3))
  then obtain c where c: "c \<in> set (pbCommands d2)" "sameCommandKey row c" using row(2) unfolding keepsCommands_def by auto
  have id: "cdThread c = ciThread i" "cdId c = ciCommand i" "cdKey c = ciKey i" using c(2) row(1) by (simp_all add: sameCommandKey_def admittedRow_def)
  have cs: "distinct (map (\<lambda>c. (cdThread c, cdId c)) (pbCommands d2))" "distinct (map (\<lambda>c. (cdThread c, cdKey c)) (pbCommands d2))"
    using protocolOkD(1) [OF ok] by (simp_all add: protocolConsistent_def commandsConsistent_def)
  have only: "x = c" if "x \<in> set (existingCommands i d2)" for x
    using that keys_inj [OF cs(1) _ c(1), of x] keys_inj [OF cs(2) _ c(1), of x] id by (auto simp: existingCommands_def)
  have "c \<in> set (existingCommands i d2)" using c(1) id by (simp add: existingCommands_def)
  moreover have "distinct (existingCommands i d2)" using cs(1) by (simp add: existingCommands_def distinct_map)
  ultimately have "existingCommands i d2 = [c]" using only by (rule only_one)
  moreover have "sameCommand i expected c"
    using c(2) row by (auto simp: sameCommand_def sameCommandKey_def admittedRow_def split: option.splits)
  ultimately have "admit i expected d2 = Inr (DuplicateAdmission c, d2)" by (simp add: admit_def assms(4) readExisting_def)
  then show ?thesis using c by blast
qed

definition promptCommand :: command_input where
  "promptCommand = sampleCommand ''p'' (SubmitPromptBody ''hi'') 2"

lemma admitted_run: "(case admit promptCommand (Some 0) openThread of Inr (Admitted row, d1) \<Rightarrow> cdId row = ''p'' \<and>
    d1 = runOps (protocolStep sampleCodec) [(2, OpAdmit promptCommand (Some 0))] openThread | _ \<Rightarrow> False)"
  by code_simp

theorem admission_is_idempotent_witness:
  "let d2 = runOps (protocolStep sampleCodec) [(2, OpAdmit promptCommand (Some 0)), (5, OpClaim (\<lambda>_. False) ''w'' 10)] openThread
   in \<exists>c. admit promptCommand (Some 0) d2 = Inr (DuplicateAdmission c, d2) \<and> cdId c = ''p''"
proof -
  let ?d1 = "runOps (protocolStep sampleCodec) [(2, OpAdmit promptCommand (Some 0))] openThread"
  let ?d2 = "runOps (protocolStep sampleCodec) [(5, OpClaim (\<lambda>_. False) ''w'' 10)] ?d1"
  obtain row where row: "admit promptCommand (Some 0) openThread = Inr (Admitted row, ?d1)" "cdId row = ''p''"
    using admitted_run by (auto split: sum.splits prod.splits command_admission.splits)
  have "requireThreadAccess (pbAuthority ?d2) (ciOwner promptCommand) (ciThread promptCommand) (ciActor promptCommand) ThreadControl
      (ciAdmittedAt promptCommand) = Inr ()" by code_simp
  from admission_is_idempotent [OF openThread_reachable row(1) refl this] row(2)
  obtain c where "admit promptCommand (Some 0) ?d2 = Inr (DuplicateAdmission c, ?d2)" "cdId c = ''p''" by (auto simp: sameCommandKey_def)
  then show ?thesis by (auto simp: Let_def)
qed

section \<open>Compaction\<close>

lemma foldl_min_le: "foldl min n ns \<le> (n :: int) \<and> (\<forall>x \<in> set ns. foldl min n ns \<le> x)"
proof (induction ns arbitrary: n)
  case (Cons m ns)
  have "foldl min (min n m) ns \<le> min n m" "\<forall>x \<in> set ns. foldl min (min n m) ns \<le> x" using Cons.IH [of "min n m"] by blast+
  then show ?case by auto
qed simp

lemma acknowledgedMinimum_le:
  assumes "acknowledgedMinimum owner thread d = Some least" "w \<in> set (pbCursors d)" "cwOwner w = owner" "cwThread w = thread"
  shows "least \<le> cwCursor w"
proof -
  let ?cs = "map cwCursor (filter (\<lambda>w. cwOwner w = owner \<and> cwThread w = thread) (pbCursors d))"
  have mem: "cwCursor w \<in> set ?cs" using assms(2-4) by auto
  obtain n ns where cs: "?cs = n # ns" using mem by (cases ?cs) auto
  then have "least = foldl min n ns" using assms(1) by (simp add: acknowledgedMinimum_def)
  then show ?thesis using foldl_min_le [of n ns] mem unfolding cs by auto
qed

text \<open>
  compaction only takes what every reader has.  An event that an acknowledgement removes lies at
  or below every cursor that was acknowledged for its thread, and below a snapshot that stays.
\<close>

theorem compaction_takes_only_acknowledged:
  assumes "protocolReachable cod d" "acknowledgeCursor owner thread a cursor at1 d = Inr (r, d')"
    and "e \<in> set (pbEvents d)" "e \<notin> set (pbEvents d')"
  shows "(\<forall>w \<in> set (pbCursors d'). cwThread w = erwThread e \<longrightarrow> erwCursor e \<le> cwCursor w) \<and>
    (\<exists>s \<in> set (pbSnapshots d'). swThread s = erwThread e \<and> erwCursor e \<le> swCursor s)"
proof -
  let ?d1 = "d\<lparr>pbCursors := acknowledge owner thread (actorClient a) cursor at1 (pbCursors d)\<rparr>"
  have d': "d' = compact owner thread ?d1" "protocolConsistent d'"
    using assms(2) by (auto simp: acknowledgeCursor_def bindE_Inr_iff enforceProtocol_Inr split: option.splits)
  obtain n where n: "compactCursor owner thread ?d1 = Some n" and e: "erwOwner e = owner" "erwThread e = thread" "erwCursor e \<le> n"
    using assms(3,4) d'(1) by (auto simp: compact_def set_delete_where split: option.splits)
  obtain least s where least: "acknowledgedMinimum owner thread ?d1 = Some least"
    and s: "newestSnapshot (\<lambda>w. snapshotOf1 owner thread w \<and> swCursor w \<le> least) (pbSnapshots ?d1) = Some s" "n = swCursor s"
    using n by (auto simp: compactCursor_def split: option.splits)
  note found = newestSnapshot_SomeD [OF s(1)]
  have "s \<in> set (pbSnapshots d')" using found s(2) n by (simp add: d'(1) compact_def set_delete_where)
  moreover have "erwCursor e \<le> cwCursor w" if w: "w \<in> set (pbCursors d')" "cwThread w = thread" for w
  proof -
    have "ownsThread (pbStates d') (cwOwner w) (cwThread w)"
      using d'(2) w(1) by (simp add: protocolConsistent_def cursorsConsistent_def list_all_iff)
    then obtain t where t: "t \<in> set (pbStates d')" "srOwner t = cwOwner w" "srThread t = thread"
      using w(2) by (auto simp: ownsThread_def exists_row_iff)
    have "ownsThread (pbStates d) owner thread"
      using protocolOkD(1) [OF protocolReachable_ok [OF assms(1)]] assms(3) e
      by (auto simp: protocolConsistent_def eventsConsistent_def list_all_iff)
    moreover have states: "pbStates d' = pbStates d" "pbCursors d' = pbCursors ?d1" by (simp_all add: d'(1) compact_def split: option.splits)
    ultimately obtain u where u: "u \<in> set (pbStates d')" "srOwner u = owner" "srThread u = thread"
      by (auto simp: ownsThread_def exists_row_iff)
    have "cwOwner w = owner" using state_unique [OF d'(2) t(1) u(1)] t u by simp
    then have "least \<le> cwCursor w" using acknowledgedMinimum_le [OF least _ _ w(2)] w(1) states(2) by simp
    then show ?thesis using e(3) found s(2) by simp
  qed
  ultimately show ?thesis using e found s(2) by (auto simp: snapshotOf1_def)
qed

lemma acknowledged_run: "(case acknowledgeCursor ''o'' ''T'' sampleActor 3 4 logThread of Inr (r, d) \<Rightarrow> d = cutThread | _ \<Rightarrow> False)"
  by code_simp

theorem compaction_takes_only_acknowledged_witness:
  "\<exists>e \<in> set (pbEvents logThread). erwCursor e = 2 \<and> (\<exists>s \<in> set (pbSnapshots cutThread). erwCursor e \<le> swCursor s)"
proof -
  obtain r where r: "acknowledgeCursor ''o'' ''T'' sampleActor 3 4 logThread = Inr (r, cutThread)"
    using acknowledged_run by (auto split: sum.splits prod.splits)
  have "exists_row (\<lambda>e. erwCursor e = 2) (pbEvents logThread)" by code_simp
  then obtain e where e: "e \<in> set (pbEvents logThread)" "erwCursor e = 2" by (auto simp: exists_row_iff)
  have "e \<notin> set (pbEvents cutThread)" using e(2) arg_cong [OF cutThread_events [THEN conjunct1], of set] by (auto dest!: arg_cong [where f = "\<lambda>S. 2 \<in> S"])
  moreover have "protocolReachable sampleCodec logThread" unfolding logThread_def by (rule protocolReachable_run [OF openThread_reachable])
  ultimately have "\<exists>s \<in> set (pbSnapshots cutThread). erwCursor e \<le> swCursor s"
    using compaction_takes_only_acknowledged [OF _ r e(1)] by blast
  then show ?thesis using e by blast
qed

section \<open>Tickets\<close>

text \<open>
  C22: a socket ticket opens one connection.  After it was redeemed, no later attempt with its digest
  succeeds, for any audience and at any time, whatever happened in between.
\<close>

theorem ticket_is_single_use:
  assumes "protocolReachable cod d" "redeemTicket digest audience at1 d = Inr (b, d1)" "d2 = runOps (protocolStep cod) ops d1"
  shows "isl (redeemTicket digest audience' at2 d2)"
proof -
  have "d1 = runOps (protocolStep cod) [(0, OpRedeem digest audience at1)] d" using assms(2) by (simp add: settle_def dropAnswer_def)
  then have r1: "protocolReachable cod d1" using protocolReachable_run [OF assms(1), of "[(0, OpRedeem digest audience at1)]"] by simp
  have ok: "protocolConsistent d2" unfolding assms(3) by (rule protocolOkD(1) [OF protocolReachable_ok [OF protocolReachable_run [OF r1]]])
  let ?hit = "ticketUsable (pbAuthority d) digest audience at1"
  obtain k where k: "find ?hit (pbTickets d) = Some k"
    and d1: "pbTickets d1 = update_where ?hit (\<lambda>k. k\<lparr>tkConsumedAt := Some at1\<rparr>) (pbTickets d)"
    using assms(2) by (auto simp: redeemTicket_def Let_def bindE_Inr_iff enforceProtocol_Inr split: option.splits)
  have "k \<in> set (pbTickets d)" "?hit k" using k by (auto simp: find_Some_iff)
  then have "k\<lparr>tkConsumedAt := Some at1\<rparr> \<in> set (pbTickets d1)" "tkDigest k = digest"
    unfolding d1 set_update_where by (auto simp: ticketUsable_def)
  moreover have "ticketsFollow (pbTickets d1) (pbTickets d2)"
    using protocolReachable_follows [OF r1] by (simp add: protocolFollows_def assms(3))
  ultimately obtain k2 where k2: "k2 \<in> set (pbTickets d2)" "tkDigest k2 = digest" "tkConsumedAt k2 \<noteq> None"
    unfolding ticketsFollow_def by fastforce
  have "\<not> ticketUsable (pbAuthority d2) digest audience' at2 x" if "x \<in> set (pbTickets d2)" for x
    using keys_inj [of tkDigest "pbTickets d2" x k2] that k2 ok
    by (auto simp: ticketUsable_def protocolConsistent_def ticketsConsistent_def)
  then have "find (ticketUsable (pbAuthority d2) digest audience' at2) (pbTickets d2) = None" by (simp add: find_None_iff)
  then show ?thesis by (simp add: redeemTicket_def Let_def enforceProtocol_def)
qed

definition sampleTicket :: ticket_binding where
  "sampleTicket = \<lparr>tbTicket = ''k'', tbUser = ''u'', tbClient = ''c'', tbDevice = ''v'', tbAudience = ''live'', tbExpiresAt = 60\<rparr>"

definition ticketThread :: "(string, string) protocol_db" where
  "ticketThread = runOps (protocolStep sampleCodec) [(2, OpIssue sampleTicket ''h'' 2)] openThread"

theorem ticket_is_single_use_witness:
  "\<exists>b d1. redeemTicket ''h'' ''live'' 3 ticketThread = Inr (b, d1) \<and> isl (redeemTicket ''h'' ''live'' 4 d1)"
proof -
  have "\<not> isl (redeemTicket ''h'' ''live'' 3 ticketThread)" by code_simp
  then obtain b d1 where r: "redeemTicket ''h'' ''live'' 3 ticketThread = Inr (b, d1)"
    by (cases "redeemTicket ''h'' ''live'' 3 ticketThread") auto
  have "protocolReachable sampleCodec ticketThread" unfolding ticketThread_def by (rule protocolReachable_run [OF openThread_reachable])
  from ticket_is_single_use [OF this r, of _ "[]"] r show ?thesis by auto
qed

section \<open>Cancelled prompts\<close>

lemma commandOf_other:
  assumes "i \<noteq> j" "\<And>x. cdThread (f x) = cdThread x \<and> cdId (f x) = cdId x"
    and "d' = d\<lparr>pbCommands := update_where (\<lambda>x. cdThread x = thread \<and> cdId x = i) f (pbCommands d)\<rparr>"
  shows "commandOf thread j d' = commandOf thread j d"
proof -
  have "find (\<lambda>x. cdThread x = thread \<and> cdId x = j) (update_where (\<lambda>x. cdThread x = thread \<and> cdId x = i) f cs) =
      find (\<lambda>x. cdThread x = thread \<and> cdId x = j) cs" for cs
    using assms(1,2) by (induction cs) (auto simp: update_where_def)
  then show ?thesis by (simp add: commandOf_def assms(3))
qed

lemma cancelPrompt_Inr:
  assumes "cancelPrompt i now d = Inr (r, d')"
  obtains st c d1 where "commandOf (cnThread i) (cnCommand i) d = Some c" "cancelTarget (cdBody c) = Some (cnTarget i)"
    "(if cnClaim i = None \<and> cdState c = CommandAdmitted
      then updateCommand (cnThread i) (cnCommand i) (appliedCancel (srCursor st) (cnAt i)) d else Inr d) = Inr d1"
    "cancelTargetCommand i (st :: state_row) d1 = Inr (r, d')"
proof -
  have access: "requireThreadAccess (pbAuthority d) (cnOwner i) (cnThread i) (cnActor i) ThreadControl (cnAt i) = Inr ()"
    using assms by (cases "requireThreadAccess (pbAuthority d) (cnOwner i) (cnThread i) (cnActor i) ThreadControl (cnAt i)")
      (simp_all add: cancelPrompt_def)
  obtain st where st: "stateForUpdate (cnOwner i) (cnThread i) d = Some st"
    using assms access by (auto simp: cancelPrompt_def split: option.splits)
  obtain c where c: "commandOf (cnThread i) (cnCommand i) d = Some c"
    using assms access st by (auto simp: cancelPrompt_def split: option.splits)
  show ?thesis
    using assms that [OF c]
    by (simp only: cancelPrompt_def access bindE.simps st c option.case guard_Inr bindE_Inr_iff) blast
qed

text \<open>
  C12: a cancelled prompt never runs.  When a prompt that was still admitted is cancelled, then
  whatever happens later, applying it answers that it was cancelled, by that command, and
  changes nothing.
\<close>

theorem cancelled_prompt_never_applies:
  assumes "protocolReachable cod d" "cancelPrompt i now d = Inr (r, d1)"
    and "commandOf (cnThread i) (cnTarget i) d = Some t" "cdState t = CommandAdmitted"
    and "d2 = runOps (protocolStep cod) ops d1" "apThread p = cnThread i" "apCommand p = cnTarget i"
    and "applyPrompt cod p stage later d2 = Inr (x, d3)"
  shows "(\<exists>c. x = PromptCancelled c \<and> cdId c = cnTarget i \<and> cdCancelledBy c = Some (cnCommand i)) \<and> d3 = d2"
proof -
  have "d1 = runOps (protocolStep cod) [(now, OpCancel i)] d" using assms(2) by (simp add: settle_def dropAnswer_def)
  then have r1: "protocolReachable cod d1" using protocolReachable_run [OF assms(1), of "[(now, OpCancel i)]"] by simp
  obtain st c da where c: "commandOf (cnThread i) (cnCommand i) d = Some c" "cancelTarget (cdBody c) = Some (cnTarget i)"
    and da: "(if cnClaim i = None \<and> cdState c = CommandAdmitted
      then updateCommand (cnThread i) (cnCommand i) (appliedCancel (srCursor st) (cnAt i)) d else Inr d) = Inr da"
    and run: "cancelTargetCommand i (st :: state_row) da = Inr (r, d1)"
    using assms(2) by (rule cancelPrompt_Inr)
  have same: "pbCommands da = update_where (\<lambda>x. cdThread x = cnThread i \<and> cdId x = cnCommand i) (appliedCancel (srCursor st) (cnAt i)) (pbCommands d) \<or> da = d"
    using da by (auto simp: updateCommand_def enforceProtocol_Inr split: if_splits)
  have target: "commandOf (cnThread i) (cnTarget i) da = Some t" if "cnCommand i \<noteq> cnTarget i"
    using same
  proof
    assume "pbCommands da = update_where (\<lambda>x. cdThread x = cnThread i \<and> cdId x = cnCommand i) (appliedCancel (srCursor st) (cnAt i)) (pbCommands d)"
    then have "commandOf (cnThread i) (cnTarget i) da = commandOf (cnThread i) (cnTarget i)
        (d\<lparr>pbCommands := update_where (\<lambda>x. cdThread x = cnThread i \<and> cdId x = cnCommand i) (appliedCancel (srCursor st) (cnAt i)) (pbCommands d)\<rparr>)"
      by (simp add: commandOf_def)
    also have "\<dots> = commandOf (cnThread i) (cnTarget i) d" by (rule commandOf_other [OF that _ refl]) (simp add: appliedCancel_def)
    finally show ?thesis using assms(3) by simp
  qed (use assms(3) in simp)
  have "cnCommand i \<noteq> cnTarget i"
  proof
    assume eq: "cnCommand i = cnTarget i"
    have "c = t" using c(1) assms(3) eq by simp
    have "commandOf (cnThread i) (cnTarget i) da \<in> {Some t, Some (appliedCancel (srCursor st) (cnAt i) t)}"
      using same
    proof
      assume up: "pbCommands da = update_where (\<lambda>x. cdThread x = cnThread i \<and> cdId x = cnCommand i) (appliedCancel (srCursor st) (cnAt i)) (pbCommands d)"
      have "commandOf (cdThread t) (cdId t) (d\<lparr>pbCommands := update_where (\<lambda>x. cdThread x = cdThread t \<and> cdId x = cdId t)
          (appliedCancel (srCursor st) (cnAt i)) (pbCommands d)\<rparr>) = Some (appliedCancel (srCursor st) (cnAt i) t)"
        using commandOfD [OF assms(3)]
        by (intro commandOf_update [OF protocolOkD(1) [OF protocolReachable_ok [OF assms(1)]] _ _ refl]) (auto simp: appliedCancel_def)
      then show ?thesis using commandOfD [OF assms(3)] up eq by (simp add: commandOf_def)
    qed (use assms(3) in simp)
    moreover have "\<not> isSubmit (cdBody t)" using c(2) \<open>c = t\<close> by (cases "cdBody t") simp_all
    ultimately show False using run by (auto simp: cancelTargetCommand_def appliedCancel_def)
  qed
  from target [OF this] have td: "commandOf (cnThread i) (cnTarget i) da = Some t" .
  let ?t = "cancelledRow (cnCommand i) (srCursor st) (cnAt i) t"
  have "updateCommand (cnThread i) (cnTarget i) (cancelledRow (cnCommand i) (srCursor st) (cnAt i)) da = Inr d1"
    using run assms(4) by (auto simp: cancelTargetCommand_def td bindE_Inr_iff split: if_splits)
  then have "pbCommands d1 = update_where (\<lambda>x. cdThread x = cnThread i \<and> cdId x = cnTarget i)
      (cancelledRow (cnCommand i) (srCursor st) (cnAt i)) (pbCommands da)"
    by (auto simp: updateCommand_def enforceProtocol_Inr)
  then have t1: "?t \<in> set (pbCommands d1)" using commandOfD [OF td] by (auto simp: set_update_where)
  have "keepsCommands d1 d2" using protocolReachable_follows [OF r1] by (simp add: protocolFollows_def assms(5))
  then have t2: "?t \<in> set (pbCommands d2)" using t1 unfolding keepsCommands_def by (fastforce simp: cancelledRow_def)
  have ok: "protocolConsistent d2" unfolding assms(5) by (rule protocolOkD(1) [OF protocolReachable_ok [OF protocolReachable_run [OF r1]]])
  obtain u where u: "find (ownedCommand (apOwner p) (apThread p) (apCommand p)) (pbCommands d2) = Some u"
    using assms(8) by (auto simp: applyPrompt_def split: if_splits option.splits)
  have "u = ?t"
    using find_ownedD [OF u] commandOfD [OF td] assms(6,7) command_unique [OF ok _ t2, of u] by (simp add: cancelledRow_def)
  then have "bindE (completedApplication p ?t d2) (\<lambda>r. Inr (r, d2)) = Inr (x, d3)"
    using assms(8) u by (auto simp: applyPrompt_def cancelledRow_def split: if_splits option.splits)
  then show ?thesis using commandOfD [OF td] by (auto simp: completedApplication_def cancelledRow_def bindE_Inr_iff)
qed

definition sampleCancel :: "string option \<Rightarrow> cancel_input" where
  "sampleCancel token = \<lparr>cnOwner = ''o'', cnThread = ''T'', cnCommand = ''x'', cnTarget = ''p'', cnActor = sampleActor, cnAt = 7, cnClaim = token\<rparr>"

definition sampleApply :: apply_input where
  "sampleApply = \<lparr>apOwner = ''o'', apThread = ''T'', apCommand = ''p'', apClaim = Some ''w'', apTurn = ''t1'', apActor = sampleActor,
     apPrompt = ''hi'', apParts = None, apRoute = ''r'', apPrepared = \<lparr>pnThread = ''T'', pnTurn = ''t1'', pnTitle = Some ''Hi'', pnText = ''prep''\<rparr>,
     apSubmission = ''started'', apCompletedAt = 8, apCapacity = 2, apReady = True\<rparr>"

theorem cancelled_prompt_never_applies_witness:
  "\<exists>r d1 x d3. cancelPrompt (sampleCancel (Some ''v'')) 7 laneThread = Inr (r, d1) \<and>
    applyPrompt sampleCodec sampleApply (Inl databaseError) 8 d1 = Inr (x, d3) \<and> d3 = d1"
proof -
  have "\<not> isl (cancelPrompt (sampleCancel (Some ''v'')) 7 laneThread)" by code_simp
  then obtain r d1 where r: "cancelPrompt (sampleCancel (Some ''v'')) 7 laneThread = Inr (r, d1)"
    by (cases "cancelPrompt (sampleCancel (Some ''v'')) 7 laneThread") auto
  have "(case cancelPrompt (sampleCancel (Some ''v'')) 7 laneThread of Inl _ \<Rightarrow> False
      | Inr (r, d1) \<Rightarrow> \<not> isl (applyPrompt sampleCodec sampleApply (Inl databaseError) 8 d1))" by code_simp
  then obtain x d3 where x: "applyPrompt sampleCodec sampleApply (Inl databaseError) 8 d1 = Inr (x, d3)"
    unfolding r by (cases "applyPrompt sampleCodec sampleApply (Inl databaseError) 8 d1") auto
  have "(case commandOf ''T'' ''p'' laneThread of None \<Rightarrow> False | Some t \<Rightarrow> cdState t = CommandAdmitted)" by code_simp
  then obtain t where t: "commandOf ''T'' ''p'' laneThread = Some t" "cdState t = CommandAdmitted" by (auto split: option.splits)
  have "d3 = d1"
    using cancelled_prompt_never_applies [OF laneThread_reachable r, of t d1 "[]" sampleApply "Inl databaseError" 8 x d3] t x
    by (simp add: sampleCancel_def sampleApply_def)
  then show ?thesis using r x by blast
qed

section \<open>A cancellation a worker holds\<close>

text \<open>
  C34: cancelling without a claim does not clear a claim.  cancelPrompt completes the cancellation
  command when it is called without a claim token, but leaves the claim in the row, which the
  constraint on claims refuses: while a worker holds the command, the call that should cancel
  at once is answered with a database error.
\<close>

theorem claimed_cancellation_is_refused:
  assumes "requireThreadAccess (pbAuthority d) (cnOwner i) (cnThread i) (cnActor i) ThreadControl (cnAt i) = Inr ()"
    and "ownsThread (pbStates d) (cnOwner i) (cnThread i)" "commandOf (cnThread i) (cnCommand i) d = Some c"
    and "cancelTarget (cdBody c) = Some (cnTarget i)" "cdActor c = cnActor i" "cnClaim i = None"
    and "protocolReachable cod d" "cdState c = CommandAdmitted" "cdClaim c \<noteq> None"
  shows "cancelPrompt i now d = Inl databaseError"
proof -
  obtain st where st: "stateForUpdate (cnOwner i) (cnThread i) d = Some st"
    using assms(2) by (cases "stateForUpdate (cnOwner i) (cnThread i) d")
      (auto simp: stateForUpdate_def stateOf_def ownsThread_def exists_row_iff find_None_iff)
  note found = commandOfD [OF assms(3)]
  have "commandCheck c"
    using found protocolOkD(1) [OF protocolReachable_ok [OF assms(7)]] by (simp add: protocolConsistent_def commandsConsistent_def list_all_iff)
  then have bad: "\<not> commandCheck (appliedCancel (srCursor st) (cnAt i) c)"
    using assms(8,9) by (auto simp: commandCheck_def appliedCancel_def)
  let ?d1 = "d\<lparr>pbCommands := update_where (\<lambda>c. cdThread c = cnThread i \<and> cdId c = cnCommand i) (appliedCancel (srCursor st) (cnAt i)) (pbCommands d)\<rparr>"
  have "appliedCancel (srCursor st) (cnAt i) c \<in> set (pbCommands ?d1)" using found by (auto simp: set_update_where)
  then have "\<not> protocolConsistent ?d1" using bad by (auto simp: protocolConsistent_def commandsConsistent_def list_all_iff)
  then have "updateCommand (cnThread i) (cnCommand i) (appliedCancel (srCursor st) (cnAt i)) d = Inl databaseError"
    by (simp add: updateCommand_def enforceProtocol_def)
  then show ?thesis by (simp add: cancelPrompt_def assms(1,3-6,8) st)
qed

theorem claimed_cancellation_is_refused_witness:
  "cancelPrompt (sampleCancel None) 7 laneThread = Inl databaseError"
proof -
  have "(case commandOf ''T'' ''x'' laneThread of None \<Rightarrow> False
      | Some c \<Rightarrow> cancelTarget (cdBody c) = Some ''p'' \<and> cdActor c = sampleActor \<and> cdState c = CommandAdmitted \<and> cdClaim c \<noteq> None)"
    by code_simp
  then obtain c where c: "commandOf ''T'' ''x'' laneThread = Some c" "cancelTarget (cdBody c) = Some ''p''" "cdActor c = sampleActor"
    "cdState c = CommandAdmitted" "cdClaim c \<noteq> None" by (auto split: option.splits)
  have "requireThreadAccess (pbAuthority laneThread) ''o'' ''T'' sampleActor ThreadControl 7 = Inr ()" by code_simp
  then show ?thesis
    using claimed_cancellation_is_refused [of laneThread "sampleCancel None" c sampleCodec 7] c laneThread_reachable
    by (simp add: sampleCancel_def laneThread_state ownsThread_def exists_row_iff)
qed

end
