(* ===== verification/Steering_Properties.thy ===== *)
theory Steering_Properties
  imports Turn_Properties
begin

text \<open>
  The capacity of a queue, the hand-over of a turn to the execution backend and the steering
  requests: idempotent retries, exclusive outcomes, and the way a queued turn leaves the
  queue for a steering request and comes back when the request is rejected.
\<close>

section \<open>Capacity\<close>

definition queuedIn :: "thread_id \<Rightarrow> turn_row \<Rightarrow> bool" where
  "queuedIn t r \<longleftrightarrow> threadId r = t \<and> turnKind r = KindAgent \<and> status r = StQueued"

text \<open>
  The counter and the reserved places together are the queued rows of the thread.
\<close>

lemma count_where_split: "count_where P rows = count_where (\<lambda>r. P r \<and> Q r) rows + count_where (\<lambda>r. P r \<and> \<not> Q r) rows"
  by (induction rows) (auto simp: table_simps)

lemma reserved_rows:
  assumes ok: "storeOk d"
  shows "reservedCount t d = count_where (\<lambda>r. queuedIn t r \<and> withdrawnSource d (rowId r)) (turns d)"
proof -
  note cons = storeOkD(4) [OF ok]
  let ?S = "filter (\<lambda>s. obThreadId s = t \<and> sourceTurnId s \<noteq> None \<and> obStatus s \<noteq> ObRejected \<and> withdrawnColumn s = 1)
    (steering d)"
  let ?R = "filter (\<lambda>r. queuedIn t r \<and> withdrawnSource d (rowId r)) (turns d)"
  have "distinct (map sourceTurnId ?S)"
    using distinct_map_filter [OF consistentD(7) [OF cons],
        of "\<lambda>s. obThreadId s = t \<and> obStatus s \<noteq> ObRejected \<and> withdrawnColumn s = 1"]
    by (simp add: conj_ac)
  moreover have "distinct (map (\<lambda>r. Some (rowId r)) ?R)"
    using distinct_map_filter [OF consistentD(1) [OF cons], of "\<lambda>r. queuedIn t r \<and> withdrawnSource d (rowId r)"]
    by (auto simp: distinct_map inj_on_def)
  moreover have "sourceTurnId ` set ?S = (\<lambda>r. Some (rowId r)) ` set ?R"
  proof (intro set_eqI iffI)
    fix x assume "x \<in> sourceTurnId ` set ?S"
    then obtain s i where s: "s \<in> set (steering d)" "obThreadId s = t" "x = Some i" "sourceTurnId s = Some i"
      "obStatus s \<noteq> ObRejected" "withdrawnColumn s = 1" by auto
    obtain r where r: "turnById i d = Some r" using consistentD(11) [OF cons s(1,4)] turnById_None [of i d] by auto
    note live = live_source [OF storeOkD(1) [OF ok] s(1,5,4) r]
    have "r \<in> set ?R" "rowId r = i"
      using turnById_SomeD [OF r] live s by (auto simp: queuedIn_def withdrawnSource_iff)
    with s(3) show "x \<in> (\<lambda>r. Some (rowId r)) ` set ?R" by blast
  next
    fix x assume "x \<in> (\<lambda>r. Some (rowId r)) ` set ?R"
    then obtain r where r: "r \<in> set (turns d)" "queuedIn t r" "withdrawnSource d (rowId r)" "x = Some (rowId r)" by auto
    then obtain s where s: "s \<in> set (steering d)" "sourceTurnId s = Some (rowId r)" "obStatus s \<noteq> ObRejected"
      "withdrawnColumn s = 1" by (auto simp: withdrawnSource_iff)
    have "turnById (rowId r) d = Some r" using r(1) by (simp add: turnById_iff [OF cons])
    with live_source(3) [OF storeOkD(1) [OF ok] s(1,3,2)] r(2) have "obThreadId s = t" by (simp add: queuedIn_def)
    with s r(4) show "x \<in> sourceTurnId ` set ?S" by force
  qed
  ultimately have "length (map sourceTurnId ?S) = length (map (\<lambda>r. Some (rowId r)) ?R)"
    by (metis (no_types, lifting) distinct_card list.set_map)
  then show ?thesis by (simp add: reservedCount_def count_where_def)
qed

lemma occupancy_rows:
  assumes ok: "storeOk d"
  shows "recordedCount d t + int (reservedCount t d) = int (count_where (queuedIn t) (turns d))"
proof -
  have "(\<lambda>r. queuedIn t r \<and> \<not> withdrawnSource d (rowId r)) = (\<lambda>r. threadId r = t \<and> countedRow d r)"
    by (auto simp: queuedIn_def countedRow_def)
  then have "count_where (\<lambda>r. queuedIn t r \<and> \<not> withdrawnSource d (rowId r)) (turns d) = visibleCount d t"
    by (simp add: visibleCount_def)
  with count_where_split [of "queuedIn t" "turns d" "\<lambda>r. withdrawnSource d (rowId r)"] reserved_rows [OF ok]
    storeOk_drift [OF ok, of t]
  show ?thesis by (simp add: drift_def)
qed

lemma decodeAgent_not_full: "decodeAgent r \<noteq> Inl (QueueFull t c n)"
  by (auto simp: decodeAgent_def decode_def decodeShell_def Let_def bindE_Inl_iff
      split: if_splits turn_kind.splits option.splits turn.splits)

lemma statements_not_full:
  "insertTurn r d \<noteq> Inl (QueueFull t c n)"
  "insertQueueIfMissing u d \<noteq> Inl (QueueFull t c n)"
  "updateQueue P u f d \<noteq> Inl (QueueFull t c n)"
  by (auto simp: insertTurn_def insertQueueIfMissing_def updateQueue_def Let_def enforce_def bindE_Inl_iff
      split: if_splits)

lemma reserveUpdate_full:
  assumes "reserveUpdate u capacity d = Inl (QueueFull t c n)"
  obtains q where "t = u" "c = capacity" "queueOf u d = Some q" "n = queuedCount q + int (reservedCount u d)" "c \<le> n"
proof (cases "updateQueue (\<lambda>q. queuedCount q + int (reservedCount u d) < capacity) u (addQueued 1) d")
  case (Inl e)
  with assms statements_not_full(3) show ?thesis by (auto simp: reserveUpdate_def)
next
  case (Inr qd)
  obtain q d1 where qd: "qd = (q, d1)" by (cases qd)
  note run = assms [unfolded reserveUpdate_def Inr qd bindE.simps prod.case]
  then have "q = None" by (cases q) simp_all
  note none = updateQueue_NoneE [OF Inr [unfolded qd this] qThread_updates(2)]
  from run \<open>q = None\<close> none that show ?thesis by (cases "queueOf u d") (auto simp: queueMissing_def)
qed

lemma createForSubmission_full:
  assumes "createForSubmission inp d = Inl (QueueFull t c n)"
  obtains row row' d1 d2 where "insertTurn row d = Inr (row', d1)"
    "insertQueueIfMissing (inThreadId inp) d1 = Inr d2"
    "reserveUpdate (inThreadId inp) (inQueueCapacity inp) d2 = Inl (QueueFull t c n)"
proof -
  let ?row = "agentRow \<lparr> aId = inId inp, aThreadId = inThreadId inp, aPrompt = inPrompt inp,
       aPromptParts = inPromptParts inp,
       aStatus = (if exists_row (\<lambda>r. threadId r = inThreadId inp \<and> turnKind r = KindAgent \<and>
                   status r \<in> set nonterminal_statuses) (turns d) then StQueued else StAccepted),
       aExecutionRoute = inExecutionRoute inp, aExecutionLink = None,
       aAuthor = (case inAuthor inp of None \<Rightarrow> Human | Some a \<Rightarrow> a),
       aLineage = (case inLineage inp of None \<Rightarrow> Original | Some l \<Rightarrow> l),
       aCreatedAt = inNow inp, aUpdatedAt = inNow inp \<rparr>"
  note run = assms [unfolded createForSubmission_def Let_def]
  obtain row' d1 where ins: "insertTurn ?row d = Inr (row', d1)"
    using run statements_not_full(1) by (cases "insertTurn ?row d") auto
  note run = run [unfolded ins bindE.simps prod.case]
  obtain turn where turn: "decodeAgent row' = Inr turn"
    using run decodeAgent_not_full by (cases "decodeAgent row'") auto
  note run = run [unfolded turn bindE.simps]
  have "reserveQueueEntry (inThreadId inp) (inQueueCapacity inp) d1 = Inl (QueueFull t c n)"
    using run by (auto simp: bindE_Inl_iff split: if_splits)
  then obtain d2 where "insertQueueIfMissing (inThreadId inp) d1 = Inr d2"
    "reserveUpdate (inThreadId inp) (inQueueCapacity inp) d2 = Inl (QueueFull t c n)"
    using statements_not_full(2) by (auto simp: reserveQueueEntry_def bindE_Inl_iff)
  with ins show ?thesis by (intro that) simp_all
qed

lemma recordedCount_insertQueueIfMissing:
  assumes "insertQueueIfMissing t d = Inr d'"
  shows "recordedCount d' u = recordedCount d u"
proof (cases "exists_row (\<lambda>q. qThread q = t) (queues d)")
  case False
  then have none: "row_by qThread t (queues d) = None" by (auto simp: row_by_None exists_row_iff)
  from False assms have "queues d' = queues d @ [\<lparr>qThread = t, revision = 0, queuedCount = 0\<rparr>]"
    by (auto simp: insertQueueIfMissing_def result_simps)
  with none show ?thesis
    by (cases "u = t") (auto simp: recordedCount_def queueOf_def row_by_append split: option.splits)
qed (use assms in \<open>simp add: insertQueueIfMissing_def\<close>)

text \<open>
  a submission to a reachable store that is queued leaves the thread with at most as many
  queued turns as the queue's capacity, withdrawn ones included; it is refused as full only
  if the thread already holds that many, and the refusal reports their number.
\<close>

theorem submission_respects_capacity:
  assumes "storeReachable d"
  shows "(createForSubmission inp d = Inr ((turn, Some change), d') \<longrightarrow>
      int (count_where (queuedIn (inThreadId inp)) (turns d')) \<le> inQueueCapacity inp) \<and>
    (createForSubmission inp d = Inl (QueueFull t capacity n) \<longrightarrow>
      t = inThreadId inp \<and> capacity = inQueueCapacity inp \<and> capacity \<le> n \<and>
      n = int (count_where (queuedIn t) (turns d)))"
proof (intro conjI impI)
  have ok: "storeOk d" using storeReachable_ok [OF assms] .
  let ?t = "inThreadId inp"
  assume run: "createForSubmission inp d = Inr ((turn, Some change), d')"
  have ok': "storeOk d'" using createForSubmission_ok [OF ok run] .
  from run obtain d1 q where "reserveQueueEntry ?t (inQueueCapacity inp) d1 = Inr (q, d')"
    by (cases rule: createForSubmission_cases) auto
  then obtain d2 where "reserveUpdate ?t (inQueueCapacity inp) d2 = Inr (q, d')" by (rule reserveQueueEntryE)
  then obtain q0 where q0: "queueOf ?t d2 = Some q0" "queuedCount q0 + int (reservedCount ?t d2) < inQueueCapacity inp"
    and d': "d' = d2\<lparr>queues := update_where (\<lambda>q. qThread q = ?t) (addQueued 1) (queues d2)\<rparr>"
    by (rule reserveUpdateE)
  have "recordedCount d' ?t = queuedCount q0 + 1"
    using q0(1) queueOf_update [where f = "addQueued 1" and u = ?t and d = d2 and t = ?t]
    by (simp add: recordedCount_def d' addQueued_def)
  moreover have "reservedCount ?t d' = reservedCount ?t d2" by (simp add: reservedCount_def d')
  ultimately show "int (count_where (queuedIn ?t) (turns d')) \<le> inQueueCapacity inp"
    using occupancy_rows [OF ok', of ?t] q0(2) by simp
next
  assume "createForSubmission inp d = Inl (QueueFull t capacity n)"
  then obtain row row' d1 d2 where ins: "insertTurn row d = Inr (row', d1)"
    and queue: "insertQueueIfMissing (inThreadId inp) d1 = Inr d2"
    and upd: "reserveUpdate (inThreadId inp) (inQueueCapacity inp) d2 = Inl (QueueFull t capacity n)"
    by (rule createForSubmission_full)
  from upd obtain q where q: "t = inThreadId inp" "capacity = inQueueCapacity inp"
    "queueOf (inThreadId inp) d2 = Some q" "n = queuedCount q + int (reservedCount (inThreadId inp) d2)" "capacity \<le> n"
    by (rule reserveUpdate_full)
  from ins have d1: "d1 = d\<lparr>turns := turns d @ [row']\<rparr>" by (rule insertTurnE)
  have "queuedCount q = recordedCount d t"
    using q(1,3) recordedCount_insertQueueIfMissing [OF queue, of t] by (simp add: recordedCount_def d1)
  moreover have "reservedCount t d2 = reservedCount t d"
    using queue by (auto simp: reservedCount_def d1 insertQueueIfMissing_def result_simps split: if_splits)
  ultimately show "t = inThreadId inp" "capacity = inQueueCapacity inp" "capacity \<le> n"
    "n = int (count_where (queuedIn t) (turns d))"
    using occupancy_rows [OF storeReachable_ok [OF assms], of t] q by simp_all
qed

definition fullStore :: db where
  "fullStore = sampleStore queuedRun"

theorem submission_respects_capacity_witness:
  "createForSubmission (sampleInput ''d'' 4) fullStore = Inl (QueueFull ''T'' 2 2) \<and>
   2 = int (count_where (queuedIn ''T'') (turns fullStore))"
proof -
  have full: "createForSubmission (sampleInput ''d'' 4) fullStore = Inl (QueueFull ''T'' 2 2)" by code_simp
  have "storeReachable fullStore" unfolding fullStore_def by (rule sampleStore_reachable [OF queuedRun_allowed])
  from submission_respects_capacity [OF this, of "sampleInput ''d'' 4"] full show ?thesis by auto
qed

section \<open>Handing a turn to the execution backend\<close>

text \<open>
  preparing the execution of a turn is idempotent: repeated with the same input it
  returns the same admission and writes nothing; with another input for the same turn it is
  refused and writes nothing.
\<close>

theorem prepare_execution_idempotent:
  assumes "prepareExecutionAdmission prepared now d = Inr (res, d')"
  shows "prepareExecutionAdmission prepared now' d' = Inr (prepared, d') \<and>
    (other \<noteq> prepared \<and> stTurnId other = stTurnId prepared \<and> stWorkspaceId other \<noteq> [] \<longrightarrow>
      prepareExecutionAdmission other now' d' = Inl (RepositoryError (''Turn '' @ stTurnId prepared @
        '' already has different prepared execution admission'')))"
proof -
  have valid: "printableId (stTurnId prepared)" "stWorkspaceId prepared \<noteq> []"
    using assms by (auto simp: prepareExecutionAdmission_def Let_def split: if_splits)
  have "\<exists>row. admissionOf (stTurnId prepared) d' = Some row \<and> admStartInput row = prepared"
    using assms
  proof (cases rule: prepareExecutionAdmission_cases)
    case (2 r)
    then show ?thesis by (simp add: admissionOf_def row_by_append)
  qed simp
  with valid show ?thesis by (auto simp: prepareExecutionAdmission_def Let_def)
qed

definition sampleStart :: start_turn where
  "sampleStart = \<lparr> stThreadId = ''T'', stTurnId = ''a'', stWorkspaceId = ''w'', stPrompt = ''p'', stRest = ''{}'' \<rparr>"

definition preparedStore :: db where
  "preparedStore = sampleStore (queuedRun @ [OpPrepareExecutionAdmission sampleStart 4])"

theorem prepare_execution_idempotent_witness:
  "prepareExecutionAdmission sampleStart 9 preparedStore = Inr (sampleStart, preparedStore)"
proof -
  have "prepareExecutionAdmission sampleStart 4 fullStore = Inr (sampleStart, preparedStore)" by code_simp
  from prepare_execution_idempotent [OF this] show ?thesis by blast
qed

text \<open>
  attaching the execution link of a turn consumes its admission; attaching it again
  returns the turn and writes nothing, and a link that differs is refused.
\<close>

theorem attach_link_idempotent:
  assumes "storeReachable d" and "attachExecutionLink i link now d = Inr (turn, d')"
  shows "\<exists>l. aExecutionLink turn = Some l \<and> runId l = runId link \<and> linkTurnId l = linkTurnId link \<and>
      linkThreadId l = linkThreadId link \<and> admissionOf i d' = None \<and>
      attachExecutionLink i link now' d' = Inr (turn, d') \<and>
      (runId other \<noteq> runId link \<longrightarrow> attachExecutionLink i other now' d' =
        Inl (RepositoryError (''Turn '' @ i @ '' already has a different execution link'')))"
proof -
  have ok: "storeOk d" using storeReachable_ok [OF assms(1)] .
  have gone: "admissionOf i (deleteAdmission i x) = None" for x
    by (auto simp: admissionOf_def deleteAdmission_def row_by_None set_delete_where)
  have again: "deleteAdmission i (deleteAdmission i x) = deleteAdmission i x" for x
    by (simp add: deleteAdmission_def delete_where_def)
  have "\<exists>row l. agentById i d' = Some row \<and> decodeAgent row = Inr turn \<and> aExecutionLink turn = Some l \<and>
      runId l = runId link \<and> linkTurnId l = linkTurnId link \<and> linkThreadId l = linkThreadId link \<and>
      (\<exists>x. d' = deleteAdmission i x)"
    using assms(2)
  proof (cases rule: attachExecutionLink_cases)
    case (1 row existing old)
    then have "agentById i d' \<noteq> None" by (auto simp: agentById_def find_None_iff)
    then obtain row' where row': "agentById i d' = Some row'" by blast
    have "row' = row"
      using find_unique [OF row' [unfolded agentById_def]] 1(1,2,10)
        keys_inj [OF consistentD(1) [OF storeOkD(4) [OF ok]], of row' row] by simp
    with 1 row' decodeAgent_Inr(5) [OF 1(4)] show ?thesis by auto
  next
    case (2 row adm d1 row')
    have "consistent d1" using 2(8) by (auto simp: updateTurns_def result_simps)
    have row': "row' \<in> set (turns d1)" "rowId row' = i" using turnById_SomeD [OF 2(9)] by auto
    have "agentById i d' \<noteq> None"
      using row' decodeAgent_Inr(1) [OF 2(10)] 2(11) by (auto simp: agentById_def find_None_iff)
    then obtain row'' where row'': "agentById i d' = Some row''" by blast
    have "row'' = row'"
      using find_unique [OF row'' [unfolded agentById_def]] row' 2(11)
        keys_inj [OF consistentD(1) [OF \<open>consistent d1\<close>], of row'' row'] by simp
    moreover have "executionLink row' = Some link"
    proof -
      have "d1 = d\<lparr>turns := update_where (\<lambda>r. rowId r = i \<and> turnKind r = KindAgent \<and> executionLink r = None)
         (\<lambda>r. r\<lparr>executionLink := Some link, updatedAt := now\<rparr>) (turns d)\<rparr>"
        using 2(8) by (auto simp: updateTurns_def result_simps)
      moreover have "turnById i d = Some row" using 2(1,2) by (simp add: turnById_iff [OF storeOkD(4) [OF ok]])
      ultimately show ?thesis
        using 2(2-4,9) turnById_update [of "\<lambda>r. rowId r = i \<and> turnKind r = KindAgent \<and> executionLink r = None"]
        by auto
    qed
    ultimately show ?thesis using row'' 2(10,11) decodeAgent_Inr(5) [OF 2(10)] by auto
  qed
  then obtain row l x where "agentById i d' = Some row" "decodeAgent row = Inr turn" "aExecutionLink turn = Some l"
    "runId l = runId link" "linkTurnId l = linkTurnId link" "linkThreadId l = linkThreadId link"
    "d' = deleteAdmission i x" by blast
  then show ?thesis
    using gone [of x] again [of x] by (intro exI [of _ l]) (simp add: attachExecutionLink_def)
qed

definition sampleLink :: execution_link where
  "sampleLink = \<lparr> runId = ''R'', titleRunId = None, titleExpected = None, linkTurnId = ''a'', linkThreadId = ''T'' \<rparr>"

definition linkedStore :: db where
  "linkedStore = sampleStore (queuedRun @ [OpPrepareExecutionAdmission sampleStart 4,
     OpAttachExecutionLink ''a'' sampleLink 5])"

definition linkedTurn :: agent_turn where
  "linkedTurn = projr (decodeAgent (turns linkedStore ! 0))"

lemma preparedStore_reachable: "storeReachable preparedStore"
  unfolding preparedStore_def by (rule sampleStore_reachable) code_simp

lemma linkedStore_reachable: "storeReachable linkedStore"
  unfolding linkedStore_def by (rule sampleStore_reachable) code_simp

theorem attach_link_idempotent_witness:
  "attachExecutionLink ''a'' sampleLink 9 linkedStore = Inr (linkedTurn, linkedStore)"
proof -
  have "attachExecutionLink ''a'' sampleLink 5 preparedStore = Inr (linkedTurn, linkedStore)" by code_simp
  from attach_link_idempotent [OF preparedStore_reachable this] show ?thesis by blast
qed

section \<open>Steering requests\<close>

lemma requestOf_write:
  assumes "writeAdmission rid a st d = Inr d'" "requestOf rid d = Some s"
  shows "requestOf rid d' = Some (s\<lparr>admission := a, obStatus := st\<rparr>)"
proof -
  have "steering d' = update_where (\<lambda>s. requestId s = rid) (\<lambda>s. s\<lparr>admission := a, obStatus := st\<rparr>) (steering d)"
    using assms(1) by (auto simp: writeAdmission_def result_simps)
  with assms(2) requestOf_SomeD [OF assms(2)]
    row_by_update_where [of "\<lambda>s. requestId s = rid" requestId "\<lambda>s. s\<lparr>admission := a, obStatus := st\<rparr>" rid "steering d"]
  show ?thesis by (simp add: requestOf_def)
qed

lemma matches_outcome:
  "admissionMatchesRow s \<Longrightarrow>
    admissionMatchesRow (s\<lparr>admission := (admission s)\<lparr>outcome := oc\<rparr>, obStatus := outcomeStatus oc\<rparr>)"
  by (simp add: admissionMatchesRow_def withdrawnNumber_def)

text \<open>
  an accepted steering request stays accepted: accepting it again with the same receipt
  changes nothing, another receipt is refused, and so is a rejection.
\<close>

theorem acceptance_is_final:
  assumes "acceptSteeringAdmission rid receipt d = Inr (a, d')"
  shows "acceptSteeringAdmission rid receipt d' = Inr (a, d') \<and>
    (receipt' \<noteq> receipt \<longrightarrow> acceptSteeringAdmission rid receipt' d' =
      Inl (RepositoryError (''Steering admission '' @ rid @ '' receipt conflicts''))) \<and>
    rejectSteeringAdmission rid failure d' = Inl (RepositoryError (''Steering admission '' @ rid @ '' was accepted''))"
proof -
  have "\<exists>s. requestOf rid d' = Some s \<and> admissionMatchesRow s \<and> admission s = a \<and> outcome a = OutAccepted receipt"
    using assms
  proof (cases rule: acceptSteeringAdmission_cases)
    case (2 s)
    from requestOf_write [OF 2(5,1)] matches_outcome [OF 2(2), of "OutAccepted receipt"] 2(4) show ?thesis by auto
  qed auto
  then show ?thesis
    by (auto simp: acceptSteeringAdmission_def rejectSteeringAdmission_def decodeAdmission_def)
qed

text \<open>
  a rejected steering request stays rejected, in the same way; in particular the turn it
  was made from is restored to the queue at most once.
\<close>

theorem rejection_is_final:
  assumes "rejectSteeringAdmission rid failure d = Inr (a, d')"
  shows "rejectSteeringAdmission rid failure d' = Inr (a, d') \<and>
    (failure' \<noteq> failure \<longrightarrow> rejectSteeringAdmission rid failure' d' =
      Inl (RepositoryError (''Steering admission '' @ rid @ '' rejection conflicts''))) \<and>
    acceptSteeringAdmission rid receipt d' = Inl (RepositoryError (''Steering admission '' @ rid @ '' was rejected''))"
proof -
  have "\<exists>s queue. requestOf rid d' = Some s \<and> admissionMatchesRow s \<and> admission s = a \<and>
      outcome a = OutRejected failure queue"
    using assms
  proof (cases rule: rejectSteeringAdmission_cases)
    case (2 s queue d1)
    have "steering d1 = steering d"
    proof (cases "source (admission s)")
      case (Some src)
      with 2(4) have "restoreSource (admission s) src d = Inr (queue, d1)" by simp
      then show ?thesis
        by (cases rule: restoreSource_cases) (auto simp: updateQueue_def Let_def result_simps split: if_splits)
    qed (use 2(4) in simp)
    then have "requestOf rid d1 = Some s" using 2(1) by (simp add: requestOf_def)
    from requestOf_write [OF 2(7) this] matches_outcome [OF 2(2), of "OutRejected failure queue"] 2(6)
    show ?thesis by auto
  qed auto
  then show ?thesis
    by (auto simp: acceptSteeringAdmission_def rejectSteeringAdmission_def decodeAdmission_def)
qed

definition steerInput :: "string \<Rightarrow> steering_input" where
  "steerInput key = \<lparr> steerText = ''s'', idempotencyKey = key \<rparr>"

definition sampleReceipt :: steering_receipt where
  "sampleReceipt = \<lparr> entryId = ''e'', sequence = 1 \<rparr>"

definition sampleFailure :: steering_failure where
  "sampleFailure = \<lparr> failureKind = FailRejected, failureMessage = ''no'' \<rparr>"

definition samplePreparation :: queued_preparation where
  "samplePreparation = fst (projr (prepareQueuedSteeringAdmission ''b'' sampleLink (steerInput ''k'') [] 6 linkedStore))"

definition steeredStore :: db where
  "steeredStore = settle stepStore (OpPrepareQueuedSteering ''b'' sampleLink (steerInput ''k'') [] 6) linkedStore"

definition acceptedStore :: db where
  "acceptedStore = settle stepStore (OpAcceptSteering ''k'' sampleReceipt) steeredStore"

definition rejectedStore :: db where
  "rejectedStore = settle stepStore (OpRejectSteering ''k'' sampleFailure) steeredStore"

definition acceptedAdmission :: steering_admission where
  "acceptedAdmission = (prepAdmission samplePreparation)\<lparr>outcome := OutAccepted sampleReceipt\<rparr>"

definition rejectedAdmission :: steering_admission where
  "rejectedAdmission = fst (projr (rejectSteeringAdmission ''k'' sampleFailure steeredStore))"

lemma sample_steering_runs:
  "prepareQueuedSteeringAdmission ''b'' sampleLink (steerInput ''k'') [] 6 linkedStore =
    Inr (samplePreparation, steeredStore)"
  "acceptSteeringAdmission ''k'' sampleReceipt steeredStore = Inr (acceptedAdmission, acceptedStore)"
  "rejectSteeringAdmission ''k'' sampleFailure steeredStore = Inr (rejectedAdmission, rejectedStore)"
  by code_simp+

theorem acceptance_is_final_witness:
  "rejectSteeringAdmission ''k'' sampleFailure acceptedStore =
    Inl (RepositoryError ''Steering admission k was accepted'')"
  using acceptance_is_final [OF sample_steering_runs(2)] by simp

theorem rejection_is_final_witness:
  "acceptSteeringAdmission ''k'' sampleReceipt rejectedStore =
    Inl (RepositoryError ''Steering admission k was rejected'')"
  using rejection_is_final [OF sample_steering_runs(3)] by simp

section \<open>Queued turns used for steering\<close>

lemma recordedCount_drop:
  assumes "updateQueue P t dropQueued d = Inr (Some q, d')" "recordedCount d t > 0"
  shows "recordedCount d' u = recordedCount d u - (if u = t then 1 else 0)"
proof -
  from assms(1) obtain q0 where "queueOf t d = Some q0"
    "d' = d\<lparr>queues := update_where (\<lambda>q. qThread q = t) dropQueued (queues d)\<rparr>"
    by (rule updateQueue_SomeE) simp_all
  with assms(2) queueOf_update [where f = dropQueued and u = u and d = d and t = t] show ?thesis
    by (auto simp: recordedCount_def dropQueued_def)
qed

lemma withdraw_effects:
  assumes ok: "storeOk d" and run: "prepareQueuedSteeringAdmission src tgt inp ids now d = Inr (prep, d1)"
    and changed: "prepQueueChanged prep"
  obtains row a b where "turnById src d = Some row" "turnKind row = KindAgent" "status row = StQueued"
    "a = \<lparr> target = tgt, input = inp, source = Some b, sourceWithdrawn = Some True, preparedAt = now, outcome = OutPending \<rparr>"
    "aId b = src" "aThreadId b = threadId row"
    "turns d1 = update_where (\<lambda>r. rowId r = src) (\<lambda>r. r\<lparr>queueClaimToken := None\<rparr>) (turns d)"
    "steering d1 = steering d @ [requestRow a]" "requestOf (idempotencyKey inp) d1 = Some (requestRow a)"
    "\<And>u. recordedCount d1 u = recordedCount d u - (if u = threadId row then 1 else 0)"
    "\<And>s. s \<in> set (steering d) \<Longrightarrow> sourceTurnId s \<noteq> Some src"
  using run
proof (cases rule: prepareQueuedSteeringAdmission_cases)
  case 1 with changed show ?thesis by simp
next
  case (2 turn row sourceTurn)
  note b = decodeAgent_Inr(2,3) [OF 2(7)]
  have row: "turnById src d = Some row" using 2(3,4) by (simp add: turnById_iff [OF storeOkD(4) [OF ok]])
  from 2(10) show ?thesis
  proof (cases rule: withdrawSourceE)
    case (1 a dA dB q)
    have dA: "dA = d\<lparr>steering := steering d @ [requestRow a]\<rparr>" using 1(2) by (simp add: insertAdmission_Inr)
    have dB: "dB = dA\<lparr>turns := update_where (\<lambda>r. rowId r = src) (\<lambda>r. r\<lparr>queueClaimToken := None\<rparr>) (turns dA)\<rparr>"
      using 1(3) b(1) 2(4) by (auto simp: updateTurns_def result_simps)
    from 1(4) obtain q0 where d1: "d1 = dB\<lparr>queues := update_where (\<lambda>q. qThread q = aThreadId sourceTurn) dropQueued (queues dB)\<rparr>"
      by (rule updateQueue_SomeE) simp_all
    have "requestOf (idempotencyKey inp) d = None"
      unfolding requestOf_def row_by_None using 2(1) by (metis imageE)
    then have req: "requestOf (idempotencyKey inp) d1 = Some (requestRow a)"
      by (simp add: requestOf_def d1 dB dA row_by_append requestRow_def 1(1))
    have "countedRow d row"
      using 2(1,4-6) by (auto simp: countedRow_def withdrawnSource_iff)
    then have "visibleCount d (threadId row) \<noteq> 0" using 2(3) unfolding visibleCount_def count_where_0 by blast
    with storeOk_drift [OF ok, of "threadId row"] have "recordedCount d (threadId row) > 0" by (simp add: drift_def)
    then have "recordedCount dB (aThreadId sourceTurn) > 0" using b(2) by (simp add: dB dA)
    note counts = recordedCount_drop [OF 1(4) this]
    show ?thesis
      by (rule that [OF row 2(5,6) 1(1) _ b(2) _ _ req])
        (use counts b 2(1,4) in \<open>simp_all add: d1 dB dA\<close>)
  qed
qed

text \<open>
  steering from a queued turn and having the request rejected brings the turn back: while
  the request is pending the turn is hidden and the counter is one lower; after the rejection
  it is visible again, all counters are as before, and no turn has changed but for the claim
  on the turn.
\<close>

theorem withdraw_reject_roundtrip:
  assumes "storeReachable d"
    and "prepareQueuedSteeringAdmission src tgt inp ids now d = Inr (prep, d1)" "prepQueueChanged prep"
    and "rejectSteeringAdmission (idempotencyKey inp) failure d1 = Inr (a, d2)"
  shows "hiddenBySteering d1 src \<and> recordedCount d1 (linkThreadId tgt) = recordedCount d (linkThreadId tgt) - 1 \<and>
    \<not> hiddenBySteering d2 src \<and> (\<forall>u. recordedCount d2 u = recordedCount d u) \<and>
    turns d2 = update_where (\<lambda>r. rowId r = src) (\<lambda>r. r\<lparr>queueClaimToken := None\<rparr>) (turns d)"
proof -
  have ok: "storeOk d" using storeReachable_ok [OF assms(1)] .
  note ok1 = prepareQueuedSteeringAdmission_ok [OF ok assms(2)]
  note ok2 = rejectSteeringAdmission_ok [OF ok1 assms(4)]
  from assms(2,3) obtain row adm b where w: "turnById src d = Some row" "status row = StQueued"
    "adm = \<lparr> target = tgt, input = inp, source = Some b, sourceWithdrawn = Some True, preparedAt = now, outcome = OutPending \<rparr>"
    "aId b = src" "aThreadId b = threadId row"
    "turns d1 = update_where (\<lambda>r. rowId r = src) (\<lambda>r. r\<lparr>queueClaimToken := None\<rparr>) (turns d)"
    "steering d1 = steering d @ [requestRow adm]" "requestOf (idempotencyKey inp) d1 = Some (requestRow adm)"
    "\<And>u. recordedCount d1 u = recordedCount d u - (if u = threadId row then 1 else 0)"
    "\<And>s. s \<in> set (steering d) \<Longrightarrow> sourceTurnId s \<noteq> Some src"
    by (rule withdraw_effects [OF ok]) blast
  have src: "sourceTurnId (requestRow adm) = Some src" "obStatus (requestRow adm) = ObPending"
    "admission (requestRow adm) = adm" "obThreadId (requestRow adm) = linkThreadId tgt"
    using w(3,4) by (simp_all add: requestRow_def)
  have "requestRow adm \<in> set (steering d1)" using w(7) by simp
  then have thread: "linkThreadId tgt = threadId row"
    using source_row [OF storeOkD(1) [OF ok1] _ src(1)] src(3,4) w(3,5) by force
  have hidden1: "hiddenBySteering d1 src" using w(7) src by (auto simp: hiddenBySteering_iff)
  from assms(4) show ?thesis
  proof (cases rule: rejectSteeringAdmission_cases)
    case (1 s queue)
    with w(3,8) src show ?thesis by simp
  next
    case (2 s queue dQ)
    have s: "s = requestRow adm" using 2(1) w(8) by simp
    with 2(4) src(3) w(3) have restore: "restoreSource adm b d1 = Inr (queue, dQ)" by simp
    have frame: "turns dQ = turns d1" "steering dQ = steering d1"
      using turns_restoreSource [OF restore] restore
      by (auto elim!: restoreSource_cases simp: updateQueue_def Let_def result_simps split: if_splits)
    have "steering d2 = update_where (\<lambda>s. requestId s = idempotencyKey inp)
        (\<lambda>s. s\<lparr>admission := a, obStatus := ObRejected\<rparr>) (steering d1)" and turns2: "turns d2 = turns d1"
      using 2(7) frame by (auto simp: writeAdmission_def result_simps)
    then have steer2: "x \<in> set (steering d2) \<longleftrightarrow>
        (x \<in> set (steering d1) \<and> x \<noteq> s) \<or> x = s\<lparr>admission := a, obStatus := ObRejected\<rparr>" for x
      using request_only [OF storeOkD(4) [OF ok1] w(8)] requestOf_SomeD [OF w(8)] s
      by (auto simp: set_update_where)
    have live2: "(x \<in> set (steering d2) \<and> obStatus x \<noteq> ObRejected) \<longleftrightarrow>
        (x \<in> set (steering d) \<and> obStatus x \<noteq> ObRejected)" for x
      using steer2 [of x] w(7,10) src s by auto
    have visible2: "\<not> hiddenBySteering d2 src"
      unfolding hiddenBySteering_iff Bex_def using live2 w(10) by blast
    have wd: "withdrawnSource d2 j = withdrawnSource d j" for j
      unfolding withdrawnSource_iff Bex_def using live2 by metis
    have "visibleCount d2 u = visibleCount d u" for u
      unfolding visibleCount_def turns2 w(6) count_where_update
      by (rule count_where_cong) (simp add: countedRow_def wd)
    then have "recordedCount d2 u = recordedCount d u" for u
      using storeOk_drift [OF ok2, of u] storeOk_drift [OF ok, of u] by (simp add: drift_def)
    with hidden1 visible2 w(6,9) thread turns2 show ?thesis by simp
  qed
qed

theorem withdraw_reject_roundtrip_witness:
  "hiddenBySteering steeredStore ''b'' \<and> \<not> hiddenBySteering rejectedStore ''b'' \<and>
    recordedCount rejectedStore ''T'' = recordedCount linkedStore ''T''"
proof -
  have changed: "prepQueueChanged samplePreparation" by code_simp
  have key: "idempotencyKey (steerInput ''k'') = ''k''" by (simp add: steerInput_def)
  from withdraw_reject_roundtrip [OF linkedStore_reachable sample_steering_runs(1) changed,
    unfolded key, OF sample_steering_runs(3)] show ?thesis by blast
qed

text \<open>
  when a request made from a queued turn is accepted and then completed, the turn is
  gone for good, the queue is told nothing further, and the counter is one lower than before
  the request was made.
\<close>

theorem withdraw_complete_consumes:
  assumes "storeReachable d"
    and "prepareQueuedSteeringAdmission src tgt inp ids now d = Inr (prep, d1)" "prepQueueChanged prep"
    and "acceptSteeringAdmission (idempotencyKey inp) receipt d1 = Inr (a, d2)"
    and "completeSteeringAdmission (idempotencyKey inp) tgt receipt d2 = Inr (res, d3)"
  shows "res = None \<and> turnById src d3 = None \<and> requestOf (idempotencyKey inp) d3 = None \<and>
    (\<forall>u. recordedCount d3 u = recordedCount d u - (if u = linkThreadId tgt then 1 else 0))"
proof -
  have ok: "storeOk d" using storeReachable_ok [OF assms(1)] .
  note ok1 = prepareQueuedSteeringAdmission_ok [OF ok assms(2)]
  note ok2 = acceptSteeringAdmission_ok [OF ok1 assms(4)]
  let ?rid = "idempotencyKey inp"
  from assms(2,3) obtain row adm b where w: "turnById src d = Some row" "turnKind row = KindAgent" "status row = StQueued"
    "adm = \<lparr> target = tgt, input = inp, source = Some b, sourceWithdrawn = Some True, preparedAt = now, outcome = OutPending \<rparr>"
    "aId b = src" "aThreadId b = threadId row"
    "turns d1 = update_where (\<lambda>r. rowId r = src) (\<lambda>r. r\<lparr>queueClaimToken := None\<rparr>) (turns d)"
    "requestOf ?rid d1 = Some (requestRow adm)" "steering d1 = steering d @ [requestRow adm]"
    "\<And>u. recordedCount d1 u = recordedCount d u - (if u = threadId row then 1 else 0)"
    by (rule withdraw_effects [OF ok]) blast
  have adm: "admission (requestRow adm) = adm" "sourceTurnId (requestRow adm) = Some src"
    "obThreadId (requestRow adm) = linkThreadId tgt" "obStatus (requestRow adm) = ObPending"
    using w(4,5) by (simp_all add: requestRow_def)
  have "requestRow adm \<in> set (steering d1)" using w(9) by simp
  then have thread: "linkThreadId tgt = threadId row"
    using source_row [OF storeOkD(1) [OF ok1] _ adm(2)] adm(1,3) w(4,6) by force
  from assms(4) have d2: "turns d2 = turns d1 \<and> queues d2 = queues d1 \<and>
    requestOf ?rid d2 = Some ((requestRow adm)\<lparr>admission := adm\<lparr>outcome := OutAccepted receipt\<rparr>, obStatus := ObAccepted\<rparr>)"
  proof (cases rule: acceptSteeringAdmission_cases)
    case (1 s)
    with w(4,8) adm show ?thesis by simp
  next
    case (2 s)
    with w(8) adm requestOf_write [OF 2(5,1)] show ?thesis by (auto simp: writeAdmission_def result_simps)
  qed
  have look: "turnById src d2 = Some (row\<lparr>queueClaimToken := None\<rparr>)"
    using row_by_update_where [of "\<lambda>r. rowId r = src" rowId "\<lambda>r. r\<lparr>queueClaimToken := None\<rparr>" src "turns d"]
      w(1,7) d2 turnById_SomeD [OF w(1)] by (simp add: turnById_def)
  have here: "exists_row (\<lambda>r. rowId r = src \<and> turnKind r = KindAgent \<and> status r = StQueued) (turns d2)"
    unfolding exists_row_iff using turnById_SomeD [OF look] w(2,3)
    by (intro bexI [of _ "row\<lparr>queueClaimToken := None\<rparr>"]) auto
  from assms(5) show ?thesis
  proof (cases rule: completeSteeringAdmission_cases)
    case 1 with d2 show ?thesis by simp
  next
    case (2 s) with d2 w(4,5) here show ?thesis by auto
  next
    case (3 s src' dz)
    have "s = (requestRow adm)\<lparr>admission := adm\<lparr>outcome := OutAccepted receipt\<rparr>, obStatus := ObAccepted\<rparr>"
      using 3(1) d2 by simp
    then have "admission s = adm\<lparr>outcome := OutAccepted receipt\<rparr>" by simp
    with w(4) 3(5) have src': "src' = b" "sourceWithdrawn (admission s) = Some True" by simp_all
    then have d3: "res = None" "dz = d3" using 3(8) by auto
    let ?dx = "deleteRequests (\<lambda>s. requestId s = ?rid) d2"
    note del = delete_request_ok [where P = "\<lambda>s. requestId s = ?rid", OF storeOkD(1) [OF ok2] refl]
    have row: "turnById src ?dx = Some (row\<lparr>queueClaimToken := None\<rparr>)" using look by (simp add: deleteRequests_def)
    note gone = delete_turn_ok [OF del(1) 3(7), of src, unfolded src'(1) w(5), OF row]
    have hit: "rowId (row\<lparr>queueClaimToken := None\<rparr>) = src \<and> turnKind (row\<lparr>queueClaimToken := None\<rparr>) = KindAgent \<and>
      status (row\<lparr>queueClaimToken := None\<rparr>) = StQueued" using w(2,3) turnById_SomeD [OF w(1)] by simp
    have steer: "set (steering dz) \<subseteq> set (steering ?dx)"
      using 3(7) by (auto simp: deleteTurns_def Let_def result_simps set_delete_where)
    then have "requestOf ?rid dz = None" using del(4) by (auto simp: requestOf_def row_by_None)
    moreover have "turnById src dz = None" using gone(4) hit w(3) by simp
    moreover have "queues dz = queues d1" using gone(5) hit w(3) d2 by (simp add: deleteRequests_def)
    ultimately show ?thesis using d3 w(10) thread by (simp add: recordedCount_def queueOf_def)
  qed
qed

definition completedStore :: db where
  "completedStore = settle stepStore (OpCompleteSteering ''k'' sampleLink sampleReceipt) acceptedStore"

theorem withdraw_complete_consumes_witness:
  "turnById ''b'' completedStore = None \<and> recordedCount completedStore ''T'' = recordedCount linkedStore ''T'' - 1"
proof -
  have changed: "prepQueueChanged samplePreparation" by code_simp
  have key: "idempotencyKey (steerInput ''k'') = ''k''" by (simp add: steerInput_def)
  have run: "completeSteeringAdmission ''k'' sampleLink sampleReceipt acceptedStore = Inr (None, completedStore)"
    by code_simp
  have thread: "linkThreadId sampleLink = ''T''" by (simp add: sampleLink_def)
  from withdraw_complete_consumes [OF linkedStore_reachable sample_steering_runs(1) changed,
    unfolded key, OF sample_steering_runs(2) run] thread show ?thesis by simp
qed

section \<open>Requeuing a turn that is being steered\<close>

definition requeueRun :: "store_op list" where
  "requeueRun = [OpRequeueAccepted ''a'' 9 7, OpDequeue ''a'']"

lemma steeredStore_reachable: "storeReachable steeredStore"
  unfolding steeredStore_def settle_def
  using storeReachable.step [OF linkedStore_reachable, of "OpPrepareQueuedSteering ''b'' sampleLink (steerInput ''k'') [] 6"]
    sample_steering_runs(1) by (simp add: dbOf_def)


end
