(* ===== verification/Protocol_Turns.thy ===== *)
theory Protocol_Turns
  imports Protocol_Properties Steering_Properties
begin

text \<open>
  Where the thread protocol meets the turn store: a prompt command becomes a turn.
\<close>

section \<open>The turn tables\<close>

text \<open>Only applying a prompt writes turns.\<close>

lemma log_turns:
  "writeEvents cod owner thread version n events at1 d = Inr (rows, d') \<Longrightarrow> pbTurns d' = pbTurns d"
  "setCursor owner thread n d = Inr d' \<Longrightarrow> pbTurns d' = pbTurns d"
  "writeSnapshot cod owner thread version n snap at1 required d = Inr d' \<Longrightarrow> pbTurns d' = pbTurns d"
  "writeDueSnapshot cod owner thread version n snapshot at1 d = Inr d' \<Longrightarrow> pbTurns d' = pbTurns d"
  "updateCommand thread i f d = Inr d' \<Longrightarrow> pbTurns d' = pbTurns d"
  by (auto simp: writeEvents_def setCursor_def writeSnapshot_def writeDueSnapshot_def updateCommand_def Let_def bindE_Inr_iff
      enforceProtocol_Inr split: if_splits option.splits prod.splits)

lemma command_turns:
  "initializeThread owner thread reader now d = Inr d' \<Longrightarrow> pbTurns d' = pbTurns d"
  "claimNextCommand locked token millis now d = Inr (c, d') \<Longrightarrow> pbTurns d' = pbTurns d"
  "renewCommandClaim owner thread i token millis now d = Inr (b, d') \<Longrightarrow> pbTurns d' = pbTurns d"
  "releaseCommandClaim owner thread i token d = Inr d' \<Longrightarrow> pbTurns d' = pbTurns d"
  by (auto simp: initializeThread_def claimNextCommand_def renewCommandClaim_def releaseCommandClaim_def Let_def bindE_Inr_iff
      enforceProtocol_Inr dest!: log_turns split: if_splits option.splits)

lemma admit_turns: "admit i expected d = Inr (r, d') \<Longrightarrow> pbTurns d' = pbTurns d"
  by (auto simp: admit_def Let_def bindE_Inr_iff enforceProtocol_Inr split: if_splits option.splits)

lemma appendEvents_turns: "appendEvents cod owner thread events snapshot at1 d = Inr (r, d') \<Longrightarrow> pbTurns d' = pbTurns d"
  by (auto simp: appendEvents_def Let_def bindE_Inr_iff dest!: log_turns split: if_splits option.splits)

lemma completeCommand_turns:
  "completeCommand cod owner thread i token result events snapshot at1 now d = Inr (r, d') \<Longrightarrow> pbTurns d' = pbTurns d"
  by (auto simp: completeCommand_def Let_def bindE_Inr_iff dest!: log_turns split: if_split_asm option.splits)

lemma checkpoint_turns:
  "checkpoint cod owner thread version cursor snapshot at1 d = Inr (b, d') \<Longrightarrow> pbTurns d' = pbTurns d"
  "saveSnapshot cod owner thread version cursor snapshot at1 d = Inr d' \<Longrightarrow> pbTurns d' = pbTurns d"
  by (auto simp: checkpoint_def saveSnapshot_def bindE_Inr_iff dest!: log_turns split: if_splits option.splits prod.splits)

lemma connection_turns:
  "acknowledgeCursor owner thread a cursor at1 d = Inr (r, d') \<Longrightarrow> pbTurns d' = pbTurns d"
  "issueTicket b digest at1 d = Inr d' \<Longrightarrow> pbTurns d' = pbTurns d"
  "redeemTicket digest audience at1 d = Inr (b', d') \<Longrightarrow> pbTurns d' = pbTurns d"
  "revokeTicket k now d = Inr d' \<Longrightarrow> pbTurns d' = pbTurns d"
  by (auto simp: acknowledgeCursor_def compact_def issueTicket_def redeemTicket_def revokeTicket_def Let_def bindE_Inr_iff
      enforceProtocol_Inr split: option.splits)

lemma cancelTargetCommand_turns: "cancelTargetCommand i st d = Inr (r, d') \<Longrightarrow> pbTurns d' = pbTurns d"
  by (auto simp: cancelTargetCommand_def bindE_Inr_iff dest!: log_turns split: if_split_asm option.splits)

lemma cancelPrompt_turns:
  assumes "cancelPrompt i now d = Inr (r, d')"
  shows "pbTurns d' = pbTurns d"
proof -
  obtain st d1 and c :: command_row where "(if cnClaim i = None \<and> cdState c = CommandAdmitted
      then updateCommand (cnThread i) (cnCommand i) (appliedCancel (srCursor st) (cnAt i)) d else Inr d) = Inr d1"
    "cancelTargetCommand i (st :: state_row) d1 = Inr (r, d')"
    using assms by (rule cancelPrompt_Inr)
  then show ?thesis using cancelTargetCommand_turns [of i st d1 r d'] log_turns(5) [of "cnThread i" "cnCommand i" _ d d1]
    by (simp split: if_splits)
qed

lemma admitTurn_ok:
  assumes ok: "storeOk (pbTurns d)" and run: "admitTurn i d = Inr (adm, d')"
  shows "storeOk (pbTurns d')" "\<exists>r. find (\<lambda>r. rowId r = apTurn i) (turns (pbTurns d')) = Some r \<and> threadId r = apThread i \<and> executionLink r = None"
proof -
  let ?st = "if exists_row (occupies (apThread i)) (turns (pbTurns d)) then AdmissionQueued else AdmissionAccepted"
  let ?row = "promptRow i ?st"
  obtain row d1 where "inTurns (insertTurn ?row) d = Inr (row, d1)"
    using run by (simp only: admitTurn_def Let_def bindE_Inr_iff split_paired_Ex prod.case) blast
  then obtain t1 where t1: "insertTurn ?row (pbTurns d) = Inr (row, t1)" and d1: "d1 = d\<lparr>pbTurns := t1\<rparr>"
    by (auto simp: inTurns_def split: sum.splits)
  obtain d2 where "intoTurns (insertQueueIfMissing (apThread i)) d1 = Inr d2"
    and rest: "(if ?st = AdmissionAccepted then Inr (?st, d2)
        else bindE (inTurns (updateQueue (\<lambda>q. queuedCount q < apCapacity i) (apThread i) (addQueued 1)) d2) (\<lambda>(q, d3).
          case q of None \<Rightarrow> Inl (conflict ''Thread prompt queue is full'') | Some _ \<Rightarrow> Inr (?st, d3))) = Inr (adm, d')"
    using run t1 d1 by (simp only: admitTurn_def inTurns_def sum.case prod.case Let_def bindE.simps bindE_Inr_iff) blast
  then obtain t2 where t2: "insertQueueIfMissing (apThread i) t1 = Inr t2" and d2: "d2 = d1\<lparr>pbTurns := t2\<rparr>"
    by (auto simp: intoTurns_def d1 split: sum.splits)
  obtain ins: "t1 = (pbTurns d)\<lparr>turns := turns (pbTurns d) @ [row]\<rparr>" "consistent t1" and new: "turnById (rowId row) (pbTurns d) = None"
    and given: "row = (if turnKind ?row = KindAgent \<and> status ?row = StAccepted \<and>
        exists_row (\<lambda>x. threadId x = threadId ?row \<and> turnKind x = KindAgent \<and> status x \<in> set nonterminal_statuses) (turns (pbTurns d))
      then ?row\<lparr>status := StQueued\<rparr> else ?row)"
    using t1 by (rule insertTurnE)
  have "(\<lambda>x. threadId x = threadId ?row \<and> turnKind x = KindAgent \<and> status x \<in> set nonterminal_statuses) = occupies (apThread i)"
    by (rule ext) (simp add: occupies_def promptRow_def)
  then have row: "row = ?row" using given by (simp add: promptRow_def split: if_splits)
  have link: "linkOk row" "queueClaimToken row = None" "turnKind row = KindAgent" "threadId row = apThread i" "rowId row = apTurn i"
    "executionLink row = None" "status row = StQueued \<longleftrightarrow> ?st = AdmissionQueued"
    by (simp_all add: row promptRow_def linkOk_iff)
  note step = insert_turn_ok [OF storeOkD(1) [OF ok] ins new link(1,2)]
  note mid = insertQueueIfMissing_ok [OF step(1) t2]
  have claims: "claimsOk t2" using step(2) [OF storeOkD(2) [OF ok]] mid(2) by simp
  have drift: "drift t2 u = (if u = apThread i \<and> ?st = AdmissionQueued then -1 else 0)" for u
    using mid(3) [of u] step(3) [of u] storeOk_drift [OF ok] link by simp
  have found: "find (\<lambda>r. rowId r = apTurn i) (turns t2) = Some row"
    using turnById_insert [of "apTurn i" "pbTurns d" row] new link(5) mid(5) ins(1) by (simp add: turnById_def row_by_def)
  show "storeOk (pbTurns d')" "\<exists>r. find (\<lambda>r. rowId r = apTurn i) (turns (pbTurns d')) = Some r \<and> threadId r = apThread i \<and> executionLink r = None"
  proof -
    have "storeOk (pbTurns d') \<and> turns (pbTurns d') = turns t2"
    proof (cases "?st = AdmissionAccepted")
      case True
      then have "d' = d2" using rest by (simp split: if_splits)
      moreover have "storeOk t2" by (rule finish_ok [OF mid(1) claims]) (use drift True in simp)
      ultimately show ?thesis by (simp add: d2)
    next
      case False
      then obtain q d3 where d3: "inTurns (updateQueue (\<lambda>q. queuedCount q < apCapacity i) (apThread i) (addQueued 1)) d2 = Inr (Some q, d3)"
        and "d' = d3"
        using rest by (auto simp: bindE_Inr_iff split: option.splits if_splits)
      then obtain t3 where t3: "updateQueue (\<lambda>q. queuedCount q < apCapacity i) (apThread i) (addQueued 1) t2 = Inr (Some q, t3)" "pbTurns d' = t3"
        by (auto simp: inTurns_def d2 split: sum.splits)
      obtain q0 where q0: "queueOf (apThread i) t2 = Some q0" "consistent t3"
        "t3 = t2\<lparr>queues := update_where (\<lambda>q. qThread q = apThread i) (addQueued 1) (queues t2)\<rparr>"
        using t3(1) by (rule updateQueue_SomeE) (simp_all add: addQueued_def)
      note last = queue_update_ok [OF mid(1) q0(1) qThread_updates(2) q0(3,2)]
      have "storeOk t3"
      proof (rule finish_ok [OF last(1)])
        show "claimsOk t3" using last(2) claims by simp
        show "drift t3 u = 0" for u using last(3) [of u] drift [of u] False by (auto simp: addQueued_def)
      qed
      then show ?thesis using t3(2) q0(3) by simp
    qed
    then show "storeOk (pbTurns d')" "\<exists>r. find (\<lambda>r. rowId r = apTurn i) (turns (pbTurns d')) = Some r \<and> threadId r = apThread i \<and> executionLink r = None"
      using found link by auto
  qed
qed

lemma find_row_only:
  assumes "storeOk t" "find (\<lambda>r. rowId r = i) (turns t) = Some r" "x \<in> set (turns t)" "rowId x = i"
  shows "x = r"
proof -
  have "r \<in> set (turns t)" "rowId r = i" using assms(2) by (auto simp: find_Some_iff)
  then show ?thesis using keys_inj [OF consistentD(1) [OF storeOkD(4) [OF assms(1)]] assms(3)] assms(4) by simp
qed

lemma link_ok:
  assumes ok: "storeOk t" and r: "find (\<lambda>r. rowId r = i) (turns t) = Some r" "threadId r = thread" "executionLink r = None"
    and l: "linkTurnId l = i" "linkThreadId l = thread"
    and run: "updateTurns (\<lambda>r. rowId r = i) (\<lambda>r. r\<lparr>executionLink := Some l\<rparr>) t = Inr t'"
  shows "storeOk t'" "find (\<lambda>r. rowId r = i \<and> threadId r = thread) (turns t') = Some (r\<lparr>executionLink := Some l\<rparr>)"
proof -
  show "storeOk t'"
  proof (rule storeOk_update [OF ok run])
    show "linkOk (x\<lparr>executionLink := Some l\<rparr>) \<and> (executionLink x \<noteq> None \<longrightarrow> executionLink (x\<lparr>executionLink := Some l\<rparr>) \<noteq> None)"
      if "x \<in> set (turns t)" "rowId x = i" for x
      using find_row_only [OF ok r(1) that] r(2) l by (simp add: linkOk_iff)
  qed (use storeOk_claim [OF ok] in \<open>auto simp: keepsKeys_def keepsQueued_def\<close>)
  have t': "turns t' = update_where (\<lambda>r. rowId r = i) (\<lambda>r. r\<lparr>executionLink := Some l\<rparr>) (turns t)"
    using run by (auto simp: updateTurns_def result_simps)
  have own: "threadId x = thread" if "x \<in> set (turns t)" "rowId x = i" for x
    using find_row_only [OF ok r(1) that] r(2) by simp
  have "find (\<lambda>r. rowId r = i \<and> threadId r = thread) (update_where (\<lambda>r. rowId r = i) (\<lambda>r. r\<lparr>executionLink := Some l\<rparr>) rs) =
      map_option (\<lambda>r. r\<lparr>executionLink := Some l\<rparr>) (find (\<lambda>r. rowId r = i) rs)"
    if "\<forall>x \<in> set rs. rowId x = i \<longrightarrow> threadId x = thread" for rs
    using that by (induction rs) (auto simp: update_where_def)
  from this [of "turns t"] show "find (\<lambda>r. rowId r = i \<and> threadId r = thread) (turns t') = Some (r\<lparr>executionLink := Some l\<rparr>)"
    unfolding t' r(1) using own by simp
qed

text \<open>What staging a prompt leaves: a turn with the link of the runtime, and the completed command.\<close>

lemma stagePrompt_result:
  assumes ok: "storeOk (pbTurns d)" and run: "stagePrompt cod i stage st c d = Inr (x, d')"
  obtains adm cursor link row where "x = PromptApplied (admittedPrompt i adm cursor c) (apTurn i) adm link" "stage = Inr link"
    "storeOk (pbTurns d')" "find (\<lambda>r. rowId r = apTurn i \<and> threadId r = apThread i) (turns (pbTurns d')) = Some row"
    "executionLink row = Some link"
    "pbCommands d' = update_where (\<lambda>x. cdThread x = apThread i \<and> cdId x = apCommand i) (admittedPrompt i adm cursor) (pbCommands d)"
    "pbStates d' = update_where (\<lambda>s. srOwner s = apOwner i \<and> srThread s = apThread i) (\<lambda>s. s\<lparr>srCursor := cursor\<rparr>) (pbStates d)"
proof -
  obtain renamed d1 where d1: "renameProvisionalTitle i d = (renamed, d1)" by (cases "renameProvisionalTitle i d")
  have t1: "pbTurns d1 = pbTurns d" using d1 by (auto simp: renameProvisionalTitle_def Let_def split: option.splits if_splits)
  have fresh: "\<not> exists_row (\<lambda>r. rowId r = apTurn i) (turns (pbTurns d1))" using run by (rule_tac notI) (simp add: stagePrompt_def d1)
  obtain adm d2 where d2: "admitTurn i d1 = Inr (adm, d2)"
    using run by (simp only: stagePrompt_def d1 fresh if_False prod.case bindE_Inr_iff split_paired_Ex) blast
  obtain link where link: "stage = Inr link"
    using run by (simp only: stagePrompt_def d1 d2 fresh if_False prod.case bindE_Inr_iff split_paired_Ex) blast
  have named: "\<not> (linkTurnId link \<noteq> apTurn i \<or> linkThreadId link \<noteq> apThread i)"
    using run by (rule_tac notI) (simp only: stagePrompt_def d1 d2 link fresh if_False if_True prod.case bindE.simps sum.distinct)
  obtain d3 rows d4 d5 where d3: "intoTurns (updateTurns (\<lambda>r. rowId r = apTurn i) (\<lambda>r. r\<lparr>executionLink := Some link\<rparr>)) d2 = Inr d3"
    and w: "writeEvents cod (apOwner i) (apThread i) (srVersion st) (srCursor st + 1) (promptEvents cod i adm renamed)
        (apCompletedAt i) d3 = Inr (rows, d4)"
    and d5: "setCursor (apOwner i) (apThread i) (erwCursor (last rows)) d4 = Inr d5"
    and d6: "updateCommand (apThread i) (apCommand i) (admittedPrompt i adm (erwCursor (last rows))) d5 = Inr d'"
    and x: "x = PromptApplied (admittedPrompt i adm (erwCursor (last rows)) c) (apTurn i) adm link"
    using run
    by (simp only: stagePrompt_def d1 d2 link named fresh if_False prod.case bindE.simps Let_def bindE_Inr_iff split_paired_Ex sum.inject prod.inject) blast
  obtain r where r: "find (\<lambda>r. rowId r = apTurn i) (turns (pbTurns d2)) = Some r" "threadId r = apThread i" "executionLink r = None"
    and ok2: "storeOk (pbTurns d2)"
    using admitTurn_ok [OF ok [folded t1] d2] by blast
  obtain t3 where t3: "updateTurns (\<lambda>r. rowId r = apTurn i) (\<lambda>r. r\<lparr>executionLink := Some link\<rparr>) (pbTurns d2) = Inr t3" "pbTurns d3 = t3"
    using d3 by (auto simp: intoTurns_def split: sum.splits)
  have turns: "pbTurns d' = t3" using log_turns(5) [OF d6] log_turns(2) [OF d5] log_turns(1) [OF w] t3(2) by simp
  have "onlyTurns d d3"
    using onlyTurns_trans [OF onlyTurns_trans [OF renameProvisionalTitle_frame [OF d1] admitTurn_frame [OF d2]]
        onlyTurns_turns [OF intoTurns_frame [OF d3]]] .
  note same = onlyTurns_same [OF this]
  have "pbStates d4 = pbStates d3" "pbCommands d4 = pbCommands d3" using writeEvents_Inr(2) [OF w] by simp_all
  moreover have "pbStates d5 = update_where (\<lambda>s. srOwner s = apOwner i \<and> srThread s = apThread i) (\<lambda>s. s\<lparr>srCursor := erwCursor (last rows)\<rparr>) (pbStates d4)"
    "pbCommands d5 = pbCommands d4" using d5 by (auto simp: setCursor_def enforceProtocol_Inr)
  moreover have "pbStates d' = pbStates d5"
    "pbCommands d' = update_where (\<lambda>x. cdThread x = apThread i \<and> cdId x = apCommand i) (admittedPrompt i adm (erwCursor (last rows))) (pbCommands d5)"
    using d6 by (auto simp: updateCommand_def enforceProtocol_Inr)
  moreover note link_ok [OF ok2 r _ _ t3(1)]
  ultimately show ?thesis using that [OF x link] named turns same by simp
qed

lemma applyPrompt_turns:
  assumes ok: "storeOk (pbTurns d)" and run: "applyPrompt cod i stage now d = Inr (x, d')"
  shows "storeOk (pbTurns d')"
proof -
  obtain st where st: "stateForUpdate (apOwner i) (apThread i) d = Some st"
    using run by (auto simp: applyPrompt_def split: if_splits option.splits)
  obtain c where c: "find (ownedCommand (apOwner i) (apThread i) (apCommand i)) (pbCommands d) = Some c"
    using run st by (auto simp: applyPrompt_def split: if_splits option.splits)
  consider "d' = d" | f where "updateCommand (apThread i) (apCommand i) f d = Inr d'" | "stagePrompt cod i stage st c d = Inr (x, d')"
    using run st c by (auto simp: applyPrompt_def bindE_Inr_iff split: if_splits option.splits)
  then show ?thesis
  proof cases
    case 1
    then show ?thesis using ok by simp
  next
    case 2
    then show ?thesis using ok log_turns(5) [OF 2] by simp
  next
    case 3
    then show ?thesis by (rule stagePrompt_result [OF ok]) simp
  qed
qed

text \<open>The turn tables as one more store the thread protocol runs on.\<close>

lemma protocolStep_turns:
  assumes ok: "storeOk (pbTurns d)" and run: "protocolStep cod opn d = Inr d'"
  shows "storeOk (pbTurns d')"
proof -
  obtain now p where opn: "opn = (now, p)" by (cases opn)
  have "pbTurns d' = pbTurns d \<or> (\<exists>i stage x. applyPrompt cod i stage now d = Inr (x, d'))"
    using run unfolding opn
    by (cases p) (auto simp: dropAnswer_Inr dest: command_turns admit_turns completeCommand_turns cancelPrompt_turns appendEvents_turns
        checkpoint_turns connection_turns)
  then show ?thesis using ok applyPrompt_turns [OF ok] by auto
qed

interpretation prompt_turns: fallible_store "protocolStep cod" always "\<lambda>d. storeOk (pbTurns d)" for cod
  by unfold_locales (rule protocolStep_turns)

text \<open>
  prompts keep the turn store.  Whatever the thread protocol does to a store of turns whose
  counters, claims and links are in order, they are in order afterwards: the queue counter of
  every thread is the number of its visible queued turns, however its prompts were applied,
  repeated or cancelled.
\<close>

theorem prompts_keep_turn_store:
  assumes "storeOk (pbTurns d)"
  shows "storeOk (pbTurns (runOps (protocolStep cod) ops d))"
  using prompt_turns.run_keeps [OF assms, of cod] by simp

section \<open>Repeated application\<close>

lemma find_owned:
  assumes "protocolConsistent d" "c \<in> set (pbCommands d)" "cdOwner c = owner" "cdThread c = thread" "cdId c = i"
  shows "find (ownedCommand owner thread i) (pbCommands d) = Some c"
proof (cases "find (ownedCommand owner thread i) (pbCommands d)")
  case None
  then show ?thesis using assms(2-5) by (auto simp: find_None_iff ownedCommand_def)
next
  case (Some x)
  note f = find_ownedD [OF Some]
  have "x = c" by (rule command_unique [OF assms(1) f(1) assms(2)]) (use f assms in simp_all)
  then show ?thesis using Some by simp
qed

text \<open>
  applying a prompt is idempotent.  After a prompt was applied, applying it again, with or
  without a claim and whatever the runtime would answer now, gives the same turn, admission and
  link, changes nothing and does not ask the runtime.
\<close>

theorem apply_prompt_is_idempotent:
  assumes "protocolReachable cod d" "storeOk (pbTurns d)" "applyPrompt cod i stage now d = Inr (PromptApplied c turn adm link, d')"
  shows "applyPrompt cod (i\<lparr>apClaim := token, apReady := ready\<rparr>) stage' later d' = Inr (PromptApplied c turn adm link, d')"
proof -
  have ok: "protocolConsistent d" using protocolOkD(1) [OF protocolReachable_ok [OF assms(1)]] .
  have ok': "protocolConsistent d'" by (rule protocolMoves_consistent [OF ok applyPrompt_moves [OF ok assms(3)]])
  have pre: "apPrompt i \<noteq> []" "pnThread (apPrepared i) = apThread i \<and> pnTurn (apPrepared i) = apTurn i" "\<not> apCapacity i < 1"
    using assms(3) by (auto simp: applyPrompt_def split: if_splits)
  obtain st where st: "stateOf (apOwner i) (apThread i) (pbStates d) = Some st"
    using assms(3) pre by (auto simp: applyPrompt_def stateForUpdate_def split: option.splits)
  obtain c0 where c0: "find (ownedCommand (apOwner i) (apThread i) (apCommand i)) (pbCommands d) = Some c0"
    using assms(3) pre st by (auto simp: applyPrompt_def stateForUpdate_def split: option.splits)
  note found = find_ownedD [OF c0]
  have who: "cdActor c0 = apActor i" "\<not> (cdTurn c0 \<noteq> None \<and> cdTurn c0 \<noteq> Some (apTurn i))"
    using assms(3) pre st c0 by (auto simp: applyPrompt_def stateForUpdate_def split: if_splits)
  show ?thesis
  proof (cases "cdState c0 = CommandCompleted")
    case True
    then have run: "bindE (completedApplication i c0 d) (\<lambda>r. Inr (r, d)) = Inr (PromptApplied c turn adm link, d')"
      using assms(3) pre st c0 who by (auto simp: applyPrompt_def stateForUpdate_def split: if_splits)
    then have "d' = d" by (auto simp: bindE_Inr_iff)
    moreover have "completedApplication (i\<lparr>apClaim := token, apReady := ready\<rparr>) c0 d = completedApplication i c0 d"
      by (simp add: completedApplication_def cong: option.case_cong)
    ultimately show ?thesis using run pre st c0 who True by (simp add: applyPrompt_def stateForUpdate_def)
  next
    case False
    then have "cancellationOf (apOwner i) (apThread i) (apCommand i) d = None"
      using assms(3) pre st c0 who by (auto simp: applyPrompt_def stateForUpdate_def bindE_Inr_iff split: if_splits option.splits)
    then have "stagePrompt cod i stage st c0 d = Inr (PromptApplied c turn adm link, d')"
      using assms(3) pre st c0 who False by (auto simp: applyPrompt_def stateForUpdate_def split: if_splits)
    then obtain adm' cursor link' row where
      x: "PromptApplied c turn adm link = PromptApplied (admittedPrompt i adm' cursor c0) (apTurn i) adm' link'"
      and row: "find (\<lambda>r. rowId r = apTurn i \<and> threadId r = apThread i) (turns (pbTurns d')) = Some row" "executionLink row = Some link'"
      and cs: "pbCommands d' = update_where (\<lambda>x. cdThread x = apThread i \<and> cdId x = apCommand i) (admittedPrompt i adm' cursor) (pbCommands d)"
      and ss: "pbStates d' = update_where (\<lambda>s. srOwner s = apOwner i \<and> srThread s = apThread i) (\<lambda>s. s\<lparr>srCursor := cursor\<rparr>) (pbStates d)"
      by (rule stagePrompt_result [OF assms(2)])
    have c: "c = admittedPrompt i adm' cursor c0" "turn = apTurn i" "adm = adm'" "link = link'" using x by simp_all
    have "commandCheck c0" using ok found(1) by (simp add: protocolConsistent_def commandsConsistent_def list_all_iff)
    then have nocancel: "cdCancelledBy c0 = None" using False by (cases "cdState c0") (simp_all add: commandCheck_def)
    have "c \<in> set (pbCommands d')" unfolding cs set_update_where c using found by auto
    then have "find (ownedCommand (apOwner i) (apThread i) (apCommand i)) (pbCommands d') = Some c"
      by (rule find_owned [OF ok']) (simp_all add: c(1) admittedPrompt_def found)
    moreover have "stateOf (apOwner i) (apThread i) (pbStates d') = Some (st\<lparr>srCursor := cursor\<rparr>)"
      by (simp add: ss stateOf_setCursor st)
    moreover have "completedApplication (i\<lparr>apClaim := token, apReady := ready\<rparr>) c d' = Inr (PromptApplied c turn adm link)"
      using row by (simp add: completedApplication_def c admittedPrompt_def nocancel)
    ultimately show ?thesis
      using pre who by (simp add: applyPrompt_def stateForUpdate_def) (simp add: c(1) admittedPrompt_def)
  qed
qed

text \<open>A prompt that a worker applies to a thread without turns.\<close>

definition promptLink :: execution_link where
  "promptLink = \<lparr> runId = ''R'', titleRunId = None, titleExpected = None, linkTurnId = ''t1'', linkThreadId = ''T'' \<rparr>"

definition promptRun :: "(int \<times> (string, string) protocol_op) list" where
  "promptRun = [(2, OpAdmit promptCommand None), (5, OpClaim (\<lambda>_. False) ''w'' 10)]"

definition promptThread :: "(string, string) protocol_db" where
  "promptThread = runOps (protocolStep sampleCodec) promptRun openThread"

lemma promptThread_turns: "storeOk (pbTurns promptThread)"
proof -
  have "pbTurns promptThread = emptyStore [''T''] []" by code_simp
  then show ?thesis using storeOk_empty by simp
qed

theorem prompts_keep_turn_store_witness:
  "storeOk (pbTurns (runOps (protocolStep sampleCodec) [(8, OpApply sampleApply (Inr promptLink))] promptThread))"
  by (rule prompts_keep_turn_store [OF promptThread_turns])

theorem apply_prompt_is_idempotent_witness:
  "\<exists>c turn adm link d'. applyPrompt sampleCodec sampleApply (Inr promptLink) 8 promptThread = Inr (PromptApplied c turn adm link, d') \<and>
    applyPrompt sampleCodec (sampleApply\<lparr>apClaim := None, apReady := False\<rparr>) (Inl databaseError) 30 d' =
      Inr (PromptApplied c turn adm link, d')"
proof -
  have "(case applyPrompt sampleCodec sampleApply (Inr promptLink) 8 promptThread of Inr (PromptApplied c turn adm link, d') \<Rightarrow> True
      | _ \<Rightarrow> False)" by code_simp
  then obtain c turn adm link d' where r: "applyPrompt sampleCodec sampleApply (Inr promptLink) 8 promptThread =
      Inr (PromptApplied c turn adm link, d')"
    by (auto split: sum.splits prod.splits prompt_application.splits)
  have "protocolReachable sampleCodec promptThread" unfolding promptThread_def by (rule protocolReachable_run [OF openThread_reachable])
  from apply_prompt_is_idempotent [OF this promptThread_turns r] r show ?thesis by blast
qed

section \<open>Capacity\<close>

text \<open>A thread with one queued turn, another that is held as the source of a steering request, and a claimed prompt.\<close>

definition heldThread :: "(string, string) protocol_db" where
  "heldThread = runOps (protocolStep sampleCodec) ((1, OpInitialize ''o'' ''T'' (ActingReader sampleActor)) # promptRun)
     (emptyProtocol sampleAuthority [\<lparr>ocOwner = ''o'', ocNext = 1\<rparr>] steeredStore
       [\<lparr>ptrId = ''T'', ptrOwner = ''o'', ptrTitle = ''Busy'', ptrUpdatedAt = 0\<rparr>])"


end
