(* ===== verification/Operation_Model.thy ===== *)
theory Operation_Model
  imports Assignment_Orphans Protocol_Authority
begin

text \<open>
  The journal of tool operations (packages/product-store/src/hosted/execution,
  packages/product/src/execution/tool/operation-lifecycle.ts, database/schema/hosted-execution.ts
  and hosted-environment.ts): what an executor was asked to do, under which lease it was
  dispatched, the frames it reports, and how it ended; beside them the capabilities a turn was
  pinned to, the admissions of runners and the exits of processes.  The tables of assignments are
  those of the assignment store, owners and members those of the authority.  Of commands the
  journal reads three columns.  Instants are integers in milliseconds.
\<close>

section \<open>Frames\<close>

record attribution =
  atKey :: string
  atWorkspace :: string
  atSession :: string
  atThread :: string
  atTurn :: string
  atRun :: string
  atRootRun :: string
  atToolCall :: string
  atAttempt :: int

datatype tool_response = ToolSuccess json | ToolDomainFailure json | ToolSuspend string

datatype terminal_outcome = OutcomeCompleted | OutcomeFailed | OutcomeCancelled | OutcomeUnknown

datatype output_stream = StandardOutput | StandardError

text \<open>The text of an output and whether it was truncated; it is always redacted.\<close>

datatype lifecycle_frame =
    AcceptedFrame (frameAttribution: attribution) (frameCursor: int)
  | StartedFrame (frameAttribution: attribution) (frameCursor: int)
  | OutputFrame (frameAttribution: attribution) (frameCursor: int) output_stream string bool
  | TerminalFrame (frameAttribution: attribution) (frameCursor: int) terminal_outcome tool_response

datatype frame_kind = KindAccepted | KindStarted | KindOutput | KindTerminal

fun kindOfFrame :: "lifecycle_frame \<Rightarrow> frame_kind" where
  "kindOfFrame (AcceptedFrame _ _) = KindAccepted"
| "kindOfFrame (StartedFrame _ _) = KindStarted"
| "kindOfFrame (OutputFrame _ _ _ _ _) = KindOutput"
| "kindOfFrame (TerminalFrame _ _ _ _) = KindTerminal"

section \<open>Operations\<close>

datatype replay_policy = ReplayPure | ReplayIdempotent | ReplayNever

record operation_identity =
  oiAssignment :: string
  oiKey :: string
  oiDigest :: string
  oiWorkspace :: string
  oiSession :: string
  oiThread :: string
  oiTurn :: string
  oiRun :: string
  oiRootRun :: string
  oiToolCall :: string
  oiCode :: string
  oiAttempt :: int
  oiPolicy :: replay_policy
  oiAdmittedAt :: "string option"
  oiDeadline :: instant

datatype operation_state = OperationAccepted | OperationDispatched | OperationCompleted | OperationUnknown

record dispatch_fence =
  dfGeneration :: int
  dfEpoch :: int
  dfProvider :: string
  dfExecutor :: string
  dfIncarnation :: string

record completion_fence =
  cfGeneration :: int
  cfEpoch :: int
  cfExecutor :: string
  cfIncarnation :: string

record operation_row =
  opIdentity :: operation_identity
  opOwner :: string
  opState :: operation_state
  opGeneration :: "int option"
  opEpoch :: "int option"
  opExecutor :: "string option"
  opIncarnation :: "string option"
  opResponse :: "tool_response option"
  opOutcome :: "terminal_outcome option"
  opStartedAt :: "instant option"
  opUpdatedAt :: instant

text \<open>What a caller sees of an operation.\<close>

record operation_record =
  rdIdentity :: operation_identity
  rdOwner :: string
  rdState :: operation_state
  rdStarted :: bool
  rdGeneration :: "int option"
  rdEpoch :: "int option"
  rdExecutor :: "string option"
  rdIncarnation :: "string option"
  rdResponse :: "tool_response option"
  rdOutcome :: "terminal_outcome option"

text \<open>An assignment, an operation key and an attempt.\<close>

type_synonym operation_key = "string \<times> string \<times> int"

definition identityKey1 :: "operation_identity \<Rightarrow> operation_key" where
  "identityKey1 i = (oiAssignment i, oiKey i, oiAttempt i)"

definition operationKey :: "operation_row \<Rightarrow> operation_key" where
  "operationKey r = identityKey1 (opIdentity r)"

definition decodeOperation :: "operation_row \<Rightarrow> operation_record" where
  "decodeOperation r =
     \<lparr>rdIdentity = opIdentity r, rdOwner = opOwner r, rdState = opState r, rdStarted = (opStartedAt r \<noteq> None),
      rdGeneration = opGeneration r, rdEpoch = opEpoch r, rdExecutor = opExecutor r, rdIncarnation = opIncarnation r,
      rdResponse = opResponse r, rdOutcome = opOutcome r\<rparr>"

section \<open>Other tables\<close>

record frame_row =
  frKey :: operation_key
  frCursor :: int
  frKind :: frame_kind
  frFrame :: lifecycle_frame

record process_observation =
  obProcess :: string
  obExit :: int
  obElapsed :: int
  obTruncated :: bool

record observation_row =
  ovKey :: operation_key
  ovProcess :: string
  ovObservation :: process_observation

record capability_admission =
  wcThread :: string
  wcTurn :: string
  wcAssignment :: string
  wcWorkspace :: string
  wcGeneration :: int
  wcDigest :: string
  wcRequired :: json

record runner_admission =
  raId :: string
  raAssignment :: string
  raOwner :: string
  raDevice :: string
  raClient :: string
  raUser :: string
  raIncarnation :: "string option"
  raGeneration :: int
  raFingerprint :: string
  raTicket :: string
  raExpiresAt :: instant
  raConsumedAt :: "instant option"
  raCreatedAt :: instant
  raRevokedAt :: "instant option"

record cli_registration =
  crClient :: string
  crDevice :: string
  crUser :: string
  crRevoked :: bool
  crThumbprint :: string

record runner_registration =
  rgDevice :: string
  rgFingerprint :: string
  rgRemote :: bool

record command_ref =
  cmThread :: string
  cmTurn :: string
  cmSequence :: int

text \<open>
  Of a transcript unit the code changes the status and the process of a tool call; the rest of
  the unit is text.
\<close>

datatype tool_status = ToolRunning | ToolComplete | ToolFailed | ToolCancelled | ToolRejected | ToolUnknown

record tool_process =
  tpRunning :: "bool option"
  tpId :: "string option"
  tpExit :: "int option"
  tpElapsed :: "int option"
  tpTruncated :: "bool option"
  tpRest :: string

record tool_call =
  tcOperation :: "string option"
  tcToolCall :: "string option"
  tcStatus :: tool_status
  tcProcess :: "tool_process option"
  tcRest :: string

datatype shown_unit = ToolCallUnit tool_call string | OtherUnit string

record unit_row =
  urTurn :: string
  urKey :: string
  urUnit :: shown_unit
  urUpdatedAt :: instant

record transcript_checkpoint =
  thTurn :: string
  thGeneration :: int
  txUpdatedAt :: instant

record journal =
  jnAssignments :: adb
  jnAuthority :: authority_db
  jnOperations :: "operation_row list"
  jnFrames :: "frame_row list"
  jnObservations :: "observation_row list"
  jnCapabilities :: "capability_admission list"
  jnAdmissions :: "runner_admission list"
  jnRegistrations :: "cli_registration list"
  jnCheckouts :: "runner_registration list"
  jnCommands :: "command_ref list"
  jnUnits :: "unit_row list"
  jnTranscripts :: "transcript_checkpoint list"

section \<open>Errors\<close>

text \<open>
  Every failure is a HostedExecutionOperationsError whose message quotes its cause: what the code
  says, or what a statement or a decoding failed with.
\<close>

datatype journal_error = JournalError string | JournalStatementFailed

section \<open>Constraints\<close>

definition operationCheck :: "operation_row \<Rightarrow> bool" where
  "operationCheck r \<longleftrightarrow> 0 \<le> oiAttempt (opIdentity r) \<and>
     (case opState r of
        OperationCompleted \<Rightarrow> opResponse r \<noteq> None \<and> opOutcome r \<in> {Some OutcomeCompleted, Some OutcomeFailed, Some OutcomeCancelled}
      | OperationUnknown \<Rightarrow> opResponse r \<noteq> None \<and> opOutcome r = Some OutcomeUnknown
      | _ \<Rightarrow> opResponse r = None \<and> opOutcome r = None) \<and>
     (opState r \<in> {OperationDispatched, OperationUnknown} \<longrightarrow>
        opGeneration r \<noteq> None \<and> opEpoch r \<noteq> None \<and> opExecutor r \<noteq> None \<and> opIncarnation r \<noteq> None) \<and>
     list_all (\<lambda>t. t \<noteq> []) [oiRootRun (opIdentity r), oiRun (opIdentity r), oiSession (opIdentity r), oiThread (opIdentity r),
       oiToolCall (opIdentity r), oiTurn (opIdentity r), oiWorkspace (opIdentity r)]"

definition assignedTo :: "adb \<Rightarrow> string \<Rightarrow> string \<Rightarrow> bool" where
  "assignedTo a i owner \<longleftrightarrow> exists_row (\<lambda>r. asgId r = i \<and> ownerId r = owner) (assignments a)"

definition ownerExists :: "authority_db \<Rightarrow> string \<Rightarrow> bool" where
  "ownerExists au i \<longleftrightarrow> exists_row (\<lambda>o1. owId o1 = i) (adOwners au)"

definition operationReferences :: "journal \<Rightarrow> operation_row \<Rightarrow> bool" where
  "operationReferences j r \<longleftrightarrow> assignedTo (jnAssignments j) (oiAssignment (opIdentity r)) (opOwner r) \<and>
     ownerExists (jnAuthority j) (opOwner r) \<and>
     exists_row (\<lambda>t. taId t = oiThread (opIdentity r)) (hostedThreads (jnAssignments j))"

definition operationsConsistent :: "journal \<Rightarrow> bool" where
  "operationsConsistent j \<longleftrightarrow> distinct (map operationKey (jnOperations j)) \<and>
     list_all operationCheck (jnOperations j) \<and> list_all (operationReferences j) (jnOperations j)"

definition framesConsistent :: "journal \<Rightarrow> bool" where
  "framesConsistent j \<longleftrightarrow> distinct (map (\<lambda>f. (frKey f, frCursor f)) (jnFrames j)) \<and>
     distinct (map frKey (filter (\<lambda>f. frKind f = KindTerminal) (jnFrames j))) \<and>
     list_all (\<lambda>f. 1 \<le> frCursor f \<and> 0 \<le> snd (snd (frKey f)) \<and> exists_row (\<lambda>r. operationKey r = frKey f) (jnOperations j)) (jnFrames j)"

definition observationsConsistent :: "journal \<Rightarrow> bool" where
  "observationsConsistent j \<longleftrightarrow> distinct (map (\<lambda>v. (ovKey v, ovProcess v)) (jnObservations j)) \<and>
     list_all (\<lambda>v. 0 \<le> snd (snd (ovKey v)) \<and> ovProcess v \<noteq> [] \<and> obProcess (ovObservation v) = ovProcess v \<and>
       exists_row (\<lambda>r. operationKey r = ovKey v) (jnOperations j)) (jnObservations j)"

definition capabilitiesConsistent :: "journal \<Rightarrow> bool" where
  "capabilitiesConsistent j \<longleftrightarrow> distinct (map (\<lambda>w. (wcThread w, wcTurn w)) (jnCapabilities j)) \<and>
     list_all (\<lambda>w. 1 \<le> wcGeneration w \<and> sha256Digest (wcDigest w) \<and>
       exists_row (\<lambda>r. asgId r = wcAssignment w) (assignments (jnAssignments j))) (jnCapabilities j)"

text \<open>Five minutes.\<close>

definition admissionLifetime :: int where "admissionLifetime = 300000"

definition admissionCheck :: "runner_admission \<Rightarrow> bool" where
  "admissionCheck a \<longleftrightarrow> raCreatedAt a < raExpiresAt a \<and> raExpiresAt a \<le> raCreatedAt a + admissionLifetime \<and> 1 \<le> raGeneration a \<and>
     1 \<le> length (raFingerprint a) \<and> length (raFingerprint a) \<le> 512"

definition runnersConsistent :: "journal \<Rightarrow> bool" where
  "runnersConsistent j \<longleftrightarrow> distinct (map raId (jnAdmissions j)) \<and> list_all admissionCheck (jnAdmissions j) \<and>
     list_all (\<lambda>a. assignedTo (jnAssignments j) (raAssignment a) (raOwner a) \<and> ownerExists (jnAuthority j) (raOwner a) \<and>
       exists_row (\<lambda>c. clId c = raClient a \<and> clUser c = raUser a) (adClients (jnAuthority j)) \<and>
       exists_row (\<lambda>v. dvId v = raDevice a \<and> dvUser v = raUser a) (adDevices (jnAuthority j))) (jnAdmissions j)"

definition journalConsistent :: "journal \<Rightarrow> bool" where
  "journalConsistent j \<longleftrightarrow> operationsConsistent j \<and> framesConsistent j \<and> observationsConsistent j \<and> capabilitiesConsistent j \<and>
     runnersConsistent j"

text \<open>After a statement the constraints hold or the transaction fails.\<close>

definition enforceJournal :: "journal \<Rightarrow> journal_error + journal" where
  "enforceJournal j = (if journalConsistent j then Inr j else Inl JournalStatementFailed)"

lemma enforceJournal_Inr: "enforceJournal j = Inr j' \<longleftrightarrow> journalConsistent j \<and> j' = j"
  by (auto simp: enforceJournal_def)

definition updateOperations :: "(operation_row \<Rightarrow> bool) \<Rightarrow> (operation_row \<Rightarrow> operation_row) \<Rightarrow> journal \<Rightarrow> journal_error + bool \<times> journal" where
  "updateOperations hit f j =
     bindE (enforceJournal (j\<lparr>jnOperations := update_where hit f (jnOperations j)\<rparr>)) (\<lambda>j'. Inr (exists_row hit (jnOperations j), j'))"

definition operationOf :: "operation_key \<Rightarrow> journal \<Rightarrow> operation_row option" where
  "operationOf k j = row_by operationKey k (jnOperations j)"

end
