(* ===== verification/Operation_Journal.thy ===== *)
theory Operation_Journal
  imports Operation_Model
begin

text \<open>
  Admission and dispatch of tool operations (operation-dispatch.ts), their frames
  (operation-lifecycle.ts) and their end (operation-finalization.ts).
\<close>

section \<open>Admission\<close>

definition findOperation :: "operation_key \<Rightarrow> journal \<Rightarrow> operation_record option" where
  "findOperation k j = map_option decodeOperation (operationOf k j)"

text \<open>
  \<open>ON CONFLICT DO NOTHING\<close>: the row itself is checked first, then nothing is written when its
  key is taken.
\<close>

definition insertOperation :: "operation_row \<Rightarrow> journal \<Rightarrow> journal_error + journal" where
  "insertOperation row j =
     (if \<not> operationCheck row then Inl JournalStatementFailed
      else if exists_row (\<lambda>r. operationKey r = operationKey row) (jnOperations j) then Inr j
      else enforceJournal (j\<lparr>jnOperations := jnOperations j @ [row]\<rparr>))"

definition acceptedRow :: "clock \<Rightarrow> operation_identity \<Rightarrow> string \<Rightarrow> operation_row" where
  "acceptedRow c i owner =
     \<lparr>opIdentity = i, opOwner = owner, opState = OperationAccepted, opGeneration = None, opEpoch = None, opExecutor = None,
      opIncarnation = None, opResponse = None, opOutcome = None, opStartedAt = None, opUpdatedAt = txNow c\<rparr>"

definition upsertOperation :: "clock \<Rightarrow> operation_identity \<Rightarrow> journal \<Rightarrow> journal_error + operation_record option \<times> journal" where
  "upsertOperation c i j =
     (case row_by asgId (oiAssignment i) (assignments (jnAssignments j)) of
        None \<Rightarrow> Inr (None, j)
      | Some a \<Rightarrow>
          bindE (insertOperation (acceptedRow c i (ownerId a)) j) (\<lambda>j'. Inr (findOperation (identityKey1 i) j', j')))"

section \<open>Dispatch\<close>

datatype dispatch_claim = DispatchClaimed | DispatchSameFence | DispatchFenced | DispatchMissing

record dispatch_input =
  diKey :: operation_key
  diThread :: string
  diTurn :: string
  diWorkspace :: string

text \<open>The assignment is active under exactly this fence, its lease has not expired, and its capabilities are known.\<close>

definition holdsDispatch :: "clock \<Rightarrow> dispatch_fence \<Rightarrow> string option \<Rightarrow> assignment_row \<Rightarrow> bool" where
  "holdsDispatch c f digest a \<longleftrightarrow> lifecycle a = LcActive \<and> capabilityGeneration a = Some (generation a) \<and>
     generation a = dfGeneration f \<and> leaseEpoch a = Some (dfEpoch f) \<and> leaseLive c a \<and> providerInstanceId a = Some (dfProvider f) \<and>
     executorInstanceId a = Some (dfExecutor f) \<and> processIncarnation a = Some (dfIncarnation f) \<and>
     (case digest of None \<Rightarrow> True | Some s \<Rightarrow> sessionDigest a = Some s)"

text \<open>The turn is pinned to the generation and the environment of the assignment.\<close>

definition pinnedTo :: "dispatch_input \<Rightarrow> assignment_row \<Rightarrow> capability_admission \<Rightarrow> bool" where
  "pinnedTo i a w \<longleftrightarrow> wcAssignment w = asgId a \<and> wcThread w = diThread i \<and> wcTurn w = diTurn i \<and> wcWorkspace w = diWorkspace i \<and>
     wcGeneration w = generation a \<and> map_option environmentDigest (capabilitySnapshot a) = Some (wcDigest w)"

definition dispatchAssignment :: "clock \<Rightarrow> dispatch_input \<Rightarrow> dispatch_fence \<Rightarrow> string option \<Rightarrow> journal \<Rightarrow> assignment_row option" where
  "dispatchAssignment c i f digest j =
     find (\<lambda>a. asgId a = fst (diKey i) \<and> holdsDispatch c f digest a \<and> threadId a = diThread i \<and>
         exists_row (pinnedTo i a) (jnCapabilities j)) (assignments (jnAssignments j))"

text \<open>A user acts for an owner: as that person, or as a member of that organization.\<close>

definition actsForOwner :: "authority_db \<Rightarrow> string \<Rightarrow> string \<Rightarrow> bool" where
  "actsForOwner au owner user \<longleftrightarrow>
     exists_row (\<lambda>ow. owId ow = owner \<and>
       (case owKind ow of PersonalKind u \<Rightarrow> u = user
        | OrganizationKind g \<Rightarrow> exists_row (\<lambda>m. meOrganization m = g \<and> meUser m = user) (adMembers au))) (adOwners au)"

definition runnerAdmitted :: "assignment_row \<Rightarrow> dispatch_fence \<Rightarrow> journal \<Rightarrow> bool" where
  "runnerAdmitted a f j \<longleftrightarrow>
     exists_row (\<lambda>x. raAssignment x = asgId a \<and> raOwner x = ownerId a \<and> raGeneration x = dfGeneration f \<and>
         raDevice x = dfProvider f \<and> raIncarnation x = Some (dfIncarnation f) \<and> raConsumedAt x \<noteq> None \<and> raRevokedAt x = None \<and>
         exists_row (\<lambda>r. crClient r = raClient x \<and> crDevice r = raDevice x \<and> crUser r = raUser x \<and> \<not> crRevoked r)
           (jnRegistrations j) \<and>
         actsForOwner (jnAuthority j) (raOwner x) (raUser x)) (jnAdmissions j)"

definition dispatchedBy :: "dispatch_fence \<Rightarrow> operation_row \<Rightarrow> bool" where
  "dispatchedBy f r \<longleftrightarrow> opGeneration r = Some (dfGeneration f) \<and> opExecutor r = Some (dfExecutor f) \<and>
     opIncarnation r = Some (dfIncarnation f)"

definition dispatchedRow :: "clock \<Rightarrow> dispatch_fence \<Rightarrow> operation_row \<Rightarrow> operation_row" where
  "dispatchedRow c f r =
     r\<lparr>opState := OperationDispatched, opGeneration := Some (dfGeneration f), opEpoch := Some (dfEpoch f),
       opExecutor := Some (dfExecutor f), opIncarnation := Some (dfIncarnation f), opUpdatedAt := wallNow c\<rparr>"

definition claimDispatch :: "clock \<Rightarrow> dispatch_input \<Rightarrow> dispatch_fence \<Rightarrow> string option \<Rightarrow> journal \<Rightarrow>
    journal_error + dispatch_claim \<times> journal" where
  "claimDispatch c i f digest j =
     (case dispatchAssignment c i f digest j of
        None \<Rightarrow> Inr (DispatchFenced, j)
      | Some a \<Rightarrow>
          if executorKind a = Runner \<and> \<not> runnerAdmitted a f j then Inr (DispatchFenced, j)
          else case operationOf (diKey i) j of
              None \<Rightarrow> Inr (DispatchMissing, j)
            | Some r \<Rightarrow>
                (case opState r of
                   OperationDispatched \<Rightarrow>
                     if \<not> dispatchedBy f r then Inr (DispatchFenced, j)
                     else if opEpoch r = Some (dfEpoch f) then Inr (DispatchSameFence, j)
                     else bindE (updateOperations (\<lambda>r. operationKey r = diKey i \<and> opState r = OperationDispatched \<and> dispatchedBy f r)
                         (\<lambda>r. r\<lparr>opEpoch := Some (dfEpoch f), opUpdatedAt := wallNow c\<rparr>) j) (\<lambda>(b, j'). Inr (DispatchSameFence, j'))
                 | OperationAccepted \<Rightarrow>
                     bindE (updateOperations (\<lambda>r. operationKey r = diKey i \<and> opState r = OperationAccepted) (dispatchedRow c f) j)
                       (\<lambda>(b, j'). Inr (if b then DispatchClaimed else DispatchFenced, j'))
                 | _ \<Rightarrow> Inr (DispatchFenced, j)))"

section \<open>Frames\<close>

definition attributionMatches :: "operation_identity \<Rightarrow> attribution \<Rightarrow> bool" where
  "attributionMatches i a \<longleftrightarrow> oiWorkspace i = atWorkspace a \<and> oiSession i = atSession a \<and> oiThread i = atThread a \<and>
     oiTurn i = atTurn a \<and> oiRun i = atRun a \<and> oiRootRun i = atRootRun a \<and> oiToolCall i = atToolCall a"

definition maximumOutputFrames :: nat where "maximumOutputFrames = 16"

text \<open>Accepted, started, then outputs up to the limit, and a terminal frame at most at the end.\<close>

definition frameFollows :: "lifecycle_frame list \<Rightarrow> lifecycle_frame \<Rightarrow> bool" where
  "frameFollows known f =
     (if frameCursor f \<noteq> int (length known) + 1 \<or> list_ex (\<lambda>v. kindOfFrame v = KindTerminal) known then False
      else if frameCursor f = 1 then kindOfFrame f = KindAccepted
      else if frameCursor f = 2 then kindOfFrame f = KindStarted
      else if kindOfFrame f \<noteq> KindOutput \<and> kindOfFrame f \<noteq> KindTerminal then False
      else kindOfFrame f \<noteq> KindOutput \<or> length (filter (\<lambda>v. kindOfFrame v = KindOutput) known) < maximumOutputFrames)"

definition frameRowsOf :: "operation_key \<Rightarrow> journal \<Rightarrow> frame_row list" where
  "frameRowsOf k j = sort_key frCursor (filter (\<lambda>f. frKey f = k) (jnFrames j))"

definition readFrames :: "operation_key \<Rightarrow> journal \<Rightarrow> lifecycle_frame list" where
  "readFrames k j = map frFrame (frameRowsOf k j)"

definition frameKey :: "string \<Rightarrow> lifecycle_frame \<Rightarrow> operation_key" where
  "frameKey i f = (i, atKey (frameAttribution f), atAttempt (frameAttribution f))"

definition insertFrame :: "operation_key \<Rightarrow> lifecycle_frame \<Rightarrow> journal \<Rightarrow> journal_error + journal" where
  "insertFrame k f j =
     enforceJournal (j\<lparr>jnFrames := jnFrames j @ [\<lparr>frKey = k, frCursor = frameCursor f, frKind = kindOfFrame f, frFrame = f\<rparr>]\<rparr>)"

datatype append_result = FrameAppended | FrameDuplicate | FrameTerminal | FrameInvalid

definition appendFrame :: "clock \<Rightarrow> string \<Rightarrow> lifecycle_frame \<Rightarrow> journal \<Rightarrow> journal_error + append_result \<times> journal" where
  "appendFrame c i f j =
     (let k = frameKey i f in
      case operationOf k j of
        None \<Rightarrow> Inr (FrameInvalid, j)
      | Some r \<Rightarrow>
          if \<not> attributionMatches (opIdentity r) (frameAttribution f) then Inr (FrameInvalid, j)
          else let known = readFrames k j in
            case find (\<lambda>v. frameCursor v = frameCursor f) known of
              Some v \<Rightarrow> Inr (if v = f then FrameDuplicate else FrameInvalid, j)
            | None \<Rightarrow>
                if opState r = OperationCompleted \<or> opState r = OperationUnknown then Inr (FrameTerminal, j)
                else if opState r \<noteq> OperationDispatched \<or> \<not> frameFollows known f then Inr (FrameInvalid, j)
                else
                  bindE (insertFrame k f j) (\<lambda>j1.
                    if kindOfFrame f \<noteq> KindStarted then Inr (FrameAppended, j1)
                    else bindE (updateOperations (\<lambda>r. operationKey r = k \<and> opState r = OperationDispatched)
                        (\<lambda>r. r\<lparr>opStartedAt := Some (case opStartedAt r of None \<Rightarrow> wallNow c | Some t \<Rightarrow> t), opUpdatedAt := wallNow c\<rparr>) j1)
                      (\<lambda>(b, j2). Inr (FrameAppended, j2))))"

text \<open>The receipt of an operation: its terminal frame.\<close>

definition receiptOf :: "frame_row \<Rightarrow> journal_error + lifecycle_frame" where
  "receiptOf f = (if kindOfFrame (frFrame f) = KindTerminal then Inr (frFrame f) else Inl (JournalError ''Terminal frame kind is invalid''))"

definition terminalFrame :: "operation_key \<Rightarrow> journal \<Rightarrow> journal_error + lifecycle_frame option" where
  "terminalFrame k j =
     (case find (\<lambda>f. frKey f = k \<and> frKind f = KindTerminal) (jnFrames j) of
        None \<Rightarrow> Inr None
      | Some f \<Rightarrow> bindE (receiptOf f) (\<lambda>v. Inr (Some v)))"

definition recoveryLimit :: nat where "recoveryLimit = 32"

definition terminalRecoveryScan :: "journal \<Rightarrow> journal_error + (operation_key \<times> lifecycle_frame) list" where
  "terminalRecoveryScan j =
     traverseE (\<lambda>(r, f). bindE (receiptOf f) (\<lambda>v. Inr (operationKey r, v)))
       (take recoveryLimit (sort_key (\<lambda>(r, f). (opUpdatedAt r, oiKey (opIdentity r)))
         (concat (map (\<lambda>r. map (Pair r) (filter (\<lambda>f. frKey f = operationKey r \<and> frKind f = KindTerminal) (jnFrames j)))
           (filter (\<lambda>r. opState r = OperationDispatched) (jnOperations j))))))"

text \<open>The dispatched operations of an assignment and the last cursor that is known of each.\<close>

definition lastCursor :: "operation_key \<Rightarrow> journal \<Rightarrow> int" where
  "lastCursor k j = foldl max 0 (map frCursor (filter (\<lambda>f. frKey f = k) (jnFrames j)))"

definition replayQueue :: "string \<Rightarrow> journal \<Rightarrow> (string \<times> int \<times> int) list" where
  "replayQueue i j =
     map (\<lambda>r. (oiKey (opIdentity r), oiAttempt (opIdentity r), lastCursor (operationKey r) j))
       (sort_key (\<lambda>r. (oiKey (opIdentity r), oiAttempt (opIdentity r)))
         (filter (\<lambda>r. oiAssignment (opIdentity r) = i \<and> opState r = OperationDispatched) (jnOperations j)))"

section \<open>Completion\<close>

datatype final_state = FinalCompleted | FinalUnknown

fun storedState :: "final_state \<Rightarrow> operation_state" where
  "storedState FinalCompleted = OperationCompleted"
| "storedState FinalUnknown = OperationUnknown"

definition fenceOfRow :: "completion_fence \<Rightarrow> operation_row \<Rightarrow> bool" where
  "fenceOfRow f r \<longleftrightarrow> opGeneration r = Some (cfGeneration f) \<and> opEpoch r = Some (cfEpoch f) \<and> opExecutor r = Some (cfExecutor f) \<and>
     opIncarnation r = Some (cfIncarnation f)"

definition endedRow :: "clock \<Rightarrow> operation_state \<Rightarrow> tool_response \<Rightarrow> terminal_outcome \<Rightarrow> operation_row \<Rightarrow> operation_row" where
  "endedRow c st response outcome r =
     r\<lparr>opState := st, opResponse := Some response, opOutcome := Some outcome, opUpdatedAt := wallNow c\<rparr>"

definition complete :: "clock \<Rightarrow> operation_key \<Rightarrow> completion_fence \<Rightarrow> tool_response \<Rightarrow> terminal_outcome \<Rightarrow> journal \<Rightarrow>
    journal_error + bool \<times> journal" where
  "complete c k f response outcome j =
     updateOperations (\<lambda>r. operationKey r = k \<and> opState r = OperationDispatched \<and> fenceOfRow f r)
       (endedRow c (if outcome = OutcomeUnknown then OperationUnknown else OperationCompleted) response outcome) j"

record finalize_input =
  fiKey :: operation_key
  fiResponse :: tool_response
  fiState :: final_state
  fiCompletionFence :: "completion_fence option"
  fiExpectedFence :: "completion_fence option"

datatype finalize_failure =
    OperationMissing | NotDispatched | IncompleteFence | CompletionFenceMismatch | ExpectedFenceMismatch | ResponseConflict

datatype finalize_result =
    Finalized tool_response terminal_outcome int completion_fence
  | AlreadyTerminal tool_response terminal_outcome
  | FinalizeFailed finalize_failure

definition completionFenceMatches :: "completion_fence option \<Rightarrow> completion_fence \<Rightarrow> bool" where
  "completionFenceMatches expected actual =
     (case expected of None \<Rightarrow> False
      | Some e \<Rightarrow> cfGeneration e = cfGeneration actual \<and> cfExecutor e = cfExecutor actual \<and> cfIncarnation e = cfIncarnation actual)"

definition dispatchedFence :: "operation_row \<Rightarrow> completion_fence option" where
  "dispatchedFence r =
     (case (opGeneration r, opEpoch r, opExecutor r, opIncarnation r) of
        (Some g, Some e, Some x, Some p) \<Rightarrow> Some \<lparr>cfGeneration = g, cfEpoch = e, cfExecutor = x, cfIncarnation = p\<rparr>
      | _ \<Rightarrow> None)"

definition existingResult :: "operation_row \<Rightarrow> finalize_input \<Rightarrow> journal_error + finalize_result" where
  "existingResult r i =
     (case (opResponse r, opOutcome r) of
        (Some previous, Some outcome) \<Rightarrow>
          if previous \<noteq> fiResponse i \<and> fiState i \<noteq> FinalUnknown \<and> opState r \<noteq> OperationUnknown
          then Inr (FinalizeFailed ResponseConflict)
          else Inr (AlreadyTerminal previous outcome)
      | _ \<Rightarrow> Inl (JournalError ''Terminal operation is incomplete''))"

text \<open>What the receipt and the input come to: a failure, or what to record and under which fence.\<close>

definition resolveFinalization :: "(terminal_outcome \<times> tool_response) option \<Rightarrow> finalize_input \<Rightarrow> completion_fence \<Rightarrow>
    finalize_failure + tool_response \<times> terminal_outcome \<times> final_state \<times> completion_fence" where
  "resolveFinalization terminal i fence =
     (if (case terminal of None \<Rightarrow> False | Some (outcome, response) \<Rightarrow> fiState i = FinalCompleted \<and> response \<noteq> fiResponse i)
      then Inl ResponseConflict
      else
        let response = (case terminal of None \<Rightarrow> fiResponse i | Some (outcome, response) \<Rightarrow> response);
            outcome = (case terminal of None \<Rightarrow> OutcomeUnknown | Some (outcome, response) \<Rightarrow> outcome);
            st = (case terminal of None \<Rightarrow> fiState i
              | Some (outcome, response) \<Rightarrow> if outcome = OutcomeUnknown then FinalUnknown else FinalCompleted);
            expected = (case fiExpectedFence i of None \<Rightarrow> fence | Some e \<Rightarrow> e) in
        if st = FinalCompleted \<and> terminal = None \<and> \<not> completionFenceMatches (fiCompletionFence i) fence then Inl CompletionFenceMismatch
        else if expected \<noteq> fence then Inl ExpectedFenceMismatch
        else Inr (response, outcome, st, expected))"

fun receiptContent :: "lifecycle_frame \<Rightarrow> (terminal_outcome \<times> tool_response) option" where
  "receiptContent (TerminalFrame _ _ outcome response) = Some (outcome, response)"
| "receiptContent _ = None"

definition commandOfTurn :: "operation_identity \<Rightarrow> journal \<Rightarrow> command_ref option" where
  "commandOfTurn i j = find (\<lambda>m. cmThread m = oiThread i \<and> cmTurn m = oiTurn i) (jnCommands j)"

text \<open>The write, and the sequence of the command of the turn.\<close>

definition recordEnd :: "clock \<Rightarrow> finalize_input \<Rightarrow> operation_row \<Rightarrow> completion_fence \<Rightarrow>
    tool_response \<times> terminal_outcome \<times> final_state \<times> completion_fence \<Rightarrow> journal \<Rightarrow> journal_error + finalize_result \<times> journal" where
  "recordEnd c i r fence resolved j =
     (case resolved of (response, outcome, st, expected) \<Rightarrow>
        bindE (updateOperations (\<lambda>r. operationKey r = fiKey i \<and> opState r = OperationDispatched \<and> fenceOfRow expected r)
            (endedRow c (storedState st) response outcome) j) (\<lambda>(b, j1).
          if \<not> b then Inr (FinalizeFailed ExpectedFenceMismatch, j1)
          else case commandOfTurn (opIdentity r) j1 of
              None \<Rightarrow> Inl (JournalError ''Runner command is unavailable'')
            | Some m \<Rightarrow> Inr (Finalized response outcome (cmSequence m) fence, j1)))"

definition finalizeTransaction :: "clock \<Rightarrow> finalize_input \<Rightarrow> journal \<Rightarrow> journal_error + finalize_result \<times> journal" where
  "finalizeTransaction c i j =
     (case operationOf (fiKey i) j of
        None \<Rightarrow> Inr (FinalizeFailed OperationMissing, j)
      | Some r \<Rightarrow>
          if opState r = OperationCompleted \<or> opState r = OperationUnknown then bindE (existingResult r i) (\<lambda>x. Inr (x, j))
          else if opState r \<noteq> OperationDispatched then Inr (FinalizeFailed NotDispatched, j)
          else case dispatchedFence r of
              None \<Rightarrow> Inr (FinalizeFailed IncompleteFence, j)
            | Some fence \<Rightarrow>
                bindE (terminalFrame (fiKey i) j) (\<lambda>receipt.
                  case resolveFinalization (Option.bind receipt receiptContent) i fence of
                    Inl e \<Rightarrow> Inr (FinalizeFailed e, j)
                  | Inr resolved \<Rightarrow> recordEnd c i r fence resolved j))"

text \<open>
  The callback runs after the transaction has committed: when it fails, the call fails and the
  operation stays ended.
\<close>

definition finalizeOperation :: "clock \<Rightarrow> finalize_input \<Rightarrow> (finalize_result \<Rightarrow> journal_error + unit) option \<Rightarrow> journal \<Rightarrow>
    (journal_error + finalize_result) \<times> journal" where
  "finalizeOperation c i callback j =
     (case finalizeTransaction c i j of
        Inl e \<Rightarrow> (Inl e, j)
      | Inr (x, j') \<Rightarrow>
          (case (x, callback) of
             (Finalized _ _ _ _, Some f) \<Rightarrow> (bindE (f x) (\<lambda>_. Inr x), j')
           | _ \<Rightarrow> (Inr x, j')))"

section \<open>Ending what was never dispatched\<close>

datatype early_outcome = EarlyFailed | EarlyCancelled

fun earlyOutcome :: "early_outcome \<Rightarrow> terminal_outcome" where
  "earlyOutcome EarlyFailed = OutcomeFailed"
| "earlyOutcome EarlyCancelled = OutcomeCancelled"

record terminalized =
  tmOperation :: operation_record
  tmSequence :: int
  tmGeneration :: int
  tmEpoch :: int

text \<open>Here the callback runs inside the transaction.\<close>

definition terminalizeAccepted :: "clock \<Rightarrow> operation_key \<Rightarrow> tool_response \<Rightarrow> early_outcome \<Rightarrow>
    (terminalized \<Rightarrow> journal_error + unit) option \<Rightarrow> journal \<Rightarrow> journal_error + terminalized option \<times> journal" where
  "terminalizeAccepted c k response outcome callback j =
     (case operationOf k j of
        None \<Rightarrow> Inr (None, j)
      | Some r \<Rightarrow>
          if opState r \<noteq> OperationAccepted then Inr (None, j)
          else
            bindE (updateOperations (\<lambda>r. operationKey r = k \<and> opState r = OperationAccepted)
                (endedRow c OperationCompleted response (earlyOutcome outcome)) j) (\<lambda>(b, j1).
              if \<not> b then Inr (None, j1)
              else
                (case (commandOfTurn (opIdentity r) j1,
                    find (\<lambda>a. asgId a = fst k \<and> leaseEpoch a \<noteq> None) (assignments (jnAssignments j1))) of
                   (Some m, Some a) \<Rightarrow>
                     (case leaseEpoch a of
                        None \<Rightarrow> Inl (JournalError ''Runner deadline authority is unavailable'')
                      | Some e \<Rightarrow>
                          let x = \<lparr>tmOperation = decodeOperation (r\<lparr>opState := OperationCompleted, opResponse := Some response,
                                opOutcome := Some (earlyOutcome outcome)\<rparr>), tmSequence = cmSequence m, tmGeneration = generation a,
                                tmEpoch = e\<rparr> in
                          bindE (case callback of None \<Rightarrow> Inr () | Some f \<Rightarrow> f x) (\<lambda>_. Inr (Some x, j1)))
                 | _ \<Rightarrow> Inl (JournalError ''Runner deadline authority is unavailable''))))"

end
