(* ===== verification/Operation_Admissions.thy ===== *)
theory Operation_Admissions
  imports Operation_Journal
begin

text \<open>
  What an operation needs before it is dispatched (operation-admissions.ts): the capabilities a
  turn is pinned to, and the admission of a runner by a short-lived ticket.
\<close>

section \<open>Workspace capabilities\<close>

definition pinnedAssignment :: "capability_admission \<Rightarrow> assignment_row \<Rightarrow> bool" where
  "pinnedAssignment w a \<longleftrightarrow> asgId a = wcAssignment w \<and> threadId a = wcThread w \<and> workspaceId a = wcWorkspace w \<and>
     lifecycle a = LcActive \<and> generation a = wcGeneration w \<and> capabilityGeneration a = Some (wcGeneration w) \<and>
     map_option environmentDigest (capabilitySnapshot a) = Some (wcDigest w)"

definition pinCheck :: "capability_admission \<Rightarrow> bool" where
  "pinCheck w \<longleftrightarrow> 1 \<le> wcGeneration w \<and> sha256Digest (wcDigest w)"

definition insertCapability :: "capability_admission \<Rightarrow> journal \<Rightarrow> journal_error + journal" where
  "insertCapability w j =
     (if \<not> pinCheck w then Inl JournalStatementFailed
      else if exists_row (\<lambda>x. wcThread x = wcThread w \<and> wcTurn x = wcTurn w) (jnCapabilities j) then Inr j
      else enforceJournal (j\<lparr>jnCapabilities := jnCapabilities j @ [w]\<rparr>))"

text \<open>A turn is pinned once: to the assignment, the workspace, the generation and the environment.\<close>

definition samePin :: "capability_admission \<Rightarrow> capability_admission \<Rightarrow> bool" where
  "samePin w x \<longleftrightarrow> wcAssignment x = wcAssignment w \<and> wcWorkspace x = wcWorkspace w \<and> wcGeneration x = wcGeneration w \<and>
     wcDigest x = wcDigest w"

definition admitWorkspaceCapabilities :: "clock \<Rightarrow> capability_admission \<Rightarrow> journal \<Rightarrow> journal_error + bool \<times> journal" where
  "admitWorkspaceCapabilities c w j =
     (if \<not> exists_row (pinnedAssignment w) (assignments (jnAssignments j)) then Inr (False, j)
      else if \<not> exists_row (\<lambda>a. asgId a = wcAssignment w \<and> leaseLive c a) (assignments (jnAssignments j)) then Inr (False, j)
      else bindE (insertCapability w j) (\<lambda>j'.
        Inr ((case find (\<lambda>x. wcThread x = wcThread w \<and> wcTurn x = wcTurn w) (jnCapabilities j') of
            None \<Rightarrow> False | Some x \<Rightarrow> samePin w x), j')))"

definition validateWorkspaceCapabilities :: "capability_admission \<Rightarrow> journal \<Rightarrow> bool" where
  "validateWorkspaceCapabilities w j =
     exists_row (\<lambda>x. wcThread x = wcThread w \<and> wcTurn x = wcTurn w \<and> samePin w x) (jnCapabilities j)"

section \<open>Runners\<close>

record runner_authority =
  vaOwner :: string
  vaClient :: string
  vaDevice :: string
  vaUser :: string
  vaThumbprint :: "string option"

definition verifyRunnerAuthority :: "runner_authority \<Rightarrow> journal \<Rightarrow> bool" where
  "verifyRunnerAuthority v j \<longleftrightarrow>
     exists_row (\<lambda>r. crClient r = vaClient v \<and> crDevice r = vaDevice v \<and> crUser r = vaUser v \<and> \<not> crRevoked r \<and>
         (case vaThumbprint v of None \<Rightarrow> True | Some t \<Rightarrow> crThumbprint r = t)) (jnRegistrations j) \<and>
     actsForOwner (jnAuthority j) (vaOwner v) (vaUser v)"

definition raConsumedTime :: "runner_admission \<Rightarrow> int" where
  "raConsumedTime x = (case raConsumedAt x of None \<Rightarrow> 0 | Some t \<Rightarrow> t)"

text \<open>The device, client and user of the earliest consumed admission of a process.\<close>

definition runnerPrincipal :: "string \<Rightarrow> int \<Rightarrow> string \<Rightarrow> string \<Rightarrow> journal \<Rightarrow> (string \<times> string \<times> string) option" where
  "runnerPrincipal i g device incarnation j =
     (case sort_key raConsumedTime (filter (\<lambda>x. raAssignment x = i \<and> raGeneration x = g \<and> raDevice x = device \<and>
         raIncarnation x = Some incarnation \<and> raConsumedAt x \<noteq> None \<and> raRevokedAt x = None) (jnAdmissions j)) of
        [] \<Rightarrow> None | x # _ \<Rightarrow> Some (raDevice x, raClient x, raUser x))"

definition hasConsumedRunnerAdmission :: "string \<Rightarrow> string \<Rightarrow> int \<Rightarrow> string \<Rightarrow> string \<Rightarrow> journal \<Rightarrow> bool" where
  "hasConsumedRunnerAdmission i owner g device client j =
     exists_row (\<lambda>x. raAssignment x = i \<and> raOwner x = owner \<and> raGeneration x = g \<and> raDevice x = device \<and> raClient x = client \<and>
         raConsumedAt x \<noteq> None \<and> raRevokedAt x = None) (jnAdmissions j)"

definition lockRemoteCreationAdmission :: "string \<Rightarrow> string \<Rightarrow> journal \<Rightarrow> bool" where
  "lockRemoteCreationAdmission device fingerprint j =
     exists_row (\<lambda>r. rgDevice r = device \<and> rgFingerprint r = fingerprint \<and> rgRemote r) (jnCheckouts j)"

record admission_input =
  aiId :: string
  aiAssignment :: string
  aiOwner :: string
  aiDevice :: string
  aiClient :: string
  aiUser :: string
  aiGeneration :: int
  aiFingerprint :: string
  aiTicket :: string
  aiLifetime :: int

definition createdAdmission :: "clock \<Rightarrow> admission_input \<Rightarrow> runner_admission" where
  "createdAdmission c i =
     \<lparr>raId = aiId i, raAssignment = aiAssignment i, raOwner = aiOwner i, raDevice = aiDevice i, raClient = aiClient i,
      raUser = aiUser i, raIncarnation = None, raGeneration = aiGeneration i, raFingerprint = aiFingerprint i,
      raTicket = aiTicket i, raExpiresAt = wallNow c + aiLifetime i, raConsumedAt = None, raCreatedAt = txNow c,
      raRevokedAt = None\<rparr>"

definition createRunnerAdmission :: "clock \<Rightarrow> admission_input \<Rightarrow> journal \<Rightarrow> journal_error + int \<times> journal" where
  "createRunnerAdmission c i j =
     bindE (enforceJournal (j\<lparr>jnAdmissions := jnAdmissions j @ [createdAdmission c i]\<rparr>))
       (\<lambda>j'. Inr (raExpiresAt (createdAdmission c i), j'))"

definition lockRunnerAdmission :: "clock \<Rightarrow> string \<Rightarrow> journal \<Rightarrow> runner_admission option" where
  "lockRunnerAdmission c i j =
     find (\<lambda>x. raId x = i \<and> raConsumedAt x = None \<and> raRevokedAt x = None \<and> wallNow c < raExpiresAt x) (jnAdmissions j)"

definition consumeRunnerAdmission :: "clock \<Rightarrow> string \<Rightarrow> string \<Rightarrow> journal \<Rightarrow> journal_error + bool \<times> journal" where
  "consumeRunnerAdmission c i incarnation j =
     (let hit = (\<lambda>x. raId x = i \<and> raConsumedAt x = None \<and> wallNow c < raExpiresAt x) in
      bindE (enforceJournal (j\<lparr>jnAdmissions := update_where hit
          (\<lambda>x. x\<lparr>raConsumedAt := Some (txNow c), raIncarnation := Some incarnation\<rparr>) (jnAdmissions j)\<rparr>))
        (\<lambda>j'. Inr (exists_row hit (jnAdmissions j), j')))"

end
