(* ===== verification/Operation_Observations.thy ===== *)
theory Operation_Observations
  imports Operation_Admissions
begin

text \<open>
  The exit of a process that a tool call left running (process-observation.ts): recorded once
  under the authority of the executor that runs it, and shown in the transcript of its turn.
\<close>

definition observedCall :: "process_observation \<Rightarrow> tool_call \<Rightarrow> tool_call" where
  "observedCall v t =
     t\<lparr>tcStatus := (if obExit v = 0 then ToolComplete else ToolFailed),
       tcProcess := map_option (\<lambda>p. p\<lparr>tpId := Some (obProcess v), tpExit := Some (obExit v), tpElapsed := Some (obElapsed v),
         tpTruncated := Some (obTruncated v), tpRunning := Some False\<rparr>) (tcProcess t)\<rparr>"

text \<open>The unit shows the tool call of the operation and its process.\<close>

definition showsProcess :: "string \<Rightarrow> string \<Rightarrow> process_observation \<Rightarrow> tool_call \<Rightarrow> bool" where
  "showsProcess key toolCall v t \<longleftrightarrow> tcOperation t = Some key \<and> tcToolCall t = Some toolCall \<and>
     Option.bind (tcProcess t) tpId = Some (obProcess v)"

fun applyObservation :: "string \<Rightarrow> string \<Rightarrow> process_observation \<Rightarrow> shown_unit \<Rightarrow> shown_unit" where
  "applyObservation key toolCall v (ToolCallUnit t rest) =
     (if showsProcess key toolCall v t then ToolCallUnit (observedCall v t) rest else ToolCallUnit t rest)"
| "applyObservation key toolCall v (OtherUnit rest) = OtherUnit rest"

fun observedUnit :: "string \<Rightarrow> string \<Rightarrow> process_observation \<Rightarrow> shown_unit \<Rightarrow> bool" where
  "observedUnit key toolCall v (ToolCallUnit t rest) = showsProcess key toolCall v t"
| "observedUnit key toolCall v (OtherUnit rest) = False"

fun runningUnit :: "shown_unit \<Rightarrow> bool" where
  "runningUnit (ToolCallUnit t rest) = (Option.bind (tcProcess t) tpRunning = Some True)"
| "runningUnit (OtherUnit rest) = False"

text \<open>Units that are about to be published show the exits that are known.\<close>

definition observationsOfTurn :: "string \<Rightarrow> journal \<Rightarrow> (string \<times> string \<times> process_observation) list" where
  "observationsOfTurn turn j =
     concat (map (\<lambda>v. map (\<lambda>r. (oiKey (opIdentity r), oiToolCall (opIdentity r), ovObservation v))
       (filter (\<lambda>r. operationKey r = ovKey v \<and> oiTurn (opIdentity r) = turn) (jnOperations j))) (jnObservations j))"

definition overlayProcessObservations :: "journal \<Rightarrow> string \<Rightarrow> shown_unit list \<Rightarrow> shown_unit list" where
  "overlayProcessObservations j turn units =
     (if \<not> list_ex runningUnit units then units
      else foldl (\<lambda>us (key, toolCall, v). map (applyObservation key toolCall v) us) units (observationsOfTurn turn j))"

record observation_input =
  xiKey :: operation_key
  xiFence :: completion_fence
  xiObservation :: process_observation

fun capReady :: "workspace_capability \<Rightarrow> bool" where
  "capReady (CapReady _) = True"
| "capReady (CapUnavailable _) = False"

definition hasCurrentAuthority :: "clock \<Rightarrow> completion_fence \<Rightarrow> operation_row \<Rightarrow> assignment_row \<Rightarrow> bool" where
  "hasCurrentAuthority c f r a \<longleftrightarrow>
     opGeneration r = Some (cfGeneration f) \<and> opExecutor r = Some (cfExecutor f) \<and> opIncarnation r = Some (cfIncarnation f) \<and>
     lifecycle a = LcActive \<and> generation a = cfGeneration f \<and> leaseEpoch a = Some (cfEpoch f) \<and>
     executorInstanceId a = Some (cfExecutor f) \<and> processIncarnation a = Some (cfIncarnation f) \<and> leaseLive c a \<and>
     capabilityGeneration a = Some (cfGeneration f) \<and>
     (case capabilitySnapshot a of None \<Rightarrow> False
      | Some s \<Rightarrow> snapshotOk s \<and> capReady (capProcess s) \<and> capReady (capNativeTools s))"

fun responseProcess :: "tool_response option \<Rightarrow> string option" where
  "responseProcess (Some (ToolSuccess (JObject entries))) =
     (case map_of entries ''processId'' of Some (JString p) \<Rightarrow> Some p | _ \<Rightarrow> None)"
| "responseProcess _ = None"

datatype observation_result = ObservationRecorded | ObservationDuplicate | ObservationMissing | ObservationFenced

text \<open>The exit is written into the units of the turn; a unit that shows it makes a new checkpoint generation.\<close>

definition showObservation :: "clock \<Rightarrow> operation_row \<Rightarrow> process_observation \<Rightarrow> journal \<Rightarrow> journal" where
  "showObservation c r v j =
     (let i = opIdentity r;
          hit = (\<lambda>u. urTurn u = oiTurn i \<and> observedUnit (oiKey i) (oiToolCall i) v (urUnit u)) in
      if \<not> exists_row hit (jnUnits j) then j
      else j\<lparr>jnUnits := update_where hit (\<lambda>u. u\<lparr>urUnit := applyObservation (oiKey i) (oiToolCall i) v (urUnit u), urUpdatedAt := wallNow c\<rparr>)
               (jnUnits j),
             jnTranscripts := update_where (\<lambda>t. thTurn t = oiTurn i) (\<lambda>t. t\<lparr>thGeneration := thGeneration t + 1, txUpdatedAt := wallNow c\<rparr>)
               (jnTranscripts j)\<rparr>)"

definition insertObservation :: "observation_row \<Rightarrow> journal \<Rightarrow> journal_error + bool \<times> journal" where
  "insertObservation v j =
     (if \<not> (0 \<le> snd (snd (ovKey v)) \<and> ovProcess v \<noteq> [] \<and> obProcess (ovObservation v) = ovProcess v) then Inl JournalStatementFailed
      else if exists_row (\<lambda>x. ovKey x = ovKey v \<and> ovProcess x = ovProcess v) (jnObservations j) then Inr (False, j)
      else bindE (enforceJournal (j\<lparr>jnObservations := jnObservations j @ [v]\<rparr>)) (\<lambda>j'. Inr (True, j')))"

definition recordProcessObservation :: "clock \<Rightarrow> observation_input \<Rightarrow> journal \<Rightarrow> journal_error + observation_result \<times> journal" where
  "recordProcessObservation c i j =
     (case (operationOf (xiKey i) j, row_by asgId (fst (xiKey i)) (assignments (jnAssignments j))) of
        (Some r, Some a) \<Rightarrow>
          if \<not> hasCurrentAuthority c (xiFence i) r a then Inr (ObservationFenced, j)
          else if opState r \<noteq> OperationDispatched \<and> opState r \<noteq> OperationCompleted then Inr (ObservationFenced, j)
          else if opState r = OperationCompleted \<and> responseProcess (opResponse r) \<noteq> Some (obProcess (xiObservation i))
          then Inr (ObservationFenced, j)
          else
            bindE (insertObservation \<lparr>ovKey = xiKey i, ovProcess = obProcess (xiObservation i), ovObservation = xiObservation i\<rparr> j)
              (\<lambda>(inserted, j1).
                if inserted then Inr (ObservationRecorded, showObservation c r (xiObservation i) j1)
                else
                  (case find (\<lambda>x. ovKey x = xiKey i \<and> ovProcess x = obProcess (xiObservation i)) (jnObservations j1) of
                     None \<Rightarrow> Inl JournalStatementFailed
                   | Some x \<Rightarrow> Inr (if ovObservation x = xiObservation i then ObservationDuplicate else ObservationFenced, j1)))
      | _ \<Rightarrow> Inr (ObservationMissing, j))"

end
