(* ===== verification/Operation_Moves.thy ===== *)
theory Operation_Moves
  imports Operation_Observations
begin

text \<open>
  The operations of the journal as one store, beside the operations of the assignments they are
  fenced by, and the few kinds of moves each of them is made of.
\<close>

section \<open>Runs\<close>

datatype journal_op =
    JoAssignments asg_op
  | JoUpsert clock operation_identity
  | JoClaim clock dispatch_input dispatch_fence "string option"
  | JoAppend clock string lifecycle_frame
  | JoComplete clock operation_key completion_fence tool_response terminal_outcome
  | JoFinalize clock finalize_input "(finalize_result \<Rightarrow> journal_error + unit) option"
  | JoTerminalize clock operation_key tool_response early_outcome "(terminalized \<Rightarrow> journal_error + unit) option"
  | JoPin clock capability_admission
  | JoCreateAdmission clock admission_input
  | JoConsume clock string string
  | JoObserve clock observation_input

definition resultingJournal :: "journal_error + 'a \<times> journal \<Rightarrow> journal_error + journal" where
  "resultingJournal m = bindE m (\<lambda>(_, j). Inr j)"

lemma resultingJournal_Inr: "resultingJournal m = Inr j \<longleftrightarrow> (\<exists>x. m = Inr (x, j))"
  by (auto simp: resultingJournal_def bindE_Inr_iff)

fun journalStep :: "journal_op \<Rightarrow> journal \<Rightarrow> journal_error + journal" where
  "journalStep (JoAssignments opn) j =
     (case stepAssignments opn (jnAssignments j) of
        Inl _ \<Rightarrow> Inl JournalStatementFailed
      | Inr a \<Rightarrow> Inr (j\<lparr>jnAssignments := a\<rparr>))"
| "journalStep (JoUpsert c i) j = resultingJournal (upsertOperation c i j)"
| "journalStep (JoClaim c i f digest) j = resultingJournal (claimDispatch c i f digest j)"
| "journalStep (JoAppend c i f) j = resultingJournal (appendFrame c i f j)"
| "journalStep (JoComplete c k f response outcome) j = resultingJournal (complete c k f response outcome j)"
| "journalStep (JoFinalize c i callback) j = Inr (snd (finalizeOperation c i callback j))"
| "journalStep (JoTerminalize c k response outcome callback) j = resultingJournal (terminalizeAccepted c k response outcome callback j)"
| "journalStep (JoPin c w) j = resultingJournal (admitWorkspaceCapabilities c w j)"
| "journalStep (JoCreateAdmission c i) j = resultingJournal (createRunnerAdmission c i j)"
| "journalStep (JoConsume c i incarnation) j = resultingJournal (consumeRunnerAdmission c i incarnation j)"
| "journalStep (JoObserve c i) j = resultingJournal (recordProcessObservation c i j)"

section \<open>Moves\<close>

definition terminalState :: "operation_state \<Rightarrow> bool" where
  "terminalState s \<longleftrightarrow> s = OperationCompleted \<or> s = OperationUnknown"

definition sameDispatch :: "operation_row \<Rightarrow> operation_row \<Rightarrow> bool" where
  "sameDispatch r r' \<longleftrightarrow> opGeneration r' = opGeneration r \<and> opExecutor r' = opExecutor r \<and> opIncarnation r' = opIncarnation r"

text \<open>What a single write may do to an operation, apart from starting it.\<close>

definition operationChange :: "operation_row \<Rightarrow> operation_row \<Rightarrow> bool" where
  "operationChange r r' \<longleftrightarrow> opIdentity r' = opIdentity r \<and> opOwner r' = opOwner r \<and> opStartedAt r' = opStartedAt r \<and>
     (opState r = OperationAccepted \<and> (opState r' = OperationDispatched \<or> opState r' = OperationCompleted) \<or>
      opState r = OperationDispatched \<and> opState r' \<noteq> OperationAccepted \<and> sameDispatch r r')"

definition startedRow :: "instant \<Rightarrow> operation_row \<Rightarrow> operation_row" where
  "startedRow t r = r\<lparr>opStartedAt := Some (case opStartedAt r of None \<Rightarrow> t | Some t0 \<Rightarrow> t0), opUpdatedAt := t\<rparr>"

definition frameRow :: "operation_key \<Rightarrow> lifecycle_frame \<Rightarrow> frame_row" where
  "frameRow k f = \<lparr>frKey = k, frCursor = frameCursor f, frKind = kindOfFrame f, frFrame = f\<rparr>"

definition sameTicket :: "runner_admission \<Rightarrow> runner_admission \<Rightarrow> bool" where
  "sameTicket a a' \<longleftrightarrow> raId a' = raId a \<and> (raConsumedAt a \<noteq> None \<longrightarrow> a' = a)"

definition admissionsFollow :: "runner_admission list \<Rightarrow> runner_admission list \<Rightarrow> bool" where
  "admissionsFollow xs ys \<longleftrightarrow> (\<forall>a \<in> set xs. \<exists>a' \<in> set ys. sameTicket a a')"

inductive journalMove :: "journal \<Rightarrow> journal \<Rightarrow> bool" where
  accepted: "operationOf (identityKey1 i) j = None \<Longrightarrow>
    journalConsistent (j\<lparr>jnOperations := jnOperations j @ [acceptedRow c i owner]\<rparr>) \<Longrightarrow>
    journalMove j (j\<lparr>jnOperations := jnOperations j @ [acceptedRow c i owner]\<rparr>)"
| changed: "(\<And>r. r \<in> set (jnOperations j) \<Longrightarrow> g r = r \<or> operationChange r (g r)) \<Longrightarrow>
    journalConsistent (j\<lparr>jnOperations := map g (jnOperations j)\<rparr>) \<Longrightarrow> journalMove j (j\<lparr>jnOperations := map g (jnOperations j)\<rparr>)"
| framed: "operationOf k j = Some r \<Longrightarrow> opState r = OperationDispatched \<Longrightarrow> attributionMatches (opIdentity r) (frameAttribution f) \<Longrightarrow>
    k = frameKey (fst k) f \<Longrightarrow> frameFollows (readFrames k j) f \<Longrightarrow>
    j' = j\<lparr>jnFrames := jnFrames j @ [frameRow k f],
      jnOperations := update_where (\<lambda>r. operationKey r = k \<and> kindOfFrame f = KindStarted) (startedRow t) (jnOperations j)\<rparr> \<Longrightarrow>
    journalConsistent j' \<Longrightarrow> journalMove j j'"
| elsewhere: "admissionsFollow (jnAdmissions j) as \<Longrightarrow>
    journalConsistent (j\<lparr>jnObservations := jnObservations j @ vs, jnCapabilities := jnCapabilities j @ ws, jnAdmissions := as,
      jnUnits := us, jnTranscripts := ts\<rparr>) \<Longrightarrow>
    journalMove j (j\<lparr>jnObservations := jnObservations j @ vs, jnCapabilities := jnCapabilities j @ ws, jnAdmissions := as,
      jnUnits := us, jnTranscripts := ts\<rparr>)"
| assigned: "stepAssignments opn (jnAssignments j) = Inr a \<Longrightarrow> journalMove j (j\<lparr>jnAssignments := a\<rparr>)"

inductive_cases journalMoveE: "journalMove j j'"

definition journalMoves :: "journal \<Rightarrow> journal \<Rightarrow> bool" where
  "journalMoves j j' \<longleftrightarrow> j' = j \<or> journalMove j j'"

section \<open>Each operation makes at most one move\<close>

lemma operationOf_SomeD: "operationOf k j = Some r \<Longrightarrow> r \<in> set (jnOperations j) \<and> operationKey r = k"
  unfolding operationOf_def using row_by_SomeD by metis

lemma operationOf_None: "operationOf k j = None \<longleftrightarrow> (\<forall>r \<in> set (jnOperations j). operationKey r \<noteq> k)"
  unfolding operationOf_def by (auto simp: row_by_None)

lemma operationOf_eq: "journalConsistent j \<Longrightarrow> r \<in> set (jnOperations j) \<Longrightarrow> operationOf (operationKey r) j = Some r"
  by (simp add: operationOf_def journalConsistent_def operationsConsistent_def row_by_eq)

lemma acceptedRow_key [simp]: "operationKey (acceptedRow c i owner) = identityKey1 i"
  by (simp add: operationKey_def acceptedRow_def)

lemma upsert_moves:
  assumes "upsertOperation c i j = Inr (x, j')"
  shows "journalMoves j j'"
  using assms
  by (auto simp: upsertOperation_def insertOperation_def journalMoves_def bindE_Inr_iff enforceJournal_Inr operationOf_None exists_row_iff
      intro!: journalMove.accepted split: option.splits if_splits)

lemma row_change_moves:
  assumes "updateOperations hit f j = Inr (b, j')" "\<And>r. r \<in> set (jnOperations j) \<Longrightarrow> hit r \<Longrightarrow> f r = r \<or> operationChange r (f r)"
  shows "journalMoves j j'"
proof -
  let ?g = "\<lambda>r. if hit r then f r else r"
  have "j' = j\<lparr>jnOperations := map ?g (jnOperations j)\<rparr>" "journalConsistent (j\<lparr>jnOperations := map ?g (jnOperations j)\<rparr>)"
    using assms(1) by (auto simp: updateOperations_def bindE_Inr_iff enforceJournal_Inr update_where_def)
  moreover have "?g r = r \<or> operationChange r (?g r)" if "r \<in> set (jnOperations j)" for r using assms(2) that by simp
  ultimately show ?thesis unfolding journalMoves_def using journalMove.changed [of j ?g] by simp
qed

lemmas operation_rows = dispatchedRow_def endedRow_def startedRow_def

lemma ended_change:
  assumes "opState r = OperationDispatched" "st \<noteq> OperationAccepted"
  shows "operationChange r (endedRow c st response outcome r)"
  using assms by (simp add: operationChange_def endedRow_def sameDispatch_def)

lemma claim_moves:
  assumes "claimDispatch c i f digest j = Inr (x, j')"
  shows "journalMoves j j'"
proof (cases "j' = j")
  case False
  obtain r where r: "operationOf (diKey i) j = Some r"
    "opState r = OperationDispatched \<and> (\<exists>b. updateOperations (\<lambda>r. operationKey r = diKey i \<and> opState r = OperationDispatched \<and> dispatchedBy f r)
        (\<lambda>r. r\<lparr>opEpoch := Some (dfEpoch f), opUpdatedAt := wallNow c\<rparr>) j = Inr (b, j')) \<or>
     opState r = OperationAccepted \<and> (\<exists>b. updateOperations (\<lambda>r. operationKey r = diKey i \<and> opState r = OperationAccepted)
        (dispatchedRow c f) j = Inr (b, j'))"
    using assms False by (auto simp: claimDispatch_def bindE_Inr_iff split: option.splits if_splits operation_state.splits)
  from r(2) show ?thesis
    by (auto elim!: row_change_moves simp: operationChange_def sameDispatch_def dispatchedRow_def)
qed (simp add: journalMoves_def)

lemma completion_moves: "complete c k f response outcome j = Inr (b, j') \<Longrightarrow> journalMoves j j'"
  unfolding complete_def by (erule row_change_moves) (auto intro!: ended_change)

lemma storedState_not_accepted [simp]: "storedState st \<noteq> OperationAccepted"
  by (cases st) simp_all

lemma recordEnd_moves:
  assumes "recordEnd c i r fence resolved j = Inr (x, j')"
  shows "journalMoves j j'"
proof -
  obtain response outcome st expected where resolved: "resolved = (response, outcome, st, expected)" by (cases resolved)
  obtain b where "updateOperations (\<lambda>r. operationKey r = fiKey i \<and> opState r = OperationDispatched \<and> fenceOfRow expected r)
      (endedRow c (storedState st) response outcome) j = Inr (b, j')"
    using assms by (auto simp: recordEnd_def resolved bindE_Inr_iff split: if_splits option.splits)
  then show ?thesis by (rule row_change_moves) (simp add: ended_change)
qed

text \<open>A finalization writes nothing, or the end its receipt and input resolve to.\<close>

definition isFinalized :: "finalize_result \<Rightarrow> bool" where
  "isFinalized x = (case x of Finalized _ _ _ _ \<Rightarrow> True | _ \<Rightarrow> False)"

lemma finalizeTransaction_cases:
  assumes "finalizeTransaction c i j = Inr (x, j')"
  obtains "j' = j" "\<not> isFinalized x" | r fence receipt resolved where "operationOf (fiKey i) j = Some r" "opState r = OperationDispatched"
    "dispatchedFence r = Some fence" "terminalFrame (fiKey i) j = Inr receipt"
    "resolveFinalization (Option.bind receipt receiptContent) i fence = Inr resolved" "recordEnd c i r fence resolved j = Inr (x, j')"
proof (cases "\<exists>r fence. operationOf (fiKey i) j = Some r \<and> opState r = OperationDispatched \<and> dispatchedFence r = Some fence")
  case False
  then have "j' = j \<and> \<not> isFinalized x" using assms
    by (auto simp: finalizeTransaction_def existingResult_def isFinalized_def bindE_Inr_iff split: option.split_asm if_split_asm)
  then show thesis using that(1) by blast
next
  case True
  then obtain r fence where r: "operationOf (fiKey i) j = Some r" "opState r = OperationDispatched" "dispatchedFence r = Some fence" by blast
  with assms obtain receipt where receipt: "terminalFrame (fiKey i) j = Inr receipt"
    and end1: "(case resolveFinalization (Option.bind receipt receiptContent) i fence of Inl e \<Rightarrow> Inr (FinalizeFailed e, j)
      | Inr resolved \<Rightarrow> recordEnd c i r fence resolved j) = Inr (x, j')"
    by (auto simp: finalizeTransaction_def bindE_Inr_iff)
  show thesis
  proof (cases "resolveFinalization (Option.bind receipt receiptContent) i fence")
    case (Inl e)
    then show thesis using end1 that(1) by (auto simp: isFinalized_def)
  next
    case (Inr resolved)
    then show thesis using end1 that(2) [OF r receipt Inr] by simp
  qed
qed

lemma finalize_moves:
  assumes "finalizeTransaction c i j = Inr (x, j')"
  shows "journalMoves j j'"
  using assms by (cases rule: finalizeTransaction_cases) (auto simp: journalMoves_def dest: recordEnd_moves [unfolded journalMoves_def])

lemma finalizeOperation_journal: "snd (finalizeOperation c i callback j) = (case finalizeTransaction c i j of Inl _ \<Rightarrow> j | Inr (x, j') \<Rightarrow> j')"
  by (simp add: finalizeOperation_def split: sum.split prod.split finalize_result.split option.split)

lemma terminalize_moves:
  assumes "terminalizeAccepted c k response outcome callback j = Inr (x, j')"
  shows "journalMoves j j'"
proof (cases "j' = j")
  case False
  obtain b where "updateOperations (\<lambda>r. operationKey r = k \<and> opState r = OperationAccepted)
      (endedRow c OperationCompleted response (earlyOutcome outcome)) j = Inr (b, j')"
    using assms False
    by (auto simp: terminalizeAccepted_def bindE_Inr_iff Let_def split: option.splits if_splits)
  then show ?thesis by (rule row_change_moves) (simp add: operationChange_def endedRow_def)
qed (simp add: journalMoves_def)

lemma append_moves:
  assumes ok: "journalConsistent j" and run: "appendFrame c i f j = Inr (x, j')"
  shows "journalMoves j j'"
proof (cases "j' = j")
  case False
  let ?k = "frameKey i f"
  obtain r where r: "operationOf ?k j = Some r" "opState r = OperationDispatched" "attributionMatches (opIdentity r) (frameAttribution f)"
    "frameFollows (readFrames ?k j) f"
    and j1: "\<exists>j1. insertFrame ?k f j = Inr j1 \<and>
      (if kindOfFrame f \<noteq> KindStarted then j' = j1
       else \<exists>b. updateOperations (\<lambda>r. operationKey r = ?k \<and> opState r = OperationDispatched) (startedRow (wallNow c)) j1 = Inr (b, j'))"
    using run False by (auto simp: appendFrame_def Let_def bindE_Inr_iff startedRow_def [abs_def] split: option.splits if_splits)
  have only: "opState q = OperationDispatched" if "q \<in> set (jnOperations j)" "operationKey q = ?k" for q
    using operationOf_eq [OF ok that(1)] that(2) r(1,2) by simp
  have hit: "update_where (\<lambda>r. operationKey r = ?k \<and> opState r = OperationDispatched) (startedRow (wallNow c)) (jnOperations j) =
      update_where (\<lambda>r. operationKey r = ?k) (startedRow (wallNow c)) (jnOperations j)"
    using only by (auto simp: update_where_def)
  let ?j' = "j\<lparr>jnFrames := jnFrames j @ [frameRow ?k f],
      jnOperations := update_where (\<lambda>r. operationKey r = ?k \<and> kindOfFrame f = KindStarted) (startedRow (wallNow c)) (jnOperations j)\<rparr>"
  have "j' = ?j' \<and> journalConsistent j'"
  proof (cases "kindOfFrame f = KindStarted")
    case True
    then show ?thesis using j1 hit
      by (auto simp: insertFrame_def updateOperations_def bindE_Inr_iff enforceJournal_Inr frameRow_def)
  next
    case False
    then show ?thesis using j1
      by (auto simp: insertFrame_def enforceJournal_Inr frameRow_def update_where_def)
  qed
  moreover have "?k = frameKey (fst ?k) f" by (simp add: frameKey_def)
  ultimately show ?thesis unfolding journalMoves_def
    using journalMove.framed [OF r(1-3) _ r(4), where t = "wallNow c" and j' = j'] by blast
qed (simp add: journalMoves_def)

lemma admissionsFollow_refl: "admissionsFollow xs xs" "admissionsFollow xs (xs @ ys)"
  by (auto simp: admissionsFollow_def sameTicket_def)

lemma pinned_moves:
  assumes "admitWorkspaceCapabilities c w j = Inr (x, j')"
  shows "journalMoves j j'"
proof (cases "j' = j")
  case False
  then have "j' = j\<lparr>jnCapabilities := jnCapabilities j @ [w]\<rparr>" "journalConsistent j'"
    using assms by (auto simp: admitWorkspaceCapabilities_def insertCapability_def bindE_Inr_iff enforceJournal_Inr split: if_splits)
  then show ?thesis unfolding journalMoves_def
    using journalMove.elsewhere [OF admissionsFollow_refl(1), where j = j and vs = "[]" and ws = "[w]" and us = "jnUnits j" and ts = "jnTranscripts j"] by simp
qed (simp add: journalMoves_def)

lemma admissions_moves:
  assumes "admissionsFollow (jnAdmissions j) xs" "enforceJournal (j\<lparr>jnAdmissions := xs\<rparr>) = Inr j'"
  shows "journalMoves j j'"
  using assms(2) journalMove.elsewhere [OF assms(1), where vs = "[]" and ws = "[]" and us = "jnUnits j" and ts = "jnTranscripts j"]
  by (simp add: journalMoves_def enforceJournal_Inr)

lemma create_moves: "createRunnerAdmission c i j = Inr (x, j') \<Longrightarrow> journalMoves j j'"
  by (auto simp: createRunnerAdmission_def bindE_Inr_iff intro: admissions_moves [OF admissionsFollow_refl(2)])

lemma consume_moves:
  assumes "consumeRunnerAdmission c i incarnation j = Inr (x, j')"
  shows "journalMoves j j'"
proof (rule admissions_moves)
  let ?hit = "\<lambda>x. raId x = i \<and> raConsumedAt x = None \<and> wallNow c < raExpiresAt x"
  let ?f = "\<lambda>x. x\<lparr>raConsumedAt := Some (txNow c), raIncarnation := Some incarnation\<rparr>"
  show "enforceJournal (j\<lparr>jnAdmissions := update_where ?hit ?f (jnAdmissions j)\<rparr>) = Inr j'"
    using assms by (auto simp: consumeRunnerAdmission_def Let_def bindE_Inr_iff)
  have "sameTicket a (if ?hit a then ?f a else a)" for a by (simp add: sameTicket_def)
  then have "\<forall>a \<in> set (jnAdmissions j). \<exists>a' \<in> (\<lambda>x. if ?hit x then ?f x else x) ` set (jnAdmissions j). sameTicket a a'"
    by blast
  then show "admissionsFollow (jnAdmissions j) (update_where ?hit ?f (jnAdmissions j))"
    by (simp only: admissionsFollow_def update_where_def set_map)
qed

lemma showObservation_tables:
  "\<exists>us ts. showObservation c r v j = j\<lparr>jnUnits := us, jnTranscripts := ts\<rparr>"
proof (cases "exists_row (\<lambda>u. urTurn u = oiTurn (opIdentity r) \<and>
    observedUnit (oiKey (opIdentity r)) (oiToolCall (opIdentity r)) v (urUnit u)) (jnUnits j)")
  case False
  then have "showObservation c r v j = j\<lparr>jnUnits := jnUnits j, jnTranscripts := jnTranscripts j\<rparr>"
    by (simp add: showObservation_def Let_def)
  then show ?thesis by blast
qed (auto simp: showObservation_def Let_def)

lemma consistent_units [simp]: "journalConsistent (j\<lparr>jnUnits := us, jnTranscripts := ts\<rparr>) = journalConsistent j"
  by (simp add: journalConsistent_def operationsConsistent_def framesConsistent_def observationsConsistent_def capabilitiesConsistent_def
      runnersConsistent_def operationReferences_def [abs_def])

lemma observe_moves:
  assumes ok: "journalConsistent j" and run: "recordProcessObservation c i j = Inr (x, j')"
  shows "journalMoves j j'"
proof (cases "j' = j")
  case False
  obtain r v where v: "j' = showObservation c r (xiObservation i) (j\<lparr>jnObservations := jnObservations j @ [v]\<rparr>)"
    "journalConsistent (j\<lparr>jnObservations := jnObservations j @ [v]\<rparr>)"
    using run False
    by (auto simp: recordProcessObservation_def insertObservation_def bindE_Inr_iff enforceJournal_Inr split: option.splits if_splits)
  obtain us ts where j': "j' = j\<lparr>jnObservations := jnObservations j @ [v], jnUnits := us, jnTranscripts := ts\<rparr>"
    unfolding v(1) using showObservation_tables [of c r "xiObservation i" "j\<lparr>jnObservations := jnObservations j @ [v]\<rparr>"] by auto
  then show ?thesis unfolding journalMoves_def
    using journalMove.elsewhere [OF admissionsFollow_refl(1), where j = j and vs = "[v]" and ws = "[]" and us = us and ts = ts] v(2) by simp
qed (simp add: journalMoves_def)

text \<open>Every operation of the journal is at most one move.\<close>

lemma journalStep_moves:
  assumes "journalConsistent j" "journalStep opn j = Inr j'"
  shows "journalMoves j j'"
proof (cases opn)
  case (JoAssignments aop)
  then show ?thesis using assms(2) by (auto simp: journalMoves_def intro: journalMove.assigned split: sum.splits)
next
  case (JoFinalize c i callback)
  then show ?thesis using assms(2)
    by (cases "finalizeTransaction c i j") (auto simp: finalizeOperation_journal journalMoves_def dest!: finalize_moves [unfolded journalMoves_def])
qed (use assms in \<open>auto simp: resultingJournal_Inr intro: upsert_moves claim_moves append_moves completion_moves terminalize_moves pinned_moves
  create_moves consume_moves observe_moves\<close>)

end
