(* ===== verification/Operation_Invariant.thy ===== *)
theory Operation_Invariant
  imports Operation_Moves
begin

text \<open>
  The invariant of the journal: the constraints of its tables, and for every operation a log of
  frames in which each follows those before it.  Then how a journal evolves over a run.
\<close>

section \<open>The log of an operation\<close>

definition frameLog :: "lifecycle_frame list \<Rightarrow> bool" where
  "frameLog fs \<longleftrightarrow> (\<forall>i < length fs. frameFollows (take i fs) (fs ! i))"

lemma frameLog_Nil [simp]: "frameLog []"
  by (simp add: frameLog_def)

lemma frameLog_snoc: "frameLog (fs @ [f]) \<longleftrightarrow> frameLog fs \<and> frameFollows fs f"
  by (auto simp: frameLog_def less_Suc_eq nth_append)

lemma frameFollows_cursor: "frameFollows fs f \<Longrightarrow> frameCursor f = int (length fs) + 1"
  by (simp add: frameFollows_def split: if_splits)

lemma frameFollows_kind:
  assumes "frameFollows fs f"
  shows "kindOfFrame f = KindAccepted \<longleftrightarrow> length fs = 0" "kindOfFrame f = KindStarted \<longleftrightarrow> length fs = 1"
    "\<forall>v \<in> set fs. kindOfFrame v \<noteq> KindTerminal"
    "kindOfFrame f = KindOutput \<Longrightarrow> length (filter (\<lambda>v. kindOfFrame v = KindOutput) fs) < 16"
  using assms by (auto simp: frameFollows_def list_ex_iff maximumOutputFrames_def split: if_splits)

lemma frameLog_nth:
  assumes "frameLog fs" "i < length fs"
  shows "frameFollows (take i fs) (fs ! i)"
  using assms by (simp add: frameLog_def)

lemma frameLog_cursors:
  assumes "frameLog fs"
  shows "map frameCursor fs = map (\<lambda>i. int i + 1) [0..<length fs]"
  using frameFollows_cursor [OF frameLog_nth [OF assms]] by (intro nth_equalityI) simp_all

text \<open>What a log comes to.\<close>

lemma frameLog_shape:
  assumes "frameLog fs" "i < length fs"
  shows "kindOfFrame (fs ! i) = KindAccepted \<longleftrightarrow> i = 0" "kindOfFrame (fs ! i) = KindStarted \<longleftrightarrow> i = 1"
    "kindOfFrame (fs ! i) = KindTerminal \<Longrightarrow> i = length fs - 1"
proof -
  note f = frameLog_nth [OF assms]
  show "kindOfFrame (fs ! i) = KindAccepted \<longleftrightarrow> i = 0" "kindOfFrame (fs ! i) = KindStarted \<longleftrightarrow> i = 1"
    using frameFollows_kind(1,2) [OF f] assms(2) by simp_all
  show "i = length fs - 1" if t: "kindOfFrame (fs ! i) = KindTerminal"
  proof (rule ccontr)
    assume "i \<noteq> length fs - 1"
    then have n: "Suc i < length fs" using assms(2) by simp
    have "fs ! i \<in> set (take (Suc i) fs)" using assms(2) by (simp add: take_Suc_conv_app_nth)
    then show False using frameFollows_kind(3) [OF frameLog_nth [OF assms(1) n]] t by blast
  qed
qed

lemma frameLog_outputs: "frameLog fs \<Longrightarrow> length (filter (\<lambda>v. kindOfFrame v = KindOutput) fs) \<le> 16"
  by (induction fs rule: rev_induct) (auto simp: frameLog_snoc dest: frameFollows_kind(4))

lemma frameLog_terminals: "frameLog fs \<Longrightarrow> length (filter (\<lambda>v. kindOfFrame v = KindTerminal) fs) \<le> 1"
proof (induction fs rule: rev_induct)
  case (snoc f fs)
  then have "filter (\<lambda>v. kindOfFrame v = KindTerminal) fs = []"
    using frameFollows_kind(3) by (auto simp: frameLog_snoc filter_empty_conv)
  then show ?case by simp
qed simp

section \<open>Invariant\<close>

definition framesAt :: "operation_key \<Rightarrow> journal \<Rightarrow> frame_row list" where
  "framesAt k j = filter (\<lambda>f. frKey f = k) (jnFrames j)"

definition logOk :: "frame_row list \<Rightarrow> operation_row \<Rightarrow> bool" where
  "logOk fs r \<longleftrightarrow> frameLog (map frFrame fs) \<and>
     (\<forall>f \<in> set fs. f = frameRow (operationKey r) (frFrame f) \<and> attributionMatches (opIdentity r) (frameAttribution (frFrame f)) \<and>
        operationKey r = frameKey (fst (operationKey r)) (frFrame f)) \<and>
     (opState r = OperationAccepted \<longrightarrow> fs = []) \<and> (opStartedAt r \<noteq> None \<longleftrightarrow> 2 \<le> length fs)"

definition journalOk :: "journal \<Rightarrow> bool" where
  "journalOk j \<longleftrightarrow> asgOk (jnAssignments j) \<and> journalConsistent j \<and>
     (\<forall>r \<in> set (jnOperations j). logOk (framesAt (operationKey r) j) r)"

lemma journalOkD:
  assumes "journalOk j"
  shows "asgOk (jnAssignments j)" "journalConsistent j"
    "r \<in> set (jnOperations j) \<Longrightarrow> logOk (framesAt (operationKey r) j) r"
  using assms by (simp_all add: journalOk_def)

lemma frames_have_operation:
  assumes "journalConsistent j" "f \<in> set (jnFrames j)"
  shows "\<exists>r \<in> set (jnOperations j). operationKey r = frKey f"
  using assms by (simp add: journalConsistent_def framesConsistent_def list_all_iff exists_row_iff)

lemma readFrames_framesAt:
  assumes "journalOk j" "r \<in> set (jnOperations j)"
  shows "readFrames (operationKey r) j = map frFrame (framesAt (operationKey r) j)"
proof -
  let ?fs = "framesAt (operationKey r) j"
  have ok: "logOk ?fs r" using journalOkD(3) [OF assms] .
  have "frCursor f = frameCursor (frFrame f)" if "f \<in> set ?fs" for f
    using ok that unfolding logOk_def by (metis frame_row.select_convs(2) frameRow_def)
  then have "map frCursor ?fs = map frameCursor (map frFrame ?fs)" by simp
  also have "\<dots> = map (\<lambda>i. int i + 1) [0..<length ?fs]" using ok frameLog_cursors [of "map frFrame ?fs"] by (simp add: logOk_def)
  finally have "sorted (map frCursor ?fs)" by (simp add: sorted_iff_nth_mono)
  then show ?thesis by (simp add: readFrames_def frameRowsOf_def framesAt_def [symmetric] sort_key_id_if_sorted)
qed

section \<open>Moves keep the invariant\<close>

lemma operationKey_change: "operationChange r r' \<Longrightarrow> operationKey r' = operationKey r"
  by (simp add: operationChange_def operationKey_def)

lemma logOk_change: "operationChange r r' \<Longrightarrow> logOk fs r \<Longrightarrow> logOk fs r'"
  by (auto simp: operationChange_def logOk_def operationKey_def)

lemma logOk_accepted: "logOk [] (acceptedRow c i owner)"
  by (simp add: logOk_def acceptedRow_def)

lemma framed_ok:
  assumes ok: "journalOk j" and r: "operationOf k j = Some r" "opState r = OperationDispatched"
    and f: "attributionMatches (opIdentity r) (frameAttribution f)" "k = frameKey (fst k) f" "frameFollows (readFrames k j) f"
    and j': "j' = j\<lparr>jnFrames := jnFrames j @ [frameRow k f],
      jnOperations := update_where (\<lambda>r. operationKey r = k \<and> kindOfFrame f = KindStarted) (startedRow t) (jnOperations j)\<rparr>"
    and ok': "journalConsistent j'"
  shows "journalOk j'"
proof -
  have mem: "r \<in> set (jnOperations j)" "operationKey r = k" using operationOf_SomeD [OF r(1)] by simp_all
  let ?g = "\<lambda>q. if operationKey q = k \<and> kindOfFrame f = KindStarted then startedRow t q else q"
  have key: "operationKey (?g q) = operationKey q" for q by (simp add: startedRow_def operationKey_def)
  have at: "framesAt q j' = framesAt q j @ (if q = k then [frameRow k f] else [])" for q
    by (simp add: framesAt_def j' frameRow_def)
  have "logOk (framesAt (operationKey (?g q)) j') (?g q)" if q: "q \<in> set (jnOperations j)" for q
  proof (cases "operationKey q = k")
    case False
    then show ?thesis using journalOkD(3) [OF ok q] by (simp add: at)
  next
    case True
    have same: "q = r" using operationOf_eq [OF journalOkD(2) [OF ok] q] True r(1) by simp
    let ?fs = "framesAt k j"
    have log: "logOk ?fs r" using journalOkD(3) [OF ok mem(1)] mem(2) by simp
    have known: "readFrames k j = map frFrame ?fs" using readFrames_framesAt [OF ok mem(1)] mem(2) by simp
    have started: "kindOfFrame f = KindStarted \<longleftrightarrow> length ?fs = 1" using frameFollows_kind(2) [OF f(3)] by (simp add: known)
    have "logOk (?fs @ [frameRow k f]) (?g r)"
      using log f r(2) mem(2) started frameLog_snoc [of "map frFrame ?fs" f]
      by (auto simp: logOk_def known frameRow_def startedRow_def operationKey_def)
    moreover have "operationKey (?g q) = k" by (rule trans [OF key True])
    then have "framesAt (operationKey (?g q)) j' = ?fs @ [frameRow k f]" by (simp only: at simp_thms if_True)
    ultimately show ?thesis by (simp only: same)
  qed
  then have "\<forall>q \<in> set (map ?g (jnOperations j)). logOk (framesAt (operationKey q) j') q"
    by (simp only: set_map ball_simps Ball_def image_iff) blast
  moreover have "jnOperations j' = map ?g (jnOperations j)" "jnAssignments j' = jnAssignments j" by (simp_all add: j' update_where_def)
  ultimately show ?thesis using ok' journalOkD(1) [OF ok] by (simp only: journalOk_def simp_thms)
qed

text \<open>An operation on assignments keeps every row that the journal refers to.\<close>

lemma assignments_persist:
  assumes "asgOk a" "stepAssignments opn a = Inr a'"
  shows "hostedThreads a' = hostedThreads a" "assignedTo a i owner \<Longrightarrow> assignedTo a' i owner"
    "exists_row (\<lambda>r. asgId r = i) (assignments a) \<Longrightarrow> exists_row (\<lambda>r. asgId r = i) (assignments a')"
proof -
  have ok': "asgOk a'" by (rule stepAssignments_ok [OF assms])
  show "hostedThreads a' = hostedThreads a"
    using asgOkD(1) [OF assms(1)] assms(2) by (cases rule: stepAssignments_cases) (auto dest: replacesD(6))
  have later: "\<exists>r' \<in> set (assignments a'). asgId r' = asgId r \<and> ownerId r' = ownerId r" if r: "r \<in> set (assignments a)" for r
  proof -
    have "assignmentById (asgId r) a = Some r" by (rule assignmentById_mem [OF asgOkD(1) [OF assms(1)] r])
    then obtain r' where "assignmentById (asgId r) a' = Some r'" "follows r r'"
      using stepAssignments_evolves [OF assms] unfolding asgEvolves_def by blast
    then show ?thesis using assignmentByIdD [of "asgId r" a' r'] followsD(1) [of r r'] by (auto simp: sameIdentity_def)
  qed
  then show "assignedTo a i owner \<Longrightarrow> assignedTo a' i owner"
    "exists_row (\<lambda>r. asgId r = i) (assignments a) \<Longrightarrow> exists_row (\<lambda>r. asgId r = i) (assignments a')"
    unfolding assignedTo_def exists_row_iff by fastforce+
qed

lemma assigned_consistent:
  assumes "asgOk (jnAssignments j)" "stepAssignments opn (jnAssignments j) = Inr a" "journalConsistent j"
  shows "journalConsistent (j\<lparr>jnAssignments := a\<rparr>)"
  using assms(3) assignments_persist [OF assms(1,2)]
  by (auto simp: journalConsistent_def operationsConsistent_def framesConsistent_def observationsConsistent_def capabilitiesConsistent_def
      runnersConsistent_def operationReferences_def list_all_iff)

lemma journalMove_ok:
  assumes "journalMove j j'" "journalOk j"
  shows "journalOk j'"
  using assms
proof (induction rule: journalMove.induct)
  case (accepted i j c owner)
  have new: "framesAt (identityKey1 i) j = []"
    using frames_have_operation [OF journalOkD(2) [OF accepted.prems]] accepted.hyps(1)
    unfolding framesAt_def filter_empty_conv operationOf_None by metis
  with accepted journalOkD [OF accepted.prems] show ?case by (auto simp: journalOk_def framesAt_def logOk_accepted)
next
  case (changed j g)
  have "logOk (framesAt (operationKey (g r)) j) (g r)" if "r \<in> set (jnOperations j)" for r
    using changed.hyps(1) [OF that] journalOkD(3) [OF changed.prems that] logOk_change operationKey_change by metis
  with changed journalOkD(1) [OF changed.prems] show ?case by (simp add: journalOk_def framesAt_def)
next
  case (framed k j r f j' t)
  show ?case by (rule framed_ok [OF framed.prems framed.hyps])
next
  case (elsewhere j as vs ws us ts)
  with journalOkD [OF elsewhere.prems] show ?case by (simp add: journalOk_def framesAt_def)
next
  case (assigned opn j a)
  with journalOkD [OF assigned.prems] show ?case
    by (simp add: journalOk_def framesAt_def assigned_consistent stepAssignments_ok)
qed

section \<open>How a journal evolves\<close>

definition operationFollows :: "operation_row \<Rightarrow> operation_row \<Rightarrow> bool" where
  "operationFollows r r' \<longleftrightarrow> opIdentity r' = opIdentity r \<and> opOwner r' = opOwner r \<and> (terminalState (opState r) \<longrightarrow> r' = r) \<and>
     (opState r = OperationDispatched \<longrightarrow> opState r' \<noteq> OperationAccepted \<and> sameDispatch r r') \<and>
     (opStartedAt r \<noteq> None \<longrightarrow> opStartedAt r' = opStartedAt r)"

definition journalFollows :: "journal \<Rightarrow> journal \<Rightarrow> bool" where
  "journalFollows j j' \<longleftrightarrow> asgEvolves (jnAssignments j) (jnAssignments j') \<and>
     (\<forall>r \<in> set (jnOperations j). \<exists>r' \<in> set (jnOperations j'). operationFollows r r' \<and>
        (\<exists>fs. framesAt (operationKey r) j' = framesAt (operationKey r) j @ fs \<and> (terminalState (opState r) \<longrightarrow> fs = []))) \<and>
     set (jnObservations j) \<subseteq> set (jnObservations j') \<and> set (jnCapabilities j) \<subseteq> set (jnCapabilities j') \<and>
     admissionsFollow (jnAdmissions j) (jnAdmissions j')"

lemma operationFollows_refl [simp]: "operationFollows r r"
  by (simp add: operationFollows_def sameDispatch_def)

lemma operationFollows_trans:
  assumes "operationFollows r s" "operationFollows s t"
  shows "operationFollows r t"
  using assms by (cases "opState s") (auto simp: operationFollows_def sameDispatch_def terminalState_def)

lemma operationFollows_key: "operationFollows r s \<Longrightarrow> operationKey s = operationKey r"
  by (simp add: operationFollows_def operationKey_def)

lemma admissionsFollow_trans: "admissionsFollow xs ys \<Longrightarrow> admissionsFollow ys zs \<Longrightarrow> admissionsFollow xs zs"
  unfolding admissionsFollow_def sameTicket_def by metis

text \<open>A journal follows another when its operations do and nothing else has changed but what may grow.\<close>

lemma journalFollowsI:
  assumes "\<And>r. r \<in> set (jnOperations j) \<Longrightarrow> \<exists>r' \<in> set (jnOperations j'). operationFollows r r'"
    and "jnAssignments j' = jnAssignments j" "jnFrames j' = jnFrames j" "set (jnObservations j) \<subseteq> set (jnObservations j')"
    and "set (jnCapabilities j) \<subseteq> set (jnCapabilities j')" "admissionsFollow (jnAdmissions j) (jnAdmissions j')"
  shows "journalFollows j j'"
  using assms by (simp add: journalFollows_def assignmentStore.rel_refl framesAt_def)

lemma journalFollows_refl: "journalFollows j j"
  by (rule journalFollowsI) (use operationFollows_refl admissionsFollow_refl(1) in blast)+

lemma journalFollows_trans:
  assumes a: "journalFollows j k" and b: "journalFollows k l"
  shows "journalFollows j l"
proof -
  have "\<exists>t \<in> set (jnOperations l). operationFollows r t \<and>
      (\<exists>fs. framesAt (operationKey r) l = framesAt (operationKey r) j @ fs \<and> (terminalState (opState r) \<longrightarrow> fs = []))"
    if r: "r \<in> set (jnOperations j)" for r
  proof -
    obtain s fs where s: "s \<in> set (jnOperations k)" "operationFollows r s" "framesAt (operationKey r) k = framesAt (operationKey r) j @ fs"
      "terminalState (opState r) \<longrightarrow> fs = []"
      using a r unfolding journalFollows_def by blast
    obtain t gs where t: "t \<in> set (jnOperations l)" "operationFollows s t" "framesAt (operationKey s) l = framesAt (operationKey s) k @ gs"
      "terminalState (opState s) \<longrightarrow> gs = []"
      using b s(1) unfolding journalFollows_def by blast
    have "terminalState (opState r) \<longrightarrow> terminalState (opState s)" using s(2) by (auto simp: operationFollows_def)
    then show ?thesis using operationFollows_trans [OF s(2) t(2)] t s(3,4) operationFollows_key [OF s(2)] by auto
  qed
  then show ?thesis
    using a b assignmentStore.rel_trans admissionsFollow_trans unfolding journalFollows_def by blast
qed

lemma change_follows: "operationChange r r' \<Longrightarrow> operationFollows r r'"
  by (auto simp: operationChange_def operationFollows_def terminalState_def)

lemma started_follows: "\<not> terminalState (opState r) \<Longrightarrow> operationFollows r (startedRow t r)"
  by (auto simp: operationFollows_def startedRow_def sameDispatch_def)

lemma journalMove_follows:
  assumes "journalMove j j'" "journalOk j"
  shows "journalFollows j j'"
  using assms
proof (induction rule: journalMove.induct)
  case (accepted i j c owner)
  show ?case by (rule journalFollowsI) (auto simp: admissionsFollow_refl(1) intro: operationFollows_refl)
next
  case (changed j g)
  have "operationFollows r (g r)" if "r \<in> set (jnOperations j)" for r
    using changed.hyps(1) [OF that] change_follows operationFollows_refl by metis
  then show ?case by (intro journalFollowsI) (auto simp: admissionsFollow_refl(1))
next
  case (framed k j r f j' t)
  let ?g = "\<lambda>q. if operationKey q = k \<and> kindOfFrame f = KindStarted then startedRow t q else q"
  have "\<exists>q' \<in> set (jnOperations j'). operationFollows q q' \<and>
      (\<exists>fs. framesAt (operationKey q) j' = framesAt (operationKey q) j @ fs \<and> (terminalState (opState q) \<longrightarrow> fs = []))"
    if q: "q \<in> set (jnOperations j)" for q
  proof -
    have at: "framesAt (operationKey q) j' = framesAt (operationKey q) j @ (if operationKey q = k then [frameRow k f] else [])"
      by (simp add: framesAt_def framed.hyps(6) frameRow_def)
    have same: "operationKey q = k \<Longrightarrow> q = r"
      using operationOf_eq [OF journalOkD(2) [OF framed.prems] q] framed.hyps(1) by simp
    have "operationFollows q (?g q)" using same framed.hyps(2) started_follows by (auto simp: terminalState_def)
    moreover have "?g q \<in> set (jnOperations j')" using q by (simp add: framed.hyps(6) update_where_def)
    moreover have "\<exists>fs. framesAt (operationKey q) j' = framesAt (operationKey q) j @ fs \<and> (terminalState (opState q) \<longrightarrow> fs = [])"
      using at same framed.hyps(2) by (cases "operationKey q = k") (auto simp: terminalState_def)
    ultimately show ?thesis by blast
  qed
  then show ?case
    by (simp add: journalFollows_def framed.hyps(6) assignmentStore.rel_refl admissionsFollow_refl(1))
next
  case (elsewhere j as vs ws us ts)
  then show ?case by (intro journalFollowsI) (auto intro: operationFollows_refl)
next
  case (assigned opn j a)
  with journalOkD(1) [OF assigned.prems] show ?case
    by (auto simp: journalFollows_def framesAt_def admissionsFollow_refl(1) stepAssignments_evolves intro!: bexI)
qed

lemma journalMoves_ok: "journalMoves j j' \<Longrightarrow> journalOk j \<Longrightarrow> journalOk j'"
  unfolding journalMoves_def using journalMove_ok by blast

lemma journalMoves_follow: "journalMoves j j' \<Longrightarrow> journalOk j \<Longrightarrow> journalFollows j j'"
  unfolding journalMoves_def using journalMove_follows journalFollows_refl by blast

interpretation journalStore: evolving_store journalStep always journalOk journalFollows
proof
  show "journalOk s'" if "journalOk s" "always opn s" "journalStep opn s = Inr s'" for s opn s'
    using journalMoves_ok [OF journalStep_moves [OF journalOkD(2) [OF that(1)] that(3)] that(1)] .
  show "journalFollows s s" for s by (rule journalFollows_refl)
  show "journalFollows s u" if "journalFollows s t" "journalFollows t u" for s t u by (rule journalFollows_trans [OF that])
  show "journalFollows s s'" if "journalOk s" "always opn s" "journalStep opn s = Inr s'" for s opn s'
    using journalMoves_follow [OF journalStep_moves [OF journalOkD(2) [OF that(1)] that(3)] that(1)] .
qed

section \<open>Reachable journals\<close>

text \<open>
  A journal starts without operations, beside some threads, owners, members, registrations,
  commands and transcripts.
\<close>

definition emptyJournal :: "thread_authority list \<Rightarrow> authority_db \<Rightarrow> cli_registration list \<Rightarrow> runner_registration list \<Rightarrow>
    command_ref list \<Rightarrow> unit_row list \<Rightarrow> transcript_checkpoint list \<Rightarrow> journal" where
  "emptyJournal threads au rs cs ms us ts =
     \<lparr>jnAssignments = \<lparr>hostedThreads = threads, assignments = [], checkpoints = []\<rparr>, jnAuthority = au, jnOperations = [],
      jnFrames = [], jnObservations = [], jnCapabilities = [], jnAdmissions = [], jnRegistrations = rs, jnCheckouts = cs,
      jnCommands = ms, jnUnits = us, jnTranscripts = ts\<rparr>"

definition journalReachable :: "journal \<Rightarrow> bool" where
  "journalReachable j \<longleftrightarrow> (\<exists>threads au rs cs ms us ts ops. j = runOps journalStep ops (emptyJournal threads au rs cs ms us ts))"

lemma emptyJournal_ok: "journalOk (emptyJournal threads au rs cs ms us ts)"
  by (simp add: journalOk_def emptyJournal_def asgOk_start journalConsistent_def operationsConsistent_def framesConsistent_def
      observationsConsistent_def capabilitiesConsistent_def runnersConsistent_def)

lemma journalReachable_ok: "journalReachable j \<Longrightarrow> journalOk j"
  unfolding journalReachable_def using journalStore.run_keeps [OF emptyJournal_ok] by auto

lemma journalReachable_run:
  assumes "journalReachable j"
  shows "journalReachable (runOps journalStep ops j)"
proof -
  obtain threads au rs cs ms us ts before where "j = runOps journalStep before (emptyJournal threads au rs cs ms us ts)"
    using assms unfolding journalReachable_def by blast
  then have "runOps journalStep ops j = runOps journalStep (before @ ops) (emptyJournal threads au rs cs ms us ts)"
    by (simp add: runOps_append)
  then show ?thesis unfolding journalReachable_def by blast
qed

lemma journalReachable_follows: "journalReachable j \<Longrightarrow> journalFollows j (runOps journalStep ops j)"
  using journalStore.run_rel [OF journalReachable_ok] by simp

end
