(* ===== verification/Operation_Properties.thy ===== *)
theory Operation_Properties
  imports Operation_Invariant
begin

text \<open>
  The properties of the journal of tool operations: dispatch under one executor and a live lease,
  logs of frames, ends that stay, and tickets and exits that count once, with samples that run
  the assignment store beside the journal.
\<close>

section \<open>Samples\<close>

definition toolIdentity :: operation_identity where
  "toolIdentity = \<lparr>oiAssignment = ''a'', oiKey = ''k'', oiDigest = ''d'', oiWorkspace = ''w'', oiSession = ''s'', oiThread = ''t'',
     oiTurn = ''u'', oiRun = ''r'', oiRootRun = ''r'', oiToolCall = ''c'', oiCode = ''x'', oiAttempt = 0, oiPolicy = ReplayNever,
     oiAdmittedAt = None, oiDeadline = 1000\<rparr>"

definition toolKey :: operation_key where
  "toolKey = (''a'', ''k'', 0)"

definition toolAttribution :: attribution where
  "toolAttribution = \<lparr>atKey = ''k'', atWorkspace = ''w'', atSession = ''s'', atThread = ''t'', atTurn = ''u'', atRun = ''r'',
     atRootRun = ''r'', atToolCall = ''c'', atAttempt = 0\<rparr>"

definition toolDispatch :: dispatch_input where
  "toolDispatch = \<lparr>diKey = toolKey, diThread = ''t'', diTurn = ''u'', diWorkspace = ''w''\<rparr>"

definition toolFence :: "int \<Rightarrow> dispatch_fence" where
  "toolFence epoch = \<lparr>dfGeneration = 1, dfEpoch = epoch, dfProvider = ''p'', dfExecutor = ''e'', dfIncarnation = ''i''\<rparr>"

definition toolPin :: capability_admission where
  "toolPin = \<lparr>wcThread = ''t'', wcTurn = ''u'', wcAssignment = ''a'', wcWorkspace = ''w'', wcGeneration = 1, wcDigest = sampleDigest,
     wcRequired = JNull\<rparr>"

definition toolAuthority :: authority_db where
  "toolAuthority = \<lparr>adOwners = [\<lparr>owId = ''o'', owKind = PersonalKind ''x''\<rparr>],
     adClients = [\<lparr>clId = ''cl'', clUser = ''x'', clDevice = ''dv'', clExpiresAt = 1000, clRevoked = False\<rparr>],
     adDevices = [\<lparr>dvId = ''dv'', dvUser = ''x'', dvRevoked = False\<rparr>], adAuthorities = [], adMembers = [], adThreads = [],
     adThreadGrants = [], adProjectGrants = []\<rparr>"

definition toolStart :: journal where
  "toolStart = emptyJournal [\<lparr>taId = ''t'', taOwnerId = ''o'', taExecutorKind = Orb, taWorkspaceId = ''w''\<rparr>] toolAuthority [] []
     [\<lparr>cmThread = ''t'', cmTurn = ''u'', cmSequence = 5\<rparr>] [] []"

text \<open>An executor is active, the turn is pinned to it, and the operation is accepted.\<close>

definition acceptedJournal :: journal where
  "acceptedJournal = runOps journalStep
     (map JoAssignments (awaitingRun @ [AoOpenSession (sampleClock 4) (sampleVersion 1 2) sampleOpen]) @
      [JoPin (sampleClock 5) toolPin, JoUpsert (sampleClock 6) toolIdentity]) toolStart"

definition dispatchedJournal :: journal where
  "dispatchedJournal = runOps journalStep [JoClaim (sampleClock 7) toolDispatch (toolFence 1) None] acceptedJournal"

definition toolReceipt :: lifecycle_frame where
  "toolReceipt = TerminalFrame toolAttribution 3 OutcomeCompleted (ToolSuccess JNull)"

definition reportedJournal :: journal where
  "reportedJournal = runOps journalStep
     [JoAppend (sampleClock 8) ''a'' (AcceptedFrame toolAttribution 1), JoAppend (sampleClock 9) ''a'' (StartedFrame toolAttribution 2),
      JoAppend (sampleClock 10) ''a'' toolReceipt] dispatchedJournal"

lemma tool_journals_reachable:
  "journalReachable acceptedJournal" "journalReachable dispatchedJournal" "journalReachable reportedJournal"
proof -
  have start: "journalReachable toolStart"
    unfolding journalReachable_def toolStart_def by (intro exI [where x = "[]"] exI) (rule runOps.simps(1) [symmetric])
  show a: "journalReachable acceptedJournal" unfolding acceptedJournal_def by (rule journalReachable_run [OF start])
  show d: "journalReachable dispatchedJournal" unfolding dispatchedJournal_def by (rule journalReachable_run [OF a])
  show "journalReachable reportedJournal" unfolding reportedJournal_def by (rule journalReachable_run [OF d])
qed

section \<open>Rows over a run\<close>

lemma later_row:
  assumes "journalReachable j" "r \<in> set (jnOperations j)" "j' = runOps journalStep ops j"
  obtains r' fs where "operationOf (operationKey r) j' = Some r'" "operationFollows r r'"
    "framesAt (operationKey r) j' = framesAt (operationKey r) j @ fs" "terminalState (opState r) \<longrightarrow> fs = []"
proof -
  obtain r' fs where r': "r' \<in> set (jnOperations j')" "operationFollows r r'"
    "framesAt (operationKey r) j' = framesAt (operationKey r) j @ fs" "terminalState (opState r) \<longrightarrow> fs = []"
    using journalReachable_follows [OF assms(1), of ops] assms(2,3) unfolding journalFollows_def by blast
  have "journalConsistent j'"
    using journalOkD(2) [OF journalReachable_ok [OF journalReachable_run [OF assms(1), of ops]]] assms(3) by simp
  with r' operationOf_eq [of j' r'] operationFollows_key [OF r'(2)] show thesis using that by metis
qed

lemma operation_reachable: "journalReachable j \<Longrightarrow> journalStep opn j = Inr j' \<Longrightarrow> journalReachable j'"
  using journalReachable_run [of j "[opn]"] by (simp add: settle_def)

section \<open>Dispatch\<close>

lemma claimed_row:
  assumes "claimDispatch c i f digest j = Inr (DispatchClaimed, j1)"
  obtains r where "r \<in> set (jnOperations j1)" "operationKey r = diKey i" "opState r = OperationDispatched" "dispatchedBy f r"
proof -
  have run: "updateOperations (\<lambda>r. operationKey r = diKey i \<and> opState r = OperationAccepted) (dispatchedRow c f) j = Inr (True, j1)"
    using assms by (auto simp: claimDispatch_def bindE_Inr_iff split: option.splits if_splits operation_state.splits)
  then obtain q where q: "q \<in> set (jnOperations j)" "operationKey q = diKey i" "opState q = OperationAccepted"
    and j1: "jnOperations j1 = update_where (\<lambda>r. operationKey r = diKey i \<and> opState r = OperationAccepted) (dispatchedRow c f) (jnOperations j)"
    by (auto simp: updateOperations_def bindE_Inr_iff enforceJournal_Inr exists_row_iff)
  then have "dispatchedRow c f q \<in> set (jnOperations j1)" by (auto simp: set_update_where)
  then show thesis by (rule that) (use q in \<open>simp_all add: dispatchedRow_def operationKey_def dispatchedBy_def\<close>)
qed

text \<open>
  C8: an operation is dispatched once, to one executor.  After a claim was granted, no later claim of
  the same operation is granted, whatever happens in between; one is only answered with the
  same fence to the same generation, executor and process.
\<close>

theorem dispatch_is_claimed_once:
  assumes "journalReachable j" "claimDispatch c i f digest j = Inr (DispatchClaimed, j1)" "j2 = runOps journalStep ops j1"
    and "diKey i' = diKey i" "claimDispatch c' i' f' digest' j2 = Inr (x, j3)"
  shows "x \<noteq> DispatchClaimed \<and> x \<noteq> DispatchMissing \<and> (x = DispatchSameFence \<longrightarrow>
    dfGeneration f' = dfGeneration f \<and> dfExecutor f' = dfExecutor f \<and> dfIncarnation f' = dfIncarnation f)"
proof -
  have r1: "journalReachable j1" by (rule operation_reachable [OF assms(1), of "JoClaim c i f digest"]) (simp add: resultingJournal_Inr assms(2))
  obtain r where r: "r \<in> set (jnOperations j1)" "operationKey r = diKey i" "opState r = OperationDispatched" "dispatchedBy f r"
    using assms(2) by (rule claimed_row)
  obtain r' where r': "operationOf (diKey i') j2 = Some r'" "operationFollows r r'"
    using later_row [OF r1 r(1) assms(3)] r(2) assms(4) by metis
  have now: "opState r' \<noteq> OperationAccepted" "sameDispatch r r'" using r'(2) r(3) by (simp_all add: operationFollows_def)
  show ?thesis using assms(5) r'(1) now r(4)
    by (auto simp: claimDispatch_def bindE_Inr_iff dispatchedBy_def sameDispatch_def split: option.splits if_splits operation_state.splits)
qed

definition leaseFence :: "dispatch_input \<Rightarrow> dispatch_fence \<Rightarrow> fence" where
  "leaseFence i f = \<lparr>fAssignmentId = fst (diKey i), fGeneration = dfGeneration f, fLeaseEpoch = dfEpoch f\<rparr>"

lemma dispatch_holds_fence:
  assumes "journalOk j" "dispatchAssignment c i f digest j = Some a"
  shows "fenceHeld (leaseFence i f) (jnAssignments j)"
proof -
  have a: "a \<in> set (assignments (jnAssignments j))" "asgId a = fst (diKey i)" "holdsDispatch c f digest a"
    using assms(2) by (auto simp: dispatchAssignment_def find_Some_iff)
  have "assignmentById (fst (diKey i)) (jnAssignments j) = Some a"
    using assignmentById_mem [OF asgOkD(1) [OF journalOkD(1) [OF assms(1)]] a(1)] a(2) by simp
  then show ?thesis using a(3) by (simp add: fenceHeld_iff leaseFence_def holdsDispatch_def)
qed

text \<open>
  C9: a lost lease dispatches nothing.  When an executor was granted a dispatch and its lease was
  lost afterwards, by a reconnect, a release, a pause, a replacement or the end of the
  assignment, then no claim under that fence is ever granted again, of this or any other
  operation of the assignment, and none writes anything.
\<close>

theorem lost_lease_dispatches_nothing:
  assumes "journalReachable j" "claimDispatch c i f digest j = Inr (x, j1)" "x = DispatchClaimed \<or> x = DispatchSameFence"
    and "j2 = runOps journalStep ops j1" "\<not> fenceHeld (leaseFence i f) (jnAssignments j2)" "j3 = runOps journalStep ops' j2"
    and "fst (diKey i') = fst (diKey i)"
  shows "claimDispatch c' i' f digest' j3 = Inr (DispatchFenced, j3)"
proof -
  have ok: "journalOk j" using assms(1) by (rule journalReachable_ok)
  have step: "journalReachable j1" by (rule operation_reachable [OF assms(1), of "JoClaim c i f digest"]) (simp add: resultingJournal_Inr assms(2))
  have reach2: "journalReachable j2" unfolding assms(4) by (rule journalReachable_run [OF step])
  have ok2: "journalOk j2" and ok3: "journalOk j3"
    using journalReachable_ok [OF reach2] journalReachable_ok [OF journalReachable_run [OF reach2]] assms(6) by simp_all
  let ?f = "leaseFence i f"
  obtain a where "dispatchAssignment c i f digest j = Some a"
    using assms(2,3) by (auto simp: claimDispatch_def split: option.splits)
  then have "fenceIssued ?f (jnAssignments j)"
    using leases.held_issued [OF journalOkD(1) [OF ok]] dispatch_holds_fence [OF ok] by blast
  moreover have "asgEvolves (jnAssignments j) (jnAssignments j2)"
  proof (rule assignmentStore.rel_trans)
    show "asgEvolves (jnAssignments j) (jnAssignments j1)"
      using journalMoves_follow [OF claim_moves [OF assms(2)] ok] by (simp add: journalFollows_def)
    show "asgEvolves (jnAssignments j1) (jnAssignments j2)"
      using journalReachable_follows [OF step, of ops] by (simp add: journalFollows_def assms(4))
  qed
  ultimately have "fenceIssued ?f (jnAssignments j2)" using leases.issued_stays by blast
  moreover have "asgEvolves (jnAssignments j2) (jnAssignments j3)"
    using journalReachable_follows [OF reach2, of ops'] by (simp add: journalFollows_def assms(6))
  ultimately have "\<not> fenceHeld ?f (jnAssignments j3)"
    using leases.not_regained [OF journalOkD(1) [OF ok2] journalOkD(1) [OF ok3]] assms(5) by blast
  then have "dispatchAssignment c' i' f digest' j3 = None"
    using dispatch_holds_fence [OF ok3, of c' i' f digest'] assms(7) by (cases "dispatchAssignment c' i' f digest' j3") (auto simp: leaseFence_def)
  then show ?thesis by (simp add: claimDispatch_def)
qed

section \<open>Frames\<close>

lemma frameLog_length:
  assumes "frameLog fs"
  shows "length fs \<le> 2 + length (filter (\<lambda>v. kindOfFrame v = KindOutput) fs) + length (filter (\<lambda>v. kindOfFrame v = KindTerminal) fs)"
  using assms
proof (induction fs rule: rev_induct)
  case (snoc f fs)
  then have f: "frameFollows fs f" and fs: "frameLog fs" by (simp_all add: frameLog_snoc)
  show ?case
  proof (cases "length fs < 2")
    case False
    then have "kindOfFrame f = KindOutput \<or> kindOfFrame f = KindTerminal"
      using frameFollows_kind(1,2) [OF f] by (cases "kindOfFrame f") auto
    then show ?thesis using snoc.IH [OF fs] by auto
  qed simp
qed simp

text \<open>
  C18: the frames of an operation form a log.  In every reachable journal their cursors count from
  one, the first is its acceptance, the second its start, a terminal frame is the last, there
  are at most sixteen outputs and nineteen frames; the operation counts as started exactly when
  the second frame is there, and has none before it was dispatched.
\<close>

theorem frames_form_a_log:
  assumes "journalReachable j" "r \<in> set (jnOperations j)" "fs = readFrames (operationKey r) j"
  shows "map frameCursor fs = map (\<lambda>i. int i + 1) [0..<length fs] \<and>
    (\<forall>i < length fs. (kindOfFrame (fs ! i) = KindAccepted \<longleftrightarrow> i = 0) \<and> (kindOfFrame (fs ! i) = KindStarted \<longleftrightarrow> i = 1) \<and>
       (kindOfFrame (fs ! i) = KindTerminal \<longrightarrow> i = length fs - 1)) \<and>
    length (filter (\<lambda>v. kindOfFrame v = KindOutput) fs) \<le> 16 \<and> length fs \<le> 19 \<and>
    (rdStarted (decodeOperation r) \<longleftrightarrow> 2 \<le> length fs) \<and> (opState r = OperationAccepted \<longrightarrow> fs = [])"
proof -
  have ok: "journalOk j" using assms(1) by (rule journalReachable_ok)
  have fs: "fs = map frFrame (framesAt (operationKey r) j)" unfolding assms(3) by (rule readFrames_framesAt [OF ok assms(2)])
  have log: "frameLog fs" "opStartedAt r \<noteq> None \<longleftrightarrow> 2 \<le> length fs" "opState r = OperationAccepted \<longrightarrow> fs = []"
    using journalOkD(3) [OF ok assms(2)] by (simp_all add: logOk_def fs)
  have "length fs \<le> 19" using frameLog_length [OF log(1)] frameLog_outputs [OF log(1)] frameLog_terminals [OF log(1)] by linarith
  then show ?thesis using log frameLog_cursors [OF log(1)] frameLog_shape [OF log(1)] frameLog_outputs [OF log(1)]
    by (simp add: decodeOperation_def)
qed

text \<open>
  reporting a frame is idempotent.  After a frame was appended, the same frame is answered as a
  duplicate in every later state, and another frame at its cursor as invalid, and nothing is
  written.
\<close>

theorem append_is_idempotent:
  assumes "journalReachable j" "appendFrame c i f j = Inr (FrameAppended, j1)" "j2 = runOps journalStep ops j1"
    and "frameAttribution f' = frameAttribution f" "frameCursor f' = frameCursor f"
  shows "appendFrame c' i f' j2 = Inr (if f' = f then FrameDuplicate else FrameInvalid, j2)"
proof -
  let ?k = "frameKey i f"
  have reach1: "journalReachable j1" by (rule operation_reachable [OF assms(1), of "JoAppend c i f"]) (simp add: resultingJournal_Inr assms(2))
  have ok1: "journalOk j1" using reach1 by (rule journalReachable_ok)
  have new: "frameRow ?k f \<in> set (jnFrames j1)"
    using assms(2) by (auto simp: appendFrame_def Let_def insertFrame_def updateOperations_def bindE_Inr_iff enforceJournal_Inr frameRow_def
        split: option.splits if_splits)
  then obtain r where r: "r \<in> set (jnOperations j1)" "operationKey r = ?k"
    using frames_have_operation [OF journalOkD(2) [OF ok1]] by (fastforce simp: frameRow_def)
  obtain r' fs where r': "operationOf ?k j2 = Some r'" "operationFollows r r'" "framesAt ?k j2 = framesAt ?k j1 @ fs"
    using later_row [OF reach1 r(1) assms(3)] r(2) by metis
  note mem = operationOf_SomeD [OF r'(1)]
  have ok2: "journalOk j2" unfolding assms(3) by (rule journalReachable_ok [OF journalReachable_run [OF reach1]])
  have log: "logOk (framesAt ?k j2) r'" using journalOkD(3) [OF ok2] mem by metis
  have known: "readFrames ?k j2 = map frFrame (framesAt ?k j2)" using readFrames_framesAt [OF ok2] mem by metis
  have at: "frameRow ?k f \<in> set (framesAt ?k j2)" using new r'(3) by (simp add: framesAt_def frameRow_def)
  then have f: "f \<in> set (readFrames ?k j2)" unfolding known by (force simp: frameRow_def)
  have "distinct (map frameCursor (readFrames ?k j2))"
    using frameLog_cursors [of "readFrames ?k j2"] log by (simp add: logOk_def known distinct_map inj_on_def)
  then have only: "v = f" if "v \<in> set (readFrames ?k j2)" "frameCursor v = frameCursor f" for v
    using f that by (metis keys_inj)
  have "find (\<lambda>v. frameCursor v = frameCursor f') (readFrames ?k j2) = Some f"
  proof (cases "find (\<lambda>v. frameCursor v = frameCursor f') (readFrames ?k j2)")
    case None
    then show ?thesis using f assms(5) by (auto simp: find_None_iff)
  next
    case (Some v)
    then show ?thesis using only [of v] assms(5) by (auto simp: find_Some_iff)
  qed
  moreover have "attributionMatches (opIdentity r') (frameAttribution f')"
    using log at assms(4) by (fastforce simp: logOk_def frameRow_def)
  moreover have "frameKey i f' = ?k" using assms(4) by (simp add: frameKey_def)
  ultimately show ?thesis using r'(1) by (auto simp: appendFrame_def Let_def)
qed

section \<open>Witnesses\<close>

lemma sample_claim:
  "claimDispatch (sampleClock 7) toolDispatch (toolFence 1) None acceptedJournal = Inr (DispatchClaimed, dispatchedJournal)"
proof -
  have "(case claimDispatch (sampleClock 7) toolDispatch (toolFence 1) None acceptedJournal of
      Inr (DispatchClaimed, j) \<Rightarrow> True | _ \<Rightarrow> False)" by code_simp
  then show ?thesis
    by (auto simp: dispatchedJournal_def settle_def resultingJournal_def split: sum.splits prod.splits dispatch_claim.splits)
qed

theorem dispatch_is_claimed_once_witness:
  "\<exists>x j3. claimDispatch (sampleClock 8) toolDispatch (toolFence 1) None dispatchedJournal = Inr (x, j3) \<and> x \<noteq> DispatchClaimed"
proof -
  have "(case claimDispatch (sampleClock 8) toolDispatch (toolFence 1) None dispatchedJournal of Inr (x, j) \<Rightarrow> True | _ \<Rightarrow> False)"
    by code_simp
  then obtain x j3 where x: "claimDispatch (sampleClock 8) toolDispatch (toolFence 1) None dispatchedJournal = Inr (x, j3)"
    by (auto split: sum.splits)
  have "dispatchedJournal = runOps journalStep [] dispatchedJournal" by simp
  from dispatch_is_claimed_once [OF tool_journals_reachable(1) sample_claim this refl x] x show ?thesis by blast
qed

theorem lost_lease_dispatches_nothing_witness:
  "claimDispatch (sampleClock 12) toolDispatch (toolFence 1) None
     (runOps journalStep [JoAssignments (AoRelease (sampleClock 9) (sampleAccess 1))] dispatchedJournal) =
   Inr (DispatchFenced, runOps journalStep [JoAssignments (AoRelease (sampleClock 9) (sampleAccess 1))] dispatchedJournal)"
proof -
  let ?j = "runOps journalStep [JoAssignments (AoRelease (sampleClock 9) (sampleAccess 1))] dispatchedJournal"
  have lost: "\<not> fenceHeld (leaseFence toolDispatch (toolFence 1)) (jnAssignments ?j)" by code_simp
  have "?j = runOps journalStep [] ?j" by simp
  from lost_lease_dispatches_nothing [OF tool_journals_reachable(1) sample_claim _ refl lost this refl] show ?thesis by simp
qed

theorem frames_form_a_log_witness:
  "\<exists>r \<in> set (jnOperations reportedJournal). length (readFrames (operationKey r) reportedJournal) = 3 \<and>
     map frameCursor (readFrames (operationKey r) reportedJournal) = [1, 2, 3]"
proof -
  have "jnOperations reportedJournal \<noteq> [] \<and> length (readFrames (operationKey (hd (jnOperations reportedJournal))) reportedJournal) = 3"
    by code_simp
  then obtain r where r: "r \<in> set (jnOperations reportedJournal)" "length (readFrames (operationKey r) reportedJournal) = 3"
    by (meson hd_in_set)
  with frames_form_a_log [OF tool_journals_reachable(3) r(1) refl] show ?thesis by (auto simp: upt_rec)
qed

theorem append_is_idempotent_witness:
  "\<exists>j1. appendFrame (sampleClock 8) ''a'' (AcceptedFrame toolAttribution 1) dispatchedJournal = Inr (FrameAppended, j1) \<and>
     appendFrame (sampleClock 9) ''a'' (AcceptedFrame toolAttribution 1) j1 = Inr (FrameDuplicate, j1)"
proof -
  have "(case appendFrame (sampleClock 8) ''a'' (AcceptedFrame toolAttribution 1) dispatchedJournal of
      Inr (FrameAppended, j) \<Rightarrow> True | _ \<Rightarrow> False)" by code_simp
  then obtain j1 where a: "appendFrame (sampleClock 8) ''a'' (AcceptedFrame toolAttribution 1) dispatchedJournal = Inr (FrameAppended, j1)"
    by (auto split: sum.splits prod.splits append_result.splits)
  have "j1 = runOps journalStep [] j1" by simp
  from append_is_idempotent [OF tool_journals_reachable(2) a this refl refl] a show ?thesis by auto
qed

end
