(* ===== verification/Operation_Ends.thy ===== *)
theory Operation_Ends
  imports Operation_Properties
begin

text \<open>
  How an operation ends: what its receipt decides, what happens without one, and that the end
  stays; then tickets of runners and exits of processes, which count once.
\<close>

section \<open>Ends stay\<close>

lemma ended_row_stays:
  assumes "journalReachable j" "operationOf k j = Some r" "terminalState (opState r)" "j' = runOps journalStep ops j"
  shows "operationOf k j' = Some r" "framesAt k j' = framesAt k j"
proof -
  have mem: "r \<in> set (jnOperations j)" "operationKey r = k" using operationOf_SomeD [OF assms(2)] by simp_all
  obtain r' fs where "operationOf k j' = Some r'" "operationFollows r r'" "framesAt k j' = framesAt k j @ fs" "fs = []"
    using later_row [OF assms(1) mem(1) assms(4)] mem(2) assms(3) by metis
  then show "operationOf k j' = Some r" "framesAt k j' = framesAt k j"
    using assms(3) by (simp_all add: operationFollows_def)
qed

text \<open>
  C16: an ended operation is final.  Once an operation is completed or unknown, its record and its
  frames are the same in every later state.
\<close>

theorem ended_operation_is_final:
  assumes "journalReachable j" "findOperation k j = Some x" "terminalState (rdState x)" "j' = runOps journalStep ops j"
  shows "findOperation k j' = Some x \<and> readFrames k j' = readFrames k j"
proof -
  obtain r where r: "operationOf k j = Some r" "x = decodeOperation r" using assms(2) by (auto simp: findOperation_def)
  have "terminalState (opState r)" using assms(3) by (simp add: r(2) decodeOperation_def)
  from ended_row_stays [OF assms(1) r(1) this assms(4)] show ?thesis
    by (simp add: findOperation_def r(2) readFrames_def frameRowsOf_def framesAt_def)
qed

section \<open>Recording an end\<close>

lemma list_all_update: "(\<And>r. r \<in> set rows \<Longrightarrow> P (if hit r then f r else r)) \<Longrightarrow> list_all P (update_where hit f rows)"
  by (simp only: list_all_iff update_where_def set_map) blast

lemma update_consistent:
  assumes ok: "journalConsistent j"
    and f: "\<And>r. r \<in> set (jnOperations j) \<Longrightarrow> hit r \<Longrightarrow> opIdentity (f r) = opIdentity r \<and> opOwner (f r) = opOwner r \<and> operationCheck (f r)"
  shows "journalConsistent (j\<lparr>jnOperations := update_where hit f (jnOperations j)\<rparr>)"
proof -
  let ?g = "\<lambda>r. if hit r then f r else r" and ?ops = "update_where hit f (jnOperations j)"
  have same: "opIdentity (?g r) = opIdentity r \<and> opOwner (?g r) = opOwner r" if "r \<in> set (jnOperations j)" for r
    using f [OF that] by simp
  have keys: "map operationKey ?ops = map operationKey (jnOperations j)"
    using same by (simp add: update_where_def operationKey_def)
  have by_key: "exists_row (\<lambda>r. operationKey r = k) rs \<longleftrightarrow> k \<in> set (map operationKey rs)" for k rs
    by (auto simp: exists_row_iff)
  have rows: "exists_row (\<lambda>r. operationKey r = k) ?ops = exists_row (\<lambda>r. operationKey r = k) (jnOperations j)" for k
    by (simp only: by_key keys)
  have "operationCheck (?g r)" if "r \<in> set (jnOperations j)" for r
    using f [OF that] ok that by (simp add: journalConsistent_def operationsConsistent_def list_all_iff)
  then have check: "list_all operationCheck ?ops" by (rule list_all_update)
  have "operationReferences (j\<lparr>jnOperations := ?ops\<rparr>) (?g r)" if "r \<in> set (jnOperations j)" for r
    using same [OF that] ok that by (simp add: journalConsistent_def operationsConsistent_def list_all_iff operationReferences_def)
  then have "list_all (operationReferences (j\<lparr>jnOperations := ?ops\<rparr>)) ?ops" by (rule list_all_update)
  moreover have "distinct (map operationKey ?ops)" using ok by (simp only: keys journalConsistent_def operationsConsistent_def)
  ultimately have "operationsConsistent (j\<lparr>jnOperations := ?ops\<rparr>)" using check by (simp add: operationsConsistent_def)
  moreover have "framesConsistent (j\<lparr>jnOperations := ?ops\<rparr>) = framesConsistent j"
    "observationsConsistent (j\<lparr>jnOperations := ?ops\<rparr>) = observationsConsistent j"
    by (simp_all add: framesConsistent_def observationsConsistent_def rows)
  ultimately show ?thesis using ok by (simp add: journalConsistent_def capabilitiesConsistent_def runnersConsistent_def)
qed

lemma dispatched_fence:
  assumes "journalConsistent j" "operationOf k j = Some r" "opState r = OperationDispatched"
  obtains fence where "dispatchedFence r = Some fence" "fenceOfRow fence r"
proof -
  have "operationCheck r" using assms(1) operationOf_SomeD [OF assms(2)]
    by (simp add: journalConsistent_def operationsConsistent_def list_all_iff)
  with assms(3) have "\<exists>fence. dispatchedFence r = Some fence \<and> fenceOfRow fence r"
    by (auto simp: operationCheck_def dispatchedFence_def fenceOfRow_def)
  then show thesis using that by blast
qed

lemma recordEnd_result:
  assumes ok: "journalConsistent j" and r: "operationOf (fiKey i) j = Some r" "opState r = OperationDispatched" "fenceOfRow fence r"
    and m: "commandOfTurn (opIdentity r) j = Some m" and check: "operationCheck (endedRow c (storedState st) response outcome r)"
  shows "\<exists>j'. recordEnd c i r fence (response, outcome, st, fence) j = Inr (Finalized response outcome (cmSequence m) fence, j') \<and>
    operationOf (fiKey i) j' = Some (endedRow c (storedState st) response outcome r)"
proof -
  let ?hit = "\<lambda>r. operationKey r = fiKey i \<and> opState r = OperationDispatched \<and> fenceOfRow fence r"
  let ?f = "endedRow c (storedState st) response outcome"
  let ?j = "j\<lparr>jnOperations := update_where ?hit ?f (jnOperations j)\<rparr>"
  note mem = operationOf_SomeD [OF r(1)]
  have only: "q = r" if "q \<in> set (jnOperations j)" "?hit q" for q using operationOf_eq [OF ok that(1)] that(2) r(1) by simp
  have ok': "journalConsistent ?j"
  proof (rule update_consistent [OF ok])
    fix q
    assume "q \<in> set (jnOperations j)" "?hit q"
    then have "q = r" by (rule only)
    then show "opIdentity (?f q) = opIdentity q \<and> opOwner (?f q) = opOwner q \<and> operationCheck (?f q)"
      using check by (simp add: endedRow_def)
  qed
  have hit: "exists_row ?hit (jnOperations j)" using mem r by (auto simp: exists_row_iff)
  have "?f r \<in> set (jnOperations ?j)" using mem r(2,3) by (auto simp: set_update_where)
  then have "operationOf (operationKey (?f r)) ?j = Some (?f r)" by (rule operationOf_eq [OF ok'])
  moreover have "operationKey (?f r) = fiKey i" using mem by (simp add: endedRow_def operationKey_def)
  ultimately have "operationOf (fiKey i) ?j = Some (?f r)" by (simp only:)
  moreover have "recordEnd c i r fence (response, outcome, st, fence) j = Inr (Finalized response outcome (cmSequence m) fence, ?j)"
    using ok' hit m by (simp add: recordEnd_def updateOperations_def enforceJournal_def commandOfTurn_def)
  ultimately show ?thesis by blast
qed

lemma recordEnd_refused:
  assumes r: "operationOf (fiKey i) j = Some r" "opState r = OperationDispatched" "fenceOfRow fence r"
    and check: "\<not> operationCheck (endedRow c (storedState st) response outcome r)"
  shows "recordEnd c i r fence (response, outcome, st, fence) j = Inl JournalStatementFailed"
proof -
  let ?hit = "\<lambda>r. operationKey r = fiKey i \<and> opState r = OperationDispatched \<and> fenceOfRow fence r"
  let ?f = "endedRow c (storedState st) response outcome"
  have "?f r \<in> set (update_where ?hit ?f (jnOperations j))" using operationOf_SomeD [OF r(1)] r(2,3) by (auto simp: set_update_where)
  then have "\<not> journalConsistent (j\<lparr>jnOperations := update_where ?hit ?f (jnOperations j)\<rparr>)"
    using check by (auto simp: journalConsistent_def operationsConsistent_def list_all_iff)
  then show ?thesis by (simp add: recordEnd_def updateOperations_def enforceJournal_def)
qed

lemma ended_check:
  assumes "journalConsistent j" "operationOf k j = Some r" "opState r = OperationDispatched"
  shows "operationCheck (endedRow c (storedState st) response outcome r) \<longleftrightarrow> (st = FinalUnknown \<longleftrightarrow> outcome = OutcomeUnknown)"
proof -
  have "operationCheck r" using assms(1) operationOf_SomeD [OF assms(2)]
    by (simp add: journalConsistent_def operationsConsistent_def list_all_iff)
  with assms(3) show ?thesis
    by (cases st; cases outcome) (simp_all add: operationCheck_def endedRow_def)
qed

section \<open>Receipts\<close>

lemma find_filter_conj: "find (\<lambda>x. P x \<and> Q x) xs = find Q (filter P xs)"
  by (induction xs) auto

lemma terminalFrame_read:
  assumes ok: "journalOk j" and r: "operationOf k j = Some r"
  shows "terminalFrame k j = Inr (find (\<lambda>f. kindOfFrame f = KindTerminal) (readFrames k j))"
proof -
  have mem: "r \<in> set (jnOperations j)" "operationKey r = k" using operationOf_SomeD [OF r] by simp_all
  have known: "readFrames k j = map frFrame (framesAt k j)" using readFrames_framesAt [OF ok mem(1)] mem(2) by simp
  have "\<forall>f \<in> set (framesAt k j). f = frameRow k (frFrame f)" using journalOkD(3) [OF ok mem(1)] mem(2) by (simp add: logOk_def)
  then have "\<forall>f \<in> set (framesAt k j). frKind f = kindOfFrame (frFrame f)" by (metis frameRow_def frame_row.select_convs(3))
  then have "find (\<lambda>f. frKind f = KindTerminal) fs = find (\<lambda>f. kindOfFrame (frFrame f) = KindTerminal) fs" if "set fs \<subseteq> set (framesAt k j)" for fs
    using that by (induction fs) auto
  moreover have "find P (map frFrame fs) = map_option frFrame (find (\<lambda>f. P (frFrame f)) fs)" for P and fs :: "frame_row list"
    by (induction fs) auto
  ultimately have read: "find (\<lambda>f. kindOfFrame f = KindTerminal) (readFrames k j) =
      map_option frFrame (find (\<lambda>f. frKind f = KindTerminal) (framesAt k j))"
    "find (\<lambda>f. frKind f = KindTerminal) (framesAt k j) = find (\<lambda>f. kindOfFrame (frFrame f) = KindTerminal) (framesAt k j)"
    by (simp_all only: known subset_refl)
  show ?thesis
  proof (cases "find (\<lambda>f. frKind f = KindTerminal) (framesAt k j)")
    case None
    then show ?thesis by (simp add: terminalFrame_def find_filter_conj framesAt_def [symmetric] read(1))
  next
    case (Some f)
    then have "kindOfFrame (frFrame f) = KindTerminal" unfolding read(2) by (auto simp: find_Some_iff)
    with Some show ?thesis by (simp add: terminalFrame_def find_filter_conj framesAt_def [symmetric] read(1) receiptOf_def)
  qed
qed

lemma log_receipt:
  assumes "frameLog fs" "t \<in> set fs" "kindOfFrame t = KindTerminal"
  shows "find (\<lambda>f. kindOfFrame f = KindTerminal) fs = Some t"
proof (cases "find (\<lambda>f. kindOfFrame f = KindTerminal) fs")
  case None
  with assms show ?thesis by (auto simp: find_None_iff)
next
  case (Some v)
  then have v: "v \<in> set fs" "kindOfFrame v = KindTerminal" by (auto simp: find_Some_iff)
  have "v = fs ! (length fs - 1)" if "v \<in> set fs" "kindOfFrame v = KindTerminal" for v
    using that frameLog_shape(3) [OF assms(1)] by (metis in_set_conv_nth)
  with v assms(2,3) Some show ?thesis by metis
qed

lemma dispatched_finalization:
  assumes "journalOk j" "operationOf (fiKey i) j = Some r" "opState r = OperationDispatched" "dispatchedFence r = Some fence"
  shows "finalizeTransaction c i j =
    (case resolveFinalization (Option.bind (find (\<lambda>f. kindOfFrame f = KindTerminal) (readFrames (fiKey i) j)) receiptContent) i fence of
       Inl e \<Rightarrow> Inr (FinalizeFailed e, j) | Inr resolved \<Rightarrow> recordEnd c i r fence resolved j)"
  using assms by (simp add: finalizeTransaction_def terminalFrame_read)

text \<open>
  C17: the receipt decides how an operation ends.  An executor that reported a terminal frame for a
  dispatched operation has fixed its response and outcome: finalizing it records exactly those,
  as unknown only for an unknown outcome, and a caller that claims another response is refused
  and writes nothing.
\<close>

theorem receipt_decides_end:
  assumes "journalReachable j" "operationOf (fiKey i) j = Some r" "opState r = OperationDispatched" "commandOfTurn (opIdentity r) j = Some m"
    and "TerminalFrame a n outcome response \<in> set (readFrames (fiKey i) j)" "fiExpectedFence i = None"
  shows "if fiState i = FinalCompleted \<and> response \<noteq> fiResponse i
    then finalizeOperation c i None j = (Inr (FinalizeFailed ResponseConflict), j)
    else \<exists>fence j'. finalizeOperation c i None j = (Inr (Finalized response outcome (cmSequence m) fence), j') \<and>
      operationOf (fiKey i) j' =
        Some (endedRow c (if outcome = OutcomeUnknown then OperationUnknown else OperationCompleted) response outcome r)"
proof -
  have ok: "journalOk j" using assms(1) by (rule journalReachable_ok)
  have con: "journalConsistent j" using ok by (rule journalOkD(2))
  obtain fence where fence: "dispatchedFence r = Some fence" "fenceOfRow fence r" using con assms(2,3) by (rule dispatched_fence)
  have mem: "r \<in> set (jnOperations j)" "operationKey r = fiKey i" using operationOf_SomeD [OF assms(2)] by simp_all
  have "frameLog (readFrames (fiKey i) j)"
    using journalOkD(3) [OF ok mem(1)] readFrames_framesAt [OF ok mem(1)] mem(2) by (simp add: logOk_def)
  note receipt = log_receipt [OF this assms(5), simplified]
  let ?st = "if outcome = OutcomeUnknown then FinalUnknown else FinalCompleted"
  have run: "finalizeTransaction c i j =
      (if fiState i = FinalCompleted \<and> response \<noteq> fiResponse i then Inr (FinalizeFailed ResponseConflict, j)
       else recordEnd c i r fence (response, outcome, ?st, fence) j)"
    using dispatched_finalization [OF ok assms(2,3) fence(1), of c] assms(6) by (simp add: receipt resolveFinalization_def)
  have check: "operationCheck (endedRow c (storedState ?st) response outcome r)"
    unfolding ended_check [OF con assms(2,3)] by simp
  obtain j' where "recordEnd c i r fence (response, outcome, ?st, fence) j = Inr (Finalized response outcome (cmSequence m) fence, j')"
    "operationOf (fiKey i) j' = Some (endedRow c (storedState ?st) response outcome r)"
    using recordEnd_result [OF con assms(2,3) fence(2) assms(4) check] by blast
  moreover have "storedState ?st = (if outcome = OutcomeUnknown then OperationUnknown else OperationCompleted)" by simp
  ultimately show ?thesis by (auto simp: finalizeOperation_def run)
qed

text \<open>
  a dispatched operation can always be ended.  Finalizing it as unknown succeeds whether or not
  its executor reported anything, and leaves it ended.
\<close>

theorem unknown_ends_dispatched:
  assumes "journalReachable j" "operationOf (fiKey i) j = Some r" "opState r = OperationDispatched" "commandOfTurn (opIdentity r) j = Some m"
    and "fiState i = FinalUnknown" "fiExpectedFence i = None"
  shows "\<exists>response outcome fence j' x. finalizeOperation c i None j = (Inr (Finalized response outcome (cmSequence m) fence), j') \<and>
    findOperation (fiKey i) j' = Some x \<and> terminalState (rdState x) \<and> rdResponse x = Some response \<and> rdOutcome x = Some outcome"
proof -
  have ok: "journalOk j" using assms(1) by (rule journalReachable_ok)
  have con: "journalConsistent j" using ok by (rule journalOkD(2))
  obtain fence where fence: "dispatchedFence r = Some fence" "fenceOfRow fence r" using con assms(2,3) by (rule dispatched_fence)
  obtain response outcome st where run: "finalizeTransaction c i j = recordEnd c i r fence (response, outcome, st, fence) j"
    "st = FinalUnknown \<longleftrightarrow> outcome = OutcomeUnknown"
  proof (cases "Option.bind (find (\<lambda>f. kindOfFrame f = KindTerminal) (readFrames (fiKey i) j)) receiptContent")
    case None
    show thesis by (rule that [where response = "fiResponse i" and outcome = OutcomeUnknown and st = FinalUnknown])
        (use dispatched_finalization [OF ok assms(2,3) fence(1), of c] assms(5,6) None in \<open>simp_all add: resolveFinalization_def\<close>)
  next
    case (Some t)
    obtain outcome response where t: "t = (outcome, response)" by (cases t)
    show thesis
      by (rule that [where response = response and outcome = outcome and st = "if outcome = OutcomeUnknown then FinalUnknown else FinalCompleted"])
        (use dispatched_finalization [OF ok assms(2,3) fence(1), of c] assms(5,6) Some t in \<open>simp_all add: resolveFinalization_def\<close>)
  qed
  have "operationCheck (endedRow c (storedState st) response outcome r)" using ended_check [OF con assms(2,3)] run(2) by simp
  then obtain j' where j': "recordEnd c i r fence (response, outcome, st, fence) j = Inr (Finalized response outcome (cmSequence m) fence, j')"
    "operationOf (fiKey i) j' = Some (endedRow c (storedState st) response outcome r)"
    using recordEnd_result [OF con assms(2,3) fence(2) assms(4)] by blast
  have "terminalState (storedState st)" by (cases st) (simp_all add: terminalState_def)
  with j' run(1) show ?thesis
    by (auto simp: finalizeOperation_def findOperation_def decodeOperation_def endedRow_def intro!: exI)
qed


section \<open>Notifications\<close>

lemma finalized_row:
  assumes "journalConsistent j" "finalizeTransaction c i j = Inr (Finalized response outcome n fence, j1)"
  obtains r where "operationOf (fiKey i) j1 = Some r" "terminalState (opState r)" "opResponse r = Some response" "opOutcome r = Some outcome"
  using assms(2)
proof (cases rule: finalizeTransaction_cases)
  case 1
  then show thesis by (simp add: isFinalized_def)
next
  case (2 r fence' receipt resolved)
  obtain response' outcome' st expected where resolved: "resolved = (response', outcome', st, expected)" by (cases resolved)
  let ?hit = "\<lambda>r. operationKey r = fiKey i \<and> opState r = OperationDispatched \<and> fenceOfRow expected r"
  have same: "response' = response" "outcome' = outcome" and wrote:
    "updateOperations ?hit (endedRow c (storedState st) response outcome) j = Inr (True, j1)"
    using 2(6) by (auto simp: recordEnd_def resolved bindE_Inr_iff split: if_splits option.splits)
  then obtain q where q: "q \<in> set (jnOperations j)" "?hit q" and ok: "journalConsistent j1"
    and j1: "jnOperations j1 = update_where ?hit (endedRow c (storedState st) response outcome) (jnOperations j)"
    by (auto simp: updateOperations_def bindE_Inr_iff enforceJournal_Inr exists_row_iff)
  let ?q = "endedRow c (storedState st) response outcome q"
  have "?q \<in> set (jnOperations j1)" unfolding j1 set_update_where using q by blast
  then have "operationOf (operationKey ?q) j1 = Some ?q" by (rule operationOf_eq [OF ok])
  moreover have "operationKey ?q = fiKey i" using q(2) by (simp add: endedRow_def operationKey_def)
  moreover have "terminalState (storedState st)" by (cases st) (simp_all add: terminalState_def)
  ultimately show thesis using that by (simp add: endedRow_def)
qed

lemma finalize_ended:
  assumes "operationOf (fiKey i) j = Some r" "terminalState (opState r)" "opResponse r = Some response" "opOutcome r = Some outcome"
  shows "finalizeTransaction c i j =
    Inr (if response \<noteq> fiResponse i \<and> fiState i \<noteq> FinalUnknown \<and> opState r \<noteq> OperationUnknown then FinalizeFailed ResponseConflict
      else AlreadyTerminal response outcome, j)"
  using assms by (auto simp: finalizeTransaction_def existingResult_def terminalState_def)

text \<open>
  C37: a notification that fails is never repeated.  The callback of a finalization runs after its
  transaction: when it fails, the caller sees the failure but the operation stays ended, and no
  later finalization runs any callback; each only reports the recorded end, or a conflict.
\<close>

theorem lost_notification:
  assumes "journalReachable j" "finalizeTransaction c i j = Inr (Finalized response outcome n fence, j1)"
    and "callback (Finalized response outcome n fence) = Inl e" "j2 = runOps journalStep ops j1" "fiKey i' = fiKey i"
  shows "finalizeOperation c i (Some callback) j = (Inl e, j1) \<and>
    finalizeOperation c' i' callback' j2 \<in>
      {(Inr (AlreadyTerminal response outcome), j2), (Inr (FinalizeFailed ResponseConflict), j2)}"
proof -
  have ok: "journalConsistent j" using journalOkD(2) [OF journalReachable_ok [OF assms(1)]] .
  have r1: "journalReachable j1"
    by (rule operation_reachable [OF assms(1), of "JoFinalize c i None"]) (simp add: finalizeOperation_journal assms(2))
  obtain r where r: "operationOf (fiKey i) j1 = Some r" "terminalState (opState r)" "opResponse r = Some response" "opOutcome r = Some outcome"
    using ok assms(2) by (rule finalized_row)
  have "operationOf (fiKey i') j2 = Some r" using ended_row_stays(1) [OF r1 r(1,2) assms(4)] assms(5) by simp
  from finalize_ended [OF this r(2-4)] show ?thesis
    using assms(2,3) by (simp add: finalizeOperation_def)
qed

section \<open>What counts once\<close>

text \<open>
  the ticket of a runner admits one process.  After an admission was consumed, it can neither be
  locked nor consumed again, and stays bound to the process that consumed it.
\<close>

theorem runner_ticket_is_single_use:
  assumes "journalReachable j" "consumeRunnerAdmission c i incarnation j = Inr (True, j1)" "j2 = runOps journalStep ops j1"
  shows "lockRunnerAdmission c' i j2 = None \<and> consumeRunnerAdmission c' i incarnation' j2 = Inr (False, j2) \<and>
    (\<exists>a \<in> set (jnAdmissions j2). raId a = i \<and> raIncarnation a = Some incarnation)"
proof -
  let ?hit = "\<lambda>x. raId x = i \<and> raConsumedAt x = None \<and> wallNow c < raExpiresAt x"
  let ?f = "\<lambda>x. x\<lparr>raConsumedAt := Some (txNow c), raIncarnation := Some incarnation\<rparr>"
  have r1: "journalReachable j1"
    by (rule operation_reachable [OF assms(1), of "JoConsume c i incarnation"]) (use assms(2) in \<open>auto simp: resultingJournal_Inr\<close>)
  have rows: "jnAdmissions j1 = update_where ?hit ?f (jnAdmissions j)" and "exists_row ?hit (jnAdmissions j)"
    using assms(2) by (auto simp: consumeRunnerAdmission_def Let_def bindE_Inr_iff enforceJournal_Inr)
  then obtain x where x: "x \<in> set (jnAdmissions j)" "?hit x" unfolding exists_row_iff by blast
  have "?f x \<in> set (jnAdmissions j1)" unfolding rows set_update_where using x by blast
  moreover have "admissionsFollow (jnAdmissions j1) (jnAdmissions j2)"
    using journalReachable_follows [OF r1, of ops] by (simp add: journalFollows_def assms(3))
  ultimately obtain a where a: "a \<in> set (jnAdmissions j2)" "sameTicket (?f x) a" unfolding admissionsFollow_def by blast
  then have a_eq: "a = ?f x" by (simp add: sameTicket_def)
  have ok: "journalConsistent j2" using journalOkD(2) [OF journalReachable_ok [OF journalReachable_run [OF r1, of ops]]] assms(3) by simp
  then have "distinct (map raId (jnAdmissions j2))" by (simp add: journalConsistent_def runnersConsistent_def)
  then have only: "y = a" if "y \<in> set (jnAdmissions j2)" "raId y = i" for y
    using that a(1) x(2) a_eq by (auto simp: distinct_map inj_on_def)
  have used: "raConsumedAt y \<noteq> None" if "y \<in> set (jnAdmissions j2)" "raId y = i" for y
    using only [OF that] a_eq by simp
  have "lockRunnerAdmission c' i j2 = None" using used by (auto simp: lockRunnerAdmission_def find_None_iff)
  moreover have "update_where (\<lambda>x. raId x = i \<and> raConsumedAt x = None \<and> wallNow c' < raExpiresAt x) g (jnAdmissions j2) = jnAdmissions j2"
    for g using used by (force simp: update_where_def intro!: map_idI)
  moreover have "\<not> exists_row (\<lambda>x. raId x = i \<and> raConsumedAt x = None \<and> wallNow c' < raExpiresAt x) (jnAdmissions j2)"
    using used by (auto simp: exists_row_iff)
  moreover have "\<exists>a \<in> set (jnAdmissions j2). raId a = i \<and> raIncarnation a = Some incarnation"
    using a(1) a_eq x(2) by (intro bexI [where x = a]) simp_all
  ultimately show ?thesis using ok by (simp add: consumeRunnerAdmission_def Let_def enforceJournal_def)
qed

text \<open>
  the exit of a process is recorded once.  After it was recorded, every other report for the same
  process writes nothing and is answered as a duplicate when it says the same, as fenced
  otherwise.
\<close>

theorem exit_recorded_once:
  assumes "journalReachable j" "recordProcessObservation c i j = Inr (ObservationRecorded, j1)" "j2 = runOps journalStep ops j1"
    and "xiKey i' = xiKey i" "obProcess (xiObservation i') = obProcess (xiObservation i)"
    and "recordProcessObservation c' i' j2 = Inr (x, j3)"
  shows "j3 = j2 \<and> x \<noteq> ObservationRecorded \<and> (x = ObservationDuplicate \<longrightarrow> xiObservation i' = xiObservation i)"
proof -
  let ?v = "\<lparr>ovKey = xiKey i, ovProcess = obProcess (xiObservation i), ovObservation = xiObservation i\<rparr>"
  have r1: "journalReachable j1"
    by (rule operation_reachable [OF assms(1), of "JoObserve c i"]) (simp add: resultingJournal_Inr assms(2))
  obtain r where "j1 = showObservation c r (xiObservation i) (j\<lparr>jnObservations := jnObservations j @ [?v]\<rparr>)"
    using assms(2) by (auto simp: recordProcessObservation_def insertObservation_def bindE_Inr_iff enforceJournal_Inr split: option.splits if_splits)
  then have "?v \<in> set (jnObservations j1)"
    using showObservation_tables [of c r "xiObservation i" "j\<lparr>jnObservations := jnObservations j @ [?v]\<rparr>"] by auto
  then have v: "?v \<in> set (jnObservations j2)"
    using journalReachable_follows [OF r1, of ops] by (auto simp: journalFollows_def assms(3))
  have "journalConsistent j2" using journalOkD(2) [OF journalReachable_ok [OF journalReachable_run [OF r1, of ops]]] assms(3) by simp
  then have "distinct (map (\<lambda>v. (ovKey v, ovProcess v)) (jnObservations j2))" by (simp add: journalConsistent_def observationsConsistent_def)
  then have only: "w = ?v" if "w \<in> set (jnObservations j2)" "ovKey w = xiKey i" "ovProcess w = obProcess (xiObservation i)" for w
    using that v by (auto simp: distinct_map inj_on_def)
  have there: "exists_row (\<lambda>x. ovKey x = xiKey i' \<and> ovProcess x = obProcess (xiObservation i')) (jnObservations j2)"
    using v assms(4,5) by (auto simp: exists_row_iff intro!: bexI [where x = ?v])
  have found: "find (\<lambda>x. ovKey x = xiKey i' \<and> ovProcess x = obProcess (xiObservation i')) (jnObservations j2) = Some ?v"
  proof (cases "find (\<lambda>x. ovKey x = xiKey i' \<and> ovProcess x = obProcess (xiObservation i')) (jnObservations j2)")
    case None
    then have "\<forall>w \<in> set (jnObservations j2). \<not> (ovKey w = xiKey i' \<and> ovProcess w = obProcess (xiObservation i'))"
      by (simp add: find_None_iff)
    from bspec [OF this v] show ?thesis using assms(4,5) by simp
  next
    case (Some w)
    then have "w \<in> set (jnObservations j2)" "ovKey w = xiKey i" "ovProcess w = obProcess (xiObservation i)"
      using assms(4,5) by (auto simp: find_Some_iff)
    then show ?thesis using only Some by blast
  qed
  show ?thesis using assms(6) there found
    by (auto simp: recordProcessObservation_def insertObservation_def split: option.splits if_splits)
qed

section \<open>Witnesses\<close>

definition toolFinalize :: "final_state \<Rightarrow> tool_response \<Rightarrow> finalize_input" where
  "toolFinalize st response = \<lparr>fiKey = toolKey, fiResponse = response, fiState = st, fiCompletionFence = Some
     \<lparr>cfGeneration = 1, cfEpoch = 1, cfExecutor = ''e'', cfIncarnation = ''i''\<rparr>, fiExpectedFence = None\<rparr>"

definition endedJournal :: journal where
  "endedJournal = runOps journalStep [JoFinalize (sampleClock 11) (toolFinalize FinalCompleted (ToolSuccess JNull)) None] reportedJournal"

lemma ended_reachable: "journalReachable endedJournal"
  unfolding endedJournal_def by (rule journalReachable_run [OF tool_journals_reachable(3)])

lemma toolFinalize_simps [simp]: "fiKey (toolFinalize st response) = toolKey" "fiState (toolFinalize st response) = st"
  "fiResponse (toolFinalize st response) = response" "fiExpectedFence (toolFinalize st response) = None"
  by (simp_all add: toolFinalize_def)

text \<open>The row of the sample operation while it is dispatched.\<close>

lemma sample_dispatched:
  "\<exists>r m fence. operationOf toolKey dispatchedJournal = Some r \<and> opState r = OperationDispatched \<and>
     commandOfTurn (opIdentity r) dispatchedJournal = Some m \<and> dispatchedFence r = Some fence \<and>
     completionFenceMatches (fiCompletionFence (toolFinalize FinalCompleted (ToolSuccess JNull))) fence"
  "\<exists>r m fence. operationOf toolKey reportedJournal = Some r \<and> opState r = OperationDispatched \<and>
     commandOfTurn (opIdentity r) reportedJournal = Some m \<and> dispatchedFence r = Some fence"
proof -
  have "(case operationOf toolKey dispatchedJournal of None \<Rightarrow> False | Some r \<Rightarrow> opState r = OperationDispatched \<and>
      commandOfTurn (opIdentity r) dispatchedJournal \<noteq> None \<and> (case dispatchedFence r of None \<Rightarrow> False
      | Some fence \<Rightarrow> completionFenceMatches (fiCompletionFence (toolFinalize FinalCompleted (ToolSuccess JNull))) fence))"
    by code_simp
  then show "\<exists>r m fence. operationOf toolKey dispatchedJournal = Some r \<and> opState r = OperationDispatched \<and>
     commandOfTurn (opIdentity r) dispatchedJournal = Some m \<and> dispatchedFence r = Some fence \<and>
     completionFenceMatches (fiCompletionFence (toolFinalize FinalCompleted (ToolSuccess JNull))) fence"
    by (auto split: option.splits)
  have "(case operationOf toolKey reportedJournal of None \<Rightarrow> False | Some r \<Rightarrow> opState r = OperationDispatched \<and>
      commandOfTurn (opIdentity r) reportedJournal \<noteq> None \<and> dispatchedFence r \<noteq> None)"
    by code_simp
  then show "\<exists>r m fence. operationOf toolKey reportedJournal = Some r \<and> opState r = OperationDispatched \<and>
     commandOfTurn (opIdentity r) reportedJournal = Some m \<and> dispatchedFence r = Some fence"
    by (auto split: option.splits)
qed

theorem ended_operation_is_final_witness:
  "\<exists>x. findOperation toolKey endedJournal = Some x \<and> terminalState (rdState x) \<and>
     findOperation toolKey (runOps journalStep [JoClaim (sampleClock 12) toolDispatch (toolFence 1) None] endedJournal) = Some x"
proof -
  have "(case findOperation toolKey endedJournal of None \<Rightarrow> False | Some x \<Rightarrow> terminalState (rdState x))" by code_simp
  then obtain x where x: "findOperation toolKey endedJournal = Some x" "terminalState (rdState x)" by (auto split: option.splits)
  from ended_operation_is_final [OF ended_reachable x refl] x show ?thesis by blast
qed

theorem receipt_decides_end_witness:
  "finalizeOperation (sampleClock 11) (toolFinalize FinalCompleted (ToolSuspend ''x'')) None reportedJournal =
     (Inr (FinalizeFailed ResponseConflict), reportedJournal) \<and>
   (\<exists>n fence j'. finalizeOperation (sampleClock 11) (toolFinalize FinalUnknown (ToolSuspend ''x'')) None reportedJournal =
     (Inr (Finalized (ToolSuccess JNull) OutcomeCompleted n fence), j'))"
proof -
  obtain r m fence where r: "operationOf toolKey reportedJournal = Some r" "opState r = OperationDispatched"
    "commandOfTurn (opIdentity r) reportedJournal = Some m"
    using sample_dispatched(2) by blast
  have "list_ex (\<lambda>f. f = toolReceipt) (readFrames toolKey reportedJournal)" by code_simp
  then have f: "TerminalFrame toolAttribution 3 OutcomeCompleted (ToolSuccess JNull) \<in> set (readFrames toolKey reportedJournal)"
    by (auto simp: list_ex_iff toolReceipt_def)
  note end1 = receipt_decides_end [OF tool_journals_reachable(3), where i = "toolFinalize st (ToolSuspend ''x'')" for st, unfolded toolFinalize_simps,
      OF r f refl, where c = "sampleClock 11"]
  from end1 [of FinalCompleted] end1 [of FinalUnknown] show ?thesis by auto
qed

theorem unknown_ends_dispatched_witness:
  "\<exists>response outcome n fence j' x. finalizeOperation (sampleClock 11) (toolFinalize FinalUnknown (ToolSuspend ''x'')) None dispatchedJournal =
     (Inr (Finalized response outcome n fence), j') \<and> findOperation toolKey j' = Some x \<and> terminalState (rdState x)"
proof -
  obtain r m fence where r: "operationOf toolKey dispatchedJournal = Some r" "opState r = OperationDispatched"
    "commandOfTurn (opIdentity r) dispatchedJournal = Some m"
    using sample_dispatched(1) by blast
  from unknown_ends_dispatched [OF tool_journals_reachable(2), where i = "toolFinalize FinalUnknown (ToolSuspend ''x'')", unfolded toolFinalize_simps,
      OF r refl refl, of "sampleClock 11"]
  show ?thesis by blast
qed


theorem lost_notification_witness:
  "\<exists>j1 x. finalizeOperation (sampleClock 11) (toolFinalize FinalCompleted (ToolSuccess JNull)) (Some (\<lambda>_. Inl JournalStatementFailed)) reportedJournal =
       (Inl JournalStatementFailed, j1) \<and>
     finalizeOperation (sampleClock 12) (toolFinalize FinalCompleted (ToolSuccess JNull)) (Some (\<lambda>_. Inl JournalStatementFailed)) j1 = (Inr x, j1)"
proof -
  have "(case finalizeTransaction (sampleClock 11) (toolFinalize FinalCompleted (ToolSuccess JNull)) reportedJournal of
      Inr (Finalized _ _ _ _, _) \<Rightarrow> True | _ \<Rightarrow> False)" by code_simp
  then obtain response outcome n fence j1 where f: "finalizeTransaction (sampleClock 11) (toolFinalize FinalCompleted (ToolSuccess JNull)) reportedJournal =
      Inr (Finalized response outcome n fence, j1)"
    by (auto split: sum.splits prod.splits finalize_result.splits)
  have "j1 = runOps journalStep [] j1" by simp
  from lost_notification [where callback = "\<lambda>_. Inl JournalStatementFailed", OF tool_journals_reachable(3) f refl this refl,
      where c' = "sampleClock 12" and callback' = "Some (\<lambda>_. Inl JournalStatementFailed)"]
  show ?thesis by auto
qed

definition toolTicket :: admission_input where
  "toolTicket = \<lparr>aiId = ''t'', aiAssignment = ''a'', aiOwner = ''o'', aiDevice = ''dv'', aiClient = ''cl'', aiUser = ''x'', aiGeneration = 1,
     aiFingerprint = ''f'', aiTicket = ''h'', aiLifetime = 100\<rparr>"

definition ticketJournal :: journal where
  "ticketJournal = runOps journalStep [JoCreateAdmission (sampleClock 8) toolTicket] acceptedJournal"

theorem runner_ticket_is_single_use_witness:
  "\<exists>j1. consumeRunnerAdmission (sampleClock 9) ''t'' ''i'' ticketJournal = Inr (True, j1) \<and>
     consumeRunnerAdmission (sampleClock 10) ''t'' ''j'' j1 = Inr (False, j1)"
proof -
  have "(case consumeRunnerAdmission (sampleClock 9) ''t'' ''i'' ticketJournal of Inr (True, _) \<Rightarrow> True | _ \<Rightarrow> False)" by code_simp
  then obtain j1 where j1: "consumeRunnerAdmission (sampleClock 9) ''t'' ''i'' ticketJournal = Inr (True, j1)"
    by (auto split: sum.splits prod.splits bool.splits)
  have reach: "journalReachable ticketJournal" unfolding ticketJournal_def by (rule journalReachable_run [OF tool_journals_reachable(1)])
  have "j1 = runOps journalStep [] j1" by simp
  from runner_ticket_is_single_use [OF reach j1 this] j1 show ?thesis by blast
qed

definition toolExit :: observation_input where
  "toolExit = \<lparr>xiKey = toolKey, xiFence = \<lparr>cfGeneration = 1, cfEpoch = 1, cfExecutor = ''e'', cfIncarnation = ''i''\<rparr>,
     xiObservation = \<lparr>obProcess = ''p'', obExit = 0, obElapsed = 5, obTruncated = False\<rparr>\<rparr>"

theorem exit_recorded_once_witness:
  "\<exists>j1 x. recordProcessObservation (sampleClock 9) toolExit dispatchedJournal = Inr (ObservationRecorded, j1) \<and>
     recordProcessObservation (sampleClock 10) toolExit j1 = Inr (x, j1) \<and> x \<noteq> ObservationRecorded"
proof -
  have "(case recordProcessObservation (sampleClock 9) toolExit dispatchedJournal of
      Inr (x, j) \<Rightarrow> x = ObservationRecorded \<and> (case recordProcessObservation (sampleClock 10) toolExit j of Inr _ \<Rightarrow> True | _ \<Rightarrow> False)
    | _ \<Rightarrow> False)"
    by code_simp
  then obtain j1 where j1: "recordProcessObservation (sampleClock 9) toolExit dispatchedJournal = Inr (ObservationRecorded, j1)"
    "case recordProcessObservation (sampleClock 10) toolExit j1 of Inr _ \<Rightarrow> True | _ \<Rightarrow> False"
    by (cases "recordProcessObservation (sampleClock 9) toolExit dispatchedJournal") auto
  obtain x j3 where x: "recordProcessObservation (sampleClock 10) toolExit j1 = Inr (x, j3)"
    using j1(2) by (cases "recordProcessObservation (sampleClock 10) toolExit j1") auto
  have "j1 = runOps journalStep [] j1" by simp
  from exit_recorded_once [OF tool_journals_reachable(2) j1(1) this refl refl x] j1(1) x show ?thesis by blast
qed

end
