(* ===== verification/Config_Model.thy ===== *)
theory Config_Model
  imports Assignment_Model "HOL-Library.AList"
begin

text \<open>
  Settings and model routes (packages/configuration/src): the settings a decoder has read from
  the global file and from the workspace, the settings that are in force, and the built-in
  presets, aliases and defaults.  An object is the list of its entries in their order, under
  names that are neither array indices nor \<open>__proto__\<close>; token limits are integers.
\<close>

section \<open>Routes\<close>

datatype provider_id = OpenaiProvider | AnthropicProvider | BedrockProvider | OpenrouterProvider

datatype http_protocol = OpenaiResponses | OpenaiChatCompletions | AnthropicMessages | OpenrouterCompletions

datatype effort = EffortLow | EffortMedium | EffortHigh | EffortXhigh | EffortMax

datatype route_agent = AgentLibrarian | AgentPainter | AgentReview | AgentSurgeon | AgentTask

datatype route_role = RoleMain | RoleOracle

record http_connection =
  hcProtocol :: http_protocol
  hcBaseUrl :: string
  hcApiKeyEnv :: "string option"
  hcCredential :: "string option"
  hcStreamingOnly :: "bool option"
  hcPromptCaching :: "bool option"

datatype auth_mode = AuthDefault | AuthBearer

record auth_refresh =
  afCommand :: string
  afArgs :: "string list"

record bedrock_connection =
  bcAuthMode :: auth_mode
  bcRegion :: "string option"
  bcProfile :: "string option"
  bcEndpoint :: "string option"
  bcRefresh :: "auth_refresh option"

datatype provider_connection = HttpConnection http_connection | BedrockConnection bedrock_connection

datatype openai_api = ResponsesApi | ChatCompletionsApi

record http_override =
  hoBaseUrl :: "string option"
  hoApiKeyEnv :: "string option"
  hoCredential :: "string option"
  hoStreamingOnly :: "bool option"
  hoPromptCaching :: "bool option"
  hoApi :: "openai_api option"

record bedrock_override =
  boAuthMode :: "auth_mode option"
  boRegion :: "string option"
  boProfile :: "string option"
  boEndpoint :: "string option"
  boRefresh :: "auth_refresh option"

datatype provider_override = HttpOverride http_override | BedrockOverride bedrock_override

record model_limits =
  mlContext :: "int option"
  mlMaxInput :: int
  mlMaxOutput :: int
  mlKeepRecent :: int

text \<open>The options of the normal and the fast variant of an effort.\<close>

record variant_pair =
  vrNormal :: json
  vrFast :: "json option"

type_synonym variants = "(effort \<times> variant_pair) list"

record model_alias =
  maDisplayName :: string
  maMedia :: bool
  maProvider :: provider_id
  maCandidates :: "string list"
  maLimits :: model_limits
  maVariants :: variants

datatype route_target = AliasTarget string | DirectTarget provider_id string

record role_route =
  roTarget :: route_target
  roEffort :: effort
  roFast :: "bool option"

record mode_config =
  mcMain :: role_route
  mcOracle :: role_route
  mcAgents :: "(route_agent \<times> role_route) list"

section \<open>Input\<close>

record alias_input =
  alPreset :: "string option"
  alProvider :: provider_id
  alCandidates :: "string list"
  alDisplayName :: "string option"
  alMedia :: "bool option"
  alLimits :: "model_limits option"
  alEfforts :: "variants option"

record route_input =
  xrTarget :: route_target
  xrEffort :: "effort option"
  xrFast :: "bool option"

record mode_input =
  miMain :: "route_input option"
  miOracle :: "route_input option"
  miAgents :: "(route_agent \<times> route_input) list"

datatype mcp_definition =
    McpCommand string "string list" "string option" "(string \<times> string) list" bool
  | McpRemote string "(string \<times> string) list" bool

datatype log_level = LogDebug | LogInfo | LogWarning | LogError

record settings_input =
  siProviders :: "(provider_id \<times> provider_override) list"
  siAliases :: "(string \<times> alias_input) list option"
  siDefaultMode :: "string option"
  siModes :: "(string \<times> mode_input) list option"
  siTitle :: "route_input option"
  siCompaction :: "route_input option"
  siMaxDepth :: "int option"
  siMaxSubagents :: "int option"
  siKeymap :: "(string \<times> string) list"
  siExtensionRoots :: "string list option"
  siMcp :: "(string \<times> mcp_definition) list"
  siNotify :: "bool option"
  siNotifyCommand :: "string option"
  siLogLevel :: "log_level option"
  siWebSearch :: "(string \<times> string) list"

section \<open>Settings\<close>

record provider_connections =
  pcOpenai :: http_connection
  pcAnthropic :: http_connection
  pcBedrock :: bedrock_connection
  pcOpenrouter :: http_connection

record settings =
  sgProviders :: provider_connections
  sgModels :: "(string \<times> model_alias) list"
  sgDefaultMode :: string
  sgModes :: "(string \<times> mode_config) list"
  sgTitle :: role_route
  sgCompaction :: role_route
  sgMaxDepth :: int
  sgMaxSubagents :: int
  sgKeymap :: "(string \<times> string) list"
  sgExtensionRoots :: "string list"
  sgMcp :: "(string \<times> mcp_definition) list"
  sgNotify :: bool
  sgNotifyCommand :: "string option"
  sgLogLevel :: log_level
  sgWebSearch :: "string list"

fun providerConnection :: "provider_connections \<Rightarrow> provider_id \<Rightarrow> provider_connection" where
  "providerConnection ps OpenaiProvider = HttpConnection (pcOpenai ps)"
| "providerConnection ps AnthropicProvider = HttpConnection (pcAnthropic ps)"
| "providerConnection ps BedrockProvider = BedrockConnection (pcBedrock ps)"
| "providerConnection ps OpenrouterProvider = HttpConnection (pcOpenrouter ps)"

section \<open>Presets and built-in aliases\<close>

definition supportedEfforts :: "effort list" where
  "supportedEfforts = [EffortLow, EffortMedium, EffortHigh, EffortXhigh, EffortMax]"

fun openAiEffort :: "effort \<Rightarrow> string" where
  "openAiEffort EffortLow = ''low''"
| "openAiEffort EffortMedium = ''medium''"
| "openAiEffort EffortHigh = ''high''"
| "openAiEffort EffortXhigh = ''xhigh''"
| "openAiEffort EffortMax = ''xhigh''"

fun astraEffort :: "effort \<Rightarrow> string" where
  "astraEffort EffortMax = ''max''"
| "astraEffort e = openAiEffort e"

fun claudeEffort :: "effort \<Rightarrow> string" where
  "claudeEffort EffortLow = ''low''"
| "claudeEffort EffortMedium = ''medium''"
| "claudeEffort EffortHigh = ''high''"
| "claudeEffort EffortXhigh = ''max''"
| "claudeEffort EffortMax = ''max''"

definition gptVariants :: "effort list \<Rightarrow> (effort \<Rightarrow> string) \<Rightarrow> variants" where
  "gptVariants efforts name =
     map (\<lambda>e. let reasoning = JObject [(''effort'', JString (name e)), (''summary'', JString ''auto'')] in
       (e, \<lparr>vrNormal = JObject [(''reasoning'', reasoning)],
            vrFast = Some (JObject [(''reasoning'', reasoning), (''service_tier'', JString ''priority'')])\<rparr>)) efforts"

definition claudeVariants :: "effort list \<Rightarrow> variants" where
  "claudeVariants efforts =
     map (\<lambda>e. (e, \<lparr>vrNormal = JObject [(''output_config'', JObject [(''effort'', JString (claudeEffort e))])], vrFast = None\<rparr>)) efforts"

record model_preset =
  ptLimits :: model_limits
  ptEfforts :: "effort list"
  ptVariants :: "effort list \<Rightarrow> variants"

definition openaiPreset :: model_preset where
  "openaiPreset = \<lparr>ptLimits = \<lparr>mlContext = Some 272000, mlMaxInput = 258400, mlMaxOutput = 128000, mlKeepRecent = 32000\<rparr>,
     ptEfforts = supportedEfforts, ptVariants = (\<lambda>es. gptVariants es openAiEffort)\<rparr>"

definition claudePreset :: model_preset where
  "claudePreset = \<lparr>ptLimits = \<lparr>mlContext = None, mlMaxInput = 872000, mlMaxOutput = 128000, mlKeepRecent = 64000\<rparr>,
     ptEfforts = supportedEfforts, ptVariants = claudeVariants\<rparr>"

definition presetNamed :: "string option \<Rightarrow> model_preset option" where
  "presetNamed p = (if p = Some ''openai'' then Some openaiPreset else if p = Some ''claude'' then Some claudePreset else None)"

record catalog_model =
  ctId :: string
  ctName :: string
  ctContext :: int
  ctMaxInput :: int
  ctMaxOutput :: int
  ctEfforts :: "effort list"

definition catalogModel :: "string \<Rightarrow> string \<Rightarrow> int \<Rightarrow> int \<Rightarrow> catalog_model" where
  "catalogModel i name context maxInput = \<lparr>ctId = i, ctName = name, ctContext = context, ctMaxInput = maxInput, ctMaxOutput = 128000,
     ctEfforts = supportedEfforts\<rparr>"

definition gpt56Luna :: catalog_model where "gpt56Luna = catalogModel ''gpt-5.6-luna'' ''GPT-5.6 Luna'' 272000 258400"
definition gpt56Terra :: catalog_model where "gpt56Terra = catalogModel ''gpt-5.6-terra'' ''GPT-5.6 Terra'' 272000 258400"
definition gpt56Sol :: catalog_model where "gpt56Sol = catalogModel ''gpt-5.6-sol'' ''GPT-5.6 Sol'' 272000 258400"
definition gpt6Astra :: catalog_model where "gpt6Astra = catalogModel ''gpt-6-astra'' ''GPT-6 Astra'' 1050000 922000"
definition claudeFable5 :: catalog_model where "claudeFable5 = catalogModel ''claude-fable-5'' ''Claude Fable 5'' 1000000 872000"
definition claudeOpus5 :: catalog_model where "claudeOpus5 = catalogModel ''claude-opus-5'' ''Claude Opus 5'' 1000000 872000"
definition claudeOpus48 :: catalog_model where "claudeOpus48 = catalogModel ''claude-opus-4-8'' ''Claude Opus 4.8'' 1000000 872000"

definition catalogLimits :: "catalog_model \<Rightarrow> int \<Rightarrow> model_limits" where
  "catalogLimits m keep = \<lparr>mlContext = Some (ctContext m), mlMaxInput = ctMaxInput m, mlMaxOutput = ctMaxOutput m, mlKeepRecent = keep\<rparr>"

definition gptAlias :: "catalog_model \<Rightarrow> (effort \<Rightarrow> string) \<Rightarrow> model_alias" where
  "gptAlias m name = \<lparr>maDisplayName = ctName m, maMedia = True, maProvider = OpenaiProvider, maCandidates = [ctId m],
     maLimits = catalogLimits m (mlKeepRecent (ptLimits openaiPreset)), maVariants = gptVariants (ctEfforts m) name\<rparr>"

definition claudeAlias :: "catalog_model \<Rightarrow> string list \<Rightarrow> model_alias" where
  "claudeAlias m candidates = \<lparr>maDisplayName = ctName m, maMedia = True, maProvider = AnthropicProvider, maCandidates = candidates,
     maLimits = catalogLimits m (mlKeepRecent (ptLimits claudePreset)), maVariants = claudeVariants (ctEfforts m)\<rparr>"

definition builtInAliases :: "(string \<times> model_alias) list" where
  "builtInAliases =
     [(''luna'', gptAlias gpt56Luna openAiEffort), (''terra'', gptAlias gpt56Terra openAiEffort), (''sol'', gptAlias gpt56Sol openAiEffort),
      (''astra'', gptAlias gpt6Astra astraEffort), (''fable'', claudeAlias claudeFable5 [ctId claudeFable5, ctId claudeOpus48]),
      (''opus5'', claudeAlias claudeOpus5 [ctId claudeOpus5, ctId claudeFable5]), (''opus'', claudeAlias claudeOpus48 [ctId claudeOpus48])]"

section \<open>Defaults\<close>

definition httpDefault :: "http_protocol \<Rightarrow> string \<Rightarrow> string \<Rightarrow> string option \<Rightarrow> http_connection" where
  "httpDefault p url env credential = \<lparr>hcProtocol = p, hcBaseUrl = url, hcApiKeyEnv = Some env, hcCredential = credential,
     hcStreamingOnly = None, hcPromptCaching = None\<rparr>"

definition providerDefaults :: provider_connections where
  "providerDefaults =
     \<lparr>pcOpenai = httpDefault OpenaiResponses ''https://api.openai.com/v1'' ''OPENAI_API_KEY'' None,
      pcAnthropic = httpDefault AnthropicMessages ''https://api.anthropic.com'' ''ANTHROPIC_API_KEY'' None,
      pcBedrock = \<lparr>bcAuthMode = AuthDefault, bcRegion = None, bcProfile = None, bcEndpoint = None, bcRefresh = None\<rparr>,
      pcOpenrouter = httpDefault OpenrouterCompletions ''https://openrouter.ai/api/v1'' ''OPENROUTER_API_KEY'' (Some ''openrouter'')\<rparr>"

definition aliasRoute :: "string \<Rightarrow> effort \<Rightarrow> role_route" where
  "aliasRoute name e = \<lparr>roTarget = AliasTarget name, roEffort = e, roFast = None\<rparr>"

definition modeOf :: "role_route \<Rightarrow> role_route \<Rightarrow> mode_config" where
  "modeOf main oracle = \<lparr>mcMain = main, mcOracle = oracle, mcAgents = []\<rparr>"

definition settingsDefaults :: settings where
  "settingsDefaults =
     \<lparr>sgProviders = providerDefaults, sgModels = builtInAliases, sgDefaultMode = ''medium'',
      sgModes = [(''low'', modeOf (aliasRoute ''luna'' EffortXhigh) (aliasRoute ''terra'' EffortXhigh)),
        (''medium'', modeOf (aliasRoute ''terra'' EffortXhigh) (aliasRoute ''sol'' EffortMedium)),
        (''high'', modeOf (aliasRoute ''astra'' EffortMedium) (aliasRoute ''astra'' EffortHigh)),
        (''ultra'', modeOf (aliasRoute ''astra'' EffortXhigh) (aliasRoute ''astra'' EffortMax))],
      sgTitle = aliasRoute ''luna'' EffortLow, sgCompaction = aliasRoute ''sol'' EffortXhigh, sgMaxDepth = 1, sgMaxSubagents = 4,
      sgKeymap = [(''mode'', ''ctrl+s''), (''palette'', ''ctrl+p''), (''submit'', ''enter''), (''newline'', ''shift+enter''),
        (''interrupt'', ''escape'')],
      sgExtensionRoots = [''~/.config/rika/extensions'', ''.rika/extensions''], sgMcp = [], sgNotify = True, sgNotifyCommand = None,
      sgLogLevel = LogInfo, sgWebSearch = []\<rparr>"

end
