(* ===== verification/Config_Merge.thy ===== *)
theory Config_Merge
  imports Config_Model
begin

text \<open>
  How the settings of the global file and of the workspace become the settings in force
  (settings/merge.ts), and what the decoder has checked of each of them before.  The parser of
  URLs is an argument: it gives the host of an address, or nothing.
\<close>

section \<open>Objects\<close>

definition spread :: "('k \<times> 'v) list \<Rightarrow> ('k \<times> 'v) list \<Rightarrow> ('k \<times> 'v) list" where
  "spread a b = foldl (\<lambda>m (k, v). AList.update k v m) a b"

fun foldlE :: "('b \<Rightarrow> 'a \<Rightarrow> 'e + 'b) \<Rightarrow> 'b \<Rightarrow> 'a list \<Rightarrow> 'e + 'b" where
  "foldlE f s [] = Inr s"
| "foldlE f s (x # xs) = bindE (f s x) (\<lambda>s'. foldlE f s' xs)"

section \<open>Errors\<close>

datatype settings_reason = LimitsRequired | RouteRequired | UnknownDefaultMode | UnknownAlias string | PainterWithoutMedia string

text \<open>The path of the setting, in its parts, and the reason.\<close>

datatype settings_error = SettingsError "string list" settings_reason

section \<open>Aliases\<close>

definition aliasFromInput :: "string \<Rightarrow> alias_input \<Rightarrow> settings_error + model_alias" where
  "aliasFromInput name i =
     (let preset = presetNamed (alPreset i) in
      case orElse (alLimits i) (map_option ptLimits preset) of
        None \<Rightarrow> Inl (SettingsError [''modelAliases'', name, ''limits''] LimitsRequired)
      | Some limits \<Rightarrow>
          let efforts = orElse (alEfforts i) (map_option (\<lambda>p. ptVariants p (ptEfforts p)) preset) in
          Inr \<lparr>maDisplayName = (case alDisplayName i of None \<Rightarrow> name | Some n \<Rightarrow> n),
               maMedia = (case alMedia i of None \<Rightarrow> preset \<noteq> None | Some b \<Rightarrow> b),
               maProvider = alProvider i, maCandidates = alCandidates i, maLimits = limits,
               maVariants = (case efforts of None \<Rightarrow> []
                 | Some vs \<Rightarrow> concat (map (\<lambda>e. case map_of vs e of None \<Rightarrow> [] | Some v \<Rightarrow> [(e, v)]) supportedEfforts))\<rparr>)"

definition mergedModels :: "settings_input \<Rightarrow> settings_input \<Rightarrow> settings_error + (string \<times> model_alias) list" where
  "mergedModels g w =
     (if siAliases g = None \<and> siAliases w = None then Inr builtInAliases
      else bindE (traverseE (\<lambda>(name, i). bindE (aliasFromInput name i) (\<lambda>a. Inr (name, a)))
          (spread (case siAliases g of None \<Rightarrow> [] | Some xs \<Rightarrow> xs) (case siAliases w of None \<Rightarrow> [] | Some xs \<Rightarrow> xs)))
        (\<lambda>configured. Inr (spread builtInAliases configured)))"

section \<open>Providers\<close>

definition isStreamingOnlyBaseUrl :: "(string \<Rightarrow> string option) \<Rightarrow> string \<Rightarrow> bool" where
  "isStreamingOnlyBaseUrl host url =
     (case host url of None \<Rightarrow> False
      | Some h \<Rightarrow> h = ''chatgpt.com'' \<or> (let s = ''.chatgpt.com'' in length s \<le> length h \<and> drop (length h - length s) h = s))"

fun bedrockFields :: "provider_override \<Rightarrow> bedrock_override option" where
  "bedrockFields (HttpOverride h) = None"
| "bedrockFields (BedrockOverride b) =
     (if boAuthMode b = None \<and> boRegion b = None \<and> boProfile b = None \<and> boEndpoint b = None \<and> boRefresh b = None then None else Some b)"

definition noHttpFields :: http_override where
  "noHttpFields = \<lparr>hoBaseUrl = None, hoApiKeyEnv = None, hoCredential = None, hoStreamingOnly = None, hoPromptCaching = None, hoApi = None\<rparr>"

fun httpFields :: "provider_override \<Rightarrow> http_override option" where
  "httpFields (HttpOverride h) = Some h"
| "httpFields (BedrockOverride b) = (if bedrockFields (BedrockOverride b) = None then Some noHttpFields else None)"

definition mergedBedrock :: "bedrock_override option \<Rightarrow> bedrock_override option \<Rightarrow> bedrock_override option" where
  "mergedBedrock g w =
     (case (g, w) of
        (None, None) \<Rightarrow> None
      | (Some a, None) \<Rightarrow> Some a
      | (None, Some b) \<Rightarrow> Some b
      | (Some a, Some b) \<Rightarrow> Some \<lparr>boAuthMode = orElse (boAuthMode b) (boAuthMode a), boRegion = orElse (boRegion b) (boRegion a),
          boProfile = orElse (boProfile b) (boProfile a), boEndpoint = orElse (boEndpoint b) (boEndpoint a),
          boRefresh = orElse (boRefresh b) (boRefresh a)\<rparr>)"

definition bedrockProvider :: "provider_override option \<Rightarrow> provider_override option \<Rightarrow> bedrock_connection" where
  "bedrockProvider g w =
     (let over = mergedBedrock (Option.bind g bedrockFields) (Option.bind w bedrockFields) in
      \<lparr>bcAuthMode = (if Option.bind over boAuthMode = Some AuthBearer then AuthBearer else AuthDefault),
       bcRegion = Option.bind over boRegion, bcProfile = Option.bind over boProfile, bcEndpoint = Option.bind over boEndpoint,
       bcRefresh = Option.bind over boRefresh\<rparr>)"

definition httpProtocol :: "provider_id \<Rightarrow> http_connection \<Rightarrow> http_override \<Rightarrow> http_protocol" where
  "httpProtocol i builtIn h =
     (if i \<noteq> OpenaiProvider then hcProtocol builtIn
      else case hoApi h of
          None \<Rightarrow> hcProtocol builtIn | Some ResponsesApi \<Rightarrow> OpenaiResponses | Some ChatCompletionsApi \<Rightarrow> OpenaiChatCompletions)"

definition inheritedStreamingOnly :: "(string \<Rightarrow> string option) \<Rightarrow> http_override option \<Rightarrow> http_connection \<Rightarrow> string \<Rightarrow> bool option" where
  "inheritedStreamingOnly host h builtIn url =
     orElse (Option.bind h hoStreamingOnly) (orElse (hcStreamingOnly builtIn) (if isStreamingOnlyBaseUrl host url then Some True else None))"

definition httpProvider :: "(string \<Rightarrow> string option) \<Rightarrow> provider_id \<Rightarrow> http_connection \<Rightarrow> provider_override option \<Rightarrow> http_connection" where
  "httpProvider host i builtIn over =
     (let h = Option.bind over httpFields;
          url = (case Option.bind h hoBaseUrl of None \<Rightarrow> hcBaseUrl builtIn | Some u \<Rightarrow> u);
          streaming = inheritedStreamingOnly host h builtIn url in
      case h of
        None \<Rightarrow> if streaming = None then builtIn else builtIn\<lparr>hcStreamingOnly := streaming\<rparr>
      | Some f \<Rightarrow> \<lparr>hcProtocol = httpProtocol i builtIn f, hcBaseUrl = url, hcApiKeyEnv = hoApiKeyEnv f,
          hcCredential = orElse (hoCredential f) (hcCredential builtIn), hcStreamingOnly = streaming,
          hcPromptCaching = orElse (hoPromptCaching f) (hcPromptCaching builtIn)\<rparr>)"

definition mergedProviders :: "(string \<Rightarrow> string option) \<Rightarrow> settings_input \<Rightarrow> settings_input \<Rightarrow> provider_connections" where
  "mergedProviders host g w =
     (let over = (\<lambda>i. orElse (map_of (siProviders w) i) (map_of (siProviders g) i)) in
      \<lparr>pcOpenai = httpProvider host OpenaiProvider (pcOpenai providerDefaults) (over OpenaiProvider),
       pcAnthropic = httpProvider host AnthropicProvider (pcAnthropic providerDefaults) (over AnthropicProvider),
       pcBedrock = bedrockProvider (map_of (siProviders g) BedrockProvider) (map_of (siProviders w) BedrockProvider),
       pcOpenrouter = httpProvider host OpenrouterProvider (pcOpenrouter providerDefaults) (over OpenrouterProvider)\<rparr>)"

section \<open>Modes\<close>

text \<open>A route that is not set again stays; one that is set keeps the effort and speed it does not name.\<close>

definition roleRoute :: "role_route option \<Rightarrow> route_input option \<Rightarrow> string list \<Rightarrow> settings_error + role_route" where
  "roleRoute configured over path =
     (case over of
        None \<Rightarrow> (case configured of Some r \<Rightarrow> Inr r | None \<Rightarrow> Inl (SettingsError path RouteRequired))
      | Some x \<Rightarrow> Inr \<lparr>roTarget = xrTarget x,
          roEffort = (case orElse (xrEffort x) (map_option roEffort configured) of None \<Rightarrow> EffortMedium | Some e \<Rightarrow> e),
          roFast = orElse (xrFast x) (Option.bind configured roFast)\<rparr>)"

definition agentIds :: "route_agent list" where
  "agentIds = [AgentLibrarian, AgentPainter, AgentReview, AgentSurgeon, AgentTask]"

fun agentName :: "route_agent \<Rightarrow> string" where
  "agentName AgentLibrarian = ''librarian''"
| "agentName AgentPainter = ''painter''"
| "agentName AgentReview = ''review''"
| "agentName AgentSurgeon = ''surgeon''"
| "agentName AgentTask = ''task''"

definition followsMain :: "route_agent \<Rightarrow> bool" where
  "followsMain a \<longleftrightarrow> a = AgentTask \<or> a = AgentSurgeon"

definition mergeAgent :: "string \<Rightarrow> role_route \<Rightarrow> role_route \<Rightarrow> mode_input \<Rightarrow> (route_agent \<times> role_route) list \<Rightarrow> route_agent \<Rightarrow>
    settings_error + (route_agent \<times> role_route) list" where
  "mergeAgent name main oracle m agents a =
     (case map_of (miAgents m) a of
        None \<Rightarrow> Inr agents
      | Some x \<Rightarrow>
          bindE (roleRoute (Some (case map_of agents a of Some r \<Rightarrow> r | None \<Rightarrow> if followsMain a then main else oracle)) (Some x)
              [''modes'', name, ''agents'', agentName a]) (\<lambda>r. Inr (AList.update a r agents)))"

definition mergeMode :: "(string \<times> mode_config) list \<Rightarrow> string \<times> mode_input \<Rightarrow> settings_error + (string \<times> mode_config) list" where
  "mergeMode merged e =
     (case e of (name, m) \<Rightarrow>
        let current = map_of merged name in
        bindE (roleRoute (map_option mcMain current) (miMain m) [''modes'', name, ''main'']) (\<lambda>main.
        bindE (roleRoute (Some (case current of None \<Rightarrow> main | Some c \<Rightarrow> mcOracle c)) (miOracle m) [''modes'', name, ''oracle'']) (\<lambda>oracle.
        bindE (foldlE (mergeAgent name main oracle m) (case current of None \<Rightarrow> [] | Some c \<Rightarrow> mcAgents c) agentIds) (\<lambda>agents.
          Inr (AList.update name \<lparr>mcMain = main, mcOracle = oracle, mcAgents = agents\<rparr> merged)))))"

definition mergedModes :: "settings_input \<Rightarrow> settings_input \<Rightarrow> settings_error + (string \<times> mode_config) list" where
  "mergedModes g w =
     (if siModes g = None \<and> siModes w = None then Inr (sgModes settingsDefaults)
      else bindE (foldlE mergeMode [] (case siModes g of None \<Rightarrow> [] | Some ms \<Rightarrow> ms)) (\<lambda>ms.
        foldlE mergeMode ms (case siModes w of None \<Rightarrow> [] | Some ms \<Rightarrow> ms)))"

section \<open>Checks\<close>

definition modeRoutes :: "string \<times> mode_config \<Rightarrow> (string list \<times> role_route) list" where
  "modeRoutes e = (case e of (name, c) \<Rightarrow>
     [([''modes'', name, ''main''], mcMain c), ([''modes'', name, ''oracle''], mcOracle c)] @
     map (\<lambda>(a, r). ([''modes'', name, ''agents'', agentName a], r)) (mcAgents c))"

definition settingsRoutes :: "settings \<Rightarrow> (string list \<times> role_route) list" where
  "settingsRoutes s = concat (map modeRoutes (sgModes s)) @
     [([''modelRoutes'', ''title''], sgTitle s), ([''modelRoutes'', ''compaction''], sgCompaction s)]"

definition checkRoute :: "settings \<Rightarrow> string list \<times> role_route \<Rightarrow> settings_error + unit" where
  "checkRoute s e =
     (case e of (path, r) \<Rightarrow>
        case roTarget r of
          DirectTarget _ _ \<Rightarrow> Inr ()
        | AliasTarget a \<Rightarrow> require (map_of (sgModels s) a \<noteq> None) (SettingsError path (UnknownAlias a)))"

definition assertRoutesReferenceKnownModels :: "settings \<Rightarrow> settings_error + unit" where
  "assertRoutesReferenceKnownModels s = foldlE (\<lambda>_ e. checkRoute s e) () (settingsRoutes s)"

definition checkPainter :: "settings \<Rightarrow> string \<times> mode_config \<Rightarrow> settings_error + unit" where
  "checkPainter s e =
     (case e of (mode, c) \<Rightarrow>
        case map_option roTarget (map_of (mcAgents c) AgentPainter) of
          Some (AliasTarget a) \<Rightarrow>
            (case map_of (sgModels s) a of
               None \<Rightarrow> Inr ()
             | Some m \<Rightarrow> require (maMedia m) (SettingsError [''modes'', mode, ''agents'', ''painter''] (PainterWithoutMedia a)))
        | _ \<Rightarrow> Inr ())"

definition assertPainterSupportsMedia :: "settings \<Rightarrow> settings_error + unit" where
  "assertPainterSupportsMedia s = foldlE (\<lambda>_ e. checkPainter s e) () (sgModes s)"

section \<open>Settings\<close>

definition withDefault :: "'a option \<Rightarrow> 'a option \<Rightarrow> 'a \<Rightarrow> 'a" where
  "withDefault w g d = (case orElse w g of None \<Rightarrow> d | Some x \<Rightarrow> x)"

definition mergeConfigurationSettings :: "(string \<Rightarrow> string option) \<Rightarrow> settings_input \<Rightarrow> settings_input \<Rightarrow> settings_error + settings" where
  "mergeConfigurationSettings host g w =
     bindE (mergedModels g w) (\<lambda>models.
     bindE (mergedModes g w) (\<lambda>modes.
     bindE (roleRoute (Some (sgTitle settingsDefaults)) (orElse (siTitle w) (siTitle g)) [''modelRoutes'', ''title'']) (\<lambda>title.
     bindE (roleRoute (Some (sgCompaction settingsDefaults)) (orElse (siCompaction w) (siCompaction g)) [''modelRoutes'', ''compaction''])
      (\<lambda>compaction.
      let s = \<lparr>sgProviders = mergedProviders host g w, sgModels = models,
          sgDefaultMode = withDefault (siDefaultMode w) (siDefaultMode g) (sgDefaultMode settingsDefaults), sgModes = modes,
          sgTitle = title, sgCompaction = compaction,
          sgMaxDepth = withDefault (siMaxDepth w) (siMaxDepth g) (sgMaxDepth settingsDefaults),
          sgMaxSubagents = withDefault (siMaxSubagents w) (siMaxSubagents g) (sgMaxSubagents settingsDefaults),
          sgKeymap = spread (spread (sgKeymap settingsDefaults) (siKeymap g)) (siKeymap w),
          sgExtensionRoots = withDefault (siExtensionRoots w) (siExtensionRoots g) (sgExtensionRoots settingsDefaults),
          sgMcp = spread (spread (sgMcp settingsDefaults) (siMcp g)) (siMcp w),
          sgNotify = withDefault (siNotify w) (siNotify g) (sgNotify settingsDefaults),
          sgNotifyCommand = orElse (siNotifyCommand w) (siNotifyCommand g),
          sgLogLevel = withDefault (siLogLevel w) (siLogLevel g) (sgLogLevel settingsDefaults),
          sgWebSearch = map fst (spread (siWebSearch g) (siWebSearch w))\<rparr> in
      if map_of modes (sgDefaultMode s) = None then Inl (SettingsError [''defaultMode''] UnknownDefaultMode)
      else bindE (assertRoutesReferenceKnownModels s) (\<lambda>_. bindE (assertPainterSupportsMedia s) (\<lambda>_. Inr s))))))"

definition withWebSearchConfiguration :: "settings \<Rightarrow> string list \<Rightarrow> settings" where
  "withWebSearchConfiguration s credentials = s\<lparr>sgWebSearch := credentials\<rparr>"

section \<open>What the decoder has checked\<close>

text \<open>
  The checks of the decoders that the values of an input still show and that matter to the
  merge: those of aliases, routes and modes, and of the fields of Bedrock apart from its
  endpoint.
\<close>

fun optionAll :: "('a \<Rightarrow> bool) \<Rightarrow> 'a option \<Rightarrow> bool" where
  "optionAll P None = True"
| "optionAll P (Some x) = P x"

definition limitsDecoded :: "model_limits \<Rightarrow> bool" where
  "limitsDecoded l \<longleftrightarrow> 0 < mlMaxInput l \<and> 0 < mlMaxOutput l \<and> 0 < mlKeepRecent l \<and>
     (case mlContext l of None \<Rightarrow> True | Some c \<Rightarrow> 0 < c \<and> mlMaxInput l \<le> c)"

definition aliasDecoded :: "string \<times> alias_input \<Rightarrow> bool" where
  "aliasDecoded e =
     (case e of (name, i) \<Rightarrow>
        name \<noteq> [] \<and> alCandidates i \<noteq> [] \<and> list_all (\<lambda>c. c \<noteq> []) (alCandidates i) \<and> alDisplayName i \<noteq> Some [] \<and>
        alPreset i \<in> {None, Some ''openai'', Some ''claude''} \<and> ((alPreset i \<noteq> None) \<noteq> (alEfforts i \<noteq> None)) \<and>
        (alEfforts i \<noteq> None \<longrightarrow> alLimits i \<noteq> None) \<and> (case alLimits i of None \<Rightarrow> True | Some l \<Rightarrow> limitsDecoded l))"

definition bedrockDecoded :: "provider_override \<Rightarrow> bool" where
  "bedrockDecoded v =
     (case v of HttpOverride _ \<Rightarrow> False
      | BedrockOverride b \<Rightarrow> boRegion b \<noteq> Some [] \<and> boProfile b \<noteq> Some [] \<and>
          (case boRefresh b of None \<Rightarrow> True | Some f \<Rightarrow> boAuthMode b \<noteq> Some AuthBearer \<and> afCommand f \<noteq> []))"

definition routeDecoded :: "route_input \<Rightarrow> bool" where
  "routeDecoded x = (case xrTarget x of AliasTarget a \<Rightarrow> a \<noteq> [] | DirectTarget _ m \<Rightarrow> m \<noteq> [])"

definition modeDecoded :: "string \<times> mode_input \<Rightarrow> bool" where
  "modeDecoded e =
     (case e of (name, m) \<Rightarrow> name \<noteq> [] \<and> optionAll routeDecoded (miMain m) \<and> optionAll routeDecoded (miOracle m) \<and>
        list_all (\<lambda>(_, x). routeDecoded x) (miAgents m))"

definition inputDecoded :: "settings_input \<Rightarrow> bool" where
  "inputDecoded i \<longleftrightarrow> optionAll (list_all aliasDecoded) (siAliases i) \<and> siDefaultMode i \<noteq> Some [] \<and>
     optionAll (\<lambda>ms. ms \<noteq> [] \<and> list_all modeDecoded ms) (siModes i) \<and> optionAll routeDecoded (siTitle i) \<and>
     optionAll routeDecoded (siCompaction i) \<and>
     (case map_of (siProviders i) BedrockProvider of None \<Rightarrow> True | Some v \<Rightarrow> bedrockDecoded v)"

end
