(* ===== verification/Config_Routes.thy ===== *)
theory Config_Routes
  imports Config_Merge
begin

text \<open>
  Which model a role, an agent, the title and the compaction of a thread use
  (model-routing/model-route-resolution.ts).
\<close>

section \<open>Resolved routes\<close>

record resolved_route =
  rvSelection :: string
  rvDisplayName :: string
  rvEffort :: effort
  rvFast :: bool
  rvProvider :: provider_id
  rvConnection :: provider_connection
  rvCandidates :: "string list"
  rvModel :: string
  rvContext :: int
  rvReserve :: int
  rvKeepRecent :: int
  rvMaxOutput :: int
  rvOptions :: json

text \<open>Who asked for the route, and why there is none.\<close>

datatype route_reason = MissingAlias string | NoCandidates | ModeNotConfigured

datatype route_owner = ModeOwner string route_role | AgentOwner string route_agent | TitleOwner | CompactionOwner

datatype route_error = RouteError route_owner route_reason

fun usesClaude :: "provider_connection \<Rightarrow> bool" where
  "usesClaude (HttpConnection h) = (hcProtocol h = AnthropicMessages)"
| "usesClaude (BedrockConnection b) = True"

definition presetFor :: "provider_connection \<Rightarrow> model_preset" where
  "presetFor c = (if usesClaude c then claudePreset else openaiPreset)"

fun speaksResponses :: "provider_connection \<Rightarrow> bool" where
  "speaksResponses (HttpConnection h) = (hcProtocol h = OpenaiResponses)"
| "speaksResponses (BedrockConnection b) = False"

definition routeVariants :: "model_alias option \<Rightarrow> role_route \<Rightarrow> provider_connection \<Rightarrow> variant_pair" where
  "routeVariants a r c =
     (case Option.bind a (\<lambda>m. map_of (maVariants m) (roEffort r)) of
        Some v \<Rightarrow> v
      | None \<Rightarrow> \<lparr>vrNormal = JObject [],
          vrFast = (if speaksResponses c then Some (JObject [(''service_tier'', JString ''priority'')]) else None)\<rparr>)"

definition selectedVariant :: "model_alias option \<Rightarrow> role_route \<Rightarrow> provider_connection \<Rightarrow> json \<times> bool" where
  "selectedVariant a r c =
     (let v = routeVariants a r c in
      (if roFast r = Some True then (case vrFast v of None \<Rightarrow> vrNormal v | Some f \<Rightarrow> f) else vrNormal v,
       roFast r = Some True \<and> vrFast v \<noteq> None))"

text \<open>What a route names: an alias of the settings, or a model of a provider.\<close>

datatype route_source = AliasSource string model_alias | DirectSource provider_id string

definition routeSource :: "settings \<Rightarrow> role_route \<Rightarrow> route_owner \<Rightarrow> route_error + route_source" where
  "routeSource s r owner =
     (case roTarget r of
        DirectTarget p m \<Rightarrow> Inr (DirectSource p m)
      | AliasTarget a \<Rightarrow>
          (case map_of (sgModels s) a of None \<Rightarrow> Inl (RouteError owner (MissingAlias a)) | Some m \<Rightarrow> Inr (AliasSource a m)))"

fun sourceAlias :: "route_source \<Rightarrow> model_alias option" where
  "sourceAlias (AliasSource _ m) = Some m"
| "sourceAlias (DirectSource _ _) = None"

fun sourceProvider :: "route_source \<Rightarrow> provider_id" where
  "sourceProvider (AliasSource _ m) = maProvider m"
| "sourceProvider (DirectSource p _) = p"

fun sourceCandidates :: "route_source \<Rightarrow> string list" where
  "sourceCandidates (AliasSource _ m) = maCandidates m"
| "sourceCandidates (DirectSource _ m) = [m]"

fun sourceSelection :: "route_source \<Rightarrow> string \<Rightarrow> string" where
  "sourceSelection (AliasSource n _) model = n"
| "sourceSelection (DirectSource _ _) model = model"

definition resolvedLimits :: "model_alias option \<Rightarrow> provider_connection \<Rightarrow> model_limits" where
  "resolvedLimits a c = (case a of None \<Rightarrow> ptLimits (presetFor c) | Some m \<Rightarrow> maLimits m)"

definition resolveRoute :: "settings \<Rightarrow> role_route \<Rightarrow> route_owner \<Rightarrow> route_error + resolved_route" where
  "resolveRoute s r owner =
     bindE (routeSource s r owner) (\<lambda>source.
       let a = sourceAlias source;
           connection = providerConnection (sgProviders s) (sourceProvider source) in
       case sourceCandidates source of
         [] \<Rightarrow> Inl (RouteError owner NoCandidates)
       | model # _ \<Rightarrow>
           let (options, fast) = selectedVariant a r connection;
               limits = resolvedLimits a connection;
               context = (case mlContext limits of None \<Rightarrow> mlMaxInput limits + mlMaxOutput limits | Some c \<Rightarrow> c) in
           Inr \<lparr>rvSelection = sourceSelection source model,
                rvDisplayName = (case a of None \<Rightarrow> model | Some m \<Rightarrow> maDisplayName m), rvEffort = roEffort r, rvFast = fast,
                rvProvider = sourceProvider source, rvConnection = connection, rvCandidates = sourceCandidates source, rvModel = model,
                rvContext = context, rvReserve = context - mlMaxInput limits, rvKeepRecent = mlKeepRecent limits,
                rvMaxOutput = mlMaxOutput limits, rvOptions = options\<rparr>)"

fun roleOf :: "route_role \<Rightarrow> mode_config \<Rightarrow> role_route" where
  "roleOf RoleMain c = mcMain c"
| "roleOf RoleOracle c = mcOracle c"

definition resolveModelRoute :: "settings \<Rightarrow> string \<Rightarrow> route_role \<Rightarrow> route_error + resolved_route" where
  "resolveModelRoute s mode role =
     (case map_of (sgModes s) mode of
        None \<Rightarrow> Inl (RouteError (ModeOwner mode role) ModeNotConfigured)
      | Some c \<Rightarrow> resolveRoute s (roleOf role c) (ModeOwner mode role))"

definition agentRoute :: "mode_config \<Rightarrow> route_agent \<Rightarrow> role_route" where
  "agentRoute c a =
     (case map_of (mcAgents c) a of Some r \<Rightarrow> r | None \<Rightarrow> if followsMain a then mcMain c else mcOracle c)"

definition resolveAgentRoute :: "settings \<Rightarrow> string \<Rightarrow> route_agent \<Rightarrow> bool option \<Rightarrow> route_error + resolved_route" where
  "resolveAgentRoute s mode a fastMode =
     (case map_of (sgModes s) mode of
        None \<Rightarrow> Inl (RouteError (AgentOwner mode a) ModeNotConfigured)
      | Some c \<Rightarrow>
          let r = agentRoute c a;
              fast = (case orElse fastMode (roFast r) of None \<Rightarrow> False | Some b \<Rightarrow> b) in
          resolveRoute s (r\<lparr>roFast := Some fast\<rparr>) (AgentOwner mode a))"

definition resolveThreadTitleRoute :: "settings \<Rightarrow> route_error + resolved_route" where
  "resolveThreadTitleRoute s = resolveRoute s (sgTitle s) TitleOwner"

definition resolveCompactionSummaryRoute :: "settings \<Rightarrow> route_error + resolved_route" where
  "resolveCompactionSummaryRoute s = resolveRoute s (sgCompaction s) CompactionOwner"

section \<open>Folds that may fail\<close>

lemma foldlE_unit_Inr: "foldlE (\<lambda>_ x. f x) () xs = Inr u \<longleftrightarrow> (\<forall>x \<in> set xs. f x = Inr ())"
  by (induction xs) (auto simp: bindE_Inr_iff)

lemma foldlE_keeps:
  assumes "foldlE f s xs = Inr s'" "P s" "\<And>s x s'. x \<in> set xs \<Longrightarrow> P s \<Longrightarrow> f s x = Inr s' \<Longrightarrow> P s'"
  shows "P s'"
  using assms
proof (induction xs arbitrary: s)
  case (Cons x xs)
  obtain t where t: "f s x = Inr t" "foldlE f t xs = Inr s'" using Cons.prems(1) by (auto simp: bindE_Inr_iff)
  have "P t" by (rule Cons.prems(3) [OF _ Cons.prems(2) t(1)]) simp
  then show ?case by (rule Cons.IH [OF t(2)]) (use Cons.prems(3) in \<open>metis list.set_intros(2)\<close>)
qed simp

lemma map_of_spread: "map_of (spread a b) k = orElse (map_of (rev b) k) (map_of a k)"
proof (induction b rule: rev_induct)
  case (snoc x b)
  obtain k' v where "x = (k', v)" by (cases x)
  with snoc show ?case by (auto simp: spread_def update_conv')
qed (simp add: spread_def)

lemma values_of_spread: "(\<forall>(k, v) \<in> set a. P k v) \<Longrightarrow> (\<forall>(k, v) \<in> set b. P k v) \<Longrightarrow> (\<forall>(k, v) \<in> set (spread a b). P k v)"
proof (induction b rule: rev_induct)
  case (snoc x b)
  obtain k v where x: "x = (k, v)" by (cases x)
  have "set (AList.update k v m) \<subseteq> insert (k, v) (set m)" for m by (induction m) auto
  with snoc x show ?case unfolding spread_def by fastforce
qed (simp add: spread_def)

end
