(* ===== verification/Config_Properties.thy ===== *)
theory Config_Properties
  imports Config_Routes
begin

text \<open>
  The properties of settings: whatever two decoded inputs merge to, every role and agent of
  every mode resolves to a model within its limits; and two cases in which a check that each
  input passes is lost by the merge.
\<close>

section \<open>Aliases\<close>

definition aliasUsable :: "model_alias \<Rightarrow> bool" where
  "aliasUsable m \<longleftrightarrow> maCandidates m \<noteq> [] \<and> list_all (\<lambda>c. c \<noteq> []) (maCandidates m) \<and> limitsDecoded (maLimits m)"

lemma presets_decoded: "presetNamed p = Some x \<Longrightarrow> limitsDecoded (ptLimits x)"
  by (auto simp: presetNamed_def openaiPreset_def claudePreset_def limitsDecoded_def split: if_splits)

lemma builtIn_usable: "list_all (\<lambda>(n, m). aliasUsable m) builtInAliases"
  by (simp add: builtInAliases_def aliasUsable_def gptAlias_def claudeAlias_def catalogLimits_def limitsDecoded_def openaiPreset_def
      claudePreset_def catalogModel_def gpt56Luna_def gpt56Terra_def gpt56Sol_def gpt6Astra_def claudeFable5_def claudeOpus5_def claudeOpus48_def)

lemma alias_usable:
  assumes "aliasDecoded (name, i)" "aliasFromInput name i = Inr m"
  shows "aliasUsable m"
proof -
  have "limitsDecoded l" if "orElse (alLimits i) (map_option ptLimits (presetNamed (alPreset i))) = Some l" for l
    using that assms(1) by (cases "alLimits i") (auto simp: aliasDecoded_def dest: presets_decoded)
  with assms show ?thesis
    by (auto simp: aliasFromInput_def Let_def aliasUsable_def aliasDecoded_def split: option.splits)
qed

lemma decoded_aliases:
  "inputDecoded i \<Longrightarrow> \<forall>(n, x) \<in> set (case siAliases i of None \<Rightarrow> [] | Some xs \<Rightarrow> xs). aliasDecoded (n, x)"
  by (cases "siAliases i") (auto simp: inputDecoded_def list_all_iff)

lemma models_usable:
  assumes "mergedModels g w = Inr models" "inputDecoded g" "inputDecoded w"
  shows "\<forall>(n, m) \<in> set models. aliasUsable m"
proof (cases "siAliases g = None \<and> siAliases w = None")
  case True
  then show ?thesis using assms(1) builtIn_usable by (simp add: mergedModels_def list_all_iff)
next
  case False
  let ?a = "case siAliases g of None \<Rightarrow> [] | Some xs \<Rightarrow> xs" and ?b = "case siAliases w of None \<Rightarrow> [] | Some xs \<Rightarrow> xs"
  have decoded: "\<forall>(n, i) \<in> set (spread ?a ?b). aliasDecoded (n, i)"
    by (rule values_of_spread [OF decoded_aliases [OF assms(2)] decoded_aliases [OF assms(3)]])
  obtain configured where configured: "models = spread builtInAliases configured"
    "traverseE (\<lambda>(n, i). bindE (aliasFromInput n i) (\<lambda>a. Inr (n, a))) (spread ?a ?b) = Inr configured"
    using assms(1) False by (auto simp: mergedModels_def bindE_Inr_iff)
  have "aliasUsable m" if "(n, m) \<in> set configured" for n m
  proof -
    have "Inr (n, m) \<in> Inr ` set configured" using that by blast
    then have "(Inr (n, m) :: settings_error + string \<times> model_alias) \<in>
        (\<lambda>(n, i). bindE (aliasFromInput n i) (\<lambda>a. Inr (n, a))) ` set (spread ?a ?b)"
      using configured(2) by (simp only: traverseE_Inr_iff flip: set_map)
    then obtain i where "(n, i) \<in> set (spread ?a ?b)" "aliasFromInput n i = Inr m" by (auto simp: bindE_Inr_iff dest!: sym [of "Inr _"])
    then show ?thesis using decoded alias_usable by blast
  qed
  moreover have "\<forall>(n, m) \<in> set builtInAliases. aliasUsable m" using builtIn_usable by (simp add: list_all_iff)
  ultimately show ?thesis unfolding configured(1) by (intro values_of_spread) auto
qed

section \<open>Merged settings\<close>

lemma merged_checks:
  assumes "mergeConfigurationSettings host g w = Inr s"
  shows "mergedModels g w = Inr (sgModels s)" "mergedModes g w = Inr (sgModes s)" "sgProviders s = mergedProviders host g w"
    "map_of (sgModes s) (sgDefaultMode s) \<noteq> None" "assertRoutesReferenceKnownModels s = Inr ()" "assertPainterSupportsMedia s = Inr ()"
  using assms by (auto simp: mergeConfigurationSettings_def Let_def bindE_Inr_iff split: if_splits)

definition routeKnown :: "settings \<Rightarrow> role_route \<Rightarrow> bool" where
  "routeKnown s r \<longleftrightarrow> (case roTarget r of AliasTarget a \<Rightarrow> map_of (sgModels s) a \<noteq> None | DirectTarget _ _ \<Rightarrow> True)"

lemma routes_known:
  assumes "assertRoutesReferenceKnownModels s = Inr ()" "(path, r) \<in> set (settingsRoutes s)"
  shows "routeKnown s r"
proof -
  have "checkRoute s (path, r) = Inr ()" using assms by (auto simp: assertRoutesReferenceKnownModels_def foldlE_unit_Inr)
  then show ?thesis by (auto simp: checkRoute_def routeKnown_def require_def split: route_target.splits if_splits)
qed

lemma mode_routes_known:
  assumes "assertRoutesReferenceKnownModels s = Inr ()" "map_of (sgModes s) mode = Some c"
  shows "routeKnown s (roleOf role c)" "routeKnown s (agentRoute c a)"
proof -
  have "(mode, c) \<in> set (sgModes s)" using assms(2) by (rule map_of_SomeD)
  then have mem: "p \<in> set (settingsRoutes s)" if "p \<in> set (modeRoutes (mode, c))" for p
    using that by (auto simp: settingsRoutes_def)
  have roles: "routeKnown s (mcMain c)" "routeKnown s (mcOracle c)"
    using routes_known [OF assms(1) mem, of "[''modes'', mode, ''main'']" "mcMain c"]
      routes_known [OF assms(1) mem, of "[''modes'', mode, ''oracle'']" "mcOracle c"]
    by (simp_all add: modeRoutes_def)
  then show "routeKnown s (roleOf role c)" by (cases role) simp_all
  show "routeKnown s (agentRoute c a)"
  proof (cases "map_of (mcAgents c) a")
    case None
    then show ?thesis using roles by (simp add: agentRoute_def)
  next
    case (Some r)
    then have "(a, r) \<in> set (mcAgents c)" by (rule map_of_SomeD)
    then have "([''modes'', mode, ''agents'', agentName a], r) \<in> set (modeRoutes (mode, c))" by (force simp: modeRoutes_def)
    from routes_known [OF assms(1) mem [OF this]] show ?thesis by (simp add: agentRoute_def Some)
  qed
qed

definition routeUsable :: "resolved_route \<Rightarrow> bool" where
  "routeUsable v \<longleftrightarrow> rvCandidates v \<noteq> [] \<and> rvModel v = hd (rvCandidates v) \<and> 0 \<le> rvReserve v \<and> 0 < rvMaxOutput v \<and> 0 < rvKeepRecent v \<and>
     rvReserve v < rvContext v"

lemma resolve_usable:
  assumes "routeKnown s r" "\<forall>(n, m) \<in> set (sgModels s). aliasUsable m"
  shows "\<exists>v. resolveRoute s r owner = Inr v \<and> routeUsable v"
proof -
  obtain source where source: "routeSource s r owner = Inr source" "optionAll aliasUsable (sourceAlias source)"
    "sourceCandidates source \<noteq> []"
  proof (cases "roTarget r")
    case (DirectTarget p m)
    show thesis by (rule that [of "DirectSource p m"]) (simp_all add: routeSource_def DirectTarget)
  next
    case (AliasTarget a)
    then obtain m where m: "map_of (sgModels s) a = Some m" using assms(1) by (auto simp: routeKnown_def)
    then have "aliasUsable m" using assms(2) map_of_SomeD by fastforce
    with m AliasTarget show thesis using that [of "AliasSource a m"] by (simp add: routeSource_def aliasUsable_def)
  qed
  let ?c = "providerConnection (sgProviders s) (sourceProvider source)"
  let ?l = "resolvedLimits (sourceAlias source) ?c"
  have limits: "limitsDecoded ?l"
    using source(2) by (cases "sourceAlias source")
      (auto simp: resolvedLimits_def aliasUsable_def presetFor_def openaiPreset_def claudePreset_def limitsDecoded_def)
  obtain model rest where cs: "sourceCandidates source = model # rest" using source(3) by (cases "sourceCandidates source") auto
  obtain options fast where v: "selectedVariant (sourceAlias source) r ?c = (options, fast)" by fastforce
  show ?thesis using limits
    by (cases "mlContext ?l") (simp_all add: resolveRoute_def source(1) cs v Let_def routeUsable_def limitsDecoded_def)
qed

text \<open>
  C38: merged settings always resolve.  When two decoded inputs merge, every role and every agent of
  every mode, tuned or not, and the title and the compaction of a thread resolve to a model: the
  first of at least one candidate, with a window that leaves room for its input and a reserve
  that is never negative.
\<close>

theorem merged_settings_resolve:
  assumes "mergeConfigurationSettings host g w = Inr s" "inputDecoded g" "inputDecoded w" "map_of (sgModes s) mode \<noteq> None"
  shows "(\<exists>v. resolveModelRoute s mode role = Inr v \<and> routeUsable v) \<and> (\<exists>v. resolveAgentRoute s mode a fastMode = Inr v \<and> routeUsable v) \<and>
    (\<exists>v. resolveThreadTitleRoute s = Inr v \<and> routeUsable v) \<and> (\<exists>v. resolveCompactionSummaryRoute s = Inr v \<and> routeUsable v) \<and>
    map_of (sgModes s) (sgDefaultMode s) \<noteq> None"
proof -
  note checks = merged_checks [OF assms(1)]
  have usable: "\<forall>(n, m) \<in> set (sgModels s). aliasUsable m" by (rule models_usable [OF checks(1) assms(2,3)])
  obtain c where c: "map_of (sgModes s) mode = Some c" using assms(4) by blast
  have fast: "routeKnown s (r\<lparr>roFast := f\<rparr>) = routeKnown s r" for r f by (simp add: routeKnown_def)
  have "routeKnown s (sgTitle s)" "routeKnown s (sgCompaction s)"
    using routes_known [OF checks(5), of "[''modelRoutes'', ''title'']" "sgTitle s"]
      routes_known [OF checks(5), of "[''modelRoutes'', ''compaction'']" "sgCompaction s"]
    by (simp_all add: settingsRoutes_def)
  then show ?thesis using mode_routes_known [OF checks(5) c] checks(4) resolve_usable [OF _ usable]
    by (simp add: resolveModelRoute_def resolveAgentRoute_def resolveThreadTitleRoute_def resolveCompactionSummaryRoute_def c Let_def fast)
qed

section \<open>Checks that the merge loses\<close>

definition emptyInput :: settings_input where
  "emptyInput = \<lparr>siProviders = [], siAliases = None, siDefaultMode = None, siModes = None, siTitle = None, siCompaction = None,
     siMaxDepth = None, siMaxSubagents = None, siKeymap = [], siExtensionRoots = None, siMcp = [], siNotify = None,
     siNotifyCommand = None, siLogLevel = None, siWebSearch = []\<rparr>"

text \<open>An alias whose model takes no images, used by the oracle of the only mode.\<close>

definition blindAlias :: alias_input where
  "blindAlias = \<lparr>alPreset = None, alProvider = OpenaiProvider, alCandidates = [''text''], alDisplayName = None, alMedia = None,
     alLimits = Some \<lparr>mlContext = None, mlMaxInput = 10, mlMaxOutput = 5, mlKeepRecent = 5\<rparr>,
     alEfforts = Some [(EffortMedium, \<lparr>vrNormal = JObject [], vrFast = None\<rparr>)]\<rparr>"

definition namedRoute :: "string \<Rightarrow> route_input" where
  "namedRoute a = \<lparr>xrTarget = AliasTarget a, xrEffort = None, xrFast = None\<rparr>"

definition blindInput :: settings_input where
  "blindInput = emptyInput\<lparr>siAliases := Some [(''blind'', blindAlias)], siDefaultMode := Some ''m'',
     siModes := Some [(''m'', \<lparr>miMain = Some (namedRoute ''sol''), miOracle = Some (namedRoute ''blind''), miAgents = []\<rparr>)]\<rparr>"

text \<open>A painter that a mode names itself sees.\<close>

lemma checked_painter:
  assumes "assertPainterSupportsMedia s = Inr ()" "map_of (sgModes s) mode = Some c" "map_of (mcAgents c) AgentPainter = Some r"
    and "roTarget r = AliasTarget a" "map_of (sgModels s) a = Some m"
  shows "maMedia m"
proof -
  have "checkPainter s (mode, c) = Inr ()"
    using assms(1) map_of_SomeD [OF assms(2)] by (auto simp: assertPainterSupportsMedia_def foldlE_unit_Inr)
  with assms(3-5) show ?thesis by (simp add: checkPainter_def require_def split: if_splits)
qed

text \<open>
  C39: an inherited painter may see nothing.  The merge refuses a mode that names an alias without
  media for its painter, but not one whose painter takes the route of the oracle: there are
  decoded settings that merge and whose painter resolves to an alias without media.
\<close>

theorem inherited_painter_may_be_blind:
  "\<exists>g w s v m. inputDecoded g \<and> inputDecoded w \<and> mergeConfigurationSettings (\<lambda>_. None) g w = Inr s \<and>
     resolveAgentRoute s (sgDefaultMode s) AgentPainter None = Inr v \<and> map_of (sgModels s) (rvSelection v) = Some m \<and> \<not> maMedia m"
proof -
  have "(case mergeConfigurationSettings (\<lambda>_. None) blindInput emptyInput of Inl _ \<Rightarrow> False | Inr s \<Rightarrow>
      (case resolveAgentRoute s (sgDefaultMode s) AgentPainter None of Inl _ \<Rightarrow> False | Inr v \<Rightarrow>
        (case map_of (sgModels s) (rvSelection v) of None \<Rightarrow> False | Some m \<Rightarrow> \<not> maMedia m)))" by code_simp
  then obtain s v m where "mergeConfigurationSettings (\<lambda>_. None) blindInput emptyInput = Inr s"
    "resolveAgentRoute s (sgDefaultMode s) AgentPainter None = Inr v" "map_of (sgModels s) (rvSelection v) = Some m" "\<not> maMedia m"
    by (auto split: sum.splits option.splits)
  moreover have "inputDecoded blindInput" "inputDecoded emptyInput" by code_simp+
  ultimately show ?thesis by blast
qed

definition bedrockInput :: "bedrock_override \<Rightarrow> settings_input" where
  "bedrockInput b = emptyInput\<lparr>siProviders := [(BedrockProvider, BedrockOverride b)]\<rparr>"

definition noBedrockFields :: bedrock_override where
  "noBedrockFields = \<lparr>boAuthMode = None, boRegion = None, boProfile = None, boEndpoint = None, boRefresh = None\<rparr>"

text \<open>A connection, written as an override.\<close>

definition connectionOverride :: "bedrock_connection \<Rightarrow> bedrock_override" where
  "connectionOverride c = \<lparr>boAuthMode = Some (bcAuthMode c), boRegion = bcRegion c, boProfile = bcProfile c, boEndpoint = bcEndpoint c,
     boRefresh = bcRefresh c\<rparr>"

text \<open>
  C40: the two scopes may add up to what neither may say.  The decoder refuses a command that
  refreshes credentials beside bearer authentication; one scope that sets the command and
  another that sets bearer authentication are both decoded and merge to a connection with both,
  which the decoder would refuse.
\<close>

theorem merged_bedrock_refreshes_bearer:
  "\<exists>g w s. inputDecoded g \<and> inputDecoded w \<and> mergeConfigurationSettings (\<lambda>_. None) g w = Inr s \<and>
     bcAuthMode (pcBedrock (sgProviders s)) = AuthBearer \<and> bcRefresh (pcBedrock (sgProviders s)) \<noteq> None \<and>
     \<not> inputDecoded (bedrockInput (connectionOverride (pcBedrock (sgProviders s))))"
proof -
  let ?g = "bedrockInput (noBedrockFields\<lparr>boRefresh := Some \<lparr>afCommand = ''aws'', afArgs = []\<rparr>\<rparr>)"
  let ?w = "bedrockInput (noBedrockFields\<lparr>boAuthMode := Some AuthBearer\<rparr>)"
  have "(case mergeConfigurationSettings (\<lambda>_. None) ?g ?w of Inl _ \<Rightarrow> False | Inr s \<Rightarrow>
      bcAuthMode (pcBedrock (sgProviders s)) = AuthBearer \<and> bcRefresh (pcBedrock (sgProviders s)) \<noteq> None \<and>
      \<not> inputDecoded (bedrockInput (connectionOverride (pcBedrock (sgProviders s)))))" by code_simp
  then obtain s where "mergeConfigurationSettings (\<lambda>_. None) ?g ?w = Inr s" "bcAuthMode (pcBedrock (sgProviders s)) = AuthBearer"
    "bcRefresh (pcBedrock (sgProviders s)) \<noteq> None" "\<not> inputDecoded (bedrockInput (connectionOverride (pcBedrock (sgProviders s))))"
    by (auto split: sum.splits)
  moreover have "inputDecoded ?g" "inputDecoded ?w" by code_simp+
  ultimately show ?thesis by blast
qed

section \<open>Witnesses\<close>

theorem merged_settings_resolve_witness:
  "\<exists>s v. mergeConfigurationSettings (\<lambda>_. None) emptyInput blindInput = Inr s \<and> resolveModelRoute s ''m'' RoleOracle = Inr v \<and> 0 \<le> rvReserve v"
proof -
  have "(case mergeConfigurationSettings (\<lambda>_. None) emptyInput blindInput of Inl _ \<Rightarrow> False | Inr s \<Rightarrow> map_of (sgModes s) ''m'' \<noteq> None)"
    by code_simp
  then obtain s where s: "mergeConfigurationSettings (\<lambda>_. None) emptyInput blindInput = Inr s" "map_of (sgModes s) ''m'' \<noteq> None"
    by (auto split: sum.splits)
  have "inputDecoded emptyInput" "inputDecoded blindInput" by code_simp+
  from merged_settings_resolve [OF s(1) this s(2), of RoleOracle AgentTask None] s(1) show ?thesis by (auto simp: routeUsable_def)
qed

end
