(* ===== verification/Spec2Isabelle.thy ===== *)
theory Spec2Isabelle
  imports Turn_Pages Assignment_Orphans Tar_Properties Transcript_Properties View_Limits Client_Properties
    Protocol_Turns Operation_Ends Config_Properties
begin

text \<open>
  A model of the state-keeping core of rika, an agent product whose threads are hosted: the
  database transactions that order the work of a thread, the leases of the machines that do
  it, the log its clients follow, and the code by which a feed, a browser and a thread client
  show the same thread.  Every definition is a function of the source, read at src/packages and
  src/apps of this commit; every operation that may fail returns an error or a result.

  \<^bold>\<open>Parts and how they interact.\<close>
  A prompt reaches the server as a command of a thread.  The thread protocol store admits it
  under the next version of the thread, a worker claims it in the order of versions and applies
  it: in one transaction the command becomes a turn of the turn store, accepted when the thread
  is free and queued otherwise, and the events that tell of it are appended to the log of the
  thread.  The turn store keeps the queue of each thread, the claims on it and the steering
  requests that take a turn out of the queue.  A turn runs on an executor, a machine that holds
  a lease: the assignment store decides which session of which executor is current and refuses
  all others.  The tools of a turn run there as operations: the journal of tool operations
  records each one, dispatches it to the current executor under its lease, keeps the frames the
  executor reports and fixes how the operation ended.  Files of a workspace enter as an archive
  that is inspected while it streams.  Which models the roles and agents of a turn use is
  resolved from settings that merge a global file with that of the workspace.  Clients replay the log or follow it live: the feed of a session publishes
  snapshots, patches and events, a browser applies them, and the thread client projects the
  events of a hosted session to what it shows.

  \<^bold>\<open>Theories and code\<close> (P stands for packages/product/src, S for packages/product-store/src).
  \<^item> Prelude: results as sums, tables as lists of rows, ordering of queries, and the locales
    \<open>fallible_store\<close> (operations keep an invariant), \<open>evolving_store\<close> (and a relation along
    runs) and a comparator for sorting, each interpreted by the components.
  \<^item> Turn store: Turn_Model (P/execution/session/status.ts, thread/turn/record.ts,
    S/turn/postgres/row-codec.ts), Turn_Database (the tables, S/database/schema, with constraints,
    the insert trigger and cascades; S/turn/postgres/errors.ts), Turn_Queue (queue.ts),
    Turn_Steering (steering-admission.ts), Turn_Lifecycle (submission.ts, state.ts, admission.ts,
    recorded-shell.ts, reader.ts, queries.ts, repository.ts).  Turn_Invariant and Turn_Statements
    state the invariant and what each SQL statement does to it and to the drift of the queue
    counter; Turn_Store puts the operations together (\<open>turnStore\<close>); Turn_Transitions has the
    status machine; Turn_Properties, Steering_Properties and Turn_Pages have the properties.
  \<^item> Executor assignments (S/hosted/assignment-store): Assignment_Model, Assignment_Database,
    Assignment_Store; Assignment_Steps (each operation replaces exactly the row it locked),
    Assignment_Fencing (invariant, evolution and the locale \<open>fenced_store\<close>: an authority that was
    lost is never held again), Assignment_Lifecycle, Assignment_Properties, Assignment_Orphans.
  \<^item> Thread protocol store (S/hosted/thread-protocol, thread-protocol-store.ts, authority.ts;
    P/hosted/identity/authorization.ts): Protocol_Authority (clients, memberships, roles),
    Protocol_Model (tables and constraints), Protocol_Log (events.ts), Protocol_Commands
    (commands.ts), Protocol_Prompt (command-application.ts), Protocol_Connections
    (connections.ts).  Protocol_Moves breaks every operation into a few kinds of moves;
    Protocol_Invariant proves the invariant from the moves (\<open>protocol_store\<close>); Protocol_Replay,
    Protocol_Lane and Protocol_Properties have the properties, Protocol_Turns those that join
    this store with the turn store (\<open>prompt_turns\<close>), Protocol_Samples the sample states.
  \<^item> Tool operation journal (S/hosted/execution; P/execution/tool): Operation_Model (tables and
    constraints, beside the tables of assignments and of the authority), Operation_Journal
    (operation-dispatch.ts, operation-lifecycle.ts, operation-finalization.ts),
    Operation_Admissions (operation-admissions.ts), Operation_Observations
    (process-observation.ts).  Operation_Moves puts the operations and those of the assignment
    store into one store and breaks them into moves; Operation_Invariant has the invariant and
    how a journal evolves (\<open>journalStore\<close>); Operation_Properties (dispatch and frames) and
    Operation_Ends (ends, tickets and exits) have the properties.
  \<^item> Archive inspector (packages/workspace-input/src/internal/tar.ts): Tar_Format, Tar_Inspector;
    Tar_Stream (a reference that takes one byte at a time), Tar_Invariant, Tar_Properties.
  \<^item> Transcript order and identity (packages/transcript/src/ordering): Transcript_Order,
    Transcript_Identity, Transcript_Properties; segments are a \<open>linorder\<close>.
  \<^item> Live thread views: View_Model, View_State, View_Apply (P/thread/view), View_Feed
    (P/operation/interactive/view), View_Client (apps/web/src/client/thread-socket.ts);
    View_Index, View_Patch (what a patch does), View_Mirror (the locale \<open>replicated_view\<close>),
    View_Settled, View_Follow, View_Properties, View_Limits.
  \<^item> Session projection and thread client (packages/client/src/projection.ts, thread.ts):
    Client_Model, Client_Projection, Client_Threads, Client_Selection, Client_Commands, with
    Client_Steps as the step relation over all interleavings of the operations at their awaits;
    Client_Run, Client_Selected, Client_History, Client_Properties.

  \<^item> Settings and model routes (packages/configuration/src): Config_Model (settings/input.ts,
    model.ts, defaults.ts, model-routing/model-route.ts, model-catalog.ts, model-preset.ts),
    Config_Merge (settings/merge.ts and the checks of the decoders it relies on), Config_Routes
    (model-routing/model-route-resolution.ts), Config_Properties.

  \<^bold>\<open>What the lemmas show.\<close>
  For each store: its invariant holds after every run of its operations from an empty
  database; its identities, versions, cursors and terminal states only move forward; a retry of
  an operation is answered and writes nothing; fences, claims, tickets and versions are single
  use.  For the turn store: the hand-maintained queue counter is exact.  For the log: replays
  have no gap, whatever was compacted.  For assignments: they refine an abstract lease, and a
  lost lease is never honoured again.  For the inspector: the cutting into chunks does not
  matter, what is accepted stays inside the workspace, memory is bounded.  For the journal: an
  operation is dispatched once, to one executor, and never under a lost lease; its frames form
  a log whose receipt decides its end, and the end stays.  For views: patches do
  exactly what they say, and a browser that follows a feed shows what the feed shows.  For the
  client: what it shows is a prefix of the server's log and belongs to the selected thread.  For
  settings: what merges always resolves to models.
  Some lemmas show where the code departs from this (an error property or a lemma of a sample
  run each): the counter after a requeue under a live request, a lease limit broken by a late
  transaction, a byte order mark that hides a link, a child session shown under another thread,
  a cancellation refused because of a claim, a prompt that overfills a queue, a completion that
  its table refuses, a notification that is lost with its callback, checks of settings that a
  merge or an inherited route escapes.

  \<^bold>\<open>Modelling choices.\<close>
  A transaction is a function of the whole database of its component; row locks make the
  transactions of the code serial in the order of their locks, and a run is a list of
  operations.  A statement is followed by the constraints of its tables; where they fail the
  transaction fails with the database error of the store, and the database stays as it was.
  Text of these errors is not modelled.  JSON columns hold decoded values: the schema library
  gives back what it encoded, and what the current schema does not decode is a case of the
  model where the code handles it.  Text is a list of characters or of UTF-16 units where the
  code looks at units; identifiers compare as bytes.  Instants, counts, versions and cursors are
  integers; those kept as JavaScript numbers are below two to the fifty-third, bigint columns
  below two to the sixty-third.  Bytes are 8-bit words.  Clocks, generated tokens and digests,
  the decompressor, the codec of events and snapshots, the runtime's answer to a staged turn
  and the pages of a server are arguments.  Asynchronous code is cut at its awaits, and the
  continuations may run in any order.

  \<^bold>\<open>Bounds and fuel.\<close>
  Only the loop of the inspector over a chunk takes fuel (\<open>feedLoop\<close> in Tar_Inspector): as many units
  as the chunk has bytes, and Tar_Stream proves that this is always enough.  All
  other loops are structural or end by a measure (the walk through older history by the entries
  that are missing).  Limits are those of the code: 50 turns in a page unless asked otherwise
  and at most 200, one to a thousand events in a replay, 64 cursors between checkpoints, 16
  outputs of an operation, 32 receipts in a recovery scan, five minutes for the ticket of a
  runner, and the limits of the archive.

  \<^bold>\<open>Not modelled.\<close>
  The other hosted stores (environments, credentials, publication, presence, registrations):
  encryption and calls to services around single-row writes.  The interactive operations and
  the dispatch of the product: fibers and streams over the modelled stores.  Runner, box
  executor, terminal, applications, settings files, extensions, identity and the GitHub
  application: processes, files, sockets, HTTP and rendering.  Within modelled parts: the
  opening and superseding of browser connections, listeners, logging and tracing, and the
  deletion of rows by cascade from owners and threads, which no modelled operation triggers.
\<close>

end
